(* ===== verification/Prelude.thy ===== *)
theory Prelude
  imports Main "HOL-Library.Word" "HOL-Library.List_Lexorder" "HOL-Library.Char_ord"
begin

text \<open>
  Shared vocabulary of the development.

  \<^item> A Rust \<open>Result<T, E>\<close> is a sum \<open>'e + 'a\<close>; the \<open>?\<close> operator is \<open>bindr\<close>, an early
    return guarded by a condition is \<open>require\<close>, \<open>map_err\<close> and \<open>ok_or\<close> are the methods
    of the same names, and a \<open>for\<close> loop whose body may return early is \<open>for_each\<close>.
  \<^item> A Rust \<open>String\<close> is an Isabelle \<open>string\<close> read as its UTF-8 bytes; a byte slice is a list
    of 8-bit words; both are ordered lexicographically as Rust orders them.
  \<^item> Functions of crates outside the repository (base64, hex, SHA-256, HMAC, Ed25519, the
    AEAD) are fields of the record \<open>ext\<close>, which every definition that uses them takes as
    its first argument.
\<close>

section \<open>Types\<close>

type_synonym u8 = "8 word"
type_synonym u16 = "16 word"
type_synonym u32 = "32 word"
type_synonym u64 = "64 word"
type_synonym bytes = "u8 list"

record ext =
  std_encode :: "bytes \<Rightarrow> string"
  std_decode :: "string \<Rightarrow> bytes option"
  url_encode :: "bytes \<Rightarrow> string"
  url_decode :: "string \<Rightarrow> bytes option"
  hex_encode :: "bytes \<Rightarrow> string"
  hex_decode :: "string \<Rightarrow> bytes option"
  sha256 :: "bytes \<Rightarrow> bytes"
  hmac_sha256 :: "bytes \<Rightarrow> bytes \<Rightarrow> bytes"
  hkdf_sha256 :: "bytes \<Rightarrow> bytes \<Rightarrow> bytes \<Rightarrow> nat \<Rightarrow> bytes"
  ed25519_key_ok :: "bytes \<Rightarrow> bool"
  ed25519_public :: "bytes \<Rightarrow> bytes"
  ed25519_sign :: "bytes \<Rightarrow> bytes \<Rightarrow> bytes"
  ed25519_ok :: "bytes \<Rightarrow> bytes \<Rightarrow> bytes \<Rightarrow> bool"
  aead_seal :: "bytes \<Rightarrow> bytes \<Rightarrow> bytes \<Rightarrow> bytes \<Rightarrow> bytes option"
  aead_open :: "bytes \<Rightarrow> bytes \<Rightarrow> bytes \<Rightarrow> bytes \<Rightarrow> bytes option"

section \<open>Results\<close>

definition bindr :: "'e + 'a \<Rightarrow> ('a \<Rightarrow> 'e + 'b) \<Rightarrow> 'e + 'b" where
  "bindr r f = (case r of Inl e \<Rightarrow> Inl e | Inr x \<Rightarrow> f x)"

definition require :: "bool \<Rightarrow> 'e \<Rightarrow> 'e + unit" where
  "require c e = (if c then Inr () else Inl e)"

definition map_err :: "('d \<Rightarrow> 'e) \<Rightarrow> 'd + 'a \<Rightarrow> 'e + 'a" where
  "map_err f r = (case r of Inl d \<Rightarrow> Inl (f d) | Inr x \<Rightarrow> Inr x)"

definition ok_or :: "'a option \<Rightarrow> 'e \<Rightarrow> 'e + 'a" where
  "ok_or v e = (case v of None \<Rightarrow> Inl e | Some x \<Rightarrow> Inr x)"

fun is_ok :: "'e + 'a \<Rightarrow> bool" where
  "is_ok (Inl _) = False"
| "is_ok (Inr _) = True"

fun ok :: "'e + 'a \<Rightarrow> 'a option" where
  "ok (Inl _) = None"
| "ok (Inr x) = Some x"

lemma bindr_simps [simp]: "bindr (Inl e) f = Inl e" "bindr (Inr x) f = f x"
  by (simp_all add: bindr_def)

lemma bindr_Inr_iff [simp]: "(bindr r f = Inr y) = (\<exists>x. r = Inr x \<and> f x = Inr y)"
  by (cases r) simp_all

lemma bindr_Inr_iff' [simp]: "(Inr y = bindr r f) = (\<exists>x. r = Inr x \<and> f x = Inr y)"
  by (cases r) auto

lemma bindr_Inl_iff: "(bindr r f = Inl e) = (r = Inl e \<or> (\<exists>x. r = Inr x \<and> f x = Inl e))"
  by (cases r) auto

lemma bindr_cong [cong]: "r = r' \<Longrightarrow> bindr r f = bindr r' f"
  by simp

lemma require_Inr_iff [simp]: "(require c e = Inr u) = c"
  by (simp add: require_def)

lemma require_Inl_iff [simp]: "(require c e = Inl e') = (\<not> c \<and> e' = e)"
  by (auto simp: require_def)

lemma require_simps [simp]: "require True e = Inr ()" "require False e = Inl e"
  by (simp_all add: require_def)

lemma map_err_simps [simp]: "map_err g (Inl e) = Inl (g e)" "map_err g (Inr x) = Inr x"
  by (simp_all add: map_err_def)

lemma map_err_Inr_iff [simp]: "(map_err g r = Inr x) = (r = Inr x)"
  by (cases r) simp_all

lemma ok_or_simps [simp]: "ok_or None e = Inl e" "ok_or (Some x) e = Inr x"
  by (simp_all add: ok_or_def)

lemma ok_or_Inr_iff [simp]: "(ok_or v e = Inr x) = (v = Some x)"
  by (cases v) simp_all

lemma is_ok_iff: "is_ok r = (\<exists>x. r = Inr x)"
  by (cases r) simp_all

lemma ok_Some_iff [simp]: "(ok r = Some x) = (r = Inr x)"
  by (cases r) simp_all

fun for_each :: "('a \<Rightarrow> 'e + unit) \<Rightarrow> 'a list \<Rightarrow> 'e + unit" where
  "for_each f [] = Inr ()"
| "for_each f (x # xs) = bindr (f x) (\<lambda>_. for_each f xs)"

lemma for_each_Inr_iff [simp]: "(for_each f xs = Inr u) = (\<forall>x\<in>set xs. f x = Inr ())"
  by (induction xs) auto

fun collectr :: "('a \<Rightarrow> 'e + 'b) \<Rightarrow> 'a list \<Rightarrow> 'e + 'b list" where
  "collectr f [] = Inr []"
| "collectr f (x # xs) = bindr (f x) (\<lambda>y. bindr (collectr f xs) (\<lambda>ys. Inr (y # ys)))"

lemma collectr_Inr_iff: "(collectr f xs = Inr ys) = (map f xs = map Inr ys)"
  by (induction xs arbitrary: ys) (auto simp: Cons_eq_map_conv)

lemma collectr_Inr_fun:
  "(\<And>a b. f a = Inr b \<longleftrightarrow> P a \<and> b = g a) \<Longrightarrow>
     collectr f xs = Inr ys \<longleftrightarrow> (\<forall>a\<in>set xs. P a) \<and> ys = map g xs"
  by (induction xs arbitrary: ys) auto

text \<open>The error type of the crypto crate (\<open>error.rs\<close>), as far as its code here raises it.\<close>

datatype crypto_error =
    InvalidInput string
  | InvalidLength nat nat
  | TooShort
  | Backend string
  | AuthFailed
  | Base64

section \<open>List operations of the standard library\<close>

text \<open>\<open>iter().position(p)\<close>, \<open>Vec::remove(i)\<close>, and \<open>iter_mut().find(p)\<close> with an assignment
  through the reference it returns.\<close>

fun position :: "('a \<Rightarrow> bool) \<Rightarrow> 'a list \<Rightarrow> nat option" where
  "position p [] = None"
| "position p (x # xs) = (if p x then Some 0 else map_option Suc (position p xs))"

definition remove_at :: "nat \<Rightarrow> 'a list \<Rightarrow> 'a list" where
  "remove_at i xs = take i xs @ drop (Suc i) xs"

definition insert_at :: "nat \<Rightarrow> 'a \<Rightarrow> 'a list \<Rightarrow> 'a list" where
  "insert_at i x xs = take i xs @ x # drop i xs"

fun update_first :: "('a \<Rightarrow> bool) \<Rightarrow> ('a \<Rightarrow> 'a) \<Rightarrow> 'a list \<Rightarrow> 'a list option" where
  "update_first p f [] = None"
| "update_first p f (x # xs) =
     (if p x then Some (f x # xs) else map_option ((#) x) (update_first p f xs))"

text \<open>\<open>Vec::resize\<close>, \<open>Vec::truncate\<close> and \<open>iter().rposition(p)\<close>.\<close>

definition resize :: "nat \<Rightarrow> 'a \<Rightarrow> 'a list \<Rightarrow> 'a list" where
  "resize n v xs = take n xs @ replicate (n - length xs) v"

fun rposition :: "('a \<Rightarrow> bool) \<Rightarrow> 'a list \<Rightarrow> nat option" where
  "rposition p [] = None"
| "rposition p (x # xs) =
     (case rposition p xs of Some i \<Rightarrow> Some (Suc i) | None \<Rightarrow> if p x then Some 0 else None)"

lemma rposition_None_iff: "rposition p xs = None \<longleftrightarrow> (\<forall>x\<in>set xs. \<not> p x)"
  by (induction xs) (auto split: option.splits)

lemma rposition_Some_iff:
  "rposition p xs = Some i \<longleftrightarrow>
     i < length xs \<and> p (xs ! i) \<and> (\<forall>j. i < j \<and> j < length xs \<longrightarrow> \<not> p (xs ! j))"
proof (induction xs arbitrary: i)
  case Nil
  show ?case by simp
next
  case (Cons x xs)
  show ?case
  proof (cases "rposition p xs")
    case None
    then have "\<forall>j<length xs. \<not> p (xs ! j)" by (auto simp: rposition_None_iff)
    with None show ?thesis
      by (cases i) (auto simp: nth_Cons split: nat.splits)
  next
    case (Some k)
    with Cons.IH [of k] have k: "k < length xs" "p (xs ! k)"
      "\<forall>j. k < j \<and> j < length xs \<longrightarrow> \<not> p (xs ! j)" by auto
    show ?thesis
    proof (cases i)
      case 0
      with Some k show ?thesis by (auto simp: nth_Cons split: nat.splits)
    next
      case (Suc n)
      with Some Cons.IH [of n] show ?thesis
        by (auto simp: nth_Cons split: nat.splits)
    qed
  qed
qed

definition any :: "('a \<Rightarrow> bool) \<Rightarrow> 'a list \<Rightarrow> bool" where
  "any p xs = list_ex p xs"

lemma any_iff [simp]: "any p xs = (\<exists>x\<in>set xs. p x)"
  by (simp add: any_def list_ex_iff)

lemma find_Some_in: "List.find p xs = Some x \<Longrightarrow> x \<in> set xs \<and> p x"
  by (induction xs) (auto split: if_splits)

lemma find_None_all: "List.find p xs = None \<longleftrightarrow> (\<forall>x\<in>set xs. \<not> p x)"
  by (induction xs) auto

lemma position_SomeD:
  "position p xs = Some i \<Longrightarrow> i < length xs \<and> p (xs ! i) \<and> (\<forall>j<i. \<not> p (xs ! j))"
  by (induction xs arbitrary: i) (auto split: if_splits simp: less_Suc_eq_0_disj nth_Cons')

lemma position_None_iff [simp]: "position p xs = None \<longleftrightarrow> (\<forall>x\<in>set xs. \<not> p x)"
  by (induction xs) auto

lemma remove_at_simps [simp]:
  "remove_at 0 (x # xs) = xs" "remove_at (Suc i) (x # xs) = x # remove_at i xs"
  "remove_at i [] = []"
  by (simp_all add: remove_at_def)

lemma set_remove_at_subset: "set (remove_at i xs) \<subseteq> set xs"
  unfolding remove_at_def using set_take_subset set_drop_subset by fastforce

lemma length_remove_at: "i < length xs \<Longrightarrow> Suc (length (remove_at i xs)) = length xs"
  by (simp add: remove_at_def)

lemma insert_remove_at: "i < length xs \<Longrightarrow> set xs = insert (xs ! i) (set (remove_at i xs))"
  unfolding remove_at_def
  by (subst id_take_nth_drop [of i xs]) auto

lemma remove_at_position:
  "position p xs = Some i \<Longrightarrow> \<exists>ys x zs. xs = ys @ x # zs \<and> p x \<and> (\<forall>y\<in>set ys. \<not> p y) \<and>
     xs ! i = x \<and> remove_at i xs = ys @ zs"
proof (induction xs arbitrary: i)
  case Nil
  then show ?case by simp
next
  case (Cons a xs)
  show ?case
  proof (cases "p a")
    case True
    with Cons.prems have "i = 0" by simp
    with True show ?thesis by (intro exI [of _ "[]"]) auto
  next
    case False
    with Cons.prems obtain j where j: "position p xs = Some j" "i = Suc j" by auto
    from Cons.IH [OF j(1)] obtain ys x zs where
      "xs = ys @ x # zs" "p x" "\<forall>y\<in>set ys. \<not> p y" "xs ! j = x" "remove_at j xs = ys @ zs"
      by blast
    with False j(2) show ?thesis
      by (intro exI [of _ "a # ys"] exI [of _ x] exI [of _ zs]) simp
  qed
qed

lemma remove_at_split:
  "position p xs = Some i \<Longrightarrow> \<exists>ys x zs. xs = ys @ x # zs \<and> p x \<and> (\<forall>y\<in>set ys. \<not> p y) \<and>
     remove_at i xs = ys @ zs"
  using remove_at_position by blast

lemma remove_at_filter:
  "position (\<lambda>x. k x = a) xs = Some i \<Longrightarrow> distinct (map k xs) \<Longrightarrow>
     remove_at i xs = filter (\<lambda>x. k x \<noteq> a) xs"
proof -
  assume p: "position (\<lambda>x. k x = a) xs = Some i" and d: "distinct (map k xs)"
  from remove_at_position [OF p] obtain ys x zs where
    "xs = ys @ x # zs" "k x = a" "\<forall>y\<in>set ys. k y \<noteq> a" "remove_at i xs = ys @ zs"
    by blast
  moreover from this d have "\<forall>z\<in>set zs. k z \<noteq> a" by (auto simp: image_iff)
  ultimately show ?thesis by simp
qed

lemma update_first_SomeD:
  "update_first p f xs = Some ys \<Longrightarrow>
     \<exists>as x bs. xs = as @ x # bs \<and> p x \<and> (\<forall>a\<in>set as. \<not> p a) \<and> ys = as @ f x # bs"
proof (induction xs arbitrary: ys)
  case Nil
  then show ?case by simp
next
  case (Cons a xs)
  show ?case
  proof (cases "p a")
    case True
    with Cons.prems show ?thesis by (intro exI [of _ "[]"]) auto
  next
    case False
    with Cons.prems obtain zs where z: "update_first p f xs = Some zs" "ys = a # zs" by auto
    from Cons.IH [OF z(1)] obtain as x bs where
      "xs = as @ x # bs" "p x" "\<forall>a\<in>set as. \<not> p a" "zs = as @ f x # bs" by blast
    with False z(2) show ?thesis by (intro exI [of _ "a # as"]) auto
  qed
qed

section \<open>Strictly ordered validation loops\<close>

text \<open>
  The shape of every list check of the code: decode the element's key, compare it with the
  previous one, then check the rest of the element.
\<close>

fun ordered_loop ::
  "('a \<Rightarrow> 'e + 'k::linorder) \<Rightarrow> 'e \<Rightarrow> ('a \<Rightarrow> 'e + unit) \<Rightarrow> 'k option \<Rightarrow> 'a list \<Rightarrow> 'e + unit" where
  "ordered_loop dec e body prev [] = Inr ()"
| "ordered_loop dec e body prev (x # xs) =
     bindr (dec x) (\<lambda>key.
     bindr (require (\<not> (case prev of Some p \<Rightarrow> p \<ge> key | None \<Rightarrow> False)) e) (\<lambda>_.
     bindr (body x) (\<lambda>_. ordered_loop dec e body (Some key) xs)))"

lemma ordered_loop_Inr:
  "ordered_loop dec e body prev xs = Inr () \<longleftrightarrow>
     (\<exists>ks. map dec xs = map Inr ks \<and> sorted_wrt (<) ks \<and> (\<forall>x\<in>set xs. body x = Inr ()) \<and>
        (\<forall>p. prev = Some p \<longrightarrow> (\<forall>k\<in>set ks. p < k)))"
proof (induction xs arbitrary: prev)
  case Nil
  show ?case by simp
next
  case (Cons x xs)
  show ?case
  proof
    assume "ordered_loop dec e body prev (x # xs) = Inr ()"
    then obtain k where k: "dec x = Inr k" "\<not> (case prev of Some p \<Rightarrow> p \<ge> k | None \<Rightarrow> False)"
      "body x = Inr ()" "ordered_loop dec e body (Some k) xs = Inr ()"
      by auto
    from k(4) Cons.IH obtain ks where
      "map dec xs = map Inr ks" "sorted_wrt (<) ks" "\<forall>x\<in>set xs. body x = Inr ()" "\<forall>j\<in>set ks. k < j"
      by auto
    with k show "\<exists>ks. map dec (x # xs) = map Inr ks \<and> sorted_wrt (<) ks \<and>
        (\<forall>y\<in>set (x # xs). body y = Inr ()) \<and> (\<forall>p. prev = Some p \<longrightarrow> (\<forall>k\<in>set ks. p < k))"
      by (intro exI [of _ "k # ks"]) (auto split: option.splits)
  next
    assume "\<exists>ks. map dec (x # xs) = map Inr ks \<and> sorted_wrt (<) ks \<and>
        (\<forall>y\<in>set (x # xs). body y = Inr ()) \<and> (\<forall>p. prev = Some p \<longrightarrow> (\<forall>k\<in>set ks. p < k))"
    then obtain k ks where "dec x = Inr k" "map dec xs = map Inr ks" "sorted_wrt (<) (k # ks)"
      "\<forall>y\<in>set (x # xs). body y = Inr ()" "\<forall>p. prev = Some p \<longrightarrow> p < k"
      by (auto simp: Cons_eq_map_conv)
    then show "ordered_loop dec e body prev (x # xs) = Inr ()"
      by (auto simp: Cons.IH split: option.splits)
  qed
qed

text \<open>What success of the loop says: the keys decode, strictly increase, and every body holds.\<close>

lemma ordered_loop_None_Inr:
  "ordered_loop dec e body None xs = Inr () \<longleftrightarrow>
     (\<exists>ks. map dec xs = map Inr ks \<and> sorted_wrt (<) ks \<and> (\<forall>x\<in>set xs. body x = Inr ()))"
  by (simp add: ordered_loop_Inr)

lemma ordered_loop_distinct:
  assumes "ordered_loop dec e body None xs = Inr ()"
  shows "distinct (map dec xs)"
proof -
  from assms obtain ks where ks: "map dec xs = map Inr ks" "sorted_wrt (<) ks"
    by (auto simp: ordered_loop_None_Inr)
  then have "distinct ks" by (simp add: strict_sorted_iff)
  then have "distinct (map Inr ks)" by (simp add: distinct_map)
  with ks(1) show ?thesis by simp
qed

section \<open>Big-endian integers\<close>

fun to_be :: "nat \<Rightarrow> nat \<Rightarrow> bytes" where
  "to_be 0 x = []"
| "to_be (Suc n) x = to_be n (x div 256) @ [word_of_nat (x mod 256)]"

definition from_be :: "bytes \<Rightarrow> nat" where
  "from_be bs = foldl (\<lambda>a b. a * 256 + unat b) 0 bs"

definition be64 :: "u64 \<Rightarrow> bytes" where
  "be64 w = to_be 8 (unat w)"

definition of_be64 :: "bytes \<Rightarrow> u64" where
  "of_be64 bs = word_of_nat (from_be bs)"

definition be16 :: "nat \<Rightarrow> bytes" where
  "be16 n = to_be 2 n"

definition be32 :: "nat \<Rightarrow> bytes" where
  "be32 n = to_be 4 n"

lemma length_to_be [simp]: "length (to_be n x) = n"
  by (induction n arbitrary: x) simp_all

lemma from_be_snoc: "from_be (bs @ [b]) = from_be bs * 256 + unat b"
  by (simp add: from_be_def)

lemma from_to_be: "from_be (to_be n x) = x mod 256 ^ n"
proof (induction n arbitrary: x)
  case 0
  show ?case by (simp add: from_be_def)
next
  case (Suc n)
  have "unat (word_of_nat (x mod 256) :: u8) = x mod 256"
    by (simp add: unat_of_nat take_bit_eq_mod)
  then have "from_be (to_be (Suc n) x) = (x div 256) mod 256 ^ n * 256 + x mod 256"
    by (simp add: from_be_snoc Suc.IH)
  also have "\<dots> = x mod (256 * 256 ^ n)"
    by (simp add: mod_mult2_eq)
  finally show ?case by simp
qed

lemma to_be_inj: "m < 256 ^ k \<Longrightarrow> n < 256 ^ k \<Longrightarrow> to_be k m = to_be k n \<longleftrightarrow> m = n"
  by (metis from_to_be mod_less)

lemma length_be64 [simp]: "length (be64 w) = 8"
  by (simp add: be64_def)

lemma length_be16 [simp]: "length (be16 n) = 2"
  by (simp add: be16_def)

lemma length_be32 [simp]: "length (be32 n) = 4"
  by (simp add: be32_def)

lemma of_be64_be64 [simp]: "of_be64 (be64 w) = w"
proof -
  have "unat w < 2 ^ 64" using unsigned_less [of w] by simp
  then have "from_be (be64 w) = unat w" by (simp add: be64_def from_to_be)
  then show ?thesis by (simp add: of_be64_def)
qed

lemma be64_inj [simp]: "be64 a = be64 b \<longleftrightarrow> a = b"
  by (metis of_be64_be64)

lemma to_from_be: "to_be (length bs) (from_be bs) = bs"
proof (induction bs rule: rev_induct)
  case Nil
  show ?case by simp
next
  case (snoc b bs)
  have b: "unat b < 256" using unsigned_less [of b] by simp
  have "(from_be bs * 256 + unat b) div 256 = from_be bs" using b by simp
  moreover have "(from_be bs * 256 + unat b) mod 256 = unat b" using b by simp
  ultimately show ?case using snoc.IH by (simp add: from_be_snoc)
qed

lemma from_be_less: "from_be bs < 256 ^ length bs"
proof -
  have "from_be (to_be (length bs) (from_be bs)) = from_be bs mod 256 ^ length bs"
    by (rule from_to_be)
  then have "from_be bs mod 256 ^ length bs = from_be bs" by (simp add: to_from_be)
  then show ?thesis by (metis mod_less_divisor zero_less_numeral zero_less_power)
qed

lemma be16_inj: "m < 65536 \<Longrightarrow> n < 65536 \<Longrightarrow> be16 m = be16 n \<longleftrightarrow> m = n"
  unfolding be16_def by (rule to_be_inj) simp_all

lemma be32_inj: "m < 2 ^ 32 \<Longrightarrow> n < 2 ^ 32 \<Longrightarrow> be32 m = be32 n \<longleftrightarrow> m = n"
  unfolding be32_def by (rule to_be_inj) simp_all

lemma be64_of_be64: "length bs = 8 \<Longrightarrow> be64 (of_be64 bs) = bs"
proof -
  assume l: "length bs = 8"
  have "from_be bs < 2 ^ 64" using from_be_less [of bs] l by simp
  then have "unat (of_be64 bs) = from_be bs"
    by (simp add: of_be64_def unat_of_nat take_bit_eq_mod)
  then show ?thesis using to_from_be [of bs] l by (simp add: be64_def)
qed

section \<open>Checked and saturating arithmetic\<close>

text \<open>\<open>u64::checked_add\<close>, \<open>u64::checked_sub\<close> and \<open>u32::saturating_add\<close>.\<close>

definition checked_add :: "'a::len word \<Rightarrow> 'a word \<Rightarrow> 'a word option" where
  "checked_add a b = (if unat a + unat b < 2 ^ LENGTH('a) then Some (a + b) else None)"

definition checked_sub :: "'a::len word \<Rightarrow> 'a word \<Rightarrow> 'a word option" where
  "checked_sub a b = (if b \<le> a then Some (a - b) else None)"

definition saturating_add :: "'a::len word \<Rightarrow> 'a word \<Rightarrow> 'a word" where
  "saturating_add a b = (if unat a + unat b < 2 ^ LENGTH('a) then a + b else - 1)"

lemma checked_add_Some: "checked_add a b = Some c \<Longrightarrow> unat c = unat a + unat b"
  by (auto simp: checked_add_def unat_word_ariths split: if_splits)

lemma checked_sub_Some: "checked_sub a b = Some c \<Longrightarrow> unat c = unat a - unat b"
  by (auto simp: checked_sub_def unat_sub split: if_splits)

end
