(* ===== verification/Names.thy ===== *)
theory Names
  imports Prelude
begin

text \<open>
  Names and identifiers: accounts by server and permanent id (\<open>account_ref.rs\<close>), the key
  binding (\<open>key_binding.rs\<close>), canonical addresses (\<open>named_share.rs\<close>) and folded names
  (\<open>names.rs\<close>).  Strings are their UTF-8 bytes, as Rust's \<open>str::len\<close> and \<open>str::bytes\<close>
  read them; every test here is on ASCII bytes, which occur in UTF-8 only as themselves.
\<close>

section \<open>Characters and splitting\<close>

definition is_digit :: "char \<Rightarrow> bool" where
  "is_digit c \<longleftrightarrow> CHR ''0'' \<le> c \<and> c \<le> CHR ''9''"

definition is_lower :: "char \<Rightarrow> bool" where
  "is_lower c \<longleftrightarrow> CHR ''a'' \<le> c \<and> c \<le> CHR ''z''"

definition is_upper :: "char \<Rightarrow> bool" where
  "is_upper c \<longleftrightarrow> CHR ''A'' \<le> c \<and> c \<le> CHR ''Z''"

definition is_lower_hex :: "char \<Rightarrow> bool" where
  "is_lower_hex c \<longleftrightarrow> is_digit c \<or> (CHR ''a'' \<le> c \<and> c \<le> CHR ''f'')"

definition is_control :: "char \<Rightarrow> bool" where
  "is_control c \<longleftrightarrow> (of_char c :: nat) < 32 \<or> (of_char c :: nat) = 127"

definition is_alphanumeric :: "char \<Rightarrow> bool" where
  "is_alphanumeric c \<longleftrightarrow> is_digit c \<or> is_lower c \<or> is_upper c"

definition to_lower :: "char \<Rightarrow> char" where
  "to_lower c = (if is_upper c then char_of ((of_char c :: nat) + 32) else c)"

text \<open>\<open>str::split\<close>, \<open>str::split_once\<close> and \<open>str::rsplit_once\<close> at one character.\<close>

fun split_on :: "char \<Rightarrow> string \<Rightarrow> string list" where
  "split_on c [] = [[]]"
| "split_on c (x # xs) =
     (if x = c then [] # split_on c xs
      else (case split_on c xs of [] \<Rightarrow> [[x]] | y # ys \<Rightarrow> (x # y) # ys))"

definition split_once :: "char \<Rightarrow> string \<Rightarrow> (string \<times> string) option" where
  "split_once c s =
     (if c \<in> set s then Some (takeWhile (\<lambda>x. x \<noteq> c) s, tl (dropWhile (\<lambda>x. x \<noteq> c) s)) else None)"

definition rsplit_once :: "char \<Rightarrow> string \<Rightarrow> (string \<times> string) option" where
  "rsplit_once c s = map_option (\<lambda>(a, b). (rev b, rev a)) (split_once c (rev s))"

definition strip_prefix :: "string \<Rightarrow> string \<Rightarrow> string option" where
  "strip_prefix p s = (if take (length p) s = p then Some (drop (length p) s) else None)"

definition bytes_of_string :: "string \<Rightarrow> bytes" where
  "bytes_of_string s = map (\<lambda>c. word_of_nat (of_char c)) s"

definition string_of_bytes :: "bytes \<Rightarrow> string" where
  "string_of_bytes bs = map (\<lambda>b. char_of (unat b)) bs"

text \<open>A byte as \<open>{:02x}\<close> prints it.\<close>

definition hex_char :: "nat \<Rightarrow> char" where
  "hex_char n = (if n < 10 then char_of (48 + n) else char_of (87 + n))"

definition hex_byte :: "u8 \<Rightarrow> string" where
  "hex_byte b = [hex_char (unat b div 16), hex_char (unat b mod 16)]"

text \<open>The decimal text of a number, as \<open>format!\<close> prints it.\<close>

fun decimal :: "nat \<Rightarrow> string" where
  "decimal n = (if n < 10 then [char_of (48 + n)] else decimal (n div 10) @ [char_of (48 + n mod 10)])"

declare decimal.simps [simp del]

lemma string_of_bytes_of_string [simp]: "string_of_bytes (bytes_of_string s) = s"
proof -
  have "char_of (unat (word_of_nat (of_char c) :: u8)) = c" for c
  proof -
    have "(of_char c :: nat) < 256" by simp
    then have "unat (word_of_nat (of_char c) :: u8) = of_char c"
      by (simp add: unat_of_nat take_bit_eq_mod)
    then show ?thesis by simp
  qed
  then show ?thesis by (simp add: string_of_bytes_def bytes_of_string_def comp_def)
qed

lemma bytes_of_string_inj [simp]: "bytes_of_string s = bytes_of_string t \<longleftrightarrow> s = t"
  by (metis string_of_bytes_of_string)

lemma bytes_of_string_of_bytes [simp]: "bytes_of_string (string_of_bytes bs) = bs"
proof -
  have "word_of_nat (of_char (char_of (unat b) :: char)) = b" for b :: u8
  proof -
    have "unat b < 256" using unsigned_less [of b] by simp
    then have "(of_char (char_of (unat b) :: char) :: nat) = unat b" by simp
    then show ?thesis by simp
  qed
  then show ?thesis by (simp add: string_of_bytes_def bytes_of_string_def comp_def map_idI)
qed

lemma length_bytes_of_string [simp]: "length (bytes_of_string s) = length s"
  by (simp add: bytes_of_string_def)

lemma length_string_of_bytes [simp]: "length (string_of_bytes s) = length s"
  by (simp add: string_of_bytes_def)

lemma split_once_append: "c \<notin> set a \<Longrightarrow> split_once c (a @ c # b) = Some (a, b)"
  by (simp add: split_once_def takeWhile_append dropWhile_append)

lemma split_once_SomeD:
  "split_once c s = Some (a, b) \<Longrightarrow> s = a @ c # b \<and> c \<notin> set a"
proof -
  assume h: "split_once c s = Some (a, b)"
  then have m: "c \<in> set s" "a = takeWhile (\<lambda>x. x \<noteq> c) s" "b = tl (dropWhile (\<lambda>x. x \<noteq> c) s)"
    by (auto simp: split_once_def split: if_splits)
  then have ne: "dropWhile (\<lambda>x. x \<noteq> c) s \<noteq> []" by (auto simp: dropWhile_eq_Nil_conv)
  then have "hd (dropWhile (\<lambda>x. x \<noteq> c) s) = c" using hd_dropWhile by blast
  with ne m(3) have "dropWhile (\<lambda>x. x \<noteq> c) s = c # b" by (metis list.collapse)
  with m(2) show ?thesis by (metis takeWhile_dropWhile_id set_takeWhileD)
qed

section \<open>Hexadecimal names and the key binding\<close>

definition domain_bytes :: "string \<Rightarrow> bytes" where
  "domain_bytes label = bytes_of_string label @ [0]"

definition is_lower_hex_32 :: "string \<Rightarrow> bool" where
  "is_lower_hex_32 value \<longleftrightarrow> length value = 64 \<and> list_all is_lower_hex value"

text \<open>The layout of a lowercase hyphenated UUID: hyphens at 8, 13, 18 and 23.\<close>

definition uuid_layout :: "string \<Rightarrow> bool" where
  "uuid_layout value \<longleftrightarrow>
     list_all (\<lambda>(i, c). if i = 8 \<or> i = 13 \<or> i = 18 \<or> i = 23 then c = CHR ''-'' else is_lower_hex c)
       (enumerate 0 value)"

definition valid_account_id :: "string \<Rightarrow> bool" where
  "valid_account_id value \<longleftrightarrow> length value = 36 \<and> uuid_layout value"

definition key_binding_len :: nat where
  "key_binding_len = 36"

definition binding_check :: "string \<Rightarrow> crypto_error + string" where
  "binding_check value =
     (if length value = key_binding_len \<and> uuid_layout value \<and> value ! 14 = CHR ''4'' \<and>
         value ! 19 \<in> {CHR ''8'', CHR ''9'', CHR ''a'', CHR ''b''}
      then Inr value else Inl (InvalidInput ''key binding is not a canonical UUID v4''))"

lemma binding_check_Inr: "binding_check v = Inr w \<Longrightarrow> w = v \<and> length v = 36 \<and> valid_account_id v"
  by (auto simp: binding_check_def key_binding_len_def valid_account_id_def split: if_splits)

section \<open>Server names\<close>

text \<open>
  \<open>value.parse::<IpAddr>()\<close>: a dotted quad of one to three digits each, without leading zeros,
  at most 255. An IPv6 literal contains a colon, which the label test refuses anyway.
\<close>

definition decimal_value :: "string \<Rightarrow> nat" where
  "decimal_value s = foldl (\<lambda>a c. a * 10 + ((of_char c :: nat) - 48)) 0 s"

definition ipv4_octet :: "string \<Rightarrow> bool" where
  "ipv4_octet s \<longleftrightarrow> 1 \<le> length s \<and> length s \<le> 3 \<and> list_all is_digit s \<and>
     (hd s = CHR ''0'' \<longrightarrow> length s = 1) \<and> decimal_value s \<le> 255"

definition parses_as_ip :: "string \<Rightarrow> bool" where
  "parses_as_ip s \<longleftrightarrow> (let parts = split_on (CHR ''.'') s in length parts = 4 \<and> list_all ipv4_octet parts)"

definition valid_label :: "string \<Rightarrow> bool" where
  "valid_label label \<longleftrightarrow> label \<noteq> [] \<and> length label \<le> 63 \<and> hd label \<noteq> CHR ''-'' \<and>
     last label \<noteq> CHR ''-'' \<and> list_all (\<lambda>b. is_lower b \<or> is_digit b \<or> b = CHR ''-'') label"

definition valid_server :: "string \<Rightarrow> bool" where
  "valid_server value \<longleftrightarrow> value \<noteq> [] \<and> length value \<le> 253 \<and> CHR ''.'' \<in> set value \<and>
     \<not> parses_as_ip value \<and> list_all valid_label (split_on (CHR ''.'') value)"

section \<open>Account references\<close>

datatype account_ref = AccountRef (server_of_ref: string) (account_id: string)

definition ref_invalid :: "string \<Rightarrow> crypto_error" where
  "ref_invalid what = InvalidInput (''account ref: '' @ what)"

definition account_ref_new :: "string \<Rightarrow> string \<Rightarrow> crypto_error + account_ref" where
  "account_ref_new srv aid =
     bindr (require (valid_server srv) (ref_invalid ''server is not a canonical DNS name'')) (\<lambda>_.
     bindr (require (valid_account_id aid) (ref_invalid ''account id is not a lowercase hyphenated UUID'')) (\<lambda>_.
     Inr (AccountRef srv aid)))"

definition account_ref_prefix :: string where
  "account_ref_prefix = ''aci:''"

definition account_ref_to_string :: "account_ref \<Rightarrow> string" where
  "account_ref_to_string r = account_ref_prefix @ account_id r @ CHR ''@'' # server_of_ref r"

definition account_ref_from_str :: "string \<Rightarrow> crypto_error + account_ref" where
  "account_ref_from_str value =
     bindr (ok_or (strip_prefix account_ref_prefix value) (ref_invalid ''missing the aci: prefix'')) (\<lambda>rest.
     bindr (ok_or (split_once (CHR ''@'') rest) (ref_invalid ''missing @server'')) (\<lambda>(aid, srv).
     account_ref_new srv aid))"

text \<open>The derived \<open>Ord\<close>: by server, then by account id.\<close>

instantiation account_ref :: linorder
begin

definition less_eq_account_ref :: "account_ref \<Rightarrow> account_ref \<Rightarrow> bool" where
  "less_eq_account_ref a b \<longleftrightarrow> server_of_ref a < server_of_ref b \<or>
     (server_of_ref a = server_of_ref b \<and> account_id a \<le> account_id b)"

definition less_account_ref :: "account_ref \<Rightarrow> account_ref \<Rightarrow> bool" where
  "less_account_ref a b \<longleftrightarrow> server_of_ref a < server_of_ref b \<or>
     (server_of_ref a = server_of_ref b \<and> account_id a < account_id b)"

instance
  by standard (auto simp: less_eq_account_ref_def less_account_ref_def account_ref.expand)

end

lemma account_ref_new_Inr:
  "account_ref_new s i = Inr r \<longleftrightarrow> r = AccountRef s i \<and> valid_server s \<and> valid_account_id i"
  by (auto simp: account_ref_new_def)

lemma valid_account_id_no_at: "valid_account_id s \<Longrightarrow> CHR ''@'' \<notin> set s"
proof
  assume v: "valid_account_id s" and c: "CHR ''@'' \<in> set s"
  from c obtain n where n: "n < length s" "s ! n = CHR ''@''" by (auto simp: in_set_conv_nth)
  from v have "list_all (\<lambda>(i, c). if i = 8 \<or> i = 13 \<or> i = 18 \<or> i = 23 then c = CHR ''-'' else is_lower_hex c)
    (enumerate 0 s)" by (simp add: valid_account_id_def uuid_layout_def)
  with n have "s ! n = CHR ''-'' \<or> is_lower_hex (s ! n)"
    by (auto simp: list_all_length nth_enumerate_eq split: if_splits)
  with n(2) show False by (simp add: is_lower_hex_def is_digit_def less_eq_char_def)
qed

text \<open>The two spellings are inverse to each other on valid references.\<close>

lemma account_ref_from_to_string:
  assumes "valid_server (server_of_ref r)" "valid_account_id (account_id r)"
  shows "account_ref_from_str (account_ref_to_string r) = Inr r"
  using assms
  by (simp add: account_ref_from_str_def account_ref_to_string_def strip_prefix_def
      split_once_append valid_account_id_no_at account_ref_new_def)

lemma account_ref_to_from_string:
  "account_ref_from_str s = Inr r \<Longrightarrow> account_ref_to_string r = s"
proof -
  assume h: "account_ref_from_str s = Inr r"
  then obtain rest i srv where r: "strip_prefix account_ref_prefix s = Some rest"
    "split_once (CHR ''@'') rest = Some (i, srv)" "account_ref_new srv i = Inr r"
    by (auto simp: account_ref_from_str_def split: prod.splits)
  from r(1) have "s = account_ref_prefix @ rest"
    by (auto simp: strip_prefix_def split: if_splits) (metis append_take_drop_id)
  with r(2,3) show ?thesis
    by (auto simp: account_ref_to_string_def account_ref_new_Inr dest!: split_once_SomeD)
qed

section \<open>Addresses\<close>

definition trim :: "string \<Rightarrow> string" where
  "trim s = (let ws = (\<lambda>c. c = CHR '' '' \<or> (9 \<le> (of_char c :: nat) \<and> (of_char c :: nat) \<le> 13))
             in rev (dropWhile ws (rev (dropWhile ws s))))"

definition not_canonical :: crypto_error where
  "not_canonical = InvalidInput ''named-share account is not canonical''"

definition max_account_len :: nat where
  "max_account_len = 320"

text \<open>
  \<open>trim\<close> also strips Unicode white space; an address with any byte outside ASCII is refused
  by the alphabets below with the same error.
\<close>

definition canonical_account :: "string \<Rightarrow> crypto_error + string" where
  "canonical_account value =
     bindr (require (\<not> (length value < 3 \<or> length value > max_account_len \<or> value \<noteq> trim value \<or>
         list_ex (\<lambda>b. is_upper b \<or> is_control b) value \<or>
         length (filter (\<lambda>c. c = CHR ''@'') value) \<noteq> 1)) not_canonical) (\<lambda>_.
     bindr (ok_or (split_once (CHR ''@'') value) not_canonical) (\<lambda>(username, domain).
     bindr (require (\<not> (username = [] \<or> domain = [] \<or>
         \<not> list_all (\<lambda>b. is_lower b \<or> is_digit b \<or> b = CHR ''_'' \<or> b = CHR ''-'') username \<or>
         \<not> list_all (\<lambda>b. is_lower b \<or> is_digit b \<or> b = CHR ''.'' \<or> b = CHR ''-'') domain \<or>
         hd domain = CHR ''.'' \<or> last domain = CHR ''.'')) not_canonical) (\<lambda>_.
     Inr value)))"

lemma canonical_account_id: "canonical_account v = Inr w \<Longrightarrow> w = v"
  by (auto simp: canonical_account_def split: prod.splits)

definition fold_name :: "string \<Rightarrow> string" where
  "fold_name name = map to_lower (filter (\<lambda>c. c \<notin> {CHR ''.'', CHR ''_'', CHR ''-''}) name)"

definition fold_address :: "string \<Rightarrow> string option" where
  "fold_address address =
     (case rsplit_once (CHR ''@'') address of
        None \<Rightarrow> None
      | Some (local, domain) \<Rightarrow>
          (let local = fold_name local
           in if local = [] \<or> domain = [] then None
              else Some (local @ CHR ''@'' # map to_lower domain)))"

lemma split_on_chars: "c \<in> set s \<Longrightarrow> c = d \<or> (\<exists>part\<in>set (split_on d s). c \<in> set part)"
  by (induction d s rule: split_on.induct) (auto split: if_splits list.splits)

end
