(* ===== verification/Padding.thy ===== *)
theory Padding
  imports Prelude
begin

text \<open>
  Length hiding: the padding policies of sealed values (\<open>kutup-crypto/src/padding.rs\<close>) and of
  direct messages (\<open>kutup-chat-core/src/padding.rs\<close>).  Both are the same scheme (the plaintext,
  one \<open>0x80\<close> byte, zeros), and both are read back canonically.  The locale \<open>padding_scheme\<close> is
  the contract; it is interpreted on every policy and on the message padding.
\<close>

section \<open>Policies of sealed values\<close>

datatype length_policy = Exact nat | Fixed nat | Bucket nat

definition marker :: u8 where
  "marker = 0x80"

text \<open>\<open>usize\<close> arithmetic of a 64-bit target.\<close>

definition usize_bound :: nat where
  "usize_bound = 2 ^ 64"

definition usize_add :: "nat \<Rightarrow> nat \<Rightarrow> nat option" where
  "usize_add a b = (if a + b < usize_bound then Some (a + b) else None)"

definition usize_mul :: "nat \<Rightarrow> nat \<Rightarrow> nat option" where
  "usize_mul a b = (if a * b < usize_bound then Some (a * b) else None)"

definition div_ceil :: "nat \<Rightarrow> nat \<Rightarrow> nat" where
  "div_ceil a b = a div b + (if a mod b = 0 then 0 else 1)"

text \<open>A bucket of no bytes, on which \<open>div_ceil\<close> panics, is no policy of the program: no length.\<close>

fun padded_len :: "length_policy \<Rightarrow> nat \<Rightarrow> nat option" where
  "padded_len (Exact n) l = (if l = n then Some n else None)"
| "padded_len (Fixed n) l = (if l < n then Some n else None)"
| "padded_len (Bucket b) l =
     (if b = 0 then None
      else Option.bind (usize_add l 1) (\<lambda>l1. usize_mul (div_ceil l1 b) b))"

fun allows_padded_len :: "length_policy \<Rightarrow> nat \<Rightarrow> bool" where
  "allows_padded_len (Exact n) p = (p = n)"
| "allows_padded_len (Fixed n) p = (p = n)"
| "allows_padded_len (Bucket b) p = (p > 0 \<and> (if b = 0 then p = 0 else p mod b = 0))"

fun is_exact :: "length_policy \<Rightarrow> bool" where
  "is_exact (Exact _) = True"
| "is_exact _ = False"

definition pad :: "length_policy \<Rightarrow> bytes \<Rightarrow> crypto_error + bytes" where
  "pad pol plaintext =
     bindr (ok_or (padded_len pol (length plaintext)) (InvalidInput ''plaintext length is invalid''))
       (\<lambda>n. Inr (if is_exact pol then plaintext else resize n 0 (plaintext @ [marker])))"

definition unpad :: "length_policy \<Rightarrow> bytes \<Rightarrow> crypto_error + bytes" where
  "unpad pol padded =
     (let invalid = InvalidInput ''padding is invalid'' in
      bindr (require (allows_padded_len pol (length padded)) invalid) (\<lambda>_.
      if is_exact pol then Inr padded
      else bindr (ok_or (rposition (\<lambda>b. b \<noteq> 0) padded) invalid) (\<lambda>m.
        bindr (require (padded ! m = marker \<and> padded_len pol m = Some (length padded)) invalid) (\<lambda>_.
        Inr (take m padded)))))"

section \<open>Padding of direct messages\<close>

definition padding_block_bytes :: nat where
  "padding_block_bytes = 160"

definition max_envelope_content_bytes :: nat where
  "max_envelope_content_bytes = 65536"

definition direct_envelope_overhead_bytes :: nat where
  "direct_envelope_overhead_bytes = 2560"

definition max_direct_plaintext_bytes :: nat where
  "max_direct_plaintext_bytes =
     (max_envelope_content_bytes - direct_envelope_overhead_bytes) div padding_block_bytes
       * padding_block_bytes - 1"

definition message_pad :: "bytes \<Rightarrow> bytes" where
  "message_pad plaintext =
     (let n = div_ceil (length plaintext + 1) padding_block_bytes * padding_block_bytes
      in resize n 0 (plaintext @ [marker]))"

text \<open>The client's error type, as far as the code here raises it.\<close>

datatype chat_error = Trust string | Protocol string | Invalid string

definition message_invalid :: chat_error where
  "message_invalid = Trust ''direct message padding is invalid''"

definition message_unpad :: "bytes \<Rightarrow> chat_error + bytes" where
  "message_unpad padded =
     bindr (require (\<not> (padded = [] \<or> length padded mod padding_block_bytes \<noteq> 0)) message_invalid) (\<lambda>_.
     bindr (ok_or (rposition (\<lambda>b. b \<noteq> 0) padded) message_invalid) (\<lambda>end_at.
     bindr (require (\<not> (padded ! end_at \<noteq> marker \<or> length padded - end_at > padding_block_bytes))
        message_invalid) (\<lambda>_.
     Inr (take end_at padded))))"

section \<open>The contract of a padding scheme\<close>

locale padding_scheme =
  fixes enc :: "bytes \<Rightarrow> bytes option"
    and dec :: "bytes \<Rightarrow> bytes option"
    and shown :: "nat \<Rightarrow> nat option"
  assumes dec_enc: "enc x = Some y \<Longrightarrow> dec y = Some x"
    and enc_dec: "dec y = Some x \<Longrightarrow> enc x = Some y"
    and enc_length: "enc x = Some y \<Longrightarrow> shown (length x) = Some (length y)"
begin

lemma enc_inj: "enc x = Some z \<Longrightarrow> enc y = Some z \<Longrightarrow> x = y"
  by (metis dec_enc option.inject)

lemma dec_inj: "dec y = Some x \<Longrightarrow> dec z = Some x \<Longrightarrow> y = z"
  by (metis enc_dec option.inject)

lemma accepted_iff: "dec y = Some x \<longleftrightarrow> enc x = Some y"
  by (blast intro: dec_enc enc_dec)

lemma length_hidden:
  "enc x = Some y \<Longrightarrow> enc x' = Some y' \<Longrightarrow> shown (length x) = shown (length x') \<Longrightarrow>
     length y = length y'"
  by (metis enc_length option.inject)

end

section \<open>Facts about the lengths\<close>

lemma div_ceil_exact: "n mod b = 0 \<Longrightarrow> div_ceil n b * b = n"
  using div_mult_mod_eq [of n b] by (simp add: div_ceil_def)

lemma div_ceil_round: "n mod b \<noteq> 0 \<Longrightarrow> div_ceil n b * b + n mod b = n + b"
proof -
  assume "n mod b \<noteq> 0"
  then have "div_ceil n b * b = n div b * b + b" by (simp add: div_ceil_def)
  moreover have "n div b * b + n mod b = n" by (rule div_mult_mod_eq)
  ultimately show ?thesis by linarith
qed

lemma div_ceil_ge: "b > 0 \<Longrightarrow> n \<le> div_ceil n b * b"
  using div_ceil_exact [of n b] div_ceil_round [of n b] mod_less_divisor [of b n] by linarith

lemma div_ceil_less: "b > 0 \<Longrightarrow> n > 0 \<Longrightarrow> div_ceil n b * b < n + b"
  using div_ceil_exact [of n b] div_ceil_round [of n b] by linarith

lemma padded_len_gt: "\<not> is_exact pol \<Longrightarrow> padded_len pol l = Some n \<Longrightarrow> l < n"
proof (cases pol)
  case (Bucket b)
  assume "padded_len pol l = Some n"
  with Bucket have "b > 0" "n = div_ceil (l + 1) b * b"
    by (auto simp: usize_add_def usize_mul_def split: if_splits)
  with div_ceil_ge [of b "l + 1"] show ?thesis by simp
qed (auto split: if_splits)

lemma padded_len_allowed: "padded_len pol l = Some n \<Longrightarrow> allows_padded_len pol n"
proof (cases pol)
  case (Bucket b)
  assume h: "padded_len pol l = Some n"
  with Bucket have "b > 0" "n = div_ceil (l + 1) b * b"
    by (auto simp: usize_add_def usize_mul_def split: if_splits)
  moreover from this div_ceil_ge [of b "l + 1"] have "n > 0" by linarith
  ultimately show ?thesis using Bucket by simp
qed (auto split: if_splits)

lemma rposition_padded:
  "rposition (\<lambda>b. b \<noteq> 0) (x @ marker # replicate k 0) = Some (length x)"
  by (auto simp: rposition_Some_iff nth_append marker_def nth_Cons split: nat.splits)

lemma padded_shape:
  assumes "rposition (\<lambda>b. b \<noteq> 0) y = Some m" "y ! m = marker"
  shows "y = take m y @ marker # replicate (length y - Suc m) 0"
proof (rule nth_equalityI)
  from assms have m: "m < length y" "\<forall>j. m < j \<and> j < length y \<longrightarrow> y ! j = 0"
    by (auto simp: rposition_Some_iff)
  then show "length y = length (take m y @ marker # replicate (length y - Suc m) 0)" by simp
  fix i
  assume "i < length y"
  with m assms(2) show "y ! i = (take m y @ marker # replicate (length y - Suc m) 0) ! i"
    by (auto simp: nth_append nth_Cons split: nat.splits)
qed

lemma resize_marker: "length x < n \<Longrightarrow> resize n 0 (x @ [marker]) = x @ marker # replicate (n - Suc (length x)) 0"
  by (simp add: resize_def)

lemma unpad_pad: "pad pol x = Inr y \<Longrightarrow> unpad pol y = Inr x"
proof -
  assume h: "pad pol x = Inr y"
  then obtain n where n: "padded_len pol (length x) = Some n"
    "y = (if is_exact pol then x else resize n 0 (x @ [marker]))" by (auto simp: pad_def)
  show ?thesis
  proof (cases "is_exact pol")
    case True
    with n show ?thesis by (cases pol) (auto simp: unpad_def split: if_splits)
  next
    case False
    with n have "length x < n" by (simp add: padded_len_gt)
    with False n have y: "y = x @ marker # replicate (n - Suc (length x)) 0" "length y = n"
      by (simp_all add: resize_marker)
    from y(2) n have "allows_padded_len pol (length y)" by (simp add: padded_len_allowed)
    moreover have "y ! length x = marker" by (simp add: y(1))
    ultimately show ?thesis using False n(1) y(2) rposition_padded [of x "n - Suc (length x)"]
      by (simp add: unpad_def y(1) [symmetric]) (simp add: y(1))
  qed
qed

lemma pad_unpad: "unpad pol y = Inr x \<Longrightarrow> pad pol x = Inr y"
proof -
  assume h: "unpad pol y = Inr x"
  show ?thesis
  proof (cases "is_exact pol")
    case True
    with h show ?thesis by (cases pol) (auto simp: unpad_def pad_def Let_def)
  next
    case False
    with h obtain m where m: "rposition (\<lambda>b. b \<noteq> 0) y = Some m" "y ! m = marker"
      "padded_len pol m = Some (length y)" "x = take m y"
      by (auto simp: unpad_def Let_def)
    from m(1) have ml: "m < length y" by (simp add: rposition_Some_iff)
    with m(4) have "length x = m" by simp
    moreover from this ml have "resize (length y) 0 (x @ [marker]) = y"
      using padded_shape [OF m(1,2)] m(4) by (simp add: resize_marker)
    ultimately show ?thesis using m(3) False by (simp add: pad_def)
  qed
qed

lemma pad_length: "pad pol x = Inr y \<Longrightarrow> padded_len pol (length x) = Some (length y)"
proof -
  assume h: "pad pol x = Inr y"
  then obtain n where n: "padded_len pol (length x) = Some n"
    "y = (if is_exact pol then x else resize n 0 (x @ [marker]))" by (auto simp: pad_def)
  show ?thesis
  proof (cases "is_exact pol")
    case True
    with n show ?thesis by (cases pol) (auto split: if_splits)
  next
    case False
    with n show ?thesis using padded_len_gt [OF False n(1)] by (simp add: resize_def)
  qed
qed

interpretation policy: padding_scheme "\<lambda>x. ok (pad pol x)" "\<lambda>y. ok (unpad pol y)" "padded_len pol"
  for pol
  by unfold_locales (auto intro: unpad_pad pad_unpad pad_length)

section \<open>The message padding\<close>

lemma message_pad_shape:
  "message_pad x = x @ marker # replicate (div_ceil (length x + 1) 160 * 160 - Suc (length x)) 0"
  using div_ceil_ge [of 160 "length x + 1"]
  by (simp add: message_pad_def padding_block_bytes_def Let_def resize_marker)

lemma length_message_pad: "length (message_pad x) = div_ceil (length x + 1) 160 * 160"
  using div_ceil_ge [of 160 "length x + 1"] by (simp add: message_pad_shape)

lemma message_unpad_pad: "message_unpad (message_pad x) = Inr x"
proof -
  let ?y = "message_pad x"
  have l: "length ?y = div_ceil (length x + 1) 160 * 160" by (rule length_message_pad)
  have "message_pad x \<noteq> []" by (simp add: message_pad_shape)
  moreover have "length ?y - length x \<le> 160" using div_ceil_less [of 160 "length x + 1"] l by simp
  moreover have "rposition (\<lambda>b. b \<noteq> 0) ?y = Some (length x)"
    by (simp only: message_pad_shape rposition_padded)
  moreover have "?y ! length x = marker" "take (length x) ?y = x" by (simp_all add: message_pad_shape)
  ultimately show ?thesis using l by (simp add: message_unpad_def padding_block_bytes_def)
qed

lemma multiple_in_window:
  fixes a :: nat
  assumes "l mod b = 0" "a < l" "l - a \<le> b" "b > 0"
  shows "div_ceil (a + 1) b * b = l"
proof -
  from assms(1) obtain q where q: "l = q * b" by (metis mod_0_imp_dvd dvd_def mult.commute)
  have "div_ceil (a + 1) b = q"
  proof (rule antisym)
    have "a + 1 \<le> q * b" using assms(2) q by simp
    have "div_ceil (a + 1) b * b < a + 1 + b" using div_ceil_less [of b "a + 1"] assms(4) by simp
    also have "\<dots> \<le> Suc q * b" using \<open>a + 1 \<le> q * b\<close> by simp
    finally have "div_ceil (a + 1) b < Suc q" using assms(4) by (metis mult_less_cancel2)
    then show "div_ceil (a + 1) b \<le> q" by simp
  next
    have "q * b < a + 1 + b" using assms(3) q by simp
    also have "\<dots> \<le> Suc (div_ceil (a + 1) b) * b" using div_ceil_ge [of b "a + 1"] assms(4) by simp
    finally have "q < Suc (div_ceil (a + 1) b)" using assms(4) by (metis mult_less_cancel2)
    then show "q \<le> div_ceil (a + 1) b" by simp
  qed
  with q show ?thesis by simp
qed

lemma message_pad_unpad: "message_unpad y = Inr x \<Longrightarrow> message_pad x = y"
proof -
  assume "message_unpad y = Inr x"
  then obtain m where m: "length y mod 160 = 0" "rposition (\<lambda>b. b \<noteq> 0) y = Some m" "y ! m = marker"
    "length y - m \<le> 160" "x = take m y"
    by (auto simp: message_unpad_def padding_block_bytes_def)
  from m(2) have ml: "m < length y" by (simp add: rposition_Some_iff)
  from m(1,4) ml have "div_ceil (m + 1) 160 * 160 = length y" by (intro multiple_in_window) auto
  with padded_shape [OF m(2,3)] m(5) ml show ?thesis by (simp add: message_pad_shape)
qed

interpretation message: padding_scheme "\<lambda>x. Some (message_pad x)" "\<lambda>y. ok (message_unpad y)"
  "\<lambda>l. Some (div_ceil (l + 1) 160 * 160)"
  by unfold_locales (auto simp: message_unpad_pad length_message_pad intro: message_pad_unpad)

end
