(* ===== verification/Value_Properties.thy ===== *)
theory Value_Properties
  imports Names Padding
begin

text \<open>
  Properties of the values every other part uses: padded plaintexts and account references.
\<close>

section \<open>Length hiding\<close>

text \<open>Padding of sealed values is canonical: a padded value opens to a plaintext exactly when it
  is that plaintext's padding, so none can be read in two ways, written in two ways, or carry hidden
  bytes; and it shows exactly the length the policy gives.\<close>

theorem sealed_padding_canonical:
  "(unpad pol y = Inr x \<longleftrightarrow> pad pol x = Inr y) \<and>
   (pad pol x = Inr y \<longrightarrow> padded_len pol (length x) = Some (length y) \<and> allows_padded_len pol (length y))"
  using policy.accepted_iff [of pol y x] policy.enc_length [of pol x y]
    padded_len_allowed [of pol "length x" "length y"] by auto

theorem sealed_padding_canonical_witness:
  "pad (Bucket 4) [1, 2, 3, 4] = Inr [1, 2, 3, 4, 0x80, 0, 0, 0] \<and>
   padded_len (Bucket 4) (length [1 :: u8, 2, 3, 4]) = Some 8"
proof -
  have "padded_len (Bucket 4) (length [1 :: u8, 2, 3, 4]) = Some 8"
    by (simp add: usize_add_def usize_mul_def usize_bound_def div_ceil_def)
  moreover have "resize 8 (0 :: u8) [1, 2, 3, 4, 0x80] = [1, 2, 3, 4, 0x80, 0, 0, 0]"
    by (simp add: resize_def eval_nat_numeral)
  ultimately have "pad (Bucket 4) [1, 2, 3, 4] = Inr [1, 2, 3, 4, 0x80, 0, 0, 0]"
    by (simp add: pad_def marker_def del: padded_len.simps)
  with sealed_padding_canonical [of "Bucket 4" "[1, 2, 3, 4, 0x80, 0, 0, 0]" "[1, 2, 3, 4]"]
  show ?thesis by simp
qed

text \<open>A direct message's padding is canonical too, and its length is a positive multiple of 160
  bytes, the smallest one with room for the terminator.\<close>

theorem message_padding_canonical:
  "(message_unpad y = Inr x \<longleftrightarrow> message_pad x = y) \<and> length (message_pad x) mod 160 = 0 \<and>
   length x < length (message_pad x) \<and> length (message_pad x) \<le> length x + 160"
proof -
  have "message_unpad y = Inr x \<longleftrightarrow> message_pad x = y"
    using message_pad_unpad message_unpad_pad by blast
  moreover have "length x < length (message_pad x) \<and> length (message_pad x) \<le> length x + 160"
    using div_ceil_ge [of 160 "length x + 1"] div_ceil_less [of 160 "length x + 1"]
    by (simp add: length_message_pad)
  ultimately show ?thesis by (simp add: length_message_pad)
qed

section \<open>Account references\<close>

text \<open>A person has one string form: a string reads as a reference exactly when the reference is
  valid and the string is what it prints as.\<close>

theorem account_ref_roundtrip:
  "account_ref_from_str s = Inr r \<longleftrightarrow>
     valid_server (server_of_ref r) \<and> valid_account_id (account_id r) \<and> account_ref_to_string r = s"
proof
  assume h: "account_ref_from_str s = Inr r"
  then obtain i srv where "account_ref_new srv i = Inr r"
    by (auto simp: account_ref_from_str_def split: prod.splits)
  with account_ref_to_from_string [OF h]
  show "valid_server (server_of_ref r) \<and> valid_account_id (account_id r) \<and> account_ref_to_string r = s"
    by (auto simp: account_ref_new_Inr)
qed (auto simp: account_ref_from_to_string)

end
