(* ===== verification/Group_State.thy ===== *)
theory Group_State
  imports Names
begin

text \<open>
  A chat group's state as its server keeps it, and the changes that move it on
  (\<open>kutup-chat-proto/src/group/mod.rs\<close>): the plain part only, every sealed field carried as the
  base64 text of its ciphertext.  Error texts are the code's.  JSON (\<open>serde_json\<close>) is a
  parameter: the record \<open>group_ext\<close> adds to \<open>ext\<close> how a state and a change are written and read.
\<close>

section \<open>Constants\<close>

definition group_format_version :: u16 where
  "group_format_version = 1"

definition hash_len :: nat where "hash_len = 32"
definition public_key_len :: nat where "public_key_len = 32"
definition signature_len :: nat where "signature_len = 64"
definition slot_id_len :: nat where "slot_id_len = 16"
definition group_id_len :: nat where "group_id_len = 32"
definition invite_link_password_len :: nat where "invite_link_password_len = 16"
definition max_sealed_title_bytes :: nat where "max_sealed_title_bytes = 1024"
definition max_sealed_description_bytes :: nat where "max_sealed_description_bytes = 8192"
definition max_sealed_timer_bytes :: nat where "max_sealed_timer_bytes = 128"
definition max_sealed_avatar_bytes :: nat where "max_sealed_avatar_bytes = 512"
definition max_sealed_entry_bytes :: nat where "max_sealed_entry_bytes = 512"
definition max_sealed_ban_list_bytes :: nat where "max_sealed_ban_list_bytes = 24 * 1024"
definition max_actions_per_change :: nat where "max_actions_per_change = 64"
definition max_change_bytes :: nat where "max_change_bytes = 46 * 1024"
definition max_group_members :: nat where "max_group_members = 256"

text \<open>\<open>chat_group::sealed_len\<close>: a version byte, a nonce, the plaintext and a tag.\<close>

definition group_nonce_len :: nat where "group_nonce_len = 24"
definition group_tag_len :: nat where "group_tag_len = 16"

definition sealed_len :: "nat \<Rightarrow> nat" where
  "sealed_len plain_len = 1 + group_nonce_len + plain_len + group_tag_len"

section \<open>Data\<close>

datatype group_role = Administrator | Member

datatype access_required = AccessAny | AccessMember | AccessAdministrator | AccessUnsatisfiable

record group_access =
  attributes_access :: access_required
  members_access :: access_required
  add_from_invite_link :: access_required

record home_pin =
  pin_server :: string
  pin_identity_sequence :: u64
  pin_identity_document_hash :: string

record group_attributes =
  at_title :: "string option"
  at_description :: "string option"
  at_timer :: "string option"
  at_avatar :: "string option"
  at_avatar_hash :: "string option"

datatype group_attribute = Title | Description | Timer | Avatar

record group_member =
  m_pseudonym :: string
  m_role :: group_role
  m_joined_at_revision :: u64
  m_entry :: string

record group_slot =
  s_slot_id :: string
  s_role :: group_role
  s_adder :: string
  s_created_at_revision :: u64
  s_claim_key :: string
  s_entry :: string

record group_request =
  r_pseudonym :: string
  r_requested_at_revision :: u64
  r_entry :: string

record group_state =
  st_version :: u16
  st_group_id :: string
  st_revision :: u64
  st_home :: home_pin
  st_access :: group_access
  st_announcements_only :: bool
  st_terminated :: bool
  st_invite_link_password :: "string option"
  st_attributes :: group_attributes
  st_ban_list :: "string option"
  st_members :: "group_member list"
  st_slots :: "group_slot list"
  st_requesting :: "group_request list"
  st_banned :: "string list"

datatype group_action =
    Genesis home_pin group_access string
  | AddSlot string group_role string string
  | RevokeSlot string
  | Claim string string string
  | JoinFromLink string string
  | RequestToJoin string string
  | CancelRequest
  | ApproveRequest string
  | DenyRequest string
  | RemoveMember string
  | Leave
  | ModifyRole string group_role
  | ModifyOwnEntry string
  | ModifyAttribute group_attribute "string option" "string option"
  | ModifyAccess group_access
  | ModifyAnnouncementsOnly bool
  | ModifyInviteLink "string option"
  | Ban string
  | Unban string
  | ModifyBanList "string option"
  | Terminate

record group_change =
  ch_version :: u16
  ch_group_id :: string
  ch_revision :: u64
  ch_previous_hash :: string
  ch_actor :: string
  ch_actions :: "group_action list"
  ch_resulting_state_hash :: "string option"
  ch_signature :: string

record group_ext = ext +
  state_to_json :: "group_state \<Rightarrow> bytes option"
  state_from_json :: "bytes \<Rightarrow> group_state option"
  change_to_json :: "group_change \<Rightarrow> bytes option"
  change_from_json :: "bytes \<Rightarrow> group_change option"

definition access_default :: group_access where
  "access_default = \<lparr>attributes_access = AccessMember, members_access = AccessMember,
     add_from_invite_link = AccessUnsatisfiable\<rparr>"

fun max_sealed_bytes :: "group_attribute \<Rightarrow> nat" where
  "max_sealed_bytes Title = max_sealed_title_bytes"
| "max_sealed_bytes Description = max_sealed_description_bytes"
| "max_sealed_bytes Timer = max_sealed_timer_bytes"
| "max_sealed_bytes Avatar = max_sealed_avatar_bytes"

section \<open>Reading fields\<close>

definition encode :: "'a ext_scheme \<Rightarrow> bytes \<Rightarrow> string" where
  "encode x bs = std_encode x bs"

definition decode_exact :: "'a ext_scheme \<Rightarrow> nat \<Rightarrow> string \<Rightarrow> string \<Rightarrow> string + bytes" where
  "decode_exact x n field value =
     bindr (ok_or (std_decode x value) (field @ '' must be canonical padded base64'')) (\<lambda>bs.
     bindr (require (std_encode x bs = value) (field @ '' is not canonical base64'')) (\<lambda>_.
     bindr (require (length bs = n) (field @ '' must be '' @ decimal n @ '' bytes'')) (\<lambda>_.
     Inr bs)))"

definition decode_pseudonym :: "'a ext_scheme \<Rightarrow> string \<Rightarrow> string + bytes" where
  "decode_pseudonym x value = decode_exact x public_key_len ''pseudonym'' value"

definition decode_sealed :: "'a ext_scheme \<Rightarrow> string \<Rightarrow> string \<Rightarrow> nat \<Rightarrow> string + bytes" where
  "decode_sealed x field value max_len =
     bindr (ok_or (std_decode x value) (field @ '' must be canonical padded base64'')) (\<lambda>bs.
     bindr (require (std_encode x bs = value) (field @ '' is not canonical base64'')) (\<lambda>_.
     bindr (require (\<not> (length bs < sealed_len 0 \<or> length bs > max_len))
        (field @ '' has an invalid sealed length'')) (\<lambda>_.
     Inr bs)))"

definition decode_group_id :: "'a ext_scheme \<Rightarrow> string \<Rightarrow> string + bytes" where
  "decode_group_id x value =
     bindr (ok_or (url_decode x value) ''groupId must be base64url without padding'') (\<lambda>bs.
     bindr (require (url_encode x bs = value) ''groupId must be canonical base64url'') (\<lambda>_.
     bindr (require (length bs = group_id_len) ''groupId must be 32 bytes'') (\<lambda>_.
     Inr bs)))"

definition encode_group_id :: "'a ext_scheme \<Rightarrow> bytes \<Rightarrow> string" where
  "encode_group_id x group_id = url_encode x group_id"

definition validate_home :: "home_pin \<Rightarrow> string + unit" where
  "validate_home home =
     bindr (require (valid_server (pin_server home)) ''home server is not a valid server name'') (\<lambda>_.
     require (\<not> (length (pin_identity_document_hash home) \<noteq> 2 * hash_len \<or>
         \<not> list_all is_lower_hex (pin_identity_document_hash home)))
       ''home identityDocumentHash must be 64 lowercase hex digits'')"

definition validate_access :: "group_access \<Rightarrow> string + unit" where
  "validate_access a =
     (let member_or_admin = (\<lambda>v. v = AccessMember \<or> v = AccessAdministrator) in
      bindr (require (\<not> (\<not> member_or_admin (attributes_access a) \<or> \<not> member_or_admin (members_access a)))
        ''attributes and members access must be member or administrator'') (\<lambda>_.
      require (add_from_invite_link a \<noteq> AccessMember)
        ''invite link access must be any, administrator or unsatisfiable''))"

fun check_avatar_hash ::
  "'a ext_scheme \<Rightarrow> group_attribute \<Rightarrow> string option \<Rightarrow> string option \<Rightarrow> string + unit" where
  "check_avatar_hash x Avatar (Some _) (Some hash) =
     bindr (decode_exact x 32 ''avatarHash'' hash) (\<lambda>_. Inr ())"
| "check_avatar_hash x Avatar None None = Inr ()"
| "check_avatar_hash x Avatar _ _ = Inl ''an avatar and its hash come together''"
| "check_avatar_hash x _ _ None = Inr ()"
| "check_avatar_hash x _ _ (Some _) = Inl ''only the avatar has a hash''"

definition check_optional_sealed :: "'a ext_scheme \<Rightarrow> string \<Rightarrow> nat \<Rightarrow> string option \<Rightarrow> string + unit" where
  "check_optional_sealed x field max_len v =
     (case v of None \<Rightarrow> Inr () | Some s \<Rightarrow> bindr (decode_sealed x field s max_len) (\<lambda>_. Inr ()))"

definition validate_attributes :: "'a ext_scheme \<Rightarrow> group_attributes \<Rightarrow> string + unit" where
  "validate_attributes x a =
     bindr (for_each
        (\<lambda>(attribute, value). check_optional_sealed x ''attribute'' (max_sealed_bytes attribute) value)
        [(Title, at_title a), (Description, at_description a), (Timer, at_timer a), (Avatar, at_avatar a)])
       (\<lambda>_. check_avatar_hash x Avatar (at_avatar a) (at_avatar_hash a))"

section \<open>A state's shape\<close>

definition validate_members :: "'a ext_scheme \<Rightarrow> u64 \<Rightarrow> group_member list \<Rightarrow> string + unit" where
  "validate_members x revision members =
     ordered_loop (\<lambda>m. decode_pseudonym x (m_pseudonym m)) ''members must be sorted and unique''
       (\<lambda>m. bindr (require (m_joined_at_revision m \<le> revision)
                 ''a member joined after the state's revision'') (\<lambda>_.
            bindr (decode_sealed x ''member entry'' (m_entry m) max_sealed_entry_bytes) (\<lambda>_. Inr ())))
       None members"

definition validate_slots :: "'a ext_scheme \<Rightarrow> u64 \<Rightarrow> group_slot list \<Rightarrow> string + unit" where
  "validate_slots x revision slots =
     ordered_loop (\<lambda>s. decode_exact x slot_id_len ''slotId'' (s_slot_id s))
       ''slots must be sorted and unique''
       (\<lambda>s. bindr (decode_pseudonym x (s_adder s)) (\<lambda>_.
            bindr (require (s_created_at_revision s \<le> revision)
                 ''a slot was added after the state's revision'') (\<lambda>_.
            bindr (decode_pseudonym x (s_claim_key s)) (\<lambda>_.
            bindr (decode_sealed x ''slot entry'' (s_entry s) max_sealed_entry_bytes) (\<lambda>_. Inr ())))))
       None slots"

definition validate_requesting :: "'a ext_scheme \<Rightarrow> group_request list \<Rightarrow> string + unit" where
  "validate_requesting x requesting =
     ordered_loop (\<lambda>r. decode_pseudonym x (r_pseudonym r)) ''requests must be sorted and unique''
       (\<lambda>r. bindr (decode_sealed x ''request entry'' (r_entry r) max_sealed_entry_bytes) (\<lambda>_. Inr ()))
       None requesting"

definition validate_banned :: "'a ext_scheme \<Rightarrow> string list \<Rightarrow> string + unit" where
  "validate_banned x banned =
     ordered_loop (\<lambda>b. decode_pseudonym x b) ''banned pseudonyms must be sorted and unique''
       (\<lambda>_. Inr ()) None banned"

definition validate_state :: "'a ext_scheme \<Rightarrow> group_state \<Rightarrow> string + unit" where
  "validate_state x s =
     bindr (require (st_version s = group_format_version) ''unsupported group state version'') (\<lambda>_.
     bindr (decode_group_id x (st_group_id s)) (\<lambda>_.
     bindr (validate_home (st_home s)) (\<lambda>_.
     bindr (validate_access (st_access s)) (\<lambda>_.
     bindr (case st_invite_link_password s of None \<Rightarrow> Inr ()
            | Some p \<Rightarrow> bindr (decode_exact x invite_link_password_len ''inviteLinkPassword'' p) (\<lambda>_. Inr ())) (\<lambda>_.
     bindr (validate_attributes x (st_attributes s)) (\<lambda>_.
     bindr (check_optional_sealed x ''banList'' max_sealed_ban_list_bytes (st_ban_list s)) (\<lambda>_.
     bindr (validate_members x (st_revision s) (st_members s)) (\<lambda>_.
     bindr (validate_slots x (st_revision s) (st_slots s)) (\<lambda>_.
     bindr (validate_requesting x (st_requesting s)) (\<lambda>_.
     validate_banned x (st_banned s)))))))))))"

text \<open>The bytes a state is hashed by, and back.\<close>

definition state_canonical_bytes :: "'a group_ext_scheme \<Rightarrow> group_state \<Rightarrow> string + bytes" where
  "state_canonical_bytes x s =
     bindr (validate_state x s) (\<lambda>_. ok_or (state_to_json x s) ''state serialization'')"

definition state_from_canonical_bytes :: "'a group_ext_scheme \<Rightarrow> bytes \<Rightarrow> string + group_state" where
  "state_from_canonical_bytes x bs =
     bindr (ok_or (state_from_json x bs) ''invalid group state'') (\<lambda>value.
     bindr (state_canonical_bytes x value) (\<lambda>canonical.
     bindr (require (canonical = bs) ''group state is not canonical JSON'') (\<lambda>_.
     Inr value)))"

definition state_hash_domain :: bytes where
  "state_hash_domain = domain_bytes ''kutup/chat-group/state-hash/v1''"

definition change_hash_domain :: bytes where
  "change_hash_domain = domain_bytes ''kutup/chat-group/change-hash/v1''"

definition state_hash :: "'a ext_scheme \<Rightarrow> bytes \<Rightarrow> bytes" where
  "state_hash x bs = sha256 x (state_hash_domain @ bs)"

definition change_hash :: "'a ext_scheme \<Rightarrow> bytes \<Rightarrow> bytes" where
  "change_hash x bs = sha256 x (change_hash_domain @ bs)"

definition hash_of_state :: "'a group_ext_scheme \<Rightarrow> group_state \<Rightarrow> string + bytes" where
  "hash_of_state x s = bindr (state_canonical_bytes x s) (\<lambda>bs. Inr (state_hash x bs))"

definition member :: "group_state \<Rightarrow> string \<Rightarrow> group_member option" where
  "member s p = List.find (\<lambda>m. m_pseudonym m = p) (st_members s)"

definition is_administrator :: "group_state \<Rightarrow> string \<Rightarrow> bool" where
  "is_administrator s p = (case member s p of None \<Rightarrow> False | Some m \<Rightarrow> m_role m = Administrator)"

text \<open>Signal's access rule (\<open>check::allowed\<close>).\<close>

fun allowed :: "access_required \<Rightarrow> bool \<Rightarrow> bool" where
  "allowed AccessMember actor_is_admin = True"
| "allowed AccessAny actor_is_admin = True"
| "allowed AccessAdministrator actor_is_admin = actor_is_admin"
| "allowed AccessUnsatisfiable actor_is_admin = False"

definition may_modify_attributes :: "group_state \<Rightarrow> string \<Rightarrow> bool" where
  "may_modify_attributes s p \<longleftrightarrow>
     member s p \<noteq> None \<and> allowed (attributes_access (st_access s)) (is_administrator s p)"

section \<open>A change's shape\<close>

fun is_by_newcomer :: "group_action \<Rightarrow> bool" where
  "is_by_newcomer (Genesis _ _ _) = True"
| "is_by_newcomer (Claim _ _ _) = True"
| "is_by_newcomer (JoinFromLink _ _) = True"
| "is_by_newcomer (RequestToJoin _ _) = True"
| "is_by_newcomer CancelRequest = True"
| "is_by_newcomer _ = False"

fun newcomers_actions :: "group_action list \<Rightarrow> bool" where
  "newcomers_actions [Claim _ _ _] = True"
| "newcomers_actions [JoinFromLink _ _] = True"
| "newcomers_actions [RequestToJoin _ _] = True"
| "newcomers_actions [CancelRequest] = True"
| "newcomers_actions _ = False"

definition is_newcomers_change :: "group_change \<Rightarrow> bool" where
  "is_newcomers_change c = newcomers_actions (ch_actions c)"

definition validate_shape :: "'a ext_scheme \<Rightarrow> group_change \<Rightarrow> string + unit" where
  "validate_shape x c =
     bindr (require (ch_version c = group_format_version) ''unsupported group change version'') (\<lambda>_.
     bindr (decode_group_id x (ch_group_id c)) (\<lambda>_.
     bindr (decode_exact x hash_len ''previousHash'' (ch_previous_hash c)) (\<lambda>_.
     bindr (decode_pseudonym x (ch_actor c)) (\<lambda>_.
     bindr (case (ch_resulting_state_hash c, is_newcomers_change c) of
              (Some hash, False) \<Rightarrow>
                bindr (decode_exact x hash_len ''resultingStateHash'' hash) (\<lambda>_. Inr ())
            | (None, True) \<Rightarrow> Inr ()
            | (Some _, True) \<Rightarrow> Inl ''a newcomer's change names no resulting state''
            | (None, False) \<Rightarrow> Inl ''a change names its resulting state'') (\<lambda>_.
     bindr (require (\<not> (ch_actions c = [] \<or> length (ch_actions c) > max_actions_per_change))
        ''a change carries 1 to 64 actions'') (\<lambda>_.
     require (\<not> (any is_by_newcomer (ch_actions c) \<and> length (ch_actions c) \<noteq> 1))
        ''a genesis, claim, join or request change carries one action''))))))"

definition signed_bytes :: "'a group_ext_scheme \<Rightarrow> group_change \<Rightarrow> string + bytes" where
  "signed_bytes x c =
     bindr (validate_shape x c) (\<lambda>_.
     ok_or (change_to_json x (c\<lparr>ch_signature := ''''\<rparr>)) ''change serialization'')"

definition change_canonical_bytes :: "'a group_ext_scheme \<Rightarrow> group_change \<Rightarrow> string + bytes" where
  "change_canonical_bytes x c =
     bindr (validate_shape x c) (\<lambda>_.
     bindr (decode_exact x signature_len ''signature'' (ch_signature c)) (\<lambda>_.
     bindr (ok_or (change_to_json x c) ''change serialization'') (\<lambda>bs.
     bindr (require (length bs \<le> max_change_bytes) ''group change is too large'') (\<lambda>_.
     Inr bs))))"

definition change_from_canonical_bytes :: "'a group_ext_scheme \<Rightarrow> bytes \<Rightarrow> string + group_change" where
  "change_from_canonical_bytes x bs =
     bindr (require (length bs \<le> max_change_bytes) ''group change is too large'') (\<lambda>_.
     bindr (ok_or (change_from_json x bs) ''invalid group change'') (\<lambda>value.
     bindr (change_canonical_bytes x value) (\<lambda>canonical.
     bindr (require (canonical = bs) ''group change is not canonical JSON'') (\<lambda>_.
     Inr value))))"

definition hash_of_change :: "'a group_ext_scheme \<Rightarrow> group_change \<Rightarrow> string + bytes" where
  "hash_of_change x c = bindr (change_canonical_bytes x c) (\<lambda>bs. Inr (change_hash x bs))"

end
