(* ===== verification/Group_Check.thy ===== *)
theory Group_Check
  imports Group_State
begin

text \<open>
  The one acceptance check of a group change (\<open>kutup-chat-proto/src/group/check.rs\<close>), run by the
  group's server before it stores a change and by every client again.  One definition per action
  of \<open>apply\<close>; an \<open>Err\<close> anywhere leaves the state the caller holds untouched.
\<close>

section \<open>Limits and errors\<close>

record group_limits =
  max_members :: nat
  max_requesting :: nat

definition limits_max :: group_limits where
  "limits_max = \<lparr>max_members = max_group_members, max_requesting = max_group_members\<rparr>"

datatype group_change_error =
    Malformed string
  | WrongGroup
  | WrongRevision
  | WrongPrevious
  | BadSignature
  | NotMember
  | NotAllowed
  | LastAdministrator
  | Banned
  | LimitReached
  | WrongPassword
  | UnknownTarget
  | Terminated
  | StateMismatch

abbreviation mal :: "string + 'a \<Rightarrow> group_change_error + 'a" where
  "mal \<equiv> map_err Malformed"

definition check_limits :: "group_limits \<Rightarrow> group_change_error + unit" where
  "check_limits l =
     require (\<not> (max_members l = 0 \<or> max_members l > max_group_members \<or>
                 max_requesting l = 0 \<or> max_requesting l > max_group_members))
       (Malformed ''server group limits are out of range'')"

section \<open>Signatures and hashes\<close>

definition change_signature_domain :: bytes where
  "change_signature_domain = domain_bytes ''kutup/chat-group/change/v1''"

definition claim_domain :: bytes where
  "claim_domain = domain_bytes ''kutup/chat-group/claim/v1''"

definition change_signed_bytes :: "bytes \<Rightarrow> bytes" where
  "change_signed_bytes change_bytes = change_signature_domain @ change_bytes"

definition claim_signed_bytes :: "bytes \<Rightarrow> bytes \<Rightarrow> u64 \<Rightarrow> bytes \<Rightarrow> bytes" where
  "claim_signed_bytes group_id slot_id slot_revision new_pseudonym =
     claim_domain @ group_id @ slot_id @ be64 slot_revision @ new_pseudonym"

text \<open>\<open>verify\<close>: the key must be one, as \<open>VerifyingKey::from_bytes\<close> reads it.\<close>

definition verify_group_signature :: "'a ext_scheme \<Rightarrow> bytes \<Rightarrow> bytes \<Rightarrow> bytes \<Rightarrow> bool" where
  "verify_group_signature x public bs signature \<longleftrightarrow> ed25519_key_ok x public \<and> ed25519_ok x public bs signature"

definition verify_change_signature :: "'a ext_scheme \<Rightarrow> bytes \<Rightarrow> bytes \<Rightarrow> bytes \<Rightarrow> bool" where
  "verify_change_signature x pseudonym change_bytes signature =
     verify_group_signature x pseudonym (change_signed_bytes change_bytes) signature"

definition verify_claim_signature ::
  "'a ext_scheme \<Rightarrow> bytes \<Rightarrow> bytes \<Rightarrow> bytes \<Rightarrow> u64 \<Rightarrow> bytes \<Rightarrow> bytes \<Rightarrow> bool" where
  "verify_claim_signature x claim_key group_id slot_id slot_revision new_pseudonym signature =
     verify_group_signature x claim_key (claim_signed_bytes group_id slot_id slot_revision new_pseudonym) signature"

definition verify_actor_signature :: "'a group_ext_scheme \<Rightarrow> group_change \<Rightarrow> group_change_error + unit" where
  "verify_actor_signature x c =
     bindr (mal (decode_pseudonym x (ch_actor c))) (\<lambda>actor.
     bindr (mal (decode_exact x 64 ''signature'' (ch_signature c))) (\<lambda>signature.
     bindr (mal (signed_bytes x c)) (\<lambda>bs.
     require (verify_change_signature x actor bs signature) BadSignature)))"

definition compare_hash :: "'a group_ext_scheme \<Rightarrow> group_state \<Rightarrow> group_change \<Rightarrow> group_change_error + unit" where
  "compare_hash x next c =
     (case ch_resulting_state_hash c of
        None \<Rightarrow> Inr ()
      | Some named \<Rightarrow> bindr (mal (hash_of_state x next)) (\<lambda>hash.
          require (encode x hash = named) StateMismatch))"

section \<open>Reading a state\<close>

definition pseudonym_key :: "'a ext_scheme \<Rightarrow> string \<Rightarrow> bytes" where
  "pseudonym_key x v = (case decode_pseudonym x v of Inr k \<Rightarrow> k | Inl _ \<Rightarrow> replicate 32 0xff)"

definition slot_key :: "'a ext_scheme \<Rightarrow> string \<Rightarrow> bytes" where
  "slot_key x v = (case decode_exact x 16 ''slotId'' v of Inr k \<Rightarrow> k | Inl _ \<Rightarrow> replicate 16 0xff)"

definition sort_by_decoded :: "'a ext_scheme \<Rightarrow> group_state \<Rightarrow> group_state" where
  "sort_by_decoded x s = s\<lparr>
     st_members := sort_key (\<lambda>m. pseudonym_key x (m_pseudonym m)) (st_members s),
     st_requesting := sort_key (\<lambda>r. pseudonym_key x (r_pseudonym r)) (st_requesting s),
     st_banned := sort_key (pseudonym_key x) (st_banned s),
     st_slots := sort_key (\<lambda>l. slot_key x (s_slot_id l)) (st_slots s)\<rparr>"

definition place_count :: "group_state \<Rightarrow> nat" where
  "place_count s = length (st_members s) + length (st_slots s)"

definition is_banned :: "group_state \<Rightarrow> string \<Rightarrow> bool" where
  "is_banned s p = any (\<lambda>b. b = p) (st_banned s)"

definition check_password :: "'a ext_scheme \<Rightarrow> group_state \<Rightarrow> string \<Rightarrow> group_change_error + unit" where
  "check_password x s password =
     bindr (mal (decode_exact x invite_link_password_len ''password'' password)) (\<lambda>offered.
     bindr (ok_or (st_invite_link_password s) WrongPassword) (\<lambda>current.
     bindr (mal (decode_exact x invite_link_password_len ''inviteLinkPassword'' current)) (\<lambda>current.
     require (offered = current) WrongPassword)))"

definition check_newcomer :: "group_state \<Rightarrow> string \<Rightarrow> group_change_error + unit" where
  "check_newcomer s actor =
     bindr (require (\<not> is_banned s actor) Banned) (\<lambda>_.
     require (member s actor = None \<and> \<not> any (\<lambda>r. r_pseudonym r = actor) (st_requesting s)) NotMember)"

definition entry_ok :: "'a ext_scheme \<Rightarrow> string \<Rightarrow> group_change_error + unit" where
  "entry_ok x entry = bindr (mal (decode_sealed x ''entry'' entry max_sealed_entry_bytes)) (\<lambda>_. Inr ())"

definition remove_member :: "group_state \<Rightarrow> string \<Rightarrow> group_change_error + group_state" where
  "remove_member next pseudonym =
     bindr (ok_or (position (\<lambda>m. m_pseudonym m = pseudonym) (st_members next)) UnknownTarget) (\<lambda>index.
     Inr (next\<lparr>st_members := remove_at index (st_members next)\<rparr>))"

section \<open>The actions\<close>

definition apply_add_slot ::
  "'a ext_scheme \<Rightarrow> group_state \<Rightarrow> group_state \<Rightarrow> group_change \<Rightarrow> bool \<Rightarrow> group_limits \<Rightarrow>
   string \<Rightarrow> group_role \<Rightarrow> string \<Rightarrow> string \<Rightarrow> group_change_error + group_state" where
  "apply_add_slot x before next c actor_is_admin limits slot_id role claim_key entry =
     bindr (require (allowed (members_access (st_access before)) actor_is_admin) NotAllowed) (\<lambda>_.
     bindr (require (role = Member \<or> actor_is_admin) NotAllowed) (\<lambda>_.
     bindr (mal (decode_exact x 16 ''slotId'' slot_id)) (\<lambda>_.
     bindr (mal (decode_pseudonym x claim_key)) (\<lambda>_.
     bindr (entry_ok x entry) (\<lambda>_.
     bindr (require (\<not> any (\<lambda>s. s_slot_id s = slot_id) (st_slots next)) (Malformed ''duplicate slot'')) (\<lambda>_.
     bindr (require (place_count next < max_members limits) LimitReached) (\<lambda>_.
     Inr (next\<lparr>st_slots := st_slots next @ [\<lparr>s_slot_id = slot_id, s_role = role, s_adder = ch_actor c,
        s_created_at_revision = ch_revision c, s_claim_key = claim_key, s_entry = entry\<rparr>]\<rparr>))))))))"

definition apply_revoke_slot ::
  "group_state \<Rightarrow> group_change \<Rightarrow> bool \<Rightarrow> string \<Rightarrow> group_change_error + group_state" where
  "apply_revoke_slot next c actor_is_admin slot_id =
     bindr (ok_or (position (\<lambda>s. s_slot_id s = slot_id) (st_slots next)) UnknownTarget) (\<lambda>index.
     bindr (require (actor_is_admin \<or> s_adder (st_slots next ! index) = ch_actor c) NotAllowed) (\<lambda>_.
     Inr (next\<lparr>st_slots := remove_at index (st_slots next)\<rparr>)))"

definition apply_claim ::
  "'a ext_scheme \<Rightarrow> group_state \<Rightarrow> group_state \<Rightarrow> group_change \<Rightarrow> string \<Rightarrow> string \<Rightarrow> string \<Rightarrow>
   group_change_error + group_state" where
  "apply_claim x before next c slot_id claim_signature entry =
     bindr (check_newcomer before (ch_actor c)) (\<lambda>_.
     bindr (ok_or (position (\<lambda>s. s_slot_id s = slot_id) (st_slots next)) UnknownTarget) (\<lambda>index.
     let slot = st_slots next ! index in
     bindr (mal (decode_group_id x (ch_group_id c))) (\<lambda>group_id.
     bindr (mal (decode_exact x 16 ''slotId'' slot_id)) (\<lambda>slot_bytes.
     bindr (mal (decode_pseudonym x (s_claim_key slot))) (\<lambda>claim_key.
     bindr (mal (decode_pseudonym x (ch_actor c))) (\<lambda>claimant.
     bindr (mal (decode_exact x 64 ''claimSignature'' claim_signature)) (\<lambda>signature.
     bindr (require (verify_claim_signature x claim_key group_id slot_bytes
        (s_created_at_revision slot) claimant signature) BadSignature) (\<lambda>_.
     bindr (entry_ok x entry) (\<lambda>_.
     Inr (next\<lparr>st_slots := remove_at index (st_slots next),
        st_members := st_members next @ [\<lparr>m_pseudonym = ch_actor c, m_role = s_role slot,
          m_joined_at_revision = ch_revision c, m_entry = entry\<rparr>]\<rparr>))))))))))"

definition apply_join_from_link ::
  "'a ext_scheme \<Rightarrow> group_state \<Rightarrow> group_state \<Rightarrow> group_change \<Rightarrow> group_limits \<Rightarrow> string \<Rightarrow> string \<Rightarrow>
   group_change_error + group_state" where
  "apply_join_from_link x before next c limits password entry =
     bindr (check_newcomer before (ch_actor c)) (\<lambda>_.
     bindr (require (add_from_invite_link (st_access before) = AccessAny) WrongPassword) (\<lambda>_.
     bindr (check_password x before password) (\<lambda>_.
     bindr (entry_ok x entry) (\<lambda>_.
     bindr (require (place_count next < max_members limits) LimitReached) (\<lambda>_.
     Inr (next\<lparr>st_members := st_members next @ [\<lparr>m_pseudonym = ch_actor c, m_role = Member,
        m_joined_at_revision = ch_revision c, m_entry = entry\<rparr>]\<rparr>))))))"

definition apply_request_to_join ::
  "'a ext_scheme \<Rightarrow> group_state \<Rightarrow> group_state \<Rightarrow> group_change \<Rightarrow> group_limits \<Rightarrow> string \<Rightarrow> string \<Rightarrow>
   group_change_error + group_state" where
  "apply_request_to_join x before next c limits password entry =
     bindr (check_newcomer before (ch_actor c)) (\<lambda>_.
     bindr (require (add_from_invite_link (st_access before) = AccessAdministrator) WrongPassword) (\<lambda>_.
     bindr (check_password x before password) (\<lambda>_.
     bindr (entry_ok x entry) (\<lambda>_.
     bindr (require (length (st_requesting next) < max_requesting limits) LimitReached) (\<lambda>_.
     Inr (next\<lparr>st_requesting := st_requesting next @ [\<lparr>r_pseudonym = ch_actor c,
        r_requested_at_revision = ch_revision c, r_entry = entry\<rparr>]\<rparr>))))))"

definition apply_cancel_request :: "group_state \<Rightarrow> group_change \<Rightarrow> group_change_error + group_state" where
  "apply_cancel_request next c =
     bindr (ok_or (position (\<lambda>r. r_pseudonym r = ch_actor c) (st_requesting next)) NotMember) (\<lambda>index.
     Inr (next\<lparr>st_requesting := remove_at index (st_requesting next)\<rparr>))"

definition apply_approve_request ::
  "group_state \<Rightarrow> group_change \<Rightarrow> bool \<Rightarrow> group_limits \<Rightarrow> string \<Rightarrow> group_change_error + group_state" where
  "apply_approve_request next c actor_is_admin limits pseudonym =
     bindr (require actor_is_admin NotAllowed) (\<lambda>_.
     bindr (ok_or (position (\<lambda>r. r_pseudonym r = pseudonym) (st_requesting next)) UnknownTarget) (\<lambda>index.
     bindr (require (place_count next < max_members limits) LimitReached) (\<lambda>_.
     let request = st_requesting next ! index in
     Inr (next\<lparr>st_requesting := remove_at index (st_requesting next),
        st_members := st_members next @ [\<lparr>m_pseudonym = r_pseudonym request, m_role = Member,
          m_joined_at_revision = ch_revision c, m_entry = r_entry request\<rparr>]\<rparr>))))"

definition apply_deny_request ::
  "group_state \<Rightarrow> bool \<Rightarrow> string \<Rightarrow> group_change_error + group_state" where
  "apply_deny_request next actor_is_admin pseudonym =
     bindr (require actor_is_admin NotAllowed) (\<lambda>_.
     bindr (ok_or (position (\<lambda>r. r_pseudonym r = pseudonym) (st_requesting next)) UnknownTarget) (\<lambda>index.
     Inr (next\<lparr>st_requesting := remove_at index (st_requesting next)\<rparr>)))"

definition apply_remove_member ::
  "group_state \<Rightarrow> group_change \<Rightarrow> bool \<Rightarrow> string \<Rightarrow> group_change_error + group_state" where
  "apply_remove_member next c actor_is_admin pseudonym =
     bindr (require actor_is_admin NotAllowed) (\<lambda>_.
     bindr (require (pseudonym \<noteq> ch_actor c) (Malformed ''a member leaves with leave'')) (\<lambda>_.
     remove_member next pseudonym))"

definition apply_modify_role ::
  "group_state \<Rightarrow> bool \<Rightarrow> string \<Rightarrow> group_role \<Rightarrow> group_change_error + group_state" where
  "apply_modify_role next actor_is_admin pseudonym role =
     bindr (require actor_is_admin NotAllowed) (\<lambda>_.
     bindr (ok_or (update_first (\<lambda>m. m_pseudonym m = pseudonym) (\<lambda>m. m\<lparr>m_role := role\<rparr>)
        (st_members next)) UnknownTarget) (\<lambda>members.
     Inr (next\<lparr>st_members := members\<rparr>)))"

definition apply_modify_own_entry ::
  "'a ext_scheme \<Rightarrow> group_state \<Rightarrow> group_change \<Rightarrow> string \<Rightarrow> group_change_error + group_state" where
  "apply_modify_own_entry x next c entry =
     bindr (entry_ok x entry) (\<lambda>_.
     bindr (ok_or (update_first (\<lambda>m. m_pseudonym m = ch_actor c) (\<lambda>m. m\<lparr>m_entry := entry\<rparr>)
        (st_members next)) NotMember) (\<lambda>members.
     Inr (next\<lparr>st_members := members\<rparr>)))"

fun set_attribute :: "group_attribute \<Rightarrow> string option \<Rightarrow> string option \<Rightarrow> group_attributes \<Rightarrow> group_attributes" where
  "set_attribute Title value hash a = a\<lparr>at_title := value\<rparr>"
| "set_attribute Description value hash a = a\<lparr>at_description := value\<rparr>"
| "set_attribute Timer value hash a = a\<lparr>at_timer := value\<rparr>"
| "set_attribute Avatar value hash a = a\<lparr>at_avatar := value, at_avatar_hash := hash\<rparr>"

definition apply_modify_attribute ::
  "'a ext_scheme \<Rightarrow> group_state \<Rightarrow> group_state \<Rightarrow> bool \<Rightarrow> group_attribute \<Rightarrow> string option \<Rightarrow>
   string option \<Rightarrow> group_change_error + group_state" where
  "apply_modify_attribute x before next actor_is_admin attribute value avatar_hash =
     bindr (require (allowed (attributes_access (st_access before)) actor_is_admin) NotAllowed) (\<lambda>_.
     bindr (mal (check_optional_sealed x ''attribute'' (max_sealed_bytes attribute) value)) (\<lambda>_.
     bindr (mal (check_avatar_hash x attribute value avatar_hash)) (\<lambda>_.
     Inr (next\<lparr>st_attributes := set_attribute attribute value avatar_hash (st_attributes next)\<rparr>))))"

definition apply_modify_invite_link ::
  "'a ext_scheme \<Rightarrow> group_state \<Rightarrow> bool \<Rightarrow> string option \<Rightarrow> group_change_error + group_state" where
  "apply_modify_invite_link x next actor_is_admin password =
     bindr (require actor_is_admin NotAllowed) (\<lambda>_.
     bindr (case password of None \<Rightarrow> Inr ()
            | Some p \<Rightarrow> bindr (mal (decode_exact x invite_link_password_len ''password'' p)) (\<lambda>_. Inr ())) (\<lambda>_.
     Inr (next\<lparr>st_invite_link_password := password\<rparr>)))"

definition apply_ban ::
  "'a ext_scheme \<Rightarrow> group_state \<Rightarrow> group_change \<Rightarrow> bool \<Rightarrow> string \<Rightarrow> group_change_error + group_state" where
  "apply_ban x next c actor_is_admin pseudonym =
     bindr (require actor_is_admin NotAllowed) (\<lambda>_.
     bindr (require (pseudonym \<noteq> ch_actor c) NotAllowed) (\<lambda>_.
     bindr (mal (decode_pseudonym x pseudonym)) (\<lambda>_.
     bindr (if member next pseudonym \<noteq> None then remove_member next pseudonym else Inr next) (\<lambda>next.
     let next = next\<lparr>st_requesting := filter (\<lambda>r. r_pseudonym r \<noteq> pseudonym) (st_requesting next)\<rparr> in
     Inr (if is_banned next pseudonym then next
          else next\<lparr>st_banned := st_banned next @ [pseudonym]\<rparr>)))))"

definition apply_unban :: "group_state \<Rightarrow> bool \<Rightarrow> string \<Rightarrow> group_change_error + group_state" where
  "apply_unban next actor_is_admin pseudonym =
     bindr (require actor_is_admin NotAllowed) (\<lambda>_.
     let banned = filter (\<lambda>b. b \<noteq> pseudonym) (st_banned next) in
     bindr (require (length banned < length (st_banned next)) UnknownTarget) (\<lambda>_.
     Inr (next\<lparr>st_banned := banned\<rparr>)))"

definition apply_modify_ban_list ::
  "'a ext_scheme \<Rightarrow> group_state \<Rightarrow> bool \<Rightarrow> string option \<Rightarrow> group_change_error + group_state" where
  "apply_modify_ban_list x next actor_is_admin value =
     bindr (require actor_is_admin NotAllowed) (\<lambda>_.
     bindr (mal (check_optional_sealed x ''banList'' max_sealed_ban_list_bytes value)) (\<lambda>_.
     Inr (next\<lparr>st_ban_list := value\<rparr>)))"

fun apply_action ::
  "'a ext_scheme \<Rightarrow> group_state \<Rightarrow> group_state \<Rightarrow> group_change \<Rightarrow> bool \<Rightarrow> group_limits \<Rightarrow>
   group_action \<Rightarrow> group_change_error + group_state" where
  "apply_action x before next c adm l (Genesis _ _ _) = Inl (Malformed ''genesis only at revision 0'')"
| "apply_action x before next c adm l (AddSlot slot_id role claim_key entry) =
     apply_add_slot x before next c adm l slot_id role claim_key entry"
| "apply_action x before next c adm l (RevokeSlot slot_id) = apply_revoke_slot next c adm slot_id"
| "apply_action x before next c adm l (Claim slot_id signature entry) =
     apply_claim x before next c slot_id signature entry"
| "apply_action x before next c adm l (JoinFromLink password entry) =
     apply_join_from_link x before next c l password entry"
| "apply_action x before next c adm l (RequestToJoin password entry) =
     apply_request_to_join x before next c l password entry"
| "apply_action x before next c adm l CancelRequest = apply_cancel_request next c"
| "apply_action x before next c adm l (ApproveRequest p) = apply_approve_request next c adm l p"
| "apply_action x before next c adm l (DenyRequest p) = apply_deny_request next adm p"
| "apply_action x before next c adm l (RemoveMember p) = apply_remove_member next c adm p"
| "apply_action x before next c adm l Leave = remove_member next (ch_actor c)"
| "apply_action x before next c adm l (ModifyRole p role) = apply_modify_role next adm p role"
| "apply_action x before next c adm l (ModifyOwnEntry entry) = apply_modify_own_entry x next c entry"
| "apply_action x before next c adm l (ModifyAttribute attribute value avatar_hash) =
     apply_modify_attribute x before next adm attribute value avatar_hash"
| "apply_action x before next c adm l (ModifyAccess access) =
     bindr (require adm NotAllowed) (\<lambda>_. Inr (next\<lparr>st_access := access\<rparr>))"
| "apply_action x before next c adm l (ModifyAnnouncementsOnly on) =
     bindr (require adm NotAllowed) (\<lambda>_. Inr (next\<lparr>st_announcements_only := on\<rparr>))"
| "apply_action x before next c adm l (ModifyInviteLink password) =
     apply_modify_invite_link x next adm password"
| "apply_action x before next c adm l (Ban p) = apply_ban x next c adm p"
| "apply_action x before next c adm l (Unban p) = apply_unban next adm p"
| "apply_action x before next c adm l (ModifyBanList value) = apply_modify_ban_list x next adm value"
| "apply_action x before next c adm l Terminate =
     bindr (require adm NotAllowed) (\<lambda>_. Inr (next\<lparr>st_terminated := True\<rparr>))"

section \<open>A whole change\<close>

text \<open>The loop of \<open>next_state\<close>: the actor's rights are those it held before and still holds.\<close>

fun apply_actions ::
  "'a ext_scheme \<Rightarrow> group_state \<Rightarrow> group_change \<Rightarrow> group_limits \<Rightarrow> group_state \<Rightarrow> group_action list \<Rightarrow>
   group_change_error + group_state" where
  "apply_actions x state c l next [] = Inr next"
| "apply_actions x state c l next (a # as) =
     (let actor = ch_actor c;
          actor_is_member = member state actor \<noteq> None \<and> member next actor \<noteq> None;
          actor_is_admin = is_administrator state actor \<and> is_administrator next actor
      in bindr (require (\<not> (\<not> is_by_newcomer a \<and> \<not> actor_is_member)) NotMember) (\<lambda>_.
         bindr (apply_action x state next c actor_is_admin l a) (\<lambda>next.
         apply_actions x state c l next as)))"

definition has_administrator :: "group_state \<Rightarrow> bool" where
  "has_administrator s = any (\<lambda>m. m_role m = Administrator) (st_members s)"

definition next_state ::
  "'a ext_scheme \<Rightarrow> group_state \<Rightarrow> bytes \<Rightarrow> group_change \<Rightarrow> group_limits \<Rightarrow> group_change_error + group_state" where
  "next_state x s head c l =
     bindr (check_limits l) (\<lambda>_.
     bindr (mal (validate_state x s)) (\<lambda>_.
     bindr (mal (validate_shape x c)) (\<lambda>_.
     bindr (require (ch_group_id c = st_group_id s) WrongGroup) (\<lambda>_.
     bindr (require (Some (ch_revision c) = checked_add (st_revision s) 1) WrongRevision) (\<lambda>_.
     bindr (require (ch_previous_hash c = encode x head) WrongPrevious) (\<lambda>_.
     bindr (require (\<not> st_terminated s) Terminated) (\<lambda>_.
     bindr (apply_actions x s c l (s\<lparr>st_revision := ch_revision c\<rparr>) (ch_actions c)) (\<lambda>next.
     let had_admin = has_administrator s;
         has_admin = has_administrator next;
         still_populated = st_members next \<noteq> [] \<or> st_slots next \<noteq> []
     in bindr (require (\<not> (had_admin \<and> still_populated \<and> \<not> has_admin)) LastAdministrator) (\<lambda>_.
        let next = sort_by_decoded x next in
        bindr (mal (validate_state x next)) (\<lambda>_. Inr next))))))))))"

definition resulting_state ::
  "'a ext_scheme \<Rightarrow> group_state \<Rightarrow> bytes \<Rightarrow> group_change \<Rightarrow> group_limits \<Rightarrow> group_change_error + group_state" where
  "resulting_state x s head c l = next_state x s head c l"

definition check_change ::
  "'a group_ext_scheme \<Rightarrow> group_state \<Rightarrow> bytes \<Rightarrow> group_change \<Rightarrow> group_limits \<Rightarrow> group_change_error + group_state" where
  "check_change x s head c l =
     bindr (verify_actor_signature x c) (\<lambda>_.
     bindr (next_state x s head c l) (\<lambda>next.
     bindr (compare_hash x next c) (\<lambda>_. Inr next)))"

fun genesis_action :: "group_action list \<Rightarrow> (home_pin \<times> group_access \<times> string) option" where
  "genesis_action [Genesis home access entry] = Some (home, access, entry)"
| "genesis_action _ = None"

definition genesis_state ::
  "'a ext_scheme \<Rightarrow> group_change \<Rightarrow> home_pin \<Rightarrow> group_limits \<Rightarrow> group_change_error + group_state" where
  "genesis_state x c expected_home l =
     bindr (check_limits l) (\<lambda>_.
     bindr (mal (validate_shape x c)) (\<lambda>_.
     bindr (require (ch_revision c = 0) WrongRevision) (\<lambda>_.
     bindr (require (ch_previous_hash c = encode x (replicate hash_len 0)) WrongPrevious) (\<lambda>_.
     bindr (ok_or (genesis_action (ch_actions c)) (Malformed ''revision 0 carries one genesis action''))
       (\<lambda>(home, access, entry).
     bindr (require (home = expected_home) WrongGroup) (\<lambda>_.
     bindr (entry_ok x entry) (\<lambda>_.
     let state = \<lparr>st_version = group_format_version, st_group_id = ch_group_id c, st_revision = 0,
           st_home = home, st_access = access, st_announcements_only = False, st_terminated = False,
           st_invite_link_password = None,
           st_attributes = \<lparr>at_title = None, at_description = None, at_timer = None, at_avatar = None,
             at_avatar_hash = None\<rparr>,
           st_ban_list = None,
           st_members = [\<lparr>m_pseudonym = ch_actor c, m_role = Administrator, m_joined_at_revision = 0,
             m_entry = entry\<rparr>],
           st_slots = [], st_requesting = [], st_banned = []\<rparr>
     in bindr (mal (validate_state x state)) (\<lambda>_. Inr state))))))))"

definition resulting_genesis_state ::
  "'a ext_scheme \<Rightarrow> group_change \<Rightarrow> home_pin \<Rightarrow> group_limits \<Rightarrow> group_change_error + group_state" where
  "resulting_genesis_state x c home l = genesis_state x c home l"

definition check_genesis ::
  "'a group_ext_scheme \<Rightarrow> group_change \<Rightarrow> home_pin \<Rightarrow> group_limits \<Rightarrow> group_change_error + group_state" where
  "check_genesis x c home l =
     bindr (verify_actor_signature x c) (\<lambda>_.
     bindr (genesis_state x c home l) (\<lambda>state.
     bindr (compare_hash x state c) (\<lambda>_. Inr state)))"

end
