(* ===== verification/Group_Safety.thy ===== *)
theory Group_Safety
  imports Group_Check "HOL-Library.Multiset"
begin

text \<open>
  What the acceptance check guarantees.  The lemmas follow the shape of the code: one fact about
  \<open>apply_action\<close> (by cases on the action), lifted over the loop \<open>apply_actions\<close> by induction on the
  actions, then over \<open>next_state\<close> and \<open>check_change\<close>.
\<close>

named_theorems action_defs

lemmas [action_defs] =
  apply_add_slot_def apply_revoke_slot_def apply_claim_def apply_join_from_link_def
  apply_request_to_join_def apply_cancel_request_def apply_approve_request_def
  apply_deny_request_def apply_remove_member_def apply_modify_role_def
  apply_modify_own_entry_def apply_modify_attribute_def apply_modify_invite_link_def
  apply_unban_def apply_modify_ban_list_def remove_member_def Let_def

section \<open>Inversion of the check\<close>

lemma next_state_InrD:
  assumes "next_state x s head c l = Inr s'"
  obtains mid where
    "check_limits l = Inr ()" "validate_state x s = Inr ()" "validate_shape x c = Inr ()"
    "ch_group_id c = st_group_id s" "checked_add (st_revision s) 1 = Some (ch_revision c)"
    "ch_previous_hash c = encode x head" "\<not> st_terminated s"
    "apply_actions x s c l (s\<lparr>st_revision := ch_revision c\<rparr>) (ch_actions c) = Inr mid"
    "has_administrator s \<and> (st_members mid \<noteq> [] \<or> st_slots mid \<noteq> []) \<longrightarrow> has_administrator mid"
    "s' = sort_by_decoded x mid" "validate_state x s' = Inr ()"
  using assms by (auto simp: next_state_def Let_def simp del: any_iff)

lemma check_change_next: "check_change x s head c l = Inr s' \<Longrightarrow> next_state x s head c l = Inr s'"
  by (auto simp: check_change_def)

lemma check_genesis_state: "check_genesis x c home l = Inr s \<Longrightarrow> genesis_state x c home l = Inr s"
  by (auto simp: check_genesis_def)

section \<open>Fields no action writes\<close>

lemma remove_member_frame:
  "remove_member n p = Inr n' \<Longrightarrow> \<exists>ms. n' = n\<lparr>st_members := ms\<rparr>"
  by (auto simp: remove_member_def)

lemma apply_ban_cases:
  assumes "apply_ban x n c adm p = Inr n'"
  shows "adm \<and> p \<noteq> ch_actor c \<and>
    (\<exists>ms. (if member n p \<noteq> None then remove_member n p = Inr (n\<lparr>st_members := ms\<rparr>) else ms = st_members n) \<and>
      n' = n\<lparr>st_members := ms,
        st_requesting := filter (\<lambda>r. r_pseudonym r \<noteq> p) (st_requesting n),
        st_banned := (if p \<in> set (st_banned n) then st_banned n else st_banned n @ [p])\<rparr>)"
proof (cases "member n p")
  case None
  with assms show ?thesis
    by (intro conjI exI [of _ "st_members n"]) (auto simp: apply_ban_def is_banned_def Let_def)
next
  case (Some m)
  with assms obtain n1 where n1: "remove_member n p = Inr n1" "adm" "p \<noteq> ch_actor c"
    "n' = (let next = n1\<lparr>st_requesting := filter (\<lambda>r. r_pseudonym r \<noteq> p) (st_requesting n1)\<rparr> in
       if is_banned next p then next else next\<lparr>st_banned := st_banned next @ [p]\<rparr>)"
    by (auto simp: apply_ban_def Let_def)
  from remove_member_frame [OF n1(1)] obtain ms where ms: "n1 = n\<lparr>st_members := ms\<rparr>" by blast
  with n1 Some show ?thesis by (auto simp: is_banned_def Let_def)
qed

lemma apply_action_frame:
  "apply_action x b n c adm l a = Inr n' \<Longrightarrow>
     st_version n' = st_version n \<and> st_group_id n' = st_group_id n \<and> st_home n' = st_home n \<and>
     st_revision n' = st_revision n"
  by (cases a) (auto simp: action_defs split: option.splits if_splits dest!: apply_ban_cases)

lemma apply_actions_frame:
  "apply_actions x s c l n as = Inr n' \<Longrightarrow>
     st_version n' = st_version n \<and> st_group_id n' = st_group_id n \<and> st_home n' = st_home n \<and>
     st_revision n' = st_revision n"
proof (induction as arbitrary: n)
  case Nil
  then show ?case by simp
next
  case (Cons a as)
  then obtain adm m where "apply_action x s n c adm l a = Inr m" "apply_actions x s c l m as = Inr n'"
    by (auto simp: Let_def)
  with Cons.IH [of m] show ?case by (auto dest: apply_action_frame)
qed

section \<open>What an actor who is no administrator can change\<close>

text \<open>
  The parts of a state that only administrators may touch are the same, other people's
  memberships and requests are the same, and a new slot is the actor's own with the plain role.
\<close>

definition same_admin_part :: "group_state \<Rightarrow> group_state \<Rightarrow> bool" where
  "same_admin_part n n' \<longleftrightarrow>
     st_banned n' = st_banned n \<and> st_ban_list n' = st_ban_list n \<and> st_access n' = st_access n \<and>
     st_announcements_only n' = st_announcements_only n \<and> st_terminated n' = st_terminated n \<and>
     st_invite_link_password n' = st_invite_link_password n"

definition same_others :: "string \<Rightarrow> group_state \<Rightarrow> group_state \<Rightarrow> bool" where
  "same_others actor n n' \<longleftrightarrow>
     (\<forall>m. m_pseudonym m \<noteq> actor \<longrightarrow> (m \<in> set (st_members n') \<longleftrightarrow> m \<in> set (st_members n))) \<and>
     (\<forall>r. r_pseudonym r \<noteq> actor \<longrightarrow> (r \<in> set (st_requesting n') \<longleftrightarrow> r \<in> set (st_requesting n)))"

definition plain_new_slots :: "string \<Rightarrow> group_state \<Rightarrow> group_state \<Rightarrow> bool" where
  "plain_new_slots actor n n' \<longleftrightarrow>
     (\<forall>s\<in>set (st_slots n'). s \<in> set (st_slots n) \<or> s_adder s = actor \<and> s_role s = Member)"

lemma same_admin_part_refl [simp]: "same_admin_part n n"
  by (simp add: same_admin_part_def)

lemma same_admin_part_trans: "same_admin_part a b \<Longrightarrow> same_admin_part b c \<Longrightarrow> same_admin_part a c"
  by (simp add: same_admin_part_def)

lemma same_others_trans: "same_others p a b \<Longrightarrow> same_others p b c \<Longrightarrow> same_others p a c"
  by (simp add: same_others_def)

lemma plain_new_slots_trans:
  "plain_new_slots p a b \<Longrightarrow> plain_new_slots p b c \<Longrightarrow> plain_new_slots p a c"
  unfolding plain_new_slots_def by blast

lemma in_remove_at: "y \<in> set (remove_at i xs) \<Longrightarrow> y \<in> set xs"
  using set_remove_at_subset by fast

lemma nonadmin_admin_part:
  "apply_action x b n c False l a = Inr n' \<Longrightarrow> same_admin_part n n'"
  by (cases a) (auto simp: action_defs same_admin_part_def dest!: apply_ban_cases)

lemma nonadmin_others:
  "apply_action x b n c False l a = Inr n' \<Longrightarrow> same_others (ch_actor c) n n'"
  by (cases a) (auto simp: action_defs same_others_def
      dest!: apply_ban_cases remove_at_split update_first_SomeD)

lemma nonadmin_slots:
  "apply_action x b n c False l a = Inr n' \<Longrightarrow> plain_new_slots (ch_actor c) n n'"
  by (cases a) (auto simp: action_defs plain_new_slots_def dest: in_remove_at dest!: apply_ban_cases)

lemma nonadmin_actions:
  assumes "\<not> is_administrator s (ch_actor c)"
  shows "apply_actions x s c l n as = Inr n' \<Longrightarrow>
    same_admin_part n n' \<and> same_others (ch_actor c) n n' \<and> plain_new_slots (ch_actor c) n n'"
proof (induction as arbitrary: n)
  case Nil
  then show ?case by (simp add: same_others_def plain_new_slots_def)
next
  case (Cons a as)
  with assms obtain m where m: "apply_action x s n c False l a = Inr m" "apply_actions x s c l m as = Inr n'"
    by (auto simp: Let_def)
  from Cons.IH [OF m(2)] nonadmin_admin_part [OF m(1)] nonadmin_others [OF m(1)] nonadmin_slots [OF m(1)]
  show ?case by (blast intro: same_admin_part_trans same_others_trans plain_new_slots_trans)
qed

lemma sort_by_decoded_sel [simp]:
  "st_version (sort_by_decoded x s) = st_version s" "st_group_id (sort_by_decoded x s) = st_group_id s"
  "st_revision (sort_by_decoded x s) = st_revision s" "st_home (sort_by_decoded x s) = st_home s"
  "st_access (sort_by_decoded x s) = st_access s"
  "st_announcements_only (sort_by_decoded x s) = st_announcements_only s"
  "st_terminated (sort_by_decoded x s) = st_terminated s"
  "st_invite_link_password (sort_by_decoded x s) = st_invite_link_password s"
  "st_attributes (sort_by_decoded x s) = st_attributes s"
  "st_ban_list (sort_by_decoded x s) = st_ban_list s"
  "set (st_members (sort_by_decoded x s)) = set (st_members s)"
  "set (st_slots (sort_by_decoded x s)) = set (st_slots s)"
  "set (st_requesting (sort_by_decoded x s)) = set (st_requesting s)"
  "set (st_banned (sort_by_decoded x s)) = set (st_banned s)"
  "length (st_members (sort_by_decoded x s)) = length (st_members s)"
  "length (st_slots (sort_by_decoded x s)) = length (st_slots s)"
  "length (st_requesting (sort_by_decoded x s)) = length (st_requesting s)"
  by (simp_all add: sort_by_decoded_def)

section \<open>Administrators come from administrators\<close>

text \<open>
  Who can be an administrator after an action: one who was, one an administrator promoted, or the
  claimant of a slot that was reserved with the role.
\<close>

definition admin_slots :: "group_state \<Rightarrow> string set" where
  "admin_slots s = s_slot_id ` {l \<in> set (st_slots s). s_role l = Administrator}"

definition admins :: "group_state \<Rightarrow> string set" where
  "admins s = m_pseudonym ` {m \<in> set (st_members s). m_role m = Administrator}"

lemma position_in: "position p xs = Some i \<Longrightarrow> xs ! i \<in> set xs \<and> p (xs ! i)"
  by (auto dest: position_SomeD)

lemma nonadmin_admins:
  assumes "apply_action x b n c False l a = Inr n'"
  shows "admins n' \<subseteq> admins n \<union> (if admin_slots n \<noteq> {} \<and> is_by_newcomer a then {ch_actor c} else {})"
proof (cases a)
  case (Claim sid sig e)
  with assms obtain i where i: "position (\<lambda>s. s_slot_id s = sid) (st_slots n) = Some i"
    "n' = n\<lparr>st_slots := remove_at i (st_slots n), st_members := st_members n @
      [\<lparr>m_pseudonym = ch_actor c, m_role = s_role (st_slots n ! i),
        m_joined_at_revision = ch_revision c, m_entry = e\<rparr>]\<rparr>"
    by (auto simp: action_defs)
  from position_in [OF i(1)] i(2) Claim show ?thesis
    by (auto simp: admins_def admin_slots_def)
next
  case (ModifyOwnEntry e)
  with assms obtain ms where ms: "n' = n\<lparr>st_members := ms\<rparr>"
    "update_first (\<lambda>m. m_pseudonym m = ch_actor c) (\<lambda>m. m\<lparr>m_entry := e\<rparr>) (st_members n) = Some ms"
    by (auto simp: action_defs)
  from update_first_SomeD [OF ms(2)] ms(1) have "admins n' = admins n"
    by (auto simp: admins_def image_Un Collect_disj_eq insert_Collect conj_disj_distribR image_iff)
  then show ?thesis by simp
qed (use assms in \<open>auto simp: action_defs admins_def image_iff
      dest!: apply_ban_cases remove_at_split update_first_SomeD\<close>)

lemma nonadmin_admin_slots:
  "apply_action x b n c False l a = Inr n' \<Longrightarrow> admin_slots n' \<subseteq> admin_slots n"
  using nonadmin_slots [of x b n c l a n'] unfolding plain_new_slots_def admin_slots_def by force

lemma nonadmin_actions_admins:
  assumes "\<not> is_administrator s (ch_actor c)"
  shows "apply_actions x s c l n as = Inr n' \<Longrightarrow> admins n' \<subseteq> admins n \<union>
    (if admin_slots n \<noteq> {} \<and> any is_by_newcomer as then {ch_actor c} else {})"
proof (induction as arbitrary: n)
  case Nil
  then show ?case by simp
next
  case (Cons a as)
  with assms obtain m where m: "apply_action x s n c False l a = Inr m" "apply_actions x s c l m as = Inr n'"
    by (auto simp: Let_def)
  from Cons.IH [OF m(2)] nonadmin_admins [OF m(1)] nonadmin_admin_slots [OF m(1)]
  show ?case by (auto split: if_splits)
qed

section \<open>Capacity\<close>

lemma remove_at_Some_length: "position p xs = Some i \<Longrightarrow> Suc (length (remove_at i xs)) = length xs"
  by (auto dest!: position_SomeD simp: length_remove_at)

lemma update_first_length: "update_first p f xs = Some ys \<Longrightarrow> length ys = length xs"
  by (auto dest!: update_first_SomeD)

lemma remove_member_length:
  "remove_member n p = Inr n' \<Longrightarrow>
     Suc (length (st_members n')) = length (st_members n) \<and> st_slots n' = st_slots n"
  by (auto simp: remove_member_def remove_at_Some_length)

lemma apply_action_places:
  assumes "apply_action x b n c adm l a = Inr n'" "place_count n \<le> max_members l"
  shows "place_count n' \<le> max_members l"
proof (cases a)
  case (Ban p)
  with assms(1) have "apply_ban x n c adm p = Inr n'" by simp
  from apply_ban_cases [OF this] obtain ms where
    ms: "if member n p \<noteq> None then remove_member n p = Inr (n\<lparr>st_members := ms\<rparr>) else ms = st_members n"
      "st_members n' = ms" "st_slots n' = st_slots n" by auto
  then have "length ms \<le> length (st_members n)"
    by (auto split: if_splits dest!: remove_member_length)
  with ms assms(2) show ?thesis by (simp add: place_count_def)
qed (use assms in \<open>auto simp: action_defs place_count_def update_first_length
      dest!: remove_at_Some_length\<close>)

lemma apply_action_requests:
  assumes "apply_action x b n c adm l a = Inr n'" "length (st_requesting n) \<le> max_requesting l"
  shows "length (st_requesting n') \<le> max_requesting l"
proof (cases a)
  case (Ban p)
  with assms(1) have "apply_ban x n c adm p = Inr n'" by simp
  from apply_ban_cases [OF this]
  have "st_requesting n' = filter (\<lambda>r. r_pseudonym r \<noteq> p) (st_requesting n)" by auto
  with assms(2) show ?thesis by (metis (no_types, lifting) le_trans length_filter_le)
qed (use assms in \<open>auto simp: action_defs dest!: remove_at_Some_length\<close>)

lemma apply_actions_capacity:
  "apply_actions x s c l n as = Inr n' \<Longrightarrow>
     (place_count n \<le> max_members l \<longrightarrow> place_count n' \<le> max_members l) \<and>
     (length (st_requesting n) \<le> max_requesting l \<longrightarrow> length (st_requesting n') \<le> max_requesting l)"
proof (induction as arbitrary: n)
  case Nil
  then show ?case by simp
next
  case (Cons a as)
  then obtain adm m where m: "apply_action x s n c adm l a = Inr m" "apply_actions x s c l m as = Inr n'"
    by (auto simp: Let_def)
  from Cons.IH [OF m(2)] apply_action_places [OF m(1)] apply_action_requests [OF m(1)]
  show ?case by blast
qed

section \<open>Limits only restrict\<close>

lemma apply_action_limits:
  assumes "apply_action x b n c adm l a = Inr n'"
    and "max_members l \<le> max_members l'" "max_requesting l \<le> max_requesting l'"
  shows "apply_action x b n c adm l' a = Inr n'"
  using assms by (cases a) (auto simp: action_defs)

lemma apply_actions_limits:
  assumes "max_members l \<le> max_members l'" "max_requesting l \<le> max_requesting l'"
  shows "apply_actions x s c l n as = Inr n' \<Longrightarrow> apply_actions x s c l' n as = Inr n'"
  by (induction as arbitrary: n) (auto simp: Let_def intro: apply_action_limits [OF _ assms])

section \<open>Membership, requests and bans stay apart\<close>

definition membership_inv :: "group_state \<Rightarrow> bool" where
  "membership_inv s \<longleftrightarrow>
     distinct (map m_pseudonym (st_members s)) \<and> distinct (map r_pseudonym (st_requesting s)) \<and>
     m_pseudonym ` set (st_members s) \<inter> r_pseudonym ` set (st_requesting s) = {} \<and>
     set (st_banned s) \<inter> (m_pseudonym ` set (st_members s) \<union> r_pseudonym ` set (st_requesting s)) = {}"

text \<open>A newcomer's action is the only one of its change, so it runs on the state before it.\<close>

definition same_lists :: "group_state \<Rightarrow> group_state \<Rightarrow> bool" where
  "same_lists b n \<longleftrightarrow> st_members n = st_members b \<and> st_requesting n = st_requesting b \<and>
     st_banned n = st_banned b"

lemma check_newcomer_Inr:
  "check_newcomer s p = Inr u \<longleftrightarrow> p \<notin> set (st_banned s) \<and> p \<notin> m_pseudonym ` set (st_members s) \<and>
     p \<notin> r_pseudonym ` set (st_requesting s)"
  by (auto simp: check_newcomer_def is_banned_def member_def find_None_all image_iff)

lemma update_first_map:
  "update_first p f xs = Some ys \<Longrightarrow> (\<And>x. k (f x) = k x) \<Longrightarrow> map k ys = map k xs"
  by (auto dest!: update_first_SomeD)

lemma membership_inv_map:
  "map m_pseudonym ms = map m_pseudonym (st_members s) \<Longrightarrow>
     membership_inv (s\<lparr>st_members := ms\<rparr>) = membership_inv s"
  unfolding membership_inv_def by (simp, metis list.set_map)

lemma remove_member_set:
  assumes "remove_member n p = Inr n'" "distinct (map m_pseudonym (st_members n))"
  shows "n' = n\<lparr>st_members := filter (\<lambda>m. m_pseudonym m \<noteq> p) (st_members n)\<rparr>"
  using assms by (auto simp: remove_member_def remove_at_filter)

lemma membership_inv_filter:
  "membership_inv n \<Longrightarrow> membership_inv (n\<lparr>st_members := filter p (st_members n)\<rparr>)"
  unfolding membership_inv_def by (auto simp: distinct_map_filter disjoint_iff)

lemma membership_inv_remove:
  "remove_member n p = Inr n' \<Longrightarrow> membership_inv n \<Longrightarrow> membership_inv n'"
  using membership_inv_filter [of n] remove_member_set [of n p n'] by (simp add: membership_inv_def)

lemma membership_inv_ban:
  assumes "apply_ban x n c adm p = Inr n'" "membership_inv n"
  shows "membership_inv n'"
proof -
  from apply_ban_cases [OF assms(1)] obtain ms where
    ms: "if member n p \<noteq> None then remove_member n p = Inr (n\<lparr>st_members := ms\<rparr>) else ms = st_members n"
    and n': "n' = n\<lparr>st_members := ms, st_requesting := filter (\<lambda>r. r_pseudonym r \<noteq> p) (st_requesting n),
      st_banned := (if p \<in> set (st_banned n) then st_banned n else st_banned n @ [p])\<rparr>"
    by blast
  from assms(2) have d: "distinct (map m_pseudonym (st_members n))" by (simp add: membership_inv_def)
  have "ms = filter (\<lambda>m. m_pseudonym m \<noteq> p) (st_members n)"
  proof (cases "member n p")
    case None
    with ms show ?thesis by (simp add: member_def find_None_all)
  next
    case (Some m)
    with ms have "remove_member n p = Inr (n\<lparr>st_members := ms\<rparr>)" by simp
    from arg_cong [OF remove_member_set [OF this d], of st_members] show ?thesis by simp
  qed
  with assms(2) n' show ?thesis
    by (auto simp: membership_inv_def distinct_map_filter)
qed

lemma membership_inv_same: "membership_inv n \<Longrightarrow> same_lists n n' \<Longrightarrow> membership_inv n'"
  by (simp add: membership_inv_def same_lists_def)

lemma membership_inv_add_member:
  "membership_inv n \<Longrightarrow> check_newcomer n (m_pseudonym m) = Inr u \<Longrightarrow>
     membership_inv (n\<lparr>st_members := st_members n @ [m]\<rparr>)"
  unfolding check_newcomer_Inr membership_inv_def by auto

lemma membership_inv_add_request:
  "membership_inv n \<Longrightarrow> check_newcomer n (r_pseudonym r) = Inr u \<Longrightarrow>
     membership_inv (n\<lparr>st_requesting := st_requesting n @ [r]\<rparr>)"
  unfolding check_newcomer_Inr membership_inv_def by auto

lemma membership_inv_filter_requests:
  "membership_inv n \<Longrightarrow> membership_inv (n\<lparr>st_requesting := filter p (st_requesting n)\<rparr>)"
  unfolding membership_inv_def by (auto simp: distinct_map_filter disjoint_iff)

lemma membership_inv_remove_request:
  "membership_inv n \<Longrightarrow> position (\<lambda>r. r_pseudonym r = p) (st_requesting n) = Some i \<Longrightarrow>
     membership_inv (n\<lparr>st_requesting := remove_at i (st_requesting n)\<rparr>)"
  using membership_inv_filter_requests [of n]
  by (simp add: membership_inv_def remove_at_filter)

lemma same_lists_newcomer: "same_lists b n \<Longrightarrow> check_newcomer n p = check_newcomer b p"
  unfolding check_newcomer_def same_lists_def is_banned_def member_def by (simp cong del: bindr_cong)

lemma apply_action_membership:
  assumes "apply_action x b n c adm l a = Inr n'" "membership_inv n"
    and "is_by_newcomer a \<longrightarrow> same_lists b n"
  shows "membership_inv n'"
proof (cases a)
  case (Ban p)
  with assms membership_inv_ban show ?thesis by auto
next
  case (ModifyRole p r)
  with assms(1,2) show ?thesis by (auto simp: action_defs membership_inv_map update_first_map)
next
  case (ModifyOwnEntry e)
  with assms(1,2) show ?thesis by (auto simp: action_defs membership_inv_map update_first_map)
next
  case Leave
  with assms(1,2) show ?thesis by (auto intro: membership_inv_remove)
next
  case (RemoveMember p)
  with assms(1,2) show ?thesis by (auto simp: apply_remove_member_def intro: membership_inv_remove)
next
  case (ApproveRequest p)
  with assms(1) obtain i where i: "position (\<lambda>r. r_pseudonym r = p) (st_requesting n) = Some i"
    "n' = n\<lparr>st_requesting := remove_at i (st_requesting n), st_members := st_members n @
      [\<lparr>m_pseudonym = r_pseudonym (st_requesting n ! i), m_role = Member,
        m_joined_at_revision = ch_revision c, m_entry = r_entry (st_requesting n ! i)\<rparr>]\<rparr>"
    by (auto simp: action_defs)
  from assms(2) have "distinct (map r_pseudonym (st_requesting n))" by (simp add: membership_inv_def)
  with i(1) have r: "remove_at i (st_requesting n) = filter (\<lambda>r. r_pseudonym r \<noteq> p) (st_requesting n)"
    by (rule remove_at_filter)
  from position_in [OF i(1)] have "p \<in> r_pseudonym ` set (st_requesting n)"
    "r_pseudonym (st_requesting n ! i) = p" by auto
  with assms(2) show ?thesis unfolding i(2) r
    by (auto simp: membership_inv_def distinct_map_filter)
next
  case (Claim sid sig e)
  with assms obtain i where
    n': "check_newcomer n (ch_actor c) = Inr ()"
    "n' = n\<lparr>st_slots := remove_at i (st_slots n), st_members := st_members n @
      [\<lparr>m_pseudonym = ch_actor c, m_role = s_role (st_slots n ! i),
        m_joined_at_revision = ch_revision c, m_entry = e\<rparr>]\<rparr>"
    by (auto simp: action_defs same_lists_newcomer [symmetric])
  then show ?thesis
    using membership_inv_add_member [OF assms(2), of "\<lparr>m_pseudonym = ch_actor c,
        m_role = s_role (st_slots n ! i), m_joined_at_revision = ch_revision c, m_entry = e\<rparr>"]
    by (simp add: membership_inv_def)
next
  case (JoinFromLink pw e)
  with assms show ?thesis
    by (auto simp: action_defs same_lists_newcomer [symmetric] intro!: membership_inv_add_member)
next
  case (RequestToJoin pw e)
  with assms show ?thesis
    by (auto simp: action_defs same_lists_newcomer [symmetric] intro!: membership_inv_add_request)
next
  case CancelRequest
  with assms show ?thesis by (auto simp: action_defs intro: membership_inv_remove_request)
next
  case (DenyRequest p)
  with assms show ?thesis by (auto simp: action_defs intro: membership_inv_remove_request)
next
  case (Unban p)
  with assms(1) have "n' = n\<lparr>st_banned := filter (\<lambda>b. b \<noteq> p) (st_banned n)\<rparr>"
    by (auto simp: action_defs)
  with assms(2) show ?thesis unfolding membership_inv_def by (simp, blast)
qed (use assms(1) in \<open>auto simp: action_defs same_lists_def intro: membership_inv_same [OF assms(2)]\<close>)

lemma apply_actions_membership:
  assumes "as = [] \<or> (\<exists>a. as = [a] \<and> same_lists s n) \<or> \<not> any is_by_newcomer as"
  shows "apply_actions x s c l n as = Inr n' \<Longrightarrow> membership_inv n \<Longrightarrow> membership_inv n'"
  using assms
proof (induction as arbitrary: n)
  case Nil
  then show ?case by simp
next
  case (Cons a as)
  from Cons.prems(1) obtain adm m where
    m: "apply_action x s n c adm l a = Inr m" "apply_actions x s c l m as = Inr n'"
    by (auto simp: Let_def)
  from Cons.prems(3) have "is_by_newcomer a \<longrightarrow> same_lists s n" by auto
  with m(1) Cons.prems(2) have "membership_inv m" by (blast intro: apply_action_membership)
  moreover from Cons.prems(3) have "as = [] \<or> \<not> any is_by_newcomer as" by auto
  ultimately show ?case using Cons.IH [OF m(2)] by blast
qed

lemma membership_inv_sort: "membership_inv (sort_by_decoded x s) = membership_inv s"
proof -
  have "mset (st_members (sort_by_decoded x s)) = mset (st_members s)"
    "mset (st_requesting (sort_by_decoded x s)) = mset (st_requesting s)"
    by (simp_all add: sort_by_decoded_def)
  then have "distinct (map m_pseudonym (st_members (sort_by_decoded x s))) =
      distinct (map m_pseudonym (st_members s))"
    "distinct (map r_pseudonym (st_requesting (sort_by_decoded x s))) =
      distinct (map r_pseudonym (st_requesting s))"
    by (metis mset_eq_imp_distinct_iff mset_map)+
  then show ?thesis by (simp add: membership_inv_def)
qed

end
