(* ===== verification/Group_Log.thy ===== *)
theory Group_Log
  imports Group_Safety
begin

text \<open>
  A group's chain of changes, as its server stores it and a member replays it: the genesis, then
  changes each accepted on the state and head the ones before it gave.  The invariants of every
  state a chain can reach, and what the chain head says about the history before it.
\<close>

inductive group_log ::
  "'a group_ext_scheme \<Rightarrow> home_pin \<Rightarrow> group_limits \<Rightarrow> group_change list \<Rightarrow> group_state \<Rightarrow> bytes \<Rightarrow> bool"
  for x home l where
  genesis: "check_genesis x c home l = Inr s \<Longrightarrow> hash_of_change x c = Inr h \<Longrightarrow>
     group_log x home l [c] s h"
| change: "group_log x home l cs s h \<Longrightarrow> check_change x s h c l = Inr s' \<Longrightarrow>
     hash_of_change x c = Inr h' \<Longrightarrow> group_log x home l (cs @ [c]) s' h'"

inductive_cases group_log_single: "group_log x home l [c] s h"

section \<open>One accepted change\<close>

lemma validate_shape_newcomers:
  "validate_shape x c = Inr u \<Longrightarrow> ch_actions c \<noteq> [] \<and>
     (any is_by_newcomer (ch_actions c) \<longrightarrow> (\<exists>a. ch_actions c = [a]))"
  by (auto simp: validate_shape_def length_Suc_conv)

lemma newcomer_singleton:
  assumes "validate_shape x c = Inr u"
  shows "ch_actions c = [] \<or> (\<exists>a. ch_actions c = [a] \<and> same_lists s (s\<lparr>st_revision := r\<rparr>)) \<or>
    \<not> any is_by_newcomer (ch_actions c)"
  using validate_shape_newcomers [OF assms] by (auto simp: same_lists_def)

lemma check_change_facts:
  assumes "check_change x s h c l = Inr s'"
  shows "validate_state x s' = Inr ()" "validate_state x s = Inr ()"
    "unat (st_revision s') = Suc (unat (st_revision s))" "st_revision s' = ch_revision c"
    "st_group_id s' = st_group_id s" "st_home s' = st_home s" "ch_group_id c = st_group_id s"
    "ch_previous_hash c = encode x h" "\<not> st_terminated s"
    "validate_shape x c = Inr ()" "check_limits l = Inr ()"
proof -
  from check_change_next [OF assms] obtain mid where m:
    "check_limits l = Inr ()" "validate_state x s = Inr ()" "validate_shape x c = Inr ()"
    "ch_group_id c = st_group_id s" "checked_add (st_revision s) 1 = Some (ch_revision c)"
    "ch_previous_hash c = encode x h" "\<not> st_terminated s"
    "apply_actions x s c l (s\<lparr>st_revision := ch_revision c\<rparr>) (ch_actions c) = Inr mid"
    "s' = sort_by_decoded x mid" "validate_state x s' = Inr ()"
    by (rule next_state_InrD) blast
  from checked_add_Some [OF m(5)] have "unat (ch_revision c) = Suc (unat (st_revision s))" by simp
  with m apply_actions_frame [OF m(8)]
  show "validate_state x s' = Inr ()" "validate_state x s = Inr ()"
    "unat (st_revision s') = Suc (unat (st_revision s))" "st_revision s' = ch_revision c"
    "st_group_id s' = st_group_id s" "st_home s' = st_home s" "ch_group_id c = st_group_id s"
    "ch_previous_hash c = encode x h" "\<not> st_terminated s"
    "validate_shape x c = Inr ()" "check_limits l = Inr ()" by auto
qed

lemma check_change_membership:
  assumes "check_change x s h c l = Inr s'" "membership_inv s"
  shows "membership_inv s'"
proof -
  from check_change_next [OF assms(1)] obtain mid where m: "validate_shape x c = Inr ()"
    "apply_actions x s c l (s\<lparr>st_revision := ch_revision c\<rparr>) (ch_actions c) = Inr mid"
    "s' = sort_by_decoded x mid"
    by (rule next_state_InrD) blast
  from assms(2) have "membership_inv (s\<lparr>st_revision := ch_revision c\<rparr>)" by (simp add: membership_inv_def)
  with apply_actions_membership [OF newcomer_singleton [OF m(1)] m(2)] have "membership_inv mid" .
  then show ?thesis by (simp add: m(3) membership_inv_sort)
qed

lemma check_change_capacity:
  assumes "check_change x s h c l = Inr s'"
  shows "(place_count s \<le> max_members l \<longrightarrow> place_count s' \<le> max_members l) \<and>
    (length (st_requesting s) \<le> max_requesting l \<longrightarrow> length (st_requesting s') \<le> max_requesting l)"
proof -
  from check_change_next [OF assms] obtain mid where m:
    "apply_actions x s c l (s\<lparr>st_revision := ch_revision c\<rparr>) (ch_actions c) = Inr mid"
    "s' = sort_by_decoded x mid"
    by (rule next_state_InrD) blast
  from apply_actions_capacity [OF m(1)] show ?thesis by (simp add: m(2) place_count_def)
qed

section \<open>The genesis\<close>

lemma genesis_action_Some: "genesis_action as = Some (home, access, entry) \<longleftrightarrow> as = [Genesis home access entry]"
  by (cases as rule: genesis_action.cases) auto

lemma genesis_state_InrD:
  assumes "genesis_state x c home l = Inr s"
  shows "validate_state x s = Inr ()" "st_revision s = 0" "ch_revision c = 0" "st_home s = home"
    "st_group_id s = ch_group_id c" "st_slots s = []" "st_requesting s = []" "st_banned s = []"
    "\<not> st_terminated s" "check_limits l = Inr ()"
    "\<exists>access entry. ch_actions c = [Genesis home access entry] \<and> st_access s = access \<and>
       st_members s = [\<lparr>m_pseudonym = ch_actor c, m_role = Administrator, m_joined_at_revision = 0,
         m_entry = entry\<rparr>]"
    "ch_previous_hash c = encode x (replicate hash_len 0)"
  using assms by (auto simp: genesis_state_def genesis_action_Some Let_def)

lemma genesis_deterministic:
  assumes "genesis_state x c home l = Inr s" "genesis_state x c home' l' = Inr s'"
  shows "s' = s"
  using assms by (auto simp: genesis_state_def genesis_action_Some Let_def)

section \<open>Every state of a chain\<close>

lemma group_log_invariant:
  assumes "group_log x home l cs s h"
  shows "validate_state x s = Inr () \<and> membership_inv s \<and> place_count s \<le> max_members l \<and>
    length (st_requesting s) \<le> max_requesting l \<and> length cs = Suc (unat (st_revision s)) \<and>
    st_home s = home \<and> (\<forall>c\<in>set cs. ch_group_id c = st_group_id s)"
  using assms
proof (induction rule: group_log.induct)
  case (genesis c s h)
  from check_genesis_state [OF genesis(1)] have g: "genesis_state x c home l = Inr s" .
  from genesis_state_InrD [OF g] show ?case
    by (auto simp: membership_inv_def place_count_def check_limits_def)
next
  case (change cs s h c s' h')
  note f = check_change_facts [OF change(2)]
  from change.IH f check_change_membership [OF change(2)] check_change_capacity [OF change(2)]
  show ?case by auto
qed

lemma group_log_nonempty: "group_log x home l cs s h \<Longrightarrow> cs \<noteq> []"
  by (induction rule: group_log.induct) auto

lemma group_log_last_hash: "group_log x home l cs s h \<Longrightarrow> hash_of_change x (last cs) = Inr h"
  by (induction rule: group_log.induct) auto

lemma group_log_revision: "group_log x home l cs s h \<Longrightarrow> st_revision s = ch_revision (last cs)"
proof (induction rule: group_log.induct)
  case (genesis c s h)
  from check_genesis_state [OF genesis(1)] have g: "genesis_state x c home l = Inr s" .
  from genesis_state_InrD(2,3) [OF g] show ?case by simp
next
  case (change cs s h c s' h')
  then show ?case by (simp add: check_change_facts(4))
qed

text \<open>The head before the last change, when there is one, is named by that change.\<close>

lemma group_log_snoc:
  assumes "group_log x home l cs' s' h'" "cs' = cs @ [c]" "cs \<noteq> []"
  shows "\<exists>s h. group_log x home l cs s h \<and> check_change x s h c l = Inr s' \<and> hash_of_change x c = Inr h'"
  using assms by (cases rule: group_log.cases) auto

section \<open>The head determines the history\<close>

text \<open>
  What an adversary would have to show: two different changes, one from each history, whose hashes
  have the same text.
\<close>

definition hash_clash :: "'a group_ext_scheme \<Rightarrow> group_change \<Rightarrow> group_change \<Rightarrow> bool" where
  "hash_clash x c d \<longleftrightarrow> c \<noteq> d \<and> (\<exists>hc hd. hash_of_change x c = Inr hc \<and> hash_of_change x d = Inr hd \<and>
     encode x hc = encode x hd)"

text \<open>Such a pair breaks SHA-256, base64 or the JSON writer on these very inputs.\<close>

lemma hash_clash_breaks:
  assumes "hash_clash x c d"
  shows "\<exists>t u. change_to_json x c = Some t \<and> change_to_json x d = Some u \<and>
    (t = u \<or> t \<noteq> u \<and> (let a = change_hash_domain @ t; b = change_hash_domain @ u in
       sha256 x a = sha256 x b \<or> sha256 x a \<noteq> sha256 x b \<and> std_encode x (sha256 x a) = std_encode x (sha256 x b)))"
  using assms
  by (auto simp: hash_clash_def hash_of_change_def change_canonical_bytes_def change_hash_def encode_def)

lemma next_state_deterministic:
  assumes "next_state x s h c l = Inr a" "next_state x s h' c l' = Inr b"
  shows "a = b"
proof -
  from assms(1) obtain m where m: "check_limits l = Inr ()"
    "apply_actions x s c l (s\<lparr>st_revision := ch_revision c\<rparr>) (ch_actions c) = Inr m"
    "a = sort_by_decoded x m" by (rule next_state_InrD) blast
  from assms(2) obtain n where n: "check_limits l' = Inr ()"
    "apply_actions x s c l' (s\<lparr>st_revision := ch_revision c\<rparr>) (ch_actions c) = Inr n"
    "b = sort_by_decoded x n" by (rule next_state_InrD) blast
  from m(1) n(1) have le: "max_members l \<le> max_members limits_max" "max_requesting l \<le> max_requesting limits_max"
    "max_members l' \<le> max_members limits_max" "max_requesting l' \<le> max_requesting limits_max"
    by (auto simp: check_limits_def limits_max_def)
  from apply_actions_limits [OF le(1,2) m(2)] apply_actions_limits [OF le(3,4) n(2)] m(3) n(3)
  show ?thesis by simp
qed

lemma group_log_head_unique:
  "group_log x home l cs s h \<Longrightarrow> group_log x home' l' cs' s' h' \<Longrightarrow> encode x h' = encode x h \<Longrightarrow>
     \<forall>c\<in>set cs. \<forall>d\<in>set cs'. \<not> hash_clash x c d \<Longrightarrow> cs' = cs \<and> s' = s"
proof (induction cs arbitrary: s h cs' s' h' rule: rev_induct)
  case Nil
  then show ?case by (auto dest: group_log_nonempty)
next
  case (snoc c cs)
  obtain d ds where cs': "cs' = ds @ [d]"
    using group_log_nonempty [OF snoc.prems(2)] by (metis append_butlast_last_id)
  from group_log_last_hash [OF snoc.prems(1)] group_log_last_hash [OF snoc.prems(2)] cs' snoc.prems(3,4)
  have dc: "d = c" by (auto simp: hash_clash_def)
  from group_log_revision [OF snoc.prems(1)] group_log_revision [OF snoc.prems(2)] cs' dc
  have "st_revision s' = st_revision s" by simp
  with group_log_invariant [OF snoc.prems(1)] group_log_invariant [OF snoc.prems(2)] cs'
  have len: "length ds = length cs" by simp
  show ?case
  proof (cases "cs = []")
    case True
    with len have "ds = []" by simp
    with True snoc.prems cs' dc show ?thesis
      by (auto elim!: group_log_single dest!: check_genesis_state dest: genesis_deterministic
          group_log_nonempty)
  next
    case False
    then have "ds \<noteq> []" using len by auto
    from group_log_snoc [OF snoc.prems(1) refl False] obtain s1 h1 where
      a: "group_log x home l cs s1 h1" "check_change x s1 h1 c l = Inr s" by blast
    from group_log_snoc [OF snoc.prems(2) cs' \<open>ds \<noteq> []\<close>] dc obtain s2 h2 where
      b: "group_log x home' l' ds s2 h2" "check_change x s2 h2 c l' = Inr s'" by blast
    have eh: "encode x h2 = encode x h1"
      using check_change_facts(8) [OF a(2)] check_change_facts(8) [OF b(2)] by simp
    from snoc.IH [OF a(1) b(1) eh] snoc.prems(4) cs' have eq: "ds = cs" "s2 = s1" by auto
    from check_change_next [OF a(2)] check_change_next [OF b(2)] have "s' = s"
      unfolding eq by (rule next_state_deterministic [THEN sym])
    with eq cs' dc show ?thesis by simp
  qed
qed

end
