(* ===== verification/Group_Spec.thy ===== *)
theory Group_Spec
  imports Group_Log
begin

text \<open>
  What a group's chain of changes means, without the lists it is kept in: who is a member with
  which role, which slots are open, who asks to join, who is banned.  Every accepted change is its
  actions folded over that view; the guards decide only whether it happens.
\<close>

record group_view =
  v_roles :: "string \<Rightarrow> group_role option"
  v_slots :: "string \<Rightarrow> (group_role \<times> string) option"
  v_requests :: "string set"
  v_banned :: "string set"

definition group_abs :: "group_state \<Rightarrow> group_view" where
  "group_abs s = \<lparr>v_roles = map_of (map (\<lambda>m. (m_pseudonym m, m_role m)) (st_members s)),
     v_slots = map_of (map (\<lambda>l. (s_slot_id l, (s_role l, s_adder l))) (st_slots s)),
     v_requests = r_pseudonym ` set (st_requesting s), v_banned = set (st_banned s)\<rparr>"

fun spec_action :: "string \<Rightarrow> group_action \<Rightarrow> group_view \<Rightarrow> group_view" where
  "spec_action actor (AddSlot i role _ _) v = v\<lparr>v_slots := (v_slots v)(i \<mapsto> (role, actor))\<rparr>"
| "spec_action actor (RevokeSlot i) v = v\<lparr>v_slots := (v_slots v)(i := None)\<rparr>"
| "spec_action actor (Claim i _ _) v =
     v\<lparr>v_slots := (v_slots v)(i := None), v_roles := (v_roles v)(actor := map_option fst (v_slots v i))\<rparr>"
| "spec_action actor (JoinFromLink _ _) v = v\<lparr>v_roles := (v_roles v)(actor \<mapsto> Member)\<rparr>"
| "spec_action actor (RequestToJoin _ _) v = v\<lparr>v_requests := insert actor (v_requests v)\<rparr>"
| "spec_action actor CancelRequest v = v\<lparr>v_requests := v_requests v - {actor}\<rparr>"
| "spec_action actor (ApproveRequest p) v =
     v\<lparr>v_requests := v_requests v - {p}, v_roles := (v_roles v)(p \<mapsto> Member)\<rparr>"
| "spec_action actor (DenyRequest p) v = v\<lparr>v_requests := v_requests v - {p}\<rparr>"
| "spec_action actor (RemoveMember p) v = v\<lparr>v_roles := (v_roles v)(p := None)\<rparr>"
| "spec_action actor Leave v = v\<lparr>v_roles := (v_roles v)(actor := None)\<rparr>"
| "spec_action actor (ModifyRole p role) v = v\<lparr>v_roles := (v_roles v)(p \<mapsto> role)\<rparr>"
| "spec_action actor (Ban p) v = v\<lparr>v_roles := (v_roles v)(p := None),
     v_requests := v_requests v - {p}, v_banned := insert p (v_banned v)\<rparr>"
| "spec_action actor (Unban p) v = v\<lparr>v_banned := v_banned v - {p}\<rparr>"
| "spec_action actor _ v = v"

section \<open>Lists as maps\<close>

lemma map_of_remove_at:
  assumes "position (\<lambda>x. k x = a) xs = Some i" "distinct (map k xs)"
  shows "map_of (map (\<lambda>x. (k x, g x)) (remove_at i xs)) = (map_of (map (\<lambda>x. (k x, g x)) xs))(a := None)"
proof -
  have "map_of (map (\<lambda>x. (k x, g x)) (filter (\<lambda>x. k x \<noteq> a) xs)) = (map_of (map (\<lambda>x. (k x, g x)) xs))(a := None)"
    by (induction xs) auto
  with remove_at_filter [OF assms] show ?thesis by simp
qed

lemma map_of_snoc_fresh:
  "a \<notin> k ` set xs \<Longrightarrow> [a \<mapsto> b] ++ map_of (map (\<lambda>x. (k x, g x)) xs) = (map_of (map (\<lambda>x. (k x, g x)) xs))(a \<mapsto> b)"
  by (induction xs) (auto simp: fun_eq_iff)

lemma map_of_snoc_fresh':
  "\<forall>x\<in>set xs. k x \<noteq> a \<Longrightarrow> [a \<mapsto> b] ++ map_of (map (\<lambda>x. (k x, g x)) xs) = (map_of (map (\<lambda>x. (k x, g x)) xs))(a \<mapsto> b)"
  by (rule map_of_snoc_fresh) auto

lemma map_of_position:
  "position (\<lambda>x. k x = a) xs = Some i \<Longrightarrow> map_of (map (\<lambda>x. (k x, g x)) xs) a = Some (g (xs ! i))"
  by (induction xs arbitrary: i) (auto split: if_splits)

lemma map_of_update_first:
  "update_first (\<lambda>x. k x = a) f xs = Some ys \<Longrightarrow> (\<And>x. k (f x) = k x) \<Longrightarrow> (\<And>x. g (f x) = b) \<Longrightarrow>
     map_of (map (\<lambda>x. (k x, g x)) ys) = (map_of (map (\<lambda>x. (k x, g x)) xs))(a \<mapsto> b)"
  by (induction xs arbitrary: ys) (auto split: if_splits simp: fun_eq_iff)

lemma map_of_update_first_same:
  "update_first p f xs = Some ys \<Longrightarrow> (\<And>x. k (f x) = k x) \<Longrightarrow> (\<And>x. g (f x) = g x) \<Longrightarrow>
     map_of (map (\<lambda>x. (k x, g x)) ys) = map_of (map (\<lambda>x. (k x, g x)) xs)"
  by (induction xs arbitrary: ys) (auto split: if_splits)

lemma map_of_sort_key:
  "distinct (map k xs) \<Longrightarrow> map_of (map (\<lambda>x. (k x, g x)) (sort_key f xs)) = map_of (map (\<lambda>x. (k x, g x)) xs)"
proof -
  assume d: "distinct (map k xs)"
  have m: "mset (map (\<lambda>x. (k x, g x)) (sort_key f xs)) = mset (map (\<lambda>x. (k x, g x)) xs)" by simp
  have "distinct (map k (sort_key f xs))"
    using d by (metis mset_eq_imp_distinct_iff mset_map mset_sort)
  with d have ds: "distinct (map fst (map (\<lambda>x. (k x, g x)) (sort_key f xs)))"
    "distinct (map fst (map (\<lambda>x. (k x, g x)) xs))" by (simp_all add: comp_def)
  show ?thesis using mset_eq_setD [OF m] by (simp only: map_of_inject_set [OF ds])
qed

lemma remove_at_names:
  "position (\<lambda>x. k x = a) xs = Some i \<Longrightarrow> distinct (map k xs) \<Longrightarrow>
     k ` set (remove_at i xs) = k ` set xs - {a}"
  by (auto simp: remove_at_filter)

lemma distinct_remove_at: "distinct (map k xs) \<Longrightarrow> distinct (map k (remove_at i xs))"
  using set_take_disj_set_drop_if_distinct [of "map k xs" i "Suc i"]
  by (simp add: remove_at_def take_map [symmetric] drop_map [symmetric] del: distinct_map)

section \<open>Slots stay distinct\<close>

definition slots_distinct :: "group_state \<Rightarrow> bool" where
  "slots_distinct s = distinct (map s_slot_id (st_slots s))"

lemma validate_state_slots:
  assumes "validate_state x s = Inr ()"
  shows "slots_distinct s"
proof -
  from assms have "validate_slots x (st_revision s) (st_slots s) = Inr ()"
    by (simp add: validate_state_def)
  from ordered_loop_distinct [OF this [unfolded validate_slots_def]]
  have "distinct (map (decode_exact x slot_id_len ''slotId'') (map s_slot_id (st_slots s)))"
    by (simp add: comp_def)
  then show ?thesis unfolding slots_distinct_def
    by (auto simp: distinct_map dest: inj_on_imageI2)
qed

lemma apply_action_slots_distinct:
  assumes "apply_action x b n c adm l a = Inr n'" "slots_distinct n"
  shows "slots_distinct n'"
proof -
  have rm: "distinct (map s_slot_id (remove_at i (st_slots n)))" for i
    using assms(2) unfolding slots_distinct_def
    by (intro distinct_remove_at)
  show ?thesis
    using assms rm by (cases a) (auto simp: action_defs slots_distinct_def dest!: apply_ban_cases)
qed

section \<open>One action\<close>

lemma group_abs_same [simp]:
  "group_abs (n\<lparr>st_revision := r\<rparr>) = group_abs n" "group_abs (n\<lparr>st_access := ac\<rparr>) = group_abs n"
  "group_abs (n\<lparr>st_announcements_only := on\<rparr>) = group_abs n"
  "group_abs (n\<lparr>st_terminated := on\<rparr>) = group_abs n" "group_abs (n\<lparr>st_attributes := at\<rparr>) = group_abs n"
  "group_abs (n\<lparr>st_invite_link_password := pw\<rparr>) = group_abs n"
  "group_abs (n\<lparr>st_ban_list := bl\<rparr>) = group_abs n"
  by (simp_all add: group_abs_def)

lemma membership_inv_distinct:
  "membership_inv n \<Longrightarrow> distinct (map m_pseudonym (st_members n))"
  "membership_inv n \<Longrightarrow> distinct (map r_pseudonym (st_requesting n))"
  by (simp_all add: membership_inv_def)

lemma group_abs_remove_member:
  "remove_member n p = Inr n' \<Longrightarrow> membership_inv n \<Longrightarrow>
     group_abs n' = (group_abs n)\<lparr>v_roles := (v_roles (group_abs n))(p := None)\<rparr>"
  by (auto simp: remove_member_def group_abs_def map_of_remove_at membership_inv_distinct)

lemma group_abs_no_member:
  "member n p = None \<Longrightarrow> v_roles (group_abs n) p = None"
  by (auto simp: member_def find_None_all group_abs_def map_of_eq_None_iff)

lemma group_abs_ban:
  assumes "apply_ban x n c adm p = Inr n'" "membership_inv n"
  shows "group_abs n' = spec_action (ch_actor c) (Ban p) (group_abs n)"
proof -
  from apply_ban_cases [OF assms(1)] obtain ms where
    ms: "if member n p \<noteq> None then remove_member n p = Inr (n\<lparr>st_members := ms\<rparr>) else ms = st_members n"
    and n': "n' = n\<lparr>st_members := ms, st_requesting := filter (\<lambda>r. r_pseudonym r \<noteq> p) (st_requesting n),
      st_banned := (if p \<in> set (st_banned n) then st_banned n else st_banned n @ [p])\<rparr>" by blast
  have "v_roles (group_abs (n\<lparr>st_members := ms\<rparr>)) = (v_roles (group_abs n))(p := None)"
  proof (cases "member n p")
    case None
    with ms group_abs_no_member [OF None] show ?thesis by (simp add: fun_upd_idem)
  next
    case Some
    with ms have "remove_member n p = Inr (n\<lparr>st_members := ms\<rparr>)" by simp
    from group_abs_remove_member [OF this assms(2)] show ?thesis by simp
  qed
  then show ?thesis by (auto simp: n' group_abs_def)
qed

lemma apply_action_spec:
  assumes "apply_action x b n c adm l a = Inr n'" "membership_inv n" "slots_distinct n"
    and "is_by_newcomer a \<longrightarrow> same_lists b n"
  shows "group_abs n' = spec_action (ch_actor c) a (group_abs n)"
proof (cases a)
  case (Ban p)
  with assms group_abs_ban show ?thesis by auto
next
  case (AddSlot i r k e)
  with assms show ?thesis by (auto simp: action_defs group_abs_def map_of_snoc_fresh')
next
  case (RevokeSlot i)
  with assms show ?thesis by (auto simp: action_defs group_abs_def map_of_remove_at slots_distinct_def)
next
  case (Claim i sg e)
  from Claim assms have "check_newcomer n (ch_actor c) = Inr ()"
    by (auto simp: apply_claim_def same_lists_newcomer)
  then have "ch_actor c \<notin> m_pseudonym ` set (st_members n)" by (simp add: check_newcomer_Inr)
  with Claim assms(1,3) show ?thesis
    by (auto simp: action_defs group_abs_def map_of_remove_at slots_distinct_def map_of_position
        map_of_snoc_fresh)
next
  case (JoinFromLink pw e)
  from JoinFromLink assms have "check_newcomer n (ch_actor c) = Inr ()"
    by (auto simp: apply_join_from_link_def same_lists_newcomer)
  then have "ch_actor c \<notin> m_pseudonym ` set (st_members n)" by (simp add: check_newcomer_Inr)
  with JoinFromLink assms(1) show ?thesis
    by (auto simp: action_defs group_abs_def map_of_snoc_fresh)
next
  case (RequestToJoin pw e)
  with assms(1) show ?thesis by (auto simp: action_defs group_abs_def)
next
  case CancelRequest
  with assms(1) obtain i where i: "position (\<lambda>r. r_pseudonym r = ch_actor c) (st_requesting n) = Some i"
    "n' = n\<lparr>st_requesting := remove_at i (st_requesting n)\<rparr>" by (auto simp: action_defs)
  with CancelRequest remove_at_names [OF i(1) membership_inv_distinct(2) [OF assms(2)]] show ?thesis
    by (simp add: group_abs_def)
next
  case (ApproveRequest p)
  with assms(1) obtain i where i: "position (\<lambda>r. r_pseudonym r = p) (st_requesting n) = Some i"
    "n' = n\<lparr>st_requesting := remove_at i (st_requesting n), st_members := st_members n @
       [\<lparr>m_pseudonym = r_pseudonym (st_requesting n ! i), m_role = Member,
         m_joined_at_revision = ch_revision c, m_entry = r_entry (st_requesting n ! i)\<rparr>]\<rparr>"
    by (auto simp: action_defs)
  from position_in [OF i(1)] assms(2) have p: "r_pseudonym (st_requesting n ! i) = p"
    "p \<notin> m_pseudonym ` set (st_members n)" unfolding membership_inv_def by auto
  with ApproveRequest i show ?thesis
    by (simp add: group_abs_def remove_at_names [OF i(1) membership_inv_distinct(2) [OF assms(2)]]
        map_of_snoc_fresh)
next
  case (DenyRequest p)
  with assms(1) obtain i where i: "position (\<lambda>r. r_pseudonym r = p) (st_requesting n) = Some i"
    "n' = n\<lparr>st_requesting := remove_at i (st_requesting n)\<rparr>" by (auto simp: action_defs)
  with DenyRequest remove_at_names [OF i(1) membership_inv_distinct(2) [OF assms(2)]] show ?thesis
    by (simp add: group_abs_def)
next
  case (RemoveMember p)
  with assms group_abs_remove_member show ?thesis by (auto simp: apply_remove_member_def)
next
  case Leave
  with assms group_abs_remove_member show ?thesis by auto
next
  case (ModifyRole p r)
  with assms(1) show ?thesis
    by (auto simp: action_defs group_abs_def map_of_update_first [where k = m_pseudonym and g = m_role])
next
  case (ModifyOwnEntry e)
  with assms(1) show ?thesis
    by (auto simp: action_defs group_abs_def
        map_of_update_first_same [where k = m_pseudonym and g = m_role])
next
  case (Unban p)
  with assms(1) show ?thesis by (auto simp: action_defs group_abs_def)
qed (use assms(1) in \<open>auto simp: action_defs\<close>)

section \<open>A whole change\<close>

lemma apply_actions_spec:
  assumes "as = [] \<or> (\<exists>a. as = [a] \<and> same_lists s n) \<or> \<not> any is_by_newcomer as"
  shows "apply_actions x s c l n as = Inr n' \<Longrightarrow> membership_inv n \<Longrightarrow> slots_distinct n \<Longrightarrow>
    group_abs n' = fold (spec_action (ch_actor c)) as (group_abs n) \<and> slots_distinct n'"
  using assms
proof (induction as arbitrary: n)
  case Nil
  then show ?case by simp
next
  case (Cons a as)
  then obtain adm m where m: "apply_action x s n c adm l a = Inr m" "apply_actions x s c l m as = Inr n'"
    by (auto simp: Let_def)
  have nc: "is_by_newcomer a \<longrightarrow> same_lists s n" using Cons.prems(4) by auto
  from Cons.IH [OF m(2) apply_action_membership [OF m(1) Cons.prems(2) nc]
      apply_action_slots_distinct [OF m(1) Cons.prems(3)]] Cons.prems(4)
    apply_action_spec [OF m(1) Cons.prems(2,3) nc]
  show ?case by auto
qed

lemma group_abs_sort:
  "membership_inv s \<Longrightarrow> slots_distinct s \<Longrightarrow> group_abs (sort_by_decoded x s) = group_abs s"
  by (simp add: group_abs_def sort_by_decoded_def map_of_sort_key membership_inv_distinct slots_distinct_def)

lemma check_change_spec:
  assumes "check_change x s h c l = Inr s'" "membership_inv s"
  shows "group_abs s' = fold (spec_action (ch_actor c)) (ch_actions c) (group_abs s)"
proof -
  from check_change_next [OF assms(1)] obtain mid where m: "validate_state x s = Inr ()"
    "validate_shape x c = Inr ()"
    "apply_actions x s c l (s\<lparr>st_revision := ch_revision c\<rparr>) (ch_actions c) = Inr mid"
    "s' = sort_by_decoded x mid" by (rule next_state_InrD) blast
  from assms(2) have inv: "membership_inv (s\<lparr>st_revision := ch_revision c\<rparr>)" by (simp add: membership_inv_def)
  from validate_state_slots [OF m(1)] have "slots_distinct (s\<lparr>st_revision := ch_revision c\<rparr>)"
    by (simp add: slots_distinct_def)
  from apply_actions_spec [OF newcomer_singleton [OF m(2)] m(3) inv this]
    apply_actions_membership [OF newcomer_singleton [OF m(2)] m(3) inv]
  show ?thesis by (simp add: m(4) group_abs_sort)
qed

end
