(* ===== verification/Group_Entry_Rules.thy ===== *)
theory Group_Entry_Rules
  imports Group_Spec
begin

text \<open>
  Who gets into a group, and as what: the effect of each action on the set of members, traced back
  to the proof the newcomer showed or the administrator who let them in.
\<close>

definition member_names :: "group_state \<Rightarrow> string set" where
  "member_names s = m_pseudonym ` set (st_members s)"

definition request_names :: "group_state \<Rightarrow> string set" where
  "request_names s = r_pseudonym ` set (st_requesting s)"

text \<open>What a claim of a slot must have shown.\<close>

definition proves_slot :: "'a ext_scheme \<Rightarrow> group_change \<Rightarrow> group_slot \<Rightarrow> string \<Rightarrow> bool" where
  "proves_slot x c slot signature \<longleftrightarrow>
     (\<exists>gid sid key claimant sig.
        decode_group_id x (ch_group_id c) = Inr gid \<and> decode_exact x 16 ''slotId'' (s_slot_id slot) = Inr sid \<and>
        decode_pseudonym x (s_claim_key slot) = Inr key \<and> decode_pseudonym x (ch_actor c) = Inr claimant \<and>
        decode_exact x 64 ''claimSignature'' signature = Inr sig \<and>
        verify_group_signature x key (claim_signed_bytes gid sid (s_created_at_revision slot) claimant) sig)"

lemma claim_proves:
  assumes "apply_claim x b n c i sg e = Inr n'"
  shows "\<exists>slot\<in>set (st_slots n). s_slot_id slot = i \<and> proves_slot x c slot sg \<and>
    n' = n\<lparr>st_slots := st_slots n', st_members := st_members n @ [\<lparr>m_pseudonym = ch_actor c,
      m_role = s_role slot, m_joined_at_revision = ch_revision c, m_entry = e\<rparr>]\<rparr>"
proof -
  from assms obtain k where k: "position (\<lambda>s. s_slot_id s = i) (st_slots n) = Some k"
    by (auto simp: apply_claim_def)
  with assms position_in [OF k] show ?thesis
    by (intro bexI [of _ "st_slots n ! k"])
      (auto simp: apply_claim_def Let_def proves_slot_def verify_claim_signature_def)
qed

lemma update_first_names:
  "update_first p f xs = Some ys \<Longrightarrow> (\<And>x. k (f x) = k x) \<Longrightarrow> k ` set ys = k ` set xs"
  by (metis list.set_map update_first_map)

lemma member_role_update:
  "update_first p (\<lambda>m. m\<lparr>m_role := r\<rparr>) ms = Some ms' \<Longrightarrow> m_pseudonym ` set ms' = m_pseudonym ` set ms"
  by (erule update_first_names) simp

lemma member_entry_update:
  "update_first p (\<lambda>m. m\<lparr>m_entry := r\<rparr>) ms = Some ms' \<Longrightarrow> m_pseudonym ` set ms' = m_pseudonym ` set ms"
  by (erule update_first_names) simp

lemma remove_at_names_subset: "k ` set (remove_at i xs) \<subseteq> k ` set xs"
  by (rule image_mono) (rule set_remove_at_subset)

lemma remove_member_names: "remove_member n p = Inr n' \<Longrightarrow> member_names n' \<subseteq> member_names n"
  using remove_at_names_subset [of m_pseudonym] by (fastforce simp: remove_member_def member_names_def)

lemma ban_names:
  assumes "apply_ban x n c adm p = Inr n'"
  shows "member_names n' \<subseteq> member_names n \<and> request_names n' \<subseteq> request_names n"
proof -
  from apply_ban_cases [OF assms] obtain ms where
    ms: "if member n p \<noteq> None then remove_member n p = Inr (n\<lparr>st_members := ms\<rparr>) else ms = st_members n"
    and n': "st_members n' = ms" "st_requesting n' = filter (\<lambda>r. r_pseudonym r \<noteq> p) (st_requesting n)"
    by auto
  from ms remove_member_names [of n p "n\<lparr>st_members := ms\<rparr>"] have "m_pseudonym ` set ms \<subseteq> member_names n"
    by (simp add: member_names_def split: if_splits)
  with n' show ?thesis by (auto simp: request_names_def member_names_def)
qed

lemma apply_action_names:
  assumes "apply_action x b n c adm l a = Inr n'" "\<not> is_by_newcomer a"
  shows "request_names n' \<subseteq> request_names n \<and>
    member_names n' \<subseteq> member_names n \<union> {p. adm \<and> a = ApproveRequest p \<and> p \<in> request_names n}"
proof (cases a)
  case (ApproveRequest p)
  with assms(1) obtain i where i: "adm" "position (\<lambda>r. r_pseudonym r = p) (st_requesting n) = Some i"
    "n' = n\<lparr>st_requesting := remove_at i (st_requesting n), st_members := st_members n @
       [\<lparr>m_pseudonym = r_pseudonym (st_requesting n ! i), m_role = Member,
         m_joined_at_revision = ch_revision c, m_entry = r_entry (st_requesting n ! i)\<rparr>]\<rparr>"
    by (auto simp: action_defs)
  with position_in [OF i(2)] ApproveRequest remove_at_names_subset [of r_pseudonym i "st_requesting n"]
  show ?thesis by (auto simp: member_names_def request_names_def)
next
  case (DenyRequest p)
  with assms show ?thesis using remove_at_names_subset [of r_pseudonym]
    by (fastforce simp: action_defs member_names_def request_names_def)
next
  case (Ban p)
  with assms ban_names show ?thesis by fastforce
next
  case (ModifyRole p r)
  with assms show ?thesis
    by (auto simp: action_defs member_names_def request_names_def simp del: image_iff
        dest!: member_role_update equalityD1)
next
  case (ModifyOwnEntry e)
  with assms show ?thesis
    by (auto simp: action_defs member_names_def request_names_def simp del: image_iff
        dest!: member_entry_update equalityD1)
next
  case Leave
  with assms remove_member_names remove_member_frame show ?thesis
    by (fastforce simp: request_names_def)
next
  case (RemoveMember p)
  with assms remove_member_names remove_member_frame show ?thesis
    by (fastforce simp: request_names_def apply_remove_member_def)
qed (use assms in \<open>auto simp: action_defs member_names_def request_names_def\<close>)

lemma apply_actions_names:
  "\<not> any is_by_newcomer as \<Longrightarrow> apply_actions x s c l n as = Inr n' \<Longrightarrow>
     request_names n' \<subseteq> request_names n \<and> member_names n' \<subseteq> member_names n \<union>
       {p. is_administrator s (ch_actor c) \<and> ApproveRequest p \<in> set as \<and> p \<in> request_names n}"
proof (induction as arbitrary: n)
  case Nil
  then show ?case by simp
next
  case (Cons a as)
  then obtain m where m: "apply_action x s n c
      (is_administrator s (ch_actor c) \<and> is_administrator n (ch_actor c)) l a = Inr m"
    "apply_actions x s c l m as = Inr n'" by (auto simp: Let_def)
  with Cons.prems(1) apply_action_names [OF m(1)] Cons.IH [OF _ m(2)] show ?case by fastforce
qed

lemma newcomer_action_names:
  assumes "apply_action x b n c adm l a = Inr n'" "is_by_newcomer a"
  shows "member_names n' \<subseteq> member_names n \<union> {ch_actor c}"
  using assms by (cases a) (auto simp: action_defs member_names_def)

lemma sort_names [simp]: "member_names (sort_by_decoded x s) = member_names s"
  "request_names (sort_by_decoded x s) = request_names s"
  by (simp_all add: member_names_def request_names_def)

lemma check_change_cases:
  assumes "check_change x s h c l = Inr s'"
  obtains (newcomer) a mid adm where "ch_actions c = [a]" "is_by_newcomer a"
      "apply_action x s (s\<lparr>st_revision := ch_revision c\<rparr>) c adm l a = Inr mid" "s' = sort_by_decoded x mid"
  | (members) mid where "\<not> any is_by_newcomer (ch_actions c)"
      "apply_actions x s c l (s\<lparr>st_revision := ch_revision c\<rparr>) (ch_actions c) = Inr mid"
      "s' = sort_by_decoded x mid"
proof -
  from check_change_next [OF assms] obtain mid where m: "validate_shape x c = Inr ()"
    "apply_actions x s c l (s\<lparr>st_revision := ch_revision c\<rparr>) (ch_actions c) = Inr mid"
    "s' = sort_by_decoded x mid" by (rule next_state_InrD) blast
  show thesis
  proof (cases "any is_by_newcomer (ch_actions c)")
    case True
    with validate_shape_newcomers [OF m(1)] obtain a where a: "ch_actions c = [a]" by blast
    with True m(2) obtain adm where
      "apply_action x s (s\<lparr>st_revision := ch_revision c\<rparr>) c adm l a = Inr mid" by (auto simp: Let_def)
    with a True m(3) show thesis by (intro newcomer) auto
  next
    case False
    with m(2,3) show thesis by (intro members) auto
  qed
qed

lemma check_change_new_member:
  assumes "check_change x s h c l = Inr s'" "p \<in> member_names s'" "p \<notin> member_names s"
  shows "(\<exists>i sg e. p = ch_actor c \<and> ch_actions c = [Claim i sg e] \<and>
      (\<exists>slot\<in>set (st_slots s). s_slot_id slot = i \<and> proves_slot x c slot sg \<and>
         \<lparr>m_pseudonym = p, m_role = s_role slot, m_joined_at_revision = ch_revision c, m_entry = e\<rparr>
           \<in> set (st_members s'))) \<or>
    (\<exists>pw e. p = ch_actor c \<and> ch_actions c = [JoinFromLink pw e] \<and> check_password x s pw = Inr () \<and>
       add_from_invite_link (st_access s) = AccessAny \<and>
       \<lparr>m_pseudonym = p, m_role = Member, m_joined_at_revision = ch_revision c, m_entry = e\<rparr>
         \<in> set (st_members s')) \<or>
    (is_administrator s (ch_actor c) \<and> ApproveRequest p \<in> set (ch_actions c) \<and> p \<in> request_names s)"
  using assms(1)
proof (cases rule: check_change_cases)
  case (newcomer a mid adm)
  from newcomer_action_names [OF newcomer(3,2)] assms(2,3) newcomer(4)
  have p: "p = ch_actor c" by (auto simp: member_names_def)
  show ?thesis
  proof (cases a)
    case (Claim i sg e)
    with newcomer(3) have "apply_claim x s (s\<lparr>st_revision := ch_revision c\<rparr>) c i sg e = Inr mid" by simp
    from claim_proves [OF this] obtain slot where slot: "slot \<in> set (st_slots s)" "s_slot_id slot = i"
      "proves_slot x c slot sg" and mid: "mid = (s\<lparr>st_revision := ch_revision c\<rparr>)\<lparr>st_slots := st_slots mid,
        st_members := st_members s @ [\<lparr>m_pseudonym = ch_actor c, m_role = s_role slot,
          m_joined_at_revision = ch_revision c, m_entry = e\<rparr>]\<rparr>" by auto
    from mid have "st_members mid = st_members s @ [\<lparr>m_pseudonym = ch_actor c, m_role = s_role slot,
          m_joined_at_revision = ch_revision c, m_entry = e\<rparr>]" by (metis group_state.select_convs(11)
          group_state.update_convs(11) group_state.surjective group_state.update_convs(12))
    with slot p newcomer(1,4) Claim show ?thesis by auto
  qed (use newcomer p assms(2,3) in \<open>auto simp: action_defs member_names_def\<close>)
next
  case (members mid)
  from apply_actions_names [OF members(1,2)] assms(2,3) members(3) show ?thesis
    by (auto simp: member_names_def request_names_def)
qed

text \<open>The ban list keeps out whoever acts for themselves; the approval of a request does not look at it.\<close>

lemma check_change_entry_banned:
  assumes "check_change x s h c l = Inr s'" "p \<in> member_names s'" "p \<notin> member_names s" "p \<in> set (st_banned s)"
  shows "\<not> any is_by_newcomer (ch_actions c)"
  using assms(1)
proof (cases rule: check_change_cases)
  case (newcomer a mid adm)
  from newcomer_action_names [OF newcomer(3,2)] assms(2,3) newcomer(4)
  have "p = ch_actor c" by (auto simp: member_names_def)
  with newcomer assms(2-4) have False by (cases a) (auto simp: action_defs member_names_def check_newcomer_Inr)
  then show ?thesis ..
qed

lemma check_change_banned:
  assumes "check_change x s h c l = Inr s'" "membership_inv s" "p \<in> set (st_banned s)"
  shows "p \<notin> member_names s'"
proof
  assume p: "p \<in> member_names s'"
  from assms(2,3) have out: "p \<notin> member_names s" "p \<notin> request_names s"
    by (auto simp: membership_inv_def member_names_def request_names_def)
  from check_change_new_member [OF assms(1) p out(1)] out(2)
  have actor: "p = ch_actor c" "any is_by_newcomer (ch_actions c)" by auto
  show False using assms(1)
  proof (cases rule: check_change_cases)
    case (newcomer a mid adm)
    with p out actor(1) assms(3) show False
      by (cases a) (auto simp: action_defs member_names_def check_newcomer_Inr)
  qed (use actor in auto)
qed

lemma check_change_new_admin:
  assumes "check_change x s h c l = Inr s'" "\<not> is_administrator s (ch_actor c)" "p \<in> admins s'"
    "p \<notin> admins s"
  shows "p = ch_actor c \<and> (\<exists>i sg e. ch_actions c = [Claim i sg e] \<and>
    (\<exists>slot\<in>set (st_slots s). s_slot_id slot = i \<and> s_role slot = Administrator \<and> proves_slot x c slot sg))"
  using assms(1)
proof (cases rule: check_change_cases)
  case (newcomer a mid adm)
  show ?thesis
  proof (cases a)
    case (Claim i sg e)
    with newcomer(3) have "apply_claim x s (s\<lparr>st_revision := ch_revision c\<rparr>) c i sg e = Inr mid" by simp
    from claim_proves [OF this] obtain slot where slot: "slot \<in> set (st_slots s)" "s_slot_id slot = i"
      "proves_slot x c slot sg" and mid: "set (st_members mid) = insert \<lparr>m_pseudonym = ch_actor c,
          m_role = s_role slot, m_joined_at_revision = ch_revision c, m_entry = e\<rparr> (set (st_members s))"
      by (force dest: arg_cong [of _ _ st_members])
    from assms(3,4) mid newcomer(4) have "p = ch_actor c" "s_role slot = Administrator"
      by (auto simp: admins_def split: if_splits)
    with slot newcomer(1) Claim show ?thesis by auto
  qed (use newcomer assms(3,4) in \<open>auto simp: action_defs admins_def\<close>)
next
  case (members mid)
  from nonadmin_actions_admins [OF assms(2) members(2)] members(1,3) assms(3,4) show ?thesis
    by (auto simp: admins_def)
qed

end
