(* ===== verification/Primitives.thy ===== *)
theory Primitives
  imports Names
begin

text \<open>
  The crypto crate's wrappers around its suite (\<open>kutup-crypto/src/primitives/aead.rs\<close>,
  \<open>sign.rs\<close>): XChaCha20-Poly1305 with its length checks and Ed25519, strict.  The ciphers
  themselves are the parameters \<open>aead_seal\<close>, \<open>aead_open\<close>, \<open>ed25519_sign\<close>, \<open>ed25519_ok\<close> of \<open>ext\<close>;
  a random nonce is an argument.
\<close>

section \<open>Error texts\<close>

fun crypto_error_text :: "crypto_error \<Rightarrow> string" where
  "crypto_error_text (InvalidInput s) = ''invalid input: '' @ s"
| "crypto_error_text (InvalidLength expected got) =
     ''invalid length: expected '' @ decimal expected @ '' bytes, got '' @ decimal got"
| "crypto_error_text TooShort = ''input too short''"
| "crypto_error_text AuthFailed = ''authentication failed''"
| "crypto_error_text Base64 = ''invalid base64''"
| "crypto_error_text (Backend s) = ''crypto backend error: '' @ s"

section \<open>The AEAD\<close>

definition aead_key_len :: nat where "aead_key_len = 32"
definition aead_nonce_len :: nat where "aead_nonce_len = 24"
definition aead_tag_len :: nat where "aead_tag_len = 16"

definition aead_new :: "bytes \<Rightarrow> crypto_error + bytes" where
  "aead_new key =
     bindr (require (length key = aead_key_len) (InvalidLength aead_key_len (length key))) (\<lambda>_. Inr key)"

definition check_nonce :: "bytes \<Rightarrow> crypto_error + unit" where
  "check_nonce nonce =
     require (length nonce = aead_nonce_len) (InvalidLength aead_nonce_len (length nonce))"

definition seal_with_nonce :: "'a ext_scheme \<Rightarrow> bytes \<Rightarrow> bytes \<Rightarrow> bytes \<Rightarrow> bytes \<Rightarrow> crypto_error + bytes" where
  "seal_with_nonce x key nonce aad plaintext =
     bindr (check_nonce nonce) (\<lambda>_.
     ok_or (aead_seal x key nonce aad plaintext) (Backend ''aead seal''))"

definition seal_random :: "'a ext_scheme \<Rightarrow> bytes \<Rightarrow> bytes \<Rightarrow> bytes \<Rightarrow> bytes \<Rightarrow> crypto_error + bytes" where
  "seal_random x key nonce aad plaintext =
     bindr (seal_with_nonce x key nonce aad plaintext) (\<lambda>sealed. Inr (nonce @ sealed))"

definition open_with_nonce :: "'a ext_scheme \<Rightarrow> bytes \<Rightarrow> bytes \<Rightarrow> bytes \<Rightarrow> bytes \<Rightarrow> crypto_error + bytes" where
  "open_with_nonce x key nonce aad ciphertext =
     bindr (check_nonce nonce) (\<lambda>_.
     bindr (require (\<not> length ciphertext < aead_tag_len) TooShort) (\<lambda>_.
     ok_or (aead_open x key nonce aad ciphertext) AuthFailed))"

definition open_sealed :: "'a ext_scheme \<Rightarrow> bytes \<Rightarrow> bytes \<Rightarrow> bytes \<Rightarrow> crypto_error + bytes" where
  "open_sealed x key aad sealed =
     bindr (require (\<not> length sealed < aead_nonce_len + aead_tag_len) TooShort) (\<lambda>_.
     open_with_nonce x key (take aead_nonce_len sealed) aad (drop aead_nonce_len sealed))"

text \<open>What the AEAD's documentation promises: a ciphertext is its plaintext and a 16-byte tag, opens
  under the key, nonce and data it was sealed with, and only so.\<close>

definition aead_law :: "'a ext_scheme \<Rightarrow> bool" where
  "aead_law x \<longleftrightarrow> (\<forall>k n aad p c. aead_seal x k n aad p = Some c \<longrightarrow>
     length c = length p + aead_tag_len \<and> aead_open x k n aad c = Some p)"

lemma aead_lawD:
  "aead_law x \<Longrightarrow> aead_seal x k n aad p = Some c \<Longrightarrow>
     length c = length p + aead_tag_len \<and> aead_open x k n aad c = Some p"
  by (auto simp: aead_law_def)

lemma open_seal_random:
  assumes "aead_law x" "seal_random x key nonce aad p = Inr s"
  shows "open_sealed x key aad s = Inr p" "length s = aead_nonce_len + length p + aead_tag_len"
proof -
  from assms(2) obtain c where c: "length nonce = aead_nonce_len" "aead_seal x key nonce aad p = Some c"
    "s = nonce @ c" by (auto simp: seal_random_def seal_with_nonce_def check_nonce_def)
  with aead_lawD [OF assms(1) c(2)] show "open_sealed x key aad s = Inr p"
    "length s = aead_nonce_len + length p + aead_tag_len"
    by (auto simp: open_sealed_def open_with_nonce_def check_nonce_def)
qed

lemma sealed_parts:
  assumes "aead_law x" "seal_with_nonce x key nonce aad plain = Inr c"
  shows "length nonce = 24" "length c = length plain + 16" "open_with_nonce x key nonce aad c = Inr plain"
  using assms aead_lawD [of x key nonce aad plain c]
  by (auto simp: seal_with_nonce_def open_with_nonce_def check_nonce_def aead_nonce_len_def aead_tag_len_def)

section \<open>Signatures\<close>

definition verifying_key_from_bytes :: "'a ext_scheme \<Rightarrow> bytes \<Rightarrow> crypto_error + bytes" where
  "verifying_key_from_bytes x bs =
     bindr (require (length bs = 32) (InvalidLength 32 (length bs))) (\<lambda>_.
     bindr (require (ed25519_key_ok x bs) (InvalidInput ''verifying key'')) (\<lambda>_. Inr bs))"

definition verify_signature :: "'a ext_scheme \<Rightarrow> bytes \<Rightarrow> bytes \<Rightarrow> bytes \<Rightarrow> crypto_error + unit" where
  "verify_signature x key message signature =
     bindr (require (length signature = 64) AuthFailed) (\<lambda>_.
     require (ed25519_ok x key message signature) AuthFailed)"

text \<open>Ed25519 as documented: a seed's public key is a key, and verifies what the seed signs.\<close>

definition ed25519_law :: "'a ext_scheme \<Rightarrow> bool" where
  "ed25519_law x \<longleftrightarrow> (\<forall>seed m. length seed = 32 \<longrightarrow> length (ed25519_public x seed) = 32 \<and>
     ed25519_key_ok x (ed25519_public x seed) \<and> length (ed25519_sign x seed m) = 64 \<and>
     ed25519_ok x (ed25519_public x seed) m (ed25519_sign x seed m))"

text \<open>Base64 and hexadecimal as documented: decoding inverts encoding.\<close>

definition std_law :: "'a ext_scheme \<Rightarrow> bool" where
  "std_law x \<longleftrightarrow> (\<forall>b. std_decode x (std_encode x b) = Some b)"

definition url_law :: "'a ext_scheme \<Rightarrow> bool" where
  "url_law x \<longleftrightarrow> (\<forall>b. url_decode x (url_encode x b) = Some b)"

definition hex_law :: "'a ext_scheme \<Rightarrow> bool" where
  "hex_law x \<longleftrightarrow> (\<forall>b. hex_decode x (hex_encode x b) = Some b)"

lemma std_lawD [simp]: "std_law x \<Longrightarrow> std_decode x (std_encode x b) = Some b"
  by (simp add: std_law_def)

lemma url_lawD [simp]: "url_law x \<Longrightarrow> url_decode x (url_encode x b) = Some b"
  by (simp add: url_law_def)

lemma hex_lawD [simp]: "hex_law x \<Longrightarrow> hex_decode x (hex_encode x b) = Some b"
  by (simp add: hex_law_def)

lemma std_encode_inj: "std_law x \<Longrightarrow> std_encode x a = std_encode x b \<longleftrightarrow> a = b"
  by (metis option.inject std_lawD)

lemma hex_encode_inj: "hex_law x \<Longrightarrow> hex_encode x a = hex_encode x b \<longleftrightarrow> a = b"
  by (metis option.inject hex_lawD)

section \<open>Collisions\<close>

text \<open>Two given values with one SHA-256: what no one is known to find.\<close>

definition sha_clash :: "'a ext_scheme \<Rightarrow> bytes \<Rightarrow> bytes \<Rightarrow> bool" where
  "sha_clash x a b \<longleftrightarrow> a \<noteq> b \<and> sha256 x a = sha256 x b"

section \<open>Account references as bytes\<close>

definition remove_char :: "char \<Rightarrow> string \<Rightarrow> string" where
  "remove_char c s = filter (\<lambda>d. d \<noteq> c) s"

text \<open>\<open>None\<close> is the panic of \<open>expect\<close>, on an id that is no UUID.\<close>

definition account_ref_bytes :: "'a ext_scheme \<Rightarrow> account_ref \<Rightarrow> bytes option" where
  "account_ref_bytes x r =
     map_option (\<lambda>aid. be16 (length (server_of_ref r) mod 65536) @ bytes_of_string (server_of_ref r) @ aid)
       (hex_decode x (remove_char (CHR ''-'') (account_id r)))"

end
