(* ===== verification/Group_Keys.thy ===== *)
theory Group_Keys
  imports Group_Check Primitives
begin

text \<open>
  What a group derives from its master key (\<open>kutup-crypto/src/chat_group.rs\<close>): the group id, which
  binds the home, the state key, the sealing of the state's fields, pseudonyms and their signatures,
  and the binding of a pseudonym to an account.
\<close>

section \<open>The master key and the group id\<close>

definition kdf_salt :: bytes where "kdf_salt = bytes_of_string ''kutup/chat-group/v1''"
definition id_info :: bytes where "id_info = domain_bytes ''kutup/chat-group/id/v2''"
definition home_domain :: bytes where "home_domain = domain_bytes ''kutup/chat-group/home/v1''"
definition state_key_info :: bytes where "state_key_info = domain_bytes ''kutup/chat-group/state-key/v2''"
definition seal_domain :: bytes where "seal_domain = domain_bytes ''kutup/chat-group/sealed-field/v1''"
definition seal_version :: u8 where "seal_version = 1"
definition binding_domain :: bytes where "binding_domain = domain_bytes ''kutup/chat-group/binding/v1''"
definition pseudonym_salt :: bytes where "pseudonym_salt = domain_bytes ''kutup/chat-group-pseudonym/v1''"

definition length_prefixed :: "string \<Rightarrow> bytes" where
  "length_prefixed s = be16 (length s mod 65536) @ bytes_of_string s"

definition home_digest_input :: "home_pin \<Rightarrow> bytes" where
  "home_digest_input h = home_domain @ length_prefixed (pin_server h) @
     length_prefixed (pin_identity_document_hash h) @ be64 (pin_identity_sequence h)"

definition home_digest :: "'a ext_scheme \<Rightarrow> home_pin \<Rightarrow> crypto_error + bytes" where
  "home_digest x h =
     bindr (require (\<not> (\<not> valid_server (pin_server h) \<or>
         \<not> (length (pin_identity_document_hash h) = 64 \<and> list_all is_lower_hex (pin_identity_document_hash h))))
       (InvalidInput ''a group home must be a canonical server name and identity hash'')) (\<lambda>_.
     Inr (sha256 x (home_digest_input h)))"

record group_master_key =
  gm_key :: bytes
  gm_home :: bytes

definition master_generate :: "'a ext_scheme \<Rightarrow> bytes \<Rightarrow> home_pin \<Rightarrow> crypto_error + group_master_key" where
  "master_generate x random_key home =
     bindr (home_digest x home) (\<lambda>digest. Inr \<lparr>gm_key = random_key, gm_home = digest\<rparr>)"

definition master_from_bytes :: "'a ext_scheme \<Rightarrow> bytes \<Rightarrow> home_pin \<Rightarrow> crypto_error + group_master_key" where
  "master_from_bytes x bs home =
     bindr (require (length bs = 32) (InvalidInput ''group master key length'')) (\<lambda>_.
     bindr (home_digest x home) (\<lambda>digest. Inr \<lparr>gm_key = bs, gm_home = digest\<rparr>))"

definition master_expand :: "'a ext_scheme \<Rightarrow> group_master_key \<Rightarrow> bytes \<Rightarrow> nat \<Rightarrow> bytes" where
  "master_expand x m info n = hkdf_sha256 x kdf_salt (gm_key m) info n"

definition group_id_of :: "'a ext_scheme \<Rightarrow> group_master_key \<Rightarrow> bytes" where
  "group_id_of x m = master_expand x m (id_info @ gm_home m) group_id_len"

record group_state_key =
  gk_key :: bytes
  gk_group_id :: bytes

definition state_key :: "'a ext_scheme \<Rightarrow> group_master_key \<Rightarrow> group_state_key" where
  "state_key x m =
     (let gid = group_id_of x m
      in \<lparr>gk_key = master_expand x m (state_key_info @ gid) 32, gk_group_id = gid\<rparr>)"

section \<open>Sealed fields\<close>

datatype sealed_field =
  FTitle | FDescription | FTimer | FAvatar | FMemberEntry | FSlotEntry | FBanList | FEndorsement

fun field_byte :: "sealed_field \<Rightarrow> u8" where
  "field_byte FTitle = 1"
| "field_byte FDescription = 2"
| "field_byte FTimer = 3"
| "field_byte FAvatar = 4"
| "field_byte FMemberEntry = 5"
| "field_byte FSlotEntry = 6"
| "field_byte FBanList = 7"
| "field_byte FEndorsement = 8"

definition field_aad :: "group_state_key \<Rightarrow> sealed_field \<Rightarrow> bytes \<Rightarrow> crypto_error + bytes" where
  "field_aad k field subject =
     bindr (require (length subject < 65536) (InvalidInput ''sealed field subject length'')) (\<lambda>_.
     Inr (seal_domain @ gk_group_id k @ [field_byte field] @ be16 (length subject) @ subject))"

definition field_seal ::
  "'a ext_scheme \<Rightarrow> bytes \<Rightarrow> group_state_key \<Rightarrow> sealed_field \<Rightarrow> bytes \<Rightarrow> bytes \<Rightarrow> crypto_error + bytes" where
  "field_seal x nonce k field subject plain =
     bindr (aead_new (gk_key k)) (\<lambda>key.
     bindr (field_aad k field subject) (\<lambda>aad.
     bindr (map_err (\<lambda>_. Backend ''group field seal'') (seal_with_nonce x key nonce aad plain)) (\<lambda>ciphertext.
     Inr ([seal_version] @ nonce @ ciphertext))))"

definition field_open ::
  "'a ext_scheme \<Rightarrow> group_state_key \<Rightarrow> sealed_field \<Rightarrow> bytes \<Rightarrow> bytes \<Rightarrow> crypto_error + bytes" where
  "field_open x k field subject sealed =
     bindr (require (\<not> (length sealed < 1 + group_nonce_len + group_tag_len \<or> hd sealed \<noteq> seal_version))
       AuthFailed) (\<lambda>_.
     let nonce = take group_nonce_len (tl sealed); ciphertext = drop group_nonce_len (tl sealed)
     in bindr (aead_new (gk_key k)) (\<lambda>key.
        bindr (field_aad k field subject) (\<lambda>aad.
        map_err (\<lambda>_. AuthFailed) (open_with_nonce x key nonce aad ciphertext))))"

section \<open>Pseudonyms and bindings\<close>

record group_key_pair =
  kp_seed :: bytes
  kp_public :: bytes

definition key_pair_from_seed :: "'a ext_scheme \<Rightarrow> bytes \<Rightarrow> group_key_pair" where
  "key_pair_from_seed x seed = \<lparr>kp_seed = seed, kp_public = ed25519_public x seed\<rparr>"

definition sign_change :: "'a ext_scheme \<Rightarrow> group_key_pair \<Rightarrow> bytes \<Rightarrow> bytes" where
  "sign_change x k change_bytes = ed25519_sign x (kp_seed k) (change_signed_bytes change_bytes)"

definition sign_claim :: "'a ext_scheme \<Rightarrow> group_key_pair \<Rightarrow> bytes \<Rightarrow> bytes \<Rightarrow> u64 \<Rightarrow> bytes \<Rightarrow> bytes" where
  "sign_claim x k group_id slot_id slot_revision new_pseudonym =
     ed25519_sign x (kp_seed k) (claim_signed_bytes group_id slot_id slot_revision new_pseudonym)"

text \<open>The account master key is the state of \<open>GroupPseudonymKey\<close>.\<close>

definition pseudonym_seed :: "'a ext_scheme \<Rightarrow> bytes \<Rightarrow> bytes \<Rightarrow> u32 \<Rightarrow> bytes" where
  "pseudonym_seed x account_master_key group_id join_epoch =
     hkdf_sha256 x pseudonym_salt account_master_key (group_id @ be32 (unat join_epoch)) 32"

definition pseudonym_at :: "'a ext_scheme \<Rightarrow> bytes \<Rightarrow> bytes \<Rightarrow> u32 \<Rightarrow> group_key_pair" where
  "pseudonym_at x account_master_key group_id join_epoch =
     key_pair_from_seed x (pseudonym_seed x account_master_key group_id join_epoch)"

definition binding_signed_bytes :: "'a ext_scheme \<Rightarrow> bytes \<Rightarrow> bytes \<Rightarrow> account_ref \<Rightarrow> bytes option" where
  "binding_signed_bytes x group_id pseudonym account =
     map_option (\<lambda>a. binding_domain @ group_id @ pseudonym @ a) (account_ref_bytes x account)"

definition sign_binding :: "'a ext_scheme \<Rightarrow> bytes \<Rightarrow> bytes \<Rightarrow> bytes \<Rightarrow> account_ref \<Rightarrow> bytes option" where
  "sign_binding x authority_seed group_id pseudonym account =
     map_option (ed25519_sign x authority_seed) (binding_signed_bytes x group_id pseudonym account)"

definition verify_binding :: "'a ext_scheme \<Rightarrow> bytes \<Rightarrow> bytes \<Rightarrow> bytes \<Rightarrow> account_ref \<Rightarrow> bytes \<Rightarrow> bool" where
  "verify_binding x authority_public group_id pseudonym account signature =
     (case binding_signed_bytes x group_id pseudonym account of
        None \<Rightarrow> False | Some bs \<Rightarrow> verify_group_signature x authority_public bs signature)"

section \<open>What the bytes bind\<close>

lemma length_prefixed_inj:
  assumes "length_prefixed s @ a = length_prefixed t @ b" "length s < 65536" "length t < 65536"
  shows "s = t \<and> a = b"
proof -
  from assms(1) have "be16 (length s mod 65536) = be16 (length t mod 65536)"
    "bytes_of_string s @ a = bytes_of_string t @ b" by (auto simp: length_prefixed_def)
  with assms(2,3) show ?thesis by (simp add: be16_inj)
qed

lemma home_digest_Inr:
  "home_digest x h = Inr d \<longleftrightarrow> valid_server (pin_server h) \<and> length (pin_identity_document_hash h) = 64 \<and>
     list_all is_lower_hex (pin_identity_document_hash h) \<and> d = sha256 x (home_digest_input h)"
  by (auto simp: home_digest_def)

lemma home_digest_input_inj:
  assumes "home_digest_input h = home_digest_input h'" "home_digest x h = Inr d" "home_digest x h' = Inr d'"
  shows "h = h'"
proof -
  from assms(2,3) have l: "length (pin_server h) < 65536" "length (pin_server h') < 65536"
    "length (pin_identity_document_hash h) < 65536" "length (pin_identity_document_hash h') < 65536"
    by (auto simp: home_digest_Inr valid_server_def)
  from assms(1) have "length_prefixed (pin_server h) @ length_prefixed (pin_identity_document_hash h) @
      be64 (pin_identity_sequence h) = length_prefixed (pin_server h') @
      length_prefixed (pin_identity_document_hash h') @ be64 (pin_identity_sequence h')"
    by (simp add: home_digest_input_def)
  from length_prefixed_inj [OF this l(1,2)] have s: "pin_server h = pin_server h'"
    "length_prefixed (pin_identity_document_hash h) @ be64 (pin_identity_sequence h) =
      length_prefixed (pin_identity_document_hash h') @ be64 (pin_identity_sequence h')" by auto
  from length_prefixed_inj [OF s(2) l(3,4)] s(1) show ?thesis by simp
qed

lemma field_byte_inj: "field_byte f = field_byte g \<longleftrightarrow> f = g"
  by (cases f; cases g) simp_all

lemma field_aad_inj:
  assumes "field_aad k f s = Inr a" "field_aad k' f' s' = Inr a"
    "length (gk_group_id k) = length (gk_group_id k')"
  shows "gk_group_id k = gk_group_id k' \<and> f = f' \<and> s = s'"
  using assms by (auto simp: field_aad_def field_byte_inj)

lemma field_open_seal:
  assumes "aead_law x" "field_seal x nonce k field subject plain = Inr sealed"
  shows "field_open x k field subject sealed = Inr plain \<and> length sealed = sealed_len (length plain)"
proof -
  from assms(2) obtain aad c where c: "length (gk_key k) = 32" "field_aad k field subject = Inr aad"
    "length nonce = 24" "aead_seal x (gk_key k) nonce aad plain = Some c" "sealed = [seal_version] @ nonce @ c"
    by (auto simp: field_seal_def aead_new_def seal_with_nonce_def check_nonce_def aead_key_len_def
        aead_nonce_len_def)
  with aead_lawD [OF assms(1) c(4)] show ?thesis
    by (simp add: field_open_def aead_new_def open_with_nonce_def check_nonce_def aead_key_len_def
        aead_nonce_len_def aead_tag_len_def group_nonce_len_def group_tag_len_def sealed_len_def)
qed

end
