(* ===== verification/Federation_Identity.thy ===== *)
theory Federation_Identity
  imports Primitives
begin

text \<open>
  A server's federation identity (\<open>kutup-federation-proto/src/identity.rs\<close>, \<open>lib.rs\<close>): an
  append-only chain of documents, the first signed by its own key, every later one by the key before
  it and its own.
\<close>

section \<open>Shared checks\<close>

datatype federation_error =
    UnknownFederationVersion u16
  | UnknownAuthProfile u16
  | InvalidField string string
  | InvalidBase64 string
  | KeyIdMismatch
  | InvalidIdentitySignature string
  | InvalidIdentityChain string
  | InvalidDiscovery string
  | InvalidHttpSignature string
  | SignatureNotYetValid
  | SignatureExpired
  | ContentDigestMismatch

definition federation_key_id :: "'a ext_scheme \<Rightarrow> bytes \<Rightarrow> string" where
  "federation_key_id x public_key = hex_encode x (sha256 x public_key)"

definition is_ascii :: "string \<Rightarrow> bool" where
  "is_ascii s = list_all (\<lambda>c. (of_char c :: nat) < 128) s"

definition canonical_label :: "string \<Rightarrow> bool" where
  "canonical_label label \<longleftrightarrow>
     \<not> (label = [] \<or> length label > 63 \<or> hd label = CHR ''-'' \<or> last label = CHR ''-'' \<or>
        \<not> list_all (\<lambda>b. is_lower b \<or> is_digit b \<or> b = CHR ''-'') label)"

definition validate_server_name :: "string \<Rightarrow> federation_error + unit" where
  "validate_server_name server =
     bindr (require (\<not> (server = [] \<or> length server > 253 \<or> \<not> is_ascii server))
       (InvalidField ''server'' ''must be a 1-253 byte ASCII DNS name'')) (\<lambda>_.
     bindr (require (\<not> (parses_as_ip server \<or> hd server = CHR ''.'' \<or> last server = CHR ''.'' \<or>
         CHR ''.'' \<notin> set server))
       (InvalidField ''server'' ''must be a canonical DNS name, not an IP or single label'')) (\<lambda>_.
     for_each (\<lambda>label. require (canonical_label label)
       (InvalidField ''server'' ''contains a non-canonical DNS label'')) (split_on (CHR ''.'') server)))"

definition validate_hash :: "'a ext_scheme \<Rightarrow> string \<Rightarrow> string \<Rightarrow> federation_error + bytes" where
  "validate_hash x field value =
     bindr (ok_or (hex_decode x value) (InvalidField field ''must be lowercase SHA-256 hex'')) (\<lambda>decoded.
     bindr (require (\<not> (length decoded \<noteq> 32 \<or> hex_encode x decoded \<noteq> value))
       (InvalidField field ''must be lowercase SHA-256 hex'')) (\<lambda>_. Inr decoded))"

definition fed_decode_base64 :: "'a ext_scheme \<Rightarrow> nat \<Rightarrow> string \<Rightarrow> string \<Rightarrow> federation_error + bytes" where
  "fed_decode_base64 x n field value =
     bindr (ok_or (std_decode x value) (InvalidBase64 field)) (\<lambda>bs.
     bindr (require (\<not> (length bs \<noteq> n \<or> std_encode x bs \<noteq> value))
       (InvalidField field ''has a non-canonical length or encoding'')) (\<lambda>_. Inr bs))"

definition push_string :: "bytes \<Rightarrow> string \<Rightarrow> string \<Rightarrow> federation_error + bytes" where
  "push_string out field value =
     bindr (require (length value < 2 ^ 32) (InvalidField field ''is too long'')) (\<lambda>_.
     Inr (out @ be32 (length value) @ bytes_of_string value))"

section \<open>Data\<close>

datatype identity_version = IdentityV1

fun identity_version_u16 :: "identity_version \<Rightarrow> nat" where
  "identity_version_u16 IdentityV1 = 1"

definition identity_version_from :: "u16 \<Rightarrow> federation_error + identity_version" where
  "identity_version_from value =
     (if value = 1 then Inr IdentityV1
      else Inl (InvalidField ''identityVersion'' ''is not a supported identity version''))"

datatype key_algorithm = Ed25519

fun wire_name :: "key_algorithm \<Rightarrow> string" where
  "wire_name Ed25519 = ''ed25519''"

record identity_key =
  ik_algorithm :: key_algorithm
  ik_key_id :: string
  ik_public_key :: string

text \<open>\<open>issued_at\<close> is an \<open>i64\<close>: 64 bits read as signed.\<close>

record identity_document =
  fd_version :: identity_version
  fd_server :: string
  fd_sequence :: u64
  fd_key :: identity_key
  fd_previous_document_hash :: "string option"
  fd_issued_at :: u64
  fd_previous_signature :: "string option"
  fd_current_signature :: string

definition identity_signing_domain :: bytes where
  "identity_signing_domain = bytes_of_string ''kutup-federation-identity-document-v1'' @ [0]"

definition identity_hash_domain :: bytes where
  "identity_hash_domain = bytes_of_string ''kutup-federation-identity-document-hash-v1'' @ [0]"

section \<open>Keys\<close>

definition key_from_signing_key :: "'a ext_scheme \<Rightarrow> bytes \<Rightarrow> identity_key" where
  "key_from_signing_key x seed =
     (let public_key = ed25519_public x seed
      in \<lparr>ik_algorithm = Ed25519, ik_key_id = federation_key_id x public_key,
          ik_public_key = std_encode x public_key\<rparr>)"

definition public_key_bytes :: "'a ext_scheme \<Rightarrow> identity_key \<Rightarrow> federation_error + bytes" where
  "public_key_bytes x k =
     bindr (fed_decode_base64 x 32 ''publicKey'' (ik_public_key k)) (\<lambda>bs.
     bindr (require (federation_key_id x bs = ik_key_id k) KeyIdMismatch) (\<lambda>_. Inr bs))"

definition verifying_key :: "'a ext_scheme \<Rightarrow> identity_key \<Rightarrow> federation_error + bytes" where
  "verifying_key x k =
     bindr (public_key_bytes x k) (\<lambda>bs.
     map_err (\<lambda>_. InvalidField ''publicKey'' ''is not an Ed25519 public key'') (verifying_key_from_bytes x bs))"

definition validate_key :: "'a ext_scheme \<Rightarrow> identity_key \<Rightarrow> federation_error + unit" where
  "validate_key x k =
     bindr (require (ik_algorithm k = Ed25519) (InvalidField ''algorithm'' ''is not supported'')) (\<lambda>_.
     bindr (validate_hash x ''keyId'' (ik_key_id k)) (\<lambda>_.
     bindr (verifying_key x k) (\<lambda>_. Inr ())))"

section \<open>Documents\<close>

definition encode_signature :: "'a ext_scheme \<Rightarrow> bytes \<Rightarrow> string" where
  "encode_signature x signature = std_encode x signature"

definition decode_signature :: "'a ext_scheme \<Rightarrow> string \<Rightarrow> string \<Rightarrow> federation_error + bytes" where
  "decode_signature x field value = fed_decode_base64 x 64 field value"

definition validate_signing_shape :: "'a ext_scheme \<Rightarrow> identity_document \<Rightarrow> federation_error + unit" where
  "validate_signing_shape x d =
     bindr (validate_server_name (fd_server d)) (\<lambda>_.
     bindr (require (\<not> sint (fd_issued_at d) < 0)
       (InvalidField ''issuedAt'' ''must be a non-negative Unix timestamp'')) (\<lambda>_.
     bindr (validate_key x (fd_key d)) (\<lambda>_.
     if fd_sequence d = 0
     then require (fd_previous_document_hash d = None)
       (InvalidIdentityChain ''genesis cannot contain a predecessor hash'')
     else require (fd_previous_document_hash d \<noteq> None)
       (InvalidIdentityChain ''a successor requires a predecessor hash''))))"

definition validate_document_shape :: "'a ext_scheme \<Rightarrow> identity_document \<Rightarrow> federation_error + unit" where
  "validate_document_shape x d =
     bindr (validate_signing_shape x d) (\<lambda>_.
     bindr (require (\<not> (fd_sequence d = 0 \<and> fd_previous_signature d \<noteq> None))
       (InvalidIdentityChain ''genesis cannot contain a predecessor signature'')) (\<lambda>_.
     bindr (require (\<not> (fd_sequence d > 0 \<and> fd_previous_signature d = None))
       (InvalidIdentityChain ''a successor requires the previous key signature'')) (\<lambda>_.
     bindr (decode_signature x ''currentSignature'' (fd_current_signature d)) (\<lambda>_.
     case fd_previous_signature d of None \<Rightarrow> Inr ()
     | Some signature \<Rightarrow> bindr (decode_signature x ''previousSignature'' signature) (\<lambda>_. Inr ())))))"

definition signing_bytes :: "'a ext_scheme \<Rightarrow> identity_document \<Rightarrow> federation_error + bytes" where
  "signing_bytes x d =
     bindr (validate_signing_shape x d) (\<lambda>_.
     bindr (push_string (identity_signing_domain @ be16 (identity_version_u16 (fd_version d)))
       ''server'' (fd_server d)) (\<lambda>output.
     bindr (push_string (output @ be64 (fd_sequence d)) ''algorithm'' (wire_name (ik_algorithm (fd_key d))))
       (\<lambda>output.
     bindr (public_key_bytes x (fd_key d)) (\<lambda>key.
     bindr (validate_hash x ''keyId'' (ik_key_id (fd_key d))) (\<lambda>key_id.
     bindr (case fd_previous_document_hash d of
              Some hash \<Rightarrow> bindr (validate_hash x ''previousDocumentHash'' hash) (\<lambda>h. Inr (1 # h))
            | None \<Rightarrow> Inr [0]) (\<lambda>previous.
     Inr (output @ key @ key_id @ previous @ be64 (fd_issued_at d))))))))"

definition document_hash :: "'a ext_scheme \<Rightarrow> identity_document \<Rightarrow> federation_error + string" where
  "document_hash x d =
     bindr (validate_document_shape x d) (\<lambda>_.
     bindr (signing_bytes x d) (\<lambda>bs.
     Inr (hex_encode x (sha256 x (identity_hash_domain @ bs)))))"

definition verify_current :: "'a ext_scheme \<Rightarrow> identity_document \<Rightarrow> federation_error + unit" where
  "verify_current x d =
     bindr (validate_document_shape x d) (\<lambda>_.
     bindr (verifying_key x (fd_key d)) (\<lambda>key.
     bindr (decode_signature x ''currentSignature'' (fd_current_signature d)) (\<lambda>signature.
     bindr (signing_bytes x d) (\<lambda>bs.
     map_err (\<lambda>_. InvalidIdentitySignature ''current key signature'') (verify_signature x key bs signature)))))"

definition verify_genesis :: "'a ext_scheme \<Rightarrow> identity_document \<Rightarrow> string \<Rightarrow> federation_error + unit" where
  "verify_genesis x d expected_server =
     bindr (require (fd_server d = expected_server)
       (InvalidIdentityChain ''identity server does not match the expected peer'')) (\<lambda>_.
     bindr (require (\<not> (fd_sequence d \<noteq> 0 \<or> fd_previous_document_hash d \<noteq> None \<or> fd_previous_signature d \<noteq> None))
       (InvalidIdentityChain ''genesis must be sequence zero without a predecessor'')) (\<lambda>_.
     verify_current x d))"

definition verify_successor ::
  "'a ext_scheme \<Rightarrow> identity_document \<Rightarrow> identity_document \<Rightarrow> string \<Rightarrow> federation_error + unit" where
  "verify_successor x d previous expected_server =
     bindr (verify_current x previous) (\<lambda>_.
     bindr (verify_current x d) (\<lambda>_.
     bindr (require (\<not> (fd_server d \<noteq> expected_server \<or> fd_server previous \<noteq> expected_server))
       (InvalidIdentityChain ''identity server does not match the expected peer'')) (\<lambda>_.
     bindr (ok_or (checked_add (fd_sequence previous) 1) (InvalidIdentityChain ''identity sequence overflow''))
       (\<lambda>next.
     bindr (require (fd_sequence d = next)
       (InvalidIdentityChain ''identity sequence must advance by exactly one'')) (\<lambda>_.
     bindr (require (\<not> sint (fd_issued_at d) < sint (fd_issued_at previous))
       (InvalidIdentityChain ''identity issue time moved backwards'')) (\<lambda>_.
     bindr (public_key_bytes x (fd_key d)) (\<lambda>key.
     bindr (public_key_bytes x (fd_key previous)) (\<lambda>previous_key.
     bindr (require (key \<noteq> previous_key)
       (InvalidIdentityChain ''a rotation must introduce a different key'')) (\<lambda>_.
     bindr (document_hash x previous) (\<lambda>hash.
     bindr (require (fd_previous_document_hash d = Some hash)
       (InvalidIdentityChain ''predecessor document hash does not match'')) (\<lambda>_.
     bindr (ok_or (fd_previous_signature d)
       (InvalidIdentityChain ''a successor requires the previous key signature'')) (\<lambda>signature.
     bindr (decode_signature x ''previousSignature'' signature) (\<lambda>signature.
     bindr (verifying_key x (fd_key previous)) (\<lambda>key.
     bindr (signing_bytes x d) (\<lambda>bs.
     map_err (\<lambda>_. InvalidIdentitySignature ''previous key signature'')
       (verify_signature x key bs signature))))))))))))))))"

fun verify_successors ::
  "'a ext_scheme \<Rightarrow> string \<Rightarrow> identity_document \<Rightarrow> identity_document list \<Rightarrow> federation_error + identity_document" where
  "verify_successors x server previous [] = Inr previous"
| "verify_successors x server previous (current # rest) =
     bindr (verify_successor x current previous server) (\<lambda>_. verify_successors x server current rest)"

definition verify_identity_chain ::
  "'a ext_scheme \<Rightarrow> string \<Rightarrow> identity_document list \<Rightarrow> federation_error + unit" where
  "verify_identity_chain x expected_server documents =
     (case documents of [] \<Rightarrow> Inl (InvalidIdentityChain ''identity chain is empty'')
      | first # successors \<Rightarrow>
          bindr (verify_genesis x first expected_server) (\<lambda>_.
          bindr (verify_successors x expected_server first successors) (\<lambda>_. Inr ())))"

section \<open>Issuing\<close>

definition identity_genesis :: "'a ext_scheme \<Rightarrow> string \<Rightarrow> u64 \<Rightarrow> bytes \<Rightarrow> federation_error + identity_document" where
  "identity_genesis x server issued_at seed =
     (let d = \<lparr>fd_version = IdentityV1, fd_server = server, fd_sequence = 0,
            fd_key = key_from_signing_key x seed, fd_previous_document_hash = None,
            fd_issued_at = issued_at, fd_previous_signature = None, fd_current_signature = ''''\<rparr>
      in bindr (validate_signing_shape x d) (\<lambda>_.
         bindr (signing_bytes x d) (\<lambda>bs.
         Inr (d\<lparr>fd_current_signature := encode_signature x (ed25519_sign x seed bs)\<rparr>))))"

definition identity_rotate ::
  "'a ext_scheme \<Rightarrow> identity_document \<Rightarrow> u64 \<Rightarrow> bytes \<Rightarrow> bytes \<Rightarrow> federation_error + identity_document" where
  "identity_rotate x previous issued_at previous_seed current_seed =
     bindr (verify_current x previous) (\<lambda>_.
     bindr (public_key_bytes x (fd_key previous)) (\<lambda>previous_key.
     bindr (require (ed25519_public x previous_seed = previous_key)
       (InvalidIdentityChain ''the previous signing key does not match the predecessor document'')) (\<lambda>_.
     bindr (require (ed25519_public x previous_seed \<noteq> ed25519_public x current_seed)
       (InvalidIdentityChain ''a rotation must introduce a different key'')) (\<lambda>_.
     bindr (ok_or (checked_add (fd_sequence previous) 1) (InvalidIdentityChain ''identity sequence overflow''))
       (\<lambda>sequence.
     bindr (document_hash x previous) (\<lambda>hash.
     let d = \<lparr>fd_version = IdentityV1, fd_server = fd_server previous, fd_sequence = sequence,
            fd_key = key_from_signing_key x current_seed, fd_previous_document_hash = Some hash,
            fd_issued_at = issued_at, fd_previous_signature = None, fd_current_signature = ''''\<rparr>
     in bindr (validate_signing_shape x d) (\<lambda>_.
        bindr (signing_bytes x d) (\<lambda>bs.
        let d = d\<lparr>fd_previous_signature := Some (encode_signature x (ed25519_sign x previous_seed bs)),
              fd_current_signature := encode_signature x (ed25519_sign x current_seed bs)\<rparr>
        in bindr (verify_successor x d previous (fd_server d)) (\<lambda>_. Inr d)))))))))"

section \<open>Server names\<close>

lemma canonical_label_valid: "canonical_label = valid_label"
  by (auto simp: fun_eq_iff canonical_label_def valid_label_def)

lemma split_on_hd: "hd s = d \<Longrightarrow> s \<noteq> [] \<Longrightarrow> [] \<in> set (split_on d s)"
  by (cases s) auto

lemma split_on_nonempty: "split_on d s \<noteq> []"
  by (cases s) (auto split: list.splits)

lemma split_on_last_nil: "last s = d \<Longrightarrow> s \<noteq> [] \<Longrightarrow> last (split_on d s) = [] \<and> Suc 0 < length (split_on d s)"
proof (induction s)
  case (Cons x s)
  then show ?case
    by (cases "s = []"; cases "split_on d s") (auto simp: split_on_nonempty split: if_splits)
qed simp

lemma split_on_last: "last s = d \<Longrightarrow> s \<noteq> [] \<Longrightarrow> [] \<in> set (split_on d s)"
  using split_on_last_nil [of s d] split_on_nonempty [of d s] last_in_set [of "split_on d s"] by simp

lemma valid_server_chars:
  assumes "valid_server s" "c \<in> set s"
  shows "(of_char c :: nat) < 128"
proof -
  from assms have "c = CHR ''.'' \<or> is_lower c \<or> is_digit c \<or> c = CHR ''-''"
    using split_on_chars [OF assms(2), of "CHR ''.''"]
    by (auto simp: valid_server_def list_all_iff valid_label_def)
  then show ?thesis by (auto simp: is_lower_def is_digit_def less_eq_char_def)
qed

lemma valid_label_nonempty: "\<not> valid_label []"
  by (simp add: valid_label_def)

lemma validate_server_name_iff: "validate_server_name s = Inr () \<longleftrightarrow> valid_server s"
proof
  assume "validate_server_name s = Inr ()"
  then show "valid_server s"
    by (auto simp: validate_server_name_def valid_server_def canonical_label_valid list_all_iff)
next
  assume v: "valid_server s"
  then have "s \<noteq> []" "\<forall>p\<in>set (split_on (CHR ''.'') s). valid_label p"
    by (auto simp: valid_server_def list_all_iff)
  then have "hd s \<noteq> CHR ''.''" "last s \<noteq> CHR ''.''"
    using split_on_hd split_on_last valid_label_nonempty by blast+
  moreover have "is_ascii s" using valid_server_chars [OF v] by (auto simp: is_ascii_def list_all_iff)
  ultimately show "validate_server_name s = Inr ()"
    using v by (auto simp: validate_server_name_def valid_server_def canonical_label_valid list_all_iff)
qed

section \<open>What a document's bytes bind\<close>

definition unsigned :: "identity_document \<Rightarrow> identity_document" where
  "unsigned d = d\<lparr>fd_previous_signature := None, fd_current_signature := ''''\<rparr>"

lemma fed_decode_base64_Inr:
  "fed_decode_base64 x n f v = Inr b \<longleftrightarrow> std_decode x v = Some b \<and> length b = n \<and> v = std_encode x b"
  by (auto simp: fed_decode_base64_def)

lemma validate_hash_Inr:
  "validate_hash x f v = Inr b \<longleftrightarrow> hex_decode x v = Some b \<and> length b = 32 \<and> v = hex_encode x b"
  by (auto simp: validate_hash_def)

lemma public_key_bytes_Inr:
  "public_key_bytes x k = Inr b \<longleftrightarrow> std_decode x (ik_public_key k) = Some b \<and> length b = 32 \<and>
     ik_public_key k = std_encode x b \<and> ik_key_id k = federation_key_id x b"
  by (auto simp: public_key_bytes_def fed_decode_base64_Inr)

definition signing_prefix :: bytes where
  "signing_prefix = identity_signing_domain @ be16 1"

definition algorithm_bytes :: bytes where
  "algorithm_bytes = be32 (length ''ed25519'') @ bytes_of_string ''ed25519''"

lemma signing_bytes_Inr:
  "signing_bytes x d = Inr b \<longleftrightarrow> validate_signing_shape x d = Inr () \<and>
     (\<exists>key key_id previous. public_key_bytes x (fd_key d) = Inr key \<and>
        validate_hash x ''keyId'' (ik_key_id (fd_key d)) = Inr key_id \<and>
        (case fd_previous_document_hash d of None \<Rightarrow> previous = [0]
         | Some h \<Rightarrow> \<exists>p. validate_hash x ''previousDocumentHash'' h = Inr p \<and> previous = 1 # p) \<and>
        b = signing_prefix @ be32 (length (fd_server d)) @ bytes_of_string (fd_server d) @
          be64 (fd_sequence d) @ algorithm_bytes @ key @ key_id @ previous @
          be64 (fd_issued_at d))"
proof -
  have v: "fd_version d = IdentityV1" "ik_algorithm (fd_key d) = Ed25519"
    by (cases "fd_version d", simp) (cases "ik_algorithm (fd_key d)", simp)
  have "length (fd_server d) < 2 ^ 32" if "validate_signing_shape x d = Inr ()"
    using that by (auto simp: validate_signing_shape_def validate_server_name_def)
  then show ?thesis
    by (auto simp: signing_bytes_def push_string_def v signing_prefix_def algorithm_bytes_def split: option.splits)
qed

lemma signing_bytes_inj:
  assumes "signing_bytes x d = Inr b" "signing_bytes x d' = Inr b"
  shows "unsigned d = unsigned d'"
proof -
  from assms(1) obtain k i p where d: "validate_signing_shape x d = Inr ()"
    "public_key_bytes x (fd_key d) = Inr k" "validate_hash x ''keyId'' (ik_key_id (fd_key d)) = Inr i"
    "case fd_previous_document_hash d of None \<Rightarrow> p = [0]
     | Some h \<Rightarrow> \<exists>q. validate_hash x ''previousDocumentHash'' h = Inr q \<and> p = 1 # q"
    "b = signing_prefix @ be32 (length (fd_server d)) @ bytes_of_string (fd_server d) @
       be64 (fd_sequence d) @ algorithm_bytes @ k @ i @ p @ be64 (fd_issued_at d)"
    by (auto simp: signing_bytes_Inr)
  from assms(2) obtain k' i' p' where d': "validate_signing_shape x d' = Inr ()"
    "public_key_bytes x (fd_key d') = Inr k'" "validate_hash x ''keyId'' (ik_key_id (fd_key d')) = Inr i'"
    "case fd_previous_document_hash d' of None \<Rightarrow> p' = [0]
     | Some h \<Rightarrow> \<exists>q. validate_hash x ''previousDocumentHash'' h = Inr q \<and> p' = 1 # q"
    "b = signing_prefix @ be32 (length (fd_server d')) @ bytes_of_string (fd_server d') @
       be64 (fd_sequence d') @ algorithm_bytes @ k' @ i' @ p' @ be64 (fd_issued_at d')"
    by (auto simp: signing_bytes_Inr)
  have "length (fd_server d) < 2 ^ 32" "length (fd_server d') < 2 ^ 32"
    using d(1) d'(1) by (auto simp: validate_signing_shape_def validate_server_name_def)
  moreover have "be32 (length (fd_server d)) = be32 (length (fd_server d'))"
    using d'(5) [unfolded d(5)] by simp
  ultimately have len: "length (fd_server d) = length (fd_server d')"
    by (simp only: be32_inj)
  have lk: "length k = 32" "length k' = 32" "length i = 32" "length i' = 32"
    using d(2,3) d'(2,3) by (auto simp: public_key_bytes_Inr validate_hash_Inr)
  from d'(5) [unfolded d(5)] len lk have "fd_server d = fd_server d' \<and> fd_sequence d = fd_sequence d' \<and>
      k = k' \<and> i = i' \<and> p @ be64 (fd_issued_at d) = p' @ be64 (fd_issued_at d')" by simp
  then have eq: "fd_server d = fd_server d'" "fd_sequence d = fd_sequence d'" "k = k'" "i = i'"
    "p @ be64 (fd_issued_at d) = p' @ be64 (fd_issued_at d')" by blast+
  from arg_cong [OF eq(5), of length] have "length p = length p'" by simp
  with eq(5) have pp: "p = p'" "fd_issued_at d = fd_issued_at d'" by simp_all
  have "fd_previous_document_hash d = fd_previous_document_hash d'"
  proof (cases "fd_previous_document_hash d")
    case None
    with d(4) d'(4) pp(1) show ?thesis by (cases "fd_previous_document_hash d'") auto
  next
    case (Some h)
    with d(4) obtain q where q: "p = 1 # q" "validate_hash x ''previousDocumentHash'' h = Inr q" by auto
    with d'(4) pp(1) obtain h' where h': "fd_previous_document_hash d' = Some h'"
      "validate_hash x ''previousDocumentHash'' h' = Inr q"
      by (cases "fd_previous_document_hash d'") auto
    from q(2) h'(2) have "h = h'" unfolding validate_hash_Inr by metis
    with Some h'(1) show ?thesis by simp
  qed
  with pp(2) have "fd_previous_document_hash d = fd_previous_document_hash d' \<and> fd_issued_at d = fd_issued_at d'"
    by blast
  moreover have "fd_key d = fd_key d'"
    using d(2) d'(2) eq(3) by (cases "fd_key d"; cases "fd_key d'"; cases "ik_algorithm (fd_key d)";
        cases "ik_algorithm (fd_key d')") (auto simp: public_key_bytes_Inr)
  moreover have "fd_version d = fd_version d'" by (cases "fd_version d"; cases "fd_version d'") simp
  ultimately show ?thesis using eq(1,2) by (cases d; cases d') (simp add: unsigned_def)
qed

section \<open>Chains\<close>

lemma verify_successor_facts:
  assumes "verify_successor x d p s = Inr ()"
  shows "unat (fd_sequence d) = Suc (unat (fd_sequence p))" "fd_server d = s" "fd_server p = s"
    "verify_current x d = Inr ()" "verify_current x p = Inr ()"
    "sint (fd_issued_at p) \<le> sint (fd_issued_at d)" "ik_public_key (fd_key d) \<noteq> ik_public_key (fd_key p)"
    "\<exists>h. document_hash x p = Inr h \<and> fd_previous_document_hash d = Some h"
    "\<exists>key bs sig. verifying_key x (fd_key p) = Inr key \<and> signing_bytes x d = Inr bs \<and>
       ed25519_ok x key bs sig"
proof -
  from assms obtain n key pkey hash sgn sig vk bs where f:
    "verify_current x p = Inr ()" "verify_current x d = Inr ()" "fd_server d = s" "fd_server p = s"
    "checked_add (fd_sequence p) 1 = Some n" "fd_sequence d = n" "\<not> sint (fd_issued_at d) < sint (fd_issued_at p)"
    "public_key_bytes x (fd_key d) = Inr key" "public_key_bytes x (fd_key p) = Inr pkey" "key \<noteq> pkey"
    "document_hash x p = Inr hash" "fd_previous_document_hash d = Some hash"
    "verifying_key x (fd_key p) = Inr vk" "signing_bytes x d = Inr bs"
    "verify_signature x vk bs sig = Inr ()"
    by (auto simp: verify_successor_def)
  from checked_add_Some [OF f(5)] f(6) show "unat (fd_sequence d) = Suc (unat (fd_sequence p))" by simp
  from f(8,9,10) show "ik_public_key (fd_key d) \<noteq> ik_public_key (fd_key p)"
    by (auto simp: public_key_bytes_Inr)
  from f show "fd_server d = s" "fd_server p = s" "verify_current x d = Inr ()" "verify_current x p = Inr ()"
    "sint (fd_issued_at p) \<le> sint (fd_issued_at d)"
    "\<exists>h. document_hash x p = Inr h \<and> fd_previous_document_hash d = Some h"
    "\<exists>key bs sig. verifying_key x (fd_key p) = Inr key \<and> signing_bytes x d = Inr bs \<and> ed25519_ok x key bs sig"
    by (auto simp: verify_signature_def)
qed

lemma verify_successors_snoc:
  "verify_successors x s p (ds @ [d]) = Inr e \<longleftrightarrow>
     e = d \<and> (\<exists>l. verify_successors x s p ds = Inr l \<and> verify_successor x d l s = Inr ())"
  by (induction ds arbitrary: p) auto

lemma verify_successors_last: "verify_successors x s p ds = Inr l \<Longrightarrow> l = last (p # ds)"
  by (induction ds arbitrary: p) auto

lemma verify_identity_chain_snoc:
  "ds \<noteq> [] \<Longrightarrow> verify_identity_chain x s (ds @ [d]) = Inr () \<longleftrightarrow>
     verify_identity_chain x s ds = Inr () \<and> verify_successor x d (last ds) s = Inr ()"
proof (cases ds)
  case (Cons a list)
  then show ?thesis
    using verify_successors_last [of x s a list]
    by (cases "verify_successors x s a list")
      (auto simp: verify_identity_chain_def verify_successors_snoc simp del: last.simps)
qed simp

lemma verify_identity_chain_single:
  "verify_identity_chain x s [d] = Inr () \<longleftrightarrow> verify_genesis x d s = Inr ()"
  by (simp add: verify_identity_chain_def)

lemma identity_chain_facts:
  "verify_identity_chain x s ds = Inr () \<Longrightarrow> ds \<noteq> [] \<and>
     unat (fd_sequence (last ds)) = length ds - 1 \<and> (\<forall>d\<in>set ds. fd_server d = s \<and> verify_current x d = Inr ()) \<and>
     (\<forall>i<length ds. unat (fd_sequence (ds ! i)) = i)"
proof (induction ds rule: rev_induct)
  case Nil
  then show ?case by (simp add: verify_identity_chain_def)
next
  case (snoc d ds)
  show ?case
  proof (cases "ds = []")
    case True
    with snoc.prems show ?thesis by (auto simp: verify_identity_chain_single verify_genesis_def)
  next
    case False
    with snoc have v: "verify_identity_chain x s ds = Inr ()" "verify_successor x d (last ds) s = Inr ()"
      by (simp_all add: verify_identity_chain_snoc)
    from snoc.IH [OF v(1)] verify_successor_facts [OF v(2)] False show ?thesis
      by (auto simp: nth_append)
  qed
qed

lemma verify_current_hash: "verify_current x d = Inr () \<Longrightarrow> \<exists>bs. signing_bytes x d = Inr bs \<and>
    document_hash x d = Inr (hex_encode x (sha256 x (identity_hash_domain @ bs)))"
  by (auto simp: verify_current_def document_hash_def)

text \<open>Two different documents with one hash.\<close>

definition document_clash :: "'a ext_scheme \<Rightarrow> identity_document \<Rightarrow> identity_document \<Rightarrow> bool" where
  "document_clash x d e \<longleftrightarrow> (\<exists>a b. signing_bytes x d = Inr a \<and> signing_bytes x e = Inr b \<and> a \<noteq> b \<and>
     sha256 x (identity_hash_domain @ a) = sha256 x (identity_hash_domain @ b))"

lemma document_hash_unique:
  assumes "hex_law x" "verify_current x d = Inr ()" "verify_current x e = Inr ()"
    "document_hash x d = document_hash x e"
  shows "unsigned d = unsigned e \<or> document_clash x d e"
proof -
  from verify_current_hash [OF assms(2)] obtain a where a: "signing_bytes x d = Inr a"
    "document_hash x d = Inr (hex_encode x (sha256 x (identity_hash_domain @ a)))" by blast
  from verify_current_hash [OF assms(3)] obtain b where b: "signing_bytes x e = Inr b"
    "document_hash x e = Inr (hex_encode x (sha256 x (identity_hash_domain @ b)))" by blast
  from a(2) b(2) assms(1,4) have "sha256 x (identity_hash_domain @ a) = sha256 x (identity_hash_domain @ b)"
    by (simp add: hex_encode_inj)
  with a(1) b(1) signing_bytes_inj show ?thesis by (cases "a = b") (auto simp: document_clash_def)
qed

lemma identity_chain_unique:
  assumes "hex_law x"
  shows "verify_identity_chain x s ds = Inr () \<Longrightarrow> verify_identity_chain x s' es = Inr () \<Longrightarrow>
    document_hash x (last ds) = document_hash x (last es) \<Longrightarrow>
    \<forall>d\<in>set ds. \<forall>e\<in>set es. \<not> document_clash x d e \<Longrightarrow> map unsigned ds = map unsigned es"
proof (induction ds arbitrary: es rule: rev_induct)
  case Nil
  then show ?case by (simp add: verify_identity_chain_def)
next
  case (snoc d ds)
  obtain e es' where es: "es = es' @ [e]"
    using identity_chain_facts [OF snoc.prems(2)] by (metis append_butlast_last_id)
  have cur: "verify_current x d = Inr ()" "verify_current x e = Inr ()"
    using identity_chain_facts [OF snoc.prems(1)] identity_chain_facts [OF snoc.prems(2)] es by auto
  from document_hash_unique [OF assms cur] snoc.prems(3,4) es have de: "unsigned d = unsigned e" by auto
  then have sq: "fd_sequence d = fd_sequence e" "fd_previous_document_hash d = fd_previous_document_hash e"
    by (cases d; cases e; simp add: unsigned_def)+
  have len: "length ds = length es'"
    using identity_chain_facts [OF snoc.prems(1)] identity_chain_facts [OF snoc.prems(2)] es sq(1) by simp
  show ?case
  proof (cases "ds = []")
    case True
    with len es de show ?thesis by simp
  next
    case False
    with len have ne: "es' \<noteq> []" by auto
    from snoc.prems(1,2) es False ne have v: "verify_identity_chain x s ds = Inr ()"
      "verify_successor x d (last ds) s = Inr ()" "verify_identity_chain x s' es' = Inr ()"
      "verify_successor x e (last es') s' = Inr ()" by (simp_all add: verify_identity_chain_snoc)
    from verify_successor_facts(8) [OF v(2)] verify_successor_facts(8) [OF v(4)] sq(2)
    have "document_hash x (last ds) = document_hash x (last es')" by auto
    with snoc.IH [OF v(1,3)] snoc.prems(4) es have "map unsigned ds = map unsigned es'" by auto
    with de es show ?thesis by simp
  qed
qed

section \<open>Issued documents verify\<close>

lemma signing_shape_signatures [simp]:
  "validate_signing_shape x (d\<lparr>fd_current_signature := s\<rparr>) = validate_signing_shape x d"
  "validate_signing_shape x (d\<lparr>fd_previous_signature := p\<rparr>) = validate_signing_shape x d"
  by (simp_all add: validate_signing_shape_def cong del: bindr_cong)

lemma signing_bytes_signatures [simp]:
  "signing_bytes x (d\<lparr>fd_current_signature := s\<rparr>) = signing_bytes x d"
  "signing_bytes x (d\<lparr>fd_previous_signature := p\<rparr>) = signing_bytes x d"
  by (simp_all add: signing_bytes_def cong del: bindr_cong)

lemma verifying_key_of_seed:
  assumes "ed25519_law x" "std_law x" "length seed = 32"
  shows "verifying_key x (key_from_signing_key x seed) = Inr (ed25519_public x seed)"
proof -
  from assms(1,3) have "length (ed25519_public x seed) = 32" "ed25519_key_ok x (ed25519_public x seed)"
    by (auto simp: ed25519_law_def)
  with assms(2) show ?thesis
    by (simp add: verifying_key_def public_key_bytes_def fed_decode_base64_def key_from_signing_key_def
        Let_def verifying_key_from_bytes_def)
qed

lemma decode_own_signature:
  assumes "ed25519_law x" "std_law x" "length seed = 32"
  shows "decode_signature x f (encode_signature x (ed25519_sign x seed bs)) = Inr (ed25519_sign x seed bs)"
    "verify_signature x (ed25519_public x seed) bs (ed25519_sign x seed bs) = Inr ()"
  using assms by (auto simp: decode_signature_def encode_signature_def fed_decode_base64_def verify_signature_def
      ed25519_law_def)

lemma identity_genesis_verifies:
  assumes "ed25519_law x" "std_law x" "length seed = 32" "identity_genesis x server t seed = Inr d"
  shows "verify_genesis x d server = Inr ()" "fd_server d = server"
proof -
  from assms(4) obtain d0 bs where d0: "d0 = \<lparr>fd_version = IdentityV1, fd_server = server, fd_sequence = 0,
      fd_key = key_from_signing_key x seed, fd_previous_document_hash = None, fd_issued_at = t,
      fd_previous_signature = None, fd_current_signature = ''''\<rparr>"
    "validate_signing_shape x d0 = Inr ()" "signing_bytes x d0 = Inr bs"
    "d = d0\<lparr>fd_current_signature := encode_signature x (ed25519_sign x seed bs)\<rparr>"
    by (auto simp: identity_genesis_def Let_def)
  have "verify_current x d = Inr ()"
    using d0(2,3) verifying_key_of_seed [OF assms(1-3)] decode_own_signature [OF assms(1-3)]
    by (simp add: verify_current_def validate_document_shape_def d0(4)) (simp add: d0(1))
  then show "verify_genesis x d server = Inr ()" "fd_server d = server"
    by (simp_all add: verify_genesis_def d0(1,4))
qed

lemma identity_rotate_verifies:
  assumes "identity_rotate x p t s1 s2 = Inr d"
  shows "verify_successor x d p (fd_server p) = Inr ()"
  using assms by (auto simp: identity_rotate_def Let_def)

lemma rotated_chain_verifies:
  assumes "verify_identity_chain x s ds = Inr ()" "identity_rotate x (last ds) t s1 s2 = Inr d"
  shows "verify_identity_chain x s (ds @ [d]) = Inr ()"
  using identity_chain_facts [OF assms(1)] assms(1) identity_rotate_verifies [OF assms(2)]
  by (auto simp: verify_identity_chain_snoc)

text \<open>The only way a rotation by the right key is refused on its own document's check: none.\<close>

lemma identity_rotate_total:
  assumes laws: "ed25519_law x" "std_law x" "hex_law x" "\<And>b. length (sha256 x b) = 32"
    and "verify_current x p = Inr ()" "length s1 = 32" "length s2 = 32"
    and "public_key_bytes x (fd_key p) = Inr (ed25519_public x s1)"
    and "ed25519_public x s1 \<noteq> ed25519_public x s2"
    and "unat (fd_sequence p) < 2 ^ 64 - 1" "sint (fd_issued_at p) \<le> sint t"
  shows "\<exists>d. identity_rotate x p t s1 s2 = Inr d"
proof -
  from assms(5) obtain bs where ph: "document_hash x p = Inr (hex_encode x (sha256 x (identity_hash_domain @ bs)))"
    using verify_current_hash by blast
  have fdk: "validate_document_shape x p = Inr ()" using assms(5) by (auto simp: verify_current_def)
  then have shape: "validate_server_name (fd_server p) = Inr ()" "\<not> sint (fd_issued_at p) < 0"
    by (auto simp: validate_document_shape_def validate_signing_shape_def)
  obtain n where n: "checked_add (fd_sequence p) 1 = Some n" using assms(10) by (auto simp: checked_add_def)
  then have n0: "n \<noteq> 0" using checked_add_Some [OF n] by auto
  define d where "d = \<lparr>fd_version = IdentityV1, fd_server = fd_server p, fd_sequence = n,
      fd_key = key_from_signing_key x s2,
      fd_previous_document_hash = Some (hex_encode x (sha256 x (identity_hash_domain @ bs))),
      fd_issued_at = t, fd_previous_signature = None, fd_current_signature = ''''\<rparr>"
  have vk: "verifying_key x (key_from_signing_key x s2) = Inr (ed25519_public x s2)"
    using verifying_key_of_seed laws assms(7) by blast
  then have pk: "public_key_bytes x (key_from_signing_key x s2) = Inr (ed25519_public x s2)"
    by (auto simp: verifying_key_def verifying_key_from_bytes_def)
  have vh: "validate_hash x f (hex_encode x (sha256 x b)) = Inr (sha256 x b)" for f b
    using laws by (simp add: validate_hash_def)
  have sh: "validate_signing_shape x d = Inr ()"
    using shape assms(11) vk n0 vh by (simp add: validate_signing_shape_def d_def validate_key_def
        key_from_signing_key_def Let_def federation_key_id_def)
  have "length (fd_server p) < 2 ^ 32" using shape(1) by (auto simp: validate_server_name_def)
  with sh pk vh obtain sb where sb: "signing_bytes x d = Inr sb"
    by (simp add: signing_bytes_def push_string_def d_def key_from_signing_key_def Let_def federation_key_id_def)
  let ?d = "d\<lparr>fd_previous_signature := Some (encode_signature x (ed25519_sign x s1 sb)),
      fd_current_signature := encode_signature x (ed25519_sign x s2 sb)\<rparr>"
  have cur: "verify_current x ?d = Inr ()"
    using sh sb vk n0 decode_own_signature [OF laws(1,2) assms(6)] decode_own_signature [OF laws(1,2) assms(7)]
    by (simp add: verify_current_def validate_document_shape_def) (simp add: d_def)
  have vkp: "verifying_key x (fd_key p) = Inr (ed25519_public x s1)"
    using assms(5,8) by (auto simp: verify_current_def verifying_key_def verifying_key_from_bytes_def)
  have "verify_successor x ?d p (fd_server p) = Inr ()"
    using cur assms(5,8,9,11) n ph pk vkp sb decode_own_signature [OF laws(1,2) assms(6)]
    by (simp add: verify_successor_def) (simp add: d_def)
  with assms(5,8,9) n ph sh sb show ?thesis
    by (simp add: identity_rotate_def Let_def d_def [symmetric]) (simp add: d_def)
qed

end
