(* ===== verification/Ratchet.thy ===== *)
theory Ratchet
  imports Prelude
begin

text \<open>
  State a client keeps that may only move forward: each step either fails, and then nothing is
  stored, or moves the state up an order.  The locale \<open>ratchet\<close> is that contract; it is interpreted
  on the gateway cache, the group record, the account head's local state and the pins of peers' manifests.
\<close>

fun run_steps :: "('s \<Rightarrow> 'i \<Rightarrow> 'e + 's) \<Rightarrow> 's \<Rightarrow> 'i list \<Rightarrow> 's" where
  "run_steps step s [] = s"
| "run_steps step s (i # is) = run_steps step (case step s i of Inl _ \<Rightarrow> s | Inr s' \<Rightarrow> s') is"

lemma run_steps_append: "run_steps step s (is @ js) = run_steps step (run_steps step s is) js"
  by (induction step s "is" rule: run_steps.induct) auto

locale ratchet =
  fixes step :: "'s \<Rightarrow> 'i \<Rightarrow> 'e + 's"
    and le :: "'s \<Rightarrow> 's \<Rightarrow> bool"
    and inv :: "'s \<Rightarrow> bool"
  assumes le_refl: "le s s"
    and le_trans: "le s t \<Longrightarrow> le t u \<Longrightarrow> le s u"
    and step_up: "inv s \<Longrightarrow> step s i = Inr s' \<Longrightarrow> le s s'"
    and step_inv: "inv s \<Longrightarrow> step s i = Inr s' \<Longrightarrow> inv s'"
begin

lemma run_up: "inv s \<Longrightarrow> le s (run_steps step s is) \<and> inv (run_steps step s is)"
proof (induction "is" arbitrary: s)
  case Nil
  then show ?case by (simp add: le_refl)
next
  case (Cons i "is")
  show ?case
  proof (cases "step s i")
    case (Inl e)
    with Cons show ?thesis by simp
  next
    case (Inr s')
    with Cons.prems have "le s s'" "inv s'" by (auto intro: step_up step_inv)
    with Cons.IH [of s'] Inr show ?thesis by (auto intro: le_trans)
  qed
qed

lemma run_never_back: "inv s \<Longrightarrow> le (run_steps step s is) (run_steps step s (is @ js))"
  using run_up [of s "is"] run_up [of "run_steps step s is" js] by (simp add: run_steps_append)

end

end
