(* ===== verification/Group_Notary.thy ===== *)
theory Group_Notary
  imports Group_Keys Federation_Identity Ratchet
begin

text \<open>
  How a group's home proves itself (\<open>kutup-chat-proto/src/group_route.rs\<close>): the pin and the identity
  history followed from it, the gateway key configs that history signs, and the notary signature over
  every accepted change; and the client's cache of them
  (\<open>kutup-chat-core/src/group_client.rs\<close>, \<open>GatewayCache\<close>).
\<close>

definition group_route_version :: u16 where "group_route_version = 1"
definition max_clock_skew_secs :: int where "max_clock_skew_secs = 5 * 60"
definition max_key_config_lifetime_secs :: int where "max_key_config_lifetime_secs = 7 * 24 * 60 * 60"
definition key_overlap_secs :: int where "key_overlap_secs = 24 * 60 * 60"
definition notary_domain :: bytes where "notary_domain = domain_bytes ''kutup/chat-group/notary/v1''"
definition key_config_domain :: bytes where
  "key_config_domain = domain_bytes ''kutup/chat-group/gateway-key-config/v1''"
definition key_config_hash_domain :: bytes where
  "key_config_hash_domain = domain_bytes ''kutup/chat-group/gateway-key-config-hash/v1''"

text \<open>\<open>i64\<close> values are integers in its range, with \<open>checked_sub\<close>, \<open>saturating_add\<close> and \<open>saturating_sub\<close>.\<close>

definition i64_max :: int where "i64_max = 2 ^ 63 - 1"
definition i64_min :: int where "i64_min = - (2 ^ 63)"

definition i64_checked_sub :: "int \<Rightarrow> int \<Rightarrow> int option" where
  "i64_checked_sub a b = (if i64_min \<le> a - b \<and> a - b \<le> i64_max then Some (a - b) else None)"

definition i64_saturate :: "int \<Rightarrow> int" where
  "i64_saturate v = max i64_min (min i64_max v)"

definition decode_fixed :: "'a ext_scheme \<Rightarrow> nat \<Rightarrow> string \<Rightarrow> string \<Rightarrow> string + bytes" where
  "decode_fixed x n name value =
     bindr (ok_or (std_decode x value) (name @ '' must be canonical padded base64'')) (\<lambda>bs.
     bindr (require (std_encode x bs = value) (name @ '' must be canonical padded base64'')) (\<lambda>_.
     bindr (require (length bs = n) (name @ '' must be '' @ decimal n @ '' bytes'')) (\<lambda>_. Inr bs)))"

section \<open>The home's identity\<close>

fun identity_error :: "federation_error \<Rightarrow> string" where
  "identity_error (UnknownFederationVersion v) = ''unknown federation protocol version '' @ decimal (unat v)"
| "identity_error (UnknownAuthProfile v) = ''unknown federation authentication profile '' @ decimal (unat v)"
| "identity_error (InvalidField field reason) = ''invalid federation field '' @ field @ '': '' @ reason"
| "identity_error (InvalidBase64 field) = ''invalid base64 in federation field '' @ field"
| "identity_error KeyIdMismatch = ''federation key identifier does not match the public key''"
| "identity_error (InvalidIdentitySignature s) = ''invalid federation identity signature: '' @ s"
| "identity_error (InvalidIdentityChain s) = ''invalid federation identity chain: '' @ s"
| "identity_error (InvalidDiscovery s) = ''invalid federation discovery: '' @ s"
| "identity_error (InvalidHttpSignature s) = ''invalid federation HTTP signature profile: '' @ s"
| "identity_error SignatureNotYetValid = ''federation message signature is not yet valid''"
| "identity_error SignatureExpired = ''federation message signature has expired''"
| "identity_error ContentDigestMismatch = ''federation content digest does not match the exact message content''"

definition home_pin_of :: "'a ext_scheme \<Rightarrow> identity_document \<Rightarrow> string + home_pin" where
  "home_pin_of x d =
     bindr (map_err identity_error (document_hash x d)) (\<lambda>h.
     Inr \<lparr>pin_server = fd_server d, pin_identity_sequence = fd_sequence d, pin_identity_document_hash = h\<rparr>)"

definition follow :: "'a ext_scheme \<Rightarrow> home_pin \<Rightarrow> identity_document list \<Rightarrow> string + identity_document" where
  "follow x pin documents =
     (case documents of [] \<Rightarrow> Inl ''identity history is empty''
      | first # rest \<Rightarrow>
          (let mismatch = ''identity history does not start at the pinned document'' in
           bindr (require (\<not> (fd_server first \<noteq> pin_server pin \<or> fd_sequence first \<noteq> pin_identity_sequence pin))
             mismatch) (\<lambda>_.
           bindr (map_err identity_error (document_hash x first)) (\<lambda>h.
           bindr (require (h = pin_identity_document_hash pin) mismatch) (\<lambda>_.
           bindr (map_err identity_error (verify_current x first)) (\<lambda>_.
           map_err identity_error (verify_successors x (pin_server pin) first rest)))))))"

definition signer_in ::
  "identity_document list \<Rightarrow> u64 \<Rightarrow> string + identity_document \<times> identity_document option" where
  "signer_in history sequence =
     bindr (ok_or (position (\<lambda>d. fd_sequence d = sequence) history)
       ''signed by an identity document the history lacks'') (\<lambda>index.
     Inr (history ! index, if Suc index < length history then Some (history ! Suc index) else None))"

section \<open>The gateway key config\<close>

definition kem_xwing :: u16 where "kem_xwing = 0x647a"
definition kdf_hkdf_sha256 :: u16 where "kdf_hkdf_sha256 = 1"
definition aead_chacha20_poly1305 :: u16 where "aead_chacha20_poly1305 = 3"
definition gateway_key_len :: nat where "gateway_key_len = 1216"

record gateway_config =
  gc_version :: u16
  gc_server :: string
  gc_key_id :: u8
  gc_kem_id :: u16
  gc_kdf_id :: u16
  gc_aead_id :: u16
  gc_public_key :: string
  gc_issued_at :: int
  gc_expires_at :: int
  gc_identity_sequence :: u64
  gc_signature :: string

record route_ext = group_ext +
  config_to_json :: "gateway_config \<Rightarrow> bytes option"

definition config_signing_input :: "'a route_ext_scheme \<Rightarrow> gateway_config \<Rightarrow> string + bytes" where
  "config_signing_input x c =
     bindr (ok_or (config_to_json x (c\<lparr>gc_signature := ''''\<rparr>)) ''serialization'') (\<lambda>bs.
     Inr (key_config_domain @ bs))"

definition config_validate_shape :: "'a ext_scheme \<Rightarrow> gateway_config \<Rightarrow> string + unit" where
  "config_validate_shape x c =
     bindr (require (gc_version c = group_route_version) ''unsupported group route version'') (\<lambda>_.
     bindr (require (\<not> (gc_kem_id c \<noteq> kem_xwing \<or> gc_kdf_id c \<noteq> kdf_hkdf_sha256 \<or>
         gc_aead_id c \<noteq> aead_chacha20_poly1305)) ''gateway key config names an unsupported suite'') (\<lambda>_.
     bindr (require (case i64_checked_sub (gc_expires_at c) (gc_issued_at c) of
           Some lifetime \<Rightarrow> lifetime > 0 \<and> lifetime \<le> max_key_config_lifetime_secs | None \<Rightarrow> False)
         ''gateway key config lifetime is invalid'') (\<lambda>_.
     bindr (decode_fixed x gateway_key_len ''publicKey'' (gc_public_key c)) (\<lambda>_. Inr ()))))"

definition config_hash :: "'a route_ext_scheme \<Rightarrow> gateway_config \<Rightarrow> string + bytes" where
  "config_hash x c =
     bindr (config_validate_shape x c) (\<lambda>_.
     bindr (ok_or (config_to_json x c) ''serialization'') (\<lambda>bs.
     Inr (sha256 x (key_config_hash_domain @ bs))))"

definition config_sign ::
  "'a route_ext_scheme \<Rightarrow> identity_document \<Rightarrow> bytes \<Rightarrow> u8 \<Rightarrow> bytes \<Rightarrow> int \<Rightarrow> int \<Rightarrow> string + gateway_config" where
  "config_sign x d seed key_id public_key issued_at expires_at =
     bindr (map_err identity_error (public_key_bytes x (fd_key d))) (\<lambda>key.
     bindr (require (key = ed25519_public x seed) ''signing key is not the identity document's key'') (\<lambda>_.
     let c = \<lparr>gc_version = group_route_version, gc_server = fd_server d, gc_key_id = key_id,
           gc_kem_id = kem_xwing, gc_kdf_id = kdf_hkdf_sha256, gc_aead_id = aead_chacha20_poly1305,
           gc_public_key = std_encode x public_key, gc_issued_at = issued_at, gc_expires_at = expires_at,
           gc_identity_sequence = fd_sequence d, gc_signature = ''''\<rparr>
     in bindr (config_validate_shape x c) (\<lambda>_.
        bindr (config_signing_input x c) (\<lambda>input.
        Inr (c\<lparr>gc_signature := std_encode x (ed25519_sign x seed input)\<rparr>)))))"

definition config_verify ::
  "'a route_ext_scheme \<Rightarrow> gateway_config \<Rightarrow> identity_document list \<Rightarrow> int \<Rightarrow> string + u8 \<times> bytes" where
  "config_verify x c history now =
     bindr (config_validate_shape x c) (\<lambda>_.
     bindr (signer_in history (gc_identity_sequence c)) (\<lambda>(identity, successor).
     bindr (require (gc_server c = fd_server identity) ''gateway key config is not signed by this identity'') (\<lambda>_.
     bindr (require (\<not> (now \<ge> gc_expires_at c \<or> now < i64_saturate (gc_issued_at c - max_clock_skew_secs)))
       ''gateway key config is not current'') (\<lambda>_.
     bindr (case successor of None \<Rightarrow> Inr ()
       | Some s \<Rightarrow> require (\<not> (now \<ge> i64_saturate (sint (fd_issued_at s) + key_overlap_secs) \<or>
             gc_issued_at c \<ge> sint (fd_issued_at s))) ''gateway key config is signed by a retired identity key'') (\<lambda>_.
     bindr (map_err identity_error (verifying_key x (fd_key identity))) (\<lambda>key.
     bindr (decode_fixed x 64 ''signature'' (gc_signature c)) (\<lambda>signature.
     bindr (config_signing_input x c) (\<lambda>input.
     bindr (map_err (\<lambda>_. ''gateway key config signature is invalid'') (verify_signature x key input signature)) (\<lambda>_.
     bindr (decode_fixed x gateway_key_len ''publicKey'' (gc_public_key c)) (\<lambda>public_key.
     Inr (gc_key_id c, public_key)))))))))))"

definition config_order :: "gateway_config \<Rightarrow> nat \<times> int" where
  "config_order c = (unat (gc_identity_sequence c), gc_issued_at c)"

definition lex_less :: "nat \<times> int \<Rightarrow> nat \<times> int \<Rightarrow> bool" where
  "lex_less a b \<longleftrightarrow> fst a < fst b \<or> (fst a = fst b \<and> snd a < snd b)"

definition accept_after :: "gateway_config \<Rightarrow> gateway_config option \<Rightarrow> int \<Rightarrow> string + unit" where
  "accept_after c seen now =
     (case seen of None \<Rightarrow> Inr ()
      | Some seen \<Rightarrow>
          bindr (require (gc_server c = gc_server seen) ''gateway key configs of different homes'') (\<lambda>_.
          if lex_less (config_order c) (config_order seen)
          then Inl ''gateway key config is older than one already seen''
          else if config_order c = config_order seen
          then require (c = seen) ''the home signed two different gateway key configs for one time''
          else require (\<not> (gc_key_id c = gc_key_id seen \<and> now < gc_expires_at seen))
            ''gateway key config reuses the id of a live key''))"

section \<open>The notary\<close>

record group_notary =
  no_identity_sequence :: u64
  no_key_config_hash :: string
  no_signature :: string

definition notary_input :: "bytes \<Rightarrow> u64 \<Rightarrow> bytes \<Rightarrow> bytes \<Rightarrow> bytes \<Rightarrow> bytes" where
  "notary_input group_id revision ch_hash st_hash key_config_hash =
     notary_domain @ group_id @ be64 revision @ ch_hash @ st_hash @ key_config_hash"

definition notary_sign ::
  "'a route_ext_scheme \<Rightarrow> identity_document \<Rightarrow> bytes \<Rightarrow> gateway_config \<Rightarrow> bytes \<Rightarrow> u64 \<Rightarrow> bytes \<Rightarrow> bytes \<Rightarrow>
   string + group_notary" where
  "notary_sign x d seed config group_id revision ch_hash st_hash =
     bindr (map_err identity_error (public_key_bytes x (fd_key d))) (\<lambda>key.
     bindr (require (key = ed25519_public x seed) ''signing key is not the identity document's key'') (\<lambda>_.
     bindr (require (\<not> (gc_identity_sequence config \<noteq> fd_sequence d \<or> gc_server config \<noteq> fd_server d))
       ''the key config is not this identity document's'') (\<lambda>_.
     bindr (config_hash x config) (\<lambda>kch.
     Inr \<lparr>no_identity_sequence = fd_sequence d, no_key_config_hash = std_encode x kch,
       no_signature = std_encode x (ed25519_sign x seed
         (notary_input group_id revision ch_hash st_hash kch))\<rparr>))))"

definition notary_verify ::
  "'a ext_scheme \<Rightarrow> group_notary \<Rightarrow> identity_document list \<Rightarrow> u64 option \<Rightarrow> bytes \<Rightarrow> u64 \<Rightarrow> bytes \<Rightarrow> bytes \<Rightarrow>
   string + unit" where
  "notary_verify x n history previous_sequence group_id revision ch_hash st_hash =
     bindr (require (\<not> (case previous_sequence of None \<Rightarrow> False | Some p \<Rightarrow> no_identity_sequence n < p))
       ''notary is by an identity older than the previous revision's'') (\<lambda>_.
     bindr (signer_in history (no_identity_sequence n)) (\<lambda>(identity, _).
     bindr (map_err identity_error (verifying_key x (fd_key identity))) (\<lambda>key.
     bindr (decode_fixed x 32 ''keyConfigHash'' (no_key_config_hash n)) (\<lambda>kch.
     bindr (decode_fixed x 64 ''signature'' (no_signature n)) (\<lambda>signature.
     map_err (\<lambda>_. ''notary signature is invalid'')
       (verify_signature x key (notary_input group_id revision ch_hash st_hash kch) signature))))))"

definition notary_names :: "'a route_ext_scheme \<Rightarrow> group_notary \<Rightarrow> gateway_config \<Rightarrow> string + bool" where
  "notary_names x n config =
     bindr (decode_fixed x 32 ''keyConfigHash'' (no_key_config_hash n)) (\<lambda>kch.
     bindr (config_hash x config) (\<lambda>h. Inr (kch = h)))"

section \<open>The client's cache\<close>

record gateway_cache =
  ca_config :: "gateway_config option"
  ca_identity_history :: "identity_document list"
  ca_accepted :: "string list"

definition gateway_cache_default :: gateway_cache where
  "gateway_cache_default = \<lparr>ca_config = None, ca_identity_history = [], ca_accepted = []\<rparr>"

definition max_accepted_configs :: nat where "max_accepted_configs = 16"

datatype config_check = CheckCurrent | CheckEarlier | CheckUnknown

definition cache_check :: "'a route_ext_scheme \<Rightarrow> gateway_cache \<Rightarrow> group_notary \<Rightarrow> config_check" where
  "cache_check x cache n =
     (if (case ca_config cache of None \<Rightarrow> False
          | Some c \<Rightarrow> (case notary_names x n c of Inl _ \<Rightarrow> False | Inr b \<Rightarrow> b)) then CheckCurrent
      else if any (\<lambda>h. h = no_key_config_hash n) (ca_accepted cache) then CheckEarlier
      else CheckUnknown)"

text \<open>\<open>refresh\<close> after its fetch: the answer's history and config are arguments.\<close>

definition cache_refresh ::
  "'a route_ext_scheme \<Rightarrow> home_pin \<Rightarrow> gateway_cache \<Rightarrow> gateway_config \<times> identity_document list \<times> int \<Rightarrow>
   string + gateway_cache" where
  "cache_refresh x pin cache = (\<lambda>(config, history, now).
     bindr (map_err (\<lambda>e. ''group home identity: '' @ e) (follow x pin history)) (\<lambda>current.
     bindr (require (fd_server current = pin_server pin) ''group home identity names another server'') (\<lambda>_.
     bindr (map_err (\<lambda>e. ''group gateway key: '' @ e) (config_verify x config history now)) (\<lambda>_.
     bindr (map_err (\<lambda>e. ''group gateway key: '' @ e) (accept_after config (ca_config cache) now)) (\<lambda>_.
     bindr (config_hash x config) (\<lambda>h.
     let hash = std_encode x h;
         accepted = (if hash \<in> set (ca_accepted cache) then ca_accepted cache
           else let pushed = ca_accepted cache @ [hash]
                in if length pushed > max_accepted_configs then remove_at 0 pushed else pushed)
     in Inr \<lparr>ca_config = Some config, ca_identity_history = history, ca_accepted = accepted\<rparr>))))))"

section \<open>Facts\<close>

lemma follow_Inr:
  assumes "follow x pin ds = Inr d"
  shows "ds \<noteq> []" "d = last ds" "fd_server (hd ds) = pin_server pin" "fd_sequence (hd ds) = pin_identity_sequence pin"
    "document_hash x (hd ds) = Inr (pin_identity_document_hash pin)" "verify_current x (hd ds) = Inr ()"
    "verify_successors x (pin_server pin) (hd ds) (tl ds) = Inr d"
  using assms verify_successors_last [of x "pin_server pin" "hd ds" "tl ds" d]
  by (auto simp: follow_def Let_def split: list.splits)

lemma verify_successors_nth:
  "verify_successors x s p ds = Inr l \<Longrightarrow> Suc i < length (p # ds) \<Longrightarrow>
     verify_successor x ((p # ds) ! Suc i) ((p # ds) ! i) s = Inr ()"
  by (induction ds arbitrary: p i) (auto simp: nth_Cons split: nat.splits)

lemma verify_successors_sequence:
  "verify_successors x s p ds = Inr l \<Longrightarrow> i < length (p # ds) \<Longrightarrow>
     unat (fd_sequence ((p # ds) ! i)) = unat (fd_sequence p) + i"
proof (induction i)
  case (Suc i)
  with verify_successor_facts(1) [OF verify_successors_nth [OF Suc.prems(1), of i]] show ?case by simp
qed simp

text \<open>In a followed history a sequence names one document.\<close>

lemma follow_sequence_unique:
  assumes "follow x pin ds = Inr d" "i < length ds" "j < length ds" "fd_sequence (ds ! i) = fd_sequence (ds ! j)"
  shows "i = j"
proof -
  from follow_Inr [OF assms(1)] have "ds = hd ds # tl ds" "verify_successors x (pin_server pin) (hd ds) (tl ds) = Inr d"
    by auto
  with verify_successors_sequence [of x "pin_server pin" "hd ds" "tl ds" d] assms(2-4) show ?thesis
    by (metis add_left_cancel)
qed

lemma notary_verify_Inr:
  assumes "notary_verify x n history prev gid rv ch sh = Inr ()"
  shows "\<exists>d kch key sig. d \<in> set history \<and> fd_sequence d = no_identity_sequence n \<and>
    verifying_key x (fd_key d) = Inr key \<and> ed25519_ok x key (notary_input gid rv ch sh kch) sig \<and>
    length kch = 32"
    "\<forall>p. prev = Some p \<longrightarrow> p \<le> no_identity_sequence n"
proof -
  from assms obtain i kch key sig where i: "position (\<lambda>d. fd_sequence d = no_identity_sequence n) history = Some i"
    "verifying_key x (fd_key (history ! i)) = Inr key" "decode_fixed x 32 ''keyConfigHash'' (no_key_config_hash n) = Inr kch"
    "verify_signature x key (notary_input gid rv ch sh kch) sig = Inr ()"
    by (auto simp: notary_verify_def signer_in_def)
  from position_SomeD [OF i(1)] have "history ! i \<in> set history" "fd_sequence (history ! i) = no_identity_sequence n"
    by auto
  moreover have "length kch = 32" using i(3) by (auto simp: decode_fixed_def)
  ultimately show "\<exists>d kch key sig. d \<in> set history \<and> fd_sequence d = no_identity_sequence n \<and>
    verifying_key x (fd_key d) = Inr key \<and> ed25519_ok x key (notary_input gid rv ch sh kch) sig \<and> length kch = 32"
    using i(2,4) by (auto simp: verify_signature_def)
  show "\<forall>p. prev = Some p \<longrightarrow> p \<le> no_identity_sequence n"
    using assms by (auto simp: notary_verify_def not_less)
qed

lemma notary_input_inj:
  assumes "notary_input g r c s k = notary_input g' r' c' s' k'"
    "length g = 32" "length g' = 32" "length c = 32" "length c' = 32" "length s = 32" "length s' = 32"
  shows "g = g' \<and> r = r' \<and> c = c' \<and> s = s' \<and> k = k'"
  using assms by (simp add: notary_input_def)

lemma verifying_key_public: "verifying_key x k = Inr b \<Longrightarrow> public_key_bytes x k = Inr b"
  by (auto simp: verifying_key_def verifying_key_from_bytes_def)

text \<open>What the home signs, its members accept.\<close>

lemma notary_sign_verifies:
  assumes "ed25519_law x" "std_law x" "\<And>b. length (sha256 x b) = 32" "length seed = 32"
    "notary_sign x d seed config gid rv ch sh = Inr n"
    "follow x pin history = Inr e" "d \<in> set history" "prev = None \<or> (\<exists>p. prev = Some p \<and> p \<le> fd_sequence d)"
  shows "notary_verify x n history prev gid rv ch sh = Inr ()"
proof -
  from assms(5) obtain kch where k: "public_key_bytes x (fd_key d) = Inr (ed25519_public x seed)"
    "config_hash x config = Inr kch" "n = \<lparr>no_identity_sequence = fd_sequence d, no_key_config_hash = std_encode x kch,
       no_signature = std_encode x (ed25519_sign x seed (notary_input gid rv ch sh kch))\<rparr>"
    by (auto simp: notary_sign_def)
  from k(2) assms(3) have lk: "length kch = 32" by (auto simp: config_hash_def)
  from assms(1,4) have key: "length (ed25519_public x seed) = 32" "ed25519_key_ok x (ed25519_public x seed)"
    "length (ed25519_sign x seed m) = 64" "ed25519_ok x (ed25519_public x seed) m (ed25519_sign x seed m)" for m
    by (auto simp: ed25519_law_def)
  obtain i where i: "position (\<lambda>e. fd_sequence e = fd_sequence d) history = Some i"
    using assms(7) by (cases "position (\<lambda>e. fd_sequence e = fd_sequence d) history") auto
  from assms(7) obtain j where j: "j < length history" "history ! j = d" by (auto simp: in_set_conv_nth)
  with position_SomeD [OF i] follow_sequence_unique [OF assms(6), of i j] have "history ! i = d" by auto
  with i k(1) lk key assms(2,8) show ?thesis
    by (auto simp: notary_verify_def k(3) signer_in_def verifying_key_def verifying_key_from_bytes_def
        decode_fixed_def verify_signature_def split: option.splits)
qed

section \<open>The cache never goes back\<close>

definition config_le :: "gateway_config option \<Rightarrow> gateway_config option \<Rightarrow> bool" where
  "config_le a b \<longleftrightarrow> (case a of None \<Rightarrow> True
     | Some c \<Rightarrow> (case b of None \<Rightarrow> False
         | Some d \<Rightarrow> gc_server d = gc_server c \<and>
             (lex_less (config_order c) (config_order d) \<or> d = c)))"

lemma accept_after_le: "accept_after c seen now = Inr () \<Longrightarrow> config_le seen (Some c)"
  by (auto simp: accept_after_def config_le_def lex_less_def config_order_def not_less
      split: option.splits if_splits)

interpretation gateway: ratchet "cache_refresh x pin" "\<lambda>c d. config_le (ca_config c) (ca_config d)"
  "\<lambda>c. length (ca_accepted c) \<le> max_accepted_configs" for x :: "'a route_ext_scheme" and pin
proof unfold_locales
  show "config_le (ca_config s) (ca_config s)" for s :: "'b gateway_cache_scheme"
    by (auto simp: config_le_def split: option.splits)
next
  show "config_le (ca_config s) (ca_config u)"
    if "config_le (ca_config s) (ca_config t)" "config_le (ca_config t) (ca_config u)"
    for s t u :: gateway_cache
    using that by (auto simp: config_le_def lex_less_def split: option.splits)
next
  show "config_le (ca_config s) (ca_config s')" if "cache_refresh x pin s i = Inr s'" for s i s'
    using that by (auto simp: cache_refresh_def Let_def split: prod.splits dest!: accept_after_le)
next
  show "length (ca_accepted s') \<le> max_accepted_configs"
    if "length (ca_accepted s) \<le> max_accepted_configs" "cache_refresh x pin s i = Inr s'" for s i s'
    using that by (auto simp: cache_refresh_def Let_def remove_at_def split: prod.splits if_splits)
qed

end
