(* ===== verification/Tables.thy ===== *)
theory Tables
  imports Prelude
begin

text \<open>
  Vectors kept sorted by a key, one element per key, and searched by \<open>binary_search_by\<close>: the
  identity pins by account, the shared-mailbox pins by (server, group id), the ban list by
  account.  \<open>bsearch\<close> is the search as the standard library documents it on a sorted slice
  (\<open>Inr i\<close> is \<open>Ok(i)\<close>, \<open>Inl i\<close> is \<open>Err(i)\<close>, the place to insert at), \<open>partition_point\<close> the
  function of that name.  The locale \<open>keyed_table\<close> is what the clients rely on.
\<close>

section \<open>Searching\<close>

definition partition_point :: "('a \<Rightarrow> bool) \<Rightarrow> 'a list \<Rightarrow> nat" where
  "partition_point p xs = length (takeWhile p xs)"

definition bsearch :: "('a \<Rightarrow> 'k::linorder) \<Rightarrow> 'k \<Rightarrow> 'a list \<Rightarrow> nat + nat" where
  "bsearch key k xs =
     (let i = partition_point (\<lambda>x. key x < k) xs
      in if i < length xs \<and> key (xs ! i) = k then Inr i else Inl i)"

abbreviation sorted_by :: "('a \<Rightarrow> 'k::linorder) \<Rightarrow> 'a list \<Rightarrow> bool" where
  "sorted_by key xs \<equiv> sorted_wrt (<) (map key xs)"

text \<open>\<open>slice.windows(2).all(|pair| p(pair[0], pair[1]))\<close>.\<close>

fun windows2 :: "('a \<Rightarrow> 'a \<Rightarrow> bool) \<Rightarrow> 'a list \<Rightarrow> bool" where
  "windows2 p (a # b # xs) = (p a b \<and> windows2 p (b # xs))"
| "windows2 p _ = True"

lemma windows2_sorted: "windows2 (\<lambda>a b. key a < (key b :: 'k::linorder)) xs \<longleftrightarrow> sorted_by key xs"
proof (induction xs)
  case (Cons a xs)
  then show ?case by (cases xs) (auto intro: less_trans)
qed simp

lemma windows2_snoc: "windows2 p (as @ [b]) \<longleftrightarrow> windows2 p as \<and> (as \<noteq> [] \<longrightarrow> p (last as) b)"
  by (induction p as rule: windows2.induct) auto

lemma windows2_prefix: "windows2 p (as @ bs) \<Longrightarrow> windows2 p as"
  by (induction bs rule: rev_induct) (auto simp flip: append_assoc simp: windows2_snoc)

lemma sorted_by_inj:
  "sorted_by key xs \<Longrightarrow> x \<in> set xs \<Longrightarrow> y \<in> set xs \<Longrightarrow> key x = key y \<Longrightarrow> x = y"
proof -
  assume s: "sorted_by key xs" and xy: "x \<in> set xs" "y \<in> set xs" "key x = key y"
  from s have "distinct (map key xs)" by (simp add: strict_sorted_iff)
  with xy show "x = y" by (auto simp: distinct_map inj_on_def)
qed

lemma partition_point_split:
  "(\<forall>x\<in>set (take (partition_point p xs) xs). p x) \<and>
   (partition_point p xs < length xs \<longrightarrow> \<not> p (xs ! partition_point p xs))"
  unfolding partition_point_def
  by (auto simp: takeWhile_eq_take [symmetric] dest: set_takeWhileD nth_length_takeWhile)

lemma bsearch_Inr: "bsearch key k xs = Inr i \<Longrightarrow> i < length xs \<and> key (xs ! i) = k"
  by (auto simp: bsearch_def Let_def split: if_splits)

lemma bsearch_Inl:
  assumes s: "sorted_by key xs" and b: "bsearch key k xs = Inl i"
  shows "i \<le> length xs \<and> (\<forall>x\<in>set (take i xs). key x < k) \<and> (\<forall>x\<in>set (drop i xs). k < key x)"
proof -
  let ?p = "\<lambda>x. key x < k"
  from b have i: "i = partition_point ?p xs" "\<not> (i < length xs \<and> key (xs ! i) = k)"
    by (auto simp: bsearch_def Let_def split: if_splits)
  have le: "i \<le> length xs" by (simp add: i(1) partition_point_def length_takeWhile_le)
  have "k < key x" if x: "x \<in> set (drop i xs)" for x
  proof -
    from x obtain j where "j < length (drop i xs)" "x = drop i xs ! j"
      unfolding in_set_conv_nth by blast
    with le have j: "i + j < length xs" "x = xs ! (i + j)" by simp_all
    then have il: "i < length xs" by simp
    then have "\<not> key (xs ! i) < k" using partition_point_split [of ?p xs] unfolding i(1) by blast
    moreover have "key (xs ! i) \<noteq> k" using i(2) il by blast
    ultimately have "k < key (xs ! i)" by (metis linorder_neqE)
    also have "key (xs ! i) \<le> key (xs ! (i + j))"
      using s j(1) il by (cases "j = 0") (auto simp: sorted_wrt_iff_nth_less less_imp_le)
    finally show ?thesis by (simp add: j(2))
  qed
  moreover have "\<forall>x\<in>set (take i xs). key x < k"
    using partition_point_split [of ?p xs] unfolding i(1) by blast
  ultimately show ?thesis using le by blast
qed

lemma bsearch_Inr_iff_in:
  assumes s: "sorted_by key xs"
  shows "(\<exists>i. bsearch key k xs = Inr i) \<longleftrightarrow> k \<in> key ` set xs"
proof
  assume "\<exists>i. bsearch key k xs = Inr i"
  then show "k \<in> key ` set xs" by (auto dest!: bsearch_Inr)
next
  assume k: "k \<in> key ` set xs"
  show "\<exists>i. bsearch key k xs = Inr i"
  proof (cases "bsearch key k xs")
    case (Inl i)
    from bsearch_Inl [OF s Inl] have "\<forall>x\<in>set xs. key x \<noteq> k"
      by (metis Un_iff append_take_drop_id less_irrefl set_append)
    with k show ?thesis by auto
  qed simp
qed

lemma bsearch_nth:
  assumes s: "sorted_by key xs" and i: "i < length xs"
  shows "bsearch key (key (xs ! i)) xs = Inr i"
proof -
  from i have "key (xs ! i) \<in> key ` set xs" by simp
  with s obtain j where j: "bsearch key (key (xs ! i)) xs = Inr j"
    by (auto simp: bsearch_Inr_iff_in [symmetric])
  from bsearch_Inr [OF this] have "j < length xs" "key (xs ! j) = key (xs ! i)" by auto
  moreover from s have "distinct (map key xs)" by (simp add: strict_sorted_iff)
  ultimately have "j = i" using i by (simp add: distinct_conv_nth) (metis length_map nth_map)
  with j show ?thesis by simp
qed

section \<open>Keeping the order\<close>

lemma sorted_by_insert_at:
  assumes s: "sorted_by key xs" and b: "bsearch key (key x) xs = Inl i"
  shows "sorted_by key (insert_at i x xs)"
proof -
  from bsearch_Inl [OF s b] have lt: "\<forall>y\<in>set (take i xs). key y < key x"
    "\<forall>y\<in>set (drop i xs). key x < key y" by auto
  have "sorted_by key (take i xs @ drop i xs)" using s by simp
  then have "sorted_by key (take i xs)" "sorted_by key (drop i xs)"
    "\<forall>a\<in>set (take i xs). \<forall>b\<in>set (drop i xs). key a < key b"
    unfolding map_append sorted_wrt_append by auto
  with lt show ?thesis by (auto simp: insert_at_def sorted_wrt_append)
qed

lemma set_insert_at [simp]: "set (insert_at i x xs) = insert x (set xs)"
  unfolding insert_at_def by (metis append_take_drop_id list.simps(15) set_append Un_insert_right)

lemma length_insert_at [simp]: "length (insert_at i x xs) = Suc (length xs)"
  by (simp add: insert_at_def)

lemma sorted_by_remove_at: "sorted_by key xs \<Longrightarrow> sorted_by key (remove_at i xs)"
proof -
  assume s: "sorted_by key xs"
  show ?thesis
  proof (cases "i < length xs")
    case True
    then have "xs = take i xs @ xs ! i # drop (Suc i) xs" by (rule id_take_nth_drop)
    with s have "sorted_by key (take i xs @ xs ! i # drop (Suc i) xs)" by simp
    then show ?thesis by (auto simp: remove_at_def sorted_wrt_append)
  qed (use s in \<open>simp add: remove_at_def\<close>)
qed

lemma sorted_by_update:
  "sorted_by key xs \<Longrightarrow> i < length xs \<Longrightarrow> key x = key (xs ! i) \<Longrightarrow> sorted_by key (xs[i := x])"
  by (metis list_update_id map_update)

lemma sorted_by_remove_at_set:
  assumes "sorted_by key xs" "i < length xs"
  shows "set (remove_at i xs) = {x \<in> set xs. key x \<noteq> key (xs ! i)}"
proof -
  have sp: "xs = take i xs @ xs ! i # drop (Suc i) xs" using assms(2) by (rule id_take_nth_drop)
  have "distinct (map key xs)" using assms(1) by (simp add: strict_sorted_iff)
  then have "distinct (map key (take i xs @ xs ! i # drop (Suc i) xs))" using sp by simp
  then have d: "key (xs ! i) \<notin> key ` set (take i xs)" "key (xs ! i) \<notin> key ` set (drop (Suc i) xs)"
    by auto
  have ins: "set xs = insert (xs ! i) (set (remove_at i xs))"
    by (rule insert_remove_at [OF assms(2)])
  have "\<forall>x\<in>set (remove_at i xs). key x \<noteq> key (xs ! i)"
    using d unfolding remove_at_def by (metis Un_iff imageI set_append)
  then show ?thesis by (subst ins) blast
qed

lemma set_update_remove_at: "i < length xs \<Longrightarrow> set (xs[i := v]) = insert v (set (remove_at i xs))"
  by (simp add: upd_conv_take_nth_drop remove_at_def)

section \<open>The table interface\<close>

lemma set_update_by:
  assumes "sorted_by key xs" "i < length xs" "key x = key (xs ! i)"
  shows "v \<in> set (xs[i := x]) \<longleftrightarrow> v = x \<or> (v \<in> set xs \<and> key v \<noteq> key x)"
proof -
  have "distinct (map key xs)" using assms(1) by (simp add: strict_sorted_iff)
  then have d: "j < length xs \<Longrightarrow> key (xs ! j) = key (xs ! i) \<longleftrightarrow> j = i" for j
    using assms(2) by (metis length_map nth_eq_iff_index_eq nth_map)
  show ?thesis
  proof
    assume "v \<in> set (xs[i := x])"
    then obtain j where "j < length xs" "v = (if j = i then x else xs ! j)"
      by (auto simp: in_set_conv_nth nth_list_update)
    with d [of j] assms(3) show "v = x \<or> (v \<in> set xs \<and> key v \<noteq> key x)" by (auto split: if_splits)
  next
    assume "v = x \<or> (v \<in> set xs \<and> key v \<noteq> key x)"
    then show "v \<in> set (xs[i := x])"
      using assms(2,3) by (auto simp: in_set_conv_nth set_update_memI) (metis length_list_update nth_list_update_neq)
  qed
qed

locale keyed_table =
  fixes entries :: "'t \<Rightarrow> 'v list"
    and key :: "'v \<Rightarrow> 'k::linorder"
    and lookup :: "'t \<Rightarrow> 'k \<Rightarrow> 'v option"
    and inv :: "'t \<Rightarrow> bool"
  assumes entries_sorted: "inv t \<Longrightarrow> sorted_by key (entries t)"
    and lookup_bsearch: "lookup t k =
      (case bsearch key k (entries t) of Inl _ \<Rightarrow> None | Inr i \<Rightarrow> Some (entries t ! i))"
begin

lemma lookup_some_iff: "inv t \<Longrightarrow> lookup t k = Some v \<longleftrightarrow> v \<in> set (entries t) \<and> key v = k"
proof
  assume "lookup t k = Some v"
  then show "v \<in> set (entries t) \<and> key v = k"
    by (auto simp: lookup_bsearch split: sum.splits dest!: bsearch_Inr)
next
  assume i: "inv t" and v: "v \<in> set (entries t) \<and> key v = k"
  then obtain n where "n < length (entries t)" "v = entries t ! n" by (auto simp: in_set_conv_nth)
  with v bsearch_nth [OF entries_sorted [OF i], of n] show "lookup t k = Some v"
    by (auto simp: lookup_bsearch)
qed

lemma lookup_key: "lookup t k = Some v \<Longrightarrow> v \<in> set (entries t) \<and> key v = k"
  by (auto simp: lookup_bsearch split: sum.splits dest!: bsearch_Inr)

text \<open>A table that holds one entry more, or one replaced, looks up accordingly.\<close>

lemma lookup_put:
  assumes "inv t" "inv u" "\<And>v. v \<in> set (entries u) \<longleftrightarrow> v = p \<or> (v \<in> set (entries t) \<and> key v \<noteq> key p)"
  shows "lookup u a = (if a = key p then Some p else lookup t a)"
proof -
  have "lookup u a = Some v \<longleftrightarrow> (if a = key p then Some p else lookup t a) = Some v" for v
    using lookup_some_iff [OF assms(1), of a v] lookup_some_iff [OF assms(2), of a v] assms(3) [of v] by auto
  then show ?thesis by (metis not_Some_eq)
qed

lemma lookup_none_iff: "inv t \<Longrightarrow> lookup t k = None \<longleftrightarrow> k \<notin> key ` set (entries t)"
proof -
  assume i: "inv t"
  have "lookup t k = None \<longleftrightarrow> (\<forall>v. lookup t k \<noteq> Some v)" by (cases "lookup t k") auto
  with lookup_some_iff [OF i] show ?thesis by auto
qed

lemma lookup_other:
  assumes "inv t" "inv t'"
    and "{v \<in> set (entries t'). key v = k} = {v \<in> set (entries t). key v = k}"
  shows "lookup t' k = lookup t k"
proof (cases "lookup t k")
  case None
  with assms(1,3) have "k \<notin> key ` set (entries t')" by (auto simp: lookup_none_iff)
  with assms(2) None show ?thesis by (simp add: lookup_none_iff)
next
  case (Some v)
  with assms have "v \<in> set (entries t') \<and> key v = k" by (auto simp: lookup_some_iff)
  with assms(2) Some show ?thesis by (simp add: lookup_some_iff)
qed

end

end
