(* ===== verification/Group_Entry.thy ===== *)
theory Group_Entry
  imports Group_State Tables "HOL-Library.Option_ord"
begin

text \<open>
  What the sealed parts of a group's state hold (\<open>kutup-chat-proto/src/group/entry.rs\<close>): member
  entries, slot entries, the avatar, the ban list with its lookups and updates, the group context
  inside a message, an invitation, and an entry of the account's group list.
\<close>

section \<open>Data\<close>

definition profile_key_len :: nat where "profile_key_len = 32"
definition binding_signature_len :: nat where "binding_signature_len = 64"
definition master_key_len :: nat where "master_key_len = 32"
definition max_banned_pseudonyms_per_account :: nat where "max_banned_pseudonyms_per_account = 64"
definition max_invite_title_chars :: nat where "max_invite_title_chars = 64"

definition group_avatar_content_types :: "string list" where
  "group_avatar_content_types = [''image/jpeg'', ''image/png'', ''image/webp'']"

record group_member_entry =
  me_version :: u16
  me_account :: account_ref
  me_profile_key :: string
  me_binding_signature :: string

record group_slot_entry =
  se_version :: u16
  se_account :: account_ref

record group_avatar =
  ga_version :: u16
  ga_key :: string
  ga_content_type :: string

record group_banned_account =
  ba_account :: account_ref
  ba_pseudonyms :: "string list"

record group_ban_list =
  bl_version :: u16
  bl_banned :: "group_banned_account list"

record group_context =
  cx_version :: u16
  cx_group_id :: string
  cx_master_key :: string
  cx_home :: home_pin
  cx_revision :: u64
  cx_chain_hash :: string
  cx_recipient_pseudonym :: "string option"

record group_invite =
  iv_version :: u16
  iv_group_id :: string
  iv_master_key :: string
  iv_home :: home_pin
  iv_slot_id :: string
  iv_slot_revision :: u64
  iv_claim_key_seed :: string
  iv_title :: "string option"

datatype group_list_status = ListMember | ListGone

record group_list_entry =
  le_version :: u16
  le_group_id :: string
  le_master_key :: string
  le_home :: home_pin
  le_join_epoch :: u32
  le_status :: group_list_status
  le_verified_revision :: u64
  le_chain_hash :: string

section \<open>Validation\<close>

definition require_version :: "u16 \<Rightarrow> string + unit" where
  "require_version version =
     require (version = group_format_version) ''unsupported group entry version''"

definition validate_member_entry :: "'a ext_scheme \<Rightarrow> group_member_entry \<Rightarrow> string + unit" where
  "validate_member_entry x e =
     bindr (require_version (me_version e)) (\<lambda>_.
     bindr (decode_exact x profile_key_len ''profileKey'' (me_profile_key e)) (\<lambda>_.
     bindr (decode_exact x binding_signature_len ''bindingSignature'' (me_binding_signature e)) (\<lambda>_.
     Inr ())))"

definition validate_slot_entry :: "group_slot_entry \<Rightarrow> string + unit" where
  "validate_slot_entry e = require_version (se_version e)"

definition validate_avatar :: "'a ext_scheme \<Rightarrow> group_avatar \<Rightarrow> string + unit" where
  "validate_avatar x a =
     bindr (require_version (ga_version a)) (\<lambda>_.
     bindr (decode_exact x 32 ''key'' (ga_key a)) (\<lambda>_.
     require (ga_content_type a \<in> set group_avatar_content_types)
       ''a group avatar is a JPEG, PNG or WebP image''))"

definition validate_context :: "'a ext_scheme \<Rightarrow> group_context \<Rightarrow> string + unit" where
  "validate_context x c =
     bindr (require_version (cx_version c)) (\<lambda>_.
     bindr (decode_group_id x (cx_group_id c)) (\<lambda>_.
     bindr (decode_exact x master_key_len ''masterKey'' (cx_master_key c)) (\<lambda>_.
     bindr (validate_home (cx_home c)) (\<lambda>_.
     bindr (decode_exact x 32 ''chainHash'' (cx_chain_hash c)) (\<lambda>_.
     case cx_recipient_pseudonym c of None \<Rightarrow> Inr ()
     | Some p \<Rightarrow> bindr (decode_exact x 32 ''recipientPseudonym'' p) (\<lambda>_. Inr ()))))))"

definition naming :: "group_context \<Rightarrow> string option \<Rightarrow> group_context" where
  "naming c recipient = c\<lparr>cx_recipient_pseudonym := recipient\<rparr>"

text \<open>\<open>chars().count()\<close> of a UTF-8 text: the bytes that do not continue a character.\<close>

definition char_count :: "string \<Rightarrow> nat" where
  "char_count s = length (filter (\<lambda>c. \<not> (128 \<le> (of_char c :: nat) \<and> (of_char c :: nat) < 192)) s)"

definition validate_invite :: "'a ext_scheme \<Rightarrow> group_invite \<Rightarrow> string + unit" where
  "validate_invite x i =
     bindr (require_version (iv_version i)) (\<lambda>_.
     bindr (decode_group_id x (iv_group_id i)) (\<lambda>_.
     bindr (decode_exact x master_key_len ''masterKey'' (iv_master_key i)) (\<lambda>_.
     bindr (validate_home (iv_home i)) (\<lambda>_.
     bindr (decode_exact x slot_id_len ''slotId'' (iv_slot_id i)) (\<lambda>_.
     bindr (decode_exact x 32 ''claimKeySeed'' (iv_claim_key_seed i)) (\<lambda>_.
     require (\<not> (case iv_title i of None \<Rightarrow> False | Some t \<Rightarrow> char_count t > max_invite_title_chars))
       ''an invitation's title is too long''))))))"

definition validate_list_entry :: "'a ext_scheme \<Rightarrow> group_list_entry \<Rightarrow> string + unit" where
  "validate_list_entry x e =
     bindr (require_version (le_version e)) (\<lambda>_.
     bindr (decode_group_id x (le_group_id e)) (\<lambda>_.
     bindr (decode_exact x master_key_len ''masterKey'' (le_master_key e)) (\<lambda>_.
     bindr (validate_home (le_home e)) (\<lambda>_.
     bindr (decode_exact x 32 ''chainHash'' (le_chain_hash e)) (\<lambda>_. Inr ())))))"

text \<open>The macro \<open>canonical_json!\<close>: the JSON writer and reader of the type are parameters.\<close>

definition canonical_json_bytes :: "('v \<Rightarrow> string + unit) \<Rightarrow> ('v \<Rightarrow> bytes option) \<Rightarrow> 'v \<Rightarrow> string + bytes" where
  "canonical_json_bytes validate to_json v =
     bindr (validate v) (\<lambda>_. ok_or (to_json v) ''serialization'')"

definition from_canonical_json_bytes ::
  "string \<Rightarrow> ('v \<Rightarrow> string + unit) \<Rightarrow> ('v \<Rightarrow> bytes option) \<Rightarrow> (bytes \<Rightarrow> 'v option) \<Rightarrow> bytes \<Rightarrow> string + 'v" where
  "from_canonical_json_bytes name validate to_json from_json bs =
     bindr (ok_or (from_json bs) (''invalid '' @ name)) (\<lambda>value.
     bindr (canonical_json_bytes validate to_json value) (\<lambda>canonical.
     bindr (require (canonical = bs) (name @ '' is not canonical JSON'')) (\<lambda>_. Inr value)))"

section \<open>The ban list\<close>

definition validate_banned_account :: "'a ext_scheme \<Rightarrow> group_banned_account \<Rightarrow> string + unit" where
  "validate_banned_account x b =
     bindr (require (length (ba_pseudonyms b) \<le> max_banned_pseudonyms_per_account)
        ''too many pseudonyms for one banned account'') (\<lambda>_.
     ordered_loop (decode_exact x 32 ''pseudonym'')
       ''a banned account's pseudonyms are sorted, each once'' (\<lambda>_. Inr ()) None (ba_pseudonyms b))"

definition validate_ban_list :: "'a ext_scheme \<Rightarrow> group_ban_list \<Rightarrow> string + unit" where
  "validate_ban_list x l =
     bindr (require_version (bl_version l)) (\<lambda>_.
     bindr (require (windows2 (\<lambda>a b. ba_account a < ba_account b) (bl_banned l))
        ''a ban list is sorted by account, each once'') (\<lambda>_.
     for_each (validate_banned_account x) (bl_banned l)))"

definition ban_list_get :: "group_ban_list \<Rightarrow> account_ref \<Rightarrow> group_banned_account option" where
  "ban_list_get l account =
     (case bsearch ba_account account (bl_banned l) of Inl _ \<Rightarrow> None | Inr i \<Rightarrow> Some (bl_banned l ! i))"

definition insert_pseudonym :: "'a ext_scheme \<Rightarrow> string \<Rightarrow> string list \<Rightarrow> string list" where
  "insert_pseudonym x pseudonym pseudonyms =
     (let decode = (\<lambda>p. ok (decode_exact x 32 ''pseudonym'' p));
          at = partition_point (\<lambda>other. decode other < decode pseudonym) pseudonyms
      in if at < length pseudonyms \<and> pseudonyms ! at = pseudonym then pseudonyms
         else insert_at at pseudonym pseudonyms)"

definition ban_list_ban :: "'a ext_scheme \<Rightarrow> group_ban_list \<Rightarrow> account_ref \<Rightarrow> string option \<Rightarrow> group_ban_list" where
  "ban_list_ban x l account pseudonym =
     (let (index, banned) = (case bsearch ba_account account (bl_banned l) of
            Inr i \<Rightarrow> (i, bl_banned l)
          | Inl i \<Rightarrow> (i, insert_at i \<lparr>ba_account = account, ba_pseudonyms = []\<rparr> (bl_banned l)))
      in l\<lparr>bl_banned := (case pseudonym of None \<Rightarrow> banned
           | Some p \<Rightarrow> banned[index := (banned ! index)\<lparr>ba_pseudonyms :=
               insert_pseudonym x p (ba_pseudonyms (banned ! index))\<rparr>])\<rparr>)"

definition ban_list_unban :: "group_ban_list \<Rightarrow> account_ref \<Rightarrow> group_ban_list \<times> group_banned_account option" where
  "ban_list_unban l account =
     (case bsearch ba_account account (bl_banned l) of
        Inl _ \<Rightarrow> (l, None)
      | Inr i \<Rightarrow> (l\<lparr>bl_banned := remove_at i (bl_banned l)\<rparr>, Some (bl_banned l ! i)))"

section \<open>The ban list as a table\<close>

lemma validate_ban_list_Inr:
  "validate_ban_list x l = Inr u \<longleftrightarrow> bl_version l = group_format_version \<and>
     sorted_by ba_account (bl_banned l) \<and> (\<forall>b\<in>set (bl_banned l). validate_banned_account x b = Inr ())"
  by (auto simp: validate_ban_list_def require_version_def windows2_sorted)

interpretation bans: keyed_table bl_banned ba_account ban_list_get "\<lambda>l. sorted_by ba_account (bl_banned l)"
  by unfold_locales (auto simp: ban_list_get_def)

text \<open>The pseudonyms of one account, sorted by the bytes they decode to.\<close>

definition decoded :: "'a ext_scheme \<Rightarrow> string \<Rightarrow> bytes option" where
  "decoded x p = ok (decode_exact x 32 ''pseudonym'' p)"

lemma decode_exact_inj:
  "decode_exact x n f v = Inr b \<Longrightarrow> decode_exact x n f w = Inr b \<Longrightarrow> v = w"
  by (auto simp: decode_exact_def)

lemma validate_banned_account_Inr:
  "validate_banned_account x b = Inr u \<longleftrightarrow> length (ba_pseudonyms b) \<le> max_banned_pseudonyms_per_account \<and>
     sorted_by (decoded x) (ba_pseudonyms b) \<and> (\<forall>p\<in>set (ba_pseudonyms b). decoded x p \<noteq> None)"
proof -
  let ?d = "decode_exact x 32 ''pseudonym''" and ?ps = "ba_pseudonyms b"
  have "(\<exists>ks. map ?d ?ps = map Inr ks \<and> sorted_wrt (<) ks) \<longleftrightarrow>
    sorted_by (decoded x) ?ps \<and> (\<forall>p\<in>set ?ps. decoded x p \<noteq> None)"
  proof
    assume "\<exists>ks. map ?d ?ps = map Inr ks \<and> sorted_wrt (<) ks"
    then obtain ks where ks: "map ?d ?ps = map Inr ks" "sorted_wrt (<) ks" by blast
    have "map (decoded x) ?ps = map ok (map ?d ?ps)" by (simp add: decoded_def)
    also have "\<dots> = map Some ks" by (simp add: ks(1))
    finally have m: "map (decoded x) ?ps = map Some ks" .
    have "decoded x p \<noteq> None" if "p \<in> set ?ps" for p
    proof -
      from that have "decoded x p \<in> set (map (decoded x) ?ps)" by simp
      then show ?thesis unfolding m by auto
    qed
    with m ks(2) show "sorted_by (decoded x) ?ps \<and> (\<forall>p\<in>set ?ps. decoded x p \<noteq> None)"
      by (auto simp: sorted_wrt_map)
  next
    assume h: "sorted_by (decoded x) ?ps \<and> (\<forall>p\<in>set ?ps. decoded x p \<noteq> None)"
    let ?ks = "map (\<lambda>p. the (decoded x p)) ?ps"
    have "map (decoded x) ?ps = map Some ?ks" using h by auto
    moreover from this h have "sorted_wrt (<) (map Some ?ks)" by metis
    moreover have "map ?d ?ps = map Inr ?ks"
      using h by (auto simp: decoded_def)
    ultimately show "\<exists>ks. map ?d ?ps = map Inr ks \<and> sorted_wrt (<) ks"
      by (intro exI [of _ ?ks]) (simp add: sorted_wrt_map)
  qed
  then show ?thesis by (auto simp: validate_banned_account_def ordered_loop_None_Inr)
qed

lemma partition_point_bsearch:
  "bsearch key k xs = Inr i \<Longrightarrow> partition_point (\<lambda>x. key x < k) xs = i"
  "bsearch key k xs = Inl i \<Longrightarrow> partition_point (\<lambda>x. key x < k) xs = i"
  by (auto simp: bsearch_def Let_def split: if_splits)

lemma insert_pseudonym_known:
  assumes "sorted_by (decoded x) ps" "decoded x p \<noteq> None"
  shows "sorted_by (decoded x) (insert_pseudonym x p ps)" "set (insert_pseudonym x p ps) = insert p (set ps)"
    "length (insert_pseudonym x p ps) = (if p \<in> set ps then length ps else Suc (length ps))"
proof -
  have def': "insert_pseudonym x p ps = (let at = partition_point (\<lambda>q. decoded x q < decoded x p) ps
    in if at < length ps \<and> ps ! at = p then ps else insert_at at p ps)"
    by (simp add: insert_pseudonym_def decoded_def Let_def)
  have same: "q = p" if "decoded x q = decoded x p" for q
    using that assms(2) by (auto simp: decoded_def intro: decode_exact_inj)
  show "sorted_by (decoded x) (insert_pseudonym x p ps)" "set (insert_pseudonym x p ps) = insert p (set ps)"
    "length (insert_pseudonym x p ps) = (if p \<in> set ps then length ps else Suc (length ps))"
  proof (atomize(full), cases "bsearch (decoded x) (decoded x p) ps")
    case (Inr i)
    from bsearch_Inr [OF Inr] same have "i < length ps" "ps ! i = p" by auto
    moreover from this have "p \<in> set ps" by auto
    ultimately show "sorted_by (decoded x) (insert_pseudonym x p ps) \<and> set (insert_pseudonym x p ps) = insert p (set ps) \<and>
      length (insert_pseudonym x p ps) = (if p \<in> set ps then length ps else Suc (length ps))"
      using partition_point_bsearch(1) [OF Inr] assms(1) by (auto simp: def')
  next
    case (Inl i)
    from bsearch_Inr_iff_in [OF assms(1), of "decoded x p"] Inl have "p \<notin> set ps" by auto
    with partition_point_bsearch(2) [OF Inl] sorted_by_insert_at [OF assms(1) Inl]
    show "sorted_by (decoded x) (insert_pseudonym x p ps) \<and> set (insert_pseudonym x p ps) = insert p (set ps) \<and>
      length (insert_pseudonym x p ps) = (if p \<in> set ps then length ps else Suc (length ps))"
      by (auto simp: def' dest: nth_mem)
  qed
qed

section \<open>Banning and lifting a ban\<close>

lemma ban_list_ban_cases:
  assumes srt: "sorted_by ba_account (bl_banned l)"
  obtains old where
    "case ban_list_get l account of None \<Rightarrow> old = \<lparr>ba_account = account, ba_pseudonyms = []\<rparr> | Some e \<Rightarrow> old = e"
    "ba_account old = account" "bl_version (ban_list_ban x l account pseudonym) = bl_version l"
    "sorted_by ba_account (bl_banned (ban_list_ban x l account pseudonym))"
    "set (bl_banned (ban_list_ban x l account pseudonym)) = {e \<in> set (bl_banned l). ba_account e \<noteq> account} \<union>
       {case pseudonym of None \<Rightarrow> old | Some p \<Rightarrow> old\<lparr>ba_pseudonyms := insert_pseudonym x p (ba_pseudonyms old)\<rparr>}"
proof -
  let ?upd = "\<lambda>e. case pseudonym of None \<Rightarrow> e | Some p \<Rightarrow> e\<lparr>ba_pseudonyms := insert_pseudonym x p (ba_pseudonyms e)\<rparr>"
  have key: "ba_account (?upd e) = ba_account e" for e by (auto split: option.splits)
  note result = that
  have step: "thesis" if i: "i < length bs" "sorted_by ba_account bs" "ba_account (bs ! i) = account"
    "bl_banned (ban_list_ban x l account pseudonym) = bs[i := ?upd (bs ! i)]"
    "{e \<in> set bs. ba_account e \<noteq> account} = {e \<in> set (bl_banned l). ba_account e \<noteq> account}"
    "case ban_list_get l account of None \<Rightarrow> bs ! i = \<lparr>ba_account = account, ba_pseudonyms = []\<rparr> | Some e \<Rightarrow> bs ! i = e"
    for bs i
  proof (rule result [of "bs ! i"])
    show "bl_version (ban_list_ban x l account pseudonym) = bl_version l"
      by (simp add: ban_list_ban_def split: prod.splits)
    show "sorted_by ba_account (bl_banned (ban_list_ban x l account pseudonym))"
      unfolding i(4) using i(2,1) key by (rule sorted_by_update)
    have "set (bs[i := ?upd (bs ! i)]) = {e \<in> set bs. ba_account e \<noteq> account} \<union> {?upd (bs ! i)}"
      using set_update_remove_at [OF i(1), of "?upd (bs ! i)"] sorted_by_remove_at_set [OF i(2,1)] i(3) by simp
    with i(4,5) show "set (bl_banned (ban_list_ban x l account pseudonym)) =
        {e \<in> set (bl_banned l). ba_account e \<noteq> account} \<union> {?upd (bs ! i)}" by simp
  qed (use i in auto)
  show thesis
  proof (cases "bsearch ba_account account (bl_banned l)")
    case (Inr i)
    with bsearch_Inr [OF Inr] srt show thesis
      by (intro step [of i "bl_banned l"]) (auto simp: ban_list_ban_def ban_list_get_def split: option.splits)
  next
    case (Inl i)
    let ?new = "\<lparr>ba_account = account, ba_pseudonyms = []\<rparr>"
    from bsearch_Inl [OF srt Inl] have i: "i \<le> length (bl_banned l)" by simp
    from sorted_by_insert_at [OF srt, of ?new i] Inl have "sorted_by ba_account (insert_at i ?new (bl_banned l))"
      by simp
    moreover have n: "insert_at i ?new (bl_banned l) ! i = ?new" using i by (simp add: insert_at_def nth_append)
    moreover from n have "(insert_at i ?new (bl_banned l))[i := ?new] = insert_at i ?new (bl_banned l)"
      by (metis list_update_id)
    ultimately show thesis using Inl i
      by (intro step [of i "insert_at i ?new (bl_banned l)"])
        (auto simp: ban_list_ban_def ban_list_get_def split: option.splits)
  qed
qed

lemma ban_list_ban_get:
  assumes srt: "sorted_by ba_account (bl_banned l)"
  shows "account' \<noteq> account \<Longrightarrow> ban_list_get (ban_list_ban x l account p) account' = ban_list_get l account'"
    and "ban_list_get (ban_list_ban x l account (Some q)) account =
      Some \<lparr>ba_account = account, ba_pseudonyms = insert_pseudonym x q
        (case ban_list_get l account of None \<Rightarrow> [] | Some e \<Rightarrow> ba_pseudonyms e)\<rparr>"
    and "ban_list_get (ban_list_ban x l account None) account =
      Some (case ban_list_get l account of None \<Rightarrow> \<lparr>ba_account = account, ba_pseudonyms = []\<rparr> | Some e \<Rightarrow> e)"
proof -
  show "ban_list_get (ban_list_ban x l account p) account' = ban_list_get l account'" if "account' \<noteq> account"
    using ban_list_ban_cases [OF srt, of account x p]
  proof cases
    case (1 old)
    have "{v \<in> set (bl_banned (ban_list_ban x l account p)). ba_account v = account'} =
        {v \<in> set (bl_banned l). ba_account v = account'}"
      unfolding 1(5) using 1(2) that by (auto split: option.splits)
    with bans.lookup_other [OF srt 1(4)] show ?thesis .
  qed
  show "ban_list_get (ban_list_ban x l account (Some q)) account =
      Some \<lparr>ba_account = account, ba_pseudonyms = insert_pseudonym x q
        (case ban_list_get l account of None \<Rightarrow> [] | Some e \<Rightarrow> ba_pseudonyms e)\<rparr>"
    using ban_list_ban_cases [OF srt, of account x "Some q"]
  proof cases
    case (1 old)
    from 1(1,2) have "old\<lparr>ba_pseudonyms := insert_pseudonym x q (ba_pseudonyms old)\<rparr> =
      \<lparr>ba_account = account, ba_pseudonyms = insert_pseudonym x q
        (case ban_list_get l account of None \<Rightarrow> [] | Some e \<Rightarrow> ba_pseudonyms e)\<rparr>"
      by (cases "ban_list_get l account") auto
    with 1(2,5) show ?thesis by (simp add: bans.lookup_some_iff [OF 1(4)])
  qed
  show "ban_list_get (ban_list_ban x l account None) account =
      Some (case ban_list_get l account of None \<Rightarrow> \<lparr>ba_account = account, ba_pseudonyms = []\<rparr> | Some e \<Rightarrow> e)"
    using ban_list_ban_cases [OF srt, of account x None]
  proof cases
    case (1 old)
    from 1(1,2,5) show ?thesis by (auto simp: bans.lookup_some_iff [OF 1(4)] split: option.splits)
  qed
qed

lemma ban_list_ban_valid:
  assumes "validate_ban_list x l = Inr ()"
    and "\<forall>q. p = Some q \<longrightarrow> decoded x q \<noteq> None \<and> (\<forall>e. ban_list_get l account = Some e \<longrightarrow>
        q \<in> set (ba_pseudonyms e) \<or> length (ba_pseudonyms e) < max_banned_pseudonyms_per_account)"
  shows "validate_ban_list x (ban_list_ban x l account p) = Inr ()"
proof -
  from assms(1) have v: "bl_version l = group_format_version" "sorted_by ba_account (bl_banned l)"
    "\<forall>b\<in>set (bl_banned l). validate_banned_account x b = Inr ()" by (simp_all add: validate_ban_list_Inr)
  show ?thesis
    using ban_list_ban_cases [OF v(2), of account x p]
  proof cases
    case (1 old)
    have old: "validate_banned_account x old = Inr ()"
    proof (cases "ban_list_get l account")
      case None
      with 1(1) show ?thesis by (simp add: validate_banned_account_Inr)
    next
      case (Some e)
      with 1(1) bans.lookup_some_iff [OF v(2), of account e] v(3) show ?thesis by simp
    qed
    have "validate_banned_account x (case p of None \<Rightarrow> old
        | Some p \<Rightarrow> old\<lparr>ba_pseudonyms := insert_pseudonym x p (ba_pseudonyms old)\<rparr>) = Inr ()"
    proof (cases p)
      case (Some q)
      with assms(2) have q: "decoded x q \<noteq> None" by blast
      from old have "sorted_by (decoded x) (ba_pseudonyms old)" by (simp add: validate_banned_account_Inr)
      from insert_pseudonym_known [OF this q] old q Some 1(1) assms(2) show ?thesis
        by (auto simp: validate_banned_account_Inr max_banned_pseudonyms_per_account_def split: option.splits)
    qed (use old in simp)
    with v 1(3,4,5) show ?thesis by (auto simp: validate_ban_list_Inr)
  qed
qed

lemma ban_list_unban_get:
  assumes srt: "sorted_by ba_account (bl_banned l)" and "ban_list_unban l account = (l', lifted)"
  shows "lifted = ban_list_get l account" "ban_list_get l' account = None"
    "account' \<noteq> account \<Longrightarrow> ban_list_get l' account' = ban_list_get l account'"
    "validate_ban_list x l = Inr () \<Longrightarrow> validate_ban_list x l' = Inr ()"
proof -
  have "sorted_by ba_account (bl_banned l') \<and> bl_version l' = bl_version l \<and> lifted = ban_list_get l account \<and>
      set (bl_banned l') = {e \<in> set (bl_banned l). ba_account e \<noteq> account}"
  proof (cases "bsearch ba_account account (bl_banned l)")
    case (Inl i)
    with bsearch_Inr_iff_in [OF srt, of account] have "account \<notin> ba_account ` set (bl_banned l)" by auto
    with Inl assms show ?thesis by (auto simp: ban_list_unban_def ban_list_get_def)
  next
    case (Inr i)
    from Inr assms(2) have "l' = l\<lparr>bl_banned := remove_at i (bl_banned l)\<rparr>" "lifted = ban_list_get l account"
      by (simp_all add: ban_list_unban_def ban_list_get_def)
    moreover from bsearch_Inr [OF Inr] sorted_by_remove_at_set [OF srt, of i]
    have "set (remove_at i (bl_banned l)) = {e \<in> set (bl_banned l). ba_account e \<noteq> account}" by simp
    ultimately show ?thesis using sorted_by_remove_at [OF srt, of i] by simp
  qed
  then have l': "sorted_by ba_account (bl_banned l')" "bl_version l' = bl_version l"
    "lifted = ban_list_get l account" "set (bl_banned l') = {e \<in> set (bl_banned l). ba_account e \<noteq> account}"
    by auto
  show "lifted = ban_list_get l account" by (fact l')
  show "ban_list_get l' account = None" by (auto simp: bans.lookup_none_iff [OF l'(1)] l'(4))
  show "ban_list_get l' account' = ban_list_get l account'" if "account' \<noteq> account"
    using that by (intro bans.lookup_other [OF srt l'(1)]) (auto simp: l'(4))
  show "validate_ban_list x l = Inr () \<Longrightarrow> validate_ban_list x l' = Inr ()"
    using l' by (auto simp: validate_ban_list_Inr)
qed

end
