(* ===== verification/Group_Link.thy ===== *)
theory Group_Link
  imports Group_Entry
begin

text \<open>
  A group's invite link (\<open>kutup-chat-proto/src/group/link.rs\<close>): the fixed binary layout a URL
  fragment carries, its one canonical spelling, and the hexadecimal text of the home's document hash.
\<close>

section \<open>Hexadecimal and UTF-8 texts\<close>

text \<open>\<open>char::to_digit(16)\<close>, \<open>u8::from_str_radix(_, 16)\<close> of a short text (a leading \<open>+\<close> is taken;
  two digits cannot overflow) and the format \<open>{:02x}\<close>.\<close>

definition hex_digit :: "char \<Rightarrow> nat option" where
  "hex_digit c = (let n = of_char c :: nat in
     if 48 \<le> n \<and> n \<le> 57 then Some (n - 48)
     else if 97 \<le> n \<and> n \<le> 102 then Some (n - 87)
     else if 65 \<le> n \<and> n \<le> 70 then Some (n - 55) else None)"

fun hex_value :: "nat \<Rightarrow> string \<Rightarrow> nat option" where
  "hex_value acc [] = Some acc"
| "hex_value acc (c # cs) = (case hex_digit c of None \<Rightarrow> None | Some d \<Rightarrow> hex_value (acc * 16 + d) cs)"

definition from_str_radix_16 :: "string \<Rightarrow> u8 option" where
  "from_str_radix_16 s =
     (let digits = (if length s > 1 \<and> hd s = CHR ''+'' then tl s else s)
      in if digits = [] then None else map_option word_of_nat (hex_value 0 digits))"

definition bytes_to_hex :: "bytes \<Rightarrow> string" where
  "bytes_to_hex bs = concat (map hex_byte bs)"

definition hex_to_bytes :: "string \<Rightarrow> string + bytes" where
  "hex_to_bytes hex =
     bindr (require (length hex = 2 * hash_len) ''the identity document hash is 64 hex digits'') (\<lambda>_.
     collectr (\<lambda>i. ok_or (from_str_radix_16 (take 2 (drop (2 * i) hex)))
        ''the identity document hash is hex'') [0..<hash_len])"

text \<open>\<open>String::from_utf8\<close>: the well-formed byte sequences of UTF-8.\<close>

definition utf8_cont :: "u8 \<Rightarrow> bool" where
  "utf8_cont b \<longleftrightarrow> 0x80 \<le> b \<and> b \<le> 0xBF"

fun valid_utf8 :: "bytes \<Rightarrow> bool" where
  "valid_utf8 [] = True"
| "valid_utf8 (a # r) =
     (if a < 0x80 then valid_utf8 r
      else if 0xC2 \<le> a \<and> a \<le> 0xDF then
        (case r of b # s \<Rightarrow> utf8_cont b \<and> valid_utf8 s | _ \<Rightarrow> False)
      else if 0xE0 \<le> a \<and> a \<le> 0xEF then
        (case r of b # c # s \<Rightarrow> utf8_cont b \<and> utf8_cont c \<and> (a = 0xE0 \<longrightarrow> 0xA0 \<le> b) \<and>
             (a = 0xED \<longrightarrow> b \<le> 0x9F) \<and> valid_utf8 s | _ \<Rightarrow> False)
      else if 0xF0 \<le> a \<and> a \<le> 0xF4 then
        (case r of b # c # d # s \<Rightarrow> utf8_cont b \<and> utf8_cont c \<and> utf8_cont d \<and> (a = 0xF0 \<longrightarrow> 0x90 \<le> b) \<and>
             (a = 0xF4 \<longrightarrow> b \<le> 0x8F) \<and> valid_utf8 s | _ \<Rightarrow> False)
      else False)"

section \<open>The link\<close>

definition invite_link_version :: u8 where "invite_link_version = 1"
definition max_server_len :: nat where "max_server_len = 253"

definition fixed_len :: nat where
  "fixed_len = 1 + master_key_len + invite_link_password_len + 8 + hash_len"

record group_invite_link =
  il_master_key :: bytes
  il_password :: bytes
  il_home :: home_pin

definition to_fragment :: "'a ext_scheme \<Rightarrow> group_invite_link \<Rightarrow> string + string" where
  "to_fragment x l =
     bindr (validate_home (il_home l)) (\<lambda>_.
     bindr (hex_to_bytes (pin_identity_document_hash (il_home l))) (\<lambda>hash.
     Inr (url_encode x ([invite_link_version] @ il_master_key l @ il_password l @
        be64 (pin_identity_sequence (il_home l)) @ hash @ bytes_of_string (pin_server (il_home l))))))"

definition strip_hash :: "string \<Rightarrow> string" where
  "strip_hash fragment = (case strip_prefix ''#'' fragment of Some rest \<Rightarrow> rest | None \<Rightarrow> fragment)"

definition from_fragment :: "'a ext_scheme \<Rightarrow> string \<Rightarrow> string + group_invite_link" where
  "from_fragment x fragment =
     (let fragment = strip_hash fragment;
          invalid = ''not a group invite link''
      in bindr (ok_or (url_decode x fragment) invalid) (\<lambda>bs.
         bindr (require (url_encode x bs = fragment) invalid) (\<lambda>_.
         bindr (require (\<not> (length bs \<le> fixed_len \<or> length bs > fixed_len + max_server_len)) invalid) (\<lambda>_.
         bindr (require (hd bs = invite_link_version) ''an invite link of another version'') (\<lambda>_.
         let master_key = take master_key_len (drop 1 bs);
             at = 1 + master_key_len;
             password = take invite_link_password_len (drop at bs);
             at = at + invite_link_password_len;
             identity_sequence = of_be64 (take 8 (drop at bs));
             at = at + 8;
             identity_document_hash = bytes_to_hex (take hash_len (drop at bs));
             at = at + hash_len
         in bindr (require (valid_utf8 (drop at bs)) invalid) (\<lambda>_.
            let home = \<lparr>pin_server = string_of_bytes (drop at bs),
                  pin_identity_sequence = identity_sequence,
                  pin_identity_document_hash = identity_document_hash\<rparr>
            in bindr (validate_home home) (\<lambda>_.
               Inr \<lparr>il_master_key = master_key, il_password = password, il_home = home\<rparr>)))))))"

section \<open>Hexadecimal round trips\<close>

lemma hex_digit_char: "n < 16 \<Longrightarrow> hex_digit (hex_char n) = Some n"
  by (auto simp: hex_digit_def hex_char_def Let_def)

lemma hex_char_digit: "is_lower_hex c \<Longrightarrow> \<exists>n<16. hex_digit c = Some n \<and> hex_char n = c"
  by (auto simp: is_lower_hex_def is_digit_def hex_digit_def hex_char_def Let_def less_eq_char_def)

lemma from_str_radix_hex_byte: "from_str_radix_16 (hex_byte b) = Some b"
proof -
  have b: "unat b < 256" using unsigned_less [of b] by simp
  then have d: "unat b div 16 < 16" by presburger
  have plus: "hex_char (unat b div 16) \<noteq> CHR ''+''"
    using hex_digit_char [of "unat b div 16"] d by (auto simp: hex_digit_def)
  have "hex_value 0 (hex_byte b) = Some (unat b)"
    using b d by (simp add: hex_byte_def hex_digit_char)
  with plus show ?thesis by (simp add: from_str_radix_16_def hex_byte_def)
qed

lemma length_bytes_to_hex [simp]: "length (bytes_to_hex bs) = 2 * length bs"
  by (induction bs) (simp_all add: bytes_to_hex_def hex_byte_def)

lemma bytes_to_hex_chunk: "i < length bs \<Longrightarrow> take 2 (drop (2 * i) (bytes_to_hex bs)) = hex_byte (bs ! i)"
proof (induction bs arbitrary: i)
  case (Cons b bs)
  then show ?case by (cases i) (simp_all add: bytes_to_hex_def hex_byte_def numeral_2_eq_2)
qed simp

lemma hex_to_bytes_to_hex:
  assumes "length bs = hash_len"
  shows "hex_to_bytes (bytes_to_hex bs) = Inr bs"
proof -
  have "map (\<lambda>i. ok_or (from_str_radix_16 (take 2 (drop (2 * i) (bytes_to_hex bs)))) e) [0..<hash_len] = map Inr bs"
    for e :: string
    using assms by (auto intro!: nth_equalityI simp: bytes_to_hex_chunk from_str_radix_hex_byte)
  with assms show ?thesis by (simp add: hex_to_bytes_def collectr_Inr_iff)
qed

lemma lower_hex_chunk:
  assumes "list_all is_lower_hex [c, d]" "from_str_radix_16 [c, d] = Some b"
  shows "hex_byte b = [c, d]"
proof -
  from assms(1) obtain m n where mn: "m < 16" "hex_digit c = Some m" "hex_char m = c"
    "n < 16" "hex_digit d = Some n" "hex_char n = d"
    using hex_char_digit [of c] hex_char_digit [of d] by auto
  then have plus: "c \<noteq> CHR ''+''" by (auto simp: hex_digit_def)
  with assms(2) mn have "b = word_of_nat (m * 16 + n)"
    by (simp add: from_str_radix_16_def del: of_nat_add of_nat_mult)
  moreover have "m * 16 + n < 256" using mn by simp
  ultimately have "unat b = m * 16 + n"
    by (simp add: unat_of_nat take_bit_eq_mod del: of_nat_add of_nat_mult)
  with mn show ?thesis by (simp add: hex_byte_def)
qed

lemma two_chunks: "length s = 2 * n \<Longrightarrow> concat (map (\<lambda>i. take 2 (drop (2 * i) s)) [0..<n]) = s"
proof (induction n arbitrary: s)
  case (Suc n)
  then obtain c d r where s: "s = c # d # r" "length r = 2 * n"
    by (auto simp: length_Suc_conv numeral_2_eq_2)
  have "map (\<lambda>i. take 2 (drop (2 * i) s)) [0..<Suc n] = take 2 s # map (\<lambda>i. take 2 (drop (2 * i) r)) [0..<n]"
    by (simp add: upt_conv_Cons map_Suc_upt [symmetric] s(1) del: upt_Suc)
  with Suc.IH [OF s(2)] s(1) show ?case by (simp add: numeral_2_eq_2)
qed simp

lemma bytes_to_hex_to_bytes:
  assumes "hex_to_bytes s = Inr bs" "list_all is_lower_hex s"
  shows "bytes_to_hex bs = s" "length bs = hash_len"
proof -
  from assms(1) have l: "length s = 2 * hash_len" and
    m: "map (\<lambda>i. from_str_radix_16 (take 2 (drop (2 * i) s))) [0..<hash_len] = map Some bs"
    by (auto simp: hex_to_bytes_def collectr_Inr_iff list_eq_iff_nth_eq)
  from m have lb: "length bs = hash_len" by (metis length_map length_upt minus_nat.diff_0)
  have "hex_byte (bs ! i) = take 2 (drop (2 * i) s)" if i: "i < hash_len" for i
  proof -
    from i l have "2 * i + 1 < length s" by simp
    then obtain c d where cd: "take 2 (drop (2 * i) s) = [c, d]"
      by (metis Cons_nth_drop_Suc add_lessD1 numeral_2_eq_2 plus_1_eq_Suc add.commute take_Suc_Cons take0)
    then have "list_all is_lower_hex [c, d]"
      using assms(2) by (metis in_set_dropD in_set_takeD list_all_iff)
    moreover from m i lb have "from_str_radix_16 [c, d] = Some (bs ! i)"
      unfolding cd [symmetric] by (auto simp: list_eq_iff_nth_eq)
    ultimately show ?thesis using lower_hex_chunk cd by simp
  qed
  then have "map hex_byte bs = map (\<lambda>i. take 2 (drop (2 * i) s)) [0..<hash_len]"
    using lb by (auto intro: nth_equalityI)
  with two_chunks [OF l] show "bytes_to_hex bs = s" by (simp add: bytes_to_hex_def)
  show "length bs = hash_len" by (fact lb)
qed

section \<open>The link round trip\<close>

lemma ascii_valid_utf8: "list_all (\<lambda>b. b < 0x80) bs \<Longrightarrow> valid_utf8 bs"
  by (induction bs rule: valid_utf8.induct) auto

lemma valid_server_ascii:
  assumes "valid_server s"
  shows "valid_utf8 (bytes_of_string s)"
proof (rule ascii_valid_utf8, unfold list_all_iff, rule)
  fix b
  assume "b \<in> set (bytes_of_string s)"
  then obtain c where c: "c \<in> set s" "b = word_of_nat (of_char c)" by (auto simp: bytes_of_string_def)
  from c(1) assms have "c = CHR ''.'' \<or> is_lower c \<or> is_digit c \<or> c = CHR ''-''"
    using split_on_chars [OF c(1), of "CHR ''.''"]
    by (auto simp: valid_server_def list_all_iff valid_label_def)
  then have "(of_char c :: nat) < 128"
    by (auto simp: is_lower_def is_digit_def less_eq_char_def)
  then show "b < 0x80" by (simp add: c(2) word_less_nat_alt unat_of_nat take_bit_eq_mod)
qed

lemma strip_hash_simps: "strip_hash (CHR ''#'' # f) = f" "hd f \<noteq> CHR ''#'' \<or> f = [] \<Longrightarrow> strip_hash f = f"
  by (cases f; simp add: strip_hash_def strip_prefix_def)+

lemma validate_home_Inr:
  "validate_home h = Inr u \<longleftrightarrow> valid_server (pin_server h) \<and>
     length (pin_identity_document_hash h) = 2 * hash_len \<and> list_all is_lower_hex (pin_identity_document_hash h)"
  by (auto simp: validate_home_def)

lemma from_fragment_bytes:
  assumes "length mk = 32" "length pw = 16" "length h = hash_len" "validate_home home = Inr ()"
    "hex_to_bytes (pin_identity_document_hash home) = Inr h" "url_decode x f = Some bs" "url_encode x bs = f"
    and bs: "bs = [invite_link_version] @ mk @ pw @ be64 (pin_identity_sequence home) @ h @
      bytes_of_string (pin_server home)" and f: "strip_hash g = f"
  shows "from_fragment x g = Inr \<lparr>il_master_key = mk, il_password = pw, il_home = home\<rparr>"
proof -
  from assms(4) have home: "valid_server (pin_server home)" "list_all is_lower_hex (pin_identity_document_hash home)"
    by (simp_all add: validate_home_Inr)
  from home(1) have srv: "pin_server home \<noteq> []" "length (pin_server home) \<le> 253" by (auto simp: valid_server_def)
  have hex: "bytes_to_hex h = pin_identity_document_hash home"
    using bytes_to_hex_to_bytes(1) [OF assms(5) home(2)] .
  have lb: "length (bytes_of_string s) = length s" for s by (simp add: bytes_of_string_def)
  from assms(1-4,6,7) f srv hex valid_server_ascii [OF home(1)] show ?thesis
    by - (cases home, simp add: from_fragment_def bs fixed_len_def master_key_len_def invite_link_password_len_def hash_len_def
        max_server_len_def Let_def lb)
qed

lemma to_fragment_Inr:
  "to_fragment x l = Inr f \<longleftrightarrow> validate_home (il_home l) = Inr () \<and>
     (\<exists>h. hex_to_bytes (pin_identity_document_hash (il_home l)) = Inr h \<and>
       f = url_encode x ([invite_link_version] @ il_master_key l @ il_password l @
         be64 (pin_identity_sequence (il_home l)) @ h @ bytes_of_string (pin_server (il_home l))))"
  by (auto simp: to_fragment_def)

lemma from_to_fragment:
  assumes "\<And>b. url_decode x (url_encode x b) = Some b" "length (il_master_key l) = 32"
    "length (il_password l) = 16" "to_fragment x l = Inr f" "strip_hash g = f"
  shows "from_fragment x g = Inr l"
proof -
  from assms(4) obtain h where h: "validate_home (il_home l) = Inr ()"
    "hex_to_bytes (pin_identity_document_hash (il_home l)) = Inr h"
    "f = url_encode x ([invite_link_version] @ il_master_key l @ il_password l @
       be64 (pin_identity_sequence (il_home l)) @ h @ bytes_of_string (pin_server (il_home l)))"
    by (auto simp: to_fragment_Inr)
  from h(1,2) have "length h = hash_len" using bytes_to_hex_to_bytes(2) by (auto simp: validate_home_Inr)
  then have "from_fragment x g = Inr \<lparr>il_master_key = il_master_key l, il_password = il_password l, il_home = il_home l\<rparr>"
    by (rule from_fragment_bytes [OF assms(2,3) _ h(1,2) _ _ refl assms(5)]) (simp_all only: h(3) assms(1))
  then show ?thesis by simp
qed

lemma to_from_fragment:
  assumes "from_fragment x g = Inr l"
  shows "to_fragment x l = Inr (strip_hash g)"
    "length (il_master_key l) = 32 \<and> length (il_password l) = 16"
proof -
  from assms obtain bs where bs: "url_decode x (strip_hash g) = Some bs" "url_encode x bs = strip_hash g"
    "\<not> (length bs \<le> fixed_len \<or> length bs > fixed_len + max_server_len)" "hd bs = invite_link_version"
    "validate_home (il_home l) = Inr ()"
    and l: "l = \<lparr>il_master_key = take 32 (drop 1 bs), il_password = take 16 (drop 33 bs),
      il_home = \<lparr>pin_server = string_of_bytes (drop 89 bs), pin_identity_sequence = of_be64 (take 8 (drop 49 bs)),
        pin_identity_document_hash = bytes_to_hex (take 32 (drop 57 bs))\<rparr>\<rparr>"
    by (auto simp: from_fragment_def Let_def master_key_len_def invite_link_password_len_def hash_len_def)
  from bs(3) have len: "length bs > 89"
    by (simp add: fixed_len_def master_key_len_def invite_link_password_len_def hash_len_def)
  then show "length (il_master_key l) = 32 \<and> length (il_password l) = 16" by (simp add: l)
  have hash: "hex_to_bytes (pin_identity_document_hash (il_home l)) = Inr (take 32 (drop 57 bs))"
    using len by (simp add: l hex_to_bytes_to_hex hash_len_def)
  have "bs = [hd bs] @ take 32 (drop 1 bs) @ take 16 (drop 33 bs) @ take 8 (drop 49 bs) @
      take 32 (drop 57 bs) @ drop 89 bs"
  proof -
    have "drop 33 bs = drop 32 (drop 1 bs)" "drop 49 bs = drop 16 (drop 33 bs)"
      "drop 57 bs = drop 8 (drop 49 bs)" "drop 89 bs = drop 32 (drop 57 bs)" by simp_all
    then have "take 32 (drop 1 bs) @ take 16 (drop 33 bs) @ take 8 (drop 49 bs) @ take 32 (drop 57 bs) @ drop 89 bs
      = drop 1 bs" by (simp only: append_take_drop_id)
    moreover have "bs = [hd bs] @ drop 1 bs" using len by (cases bs) auto
    ultimately show ?thesis by simp
  qed
  then have "bs = [invite_link_version] @ il_master_key l @ il_password l @
      be64 (pin_identity_sequence (il_home l)) @ take 32 (drop 57 bs) @ bytes_of_string (pin_server (il_home l))"
    using len bs(4) by (simp add: l be64_of_be64)
  with bs(2,5) hash show "to_fragment x l = Inr (strip_hash g)" by (auto simp: to_fragment_Inr)
qed

end
