(* ===== verification/Group_Record.thy ===== *)
theory Group_Record
  imports Group_Log Group_Notary Group_Link Padding
begin

text \<open>
  A device's view of a group (\<open>kutup-chat-core/src/group.rs\<close>): the record it keeps, the changes and
  states it accepts from the home, the changes it authors, how it joins, and how it compares a
  message's group context with its own.  The record's group-send endorsements are not modelled: no
  function here reads them.  A function that takes \<open>&mut GroupRecordV1\<close> returns the new record; on an
  error the caller drops the record it passed.
\<close>

section \<open>Data\<close>

record book_device =
  bd_account :: string
  bd_device_id :: u32
  bd_registration_id :: u32

record queued_key =
  qk_device :: book_device
  qk_at_ms :: int

record sender_book =
  sb_distribution_id :: string
  sb_created_at_ms :: int
  sb_devices :: "book_device list"
  sb_queued :: "queued_key list"

definition queued_key_wait_ms :: int where "queued_key_wait_ms = 60 * 60 * 1000"
definition sender_key_max_age_ms :: int where "sender_key_max_age_ms = 90 * 24 * 60 * 60 * 1000"

datatype group_status =
    Invited (inv_slot_id: string) (inv_slot_revision: u64) (inv_claim_key_seed: string) (inv_inviter: string)
      (inv_title: "string option")
  | Requesting
  | StatusMember
  | Gone

record group_record =
  gr_version :: u16
  gr_group_id :: string
  gr_master_key :: string
  gr_home :: home_pin
  gr_pseudonym_seed :: string
  gr_status :: group_status
  gr_min_revision :: u64
  gr_state :: "string option"
  gr_head :: "string option"
  gr_notary_sequence :: "u64 option"
  gr_gateway :: gateway_cache
  gr_not_found_since_ms :: "int option"
  gr_sender_book :: "sender_book option"
  gr_synced_at_ms :: "int option"
  gr_fork_at_revision :: "u64 option"
  gr_fork_sender :: "string option"
  gr_known_since_ms :: "int option"
  gr_listed_status :: "group_list_status option"
  gr_list_due_at_ms :: "int option"
  gr_join_epoch :: u32

datatype group_error =
    Change group_change_error
  | Notary
  | RecordError string
  | Sealed string

abbreviation rec_err :: "string + 'a \<Rightarrow> group_error + 'a" where
  "rec_err \<equiv> map_err RecordError"

abbreviation crypt_err :: "crypto_error + 'a \<Rightarrow> group_error + 'a" where
  "crypt_err \<equiv> map_err (\<lambda>e. RecordError (crypto_error_text e))"

text \<open>The JSON of a member entry, a slot entry and a ban list.\<close>

record client_ext = route_ext +
  member_entry_to_json :: "group_member_entry \<Rightarrow> bytes option"
  member_entry_from_json :: "bytes \<Rightarrow> group_member_entry option"
  slot_entry_to_json :: "group_slot_entry \<Rightarrow> bytes option"
  ban_list_to_json :: "group_ban_list \<Rightarrow> bytes option"
  ban_list_from_json :: "bytes \<Rightarrow> group_ban_list option"

section \<open>The sender book\<close>

definition sender_book_new :: "string \<Rightarrow> int \<Rightarrow> sender_book" where
  "sender_book_new uuid now_ms =
     \<lparr>sb_distribution_id = uuid, sb_created_at_ms = now_ms, sb_devices = [], sb_queued = []\<rparr>"

definition must_rotate :: "sender_book \<Rightarrow> int \<Rightarrow> book_device list \<Rightarrow> bool" where
  "must_rotate b now_ms current \<longleftrightarrow>
     i64_saturate (now_ms - sb_created_at_ms b) \<ge> sender_key_max_age_ms \<or>
     any (\<lambda>held. held \<notin> set current) (sb_devices b)"

definition missing :: "sender_book \<Rightarrow> book_device list \<Rightarrow> int \<Rightarrow> book_device list" where
  "missing b current now_ms =
     filter (\<lambda>d. \<not> any (\<lambda>q. qk_device q = d \<and> i64_saturate (now_ms - qk_at_ms q) < queued_key_wait_ms) (sb_queued b))
       (filter (\<lambda>d. d \<notin> set (sb_devices b)) current)"

section \<open>Reading the record\<close>

definition master_at :: "'a ext_scheme \<Rightarrow> string \<Rightarrow> string \<Rightarrow> home_pin \<Rightarrow> group_error + group_master_key" where
  "master_at x master_key group_id home =
     bindr (rec_err (decode_exact x 32 ''masterKey'' master_key)) (\<lambda>bs.
     bindr (crypt_err (master_from_bytes x bs home)) (\<lambda>master.
     bindr (rec_err (decode_group_id x group_id)) (\<lambda>gid.
     bindr (require (group_id_of x master = gid) (RecordError ''the key is not this group's at this home'')) (\<lambda>_.
     Inr master))))"

definition record_master :: "'a ext_scheme \<Rightarrow> group_record \<Rightarrow> group_error + group_master_key" where
  "record_master x r = master_at x (gr_master_key r) (gr_group_id r) (gr_home r)"

definition record_pseudonym :: "'a ext_scheme \<Rightarrow> group_record \<Rightarrow> group_error + group_key_pair" where
  "record_pseudonym x r =
     bindr (rec_err (decode_exact x 32 ''pseudonymSeed'' (gr_pseudonym_seed r))) (\<lambda>seed.
     Inr (key_pair_from_seed x seed))"

definition pseudonym_text :: "'a ext_scheme \<Rightarrow> group_record \<Rightarrow> group_error + string" where
  "pseudonym_text x r = bindr (record_pseudonym x r) (\<lambda>k. Inr (encode x (kp_public k)))"

definition base64_decode :: "'a ext_scheme \<Rightarrow> string \<Rightarrow> group_error + bytes" where
  "base64_decode x v = ok_or (std_decode x v) (RecordError ''base64'')"

definition verified :: "'a group_ext_scheme \<Rightarrow> group_record \<Rightarrow> group_error + (group_state \<times> bytes) option" where
  "verified x r =
     (case (gr_state r, gr_head r) of
        (Some state, Some head) \<Rightarrow>
          bindr (base64_decode x state) (\<lambda>bs.
          bindr (rec_err (state_from_canonical_bytes x bs)) (\<lambda>state.
          bindr (rec_err (decode_exact x hash_len ''head'' head)) (\<lambda>head.
          Inr (Some (state, head)))))
      | _ \<Rightarrow> Inr None)"

definition is_my_slot :: "group_record \<Rightarrow> string \<Rightarrow> bool" where
  "is_my_slot r slot_id = (case gr_status r of Invited mine _ _ _ _ \<Rightarrow> mine = slot_id | _ \<Rightarrow> False)"

definition is_invited :: "group_record \<Rightarrow> bool" where
  "is_invited r = (case gr_status r of Invited _ _ _ _ _ \<Rightarrow> True | _ \<Rightarrow> False)"

definition status_in :: "group_record \<Rightarrow> group_state \<Rightarrow> string \<Rightarrow> group_status" where
  "status_in r s me =
     (if member s me \<noteq> None then StatusMember
      else if any (\<lambda>q. r_pseudonym q = me) (st_requesting s) then Requesting
      else if is_invited r \<and> any (\<lambda>slot. is_my_slot r (s_slot_id slot)) (st_slots s) then gr_status r
      else Gone)"

definition set_verified :: "'a group_ext_scheme \<Rightarrow> group_record \<Rightarrow> group_state \<Rightarrow> bytes \<Rightarrow> group_error + group_record" where
  "set_verified x r s head =
     bindr (rec_err (state_canonical_bytes x s)) (\<lambda>bs.
     let r = r\<lparr>gr_state := Some (encode x bs), gr_head := Some (encode x head)\<rparr>
     in bindr (pseudonym_text x r) (\<lambda>me. Inr (r\<lparr>gr_status := status_in r s me\<rparr>)))"

definition followed_history :: "'a ext_scheme \<Rightarrow> group_record \<Rightarrow> group_error + identity_document list" where
  "followed_history x r =
     (let history = ca_identity_history (gr_gateway r)
      in bindr (map_err (\<lambda>_. Notary) (follow x (gr_home r) history)) (\<lambda>current.
         bindr (require (fd_server current = pin_server (gr_home r)) Notary) (\<lambda>_.
         Inr history)))"

definition regressed :: "group_record \<Rightarrow> group_record \<Rightarrow> u64 \<Rightarrow> bool" where
  "regressed r stored old =
     (case gr_status r of Invited _ slot_revision _ _ _ \<Rightarrow> \<not> is_invited stored \<and> slot_revision \<le> old | _ \<Rightarrow> False)"

definition may_replace :: "'a group_ext_scheme \<Rightarrow> group_record \<Rightarrow> group_record \<Rightarrow> group_error + unit" where
  "may_replace x r stored =
     bindr (require (gr_group_id r = gr_group_id stored) (RecordError ''another group's record'')) (\<lambda>_.
     bindr (verified x r) (\<lambda>mine.
     bindr (verified x stored) (\<lambda>theirs.
     case (mine, theirs) of
       (_, None) \<Rightarrow> Inr ()
     | (None, Some _) \<Rightarrow> Inl (RecordError ''a verified group state can't be dropped'')
     | (Some (new_state, new_head), Some (old_state, old_head)) \<Rightarrow>
         (let new = st_revision new_state; old = st_revision old_state in
          if new = old \<and> new_head = old_head \<and> regressed r stored old
          then Inl (RecordError ''a stale write can't bring back an invitation'')
          else if new > old \<or> (new = old \<and> new_head = old_head) then Inr ()
          else if new = old then Inl (RecordError ''another state at the same revision (a fork)'')
          else Inl (RecordError ''an older group state than the one stored'')))))"

section \<open>Accepting what the home serves\<close>

definition member_entry_bytes :: "'a client_ext_scheme \<Rightarrow> group_member_entry \<Rightarrow> string + bytes" where
  "member_entry_bytes x = canonical_json_bytes (validate_member_entry x) (member_entry_to_json x)"

definition member_entry_from_bytes :: "'a client_ext_scheme \<Rightarrow> bytes \<Rightarrow> string + group_member_entry" where
  "member_entry_from_bytes x =
     from_canonical_json_bytes ''group member entry'' (validate_member_entry x) (member_entry_to_json x)
       (member_entry_from_json x)"

definition accept_genesis :: "'a client_ext_scheme \<Rightarrow> group_record \<Rightarrow> group_change \<Rightarrow> group_error + group_state" where
  "accept_genesis x r c =
     bindr (map_err Change (check_genesis x c (gr_home r) limits_max)) (\<lambda>first.
     bindr (ok_or (case st_members first of [] \<Rightarrow> None | m # _ \<Rightarrow> Some m) (RecordError ''a genesis without its creator''))
       (\<lambda>creator.
     bindr (record_master x r) (\<lambda>master.
     bindr (rec_err (decode_exact x 32 ''pseudonym'' (m_pseudonym creator))) (\<lambda>subject.
     bindr (base64_decode x (m_entry creator)) (\<lambda>sealed.
     bindr (map_err (\<lambda>_. RecordError ''the creator's entry doesn't open'')
       (field_open x (state_key x master) FMemberEntry subject sealed)) (\<lambda>plain.
     bindr (rec_err (member_entry_from_bytes x plain)) (\<lambda>_.
     Inr first)))))))"

definition accept_change ::
  "'a client_ext_scheme \<Rightarrow> group_record \<Rightarrow> group_change \<Rightarrow> group_notary \<Rightarrow> group_error + group_record \<times> group_state" where
  "accept_change x r c notary =
     bindr (require (ch_group_id c = gr_group_id r) (Change WrongGroup)) (\<lambda>_.
     bindr (verified x r) (\<lambda>held.
     bindr (case held of
         None \<Rightarrow> if ch_revision c = 0 then accept_genesis x r c
                 else Inl (RecordError ''a change before any verified state'')
       | Some (state, head) \<Rightarrow> map_err Change (check_change x state head c limits_max)) (\<lambda>next.
     bindr (rec_err (hash_of_change x c)) (\<lambda>hash.
     bindr (rec_err (decode_group_id x (gr_group_id r))) (\<lambda>group_id.
     bindr (followed_history x r) (\<lambda>history.
     bindr (rec_err (hash_of_state x next)) (\<lambda>sh.
     bindr (map_err (\<lambda>_. Notary)
       (notary_verify x notary history (gr_notary_sequence r) group_id (ch_revision c) hash sh)) (\<lambda>_.
     bindr (set_verified x r next hash) (\<lambda>r.
     Inr (r\<lparr>gr_notary_sequence := Some (no_identity_sequence notary)\<rparr>, next))))))))))"

definition accept_state ::
  "'a client_ext_scheme \<Rightarrow> group_record \<Rightarrow> group_state \<Rightarrow> group_change \<Rightarrow> group_notary \<Rightarrow> group_error + group_record" where
  "accept_state x r s latest notary =
     bindr (rec_err (validate_state x s)) (\<lambda>_.
     bindr (require (\<not> (st_group_id s \<noteq> gr_group_id r \<or> ch_group_id latest \<noteq> gr_group_id r \<or>
         ch_revision latest \<noteq> st_revision s \<or> st_home s \<noteq> gr_home r)) (Change WrongGroup)) (\<lambda>_.
     bindr (verified x r) (\<lambda>kept.
     bindr (require (\<not> (kept \<noteq> None \<and> \<not> (is_invited r \<or> gr_status r = Requesting)))
       (RecordError ''a member catches up through the log'')) (\<lambda>_.
     bindr (require (case kept of None \<Rightarrow> True | Some (k, _) \<Rightarrow> \<not> st_revision s \<le> st_revision k)
       (Change WrongRevision)) (\<lambda>_.
     bindr (require (\<not> st_revision s < gr_min_revision r) (Change WrongRevision)) (\<lambda>_.
     bindr (pseudonym_text x r) (\<lambda>me.
     bindr (require (member s me \<noteq> None) (Change NotMember)) (\<lambda>_.
     bindr (rec_err (hash_of_change x latest)) (\<lambda>hash.
     bindr (rec_err (decode_group_id x (gr_group_id r))) (\<lambda>group_id.
     bindr (followed_history x r) (\<lambda>history.
     bindr (rec_err (hash_of_state x s)) (\<lambda>sh.
     bindr (map_err (\<lambda>_. Notary)
       (notary_verify x notary history (if kept = None then None else gr_notary_sequence r) group_id
          (st_revision s) hash sh)) (\<lambda>_.
     bindr (set_verified x r s hash) (\<lambda>r.
     Inr (r\<lparr>gr_notary_sequence := Some (no_identity_sequence notary)\<rparr>)))))))))))))))"

section \<open>Authoring\<close>

definition seal_member_entry ::
  "'a client_ext_scheme \<Rightarrow> bytes \<Rightarrow> group_state_key \<Rightarrow> bytes \<Rightarrow> bytes \<Rightarrow> account_ref \<Rightarrow> bytes \<Rightarrow> bytes \<Rightarrow> group_error + string" where
  "seal_member_entry x nonce key group_id pseudonym me profile_key authority_seed =
     bindr (ok_or (sign_binding x authority_seed group_id pseudonym me) (RecordError ''checked when made'')) (\<lambda>signature.
     let entry = \<lparr>me_version = group_format_version, me_account = me, me_profile_key = encode x profile_key,
           me_binding_signature = encode x signature\<rparr>
     in bindr (rec_err (member_entry_bytes x entry)) (\<lambda>plain.
        bindr (crypt_err (field_seal x nonce key FMemberEntry pseudonym plain)) (\<lambda>sealed.
        Inr (encode x sealed))))"

definition sign_group_change ::
  "'a group_ext_scheme \<Rightarrow> group_change \<Rightarrow> group_key_pair \<Rightarrow> group_state \<Rightarrow> group_error + group_change" where
  "sign_group_change x c actor next =
     bindr (if is_newcomers_change c then Inr c
            else bindr (rec_err (hash_of_state x next)) (\<lambda>h. Inr (c\<lparr>ch_resulting_state_hash := Some (encode x h)\<rparr>)))
       (\<lambda>c.
     bindr (rec_err (signed_bytes x c)) (\<lambda>bs.
     Inr (c\<lparr>ch_signature := encode x (sign_change x actor bs)\<rparr>)))"

definition author_change :: "'a group_ext_scheme \<Rightarrow> group_record \<Rightarrow> group_action list \<Rightarrow> group_error + group_change" where
  "author_change x r actions =
     bindr (verified x r) (\<lambda>held.
     bindr (ok_or held (RecordError ''no verified state yet'')) (\<lambda>(state, head).
     bindr (record_pseudonym x r) (\<lambda>pseudonym.
     let change = \<lparr>ch_version = group_format_version, ch_group_id = gr_group_id r,
           ch_revision = st_revision state + 1, ch_previous_hash = encode x head,
           ch_actor = encode x (kp_public pseudonym), ch_actions = actions,
           ch_resulting_state_hash = Some (encode x (replicate hash_len 0)), ch_signature = ''''\<rparr>
     in bindr (map_err Change (resulting_state x state head change limits_max)) (\<lambda>next.
        sign_group_change x change pseudonym next))))"

definition fresh_record :: "'a ext_scheme \<Rightarrow> string \<Rightarrow> string \<Rightarrow> home_pin \<Rightarrow> bytes \<Rightarrow> group_status \<Rightarrow> u64 \<Rightarrow> u32 \<Rightarrow> group_record" where
  "fresh_record x group_id master_key home seed status min_revision join_epoch =
     \<lparr>gr_version = group_format_version, gr_group_id = group_id, gr_master_key = master_key, gr_home = home,
      gr_pseudonym_seed = encode x seed, gr_status = status, gr_min_revision = min_revision,
      gr_state = None, gr_head = None, gr_notary_sequence = None, gr_gateway = gateway_cache_default,
      gr_not_found_since_ms = None, gr_sender_book = None, gr_synced_at_ms = None, gr_fork_at_revision = None,
      gr_fork_sender = None, gr_known_since_ms = None, gr_listed_status = None, gr_list_due_at_ms = None,
      gr_join_epoch = join_epoch\<rparr>"

text \<open>The account's keys: the authority's seed and the account master key pseudonyms derive from.\<close>

record account_keys =
  ak_authority_seed :: bytes
  ak_master_key :: bytes

definition create_group ::
  "'a client_ext_scheme \<Rightarrow> bytes \<Rightarrow> bytes \<Rightarrow> home_pin \<Rightarrow> account_ref \<Rightarrow> bytes \<Rightarrow> account_keys \<Rightarrow>
   group_error + group_record \<times> group_change" where
  "create_group x random_key nonce home me profile_key keys =
     bindr (crypt_err (master_generate x random_key home)) (\<lambda>master.
     let gid = group_id_of x master; pseudonym = pseudonym_at x (ak_master_key keys) gid 0
     in bindr (seal_member_entry x nonce (state_key x master) gid (kp_public pseudonym) me profile_key
          (ak_authority_seed keys)) (\<lambda>entry.
        let change = \<lparr>ch_version = group_format_version, ch_group_id = encode_group_id x gid, ch_revision = 0,
              ch_previous_hash = encode x (replicate hash_len 0), ch_actor = encode x (kp_public pseudonym),
              ch_actions = [Genesis home access_default entry],
              ch_resulting_state_hash = Some (encode x (replicate hash_len 0)), ch_signature = ''''\<rparr>
        in bindr (map_err Change (resulting_genesis_state x change home limits_max)) (\<lambda>first.
           bindr (sign_group_change x change pseudonym first) (\<lambda>change.
           Inr (fresh_record x (ch_group_id change) (encode x (gm_key master)) home (kp_seed pseudonym)
              StatusMember 0 0, change)))))"

section \<open>Joining\<close>

definition max_join_epochs :: u32 where "max_join_epochs = 64"

definition within_join_epochs :: "u32 \<Rightarrow> group_error + u32" where
  "within_join_epochs epoch =
     bindr (require (\<not> epoch \<ge> max_join_epochs)
       (RecordError ''this account has joined this group as often as it can'')) (\<lambda>_. Inr epoch)"

definition listed_join_epoch :: "(group_list_status \<times> u32) option \<Rightarrow> u32 option" where
  "listed_join_epoch listed =
     map_option (\<lambda>(status, epoch). case status of ListMember \<Rightarrow> epoch | ListGone \<Rightarrow> saturating_add epoch 1) listed"

fun epoch_after :: "group_status \<Rightarrow> u32 \<Rightarrow> u32" where
  "epoch_after (Invited _ _ _ _ _) epoch = epoch"
| "epoch_after Requesting epoch = epoch"
| "epoch_after StatusMember epoch = saturating_add epoch 1"
| "epoch_after Gone epoch = saturating_add epoch 1"

definition option_list :: "'a option \<Rightarrow> 'a list" where
  "option_list v = (case v of None \<Rightarrow> [] | Some a \<Rightarrow> [a])"

definition next_join_epoch :: "group_record option \<Rightarrow> (group_list_status \<times> u32) option \<Rightarrow> group_error + u32" where
  "next_join_epoch previous listed =
     within_join_epochs (foldr max
       (option_list (map_option (\<lambda>p. epoch_after (gr_status p) (gr_join_epoch p)) previous) @
        option_list (listed_join_epoch listed)) 0)"

definition invite_replaces :: "'a group_ext_scheme \<Rightarrow> group_invite \<Rightarrow> group_record \<Rightarrow> group_record \<Rightarrow> group_error + unit" where
  "invite_replaces x invite r previous =
     (let replaceable = (case gr_status previous of Gone \<Rightarrow> True
            | Invited _ slot_revision _ _ _ \<Rightarrow> iv_slot_revision invite > slot_revision
            | StatusMember \<Rightarrow> False | Requesting \<Rightarrow> False)
      in bindr (require (\<not> (gr_group_id previous \<noteq> gr_group_id r \<or> \<not> replaceable))
           (RecordError ''only an ended membership or an older invitation takes a new one'')) (\<lambda>_.
         bindr (require (gr_home previous = gr_home r) (RecordError ''the invitation names another home'')) (\<lambda>_.
         bindr (verified x previous) (\<lambda>held.
         require (case held of None \<Rightarrow> True | Some (s, _) \<Rightarrow> \<not> iv_slot_revision invite \<le> st_revision s)
           (RecordError ''an invitation older than the state held'')))))"

definition keep_verified :: "group_record \<Rightarrow> group_record \<Rightarrow> u64 \<Rightarrow> group_record" where
  "keep_verified r previous min_revision =
     r\<lparr>gr_state := gr_state previous, gr_head := gr_head previous,
       gr_notary_sequence := gr_notary_sequence previous, gr_gateway := gr_gateway previous,
       gr_min_revision := min_revision\<rparr>"

definition record_from_invite ::
  "'a group_ext_scheme \<Rightarrow> group_invite \<Rightarrow> string \<Rightarrow> group_record option \<Rightarrow> (group_list_status \<times> u32) option \<Rightarrow>
   account_keys \<Rightarrow> group_error + group_record" where
  "record_from_invite x invite inviter previous listed keys =
     bindr (rec_err (validate_invite x invite)) (\<lambda>_.
     bindr (map_err (\<lambda>_. RecordError ''the invitation's key is not its group's'')
       (master_at x (iv_master_key invite) (iv_group_id invite) (iv_home invite))) (\<lambda>_.
     bindr (rec_err (decode_group_id x (iv_group_id invite))) (\<lambda>group_id.
     bindr (next_join_epoch previous listed) (\<lambda>join_epoch.
     let pseudonym = pseudonym_at x (ak_master_key keys) group_id join_epoch;
         r = fresh_record x (iv_group_id invite) (iv_master_key invite) (iv_home invite) (kp_seed pseudonym)
           (Invited (iv_slot_id invite) (iv_slot_revision invite) (iv_claim_key_seed invite) inviter (iv_title invite))
           (iv_slot_revision invite) join_epoch
     in case previous of None \<Rightarrow> Inr r
        | Some previous \<Rightarrow>
            bindr (invite_replaces x invite r previous) (\<lambda>_.
            Inr (keep_verified r previous (max (gr_min_revision r) (gr_min_revision previous))))))))"

definition record_from_link ::
  "'a ext_scheme \<Rightarrow> group_invite_link \<Rightarrow> group_record option \<Rightarrow> (group_list_status \<times> u32) option \<Rightarrow>
   account_keys \<Rightarrow> group_error + group_record" where
  "record_from_link x link previous listed keys =
     bindr (map_err (\<lambda>_. RecordError ''the link's group key and home don't make a group'')
       (master_from_bytes x (il_master_key link) (il_home link))) (\<lambda>master.
     let gid = group_id_of x master; group_text = encode_group_id x gid
     in bindr (next_join_epoch previous listed) (\<lambda>join_epoch.
        bindr (case previous of None \<Rightarrow> Inr ()
          | Some p \<Rightarrow>
              bindr (require (\<not> (gr_group_id p \<noteq> group_text \<or> gr_home p \<noteq> il_home link))
                (RecordError ''the link names another group'')) (\<lambda>_.
              require (gr_status p \<noteq> StatusMember) (RecordError ''this account is in the group already''))) (\<lambda>_.
        let r = fresh_record x group_text (encode x (gm_key master)) (il_home link)
              (kp_seed (pseudonym_at x (ak_master_key keys) gid join_epoch)) Requesting 0 join_epoch
        in Inr (case previous of None \<Rightarrow> r | Some p \<Rightarrow> keep_verified r p (gr_min_revision p)))))"

record claim_basis =
  cb_revision :: u64
  cb_head :: bytes

definition claim_key_seed :: "'a ext_scheme \<Rightarrow> group_record \<Rightarrow> group_error + bytes" where
  "claim_key_seed x r =
     (case gr_status r of
        Invited _ _ seed _ _ \<Rightarrow> rec_err (decode_exact x 32 ''claimKeySeed'' seed)
      | _ \<Rightarrow> Inl (RecordError ''no invitation to claim''))"

text \<open>A newcomer's change: one action, no resulting state, signed by the pseudonym.\<close>

definition newcomer_change ::
  "'a group_ext_scheme \<Rightarrow> group_record \<Rightarrow> claim_basis \<Rightarrow> group_key_pair \<Rightarrow> group_action \<Rightarrow> group_error + group_change" where
  "newcomer_change x r basis pseudonym action =
     (let change = \<lparr>ch_version = group_format_version, ch_group_id = gr_group_id r,
            ch_revision = cb_revision basis + 1, ch_previous_hash = encode x (cb_head basis),
            ch_actor = encode x (kp_public pseudonym), ch_actions = [action],
            ch_resulting_state_hash = None, ch_signature = ''''\<rparr>
      in bindr (rec_err (signed_bytes x change)) (\<lambda>bs.
         Inr (change\<lparr>ch_signature := encode x (sign_change x pseudonym bs)\<rparr>)))"

definition claim ::
  "'a client_ext_scheme \<Rightarrow> bytes \<Rightarrow> group_record \<Rightarrow> claim_basis \<Rightarrow> account_ref \<Rightarrow> bytes \<Rightarrow> bytes \<Rightarrow>
   group_error + group_record \<times> group_change" where
  "claim x nonce r basis me profile_key authority_seed =
     (case gr_status r of
        Invited slot_text slot_revision _ _ _ \<Rightarrow>
          bindr (claim_key_seed x r) (\<lambda>seed.
          let claim_key = key_pair_from_seed x seed
          in bindr (record_master x r) (\<lambda>master.
             bindr (rec_err (decode_group_id x (gr_group_id r))) (\<lambda>group_id.
             bindr (rec_err (decode_exact x slot_id_len ''slotId'' slot_text)) (\<lambda>slot_id.
             bindr (record_pseudonym x r) (\<lambda>pseudonym.
             bindr (seal_member_entry x nonce (state_key x master) group_id (kp_public pseudonym) me profile_key
               authority_seed) (\<lambda>entry.
             let claim_signature = sign_claim x claim_key group_id slot_id slot_revision (kp_public pseudonym)
             in bindr (newcomer_change x r basis pseudonym (Claim slot_text (encode x claim_signature) entry)) (\<lambda>change.
                Inr (r\<lparr>gr_min_revision := max (gr_min_revision r) (ch_revision change)\<rparr>, change))))))))
      | _ \<Rightarrow> Inl (RecordError ''no invitation to claim''))"

definition link_change ::
  "'a client_ext_scheme \<Rightarrow> bytes \<Rightarrow> group_record \<Rightarrow> claim_basis \<Rightarrow> bytes \<Rightarrow> bool \<Rightarrow> account_ref \<Rightarrow> bytes \<Rightarrow> bytes \<Rightarrow>
   group_error + group_record \<times> group_change" where
  "link_change x nonce r basis password approval me profile_key authority_seed =
     bindr (record_master x r) (\<lambda>master.
     bindr (rec_err (decode_group_id x (gr_group_id r))) (\<lambda>group_id.
     bindr (record_pseudonym x r) (\<lambda>pseudonym.
     bindr (seal_member_entry x nonce (state_key x master) group_id (kp_public pseudonym) me profile_key
       authority_seed) (\<lambda>entry.
     let password = encode x password;
         action = (if approval then RequestToJoin password entry else JoinFromLink password entry)
     in bindr (newcomer_change x r basis pseudonym action) (\<lambda>change.
        Inr (r\<lparr>gr_min_revision := max (gr_min_revision r) (ch_revision change)\<rparr>, change))))))"

definition cancel_change :: "'a group_ext_scheme \<Rightarrow> group_record \<Rightarrow> claim_basis \<Rightarrow> group_error + group_change" where
  "cancel_change x r basis =
     bindr (record_pseudonym x r) (\<lambda>pseudonym. newcomer_change x r basis pseudonym CancelRequest)"

section \<open>Contexts\<close>

datatype context_check = Current | Behind | SenderBehind | Fork

definition compare_context :: "'a group_ext_scheme \<Rightarrow> group_record \<Rightarrow> u64 \<Rightarrow> bytes \<Rightarrow> group_error + context_check" where
  "compare_context x r revision chain_hash =
     bindr (verified x r) (\<lambda>held.
     case held of None \<Rightarrow> Inr Behind
     | Some (s, head) \<Rightarrow> Inr (
         if revision > st_revision s then Behind
         else if revision < st_revision s then SenderBehind
         else if head = chain_hash then Current else Fork))"

end
