(* ===== verification/Group_Demo.thy ===== *)
theory Group_Demo
  imports Group_Record "HOL-Library.Code_Target_Nat"
begin

text \<open>
  A concrete group on which the properties are evaluated: base64 is the identity on bytes, every
  signature verifies, a hash is 32 copies of the length of its input, a derived key is copies of the
  length of its context and the first byte of its secret, and the JSON of states and changes is that
  of this group's.  An administrator A creates the group, adds two invitation slots, and B and C
  claim them.
\<close>

section \<open>Names\<close>

definition p_a :: string where "p_a = replicate 32 CHR ''$''"
definition p_b :: string where "p_b = replicate 32 CHR ''B''"
definition p_c :: string where "p_c = replicate 32 CHR ''C''"
definition demo_entry_bytes :: bytes where
  "demo_entry_bytes = seal_version # replicate 24 0x65 @ replicate 16 0"
definition demo_entry :: string where "demo_entry = string_of_bytes demo_entry_bytes"
definition demo_sig :: string where "demo_sig = replicate 64 CHR ''s''"
definition demo_group_id :: string where "demo_group_id = replicate 32 CHR ''7''"
definition demo_hash :: "nat \<Rightarrow> string" where "demo_hash n = string_of_bytes (replicate 32 (word_of_nat n))"
definition slot_1 :: string where "slot_1 = replicate 16 CHR ''1''"
definition slot_2 :: string where "slot_2 = replicate 16 CHR ''2''"

definition demo_home :: home_pin where
  "demo_home = \<lparr>pin_server = ''a.example'', pin_identity_sequence = 0,
     pin_identity_document_hash = bytes_to_hex (replicate 32 0xbc)\<rparr>"

definition demo_account :: account_ref where
  "demo_account = AccountRef ''a.example'' ''00000000-0000-4000-8000-000000000001''"

definition demo_member_entry :: group_member_entry where
  "demo_member_entry = \<lparr>me_version = 1, me_account = demo_account, me_profile_key = replicate 32 CHR ''k'',
     me_binding_signature = demo_sig\<rparr>"

definition demo_bans :: group_ban_list where
  "demo_bans = \<lparr>bl_version = 1, bl_banned = [\<lparr>ba_account = demo_account, ba_pseudonyms = [p_b]\<rparr>]\<rparr>"

section \<open>States and changes\<close>

definition demo_member :: "string \<Rightarrow> group_role \<Rightarrow> u64 \<Rightarrow> group_member" where
  "demo_member p r j = \<lparr>m_pseudonym = p, m_role = r, m_joined_at_revision = j, m_entry = demo_entry\<rparr>"

definition demo_slot :: "string \<Rightarrow> group_role \<Rightarrow> string \<Rightarrow> group_slot" where
  "demo_slot i r k = \<lparr>s_slot_id = i, s_role = r, s_adder = p_a, s_created_at_revision = 1,
     s_claim_key = k, s_entry = demo_entry\<rparr>"

definition demo_s :: "u64 \<Rightarrow> group_member list \<Rightarrow> group_slot list \<Rightarrow> group_state" where
  "demo_s r ms sl = \<lparr>st_version = 1, st_group_id = demo_group_id, st_revision = r, st_home = demo_home,
     st_access = access_default, st_announcements_only = False, st_terminated = False,
     st_invite_link_password = None,
     st_attributes = \<lparr>at_title = None, at_description = None, at_timer = None, at_avatar = None,
       at_avatar_hash = None\<rparr>,
     st_ban_list = None, st_members = ms, st_slots = sl, st_requesting = [], st_banned = []\<rparr>"

definition demo_s0 :: group_state where "demo_s0 = demo_s 0 [demo_member p_a Administrator 0] []"

definition demo_s1 :: group_state where
  "demo_s1 = demo_s 1 [demo_member p_a Administrator 0]
     [demo_slot slot_1 Member p_b, demo_slot slot_2 Administrator p_c]"

definition demo_s2 :: group_state where
  "demo_s2 = demo_s 2 [demo_member p_a Administrator 0, demo_member p_b Member 2]
     [demo_slot slot_2 Administrator p_c]"

definition demo_s3 :: group_state where
  "demo_s3 = demo_s 3
     [demo_member p_a Administrator 0, demo_member p_b Member 2, demo_member p_c Administrator 3] []"

definition demo_s4 :: group_state where
  "demo_s4 = demo_s 4
     [demo_member p_a Administrator 0, (demo_member p_b Member 2)\<lparr>m_entry := replicate 41 CHR ''f''\<rparr>,
      demo_member p_c Administrator 3] []"

definition demo_sealed_bans :: string where
  "demo_sealed_bans = string_of_bytes (seal_version # replicate 24 0x65 @ (0x80 # replicate 1023 0) @ replicate 16 0)"

definition demo_s5 :: group_state where
  "demo_s5 = (demo_s 5 [demo_member p_a Administrator 0] [])\<lparr>st_ban_list := Some demo_sealed_bans\<rparr>"

definition demo_states :: "group_state list" where
  "demo_states = [demo_s0, demo_s1, demo_s2, demo_s3, demo_s4, demo_s5]"

text \<open>Hashes as the demonstration computes them: of a state (8 bytes after the domain) and of a signed
  change (72 bytes after it).\<close>

definition demo_change :: "u64 \<Rightarrow> string \<Rightarrow> string \<Rightarrow> group_action list \<Rightarrow> string option \<Rightarrow> group_change" where
  "demo_change r prev actor as named = \<lparr>ch_version = 1, ch_group_id = demo_group_id, ch_revision = r,
     ch_previous_hash = prev, ch_actor = actor, ch_actions = as, ch_resulting_state_hash = named,
     ch_signature = demo_sig\<rparr>"

definition demo_state_hash :: string where "demo_state_hash = demo_hash (length state_hash_domain + 8)"
definition demo_change_hash :: bytes where
  "demo_change_hash = replicate 32 (word_of_nat (length change_hash_domain + 72))"

definition demo_c0 :: group_change where
  "demo_c0 = demo_change 0 (demo_hash 0) p_a [Genesis demo_home access_default demo_entry] (Some demo_state_hash)"

definition demo_c1 :: group_change where
  "demo_c1 = demo_change 1 (string_of_bytes demo_change_hash) p_a
     [AddSlot slot_1 Member p_b demo_entry, AddSlot slot_2 Administrator p_c demo_entry]
     (Some demo_state_hash)"

definition demo_c2 :: group_change where
  "demo_c2 = demo_change 2 (string_of_bytes demo_change_hash) p_b [Claim slot_1 demo_sig demo_entry] None"

definition demo_c3 :: group_change where
  "demo_c3 = demo_change 3 (string_of_bytes demo_change_hash) p_c [Claim slot_2 demo_sig demo_entry] None"

definition demo_c4 :: group_change where
  "demo_c4 = demo_change 4 (string_of_bytes demo_change_hash) p_b [ModifyOwnEntry (replicate 41 CHR ''f'')]
     (Some demo_state_hash)"

definition demo_changes :: "group_change list" where
  "demo_changes = [demo_c0, demo_c1, demo_c2, demo_c3, demo_c4]"

section \<open>The outside world\<close>

definition demo_hex_decode :: "string \<Rightarrow> bytes option" where
  "demo_hex_decode s = Some (map (\<lambda>i. case from_str_radix_16 (take 2 (drop (2 * i) s)) of None \<Rightarrow> 0 | Some b \<Rightarrow> b)
     [0..<length s div 2])"

definition demo_hkdf :: "bytes \<Rightarrow> bytes \<Rightarrow> bytes \<Rightarrow> nat \<Rightarrow> bytes" where
  "demo_hkdf salt ikm info n =
     replicate n (word_of_nat (length info) + (case ikm of [] \<Rightarrow> 0 | b # _ \<Rightarrow> b))"

definition demo_ext :: client_ext where
  "demo_ext = \<lparr>std_encode = string_of_bytes, std_decode = (\<lambda>s. Some (bytes_of_string s)),
     url_encode = string_of_bytes, url_decode = (\<lambda>s. Some (bytes_of_string s)),
     hex_encode = bytes_to_hex, hex_decode = demo_hex_decode,
     sha256 = (\<lambda>bs. replicate 32 (word_of_nat (length bs))), hmac_sha256 = (\<lambda>k bs. replicate 32 0),
     hkdf_sha256 = demo_hkdf, ed25519_key_ok = (\<lambda>k. True),
     ed25519_public = (\<lambda>seed. seed), ed25519_sign = (\<lambda>seed bs. replicate 64 0x73),
     ed25519_ok = (\<lambda>k bs sig. True),
     aead_seal = (\<lambda>k n aad p. Some (p @ replicate 16 0)),
     aead_open = (\<lambda>k n aad c. Some (take (length c - 16) c)),
     state_to_json = (\<lambda>s. if s \<in> set demo_states then Some (be64 (st_revision s)) else None),
     state_from_json = (\<lambda>b. List.find (\<lambda>s. be64 (st_revision s) = b) demo_states),
     change_to_json = (\<lambda>c. if c\<lparr>ch_signature := demo_sig\<rparr> \<in> set demo_changes
       then Some (be64 (ch_revision c) @ bytes_of_string (ch_signature c)) else None),
     change_from_json = (\<lambda>b. map_option (\<lambda>c. c\<lparr>ch_signature := string_of_bytes (drop 8 b)\<rparr>)
       (List.find (\<lambda>c. be64 (ch_revision c) = take 8 b) demo_changes)),
     config_to_json = (\<lambda>c. Some []),
     member_entry_to_json = (\<lambda>e. if e = demo_member_entry then Some [] else None),
     member_entry_from_json = (\<lambda>b. if b = [] then Some demo_member_entry else None),
     slot_entry_to_json = (\<lambda>e. Some []),
     ban_list_to_json = (\<lambda>l. if l = demo_bans then Some [] else None),
     ban_list_from_json = (\<lambda>b. if b = [] then Some demo_bans else None)\<rparr>"

section \<open>Evaluation\<close>

text \<open>Decoding is the identity here, so only lengths matter; names stay folded.\<close>

lemma demo_ext_sel [simp]:
  "std_encode demo_ext = string_of_bytes" "std_decode demo_ext s = Some (bytes_of_string s)"
  "url_encode demo_ext = string_of_bytes" "url_decode demo_ext s = Some (bytes_of_string s)"
  "sha256 demo_ext bs = replicate 32 (word_of_nat (length bs))" "hkdf_sha256 demo_ext = demo_hkdf"
  "ed25519_ok demo_ext k bs sig" "ed25519_key_ok demo_ext k" "ed25519_public demo_ext seed = seed"
  "ed25519_sign demo_ext seed bs = replicate 64 0x73" "hex_encode demo_ext = bytes_to_hex"
  "hex_decode demo_ext = demo_hex_decode"
  "aead_seal demo_ext k n aad p = Some (p @ replicate 16 0)"
  "aead_open demo_ext k n aad bs = Some (take (length bs - 16) bs)"
  by (simp_all add: demo_ext_def)

lemma demo_json [simp]:
  "s \<in> set demo_states \<Longrightarrow> state_to_json demo_ext s = Some (be64 (st_revision s))"
  "c\<lparr>ch_signature := demo_sig\<rparr> \<in> set demo_changes \<Longrightarrow>
     change_to_json demo_ext c = Some (be64 (ch_revision c) @ bytes_of_string (ch_signature c))"
  by (simp_all add: demo_ext_def)

lemma demo_members [simp]:
  "demo_s0 \<in> set demo_states" "demo_s1 \<in> set demo_states" "demo_s2 \<in> set demo_states"
  "demo_s3 \<in> set demo_states" "demo_s4 \<in> set demo_states" "demo_s5 \<in> set demo_states"
  "demo_c0 \<in> set demo_changes" "demo_c1 \<in> set demo_changes" "demo_c2 \<in> set demo_changes"
  "demo_c3 \<in> set demo_changes" "demo_c4 \<in> set demo_changes"
  by (simp_all add: demo_states_def demo_changes_def)

lemma demo_resigned [simp]: "ch_signature c = demo_sig \<Longrightarrow> c\<lparr>ch_signature := demo_sig\<rparr> = c"
  by (cases c) simp

lemma demo_decode [simp]:
  "length v = n \<Longrightarrow> decode_exact demo_ext n f v = Inr (bytes_of_string v)"
  "length v = 32 \<Longrightarrow> decode_pseudonym demo_ext v = Inr (bytes_of_string v)"
  "length v = 32 \<Longrightarrow> decode_group_id demo_ext v = Inr (bytes_of_string v)"
  by (simp_all add: decode_exact_def decode_pseudonym_def decode_group_id_def public_key_len_def
      group_id_len_def)

lemma demo_sealed [simp]:
  "41 \<le> length v \<Longrightarrow> length v \<le> n \<Longrightarrow> decode_sealed demo_ext f v n = Inr (bytes_of_string v)"
  by (simp add: decode_sealed_def sealed_len_def group_nonce_len_def group_tag_len_def)

lemma demo_lengths [simp]:
  "length p_a = 32" "length p_b = 32" "length p_c = 32" "length demo_entry = 41" "length demo_sig = 64"
  "length demo_group_id = 32" "length (demo_hash n) = 32" "length demo_change_hash = 32"
  "length slot_1 = 16" "length slot_2 = 16" "length demo_state_hash = 32" "length demo_sealed_bans = 1065"
  by (simp_all add: demo_sealed_bans_def p_a_def p_b_def p_c_def demo_entry_def demo_sig_def demo_group_id_def demo_hash_def
      demo_change_hash_def slot_1_def slot_2_def demo_state_hash_def demo_entry_bytes_def)

lemma demo_distinct [simp]:
  "p_a \<noteq> p_b" "p_b \<noteq> p_a" "p_a \<noteq> p_c" "p_c \<noteq> p_a" "p_b \<noteq> p_c" "p_c \<noteq> p_b"
  "slot_1 \<noteq> slot_2" "slot_2 \<noteq> slot_1"
  by code_simp+

lemma demo_order [simp]:
  "bytes_of_string p_a < bytes_of_string p_b" "bytes_of_string p_a < bytes_of_string p_c"
  "bytes_of_string p_b < bytes_of_string p_c" "bytes_of_string slot_1 < bytes_of_string slot_2"
  by code_simp+

lemma demo_order' [simp]:
  "bytes_of_string p_a \<le> bytes_of_string p_b" "bytes_of_string p_a \<le> bytes_of_string p_c"
  "bytes_of_string p_b \<le> bytes_of_string p_c" "bytes_of_string slot_1 \<le> bytes_of_string slot_2"
  "\<not> bytes_of_string p_b \<le> bytes_of_string p_a" "\<not> bytes_of_string p_c \<le> bytes_of_string p_a"
  "\<not> bytes_of_string p_c \<le> bytes_of_string p_b" "\<not> bytes_of_string slot_2 \<le> bytes_of_string slot_1"
  by (simp_all add: less_imp_le not_le)

lemma demo_home_ok [simp]: "validate_home demo_home = Inr ()"
  by code_simp

lemma demo_access_ok [simp]: "validate_access access_default = Inr ()"
  by code_simp

lemmas demo_state_defs = demo_s0_def demo_s1_def demo_s2_def demo_s3_def demo_s4_def demo_s5_def demo_s_def
  demo_member_def demo_slot_def

lemmas demo_consts = group_format_version_def hash_len_def public_key_len_def signature_len_def
  slot_id_len_def group_id_len_def invite_link_password_len_def max_sealed_entry_bytes_def
  max_sealed_ban_list_bytes_def max_actions_per_change_def max_change_bytes_def max_group_members_def
  limits_max_def

lemmas demo_validate_defs = validate_state_def validate_attributes_def check_optional_sealed_def
  validate_members_def validate_slots_def validate_requesting_def validate_banned_def demo_consts

lemma demo_state_valid [simp]:
  "validate_state demo_ext demo_s0 = Inr ()" "validate_state demo_ext demo_s1 = Inr ()"
  "validate_state demo_ext demo_s2 = Inr ()" "validate_state demo_ext demo_s3 = Inr ()"
  "validate_state demo_ext demo_s4 = Inr ()" "validate_state demo_ext demo_s5 = Inr ()"
  by (simp_all add: demo_validate_defs demo_state_defs)

lemma demo_hash_of_state [simp]:
  "s \<in> set demo_states \<Longrightarrow> hash_of_state demo_ext s = Inr (bytes_of_string demo_state_hash)"
proof -
  assume s: "s \<in> set demo_states"
  then have "validate_state demo_ext s = Inr ()" by (auto simp: demo_states_def)
  with s show ?thesis
    by (simp add: hash_of_state_def state_canonical_bytes_def state_hash_def demo_state_hash_def demo_hash_def)
qed

lemma demo_sorted [simp]:
  "sort_by_decoded demo_ext demo_s1 = demo_s1" "sort_by_decoded demo_ext demo_s2 = demo_s2"
  "sort_by_decoded demo_ext demo_s3 = demo_s3" "sort_by_decoded demo_ext demo_s4 = demo_s4"
  by (simp_all add: sort_by_decoded_def demo_state_defs pseudonym_key_def slot_key_def)

lemmas demo_change_defs = demo_c0_def demo_c1_def demo_c2_def demo_c3_def demo_c4_def demo_change_def

lemma demo_shape [simp]:
  "validate_shape demo_ext demo_c0 = Inr ()" "validate_shape demo_ext demo_c1 = Inr ()"
  "validate_shape demo_ext demo_c2 = Inr ()" "validate_shape demo_ext demo_c3 = Inr ()"
  "validate_shape demo_ext demo_c4 = Inr ()"
  by (simp_all add: validate_shape_def demo_change_defs is_newcomers_change_def demo_consts)

lemma demo_changes_facts:
  assumes "c \<in> set demo_changes"
  shows "validate_shape demo_ext c = Inr ()" "length (ch_actor c) = 32" "ch_signature c = demo_sig"
proof -
  from assms show "validate_shape demo_ext c = Inr ()" by (auto simp: demo_changes_def)
  have "\<forall>c\<in>set demo_changes. length (ch_actor c) = 32 \<and> ch_signature c = demo_sig"
    by (simp add: demo_changes_def demo_change_defs)
  with assms show "length (ch_actor c) = 32" "ch_signature c = demo_sig" by auto
qed

lemma demo_signature [simp]:
  "c \<in> set demo_changes \<Longrightarrow> verify_actor_signature demo_ext c = Inr ()"
proof -
  assume c: "c \<in> set demo_changes"
  with demo_changes_facts [OF c] show ?thesis
    by (simp add: verify_actor_signature_def signed_bytes_def verify_change_signature_def verify_group_signature_def)
qed

lemma demo_hash_of_change:
  "c \<in> set demo_changes \<Longrightarrow> hash_of_change demo_ext c = Inr demo_change_hash"
proof -
  assume c: "c \<in> set demo_changes"
  with demo_changes_facts [OF c] show ?thesis
    by (simp add: hash_of_change_def change_canonical_bytes_def demo_consts change_hash_def demo_change_hash_def)
qed

lemma demo_checks_limits [simp]: "check_limits limits_max = Inr ()"
  by (simp add: check_limits_def demo_consts)

lemma demo_actions:
  "apply_actions demo_ext demo_s0 demo_c1 limits_max (demo_s0\<lparr>st_revision := 1\<rparr>) (ch_actions demo_c1) = Inr demo_s1"
  "apply_actions demo_ext demo_s1 demo_c2 limits_max (demo_s1\<lparr>st_revision := 2\<rparr>) (ch_actions demo_c2) = Inr demo_s2"
  "apply_actions demo_ext demo_s2 demo_c3 limits_max (demo_s2\<lparr>st_revision := 3\<rparr>) (ch_actions demo_c3) = Inr demo_s3"
  "apply_actions demo_ext demo_s3 demo_c4 limits_max (demo_s3\<lparr>st_revision := 4\<rparr>) (ch_actions demo_c4) = Inr demo_s4"
  by (simp_all add: demo_change_defs demo_state_defs action_defs is_administrator_def member_def
      access_default_def entry_ok_def demo_consts place_count_def check_newcomer_def is_banned_def verify_group_signature_def
      verify_claim_signature_def verify_group_signature_def)

lemma demo_sel [simp]:
  "st_terminated demo_s0 = False" "st_terminated demo_s1 = False" "st_terminated demo_s2 = False"
  "st_terminated demo_s3 = False"
  "st_revision demo_s0 = 0" "st_revision demo_s1 = 1" "st_revision demo_s2 = 2" "st_revision demo_s3 = 3"
  "st_group_id demo_s0 = demo_group_id" "st_group_id demo_s1 = demo_group_id"
  "st_group_id demo_s2 = demo_group_id" "st_group_id demo_s3 = demo_group_id"
  "has_administrator demo_s1" "has_administrator demo_s2" "has_administrator demo_s3" "has_administrator demo_s4"
  by (simp_all add: demo_state_defs has_administrator_def)

lemma demo_change_sel [simp]:
  "ch_revision demo_c0 = 0" "ch_revision demo_c1 = 1" "ch_revision demo_c2 = 2" "ch_revision demo_c3 = 3"
  "ch_revision demo_c4 = 4"
  "ch_group_id demo_c0 = demo_group_id" "ch_group_id demo_c1 = demo_group_id"
  "ch_group_id demo_c2 = demo_group_id" "ch_group_id demo_c3 = demo_group_id"
  "ch_group_id demo_c4 = demo_group_id"
  "ch_actor demo_c0 = p_a" "ch_actor demo_c1 = p_a" "ch_actor demo_c2 = p_b" "ch_actor demo_c3 = p_c"
  "ch_actor demo_c4 = p_b"
  "ch_signature demo_c0 = demo_sig" "ch_signature demo_c1 = demo_sig" "ch_signature demo_c2 = demo_sig"
  "ch_signature demo_c3 = demo_sig" "ch_signature demo_c4 = demo_sig"
  "ch_previous_hash demo_c1 = string_of_bytes demo_change_hash"
  "ch_previous_hash demo_c2 = string_of_bytes demo_change_hash"
  "ch_previous_hash demo_c3 = string_of_bytes demo_change_hash"
  "ch_previous_hash demo_c4 = string_of_bytes demo_change_hash"
  "ch_resulting_state_hash demo_c0 = Some demo_state_hash"
  "ch_resulting_state_hash demo_c1 = Some demo_state_hash" "ch_resulting_state_hash demo_c2 = None"
  "ch_resulting_state_hash demo_c3 = None" "ch_resulting_state_hash demo_c4 = Some demo_state_hash"
  by (simp_all add: demo_change_defs)

lemmas demo_check_defs = check_change_def next_state_def compare_hash_def demo_hash_of_state
  checked_add_def encode_def

lemma demo_0: "check_genesis demo_ext demo_c0 demo_home limits_max = Inr demo_s0"
proof -
  have "genesis_state demo_ext demo_c0 demo_home limits_max = Inr demo_s0"
  proof -
    have "ch_previous_hash demo_c0 = encode demo_ext (replicate hash_len 0)"
      "ch_actions demo_c0 = [Genesis demo_home access_default demo_entry]"
      by (simp_all add: demo_change_defs demo_hash_def encode_def hash_len_def)
    with demo_state_valid(1) show ?thesis
      by (simp add: genesis_state_def Let_def entry_ok_def demo_state_defs max_sealed_entry_bytes_def
          group_format_version_def)
  qed
  then show ?thesis by (simp add: check_genesis_def compare_hash_def demo_hash_of_state encode_def)
qed

lemma demo_1: "check_change demo_ext demo_s0 demo_change_hash demo_c1 limits_max = Inr demo_s1"
  by (simp add: demo_check_defs demo_actions)

lemma demo_2: "check_change demo_ext demo_s1 demo_change_hash demo_c2 limits_max = Inr demo_s2"
  by (simp add: demo_check_defs demo_actions)

lemma demo_3: "check_change demo_ext demo_s2 demo_change_hash demo_c3 limits_max = Inr demo_s3"
  by (simp add: demo_check_defs demo_actions)

lemma demo_4: "check_change demo_ext demo_s3 demo_change_hash demo_c4 limits_max = Inr demo_s4"
  by (simp add: demo_check_defs demo_actions)

lemma demo_h0: "hash_of_change demo_ext demo_c0 = Inr demo_change_hash"
  by (simp add: demo_hash_of_change)

lemma demo_h1: "hash_of_change demo_ext demo_c1 = Inr demo_change_hash"
  by (simp add: demo_hash_of_change)

lemma demo_log0: "group_log demo_ext demo_home limits_max [demo_c0] demo_s0 demo_change_hash"
  by (rule group_log.genesis [OF demo_0 demo_h0])

lemma demo_log1: "group_log demo_ext demo_home limits_max [demo_c0, demo_c1] demo_s1 demo_change_hash"
  using group_log.change [OF demo_log0 demo_1 demo_h1] by simp

end
