(* ===== verification/Group_Properties.thy ===== *)
theory Group_Properties
  imports Group_Entry_Rules Group_Demo
begin

text \<open>
  What the acceptance check of a group change promises its server and its members, each property
  with the demonstration group as its witness.
\<close>

section \<open>Every accepted change\<close>

text \<open>C1: A change the check accepts is signed by its actor, follows the state and the head it is
  checked on (next revision, same group, the head's hash, not terminated), and gives a state that
  is well formed again, of the same group and home, whose hash is the one the change names.\<close>

theorem accepted_change_wellformed:
  assumes "check_change x s h c l = Inr s'"
  shows "validate_state x s' = Inr () \<and> verify_actor_signature x c = Inr () \<and>
    unat (st_revision s') = Suc (unat (st_revision s)) \<and> ch_revision c = st_revision s' \<and>
    ch_group_id c = st_group_id s \<and> st_group_id s' = st_group_id s \<and> st_home s' = st_home s \<and>
    ch_previous_hash c = encode x h \<and> \<not> st_terminated s \<and>
    (case ch_resulting_state_hash c of None \<Rightarrow> is_newcomers_change c
     | Some named \<Rightarrow> \<exists>hash. hash_of_state x s' = Inr hash \<and> encode x hash = named)"
proof -
  from assms have "verify_actor_signature x c = Inr ()" "compare_hash x s' c = Inr ()"
    by (auto simp: check_change_def)
  with check_change_facts [OF assms] show ?thesis
    by (auto simp: compare_hash_def validate_shape_def split: option.splits bool.splits)
qed

theorem accepted_change_wellformed_witness:
  "validate_state demo_ext demo_s1 = Inr () \<and> ch_previous_hash demo_c1 = encode demo_ext demo_change_hash"
  using accepted_change_wellformed [OF demo_1] by simp

text \<open>C2: An accepted change, of a state that keeps members, requests and bans apart as every state of a
  chain does, does what its actions say and nothing else: the members with their roles, the open slots,
  the requests and the bans after it are its actions folded over those before it.\<close>

theorem change_refines_spec:
  assumes "check_change x s h c l = Inr s'" and "membership_inv s"
  shows "group_abs s' = fold (spec_action (ch_actor c)) (ch_actions c) (group_abs s)"
  using assms by (rule check_change_spec)

theorem change_refines_spec_witness:
  "group_abs demo_s2 = fold (spec_action (ch_actor demo_c2)) (ch_actions demo_c2) (group_abs demo_s1)"
  by (rule change_refines_spec [OF demo_2]) (simp add: membership_inv_def demo_state_defs)

text \<open>C3: A change whose actor is no administrator leaves the bans, the ban list, the access rules,
  announcements, termination and the invite link as they were, and every other person's membership
  and request; a slot it adds is its actor's own and has the plain role.\<close>

theorem nonadmin_change_confined:
  assumes "check_change x s h c l = Inr s'" and "\<not> is_administrator s (ch_actor c)"
  shows "set (st_banned s') = set (st_banned s) \<and> st_ban_list s' = st_ban_list s \<and>
    st_access s' = st_access s \<and> st_announcements_only s' = st_announcements_only s \<and>
    st_terminated s' = st_terminated s \<and> st_invite_link_password s' = st_invite_link_password s \<and>
    {m \<in> set (st_members s'). m_pseudonym m \<noteq> ch_actor c} = {m \<in> set (st_members s). m_pseudonym m \<noteq> ch_actor c} \<and>
    {r \<in> set (st_requesting s'). r_pseudonym r \<noteq> ch_actor c} = {r \<in> set (st_requesting s). r_pseudonym r \<noteq> ch_actor c} \<and>
    set (st_slots s') \<subseteq> set (st_slots s) \<union> {k. s_adder k = ch_actor c \<and> s_role k = Member}"
proof -
  from check_change_next [OF assms(1)] obtain mid where m:
    "apply_actions x s c l (s\<lparr>st_revision := ch_revision c\<rparr>) (ch_actions c) = Inr mid"
    "s' = sort_by_decoded x mid" by (rule next_state_InrD) blast
  from nonadmin_actions [OF assms(2) m(1)] have n: "same_admin_part s mid" "same_others (ch_actor c) s mid"
    "plain_new_slots (ch_actor c) s mid"
    by (simp_all add: same_admin_part_def same_others_def plain_new_slots_def)
  then show ?thesis
    by (auto simp: m(2) same_admin_part_def same_others_def plain_new_slots_def)
qed

theorem nonadmin_change_confined_witness:
  "\<not> is_administrator demo_s3 p_b \<and> st_access demo_s4 = st_access demo_s3 \<and>
     {m \<in> set (st_members demo_s4). m_pseudonym m \<noteq> p_b} = {m \<in> set (st_members demo_s3). m_pseudonym m \<noteq> p_b}"
proof -
  have b: "\<not> is_administrator demo_s3 (ch_actor demo_c4)"
    by (simp add: is_administrator_def member_def demo_state_defs)
  with nonadmin_change_confined [OF demo_4 b] show ?thesis by simp
qed

text \<open>C4: An administrator the state did not have came from one: the actor is an administrator, or
  the new administrator is the actor claiming, with the claim key's signature over this group, slot
  and revision, a slot reserved with the administrator role.\<close>

theorem administrators_come_from_administrators:
  assumes "check_change x s h c l = Inr s'" and "p \<in> admins s'" and "p \<notin> admins s"
  shows "is_administrator s (ch_actor c) \<or>
    (p = ch_actor c \<and> (\<exists>i sg e. ch_actions c = [Claim i sg e] \<and>
       (\<exists>slot\<in>set (st_slots s). s_slot_id slot = i \<and> s_role slot = Administrator \<and> proves_slot x c slot sg)))"
  using check_change_new_admin [OF assms(1) _ assms(2,3)] by blast

theorem administrators_come_from_administrators_witness:
  "\<exists>slot\<in>set (st_slots demo_s2). s_role slot = Administrator"
proof -
  have "p_c \<in> admins demo_s3"
    unfolding admins_def by (rule rev_image_eqI [of "demo_member p_c Administrator 3"])
      (simp_all add: demo_state_defs)
  moreover have "p_c \<notin> admins demo_s2" by (auto simp: admins_def demo_state_defs)
  moreover have "\<not> is_administrator demo_s2 (ch_actor demo_c3)"
    by (simp add: is_administrator_def member_def demo_state_defs)
  ultimately show ?thesis using administrators_come_from_administrators [OF demo_3] by blast
qed

text \<open>C5: Whoever is a member after an accepted change and was not before it is the actor claiming
  a slot with its key and not banned, the actor joining by a link that is open and whose password they
  know and not banned, or someone who had asked and whom an administrator approved. In every state that a
  chain of accepted changes reaches from its genesis this third way is closed to the banned too: nobody
  on the ban list of such a state becomes a member by a change of it. (The approval itself does not look
  at the ban list; it rests on a request and a ban never standing together in such a state.)\<close>

theorem members_enter_by_right:
  assumes "check_change x s h c l = Inr s'" and "p \<in> member_names s'" and "p \<notin> member_names s"
  shows "((\<exists>home l' cs h'. group_log x home l' cs s h') \<longrightarrow> p \<notin> set (st_banned s)) \<and>
    ((\<exists>i sg e. p = ch_actor c \<and> p \<notin> set (st_banned s) \<and> ch_actions c = [Claim i sg e] \<and>
        (\<exists>slot\<in>set (st_slots s). s_slot_id slot = i \<and> proves_slot x c slot sg \<and>
           \<lparr>m_pseudonym = p, m_role = s_role slot, m_joined_at_revision = ch_revision c, m_entry = e\<rparr>
             \<in> set (st_members s'))) \<or>
      (\<exists>pw e. p = ch_actor c \<and> p \<notin> set (st_banned s) \<and> ch_actions c = [JoinFromLink pw e] \<and>
         check_password x s pw = Inr () \<and> add_from_invite_link (st_access s) = AccessAny \<and>
         \<lparr>m_pseudonym = p, m_role = Member, m_joined_at_revision = ch_revision c, m_entry = e\<rparr>
           \<in> set (st_members s')) \<or>
      (is_administrator s (ch_actor c) \<and> ApproveRequest p \<in> set (ch_actions c) \<and> p \<in> request_names s))"
proof (rule conjI)
  show "(\<exists>home l' cs h'. group_log x home l' cs s h') \<longrightarrow> p \<notin> set (st_banned s)"
    using check_change_banned [OF assms(1)] group_log_invariant assms(2) by blast
  have "p \<notin> set (st_banned s)" if "any is_by_newcomer (ch_actions c)"
    using check_change_entry_banned [OF assms] that by blast
  then have n: "p \<notin> set (st_banned s)" if "ch_actions c = [Claim i sg e] \<or> ch_actions c = [JoinFromLink pw e]" for i sg pw e
    using that by auto
  show "(\<exists>i sg e. p = ch_actor c \<and> p \<notin> set (st_banned s) \<and> ch_actions c = [Claim i sg e] \<and>
        (\<exists>slot\<in>set (st_slots s). s_slot_id slot = i \<and> proves_slot x c slot sg \<and>
           \<lparr>m_pseudonym = p, m_role = s_role slot, m_joined_at_revision = ch_revision c, m_entry = e\<rparr>
             \<in> set (st_members s'))) \<or>
      (\<exists>pw e. p = ch_actor c \<and> p \<notin> set (st_banned s) \<and> ch_actions c = [JoinFromLink pw e] \<and>
         check_password x s pw = Inr () \<and> add_from_invite_link (st_access s) = AccessAny \<and>
         \<lparr>m_pseudonym = p, m_role = Member, m_joined_at_revision = ch_revision c, m_entry = e\<rparr>
           \<in> set (st_members s')) \<or>
      (is_administrator s (ch_actor c) \<and> ApproveRequest p \<in> set (ch_actions c) \<and> p \<in> request_names s)"
    using check_change_new_member [OF assms] n by blast
qed

theorem members_enter_by_right_witness: "p_b \<notin> set (st_banned demo_s1) \<and> p_b \<in> member_names demo_s2"
proof -
  have p: "p_b \<in> member_names demo_s2" "p_b \<notin> member_names demo_s1"
    by (auto simp: member_names_def demo_state_defs)
  have "\<exists>home l' cs h'. group_log demo_ext home l' cs demo_s1 h'" using demo_log1 by blast
  with members_enter_by_right [OF demo_2 p] p(1) show ?thesis by blast
qed

text \<open>C6: A group that has an administrator and is not left empty has one after every accepted
  change.\<close>

theorem an_administrator_remains:
  assumes "check_change x s h c l = Inr s'" and "admins s \<noteq> {}"
    and "st_members s' \<noteq> [] \<or> st_slots s' \<noteq> []"
  shows "admins s' \<noteq> {}"
proof -
  from check_change_next [OF assms(1)] obtain mid where m:
    "has_administrator s \<and> (st_members mid \<noteq> [] \<or> st_slots mid \<noteq> []) \<longrightarrow> has_administrator mid"
    "s' = sort_by_decoded x mid" by (rule next_state_InrD) blast
  moreover from m(2) have "st_members s' = [] \<longleftrightarrow> st_members mid = []" "st_slots s' = [] \<longleftrightarrow> st_slots mid = []"
    "admins s' = admins mid" by (simp_all add: admins_def flip: length_0_conv)
  ultimately show ?thesis using assms(2,3) by (auto simp: admins_def has_administrator_def)
qed

theorem an_administrator_remains_witness: "admins demo_s1 \<noteq> {}"
  by (rule an_administrator_remains [OF demo_1]) (auto simp: admins_def demo_state_defs)

text \<open>C10: The limits hold: members and open slots together stay within the server's member limit,
  requests within its request limit, when they were before the change.\<close>

theorem capacity_kept:
  assumes "check_change x s h c l = Inr s'" and "place_count s \<le> max_members l"
    and "length (st_requesting s) \<le> max_requesting l"
  shows "place_count s' \<le> max_members l \<and> length (st_requesting s') \<le> max_requesting l \<and>
    place_count s' \<le> max_group_members"
  using check_change_capacity [OF assms(1)] check_change_facts(11) [OF assms(1)] assms(2,3)
  by (auto simp: check_limits_def)

theorem capacity_kept_witness: "place_count demo_s1 \<le> max_group_members"
  using capacity_kept [OF demo_1] by (simp add: place_count_def demo_state_defs limits_max_def max_group_members_def)

text \<open>C9: A change a server accepted under its own limits is accepted by every client, which replays
  it under the largest ones, and gives both the same state.\<close>

theorem client_replays_server:
  assumes "check_change x s h c l = Inr s'"
  shows "check_change x s h c limits_max = Inr s'"
proof -
  from check_change_next [OF assms] have n: "next_state x s h c l = Inr s'" .
  from check_change_facts(11) [OF assms] have le: "max_members l \<le> max_members limits_max"
    "max_requesting l \<le> max_requesting limits_max" by (auto simp: check_limits_def limits_max_def)
  have "check_limits limits_max = Inr ()" by (simp add: check_limits_def limits_max_def max_group_members_def)
  with n have "next_state x s h c limits_max = Inr s'"
    by (auto simp: next_state_def Let_def dest!: apply_actions_limits [OF le])
  with assms show ?thesis by (auto simp: check_change_def)
qed

theorem client_replays_server_witness:
  "check_change demo_ext demo_s0 demo_change_hash demo_c1 limits_max = Inr demo_s1"
  by (rule client_replays_server [OF demo_1])

section \<open>Chains of changes\<close>

text \<open>C7: Every state a chain of accepted changes reaches from its genesis is well formed, keeps
  members, requests and bans apart and without duplicates, stays within the limits, has the home it
  was created with, and has as many changes behind it as its revision says.\<close>

theorem reachable_group_states:
  assumes "group_log x home l cs s h"
  shows "validate_state x s = Inr () \<and> membership_inv s \<and> place_count s \<le> max_members l \<and>
    length (st_requesting s) \<le> max_requesting l \<and> length cs = Suc (unat (st_revision s)) \<and>
    st_home s = home \<and> (\<forall>c\<in>set cs. ch_group_id c = st_group_id s)"
  using assms by (rule group_log_invariant)

theorem reachable_group_states_witness: "membership_inv demo_s1 \<and> length [demo_c0, demo_c1] = Suc (unat (1 :: u64))"
  using reachable_group_states [OF demo_log1] by simp

text \<open>C8: The chain head commits to the whole history: two chains, kept by whatever servers under
  whatever limits, whose heads are written the same hold the same changes and the same state, unless
  they contain two different changes whose hashes are written the same.\<close>

theorem head_commits_to_history:
  assumes "group_log x home l cs s h" and "group_log x home' l' cs' s' h'" and "encode x h' = encode x h"
  shows "cs' = cs \<and> s' = s \<or> (\<exists>c\<in>set cs. \<exists>d\<in>set cs'. hash_clash x c d)"
  using group_log_head_unique [OF assms] by blast

theorem head_commits_to_history_witness:
  "demo_s0 = demo_s1 \<or> (\<exists>c\<in>set [demo_c0, demo_c1]. \<exists>d\<in>set [demo_c0]. hash_clash demo_ext c d)"
  using head_commits_to_history [OF demo_log1 demo_log0 refl] by blast

section \<open>Changes as bytes\<close>

text \<open>C11: Reading back the canonical bytes of a change gives the change, and bytes are read only
  when they are canonical: writing what was read gives them again.  The JSON library's part is that
  it reads what it wrote.\<close>

theorem change_bytes_roundtrip:
  assumes "\<And>d t. change_to_json x d = Some t \<Longrightarrow> change_from_json x t = Some d"
  shows "change_canonical_bytes x c = Inr bs \<longleftrightarrow> change_from_canonical_bytes x bs = Inr c"
proof
  assume w: "change_canonical_bytes x c = Inr bs"
  then have "change_to_json x c = Some bs" "length bs \<le> max_change_bytes"
    by (auto simp: change_canonical_bytes_def)
  with w assms show "change_from_canonical_bytes x bs = Inr c"
    by (simp add: change_from_canonical_bytes_def)
next
  assume "change_from_canonical_bytes x bs = Inr c"
  then show "change_canonical_bytes x c = Inr bs" by (auto simp: change_from_canonical_bytes_def)
qed

theorem change_bytes_roundtrip_witness:
  "change_from_canonical_bytes (demo_ext\<lparr>change_to_json := \<lambda>c. if c = demo_c1 then Some [1] else None,
     change_from_json := \<lambda>b. if b = [1] then Some demo_c1 else None\<rparr>) [1] = Inr demo_c1"
    (is "change_from_canonical_bytes ?x [1] = _")
proof -
  have "change_canonical_bytes ?x demo_c1 = Inr [1]"
  proof -
    have "decode_exact ?x = decode_exact demo_ext" "decode_group_id ?x = decode_group_id demo_ext"
      by (simp_all add: fun_eq_iff decode_exact_def decode_group_id_def cong del: bindr_cong)
    then have "validate_shape ?x demo_c1 = validate_shape demo_ext demo_c1"
      unfolding validate_shape_def decode_pseudonym_def by presburger
    then show ?thesis by (simp add: change_canonical_bytes_def decode_exact_def demo_consts)
  qed
  moreover have "\<And>d t. change_to_json ?x d = Some t \<Longrightarrow> change_from_json ?x t = Some d"
    by (simp split: if_splits)
  ultimately show ?thesis using change_bytes_roundtrip [of ?x] by blast
qed

end
