(* ===== verification/Group_View.thy ===== *)
theory Group_View
  imports Group_Record
begin

text \<open>
  What a member reads out of the last verified state, and what it seals back
  (\<open>kutup-chat-core/src/group.rs\<close>, from \<open>members\<close> on, and \<open>invite\<close>): the members with their checked
  bindings, the requests to join, the own entry, the ban list in its buckets, the attributes.
  \<open>authority_of\<close> gives the authority key of an account whose manifest this device verified.
\<close>

section \<open>Members and requests\<close>

record verified_member =
  vm_account :: account_ref
  vm_profile_key :: bytes

record member_view =
  mv_pseudonym :: string
  mv_role :: group_role
  mv_joined_at_revision :: u64
  mv_verified :: "verified_member option"

definition opened_entry ::
  "'a client_ext_scheme \<Rightarrow> group_state_key \<Rightarrow> string \<Rightarrow> string \<Rightarrow> (bytes \<times> group_member_entry) option" where
  "opened_entry x key pseudonym_txt sealed =
     Option.bind (ok (decode_exact x 32 ''pseudonym'' pseudonym_txt)) (\<lambda>pseudonym.
     Option.bind (ok (base64_decode x sealed)) (\<lambda>sealed.
     Option.bind (ok (field_open x key FMemberEntry pseudonym sealed)) (\<lambda>plain.
     Option.bind (ok (member_entry_from_bytes x plain)) (\<lambda>entry. Some (pseudonym, entry)))))"

definition open_member ::
  "'a client_ext_scheme \<Rightarrow> group_state_key \<Rightarrow> bytes \<Rightarrow> string \<Rightarrow> string \<Rightarrow> (account_ref \<Rightarrow> bytes option) \<Rightarrow>
   verified_member option" where
  "open_member x key group_id pseudonym_txt sealed authority_of =
     Option.bind (opened_entry x key pseudonym_txt sealed) (\<lambda>(pseudonym, entry).
     Option.bind (ok (decode_exact x 64 ''bindingSignature'' (me_binding_signature entry))) (\<lambda>signature.
     Option.bind (authority_of (me_account entry)) (\<lambda>authority.
     if verify_binding x authority group_id pseudonym (me_account entry) signature
     then Option.bind (ok (decode_exact x 32 ''profileKey'' (me_profile_key entry))) (\<lambda>profile_key.
       Some \<lparr>vm_account = me_account entry, vm_profile_key = profile_key\<rparr>)
     else None)))"

text \<open>The map over the members, with the accounts seen so far: the same account twice counts once.\<close>

fun member_views ::
  "(group_member \<Rightarrow> verified_member option) \<Rightarrow> account_ref list \<Rightarrow> group_member list \<Rightarrow> member_view list" where
  "member_views opened seen [] = []"
| "member_views opened seen (m # ms) =
     (let (verified, seen) = (case opened m of
            None \<Rightarrow> (None, seen)
          | Some v \<Rightarrow> if vm_account v \<in> set seen then (None, seen) else (Some v, vm_account v # seen))
      in \<lparr>mv_pseudonym = m_pseudonym m, mv_role = m_role m, mv_joined_at_revision = m_joined_at_revision m,
          mv_verified = verified\<rparr> # member_views opened seen ms)"

definition members ::
  "'a client_ext_scheme \<Rightarrow> group_record \<Rightarrow> (account_ref \<Rightarrow> bytes option) \<Rightarrow> group_error + member_view list" where
  "members x r authority_of =
     bindr (verified x r) (\<lambda>held.
     case held of None \<Rightarrow> Inr []
     | Some (s, _) \<Rightarrow>
         bindr (record_master x r) (\<lambda>master.
         bindr (rec_err (decode_group_id x (gr_group_id r))) (\<lambda>group_id.
         Inr (member_views (\<lambda>m. open_member x (state_key x master) group_id (m_pseudonym m) (m_entry m) authority_of)
           [] (st_members s)))))"

definition own_entry :: "'a client_ext_scheme \<Rightarrow> group_record \<Rightarrow> group_error + group_member_entry option" where
  "own_entry x r =
     bindr (verified x r) (\<lambda>held.
     case held of None \<Rightarrow> Inr None
     | Some (s, _) \<Rightarrow>
         bindr (pseudonym_text x r) (\<lambda>me.
         case member s me of None \<Rightarrow> Inr None
         | Some m \<Rightarrow>
             bindr (rec_err (decode_exact x 32 ''pseudonym'' (m_pseudonym m))) (\<lambda>pseudonym.
             bindr (base64_decode x (m_entry m)) (\<lambda>sealed.
             bindr (record_master x r) (\<lambda>master.
             bindr (crypt_err (field_open x (state_key x master) FMemberEntry pseudonym sealed)) (\<lambda>plain.
             bindr (rec_err (member_entry_from_bytes x plain)) (\<lambda>entry. Inr (Some entry))))))))"

definition renewed_own_entry ::
  "'a client_ext_scheme \<Rightarrow> bytes \<Rightarrow> group_record \<Rightarrow> account_ref \<Rightarrow> bytes \<Rightarrow> bytes \<Rightarrow> group_error + group_action" where
  "renewed_own_entry x nonce r me profile_key authority_seed =
     bindr (record_pseudonym x r) (\<lambda>pseudonym.
     bindr (rec_err (decode_group_id x (gr_group_id r))) (\<lambda>group_id.
     bindr (record_master x r) (\<lambda>master.
     bindr (seal_member_entry x nonce (state_key x master) group_id (kp_public pseudonym) me profile_key
       authority_seed) (\<lambda>entry. Inr (ModifyOwnEntry entry)))))"

definition claimed_account :: "'a client_ext_scheme \<Rightarrow> group_state_key \<Rightarrow> string \<Rightarrow> string \<Rightarrow> account_ref option" where
  "claimed_account x key pseudonym entry = map_option (\<lambda>(_, e). me_account e) (opened_entry x key pseudonym entry)"

text \<open>A \<open>BTreeSet\<close> of accounts, read in order.\<close>

definition entry_accounts ::
  "'a client_ext_scheme \<Rightarrow> group_record \<Rightarrow> (group_state \<Rightarrow> (string \<times> string) list) \<Rightarrow> group_error + account_ref list" where
  "entry_accounts x r entries =
     bindr (verified x r) (\<lambda>held.
     case held of None \<Rightarrow> Inr []
     | Some (s, _) \<Rightarrow>
         bindr (record_master x r) (\<lambda>master.
         Inr (sorted_list_of_set (set (List.map_filter
           (\<lambda>(pseudonym, entry). claimed_account x (state_key x master) pseudonym entry) (entries s))))))"

definition member_accounts :: "'a client_ext_scheme \<Rightarrow> group_record \<Rightarrow> group_error + account_ref list" where
  "member_accounts x r = entry_accounts x r (\<lambda>s. map (\<lambda>m. (m_pseudonym m, m_entry m)) (st_members s))"

definition request_accounts :: "'a client_ext_scheme \<Rightarrow> group_record \<Rightarrow> group_error + account_ref list" where
  "request_accounts x r = entry_accounts x r (\<lambda>s. map (\<lambda>q. (r_pseudonym q, r_entry q)) (st_requesting s))"

text \<open>A \<open>BTreeMap\<close> collected from pairs: the last pair of a key stays.\<close>

definition claimed_accounts ::
  "'a client_ext_scheme \<Rightarrow> group_record \<Rightarrow> group_error + (string \<rightharpoonup> account_ref)" where
  "claimed_accounts x r =
     bindr (verified x r) (\<lambda>held.
     case held of None \<Rightarrow> Inr Map.empty
     | Some (s, _) \<Rightarrow>
         bindr (record_master x r) (\<lambda>master.
         Inr (map_of (rev (List.map_filter
           (\<lambda>(p, e). map_option (Pair p) (claimed_account x (state_key x master) p e))
           (map (\<lambda>m. (m_pseudonym m, m_entry m)) (st_members s) @
            map (\<lambda>q. (r_pseudonym q, r_entry q)) (st_requesting s)))))))"

record requester_view =
  rv_pseudonym :: string
  rv_requested_at_revision :: u64
  rv_verified :: "verified_member option"
  rv_claimed :: "account_ref option"
  rv_unconfirmed :: bool

definition requesters ::
  "'a client_ext_scheme \<Rightarrow> group_record \<Rightarrow> (account_ref \<Rightarrow> bytes option) \<Rightarrow> account_ref list \<Rightarrow>
   group_error + requester_view list" where
  "requesters x r authority_of unconfirmed =
     bindr (verified x r) (\<lambda>held.
     case held of None \<Rightarrow> Inr []
     | Some (s, _) \<Rightarrow>
         bindr (record_master x r) (\<lambda>master.
         bindr (rec_err (decode_group_id x (gr_group_id r))) (\<lambda>group_id.
         Inr (map (\<lambda>q.
           let key = state_key x master; claimed = claimed_account x key (r_pseudonym q) (r_entry q)
           in \<lparr>rv_pseudonym = r_pseudonym q, rv_requested_at_revision = r_requested_at_revision q,
               rv_verified = open_member x key group_id (r_pseudonym q) (r_entry q) authority_of,
               rv_claimed = claimed,
               rv_unconfirmed = (case claimed of None \<Rightarrow> False | Some a \<Rightarrow> a \<in> set unconfirmed)\<rparr>)
           (st_requesting s)))))"

section \<open>The ban list\<close>

definition ban_list_buckets :: "nat list" where
  "ban_list_buckets = [1024, 4096, 12 * 1024, max_sealed_ban_list_bytes - sealed_len 0]"

definition pad_ban_list :: "bytes \<Rightarrow> bytes option" where
  "pad_ban_list plain =
     map_option (\<lambda>bucket. resize bucket 0 (plain @ [0x80]))
       (List.find (\<lambda>bucket. length plain < bucket) ban_list_buckets)"

definition ban_list_from_bytes :: "'a client_ext_scheme \<Rightarrow> bytes \<Rightarrow> string + group_ban_list" where
  "ban_list_from_bytes x =
     from_canonical_json_bytes ''group ban list'' (validate_ban_list x) (ban_list_to_json x) (ban_list_from_json x)"

definition ban_list_bytes :: "'a client_ext_scheme \<Rightarrow> group_ban_list \<Rightarrow> string + bytes" where
  "ban_list_bytes x = canonical_json_bytes (validate_ban_list x) (ban_list_to_json x)"

definition unpad_ban_list :: "bytes \<Rightarrow> group_error + bytes" where
  "unpad_ban_list padded =
     bindr (require (length padded \<in> set ban_list_buckets) (Sealed ''a ban list is padded to a bucket'')) (\<lambda>_.
     bindr (ok_or (case rposition (\<lambda>b. b \<noteq> 0) padded of None \<Rightarrow> None
         | Some at \<Rightarrow> if padded ! at = 0x80 then Some at else None) (Sealed ''a ban list's padding is malformed''))
       (\<lambda>end_at. Inr (take end_at padded)))"

definition read_ban_list :: "'a client_ext_scheme \<Rightarrow> bytes \<Rightarrow> group_error + group_ban_list" where
  "read_ban_list x padded =
     bindr (unpad_ban_list padded) (\<lambda>plain. map_err Sealed (ban_list_from_bytes x plain))"

definition ban_list :: "'a client_ext_scheme \<Rightarrow> group_record \<Rightarrow> group_error + group_ban_list" where
  "ban_list x r =
     (let empty = \<lparr>bl_version = group_format_version, bl_banned = []\<rparr>
      in bindr (verified x r) (\<lambda>held.
         case held of None \<Rightarrow> Inr empty
         | Some (s, _) \<Rightarrow>
             (case st_ban_list s of None \<Rightarrow> Inr empty
              | Some sealed \<Rightarrow>
                  bindr (record_master x r) (\<lambda>master.
                  bindr (base64_decode x sealed) (\<lambda>sealed.
                  bindr (map_err (\<lambda>e. Sealed (crypto_error_text e)) (field_open x (state_key x master) FBanList [] sealed))
                    (\<lambda>plain. read_ban_list x plain))))))"

definition longest_account :: "crypto_error + account_ref" where
  "longest_account = account_ref_new
     (replicate 63 CHR ''a'' @ ''.'' @ replicate 63 CHR ''b'' @ ''.'' @ replicate 63 CHR ''c'' @ ''.'' @
      replicate 61 CHR ''d'') ''ffffffff-ffff-4fff-bfff-ffffffffffff''"

definition ban_list_full :: "'a client_ext_scheme \<Rightarrow> group_ban_list \<Rightarrow> bool" where
  "ban_list_full x l =
     (case longest_account of Inl _ \<Rightarrow> False
      | Inr account \<Rightarrow>
          if ban_list_get l account \<noteq> None then False
          else (case ban_list_bytes x (ban_list_ban x l account (Some (encode x (replicate 32 0xff)))) of
                  Inl _ \<Rightarrow> True | Inr bs \<Rightarrow> pad_ban_list bs = None))"

definition seal_ban_list ::
  "'a client_ext_scheme \<Rightarrow> bytes \<Rightarrow> group_record \<Rightarrow> group_ban_list \<Rightarrow> group_error + string option" where
  "seal_ban_list x nonce r l =
     (if bl_banned l = [] then Inr None
      else bindr (rec_err (ban_list_bytes x l)) (\<lambda>plain.
        bindr (ok_or (pad_ban_list plain) (Change LimitReached)) (\<lambda>plain.
        bindr (record_master x r) (\<lambda>master.
        bindr (crypt_err (field_seal x nonce (state_key x master) FBanList [] plain)) (\<lambda>sealed.
        Inr (Some (encode x sealed)))))))"

section \<open>Attributes and invitations\<close>

fun attribute_value :: "group_attributes \<Rightarrow> group_attribute \<Rightarrow> string option" where
  "attribute_value a Title = at_title a"
| "attribute_value a Description = at_description a"
| "attribute_value a Timer = at_timer a"
| "attribute_value a Avatar = at_avatar a"

fun attribute_field :: "group_attribute \<Rightarrow> sealed_field" where
  "attribute_field Title = FTitle"
| "attribute_field Description = FDescription"
| "attribute_field Timer = FTimer"
| "attribute_field Avatar = FAvatar"

definition attribute :: "'a client_ext_scheme \<Rightarrow> group_record \<Rightarrow> group_attribute \<Rightarrow> group_error + bytes option" where
  "attribute x r a =
     bindr (verified x r) (\<lambda>held.
     case held of None \<Rightarrow> Inr None
     | Some (s, _) \<Rightarrow>
         (case attribute_value (st_attributes s) a of None \<Rightarrow> Inr None
          | Some value \<Rightarrow>
              bindr (record_master x r) (\<lambda>master.
              bindr (base64_decode x value) (\<lambda>sealed.
              bindr (map_err (\<lambda>e. Sealed (crypto_error_text e))
                (field_open x (state_key x master) (attribute_field a) [] sealed)) (\<lambda>plain. Inr (Some plain))))))"

definition seal_attribute ::
  "'a client_ext_scheme \<Rightarrow> bytes \<Rightarrow> group_record \<Rightarrow> group_attribute \<Rightarrow> bytes \<Rightarrow> group_error + string" where
  "seal_attribute x nonce r a plain =
     bindr (record_master x r) (\<lambda>master.
     bindr (crypt_err (field_seal x nonce (state_key x master) (attribute_field a) [] plain)) (\<lambda>sealed.
     Inr (encode x sealed)))"

text \<open>The slot id, the claim key's seed and the nonce are the random values drawn.\<close>

definition invite ::
  "'a client_ext_scheme \<Rightarrow> bytes \<Rightarrow> bytes \<Rightarrow> bytes \<Rightarrow> group_record \<Rightarrow> account_ref \<Rightarrow> group_role \<Rightarrow>
   group_error + group_action \<times> group_invite \<times> bytes" where
  "invite x slot_id claim_seed nonce r account role =
     bindr (verified x r) (\<lambda>held.
     bindr (ok_or held (RecordError ''no verified state yet'')) (\<lambda>(s, _).
     let claim_key = key_pair_from_seed x claim_seed in
     bindr (record_master x r) (\<lambda>master.
     bindr (rec_err (canonical_json_bytes validate_slot_entry (slot_entry_to_json x)
         \<lparr>se_version = group_format_version, se_account = account\<rparr>)) (\<lambda>entry.
     bindr (crypt_err (field_seal x nonce (state_key x master) FSlotEntry slot_id entry)) (\<lambda>sealed.
     let action = AddSlot (encode x slot_id) role (encode x (kp_public claim_key)) (encode x sealed);
         title = (case attribute x r Title of
           Inr (Some bs) \<Rightarrow> if valid_utf8 bs \<and> char_count (string_of_bytes bs) \<le> max_invite_title_chars
             then Some (string_of_bytes bs) else None
         | _ \<Rightarrow> None);
         invite = \<lparr>iv_version = group_format_version, iv_group_id = gr_group_id r,
           iv_master_key = gr_master_key r, iv_home = gr_home r, iv_slot_id = encode x slot_id,
           iv_slot_revision = st_revision s + 1, iv_claim_key_seed = encode x (kp_seed claim_key),
           iv_title = title\<rparr>
     in bindr (rec_err (validate_invite x invite)) (\<lambda>_.
        Inr (action, invite, kp_public claim_key)))))))"

end
