(* ===== verification/Group_Record_Facts.thy ===== *)
theory Group_Record_Facts
  imports Group_View Group_Log
begin

text \<open>
  What a device can rely on in its group record: accepted changes and states, what may replace a
  stored record, the chain of changes a record stands for, the changes it authors, joining.
\<close>

section \<open>The outside world as documented\<close>

text \<open>Base64 and the JSON of a state read back what they wrote; SHA-256 gives 32 bytes.\<close>

definition record_law :: "'a group_ext_scheme \<Rightarrow> bool" where
  "record_law x \<longleftrightarrow> std_law x \<and> (\<forall>b. length (sha256 x b) = 32) \<and>
     (\<forall>s b. state_to_json x s = Some b \<longrightarrow> state_from_json x b = Some s)"

lemma record_lawD:
  assumes "record_law x"
  shows "std_decode x (std_encode x b) = Some b" "length (sha256 x b) = 32"
    "state_to_json x s = Some b \<Longrightarrow> state_from_json x b = Some s"
  using assms by (auto simp: record_law_def)

lemma decode_encode: "std_law x \<Longrightarrow> decode_exact x n f (encode x b) = Inr c \<longleftrightarrow> length b = n \<and> c = b"
  by (auto simp: decode_exact_def encode_def)

section \<open>Reading a record\<close>

lemma pseudonym_text_cong: "gr_pseudonym_seed r = gr_pseudonym_seed q \<Longrightarrow> pseudonym_text x r = pseudonym_text x q"
  by (simp add: pseudonym_text_def record_pseudonym_def)

lemma verified_cong: "gr_state r = gr_state q \<Longrightarrow> gr_head r = gr_head q \<Longrightarrow> verified x r = verified x q"
  by (simp add: verified_def)

lemma set_verified_Inr:
  "set_verified x r s h = Inr r' \<longleftrightarrow> (\<exists>bs me. state_canonical_bytes x s = Inr bs \<and> pseudonym_text x r = Inr me \<and>
     r' = r\<lparr>gr_state := Some (encode x bs), gr_head := Some (encode x h), gr_status := status_in r s me\<rparr>)"
proof -
  have "pseudonym_text x (r\<lparr>gr_state := a, gr_head := b\<rparr>) = pseudonym_text x r" for a b
    by (rule pseudonym_text_cong) simp
  moreover have "status_in (r\<lparr>gr_state := a, gr_head := b\<rparr>) s me = status_in r s me" for a b me
    by (cases "gr_status r") (simp_all add: status_in_def is_invited_def is_my_slot_def)
  ultimately show ?thesis by (auto simp: set_verified_def Let_def)
qed

lemma verified_written:
  assumes "record_law x" "state_canonical_bytes x s = Inr bs" "length h = hash_len"
    "gr_state r = Some (encode x bs)" "gr_head r = Some (encode x h)"
  shows "verified x r = Inr (Some (s, h))"
proof -
  have "std_law x" using assms(1) by (simp add: record_law_def)
  moreover have "state_to_json x s = Some bs" using assms(2) by (auto simp: state_canonical_bytes_def)
  ultimately show ?thesis
    using assms record_lawD [OF assms(1)] decode_encode [of x hash_len "''head''" h]
    by (simp add: verified_def base64_decode_def encode_def state_from_canonical_bytes_def)
qed

lemma hash_of_change_length: "record_law x \<Longrightarrow> hash_of_change x c = Inr h \<Longrightarrow> length h = hash_len"
  by (auto simp: hash_of_change_def change_hash_def record_lawD hash_len_def)

section \<open>An accepted change\<close>

lemma accept_genesis_Inr:
  "accept_genesis x r c = Inr s \<Longrightarrow> check_genesis x c (gr_home r) limits_max = Inr s"
  by (auto simp: accept_genesis_def)

lemma followed_history_Inr:
  "followed_history x r = Inr h \<longleftrightarrow> h = ca_identity_history (gr_gateway r) \<and>
     (\<exists>d. follow x (gr_home r) h = Inr d \<and> fd_server d = pin_server (gr_home r))"
  by (auto simp: followed_history_def Let_def)

lemma accept_change_InrD:
  assumes "accept_change x r c n = Inr (r', s')"
  obtains held hash gid history sh q where
    "ch_group_id c = gr_group_id r" "verified x r = Inr held"
    "case held of None \<Rightarrow> ch_revision c = 0 \<and> check_genesis x c (gr_home r) limits_max = Inr s'
     | Some (s, h) \<Rightarrow> check_change x s h c limits_max = Inr s'"
    "hash_of_change x c = Inr hash" "decode_group_id x (gr_group_id r) = Inr gid"
    "followed_history x r = Inr history" "hash_of_state x s' = Inr sh"
    "notary_verify x n history (gr_notary_sequence r) gid (ch_revision c) hash sh = Inr ()"
    "set_verified x r s' hash = Inr q" "r' = q\<lparr>gr_notary_sequence := Some (no_identity_sequence n)\<rparr>"
proof -
  note result = that
  from assms obtain held hash gid history sh q where a: "ch_group_id c = gr_group_id r" "verified x r = Inr held"
    "(case held of None \<Rightarrow> if ch_revision c = 0 then accept_genesis x r c
        else Inl (RecordError ''a change before any verified state'')
      | Some (state, head) \<Rightarrow> map_err Change (check_change x state head c limits_max)) = Inr s'"
    "hash_of_change x c = Inr hash" "decode_group_id x (gr_group_id r) = Inr gid"
    "followed_history x r = Inr history" "hash_of_state x s' = Inr sh"
    "notary_verify x n history (gr_notary_sequence r) gid (ch_revision c) hash sh = Inr ()"
    "set_verified x r s' hash = Inr q" "r' = q\<lparr>gr_notary_sequence := Some (no_identity_sequence n)\<rparr>"
    by (auto simp: accept_change_def)
  show thesis
    by (rule result [OF a(1,2) _ a(4-10)])
      (use a(3) in \<open>auto split: option.splits prod.splits if_splits dest: accept_genesis_Inr\<close>)
qed

lemma accept_change_frame:
  assumes "accept_change x r c n = Inr (r', s')"
  shows "gr_group_id r' = gr_group_id r" "gr_home r' = gr_home r" "gr_master_key r' = gr_master_key r"
    "gr_pseudonym_seed r' = gr_pseudonym_seed r" "gr_gateway r' = gr_gateway r"
    "gr_join_epoch r' = gr_join_epoch r" "gr_min_revision r' = gr_min_revision r"
    "gr_notary_sequence r' = Some (no_identity_sequence n)"
  using assms by (auto elim!: accept_change_InrD simp: set_verified_Inr)

lemma accept_change_verified:
  assumes "record_law x" "accept_change x r c n = Inr (r', s')"
  shows "\<exists>hash. hash_of_change x c = Inr hash \<and> verified x r' = Inr (Some (s', hash))"
  using assms(2)
proof (rule accept_change_InrD)
  fix held hash gid history sh q
  assume a: "hash_of_change x c = Inr hash" "set_verified x r s' hash = Inr q"
    "r' = q\<lparr>gr_notary_sequence := Some (no_identity_sequence n)\<rparr>"
  from a(2,3) obtain bs where "state_canonical_bytes x s' = Inr bs" "gr_state r' = Some (encode x bs)"
    "gr_head r' = Some (encode x hash)" by (auto simp: set_verified_Inr)
  with verified_written [OF assms(1) _ hash_of_change_length [OF assms(1) a(1)]] a(1)
  show "\<exists>hash. hash_of_change x c = Inr hash \<and> verified x r' = Inr (Some (s', hash))" by blast
qed

lemma accept_change_status:
  assumes "accept_change x r c n = Inr (r', s')"
  shows "\<exists>me. pseudonym_text x r = Inr me \<and> gr_status r' = status_in r s' me"
  using assms by (auto elim!: accept_change_InrD simp: set_verified_Inr)

text \<open>The notary: a document of the followed history, at or after the last notary's, signed exactly
  this revision with this change and this state.\<close>

lemma accept_change_notary:
  assumes "accept_change x r c n = Inr (r', s')"
  shows "\<exists>d gid hash sh key kch sig. d \<in> set (ca_identity_history (gr_gateway r)) \<and>
    fd_sequence d = no_identity_sequence n \<and> decode_group_id x (gr_group_id r) = Inr gid \<and>
    hash_of_change x c = Inr hash \<and> hash_of_state x s' = Inr sh \<and> verifying_key x (fd_key d) = Inr key \<and>
    length kch = 32 \<and> ed25519_ok x key (notary_input gid (ch_revision c) hash sh kch) sig"
    "\<forall>p. gr_notary_sequence r = Some p \<longrightarrow> p \<le> no_identity_sequence n"
    "\<exists>d. follow x (gr_home r) (ca_identity_history (gr_gateway r)) = Inr d"
proof -
  from assms obtain hash gid sh d where a: "hash_of_change x c = Inr hash"
    "decode_group_id x (gr_group_id r) = Inr gid" "hash_of_state x s' = Inr sh"
    "follow x (gr_home r) (ca_identity_history (gr_gateway r)) = Inr d"
    "notary_verify x n (ca_identity_history (gr_gateway r)) (gr_notary_sequence r) gid (ch_revision c) hash sh = Inr ()"
    by (auto elim!: accept_change_InrD simp: followed_history_Inr)
  from notary_verify_Inr(1) [OF a(5)] a(1-3)
  show "\<exists>d gid hash sh key kch sig. d \<in> set (ca_identity_history (gr_gateway r)) \<and>
    fd_sequence d = no_identity_sequence n \<and> decode_group_id x (gr_group_id r) = Inr gid \<and>
    hash_of_change x c = Inr hash \<and> hash_of_state x s' = Inr sh \<and> verifying_key x (fd_key d) = Inr key \<and>
    length kch = 32 \<and> ed25519_ok x key (notary_input gid (ch_revision c) hash sh kch) sig" by blast
  from notary_verify_Inr(2) [OF a(5)] show "\<forall>p. gr_notary_sequence r = Some p \<longrightarrow> p \<le> no_identity_sequence n" .
  from a(4) show "\<exists>d. follow x (gr_home r) (ca_identity_history (gr_gateway r)) = Inr d" ..
qed

section \<open>The chain a record stands for\<close>

fun accept_all ::
  "'a client_ext_scheme \<Rightarrow> group_record \<Rightarrow> (group_change \<times> group_notary) list \<Rightarrow> group_error + group_record" where
  "accept_all x r [] = Inr r"
| "accept_all x r ((c, n) # cns) = bindr (accept_change x r c n) (\<lambda>(r, _). accept_all x r cns)"

lemma accept_all_snoc:
  "accept_all x r (cns @ [(c, n)]) = bindr (accept_all x r cns) (\<lambda>r. bindr (accept_change x r c n) (\<lambda>(r, _). Inr r))"
  by (induction x r cns rule: accept_all.induct) (auto simp: bindr_def split: sum.splits)

lemma accept_all_log:
  assumes "record_law x" "verified x r = Inr None"
  shows "accept_all x r cns = Inr r' \<Longrightarrow> cns \<noteq> [] \<Longrightarrow> gr_home r' = gr_home r \<and> gr_group_id r' = gr_group_id r \<and>
    (\<exists>s h. verified x r' = Inr (Some (s, h)) \<and> group_log x (gr_home r) limits_max (map fst cns) s h)"
proof (induction cns arbitrary: r' rule: rev_induct)
  case Nil
  then show ?case by simp
next
  case (snoc cn cns)
  obtain c n where cn: "cn = (c, n)" by (cases cn)
  from snoc.prems(1) obtain q s' where q: "accept_all x r cns = Inr q" "accept_change x q c n = Inr (r', s')"
    by (auto simp: cn accept_all_snoc)
  note fr = accept_change_frame [OF q(2)]
  from accept_change_verified [OF assms(1) q(2)] obtain hash where
    hash: "hash_of_change x c = Inr hash" "verified x r' = Inr (Some (s', hash))" by blast
  show ?case
  proof (cases "cns = []")
    case True
    with q have "q = r" by simp
    with q(2) assms(2) have "check_genesis x c (gr_home r) limits_max = Inr s'"
      by (auto elim!: accept_change_InrD)
    from group_log.genesis [OF this hash(1)] hash(2) fr \<open>q = r\<close> True show ?thesis by (auto simp: cn)
  next
    case False
    from snoc.IH [OF q(1) this] obtain s h where s: "gr_home q = gr_home r" "gr_group_id q = gr_group_id r"
      "verified x q = Inr (Some (s, h))" "group_log x (gr_home r) limits_max (map fst cns) s h" by blast
    from q(2) s(3) have "check_change x s h c limits_max = Inr s'" by (auto elim!: accept_change_InrD)
    from group_log.change [OF s(4) this hash(1)] hash(2) fr s(1,2) show ?thesis by (auto simp: cn)
  qed
qed

section \<open>What may replace a stored record\<close>

definition record_le :: "'a group_ext_scheme \<Rightarrow> group_record \<Rightarrow> group_record \<Rightarrow> bool" where
  "record_le x stored r \<longleftrightarrow> gr_group_id r = gr_group_id stored \<and>
     (\<forall>s h. verified x stored = Inr (Some (s, h)) \<longrightarrow> (\<exists>s' h'. verified x r = Inr (Some (s', h')) \<and>
        (st_revision s < st_revision s' \<or> (st_revision s = st_revision s' \<and> h = h'))))"

lemma record_le_refl: "record_le x r r"
  by (simp add: record_le_def)

lemma record_le_trans:
  assumes "record_le x a b" "record_le x b c"
  shows "record_le x a c"
  unfolding record_le_def
proof (intro conjI allI impI)
  show "gr_group_id c = gr_group_id a" using assms by (simp add: record_le_def)
  fix s h
  assume "verified x a = Inr (Some (s, h))"
  with assms(1) obtain s' h' where b: "verified x b = Inr (Some (s', h'))"
    "st_revision s < st_revision s' \<or> (st_revision s = st_revision s' \<and> h = h')"
    unfolding record_le_def by blast
  with assms(2) obtain s'' h'' where "verified x c = Inr (Some (s'', h''))"
    "st_revision s' < st_revision s'' \<or> (st_revision s' = st_revision s'' \<and> h' = h'')"
    unfolding record_le_def by blast
  with b(2) show "\<exists>s' h'. verified x c = Inr (Some (s', h')) \<and>
      (st_revision s < st_revision s' \<or> st_revision s = st_revision s' \<and> h = h')"
    by (intro exI [of _ s''] exI [of _ h'']) auto
qed

lemma may_replace_cases:
  assumes "may_replace x r stored = Inr u"
  obtains (empty) mine where "gr_group_id r = gr_group_id stored" "verified x r = Inr mine" "verified x stored = Inr None"
  | (kept) s' h' s h where "gr_group_id r = gr_group_id stored" "verified x r = Inr (Some (s', h'))"
    "verified x stored = Inr (Some (s, h))"
    "st_revision s < st_revision s' \<or> (st_revision s = st_revision s' \<and> h = h' \<and> \<not> regressed r stored (st_revision s))"
proof -
  from assms obtain mine theirs where m: "gr_group_id r = gr_group_id stored" "verified x r = Inr mine"
    "verified x stored = Inr theirs" by (auto simp: may_replace_def)
  show thesis
  proof (cases theirs)
    case None
    with m empty show thesis by simp
  next
    case (Some t)
    obtain s h where t: "theirs = Some (s, h)" using Some by (cases t) simp
    with m assms obtain s' h' where m': "mine = Some (s', h')"
      by (cases mine) (auto simp: may_replace_def)
    with m t assms have "st_revision s < st_revision s' \<or>
        (st_revision s = st_revision s' \<and> h = h' \<and> \<not> regressed r stored (st_revision s))"
      by (auto simp: may_replace_def Let_def split: if_split_asm)
    with m m' t kept show thesis by simp
  qed
qed

lemma may_replace_le: "may_replace x r stored = Inr u \<Longrightarrow> record_le x stored r"
  by (erule may_replace_cases) (auto simp: record_le_def)

lemma may_replace_higher:
  assumes "gr_group_id r = gr_group_id stored" "verified x r = Inr (Some (s', h'))" "verified x stored = Inr held"
    "\<And>s h. held = Some (s, h) \<Longrightarrow> st_revision s < st_revision s'"
  shows "may_replace x r stored = Inr ()"
proof (cases held)
  case None
  with assms(1-3) show ?thesis by (simp add: may_replace_def)
next
  case (Some t)
  obtain s h where "held = Some (s, h)" using Some by (cases t) simp
  moreover from assms(4) [OF this] have "st_revision s < st_revision s'" "st_revision s \<noteq> st_revision s'" by auto
  ultimately show ?thesis using assms(1-3) by (simp add: may_replace_def Let_def)
qed

lemma accept_change_replaces:
  assumes "record_law x" "accept_change x r c n = Inr (r', s')"
  shows "may_replace x r' r = Inr ()"
proof -
  from accept_change_verified [OF assms] obtain hash where v: "verified x r' = Inr (Some (s', hash))" by blast
  from assms(2) show ?thesis
  proof (rule accept_change_InrD)
    fix held
    assume h: "verified x r = Inr held" "case held of None \<Rightarrow> ch_revision c = 0 \<and>
        check_genesis x c (gr_home r) limits_max = Inr s' | Some (s, h) \<Rightarrow> check_change x s h c limits_max = Inr s'"
    show ?thesis
    proof (rule may_replace_higher [OF accept_change_frame(1) [OF assms(2)] v h(1)])
      fix s hd
      assume "held = Some (s, hd)"
      with h(2) have "check_change x s hd c limits_max = Inr s'" by simp
      from check_change_facts(3) [OF this] show "st_revision s < st_revision s'" by (simp add: word_less_nat_alt)
    qed
  qed
qed

section \<open>An accepted state\<close>

lemma accept_state_InrD:
  assumes "accept_state x r s c n = Inr r'"
  obtains kept hash gid history sh q me where
    "validate_state x s = Inr ()" "st_group_id s = gr_group_id r" "ch_group_id c = gr_group_id r"
    "ch_revision c = st_revision s" "st_home s = gr_home r" "verified x r = Inr kept"
    "kept = None \<or> is_invited r \<or> gr_status r = Requesting"
    "\<And>k h. kept = Some (k, h) \<Longrightarrow> st_revision k < st_revision s" "gr_min_revision r \<le> st_revision s"
    "pseudonym_text x r = Inr me" "member s me \<noteq> None"
    "hash_of_change x c = Inr hash" "decode_group_id x (gr_group_id r) = Inr gid"
    "followed_history x r = Inr history" "hash_of_state x s = Inr sh"
    "notary_verify x n history (if kept = None then None else gr_notary_sequence r) gid (st_revision s) hash sh = Inr ()"
    "set_verified x r s hash = Inr q" "r' = q\<lparr>gr_notary_sequence := Some (no_identity_sequence n)\<rparr>"
proof -
  note result = that
  from assms obtain kept me hash gid history sh q u v where a:
    "validate_state x s = Inr u" "\<not> (st_group_id s \<noteq> gr_group_id r \<or> ch_group_id c \<noteq> gr_group_id r \<or>
       ch_revision c \<noteq> st_revision s \<or> st_home s \<noteq> gr_home r)" "verified x r = Inr kept"
    "\<not> (kept \<noteq> None \<and> \<not> (is_invited r \<or> gr_status r = Requesting))"
    "case kept of None \<Rightarrow> True | Some (k, _) \<Rightarrow> \<not> st_revision s \<le> st_revision k"
    "\<not> st_revision s < gr_min_revision r" "pseudonym_text x r = Inr me" "member s me \<noteq> None"
    "hash_of_change x c = Inr hash" "decode_group_id x (gr_group_id r) = Inr gid"
    "followed_history x r = Inr history" "hash_of_state x s = Inr sh"
    "notary_verify x n history (if kept = None then None else gr_notary_sequence r) gid (st_revision s) hash sh = Inr v"
    "set_verified x r s hash = Inr q" "q\<lparr>gr_notary_sequence := Some (no_identity_sequence n)\<rparr> = r'"
    by (simp only: accept_state_def bindr_Inr_iff require_Inr_iff map_err_Inr_iff sum.inject) blast
  show thesis
  proof (rule result [OF _ _ _ _ _ a(3) _ _ _ a(7,8,9,10,11,12) _ a(14) a(15) [symmetric]])
    show "st_revision k < st_revision s" if "kept = Some (k, h)" for k h
      using a(5) that by simp
  qed (use a(1,2,4,6,13) in auto)
qed

lemma accept_state_verified:
  assumes "record_law x" "accept_state x r s c n = Inr r'"
  shows "\<exists>hash. hash_of_change x c = Inr hash \<and> verified x r' = Inr (Some (s, hash))" "may_replace x r' r = Inr ()"
    "gr_status r' = StatusMember" "gr_group_id r' = gr_group_id r" "gr_home r' = gr_home r"
proof -
  from assms(2) obtain kept hash q me where a: "verified x r = Inr kept"
    "\<And>k h. kept = Some (k, h) \<Longrightarrow> st_revision k < st_revision s" "pseudonym_text x r = Inr me" "member s me \<noteq> None"
    "hash_of_change x c = Inr hash" "set_verified x r s hash = Inr q"
    "r' = q\<lparr>gr_notary_sequence := Some (no_identity_sequence n)\<rparr>" by (rule accept_state_InrD) blast
  from a(3,4,6,7) show f: "gr_status r' = StatusMember" "gr_group_id r' = gr_group_id r" "gr_home r' = gr_home r"
    by (auto simp: set_verified_Inr status_in_def)
  from a(6,7) obtain bs where "state_canonical_bytes x s = Inr bs" "gr_state r' = Some (encode x bs)"
    "gr_head r' = Some (encode x hash)" by (auto simp: set_verified_Inr)
  with verified_written [OF assms(1) _ hash_of_change_length [OF assms(1) a(5)]] have v: "verified x r' = Inr (Some (s, hash))"
    by blast
  with a(5) show "\<exists>hash. hash_of_change x c = Inr hash \<and> verified x r' = Inr (Some (s, hash))" by blast
  from may_replace_higher [OF f(2) v a(1,2)] show "may_replace x r' r = Inr ()" .
qed

end
