(* ===== verification/Group_Author.thy ===== *)
theory Group_Author
  imports Group_Record_Facts Group_Entry_Rules
begin

text \<open>
  What a device makes, others accept: the changes it authors, the group it creates, the claim an
  invitation lets it make; and what it seals, its members read.
\<close>

section \<open>Signatures do not change a change's effect\<close>

lemma apply_action_same:
  "ch_actor c = ch_actor d \<Longrightarrow> ch_revision c = ch_revision d \<Longrightarrow> ch_group_id c = ch_group_id d \<Longrightarrow>
     apply_action x b n c adm l a = apply_action x b n d adm l a"
  by (cases a; simp only: apply_action.simps apply_add_slot_def apply_revoke_slot_def apply_claim_def
      apply_join_from_link_def apply_request_to_join_def apply_cancel_request_def apply_approve_request_def
      apply_remove_member_def apply_modify_own_entry_def apply_ban_def)

lemma apply_action_resigned [simp]:
  "apply_action x b n (c\<lparr>ch_resulting_state_hash := h\<rparr>) adm l a = apply_action x b n c adm l a"
  "apply_action x b n (c\<lparr>ch_signature := g\<rparr>) adm l a = apply_action x b n c adm l a"
  by (rule apply_action_same; simp)+
lemma apply_actions_resigned [simp]:
  "apply_actions x s (c\<lparr>ch_resulting_state_hash := h\<rparr>) l n as = apply_actions x s c l n as"
  "apply_actions x s (c\<lparr>ch_signature := g\<rparr>) l n as = apply_actions x s c l n as"
  by (induction "as" arbitrary: n) (simp_all add: Let_def cong del: bindr_cong)

lemma validate_shape_signature [simp]: "validate_shape x (c\<lparr>ch_signature := g\<rparr>) = validate_shape x c"
  by (simp add: validate_shape_def is_newcomers_change_def cong del: bindr_cong)

lemma signed_bytes_signature [simp]: "signed_bytes x (c\<lparr>ch_signature := g\<rparr>) = signed_bytes x c"
proof -
  have "c\<lparr>ch_signature := g, ch_signature := ''''\<rparr> = c\<lparr>ch_signature := ''''\<rparr>" by simp
  then show ?thesis by (simp add: signed_bytes_def cong del: bindr_cong)
qed

lemma is_newcomers_resigned [simp]:
  "is_newcomers_change (c\<lparr>ch_resulting_state_hash := h\<rparr>) = is_newcomers_change c"
  "is_newcomers_change (c\<lparr>ch_signature := g\<rparr>) = is_newcomers_change c"
  by (simp_all add: is_newcomers_change_def)

lemma next_state_signature [simp]: "next_state x s h (c\<lparr>ch_signature := g\<rparr>) l = next_state x s h c l"
  by (simp add: next_state_def cong del: bindr_cong)

lemma validate_shape_rehashed:
  assumes "std_law x" "length hash = hash_len" "\<not> is_newcomers_change c" "validate_shape x c = Inr u"
  shows "validate_shape x (c\<lparr>ch_resulting_state_hash := Some (encode x hash)\<rparr>) = Inr ()"
  using assms by (auto simp: validate_shape_def decode_encode split: option.splits bool.splits)

lemma next_state_rehashed:
  assumes "std_law x" "length hash = hash_len" "\<not> is_newcomers_change c" "next_state x s h c l = Inr n"
  shows "next_state x s h (c\<lparr>ch_resulting_state_hash := Some (encode x hash)\<rparr>) l = Inr n"
  using assms(4) validate_shape_rehashed [OF assms(1-3)] by (auto simp: next_state_def)

lemma genesis_state_rehashed:
  assumes "std_law x" "length hash = hash_len" "\<not> is_newcomers_change c" "genesis_state x c home l = Inr n"
  shows "genesis_state x (c\<lparr>ch_resulting_state_hash := Some (encode x hash)\<rparr>) home l = Inr n"
  using assms(4) validate_shape_rehashed [OF assms(1-3)] by (auto simp: genesis_state_def genesis_action_Some Let_def)

lemma genesis_state_signature [simp]: "genesis_state x (c\<lparr>ch_signature := g\<rparr>) home l = genesis_state x c home l"
  by (simp add: genesis_state_def cong del: bindr_cong)

section \<open>Signing\<close>

lemma sign_group_change_Inr:
  assumes "\<not> is_newcomers_change c"
  shows "sign_group_change x c k n = Inr d \<longleftrightarrow> (\<exists>hash bs. hash_of_state x n = Inr hash \<and>
    signed_bytes x (c\<lparr>ch_resulting_state_hash := Some (encode x hash)\<rparr>) = Inr bs \<and>
    d = c\<lparr>ch_resulting_state_hash := Some (encode x hash), ch_signature := encode x (sign_change x k bs)\<rparr>)"
  using assms by (auto simp: sign_group_change_def)

lemma signed_by_actor:
  assumes "std_law x" "ed25519_law x" "length (kp_seed k) = 32" "kp_public k = ed25519_public x (kp_seed k)"
    "signed_bytes x c = Inr bs" "ch_actor c = encode x (kp_public k)"
  shows "verify_actor_signature x (c\<lparr>ch_signature := encode x (sign_change x k bs)\<rparr>) = Inr ()"
proof -
  from assms(2,3) have "length (sign_change x k bs) = 64" "length (kp_public k) = 32"
    "verify_group_signature x (kp_public k) (change_signed_bytes bs) (sign_change x k bs)"
    by (auto simp: ed25519_law_def sign_change_def verify_group_signature_def assms(4))
  with assms(1,5,6) show ?thesis
    by (simp add: verify_actor_signature_def decode_pseudonym_def public_key_len_def decode_encode
        verify_change_signature_def)
qed

lemma record_pseudonym_Inr:
  assumes "record_pseudonym x r = Inr k"
  shows "length (kp_seed k) = 32" "kp_public k = ed25519_public x (kp_seed k)"
  using assms by (auto simp: record_pseudonym_def key_pair_from_seed_def decode_exact_def)

lemma hash_of_state_length: "(\<And>b. length (sha256 x b) = 32) \<Longrightarrow> hash_of_state x s = Inr h \<Longrightarrow> length h = hash_len"
  by (auto simp: hash_of_state_def state_hash_def hash_len_def)

text \<open>A newcomer's actions cannot be authored: the shape refuses the resulting state the author names.\<close>

lemma named_not_newcomers:
  "validate_shape x c = Inr u \<Longrightarrow> ch_resulting_state_hash c = Some h \<Longrightarrow> \<not> is_newcomers_change c"
  by (auto simp: validate_shape_def)

lemma authored_change_accepted:
  assumes laws: "record_law x" "ed25519_law x"
    and "author_change x r acts = Inr c" "verified x r = Inr (Some (s, h))"
  shows "\<exists>s'. check_change x s h c limits_max = Inr s' \<and> ch_actions c = acts \<and> pseudonym_text x r = Inr (ch_actor c)"
proof -
  let ?change = "\<lambda>k. \<lparr>ch_version = group_format_version, ch_group_id = gr_group_id r,
      ch_revision = st_revision s + 1, ch_previous_hash = encode x h, ch_actor = encode x (kp_public k),
      ch_actions = acts, ch_resulting_state_hash = Some (encode x (replicate hash_len 0)), ch_signature = ''''\<rparr>"
  from assms(3,4) obtain k nxt where k: "record_pseudonym x r = Inr k" and
    a: "next_state x s h (?change k) limits_max = Inr nxt" and sg: "sign_group_change x (?change k) k nxt = Inr c"
    by (auto simp: author_change_def Let_def resulting_state_def)
  let ?c = "?change k"
  have std: "std_law x" "\<And>b. length (sha256 x b) = 32" using laws(1) by (auto simp: record_law_def)
  from a have "validate_shape x ?c = Inr ()" by (auto simp: next_state_def)
  from named_not_newcomers [OF this] have nn: "\<not> is_newcomers_change ?c" by simp
  from sg obtain hash bs where hb: "hash_of_state x nxt = Inr hash"
    "signed_bytes x (?c\<lparr>ch_resulting_state_hash := Some (encode x hash)\<rparr>) = Inr bs"
    "c = ?c\<lparr>ch_resulting_state_hash := Some (encode x hash), ch_signature := encode x (sign_change x k bs)\<rparr>"
    unfolding sign_group_change_Inr [OF nn] by blast
  have nx: "next_state x s h c limits_max = Inr nxt"
    unfolding hb(3) next_state_signature
    by (rule next_state_rehashed [OF std(1) hash_of_state_length [OF std(2) hb(1)] nn a])
  have "verify_actor_signature x c = Inr ()"
    unfolding hb(3) by (rule signed_by_actor [OF std(1) laws(2) record_pseudonym_Inr [OF k] hb(2)]) simp
  with nx hb(1,3) k show ?thesis
    by (auto simp: check_change_def compare_hash_def pseudonym_text_def)
qed

section \<open>The whole outside world\<close>

text \<open>The laws the client relies on: those of the record, base64url, Ed25519, the AEAD, HKDF's output
  length, and the JSON of member entries and ban lists read back.\<close>

definition client_law :: "'a client_ext_scheme \<Rightarrow> bool" where
  "client_law x \<longleftrightarrow> record_law x \<and> url_law x \<and> ed25519_law x \<and> aead_law x \<and>
     (\<forall>s k i n. length (hkdf_sha256 x s k i n) = n) \<and>
     (\<forall>e b. member_entry_to_json x e = Some b \<longrightarrow> member_entry_from_json x b = Some e) \<and>
     (\<forall>l b. ban_list_to_json x l = Some b \<longrightarrow> ban_list_from_json x b = Some l)"

lemma client_lawD:
  assumes "client_law x"
  shows "record_law x" "std_law x" "url_law x" "ed25519_law x" "aead_law x" "length (sha256 x b) = 32"
    "length (hkdf_sha256 x s k i n) = n"
    "member_entry_to_json x e = Some b \<Longrightarrow> member_entry_from_json x b = Some e"
    "ban_list_to_json x l = Some b \<Longrightarrow> ban_list_from_json x b = Some l"
  using assms by (auto simp: client_law_def record_law_def)

lemma canonical_json_back:
  assumes "canonical_json_bytes v to_json e = Inr b" "\<And>e b. to_json e = Some b \<Longrightarrow> from_json b = Some e"
  shows "from_canonical_json_bytes n v to_json from_json b = Inr e"
  using assms by (auto simp: canonical_json_bytes_def from_canonical_json_bytes_def)

section \<open>Sealed entries\<close>

lemma sealed_entry_opens:
  assumes law: "client_law x"
    and "seal_member_entry x nonce key gid pseudonym me profile_key seed = Inr entry" "length pseudonym = 32"
  shows "\<exists>sig sealed plain e. sign_binding x seed gid pseudonym me = Some sig \<and>
    e = \<lparr>me_version = group_format_version, me_account = me, me_profile_key = encode x profile_key,
      me_binding_signature = encode x sig\<rparr> \<and> base64_decode x entry = Inr sealed \<and>
    field_open x key FMemberEntry pseudonym sealed = Inr plain \<and> member_entry_from_bytes x plain = Inr e \<and>
    opened_entry x key (encode x pseudonym) entry = Some (pseudonym, e)"
proof -
  from assms(2) obtain sig plain sealed where a: "sign_binding x seed gid pseudonym me = Some sig"
    "member_entry_bytes x \<lparr>me_version = group_format_version, me_account = me,
      me_profile_key = encode x profile_key, me_binding_signature = encode x sig\<rparr> = Inr plain"
    "field_seal x nonce key FMemberEntry pseudonym plain = Inr sealed" "entry = encode x sealed"
    by (auto simp: seal_member_entry_def Let_def)
  from field_open_seal [OF client_lawD(5) [OF law] a(3)]
  have o: "field_open x key FMemberEntry pseudonym sealed = Inr plain" by simp
  have m: "member_entry_from_bytes x plain = Inr \<lparr>me_version = group_format_version, me_account = me,
      me_profile_key = encode x profile_key, me_binding_signature = encode x sig\<rparr>"
    unfolding member_entry_from_bytes_def using a(2) [unfolded member_entry_bytes_def] client_lawD(8) [OF law]
    by (rule canonical_json_back)
  have b: "base64_decode x entry = Inr sealed"
    using client_lawD(2) [OF law] by (simp add: a(4) base64_decode_def encode_def)
  have d: "decode_exact x 32 ''pseudonym'' (encode x pseudonym) = Inr pseudonym"
    using client_lawD(2) [OF law] assms(3) by (simp add: decode_encode)
  have "opened_entry x key (encode x pseudonym) entry = Some (pseudonym, \<lparr>me_version = group_format_version,
      me_account = me, me_profile_key = encode x profile_key, me_binding_signature = encode x sig\<rparr>)"
    by (simp add: opened_entry_def d b o m)
  with a(1) b o m show ?thesis by blast
qed

lemma pseudonym_at_facts:
  assumes "client_law x"
  shows "length (kp_seed (pseudonym_at x mk gid e)) = 32" "length (kp_public (pseudonym_at x mk gid e)) = 32"
    "kp_public (pseudonym_at x mk gid e) = ed25519_public x (kp_seed (pseudonym_at x mk gid e))"
  using client_lawD(4,7) [OF assms]
  by (simp_all add: pseudonym_at_def key_pair_from_seed_def pseudonym_seed_def ed25519_law_def)

lemma group_id_back:
  "client_law x \<Longrightarrow> decode_group_id x (encode_group_id x (group_id_of x m)) = Inr (group_id_of x m)"
proof -
  assume law: "client_law x"
  note url_lawD [OF client_lawD(3) [OF law], simp] client_lawD(7) [OF law, simp]
  show ?thesis by (simp add: decode_group_id_def encode_group_id_def group_id_of_def master_expand_def)
qed

lemma master_at_back:
  assumes "client_law x" "master_from_bytes x key home = Inr m"
  shows "master_at x (encode x key) (encode_group_id x (group_id_of x m)) home = Inr m"
proof -
  have "length key = 32" using assms(2) by (simp add: master_from_bytes_def)
  with assms(2) group_id_back [OF assms(1)] client_lawD(2) [OF assms(1)] show ?thesis
    by (simp add: master_at_def decode_encode)
qed

section \<open>Creating a group\<close>

lemma created_group_accepted:
  assumes law: "client_law x"
    and "create_group x random_key nonce home me profile_key keys = Inr (r, c)" "length random_key = 32"
  shows "\<exists>s. check_genesis x c home limits_max = Inr s \<and> accept_genesis x r c = Inr s \<and> gr_home r = home \<and>
    gr_group_id r = ch_group_id c \<and> pseudonym_text x r = Inr (ch_actor c) \<and> verified x r = Inr None"
proof -
  note std = client_lawD(2) [OF law]
  define dig where "dig = (\<lambda>m :: group_master_key. pseudonym_at x (ak_master_key keys) (group_id_of x m) 0)"
  let ?change = "\<lambda>m entry. \<lparr>ch_version = group_format_version, ch_group_id = encode_group_id x (group_id_of x m),
      ch_revision = 0, ch_previous_hash = encode x (replicate hash_len 0), ch_actor = encode x (kp_public (dig m)),
      ch_actions = [Genesis home access_default entry],
      ch_resulting_state_hash = Some (encode x (replicate hash_len 0)), ch_signature = ''''\<rparr>"
  from assms(2) obtain m entry first where m: "master_generate x random_key home = Inr m" and
    e: "seal_member_entry x nonce (state_key x m) (group_id_of x m) (kp_public (dig m)) me profile_key
      (ak_authority_seed keys) = Inr entry" and
    g: "genesis_state x (?change m entry) home limits_max = Inr first" and
    s: "sign_group_change x (?change m entry) (dig m) first = Inr c" and
    r: "r = fresh_record x (ch_group_id c) (encode x (gm_key m)) home (kp_seed (dig m)) StatusMember 0 0"
    by (auto simp: create_group_def Let_def resulting_genesis_state_def dig_def)
  have nn: "\<not> is_newcomers_change (?change m entry)" by (simp add: is_newcomers_change_def)
  from s obtain hash bs where hb: "hash_of_state x first = Inr hash"
    "signed_bytes x (?change m entry\<lparr>ch_resulting_state_hash := Some (encode x hash)\<rparr>) = Inr bs"
    "c = ?change m entry\<lparr>ch_resulting_state_hash := Some (encode x hash),
       ch_signature := encode x (sign_change x (dig m) bs)\<rparr>"
    unfolding sign_group_change_Inr [OF nn] by blast
  have gc: "genesis_state x c home limits_max = Inr first"
    unfolding hb(3) genesis_state_signature
    by (rule genesis_state_rehashed [OF std hash_of_state_length [OF client_lawD(6) [OF law] hb(1)] nn g])
  have sg: "verify_actor_signature x c = Inr ()"
    unfolding hb(3) using pseudonym_at_facts [OF law] hb(2)
    by (intro signed_by_actor [OF std client_lawD(4) [OF law]]) (simp_all add: dig_def)
  from gc sg hb(1,3) have chk: "check_genesis x c home limits_max = Inr first"
    by (simp add: check_genesis_def compare_hash_def)
  have mb: "master_from_bytes x random_key home = Inr m" "gm_key m = random_key"
    using m assms(3) by (auto simp: master_generate_def master_from_bytes_def)
  have rm: "record_master x r = Inr m"
    using master_at_back [OF law mb(1)] by (simp add: record_master_def r hb(3) fresh_record_def mb(2))
  have p: "decode_exact x 32 ''pseudonym'' (ch_actor c) = Inr (kp_public (dig m))"
    using pseudonym_at_facts [OF law] std by (simp add: hb(3) decode_encode dig_def)
  have mem: "st_members first = [\<lparr>m_pseudonym = ch_actor c, m_role = Administrator, m_joined_at_revision = 0,
      m_entry = entry\<rparr>]"
    using gc by (auto simp: genesis_state_def genesis_action_Some Let_def hb(3))
  from sealed_entry_opens [OF law e] pseudonym_at_facts(2) [OF law, of "ak_master_key keys" "group_id_of x m" 0]
  obtain sealed plain en where o: "base64_decode x entry = Inr sealed"
    "field_open x (state_key x m) FMemberEntry (kp_public (dig m)) sealed = Inr plain"
    "member_entry_from_bytes x plain = Inr en" by (auto simp: dig_def)
  have hm: "gr_home r = home" "gr_group_id r = ch_group_id c" "verified x r = Inr None"
    by (simp_all add: r fresh_record_def verified_def)
  have ps: "pseudonym_text x r = Inr (ch_actor c)"
    using pseudonym_at_facts [OF law] std
    by (simp add: pseudonym_text_def record_pseudonym_def r fresh_record_def hb(3) decode_encode dig_def
        key_pair_from_seed_def)
  have "accept_genesis x r c = Inr first"
    by (simp add: accept_genesis_def hm(1) chk mem rm p o)
  with chk hm ps show ?thesis by blast
qed

section \<open>Invitations and claims\<close>

lemma invite_InrD:
  assumes "invite x slot_id claim_seed nonce r account role = Inr (action, ivt, key)"
  obtains entry s h where "verified x r = Inr (Some (s, h))"
    "action = AddSlot (encode x slot_id) role (encode x (ed25519_public x claim_seed)) entry"
    "iv_slot_id ivt = encode x slot_id" "iv_slot_revision ivt = st_revision s + 1"
    "iv_claim_key_seed ivt = encode x claim_seed" "iv_group_id ivt = gr_group_id r" "iv_home ivt = gr_home r"
    "iv_master_key ivt = gr_master_key r" "key = ed25519_public x claim_seed"
  using assms
  by (auto simp: invite_def Let_def key_pair_from_seed_def split: prod.splits sum.splits option.splits)

lemma invite_replaces_Inr:
  assumes "invite_replaces x ivt r p = Inr u"
  shows "gr_group_id p = gr_group_id r" "gr_home p = gr_home r" "gr_status p \<noteq> StatusMember"
    "\<forall>s h. verified x p = Inr (Some (s, h)) \<longrightarrow> st_revision s < iv_slot_revision ivt"
  using assms by (auto simp: invite_replaces_def Let_def not_le)

lemma record_from_invite_InrD:
  assumes "record_from_invite x ivt inviter previous listed keys = Inr q"
  obtains gid epoch where "decode_group_id x (iv_group_id ivt) = Inr gid" "next_join_epoch previous listed = Inr epoch"
    "gr_group_id q = iv_group_id ivt" "gr_home q = iv_home ivt" "gr_master_key q = iv_master_key ivt"
    "gr_pseudonym_seed q = encode x (kp_seed (pseudonym_at x (ak_master_key keys) gid epoch))" "gr_join_epoch q = epoch"
    "gr_status q = Invited (iv_slot_id ivt) (iv_slot_revision ivt) (iv_claim_key_seed ivt) inviter (iv_title ivt)"
    "iv_slot_revision ivt \<le> gr_min_revision q"
    "case previous of None \<Rightarrow> gr_state q = None \<and> gr_head q = None
     | Some p \<Rightarrow> gr_state q = gr_state p \<and> gr_head q = gr_head p \<and> gr_min_revision p \<le> gr_min_revision q \<and>
         gr_group_id p = gr_group_id q \<and> gr_home p = gr_home q \<and> gr_status p \<noteq> StatusMember \<and>
         (\<forall>s h. verified x p = Inr (Some (s, h)) \<longrightarrow> st_revision s < iv_slot_revision ivt)"
proof -
  let ?fresh = "\<lambda>gid epoch. fresh_record x (iv_group_id ivt) (iv_master_key ivt) (iv_home ivt)
      (kp_seed (pseudonym_at x (ak_master_key keys) gid epoch))
      (Invited (iv_slot_id ivt) (iv_slot_revision ivt) (iv_claim_key_seed ivt) inviter (iv_title ivt))
      (iv_slot_revision ivt) epoch"
  from assms obtain gid epoch where g: "decode_group_id x (iv_group_id ivt) = Inr gid"
    "next_join_epoch previous listed = Inr epoch"
    "(case previous of None \<Rightarrow> Inr (?fresh gid epoch)
      | Some p \<Rightarrow> bindr (invite_replaces x ivt (?fresh gid epoch) p) (\<lambda>_. Inr (keep_verified (?fresh gid epoch) p
          (max (gr_min_revision (?fresh gid epoch)) (gr_min_revision p))))) = Inr q"
    by (auto simp: record_from_invite_def Let_def)
  show thesis
  proof (rule that [OF g(1,2)])
    show "case previous of None \<Rightarrow> gr_state q = None \<and> gr_head q = None
     | Some p \<Rightarrow> gr_state q = gr_state p \<and> gr_head q = gr_head p \<and> gr_min_revision p \<le> gr_min_revision q \<and>
         gr_group_id p = gr_group_id q \<and> gr_home p = gr_home q \<and> gr_status p \<noteq> StatusMember \<and>
         (\<forall>s h. verified x p = Inr (Some (s, h)) \<longrightarrow> st_revision s < iv_slot_revision ivt)"
      using g(3) by (cases previous) (auto simp: fresh_record_def keep_verified_def dest: invite_replaces_Inr)
  qed (use g(3) in \<open>cases previous; auto simp: fresh_record_def keep_verified_def\<close>)+
qed

lemma invitation_claim:
  assumes law: "client_law x"
    and ivt: "invite x slot_id claim_seed nonce r account role = Inr (action, ivt, key)"
      "length claim_seed = 32" "length slot_id = 16"
    and rec: "record_from_invite x ivt inviter previous listed keys = Inr q"
    and clm: "claim x nonce' q basis me profile_key seed = Inr (q', c)"
  shows "\<exists>sg entry se. ch_actions c = [Claim (iv_slot_id ivt) sg entry] \<and>
    action = AddSlot (iv_slot_id ivt) role (encode x key) se \<and> pseudonym_text x q = Inr (ch_actor c) \<and>
    verify_actor_signature x c = Inr () \<and> ch_revision c = cb_revision basis + 1 \<and>
    ch_revision c \<le> gr_min_revision q' \<and>
    (\<forall>slot. s_slot_id slot = iv_slot_id ivt \<and> s_claim_key slot = encode x key \<and>
       s_created_at_revision slot = iv_slot_revision ivt \<longrightarrow> proves_slot x c slot sg)"
proof -
  note std = client_lawD(2) [OF law]
  from ivt(1) obtain se where i: "action = AddSlot (encode x slot_id) role (encode x key) se"
    "iv_slot_id ivt = encode x slot_id" "iv_claim_key_seed ivt = encode x claim_seed" "key = ed25519_public x claim_seed"
    by (rule invite_InrD) blast
  from rec obtain gid epoch where q: "decode_group_id x (gr_group_id q) = Inr gid"
    "gr_pseudonym_seed q = encode x (kp_seed (pseudonym_at x (ak_master_key keys) gid epoch))"
    "gr_status q = Invited (encode x slot_id) (iv_slot_revision ivt) (encode x claim_seed) inviter (iv_title ivt)"
    by (rule record_from_invite_InrD) (simp add: i)
  define k where "k = pseudonym_at x (ak_master_key keys) gid epoch"
  have kf: "length (kp_seed k) = 32" "length (kp_public k) = 32" "kp_public k = ed25519_public x (kp_seed k)"
    using pseudonym_at_facts [OF law] by (simp_all add: k_def)
  have rp: "record_pseudonym x q = Inr k"
    using std kf(1) q(2) by (simp add: record_pseudonym_def k_def decode_encode) (simp add: pseudonym_at_def key_pair_from_seed_def)
  let ?sg = "encode x (sign_claim x (key_pair_from_seed x claim_seed) gid slot_id (iv_slot_revision ivt) (kp_public k))"
  let ?change = "\<lambda>entry. \<lparr>ch_version = group_format_version, ch_group_id = gr_group_id q,
      ch_revision = cb_revision basis + 1, ch_previous_hash = encode x (cb_head basis),
      ch_actor = encode x (kp_public k), ch_actions = [Claim (encode x slot_id) ?sg entry],
      ch_resulting_state_hash = None, ch_signature = ''''\<rparr>"
  from clm q rp ivt(2,3) obtain entry bs where e: "signed_bytes x (?change entry) = Inr bs"
    "c = ?change entry\<lparr>ch_signature := encode x (sign_change x k bs)\<rparr>"
    "gr_min_revision q' = max (gr_min_revision q) (ch_revision c)"
    by (auto simp: claim_def claim_key_seed_def decode_encode [OF std] slot_id_len_def Let_def newcomer_change_def)
  have "verify_actor_signature x c = Inr ()"
    unfolding e(2) by (rule signed_by_actor [OF std client_lawD(4) [OF law] kf(1,3) e(1)]) simp
  moreover have "proves_slot x c slot ?sg" if "s_slot_id slot = iv_slot_id ivt" "s_claim_key slot = encode x key"
    "s_created_at_revision slot = iv_slot_revision ivt" for slot
  proof -
    from client_lawD(4) [OF law] ivt(2) have "length key = 32"
      "length (sign_claim x (key_pair_from_seed x claim_seed) gid slot_id (iv_slot_revision ivt) (kp_public k)) = 64"
      "verify_group_signature x key (claim_signed_bytes gid slot_id (iv_slot_revision ivt) (kp_public k))
        (sign_claim x (key_pair_from_seed x claim_seed) gid slot_id (iv_slot_revision ivt) (kp_public k))"
      by (auto simp: ed25519_law_def i(4) sign_claim_def key_pair_from_seed_def verify_group_signature_def)
    with std that q(1) ivt(3) kf(2) i(2) show ?thesis
      by (simp add: proves_slot_def e(2) decode_pseudonym_def decode_encode public_key_len_def
          verify_claim_signature_def slot_id_len_def)
  qed
  moreover have "pseudonym_text x q = Inr (ch_actor c)" by (simp add: pseudonym_text_def rp e(2))
  ultimately show ?thesis using i e(2,3) by (intro exI [of _ ?sg] exI [of _ entry] exI [of _ se]) simp
qed

end
