(* ===== verification/Group_View_Facts.thy ===== *)
theory Group_View_Facts
  imports Group_Author
begin

text \<open>
  What a member reads out of the verified state: whom it takes for a member, the ban list and the
  attributes as they were sealed; and the join epochs pseudonyms are derived at.
\<close>

section \<open>Join epochs\<close>

lemma saturating_suc: "e \<le> saturating_add e 1 \<and> (saturating_add e 1 < (64 :: u32) \<longrightarrow> e < saturating_add e 1)"
proof (cases "unat e + 1 < 2 ^ 32")
  case True
  then have "saturating_add e 1 = e + 1" by (simp add: saturating_add_def)
  moreover have "unat (e + 1) = unat e + 1" using True unat_add_lem [of e 1] by simp
  ultimately show ?thesis by (simp add: word_le_nat_alt word_less_nat_alt)
next
  case False
  then have "saturating_add e 1 = - 1" by (simp add: saturating_add_def)
  moreover have "unat (- 1 :: u32) = 2 ^ 32 - 1" by (simp add: unsigned_minus_1_eq_mask mask_eq_exp_minus_1)
  ultimately show ?thesis by (simp add: word_less_nat_alt)
qed
lemma foldr_max_ge: "a \<in> set as \<Longrightarrow> a \<le> foldr max as (b :: 'a :: linorder)"
  by (induction "as") (auto simp: le_max_iff_disj)

lemma next_join_epoch_facts:
  assumes "next_join_epoch previous listed = Inr e"
  shows "e < max_join_epochs"
    "previous = Some p \<Longrightarrow> gr_join_epoch p \<le> e \<and>
       (gr_status p = StatusMember \<or> gr_status p = Gone \<longrightarrow> gr_join_epoch p < e)"
    "listed = Some (st, le) \<Longrightarrow> le \<le> e \<and> (st = ListGone \<longrightarrow> le < e)"
proof -
  let ?l = "option_list (map_option (\<lambda>p. epoch_after (gr_status p) (gr_join_epoch p)) previous) @
        option_list (listed_join_epoch listed)"
  from assms have e: "e < max_join_epochs" "e = foldr max ?l 0"
    by (auto simp: next_join_epoch_def within_join_epochs_def not_le)
  show "e < max_join_epochs" by (fact e)
  have up: "a \<le> saturating_add a 1 \<and> a < saturating_add a 1" if "saturating_add a 1 \<le> e" for a :: u32
    using saturating_suc [of a] that e(1) by (auto simp: max_join_epochs_def dest: le_less_trans)
  show "gr_join_epoch p \<le> e \<and> (gr_status p = StatusMember \<or> gr_status p = Gone \<longrightarrow> gr_join_epoch p < e)"
    if "previous = Some p"
  proof -
    have "epoch_after (gr_status p) (gr_join_epoch p) \<le> e"
      unfolding e(2) by (rule foldr_max_ge) (simp add: that option_list_def)
    with up [of "gr_join_epoch p"] show ?thesis by (cases "gr_status p") auto
  qed
  show "le \<le> e \<and> (st = ListGone \<longrightarrow> le < e)" if "listed = Some (st, le)"
  proof -
    have "the (listed_join_epoch listed) \<le> e"
      unfolding e(2) by (rule foldr_max_ge) (simp add: that option_list_def listed_join_epoch_def)
    with up [of le] that show ?thesis by (cases st) (auto simp: listed_join_epoch_def)
  qed
qed

section \<open>Members\<close>

lemma member_views_facts:
  "map mv_pseudonym (member_views f seen ms) = map m_pseudonym ms"
  "map mv_role (member_views f seen ms) = map m_role ms"
  by (induction f seen ms rule: member_views.induct) (auto split: option.splits prod.splits)

lemma member_views_verified:
  assumes "w \<in> set (member_views f seen ms)" "mv_verified w = Some v"
  shows "\<exists>m\<in>set ms. m_pseudonym m = mv_pseudonym w \<and> f m = Some v"
  using assms
  by (induction f seen ms rule: member_views.induct) (auto simp: Let_def split: option.splits prod.splits if_splits)

definition verified_accounts :: "member_view list \<Rightarrow> account_ref list" where
  "verified_accounts vs = map vm_account (List.map_filter mv_verified vs)"

lemma member_views_distinct:
  "distinct (verified_accounts (member_views f seen ms)) \<and>
   set (verified_accounts (member_views f seen ms)) \<inter> set seen = {}"
proof (induction ms arbitrary: seen)
  case (Cons m ms)
  show ?case
  proof (cases "\<exists>v. f m = Some v \<and> vm_account v \<notin> set seen")
    case True
    then obtain v where v: "f m = Some v" "vm_account v \<notin> set seen" by blast
    with Cons [of "vm_account v # seen"] show ?thesis
      by (auto simp: verified_accounts_def List.map_filter_simps)
  next
    case False
    then have "member_views f seen (m # ms) = \<lparr>mv_pseudonym = m_pseudonym m, mv_role = m_role m,
        mv_joined_at_revision = m_joined_at_revision m, mv_verified = None\<rparr> # member_views f seen ms"
      by (auto split: option.splits)
    with Cons [of seen] show ?thesis by (simp add: verified_accounts_def List.map_filter_simps)
  qed
qed (simp add: verified_accounts_def List.map_filter_simps)

lemma open_member_Some:
  assumes "open_member x key gid p sealed auth = Some v"
  shows "\<exists>pb e sig authority. opened_entry x key p sealed = Some (pb, e) \<and> auth (vm_account v) = Some authority \<and>
    me_account e = vm_account v \<and> decode_exact x 64 ''bindingSignature'' (me_binding_signature e) = Inr sig \<and>
    verify_binding x authority gid pb (vm_account v) sig"
  using assms by (auto simp: open_member_def bind_eq_Some_conv split: if_splits)

section \<open>The ban list's padding\<close>

lemma ban_list_bucket_values: "ban_list_buckets = [1024, 4096, 12288, 24535]"
  by (simp add: ban_list_buckets_def max_sealed_ban_list_bytes_def sealed_len_def group_nonce_len_def group_tag_len_def)

lemma pad_ban_list_Some:
  assumes "pad_ban_list p = Some q"
  shows "unpad_ban_list q = Inr p" "length q \<in> set ban_list_buckets" "length p < length q"
    "\<forall>b\<in>set ban_list_buckets. length p < b \<longrightarrow> length q \<le> b" "q \<noteq> []"
proof -
  from assms obtain b where b: "List.find (\<lambda>b. length p < b) ban_list_buckets = Some b"
    "q = resize b 0 (p @ [0x80])" by (auto simp: pad_ban_list_def)
  from find_Some_in [OF b(1)] have bb: "b \<in> set ban_list_buckets" "length p < b" by auto
  then have q: "q = p @ 0x80 # replicate (b - Suc (length p)) 0" "length q = b"
    by (simp_all add: b(2) resize_def)
  have "rposition (\<lambda>y. y \<noteq> 0) q = Some (length p)"
    unfolding rposition_Some_iff q(1) using bb(2) by (auto simp: nth_append nth_Cons')
  with q bb show "unpad_ban_list q = Inr p" by (simp add: unpad_ban_list_def)
  from q bb show "length q \<in> set ban_list_buckets" "length p < length q" "q \<noteq> []" by auto
  show "\<forall>b\<in>set ban_list_buckets. length p < b \<longrightarrow> length q \<le> b"
    using b(1) q(2) by (auto simp: ban_list_bucket_values split: if_splits)
qed

lemma pad_ban_list_None: "pad_ban_list p = None \<longleftrightarrow> 24535 \<le> length p"
  by (auto simp: pad_ban_list_def ban_list_bucket_values split: if_splits)

section \<open>Sealed and read back\<close>

lemma field_roundtrip:
  assumes "client_law x" "field_seal x nonce key f sub plain = Inr sealed"
  shows "base64_decode x (encode x sealed) = Inr sealed" "field_open x key f sub sealed = Inr plain"
    "length sealed = sealed_len (length plain)"
  using client_lawD(2) [OF assms(1)] field_open_seal [OF client_lawD(5) [OF assms(1)] assms(2)]
  by (simp_all add: base64_decode_def encode_def)

lemma sealed_ban_list_reads:
  assumes law: "client_law x" and "seal_ban_list x nonce r l = Inr (Some b)"
    and "verified x q = Inr (Some (s, h))" "st_ban_list s = Some b" "record_master x q = record_master x r"
  shows "ban_list x q = Inr l" "check_optional_sealed x f max_sealed_ban_list_bytes (Some b) = Inr ()"
proof -
  from assms(2) obtain plain padded master sealed where a: "ban_list_bytes x l = Inr plain"
    "pad_ban_list plain = Some padded" "record_master x r = Inr master"
    "field_seal x nonce (state_key x master) FBanList [] padded = Inr sealed" "b = encode x sealed"
    by (auto simp: seal_ban_list_def split: if_splits)
  note rt = field_roundtrip [OF law a(4)]
  have "ban_list_from_bytes x plain = Inr l"
    unfolding ban_list_from_bytes_def using a(1) [unfolded ban_list_bytes_def] client_lawD(9) [OF law]
    by (rule canonical_json_back)
  with pad_ban_list_Some(1) [OF a(2)] have "read_ban_list x padded = Inr l" by (simp add: read_ban_list_def)
  with assms(3-5) a rt show "ban_list x q = Inr l" by (simp add: ban_list_def Let_def)
  have "length padded \<le> 24535" using pad_ban_list_Some(2) [OF a(2)] by (auto simp: ban_list_bucket_values)
  with rt(3) client_lawD(2) [OF law] a(5) show "check_optional_sealed x f max_sealed_ban_list_bytes (Some b) = Inr ()"
    by (simp add: check_optional_sealed_def decode_sealed_def encode_def sealed_len_def max_sealed_ban_list_bytes_def
        group_nonce_len_def group_tag_len_def)
qed

lemma sealed_attribute_reads:
  assumes "client_law x" "seal_attribute x nonce r a plain = Inr b"
    and "verified x q = Inr (Some (s, h))" "attribute_value (st_attributes s) a = Some b"
      "record_master x q = record_master x r"
  shows "attribute x q a = Inr (Some plain)"
proof -
  from assms(2) obtain master sealed where m: "record_master x r = Inr master"
    "field_seal x nonce (state_key x master) (attribute_field a) [] plain = Inr sealed" "b = encode x sealed"
    by (auto simp: seal_attribute_def)
  from field_roundtrip [OF assms(1) m(2)] m assms(3-5) show ?thesis by (simp add: attribute_def)
qed

end
