(* ===== verification/Client_Demo.thy ===== *)
theory Client_Demo
  imports Group_Demo Group_View_Facts
begin

text \<open>
  The demonstration group as its creator's device keeps it: the group it creates, its home's identity,
  and the record after the first two changes.
\<close>

lemma demo_hex: "hex_law demo_ext"
proof -
  have "demo_hex_decode (bytes_to_hex b) = Some b" for b
    by (auto intro!: nth_equalityI simp: demo_hex_decode_def bytes_to_hex_chunk from_str_radix_hex_byte)
  then show ?thesis by (simp add: hex_law_def)
qed

lemma demo_law: "client_law demo_ext"
proof -
  have "state_from_json demo_ext b = Some s" if "state_to_json demo_ext s = Some b" for s b
  proof -
    from that have s: "s \<in> set demo_states" "b = be64 (st_revision s)"
      by (auto simp: demo_ext_def split: if_splits)
    then show ?thesis by (auto simp: demo_ext_def demo_states_def demo_state_defs)
  qed
  moreover have "member_entry_to_json demo_ext e = Some b \<Longrightarrow> member_entry_from_json demo_ext b = Some e"
    "ban_list_to_json demo_ext l = Some b \<Longrightarrow> ban_list_from_json demo_ext b = Some l" for e l b
    by (auto simp: demo_ext_def split: if_splits)
  ultimately show ?thesis
    by (auto simp: client_law_def record_law_def std_law_def url_law_def ed25519_law_def aead_law_def
        aead_tag_len_def demo_hkdf_def)
qed

section \<open>The home\<close>

definition demo_home_seed :: bytes where "demo_home_seed = replicate 32 7"

definition demo_document :: identity_document where
  "demo_document = \<lparr>fd_version = IdentityV1, fd_server = ''a.example'', fd_sequence = 0,
     fd_key = \<lparr>ik_algorithm = Ed25519, ik_key_id = bytes_to_hex (replicate 32 32),
       ik_public_key = string_of_bytes demo_home_seed\<rparr>,
     fd_previous_document_hash = None, fd_issued_at = 1, fd_previous_signature = None,
     fd_current_signature = demo_sig\<rparr>"

lemma demo_ed25519: "ed25519_law demo_ext" "std_law demo_ext" "length demo_home_seed = 32"
  using client_lawD(2,4) [OF demo_law] by (simp_all add: demo_home_seed_def)

lemma demo_server: "validate_server_name ''a.example'' = Inr ()"
  unfolding validate_server_name_iff by code_simp

lemma demo_key: "key_from_signing_key demo_ext demo_home_seed = fd_key demo_document"
  by (simp add: key_from_signing_key_def demo_document_def federation_key_id_def demo_home_seed_def)

lemma demo_hash_hex: "validate_hash demo_ext f (bytes_to_hex (replicate 32 n)) = Inr (replicate 32 n)"
  using demo_hex by (auto simp: validate_hash_def hex_law_def)

lemma demo_public_key: "public_key_bytes demo_ext (fd_key demo_document) = Inr demo_home_seed"
  using verifying_key_of_seed [OF demo_ed25519] by (simp add: demo_key verifying_key_public)

lemma demo_signing_shape: "validate_signing_shape demo_ext demo_document = Inr ()"
  using demo_server demo_hash_hex [of _ 32] verifying_key_of_seed [OF demo_ed25519]
  by (simp add: validate_signing_shape_def validate_key_def demo_key) (simp add: demo_document_def)

definition demo_signing_bytes :: bytes where
  "demo_signing_bytes = identity_signing_domain @ be16 1 @ be32 (length ''a.example'') @ bytes_of_string ''a.example'' @ be64 0 @
     be32 (length ''ed25519'') @ bytes_of_string ''ed25519'' @ demo_home_seed @ replicate 32 32 @ [0] @ be64 1"

lemma demo_signing: "signing_bytes demo_ext demo_document = Inr demo_signing_bytes"
  using demo_signing_shape demo_public_key demo_hash_hex [of _ 32]
  by (simp add: signing_bytes_def push_string_def) (simp add: demo_document_def demo_signing_bytes_def)

lemma demo_document_issued: "identity_genesis demo_ext ''a.example'' 1 demo_home_seed = Inr demo_document"
proof -
  have d: "\<lparr>fd_version = IdentityV1, fd_server = ''a.example'', fd_sequence = 0,
      fd_key = key_from_signing_key demo_ext demo_home_seed, fd_previous_document_hash = None, fd_issued_at = 1,
      fd_previous_signature = None, fd_current_signature = ''''\<rparr> = demo_document\<lparr>fd_current_signature := ''''\<rparr>"
    by (simp add: demo_key) (simp add: demo_document_def)
  have "encode_signature demo_ext (replicate 64 0x73) = demo_sig" by (simp add: encode_signature_def) code_simp
  then show ?thesis
    by (simp add: identity_genesis_def d demo_signing_shape demo_signing) (simp add: demo_document_def)
qed

lemma demo_document_current: "verify_current demo_ext demo_document = Inr ()"
  using identity_genesis_verifies(1) [OF demo_ed25519 demo_document_issued] by (auto simp: verify_genesis_def)

lemma demo_document_hash: "document_hash demo_ext demo_document = Inr (pin_identity_document_hash demo_home)"
proof -
  have "word_of_nat (length (identity_hash_domain @ demo_signing_bytes)) = (0xbc :: u8)"
    by (simp add: demo_signing_bytes_def identity_hash_domain_def identity_signing_domain_def be16_def be32_def
        demo_home_seed_def)
  with demo_document_current demo_signing show ?thesis
    by (auto simp: document_hash_def verify_current_def demo_home_def)
qed

lemma demo_follow: "follow demo_ext demo_home [demo_document] = Inr demo_document"
  using demo_document_current demo_document_hash
  by (simp add: follow_def) (simp add: demo_document_def demo_home_def)

section \<open>The record\<close>

definition demo_keys :: account_keys where
  "demo_keys = \<lparr>ak_authority_seed = replicate 32 5, ak_master_key = replicate 32 0\<rparr>"

definition demo_record :: group_record where
  "demo_record = fresh_record demo_ext demo_group_id (string_of_bytes (replicate 32 0)) demo_home
     (replicate 32 36) StatusMember 0 0"

definition demo_notary :: group_notary where
  "demo_notary = \<lparr>no_identity_sequence = 0, no_key_config_hash = replicate 32 CHR ''h'',
     no_signature = demo_sig\<rparr>"

definition demo_r0 :: group_record where
  "demo_r0 = demo_record\<lparr>gr_gateway := \<lparr>ca_config = None, ca_identity_history = [demo_document], ca_accepted = []\<rparr>\<rparr>"

definition demo_r :: "group_state \<Rightarrow> group_record" where
  "demo_r s = demo_r0\<lparr>gr_state := Some (string_of_bytes (be64 (st_revision s))),
     gr_head := Some (string_of_bytes demo_change_hash), gr_notary_sequence := Some 0\<rparr>"

definition demo_master :: group_master_key where
  "demo_master = \<lparr>gm_key = replicate 32 0, gm_home = replicate 32 (word_of_nat (length (home_digest_input demo_home)))\<rparr>"

lemma demo_master_generated: "master_generate demo_ext (replicate 32 0) demo_home = Inr demo_master"
  using demo_home_ok
  by (auto simp: master_generate_def home_digest_def demo_master_def validate_home_def hash_len_def)

lemma demo_hkdf_zero: "demo_hkdf salt (replicate 32 0) info n = replicate n (word_of_nat (length info))"
proof -
  have "replicate 32 (0 :: u8) = 0 # replicate 31 0" by (simp add: numeral_eq_Suc)
  then show ?thesis by (simp add: demo_hkdf_def)
qed

lemma demo_group_id_of: "group_id_of demo_ext demo_master = bytes_of_string demo_group_id"
proof -
  have "length (id_info @ gm_home demo_master) = 55" by (simp add: id_info_def domain_bytes_def demo_master_def)
  then show ?thesis
    by (simp add: group_id_of_def master_expand_def demo_hkdf_zero demo_master_def group_id_len_def demo_group_id_def
        bytes_of_string_def)
qed

lemma demo_pseudonym: "pseudonym_at demo_ext (replicate 32 0) (bytes_of_string demo_group_id) 0
    = \<lparr>kp_seed = replicate 32 36, kp_public = replicate 32 36\<rparr>"
  by (simp add: pseudonym_at_def pseudonym_seed_def demo_hkdf_zero key_pair_from_seed_def be32_def)
lemma demo_texts: "string_of_bytes (replicate 32 36) = p_a" "string_of_bytes (replicate 64 0x73) = demo_sig"
  "string_of_bytes (replicate 32 0) = demo_hash 0" "string_of_bytes (replicate 32 0x6b) = replicate 32 CHR ''k''"
  by code_simp+

lemma demo_sealed_entry:
  assumes "length p = 32"
  shows "seal_member_entry demo_ext (replicate 24 0x65) (state_key demo_ext demo_master) (bytes_of_string demo_group_id)
     p demo_account (replicate 32 0x6b) (replicate 32 5) = Inr demo_entry"
proof -
  let ?k = "state_key demo_ext demo_master" and ?n = "replicate 24 0x65"
  have b: "sign_binding demo_ext (replicate 32 5) (bytes_of_string demo_group_id) p demo_account
      = Some (replicate 64 0x73)"
    by (simp add: sign_binding_def binding_signed_bytes_def account_ref_bytes_def demo_hex_decode_def)
  have "validate_member_entry demo_ext demo_member_entry = Inr ()"
    by (simp add: validate_member_entry_def demo_member_entry_def require_version_def group_format_version_def
        profile_key_len_def binding_signature_len_def)
  then have e: "member_entry_bytes demo_ext demo_member_entry = Inr []"
    by (simp add: member_entry_bytes_def canonical_json_bytes_def) (simp add: demo_ext_def)
  have "length (gk_key ?k) = 32" by (simp add: state_key_def Let_def master_expand_def demo_hkdf_def)
  then have "field_seal demo_ext ?n ?k FMemberEntry p [] = Inr demo_entry_bytes"
    using assms by (simp add: field_seal_def aead_new_def aead_key_len_def field_aad_def seal_with_nonce_def check_nonce_def
        aead_nonce_len_def demo_entry_bytes_def)
  with b e show ?thesis
    by (simp add: seal_member_entry_def Let_def encode_def demo_texts demo_member_entry_def group_format_version_def
        demo_entry_def)
qed

lemma demo_created:
  "create_group demo_ext (replicate 32 0) (replicate 24 0x65) demo_home demo_account (replicate 32 0x6b) demo_keys
     = Inr (demo_record, demo_c0)"
proof -
  let ?c = "demo_c0\<lparr>ch_resulting_state_hash := Some (encode demo_ext (replicate hash_len 0)), ch_signature := ''''\<rparr>"
  have c: "\<lparr>ch_version = group_format_version, ch_group_id = encode_group_id demo_ext (bytes_of_string demo_group_id),
      ch_revision = 0, ch_previous_hash = encode demo_ext (replicate hash_len 0), ch_actor = encode demo_ext (replicate 32 36),
      ch_actions = [Genesis demo_home access_default demo_entry],
      ch_resulting_state_hash = Some (encode demo_ext (replicate hash_len 0)), ch_signature = ''''\<rparr> = ?c"
    by (simp add: demo_c0_def demo_change_def encode_def encode_group_id_def demo_texts hash_len_def
        group_format_version_def)
  have nn: "\<not> is_newcomers_change ?c" by (simp add: is_newcomers_change_def demo_c0_def demo_change_def)
  have "genesis_state demo_ext demo_c0 demo_home limits_max = Inr demo_s0"
    using demo_0 by (simp add: check_genesis_def)
  from genesis_state_rehashed [OF demo_ed25519(2) _ _ this, of "replicate hash_len 0"] nn
  have g: "genesis_state demo_ext ?c demo_home limits_max = Inr demo_s0" by simp
  have eq: "?c\<lparr>ch_resulting_state_hash := Some demo_state_hash\<rparr> = demo_c0\<lparr>ch_signature := ''''\<rparr>"
    by (simp add: demo_c0_def demo_change_def)
  have "signed_bytes demo_ext demo_c0 = Inr (be64 0)"
    using demo_shape(1) by (simp add: signed_bytes_def bytes_of_string_def)
  then have "signed_bytes demo_ext (?c\<lparr>ch_resulting_state_hash := Some demo_state_hash\<rparr>) = Inr (be64 0)"
    unfolding eq signed_bytes_signature .
  then have s: "sign_group_change demo_ext ?c k demo_s0 = Inr demo_c0" for k
    unfolding sign_group_change_Inr [OF nn]
    by (simp add: encode_def sign_change_def demo_texts)
  show ?thesis
    using demo_master_generated demo_sealed_entry [of "replicate 32 36"] g s
    by (simp add: create_group_def demo_group_id_of demo_keys_def demo_pseudonym c Let_def resulting_genesis_state_def
        demo_record_def) (simp add: demo_master_def encode_def)
qed
lemma demo_notary_ok:
  "prev = None \<or> prev = Some 0 \<Longrightarrow> notary_verify demo_ext demo_notary [demo_document] prev gid rv ch sh = Inr ()"
proof -
  have "verifying_key demo_ext (fd_key demo_document) = Inr demo_home_seed"
    using verifying_key_of_seed [OF demo_ed25519] by (simp add: demo_key)
  moreover have "fd_sequence demo_document = 0" by (simp add: demo_document_def)
  moreover assume "prev = None \<or> prev = Some 0"
  ultimately show ?thesis
    by (auto simp: notary_verify_def demo_notary_def signer_in_def decode_fixed_def verify_signature_def)
qed

text \<open>A record of the creator: as created, or after a change was accepted.\<close>

lemma demo_accept:
  fixes prev :: "u64 option"
  assumes "r = demo_r0 \<and> held = None \<and> prev = None \<or> r = demo_r s \<and> held = Some (s, demo_change_hash) \<and> prev = Some 0"
    and "verified demo_ext r = Inr held" "s' \<in> set demo_states" "c \<in> set demo_changes" "member s' p_a \<noteq> None"
    and "case held of None \<Rightarrow> accept_genesis demo_ext r c = Inr s' \<and> ch_revision c = 0
       | Some (s, h) \<Rightarrow> check_change demo_ext s h c limits_max = Inr s'"
  shows "accept_change demo_ext r c demo_notary = Inr (demo_r s', s')"
proof -
  note fields = demo_r_def demo_r0_def demo_record_def fresh_record_def
  have r: "gr_group_id r = demo_group_id" "gr_home r = demo_home" "gr_notary_sequence r = prev"
    "pseudonym_text demo_ext r = Inr p_a" "ca_identity_history (gr_gateway r) = [demo_document]"
    using assms(1) by (auto simp: fields pseudonym_text_def record_pseudonym_def key_pair_from_seed_def encode_def demo_texts)
  have p: "prev = None \<or> prev = Some 0" using assms(1) by auto
  have c: "ch_group_id c = demo_group_id" using assms(4) by (auto simp: demo_changes_def)
  have v: "validate_state demo_ext s' = Inr ()" using assms(3) by (auto simp: demo_states_def)
  have f: "followed_history demo_ext r = Inr [demo_document]"
    using demo_follow r by (simp add: followed_history_Inr) (simp add: demo_document_def demo_home_def)
  have "status_in r s' p_a = StatusMember" using assms(5) by (simp add: status_in_def)
  with v r(4) assms(3) have s: "set_verified demo_ext r s' demo_change_hash =
      Inr (r\<lparr>gr_state := Some (string_of_bytes (be64 (st_revision s'))),
        gr_head := Some (string_of_bytes demo_change_hash), gr_status := StatusMember\<rparr>)"
    by (simp add: set_verified_Inr state_canonical_bytes_def encode_def)
  have q: "r\<lparr>gr_state := Some (string_of_bytes (be64 (st_revision s'))),
        gr_head := Some (string_of_bytes demo_change_hash), gr_status := StatusMember, gr_notary_sequence := Some 0\<rparr> = demo_r s'"
    using assms(1) by (auto simp: fields)
  show ?thesis
    using assms(2,6) c r demo_hash_of_change [OF assms(4)] f demo_hash_of_state [OF assms(3)] demo_notary_ok [OF p] s q
    by (cases held) (auto simp: accept_change_def demo_notary_def)
qed

lemma demo_r_verified:
  "s \<in> set demo_states \<Longrightarrow> verified demo_ext (demo_r s) = Inr (Some (s, demo_change_hash))"
proof (rule verified_written [where bs = "be64 (st_revision s)"])
  assume s: "s \<in> set demo_states"
  then have "validate_state demo_ext s = Inr ()" by (auto simp: demo_states_def)
  with s show "state_canonical_bytes demo_ext s = Inr (be64 (st_revision s))" by (simp add: state_canonical_bytes_def)
qed (use client_lawD(1) [OF demo_law] in \<open>simp_all add: demo_r_def encode_def hash_len_def\<close>)

lemma demo_has_creator: "s \<in> set demo_states \<Longrightarrow> member s p_a \<noteq> None"
  by (auto simp: demo_states_def demo_state_defs member_def)

lemma demo_created_facts:
  "accept_genesis demo_ext demo_record demo_c0 = Inr demo_s0" "verified demo_ext demo_r0 = Inr None"
  using created_group_accepted [OF demo_law demo_created] demo_0
  by (auto simp: verified_def demo_r0_def demo_record_def fresh_record_def)

lemma demo_accept0: "accept_change demo_ext demo_r0 demo_c0 demo_notary = Inr (demo_r demo_s0, demo_s0)"
proof -
  have "accept_genesis demo_ext demo_r0 demo_c0 = accept_genesis demo_ext demo_record demo_c0"
    by (simp add: accept_genesis_def record_master_def demo_r0_def cong del: bindr_cong)
  with demo_created_facts show ?thesis
    by (intro demo_accept [where held = None and prev = None]) (simp_all add: demo_has_creator)
qed

lemma demo_accept1: "accept_change demo_ext (demo_r demo_s0) demo_c1 demo_notary = Inr (demo_r demo_s1, demo_s1)"
  using demo_1 demo_r_verified [of demo_s0]
  by (intro demo_accept [where held = "Some (demo_s0, demo_change_hash)" and prev = "Some 0"])
    (simp_all add: demo_has_creator)

end
