(* ===== verification/Client_Join_Demo.thy ===== *)
theory Client_Join_Demo
  imports Client_Demo
begin

text \<open>
  The demonstration group's second and third changes as its members make them: the creator authors the
  slots, invites B, and B claims its slot.
\<close>

lemma demo_r_fields: "gr_group_id (demo_r s) = demo_group_id" "gr_home (demo_r s) = demo_home"
  "gr_master_key (demo_r s) = string_of_bytes (replicate 32 0)"
  "gr_pseudonym_seed (demo_r s) = string_of_bytes (replicate 32 36)"
  by (simp_all add: demo_r_def demo_r0_def demo_record_def fresh_record_def encode_def)

lemma demo_r_pseudonym: "record_pseudonym demo_ext (demo_r s) = Inr \<lparr>kp_seed = replicate 32 36, kp_public = replicate 32 36\<rparr>"
  by (simp add: record_pseudonym_def demo_r_fields key_pair_from_seed_def)

lemma demo_authored: "author_change demo_ext (demo_r demo_s0) (ch_actions demo_c1) = Inr demo_c1"
proof -
  let ?z = "Some (encode demo_ext (replicate hash_len 0))"
  let ?c = "demo_c1\<lparr>ch_resulting_state_hash := ?z, ch_signature := ''''\<rparr>"
  have c: "\<lparr>ch_version = group_format_version, ch_group_id = demo_group_id, ch_revision = 1,
      ch_previous_hash = encode demo_ext demo_change_hash, ch_actor = encode demo_ext (replicate 32 36),
      ch_actions = ch_actions demo_c1, ch_resulting_state_hash = ?z, ch_signature = ''''\<rparr> = ?c"
    by (simp add: demo_c1_def demo_change_def encode_def demo_texts group_format_version_def)
  have nn: "\<not> is_newcomers_change demo_c1" by (simp add: is_newcomers_change_def demo_c1_def demo_change_def)
  have "next_state demo_ext demo_s0 demo_change_hash demo_c1 limits_max = Inr demo_s1"
    using demo_1 by (simp add: check_change_def)
  from next_state_rehashed [OF demo_ed25519(2) _ nn this, of "replicate hash_len 0"]
  have n: "next_state demo_ext demo_s0 demo_change_hash ?c limits_max = Inr demo_s1" by simp
  have eq: "?c\<lparr>ch_resulting_state_hash := Some demo_state_hash\<rparr> = demo_c1\<lparr>ch_signature := ''''\<rparr>"
    by (simp add: demo_c1_def demo_change_def)
  have "signed_bytes demo_ext (demo_c1\<lparr>ch_signature := ''''\<rparr>) = Inr (be64 1)"
    using demo_shape(2) by (simp add: signed_bytes_def bytes_of_string_def)
  then have "signed_bytes demo_ext (?c\<lparr>ch_resulting_state_hash := Some demo_state_hash\<rparr>) = Inr (be64 1)"
    unfolding eq .
  moreover have "\<not> is_newcomers_change ?c" using nn by simp
  ultimately have "sign_group_change demo_ext ?c k demo_s1 = Inr demo_c1" for k
    by (simp add: sign_group_change_Inr encode_def sign_change_def demo_texts)
      (simp add: demo_c1_def demo_change_def)?
  with n show ?thesis
    using demo_r_verified [of demo_s0]
    by (simp add: author_change_def demo_r_pseudonym Let_def demo_r_fields c resulting_state_def)
qed

definition demo_invite :: group_invite where
  "demo_invite = \<lparr>iv_version = 1, iv_group_id = demo_group_id, iv_master_key = string_of_bytes (replicate 32 0),
     iv_home = demo_home, iv_slot_id = slot_1, iv_slot_revision = 1, iv_claim_key_seed = p_b, iv_title = None\<rparr>"

lemma demo_join_texts: "string_of_bytes (replicate 16 49) = slot_1" "string_of_bytes (replicate 32 66) = p_b"
  by code_simp+

lemma demo_r_master: "record_master demo_ext (demo_r s) = Inr demo_master"
  using master_at_back [OF demo_law, of "replicate 32 0" demo_home demo_master] demo_master_generated
  by (simp add: record_master_def demo_r_fields master_generate_def master_from_bytes_def encode_def
      demo_group_id_of encode_group_id_def)

lemma demo_state_key: "length (gk_key (state_key demo_ext demo_master)) = 32"
  by (simp add: state_key_def Let_def master_expand_def demo_hkdf_def)

lemma demo_invite_valid: "validate_invite demo_ext demo_invite = Inr ()"
  by (simp add: validate_invite_def demo_invite_def require_version_def group_format_version_def master_key_len_def
      slot_id_len_def)

lemma demo_invited:
  "invite demo_ext (replicate 16 49) (replicate 32 66) (replicate 24 0x65) (demo_r demo_s0) demo_account Member
     = Inr (AddSlot slot_1 Member p_b demo_entry, demo_invite, replicate 32 66)"
proof -
  have s: "field_seal demo_ext (replicate 24 0x65) (state_key demo_ext demo_master) FSlotEntry (replicate 16 49) []
      = Inr demo_entry_bytes"
    using demo_state_key
    by (simp add: field_seal_def aead_new_def aead_key_len_def field_aad_def seal_with_nonce_def check_nonce_def
        aead_nonce_len_def demo_entry_bytes_def)
  have j: "canonical_json_bytes validate_slot_entry (slot_entry_to_json demo_ext)
      \<lparr>se_version = 1, se_account = demo_account\<rparr> = Inr []"
    by (simp add: canonical_json_bytes_def validate_slot_entry_def require_version_def group_format_version_def)
      (simp add: demo_ext_def)
  have t: "attribute demo_ext (demo_r demo_s0) Title = Inr None"
  proof -
    have "at_title (st_attributes demo_s0) = None" by (simp add: demo_state_defs)
    with demo_r_verified [of demo_s0] show ?thesis by (simp add: attribute_def)
  qed
  show ?thesis
    using demo_r_verified [of demo_s0] demo_invite_valid
    by (simp add: invite_def Let_def demo_r_master j s t key_pair_from_seed_def encode_def demo_join_texts
        demo_r_fields demo_entry_def [symmetric] demo_invite_def group_format_version_def)
qed

definition demo_keys_b :: account_keys where
  "demo_keys_b = \<lparr>ak_authority_seed = replicate 32 5, ak_master_key = 30 # replicate 31 0\<rparr>"

lemma demo_pseudonym_b: "pseudonym_at demo_ext (30 # replicate 31 0) (bytes_of_string demo_group_id) 0
    = \<lparr>kp_seed = replicate 32 66, kp_public = replicate 32 66\<rparr>"
  by (simp add: pseudonym_at_def pseudonym_seed_def demo_hkdf_def key_pair_from_seed_def be32_def)

lemma demo_claimed:
  "\<exists>q q'. record_from_invite demo_ext demo_invite ''a'' None None demo_keys_b = Inr q \<and>
     claim demo_ext (replicate 24 0x65) q \<lparr>cb_revision = 1, cb_head = demo_change_hash\<rparr> demo_account
       (replicate 32 0x6b) (replicate 32 5) = Inr (q', demo_c2)"
proof -
  define q where "q = fresh_record demo_ext demo_group_id (string_of_bytes (replicate 32 0)) demo_home
    (replicate 32 66) (Invited slot_1 1 p_b ''a'' None) 1 0"
  have e: "next_join_epoch None None = Inr 0"
    by (simp add: next_join_epoch_def option_list_def listed_join_epoch_def within_join_epochs_def max_join_epochs_def)
  have m: "master_at demo_ext (string_of_bytes (replicate 32 0)) demo_group_id demo_home = Inr demo_master"
    using demo_r_master [of demo_s0] by (simp add: record_master_def demo_r_fields)
  have q: "record_from_invite demo_ext demo_invite ''a'' None None demo_keys_b = Inr q"
    using demo_invite_valid m e
    by (simp add: record_from_invite_def Let_def demo_pseudonym_b demo_keys_b_def q_def) (simp add: demo_invite_def
        m demo_pseudonym_b)
  have f: "gr_status q = Invited slot_1 1 p_b ''a'' None" "gr_group_id q = demo_group_id" "record_master demo_ext q = Inr demo_master"
    "record_pseudonym demo_ext q = Inr \<lparr>kp_seed = replicate 32 66, kp_public = replicate 32 66\<rparr>"
    using m by (simp_all add: q_def fresh_record_def record_master_def record_pseudonym_def key_pair_from_seed_def encode_def)
  have c: "\<lparr>ch_version = group_format_version, ch_group_id = demo_group_id, ch_revision = 2,
      ch_previous_hash = string_of_bytes demo_change_hash, ch_actor = string_of_bytes (replicate 32 66),
      ch_actions = [Claim slot_1 demo_sig demo_entry], ch_resulting_state_hash = None, ch_signature = ''''\<rparr>
      = demo_c2\<lparr>ch_signature := ''''\<rparr>"
    by (simp add: demo_c2_def demo_change_def encode_def demo_join_texts group_format_version_def)
  have b: "signed_bytes demo_ext (demo_c2\<lparr>ch_signature := ''''\<rparr>) = Inr (be64 2)"
    using demo_shape(3) by (simp add: signed_bytes_def bytes_of_string_def)
  have g: "demo_c2\<lparr>ch_signature := demo_sig\<rparr> = demo_c2" by simp
  have n: "newcomer_change demo_ext q \<lparr>cb_revision = 1, cb_head = demo_change_hash\<rparr>
      \<lparr>kp_seed = replicate 32 66, kp_public = replicate 32 66\<rparr> (Claim slot_1 demo_sig demo_entry) = Inr demo_c2"
  proof -
    have "?thesis \<longleftrightarrow> (\<exists>x. signed_bytes demo_ext (demo_c2\<lparr>ch_signature := ''''\<rparr>) = Inr x \<and>
        demo_c2\<lparr>ch_signature := ''''\<rparr>\<lparr>ch_signature := demo_sig\<rparr> = demo_c2)"
      unfolding c [symmetric] by (simp add: newcomer_change_def Let_def f sign_change_def encode_def demo_texts)
    with b g show ?thesis by simp
  qed
  have "\<exists>q'. claim demo_ext (replicate 24 0x65) q \<lparr>cb_revision = 1, cb_head = demo_change_hash\<rparr> demo_account
       (replicate 32 0x6b) (replicate 32 5) = Inr (q', demo_c2)"
    using demo_sealed_entry [of "replicate 32 66"] n
    by (simp add: claim_def f claim_key_seed_def Let_def slot_id_len_def key_pair_from_seed_def sign_claim_def
        encode_def demo_texts)
  with q show ?thesis by blast
qed

end
