(* ===== verification/Group_Store.thy ===== *)
theory Group_Store
  imports Group_Record_Facts
begin

text \<open>
  Where the client keeps its group records (\<open>kutup-chat-core/src/db/sqlite.rs\<close>, the groups of
  \<open>apply\<close>): a table by group id, written in one transaction, each record only where it may replace
  the one stored.  The table holds records; the JSON they are stored as is not modelled.
\<close>

section \<open>Error texts\<close>

fun change_error_code :: "group_change_error \<Rightarrow> string" where
  "change_error_code (Malformed _) = ''malformed''"
| "change_error_code WrongGroup = ''wrongGroup''"
| "change_error_code WrongRevision = ''wrongRevision''"
| "change_error_code WrongPrevious = ''wrongPrevious''"
| "change_error_code BadSignature = ''badSignature''"
| "change_error_code NotMember = ''notMember''"
| "change_error_code NotAllowed = ''notAllowed''"
| "change_error_code LastAdministrator = ''lastAdministrator''"
| "change_error_code Banned = ''banned''"
| "change_error_code LimitReached = ''limitReached''"
| "change_error_code WrongPassword = ''wrongPassword''"
| "change_error_code UnknownTarget = ''unknownTarget''"
| "change_error_code Terminated = ''terminated''"
| "change_error_code StateMismatch = ''stateMismatch''"

fun change_error_text :: "group_change_error \<Rightarrow> string" where
  "change_error_text (Malformed reason) = ''malformed group change: '' @ reason"
| "change_error_text e = change_error_code e"

fun group_error_text :: "group_error \<Rightarrow> string" where
  "group_error_text (Change e) = change_error_text e"
| "group_error_text Notary = ''the home's notary signature is missing or invalid''"
| "group_error_text (RecordError s) = ''the group record is invalid: '' @ s"
| "group_error_text (Sealed s) = ''the group's state can't be opened: '' @ s"

section \<open>The table\<close>

type_synonym group_table = "string \<rightharpoonup> group_record"

text \<open>One record, then the records of a write in order; an error leaves the table of the caller.\<close>

definition apply_group ::
  "'a group_ext_scheme \<Rightarrow> group_table \<Rightarrow> string \<times> group_record \<Rightarrow> chat_error + group_table" where
  "apply_group x t = (\<lambda>(gid, r).
     bindr (case t gid of None \<Rightarrow> Inr ()
       | Some existing \<Rightarrow> map_err (\<lambda>e. Trust (group_error_text e)) (may_replace x r existing)) (\<lambda>_.
     Inr (t(gid \<mapsto> r))))"

fun apply_groups ::
  "'a group_ext_scheme \<Rightarrow> group_table \<Rightarrow> (string \<times> group_record) list \<Rightarrow> chat_error + group_table" where
  "apply_groups x t [] = Inr t"
| "apply_groups x t (g # gs) = bindr (apply_group x t g) (\<lambda>t. apply_groups x t gs)"

section \<open>The table never goes back\<close>

definition table_le :: "'a group_ext_scheme \<Rightarrow> group_table \<Rightarrow> group_table \<Rightarrow> bool" where
  "table_le x t u \<longleftrightarrow> (\<forall>gid r. t gid = Some r \<longrightarrow> (\<exists>q. u gid = Some q \<and> record_le x r q))"

lemma table_le_refl: "table_le x t t"
  by (auto simp: table_le_def record_le_refl)

lemma table_le_trans: "table_le x t u \<Longrightarrow> table_le x u v \<Longrightarrow> table_le x t v"
  unfolding table_le_def by (metis record_le_trans)

lemma apply_group_le: "apply_group x t g = Inr u \<Longrightarrow> table_le x t u"
proof -
  assume a: "apply_group x t g = Inr u"
  obtain gid r where g: "g = (gid, r)" by (cases g)
  have "record_le x q r" if "t gid = Some q" for q
    using a that may_replace_le [of x r q] by (simp add: apply_group_def g)
  moreover from a have "u = t(gid \<mapsto> r)" by (auto simp: apply_group_def g)
  ultimately show ?thesis by (auto simp: table_le_def record_le_refl)
qed

lemma apply_groups_le: "apply_groups x t gs = Inr u \<Longrightarrow> table_le x t u"
proof (induction x t gs rule: apply_groups.induct)
  case (2 x t g gs)
  then show ?case by (auto intro: table_le_trans apply_group_le)
qed (simp add: table_le_refl)

interpretation group_table: ratchet "apply_groups x" "table_le x" "\<lambda>_. True" for x :: "'a group_ext_scheme"
  by unfold_locales (auto simp: table_le_refl intro: table_le_trans apply_groups_le)

end
