(* ===== verification/Client_Properties.thy ===== *)
theory Client_Properties
  imports Client_Join_Demo Group_Store
begin

text \<open>
  What a member's device promises its user, whatever the group's home serves it; each property with the
  demonstration group as its witness.
\<close>

section \<open>The chain behind a record\<close>

text \<open>C12: From a record that holds no verified state, the changes a device accepts are a whole chain of the
  group from its genesis at the record's own home, and the state and head it stores read back as that
  chain's: everything proved of the server's states holds of the device's.\<close>

theorem client_keeps_a_chain:
  assumes "record_law x" and "verified x r = Inr None" and "accept_all x r cns = Inr r'" and "cns \<noteq> []"
  shows "\<exists>s h. verified x r' = Inr (Some (s, h)) \<and> group_log x (gr_home r) limits_max (map fst cns) s h \<and>
    gr_home r' = gr_home r \<and> gr_group_id r' = gr_group_id r"
  using accept_all_log [OF assms] by blast

theorem client_keeps_a_chain_witness:
  "\<exists>h. group_log demo_ext demo_home limits_max [demo_c0, demo_c1] demo_s1 h"
proof -
  have "accept_all demo_ext demo_r0 [(demo_c0, demo_notary), (demo_c1, demo_notary)] = Inr (demo_r demo_s1)"
    by (simp add: demo_accept0 demo_accept1)
  from client_keeps_a_chain [OF client_lawD(1) [OF demo_law] demo_created_facts(2) this]
  show ?thesis using demo_r_verified [of demo_s1]
    by (auto simp: demo_r0_def demo_record_def fresh_record_def)
qed

text \<open>A message's group context tells two members apart exactly by their histories: the answer is
  current only when both hold the same changes and the same state, and fork only when they hold different
  ones of the same length, unless two different changes with one hash are shown.\<close>

theorem context_tells_histories:
  assumes "verified x r = Inr (Some (s, h))" and "group_log x home l cs s h"
    and "group_log x home' l' cs' s' h'" and "compare_context x r (st_revision s') h' = Inr answer"
  shows "(answer = Current \<longrightarrow> cs' = cs \<and> s' = s \<or> (\<exists>c\<in>set cs. \<exists>d\<in>set cs'. hash_clash x c d)) \<and>
    (answer = Fork \<longrightarrow> cs' \<noteq> cs \<and> length cs' = length cs) \<and>
    (answer = Behind \<longrightarrow> length cs < length cs') \<and> (answer = SenderBehind \<longrightarrow> length cs' < length cs)"
proof -
  from group_log_invariant [OF assms(2)] group_log_invariant [OF assms(3)]
  have len: "length cs = Suc (unat (st_revision s))" "length cs' = Suc (unat (st_revision s'))" by auto
  consider (behind) "st_revision s < st_revision s'" "answer = Behind"
    | (sender) "st_revision s' < st_revision s" "answer = SenderBehind"
    | (current) "st_revision s' = st_revision s" "h = h'" "answer = Current"
    | (fork) "st_revision s' = st_revision s" "h \<noteq> h'" "answer = Fork"
    using assms(1,4) by (auto simp: compare_context_def split: if_splits)
  then show ?thesis
  proof cases
    case current
    with group_log_head_unique [OF assms(2,3)] show ?thesis by blast
  next
    case fork
    have "cs' \<noteq> cs"
      using group_log_last_hash [OF assms(2)] group_log_last_hash [OF assms(3)] fork(2) by auto
    with fork len show ?thesis by simp
  qed (simp_all add: len word_less_nat_alt)
qed

theorem context_tells_histories_witness:
  "compare_context demo_ext (demo_r demo_s1) 0 demo_change_hash = Inr SenderBehind \<and>
   length [demo_c0] < length [demo_c0, demo_c1]"
proof -
  have "compare_context demo_ext (demo_r demo_s1) (st_revision demo_s0) demo_change_hash = Inr SenderBehind"
    using demo_r_verified [of demo_s1] by (simp add: compare_context_def)
  with context_tells_histories [OF demo_r_verified demo_log1 demo_log0 this] show ?thesis by simp
qed

text \<open>C13: Every change a device accepts was notarised by its home: a document of the identity history
  followed from the record's pin, no older than the last notary's, signed this group, this revision, this
  change's hash and the hash of exactly the state the device computed; the device's status is what that
  state says of its pseudonym, and the record's keys, home and group stay.\<close>

theorem accepted_change_is_notarised:
  assumes "accept_change x r c n = Inr (r', s')"
  shows "(\<exists>d gid hash sh key kch sig. d \<in> set (ca_identity_history (gr_gateway r)) \<and>
      fd_sequence d = no_identity_sequence n \<and> decode_group_id x (gr_group_id r) = Inr gid \<and>
      hash_of_change x c = Inr hash \<and> hash_of_state x s' = Inr sh \<and> verifying_key x (fd_key d) = Inr key \<and>
      ed25519_ok x key (notary_input gid (ch_revision c) hash sh kch) sig) \<and>
    (\<exists>d. follow x (gr_home r) (ca_identity_history (gr_gateway r)) = Inr d) \<and>
    (\<forall>p. gr_notary_sequence r = Some p \<longrightarrow> p \<le> no_identity_sequence n) \<and>
    gr_notary_sequence r' = Some (no_identity_sequence n) \<and>
    (\<exists>me. pseudonym_text x r = Inr me \<and> gr_status r' = status_in r s' me) \<and>
    gr_group_id r' = gr_group_id r \<and> gr_home r' = gr_home r \<and> gr_master_key r' = gr_master_key r \<and>
    gr_pseudonym_seed r' = gr_pseudonym_seed r"
  using accept_change_notary [OF assms] accept_change_status [OF assms] accept_change_frame [OF assms] by blast

theorem accepted_change_is_notarised_witness:
  "\<exists>d. follow demo_ext demo_home [demo_document] = Inr d"
  using accepted_change_is_notarised [OF demo_accept0]
  by (auto simp: demo_r0_def demo_record_def fresh_record_def)

text \<open>C14: Whatever writes a device makes, and however many are refused, the table of group records never
  goes back: a group stored with a verified state is stored later with a higher revision, or with the same
  revision and the same head.\<close>

theorem stored_groups_never_go_back:
  assumes "run_steps (apply_groups x) t ws gid = Some r" and "verified x r = Inr (Some (s, h))"
  shows "\<exists>q s' h'. run_steps (apply_groups x) t (ws @ vs) gid = Some q \<and> gr_group_id q = gr_group_id r \<and>
    verified x q = Inr (Some (s', h')) \<and>
    (st_revision s < st_revision s' \<or> (st_revision s = st_revision s' \<and> h = h'))"
proof -
  have "table_le x (run_steps (apply_groups x) t ws) (run_steps (apply_groups x) t (ws @ vs))"
    by (rule group_table.run_never_back) simp
  with assms show ?thesis unfolding table_le_def record_le_def by blast
qed

theorem stored_groups_never_go_back_witness:
  "\<exists>q s' h'. run_steps (apply_groups demo_ext) [demo_group_id \<mapsto> demo_r demo_s1]
       ([] @ [[(demo_group_id, demo_r demo_s0)]]) demo_group_id = Some q \<and>
     verified demo_ext q = Inr (Some (s', h')) \<and> st_revision demo_s1 \<le> st_revision s'"
proof -
  have "run_steps (apply_groups demo_ext) [demo_group_id \<mapsto> demo_r demo_s1] [] demo_group_id = Some (demo_r demo_s1)"
    by simp
  from stored_groups_never_go_back [OF this demo_r_verified, of "[[(demo_group_id, demo_r demo_s0)]]"]
  show ?thesis by (auto simp: order.order_iff_strict)
qed

text \<open>What a device accepted it can always store: the record after an accepted change, or after an
  accepted state, may replace the one it came from.\<close>

theorem accepted_can_be_stored:
  assumes "record_law x" and "accept_change x r c n = Inr (r', s') \<or> accept_state x r s' c n = Inr r'"
  shows "may_replace x r' r = Inr () \<and> (\<exists>hash. hash_of_change x c = Inr hash \<and> verified x r' = Inr (Some (s', hash)))"
  using assms(2)
proof
  assume "accept_change x r c n = Inr (r', s')"
  with accept_change_replaces accept_change_verified assms(1) show ?thesis by blast
next
  assume "accept_state x r s' c n = Inr r'"
  with accept_state_verified(1,2) assms(1) show ?thesis by blast
qed

theorem accepted_can_be_stored_witness: "may_replace demo_ext (demo_r demo_s1) (demo_r demo_s0) = Inr ()"
  using accepted_can_be_stored [OF client_lawD(1) [OF demo_law]] demo_accept1 by blast

section \<open>What a device makes, others accept\<close>

text \<open>C15: A change a member authors on its verified state is accepted by the group's check on that state and
  head: it is well formed, allowed, signed by the record's pseudonym and names the state it results in; so
  every error of the check is met before anything is sent.\<close>

theorem authored_change_is_accepted:
  assumes "record_law x" and "ed25519_law x" and "author_change x r acts = Inr c"
    and "verified x r = Inr (Some (s, h))"
  shows "\<exists>s'. check_change x s h c limits_max = Inr s' \<and> ch_actions c = acts \<and> pseudonym_text x r = Inr (ch_actor c)"
  using assms by (rule authored_change_accepted)

theorem authored_change_is_accepted_witness:
  "\<exists>s'. check_change demo_ext demo_s0 demo_change_hash demo_c1 limits_max = Inr s'"
  using authored_change_is_accepted [OF client_lawD(1) [OF demo_law] demo_ed25519(1) demo_authored demo_r_verified]
  by auto

text \<open>A group a device creates is accepted by its home's check and by every member's: its genesis gives a
  first state of that home, the creator's sealed entry opens, and the record made with it is the creator's.\<close>

theorem created_group_is_accepted:
  assumes "client_law x" and "create_group x random_key nonce home me profile_key keys = Inr (r, c)"
    and "length random_key = 32"
  shows "\<exists>s. check_genesis x c home limits_max = Inr s \<and> accept_genesis x r c = Inr s \<and> gr_home r = home \<and>
    gr_group_id r = ch_group_id c \<and> pseudonym_text x r = Inr (ch_actor c) \<and> verified x r = Inr None"
  using assms by (rule created_group_accepted)

theorem created_group_is_accepted_witness: "accept_genesis demo_ext demo_record demo_c0 = Inr demo_s0"
  using created_group_is_accepted [OF demo_law demo_created] demo_0 by auto

text \<open>The claim an invitation lets its holder make proves the slot the inviting change adds: the claim
  key's signature is over this group, that slot at the revision it is added, and the claimant's pseudonym, the
  change is signed by that pseudonym, and the record takes no state older than it.\<close>

theorem invitation_proves_its_slot:
  assumes "client_law x" and "invite x slot_id claim_seed nonce r account role = Inr (action, ivt, key)"
    and "length claim_seed = 32" and "length slot_id = 16"
    and "record_from_invite x ivt inviter previous listed keys = Inr q"
    and "claim x nonce' q basis me profile_key seed = Inr (q', c)"
  shows "\<exists>sg entry se. ch_actions c = [Claim (iv_slot_id ivt) sg entry] \<and>
    action = AddSlot (iv_slot_id ivt) role (encode x key) se \<and> pseudonym_text x q = Inr (ch_actor c) \<and>
    verify_actor_signature x c = Inr () \<and> ch_revision c = cb_revision basis + 1 \<and>
    ch_revision c \<le> gr_min_revision q' \<and>
    (\<forall>slot. s_slot_id slot = iv_slot_id ivt \<and> s_claim_key slot = encode x key \<and>
       s_created_at_revision slot = iv_slot_revision ivt \<longrightarrow> proves_slot x c slot sg)"
  using assms by (rule invitation_claim)

theorem invitation_proves_its_slot_witness: "proves_slot demo_ext demo_c2 (demo_slot slot_1 Member p_b) demo_sig"
proof -
  from demo_claimed obtain q q' where q: "record_from_invite demo_ext demo_invite ''a'' None None demo_keys_b = Inr q"
    "claim demo_ext (replicate 24 0x65) q \<lparr>cb_revision = 1, cb_head = demo_change_hash\<rparr> demo_account
       (replicate 32 0x6b) (replicate 32 5) = Inr (q', demo_c2)" by blast
  have "encode demo_ext (replicate 32 66) = p_b" by (simp add: encode_def) code_simp
  with invitation_proves_its_slot [OF demo_law demo_invited _ _ q] show ?thesis
    by (auto simp: demo_invite_def demo_slot_def demo_c2_def demo_change_def)
qed

end
