(* ===== verification/Protocol_Properties.thy ===== *)
theory Protocol_Properties
  imports Client_Join_Demo Group_Log
begin

text \<open>
  What the messages around a group's changes promise: refused replays, what a member reads of the others,
  the ban list, join epochs, invite links, the home's identity history, its notary and the client's cache.
\<close>

section \<open>Changes that come again\<close>

text \<open>A change accepted once is refused on the state it made, whatever the head: it is answered
  with wrongRevision, so a replay is told from a malformed change; and a terminated group accepts no change.\<close>

theorem accepted_change_is_not_replayed:
  assumes "check_change x s h c l = Inr s'" and "check_limits l' = Inr ()"
  shows "check_change x s' h' c l' = Inl WrongRevision \<and>
    (st_terminated s' \<longrightarrow> (\<forall>d h'' m. \<exists>e. check_change x s' h'' d m = Inl e))"
proof
  note f = check_change_facts [OF assms(1)]
  from f(3) have "checked_add (st_revision s') 1 \<noteq> Some (st_revision s')"
    by (auto simp: checked_add_def split: if_splits)
  moreover have "verify_actor_signature x c = Inr ()" using assms(1) by (auto simp: check_change_def)
  ultimately show "check_change x s' h' c l' = Inl WrongRevision"
    using f assms(2) by (auto simp: check_change_def next_state_def)
  show "st_terminated s' \<longrightarrow> (\<forall>d h'' m. \<exists>e. check_change x s' h'' d m = Inl e)"
    using check_change_facts(9) by (metis old.sum.exhaust)
qed

theorem accepted_change_is_not_replayed_witness:
  "check_change demo_ext demo_s1 demo_change_hash demo_c1 limits_max = Inl WrongRevision"
  using accepted_change_is_not_replayed [OF demo_1 demo_checks_limits] by blast

section \<open>What a member reads\<close>

text \<open>C16: The member list shows every member of the state, in order; it names an account for a pseudonym only
  where the key this device verified for that account signed that group and that pseudonym, and it names no
  account twice.\<close>

theorem members_are_verified_by_binding:
  assumes "verified x r = Inr (Some (s, h))" and "members x r authority_of = Inr ws"
  shows "map mv_pseudonym ws = map m_pseudonym (st_members s) \<and> map mv_role ws = map m_role (st_members s) \<and>
    distinct (verified_accounts ws) \<and>
    (\<forall>w\<in>set ws. \<forall>v. mv_verified w = Some v \<longrightarrow> (\<exists>gid pb key sig.
       decode_group_id x (gr_group_id r) = Inr gid \<and> decode_exact x 32 ''pseudonym'' (mv_pseudonym w) = Inr pb \<and>
       authority_of (vm_account v) = Some key \<and> verify_binding x key gid pb (vm_account v) sig))"
proof -
  from assms obtain master gid where gid: "decode_group_id x (gr_group_id r) = Inr gid"
    and ws: "ws = member_views (\<lambda>m. open_member x (state_key x master) gid (m_pseudonym m) (m_entry m) authority_of)
      [] (st_members s)"
    by (auto simp: members_def)
  have "\<exists>pb key sig. decode_exact x 32 ''pseudonym'' (mv_pseudonym w) = Inr pb \<and>
      authority_of (vm_account v) = Some key \<and> verify_binding x key gid pb (vm_account v) sig"
    if "w \<in> set ws" "mv_verified w = Some v" for w v
  proof -
    from member_views_verified [OF that(1) [unfolded ws] that(2)] obtain m :: group_member where
      m: "m_pseudonym m = mv_pseudonym w"
        "open_member x (state_key x master) gid (m_pseudonym m) (m_entry m) authority_of = Some v" by blast
    from open_member_Some [OF m(2)] m(1) show ?thesis by (fastforce simp: opened_entry_def bind_eq_Some_conv)
  qed
  with member_views_facts member_views_distinct gid show ?thesis unfolding ws by blast
qed

theorem members_are_verified_by_binding_witness:
  "\<exists>ws. members demo_ext (demo_r demo_s1) (\<lambda>_. Some (replicate 32 5)) = Inr ws \<and>
     map mv_pseudonym ws = [p_a] \<and> distinct (verified_accounts ws)"
proof -
  have "\<exists>ws. members demo_ext (demo_r demo_s1) (\<lambda>_. Some (replicate 32 5)) = Inr ws"
    using demo_r_verified [of demo_s1] client_lawD(3) [OF demo_law]
    by (simp add: members_def demo_r_master demo_r_fields decode_group_id_def group_id_len_def demo_group_id_def)
  then obtain ws where ws: "members demo_ext (demo_r demo_s1) (\<lambda>_. Some (replicate 32 5)) = Inr ws" by blast
  have "map m_pseudonym (st_members demo_s1) = [p_a]" by (simp add: demo_state_defs)
  with members_are_verified_by_binding [OF demo_r_verified ws] ws show ?thesis by simp
qed

text \<open>The ban list an administrator seals is the one every member reads from the state it is put in, it
  passes the state's check of sealed values, and its bytes have one of four lengths, so the server learns from
  them only which.\<close>

theorem sealed_ban_list_is_read_back:
  assumes "client_law x" and "seal_ban_list x nonce r l = Inr (Some b)"
    and "verified x q = Inr (Some (s, h))" and "st_ban_list s = Some b" and "record_master x q = record_master x r"
  shows "ban_list x q = Inr l \<and> check_optional_sealed x f max_sealed_ban_list_bytes (Some b) = Inr () \<and>
    (\<exists>bs n. base64_decode x b = Inr bs \<and> n \<in> {1024, 4096, 12288, 24535} \<and> length bs = sealed_len n)"
proof -
  from assms(2) obtain plain padded master sealed where m: "ban_list_bytes x l = Inr plain"
    "pad_ban_list plain = Some padded"
    "field_seal x nonce (state_key x master) FBanList [] padded = Inr sealed" "b = encode x sealed"
    by (auto simp: seal_ban_list_def split: if_splits)
  from field_roundtrip [OF assms(1) m(3)] pad_ban_list_Some(2) [OF m(2)]
  have "\<exists>bs n. base64_decode x b = Inr bs \<and> n \<in> {1024, 4096, 12288, 24535} \<and> length bs = sealed_len n"
    unfolding m(4) ban_list_bucket_values by auto
  with sealed_ban_list_reads [OF assms] show ?thesis by blast
qed

lemma demo_bans_sealed: "seal_ban_list demo_ext (replicate 24 0x65) (demo_r demo_s5) demo_bans = Inr (Some demo_sealed_bans)"
proof -
  have "validate_ban_list demo_ext demo_bans = Inr ()"
    by (simp add: validate_ban_list_Inr validate_banned_account_Inr demo_bans_def decoded_def group_format_version_def
        max_banned_pseudonyms_per_account_def public_key_len_def)
  then have b: "ban_list_bytes demo_ext demo_bans = Inr []"
    by (simp add: ban_list_bytes_def canonical_json_bytes_def) (simp add: demo_ext_def)
  have p: "pad_ban_list [] = Some (0x80 # replicate 1023 0)"
    by (simp add: pad_ban_list_def ban_list_bucket_values resize_def)
  show ?thesis
    using demo_state_key
    by (simp add: seal_ban_list_def demo_r_master b p field_seal_def aead_new_def aead_key_len_def field_aad_def
        seal_with_nonce_def check_nonce_def aead_nonce_len_def encode_def demo_sealed_bans_def) (simp add: demo_bans_def)
qed

theorem sealed_ban_list_is_read_back_witness: "ban_list demo_ext (demo_r demo_s5) = Inr demo_bans"
proof -
  have "st_ban_list demo_s5 = Some demo_sealed_bans" by (simp add: demo_s5_def)
  with sealed_ban_list_is_read_back [OF demo_law demo_bans_sealed demo_r_verified _ refl] show ?thesis by simp
qed

text \<open>The ban list is a map by account that keeps its canonical form: banning adds to that account's
  pseudonyms and leaves the others, lifting a ban returns and removes exactly that account's entry, and a list
  that validates still does.\<close>

theorem ban_list_is_a_map:
  assumes "validate_ban_list x l = Inr ()" and "decoded x p \<noteq> None"
    and "\<forall>e. ban_list_get l a = Some e \<longrightarrow>
      p \<in> set (ba_pseudonyms e) \<or> length (ba_pseudonyms e) < max_banned_pseudonyms_per_account"
    and "ban_list_unban l a = (l', lifted)"
  shows "validate_ban_list x (ban_list_ban x l a (Some p)) = Inr () \<and> validate_ban_list x l' = Inr () \<and>
    (\<exists>e. ban_list_get (ban_list_ban x l a (Some p)) a = Some e \<and> set (ba_pseudonyms e) =
       insert p (case ban_list_get l a of None \<Rightarrow> {} | Some e \<Rightarrow> set (ba_pseudonyms e))) \<and>
    lifted = ban_list_get l a \<and> ban_list_get l' a = None \<and>
    (\<forall>a'. a' \<noteq> a \<longrightarrow> ban_list_get (ban_list_ban x l a (Some p)) a' = ban_list_get l a' \<and>
       ban_list_get l' a' = ban_list_get l a')"
proof -
  from assms(1) have srt: "sorted_by ba_account (bl_banned l)" and
    val: "\<forall>b\<in>set (bl_banned l). validate_banned_account x b = Inr ()" by (simp_all add: validate_ban_list_Inr)
  have v: "validate_ban_list x (ban_list_ban x l a (Some p)) = Inr ()"
    using assms by (intro ban_list_ban_valid) auto
  have ps: "sorted_by (decoded x) (case ban_list_get l a of None \<Rightarrow> [] | Some e \<Rightarrow> ba_pseudonyms e)"
  proof (cases "ban_list_get l a")
    case (Some e)
    then have "e \<in> set (bl_banned l)" using bans.lookup_some_iff [OF srt] by blast
    with val Some show ?thesis by (simp add: validate_banned_account_Inr)
  qed simp
  show ?thesis
    using v ban_list_ban_get(1) [OF srt, where x = x and account = a and p = "Some p"]
      ban_list_ban_get(2) [OF srt, of x a p] ban_list_unban_get(1-3) [OF srt assms(4)]
      ban_list_unban_get(4) [OF srt assms(4) assms(1)] insert_pseudonym_known(2) [OF ps assms(2)]
    by (cases "ban_list_get l a") simp_all
qed

theorem ban_list_is_a_map_witness:
  "validate_ban_list demo_ext (ban_list_ban demo_ext demo_bans demo_account (Some p_a)) = Inr () \<and>
   ban_list_get (fst (ban_list_unban demo_bans demo_account)) demo_account = None"
proof -
  have "validate_ban_list demo_ext demo_bans = Inr ()"
    by (simp add: validate_ban_list_Inr validate_banned_account_Inr demo_bans_def decoded_def group_format_version_def
        max_banned_pseudonyms_per_account_def public_key_len_def)
  moreover have "\<forall>e. ban_list_get demo_bans demo_account = Some e \<longrightarrow>
      p_a \<in> set (ba_pseudonyms e) \<or> length (ba_pseudonyms e) < max_banned_pseudonyms_per_account"
    by (auto dest!: bans.lookup_key simp: demo_bans_def max_banned_pseudonyms_per_account_def)
  moreover obtain l' lifted where u: "ban_list_unban demo_bans demo_account = (l', lifted)" by fastforce
  moreover have "decoded demo_ext p_a \<noteq> None" by (simp add: decoded_def)
  ultimately show ?thesis
    using ban_list_is_a_map [of demo_ext demo_bans p_a demo_account l' lifted] by simp
qed

text \<open>Every join takes an epoch of its own: the epoch of a new membership is below the limit, never below
  the device's or the synced list's last one, and above it once the account was a member or gone; so no two
  memberships share a pseudonym's seed input.\<close>

theorem join_epochs_move_forward:
  assumes "next_join_epoch previous listed = Inr e"
  shows "e < max_join_epochs \<and>
    (\<forall>p. previous = Some p \<longrightarrow> gr_join_epoch p \<le> e \<and>
       (gr_status p = StatusMember \<or> gr_status p = Gone \<longrightarrow> gr_join_epoch p < e)) \<and>
    (\<forall>st le. listed = Some (st, le) \<longrightarrow> le \<le> e \<and> (st = ListGone \<longrightarrow> le < e))"
  using next_join_epoch_facts [OF assms] by blast

theorem join_epochs_move_forward_witness:
  "next_join_epoch None (Some (ListGone, 62)) = Inr 63 \<and> (62 :: u32) < 63"
proof -
  have "next_join_epoch None (Some (ListGone, 62)) = Inr 63" by code_simp
  with join_epochs_move_forward [OF this] show ?thesis by simp
qed

end
