(* ===== verification/Home_Properties.thy ===== *)
theory Home_Properties
  imports Client_Join_Demo Group_Notary
begin

text \<open>
  What a group's links, sealed fields and home promise: the canonical invite link, fields bound to their
  group, kind and subject, the home's identity history, its notary and the client's cache of its keys.
\<close>

section \<open>Links and sealed fields\<close>

text \<open>An invite link has one spelling: what a link's fields print as reads back as them, with or without
  the leading number sign, and a fragment that reads prints as itself; its key and password have their
  lengths and its home is valid.\<close>

theorem invite_link_roundtrip:
  assumes "url_law x"
  shows "(\<forall>l f. length (il_master_key l) = 32 \<and> length (il_password l) = 16 \<and> to_fragment x l = Inr f \<longrightarrow>
      from_fragment x (CHR ''#'' # f) = Inr l \<and> (strip_hash f = f \<longrightarrow> from_fragment x f = Inr l)) \<and>
    (\<forall>g l. from_fragment x g = Inr l \<longrightarrow> to_fragment x l = Inr (strip_hash g) \<and>
      length (il_master_key l) = 32 \<and> length (il_password l) = 16 \<and> validate_home (il_home l) = Inr ())"
proof (intro conjI allI impI)
  fix l f
  assume a: "length (il_master_key l) = 32 \<and> length (il_password l) = 16 \<and> to_fragment x l = Inr f"
  from assms have u: "\<And>b. url_decode x (url_encode x b) = Some b" by simp
  from a show "from_fragment x (CHR ''#'' # f) = Inr l"
    by (intro from_to_fragment [OF u, of l f]) (simp_all add: strip_hash_simps)
  assume "strip_hash f = f"
  with a show "from_fragment x f = Inr l" by (intro from_to_fragment [OF u, of l f]) simp_all
next
  fix g l
  assume a: "from_fragment x g = Inr l"
  from to_from_fragment [OF a] show "to_fragment x l = Inr (strip_hash g)" "length (il_master_key l) = 32"
    "length (il_password l) = 16" by simp_all
  then show "validate_home (il_home l) = Inr ()" by (simp add: to_fragment_Inr)
qed

theorem invite_link_roundtrip_witness:
  "\<exists>f. from_fragment demo_ext (CHR ''#'' # f) =
     Inr \<lparr>il_master_key = replicate 32 1, il_password = replicate 16 2, il_home = demo_home\<rparr>"
proof -
  let ?l = "\<lparr>il_master_key = replicate 32 1, il_password = replicate 16 2, il_home = demo_home\<rparr>"
  have "hex_to_bytes (pin_identity_document_hash demo_home) = Inr (replicate 32 0xbc)"
    unfolding demo_home_def by (simp add: hex_to_bytes_to_hex hash_len_def)
  then have "\<exists>f. to_fragment demo_ext ?l = Inr f" by (simp add: to_fragment_Inr)
  then obtain f where "length (il_master_key ?l) = 32 \<and> length (il_password ?l) = 16 \<and> to_fragment demo_ext ?l = Inr f"
    by fastforce
  with conjunct1 [OF invite_link_roundtrip [OF client_lawD(3) [OF demo_law]]] show ?thesis by blast
qed

text \<open>A sealed field opens to what was sealed, at the length its plaintext determines; and what is
  authenticated with it names one group, one kind of field and one subject, so the server can move no sealed
  value to another place without the cipher refusing it.\<close>

theorem sealed_field_is_bound:
  assumes "aead_law x" and "field_seal x nonce k f subject plain = Inr sealed"
  shows "field_open x k f subject sealed = Inr plain \<and> length sealed = sealed_len (length plain) \<and>
    (\<forall>k' f' subject'. length (gk_group_id k') = length (gk_group_id k) \<and>
       field_aad k' f' subject' = field_aad k f subject \<longrightarrow>
       gk_group_id k' = gk_group_id k \<and> f' = f \<and> subject' = subject)"
proof -
  from assms(2) obtain a where "field_aad k f subject = Inr a" by (auto simp: field_seal_def)
  moreover from this have "gk_group_id k' = gk_group_id k \<and> f' = f \<and> subject' = subject"
    if "length (gk_group_id k') = length (gk_group_id k)" "field_aad k' f' subject' = field_aad k f subject"
    for k' f' subject'
    using field_aad_inj [of k' f' subject' a k f subject] that by simp
  ultimately show ?thesis using field_open_seal [OF assms] by blast
qed

theorem sealed_field_is_bound_witness:
  "field_open demo_ext (state_key demo_ext demo_master) FTitle [] (demo_entry_bytes) = Inr []"
proof -
  have "field_seal demo_ext (replicate 24 0x65) (state_key demo_ext demo_master) FTitle [] [] = Inr demo_entry_bytes"
    using demo_state_key
    by (simp add: field_seal_def aead_new_def aead_key_len_def field_aad_def seal_with_nonce_def check_nonce_def
        aead_nonce_len_def demo_entry_bytes_def)
  from sealed_field_is_bound [OF client_lawD(5) [OF demo_law] this] show ?thesis by blast
qed

section \<open>The home's identity\<close>

text \<open>C17: A server's identity history is determined by the hash of its newest document: two histories that
  verify and end in documents of one hash are the same documents, signatures aside, unless two documents
  with different signed bytes and one hash are shown; the sequences count from 0 and every document is
  of the pinned server.\<close>

theorem identity_history_is_determined:
  assumes "hex_law x" and "verify_identity_chain x s ds = Inr ()" and "verify_identity_chain x s' es = Inr ()"
    and "document_hash x (last ds) = document_hash x (last es)"
  shows "(map unsigned ds = map unsigned es \<or> (\<exists>d\<in>set ds. \<exists>e\<in>set es. document_clash x d e)) \<and>
    (\<forall>i<length ds. unat (fd_sequence (ds ! i)) = i \<and> fd_server (ds ! i) = s)"
proof -
  have "map unsigned ds = map unsigned es \<or> (\<exists>d\<in>set ds. \<exists>e\<in>set es. document_clash x d e)"
    using identity_chain_unique [OF assms] by blast
  with identity_chain_facts [OF assms(2)] nth_mem show ?thesis by blast
qed

theorem identity_history_is_determined_witness:
  "map unsigned [demo_document] = map unsigned [demo_document\<lparr>fd_current_signature := replicate 64 CHR ''t''\<rparr>] \<and>
   unat (fd_sequence demo_document) = 0"
proof -
  have "verify_genesis demo_ext demo_document ''a.example'' = Inr ()"
    by (rule identity_genesis_verifies(1) [OF demo_ed25519 demo_document_issued])
  then have "verify_identity_chain demo_ext ''a.example'' [demo_document] = Inr ()"
    by (simp add: verify_identity_chain_single)
  from identity_history_is_determined [OF demo_hex this this refl] show ?thesis
    by (auto simp: document_clash_def unsigned_def)
qed

text \<open>A server can always go on: from a verified history whose newest key it holds, rotating to a new key
  no earlier than the newest document succeeds, unless the sequence is at its end, and the history with the
  new document verifies.\<close>

theorem identity_can_rotate:
  assumes "ed25519_law x" and "std_law x" and "hex_law x" and "\<And>b. length (sha256 x b) = 32"
    and "verify_identity_chain x s ds = Inr ()" and "length s1 = 32" and "length s2 = 32"
    and "public_key_bytes x (fd_key (last ds)) = Inr (ed25519_public x s1)"
    and "ed25519_public x s1 \<noteq> ed25519_public x s2"
    and "unat (fd_sequence (last ds)) < 2 ^ 64 - 1" and "sint (fd_issued_at (last ds)) \<le> sint t"
  shows "\<exists>d. identity_rotate x (last ds) t s1 s2 = Inr d \<and> verify_identity_chain x s (ds @ [d]) = Inr ()"
proof -
  from identity_chain_facts [OF assms(5)] have "verify_current x (last ds) = Inr ()" by auto
  from identity_rotate_total [OF assms(1-4) this assms(6-)] rotated_chain_verifies [OF assms(5)]
  show ?thesis by blast
qed

theorem identity_can_rotate_witness:
  "\<exists>d. verify_identity_chain demo_ext ''a.example'' [demo_document, d] = Inr ()"
proof -
  have "verify_genesis demo_ext demo_document ''a.example'' = Inr ()"
    by (rule identity_genesis_verifies(1) [OF demo_ed25519 demo_document_issued])
  then have c: "verify_identity_chain demo_ext ''a.example'' [demo_document] = Inr ()"
    by (simp add: verify_identity_chain_single)
  have "fd_sequence demo_document = 0" "fd_issued_at demo_document = 1" by (simp_all add: demo_document_def)
  then show ?thesis
    using identity_can_rotate [OF demo_ed25519(1,2) demo_hex _ c demo_ed25519(3), of "replicate 32 8" 1] demo_public_key
    by (auto simp: demo_home_seed_def)
qed

section \<open>The notary and the cache\<close>

text \<open>What a home notarises its members accept: a notary signed with the key of a document in the history
  the members follow verifies, for that group, revision, change and state, wherever in the history the
  document stands and as long as no newer one notarised before; and the signature is of those four only.\<close>

theorem home_notary_is_accepted:
  assumes "ed25519_law x" and "std_law x" and "\<And>b. length (sha256 x b) = 32" and "length seed = 32"
    and "notary_sign x d seed config gid rv ch sh = Inr n" and "follow x pin history = Inr e"
    and "d \<in> set history" and "prev = None \<or> (\<exists>p. prev = Some p \<and> p \<le> fd_sequence d)"
  shows "notary_verify x n history prev gid rv ch sh = Inr () \<and>
    (\<forall>gid' rv' ch' sh' k k'. length gid = 32 \<and> length gid' = 32 \<and> length ch = 32 \<and> length ch' = 32 \<and>
       length sh = 32 \<and> length sh' = 32 \<and> notary_input gid rv ch sh k = notary_input gid' rv' ch' sh' k' \<longrightarrow>
       gid = gid' \<and> rv = rv' \<and> ch = ch' \<and> sh = sh')"
  using notary_sign_verifies [OF assms] notary_input_inj by blast

definition demo_config :: gateway_config where
  "demo_config = \<lparr>gc_version = group_route_version, gc_server = ''a.example'', gc_key_id = 1, gc_kem_id = kem_xwing,
     gc_kdf_id = kdf_hkdf_sha256, gc_aead_id = aead_chacha20_poly1305, gc_public_key = replicate gateway_key_len CHR ''p'',
     gc_issued_at = 100, gc_expires_at = 1000, gc_identity_sequence = 0, gc_signature = demo_sig\<rparr>"

lemma demo_config_hash: "\<exists>h. config_hash demo_ext demo_config = Inr h"
proof -
  have "config_validate_shape demo_ext demo_config = Inr ()"
    by (simp add: config_validate_shape_def demo_config_def i64_checked_sub_def i64_min_def i64_max_def
        max_key_config_lifetime_secs_def decode_fixed_def)
  then show ?thesis by (simp add: config_hash_def) (simp add: demo_ext_def)
qed

theorem home_notary_is_accepted_witness:
  "\<exists>n. notary_verify demo_ext n [demo_document] None (replicate 32 1) 0 (replicate 32 2) (replicate 32 3) = Inr ()"
proof -
  have "fd_sequence demo_document = 0" "fd_server demo_document = ''a.example''" by (simp_all add: demo_document_def)
  then obtain n where n: "notary_sign demo_ext demo_document demo_home_seed demo_config
      (replicate 32 1) 0 (replicate 32 2) (replicate 32 3) = Inr n"
    using demo_config_hash demo_public_key by (auto simp: notary_sign_def) (auto simp: demo_config_def)
  show ?thesis using home_notary_is_accepted [OF demo_ed25519(1,2) _ demo_ed25519(3) n demo_follow, of None] by auto
qed

text \<open>The client's cache of its home's gateway keys never goes back, whatever the home answers and however
  often: the config it holds is replaced only by a later one of the same home, by its identity sequence and
  then its time of issue, and it remembers at most sixteen configs.\<close>

theorem gateway_cache_never_goes_back:
  assumes "length (ca_accepted c) \<le> max_accepted_configs"
  shows "config_le (ca_config (run_steps (cache_refresh x pin) c as))
      (ca_config (run_steps (cache_refresh x pin) c (as @ bs))) \<and>
    length (ca_accepted (run_steps (cache_refresh x pin) c as)) \<le> max_accepted_configs"
  using gateway.run_never_back [OF assms] gateway.run_up [OF assms] by blast

theorem gateway_cache_never_goes_back_witness:
  "\<exists>c. ca_config c = Some demo_config \<and> config_le (Some demo_config)
     (ca_config (run_steps (cache_refresh demo_ext demo_home) c [(demo_config, [], 0)]))"
proof -
  let ?c = "\<lparr>ca_config = Some demo_config, ca_identity_history = [demo_document], ca_accepted = []\<rparr>"
  have "length (ca_accepted ?c) \<le> max_accepted_configs" by simp
  from gateway_cache_never_goes_back [OF this, of demo_ext demo_home "[]" "[(demo_config, [], 0)]"]
  have "config_le (Some demo_config) (ca_config (run_steps (cache_refresh demo_ext demo_home) ?c [(demo_config, [], 0)]))"
    by (simp del: run_steps.simps(2))
  then show ?thesis by (intro exI [of _ ?c]) simp
qed

text \<open>The federation's and the groups' checks of a server name agree, so a name one accepts the other
  never refuses.\<close>

theorem server_name_checks_agree: "validate_server_name s = Inr () \<longleftrightarrow> valid_server s"
  by (rule validate_server_name_iff)

end
