(* ===== verification/Account_Head.thy ===== *)
theory Account_Head
  imports Primitives Tables Ratchet "HOL-Library.Product_Lexorder"
begin

text \<open>
  The account head (\<open>kutup-crypto/src/account_head.rs\<close>): the sealed, numbered and hash-chained value
  that lists, for every kind of value an account keeps, how many there are and a digest of their
  (id, revision) pairs; how a device checks the head the server shows against the one it remembers, and
  what it stores of it.  The JSON of a head and of a device's state is a parameter, a random nonce or
  device id an argument.
\<close>

section \<open>Constants\<close>

definition head_salt :: bytes where "head_salt = domain_bytes ''kutup/account-head/v1''"
definition head_seal_key_info :: bytes where "head_seal_key_info = domain_bytes ''kutup/account-head/seal-key/v1''"
definition head_id_key_info :: bytes where "head_id_key_info = domain_bytes ''kutup/account-head/id-key/v1''"
definition value_id_domain :: bytes where "value_id_domain = domain_bytes ''kutup/account-head/value/v1''"
definition writer_domain :: bytes where "writer_domain = domain_bytes ''kutup/account-head/writer/v1''"
definition scope_domain :: bytes where "scope_domain = domain_bytes ''kutup/account-head/scope/v1''"
definition head_aad_domain :: bytes where "head_aad_domain = domain_bytes ''kutup/account-head/sealed/v1''"
definition local_name_domain :: bytes where "local_name_domain = domain_bytes ''kutup/account-head/local-name/v1''"
definition local_aad_domain :: bytes where "local_aad_domain = domain_bytes ''kutup/account-head/local/v1''"
definition head_magic :: bytes where "head_magic = bytes_of_string ''KUTAH1'' @ [0, 0]"
definition local_magic :: bytes where "local_magic = bytes_of_string ''KUTAL1'' @ [0, 0]"
definition head_suite :: nat where "head_suite = 1"
definition head_nonce_len :: nat where "head_nonce_len = 24"
definition head_tag_len :: nat where "head_tag_len = 16"
definition head_header_len :: nat where "head_header_len = 8 + 2 + 8 + head_nonce_len"
definition max_scopes :: nat where "max_scopes = 64"
definition max_sealed_head_bytes :: nat where "max_sealed_head_bytes = 16 * 1024"
definition max_scope_values :: nat where "max_scope_values = 1000000"

definition head_invalid :: "string \<Rightarrow> crypto_error" where
  "head_invalid what = InvalidInput (''account head: '' @ what)"

section \<open>Keys\<close>

record head_keys =
  hk_seal :: bytes
  hk_id :: bytes

text \<open>The expansion of 32 bytes never fails, so \<open>derive\<close> has no error.\<close>

definition head_keys_derive :: "'a ext_scheme \<Rightarrow> bytes \<Rightarrow> head_keys" where
  "head_keys_derive x master_key =
     \<lparr>hk_seal = hkdf_sha256 x head_salt master_key head_seal_key_info 32,
      hk_id = hkdf_sha256 x head_salt master_key head_id_key_info 32\<rparr>"

definition mac_input :: "bytes \<Rightarrow> bytes list \<Rightarrow> bytes" where
  "mac_input domain parts = domain @ concat (map (\<lambda>part. be32 (length part mod 2 ^ 32) @ part) parts)"

definition head_mac :: "'a ext_scheme \<Rightarrow> head_keys \<Rightarrow> bytes \<Rightarrow> bytes list \<Rightarrow> bytes" where
  "head_mac x keys domain parts = hmac_sha256 x (hk_id keys) (mac_input domain parts)"

definition check_scope :: "string \<Rightarrow> crypto_error + unit" where
  "check_scope scope =
     require (\<not> (scope = [] \<or> length scope > 32 \<or> \<not> list_all is_alphanumeric scope))
       (head_invalid ''scope name is invalid'')"

definition value_id :: "'a ext_scheme \<Rightarrow> head_keys \<Rightarrow> string \<Rightarrow> string \<Rightarrow> crypto_error + bytes" where
  "value_id x keys scope i =
     bindr (check_scope scope) (\<lambda>_.
     bindr (require (\<not> (i = [] \<or> length i > 1024)) (head_invalid ''value id is invalid'')) (\<lambda>_.
     Inr (head_mac x keys value_id_domain [bytes_of_string scope, bytes_of_string i])))"

definition local_state_name :: "'a ext_scheme \<Rightarrow> head_keys \<Rightarrow> string \<Rightarrow> crypto_error + string" where
  "local_state_name x keys incarnation_id =
     bindr (require (is_lower_hex_32 incarnation_id) (head_invalid ''incarnation id is invalid'')) (\<lambda>_.
     Inr (hex_encode x (head_mac x keys local_name_domain [bytes_of_string incarnation_id])))"

definition head_writer :: "'a ext_scheme \<Rightarrow> head_keys \<Rightarrow> string \<Rightarrow> crypto_error + string" where
  "head_writer x keys device_id =
     bindr (require (\<not> (device_id = [] \<or> length device_id > 256)) (head_invalid ''device id is invalid'')) (\<lambda>_.
     Inr (hex_encode x (head_mac x keys writer_domain [bytes_of_string device_id])))"

section \<open>Scopes\<close>

record scope_entry =
  sc_scope :: string
  sc_count :: u64
  sc_digest :: string

definition scope_input :: "string \<Rightarrow> (bytes \<times> u64) list \<Rightarrow> bytes" where
  "scope_input scope pairs = scope_domain @ be32 (length scope mod 2 ^ 32) @ bytes_of_string scope @
     be64 (word_of_nat (length pairs)) @ concat (map (\<lambda>(i, revision). i @ be64 revision) pairs)"

definition scope_pair :: "'a ext_scheme \<Rightarrow> head_keys \<Rightarrow> string \<Rightarrow> string \<times> u64 \<Rightarrow> crypto_error + bytes \<times> u64" where
  "scope_pair x keys scope = (\<lambda>(i, revision).
     bindr (require (revision \<noteq> 0) (head_invalid ''revisions start at 1'')) (\<lambda>_.
     bindr (value_id x keys scope i) (\<lambda>v. Inr (v, revision))))"

definition scope_digest ::
  "'a ext_scheme \<Rightarrow> head_keys \<Rightarrow> string \<Rightarrow> (string \<times> u64) list \<Rightarrow> crypto_error + scope_entry" where
  "scope_digest x keys scope index =
     bindr (check_scope scope) (\<lambda>_.
     bindr (require (\<not> length index > max_scope_values) (head_invalid ''the scope holds too many values'')) (\<lambda>_.
     bindr (collectr (scope_pair x keys scope) index) (\<lambda>pairs.
     let pairs = sort pairs
     in bindr (require (windows2 (\<lambda>a b. fst a \<noteq> fst b) pairs) (head_invalid ''a value is listed twice'')) (\<lambda>_.
        Inr \<lparr>sc_scope = scope, sc_count = word_of_nat (length pairs),
          sc_digest = hex_encode x (sha256 x (scope_input scope pairs))\<rparr>))))"

section \<open>The head\<close>

record account_head =
  ah_incarnation_id :: string
  ah_sequence :: u64
  ah_previous :: "string option"
  ah_writer :: string
  ah_scopes :: "scope_entry list"

definition validate_head :: "account_head \<Rightarrow> crypto_error + unit" where
  "validate_head h =
     bindr (require (\<not> (\<not> is_lower_hex_32 (ah_incarnation_id h) \<or> \<not> is_lower_hex_32 (ah_writer h)))
       (head_invalid ''incarnation or writer is invalid'')) (\<lambda>_.
     bindr (require (\<not> (ah_sequence h = 0 \<or> ah_sequence h > 2 ^ 53)) (head_invalid ''sequence is invalid'')) (\<lambda>_.
     bindr (require (case ah_previous h of None \<Rightarrow> ah_sequence h = 1
         | Some previous \<Rightarrow> ah_sequence h > 1 \<and> is_lower_hex_32 previous)
       (head_invalid ''previous does not match the sequence'')) (\<lambda>_.
     bindr (require (\<not> (length (ah_scopes h) > max_scopes \<or>
         \<not> windows2 (\<lambda>a b. sc_scope a < sc_scope b) (ah_scopes h)))
       (head_invalid ''scopes must be sorted, one each'')) (\<lambda>_.
     for_each (\<lambda>s. bindr (check_scope (sc_scope s)) (\<lambda>_.
       require (\<not> (\<not> is_lower_hex_32 (sc_digest s) \<or> sc_count s > word_of_nat max_scope_values))
         (head_invalid ''a scope entry is invalid''))) (ah_scopes h)))))"

definition head_scope :: "account_head \<Rightarrow> string \<Rightarrow> scope_entry option" where
  "head_scope h scope = List.find (\<lambda>e. sc_scope e = scope) (ah_scopes h)"

fun put_scopes :: "scope_entry list \<Rightarrow> scope_entry list \<Rightarrow> scope_entry list" where
  "put_scopes scopes [] = scopes"
| "put_scopes scopes (e # es) = put_scopes (filter (\<lambda>known. sc_scope known \<noteq> sc_scope e) scopes @ [e]) es"

definition head_digest :: "'a ext_scheme \<Rightarrow> bytes \<Rightarrow> bytes" where
  "head_digest x sealed = sha256 x sealed"

text \<open>The sequence of a validated head is at most \<open>2 ^ 53\<close>, so the addition does not wrap.\<close>

definition head_next ::
  "'a ext_scheme \<Rightarrow> account_head \<Rightarrow> bytes \<Rightarrow> string \<Rightarrow> scope_entry list \<Rightarrow> crypto_error + account_head" where
  "head_next x h sealed writer entries =
     (let next = \<lparr>ah_incarnation_id = ah_incarnation_id h, ah_sequence = ah_sequence h + 1,
            ah_previous = Some (hex_encode x (head_digest x sealed)), ah_writer = writer,
            ah_scopes = sort_key sc_scope (put_scopes (ah_scopes h) entries)\<rparr>
      in bindr (validate_head next) (\<lambda>_. Inr next))"

definition head_first :: "string \<Rightarrow> string \<Rightarrow> scope_entry list \<Rightarrow> crypto_error + account_head" where
  "head_first incarnation_id writer scopes =
     (let h = \<lparr>ah_incarnation_id = incarnation_id, ah_sequence = 1, ah_previous = None, ah_writer = writer,
            ah_scopes = sort_key sc_scope scopes\<rparr>
      in bindr (validate_head h) (\<lambda>_. Inr h))"

section \<open>Sealing\<close>

record head_ext = ext +
  head_to_json :: "account_head \<Rightarrow> bytes option"
  head_from_json :: "bytes \<Rightarrow> account_head option"

definition head_aad :: "string \<Rightarrow> u64 \<Rightarrow> crypto_error + bytes" where
  "head_aad binding sequence =
     bindr (map_err (\<lambda>_. head_invalid ''key binding is invalid'') (binding_check binding)) (\<lambda>binding.
     Inr (head_magic @ be16 head_suite @ head_aad_domain @ be16 (length binding mod 2 ^ 16) @
       bytes_of_string binding @ be64 sequence))"

definition head_seal ::
  "'a head_ext_scheme \<Rightarrow> bytes \<Rightarrow> head_keys \<Rightarrow> string \<Rightarrow> account_head \<Rightarrow> crypto_error + bytes" where
  "head_seal x nonce keys binding h =
     bindr (validate_head h) (\<lambda>_.
     bindr (ok_or (head_to_json x h) (head_invalid ''encode'')) (\<lambda>plain.
     bindr (aead_new (hk_seal keys)) (\<lambda>key.
     bindr (head_aad binding (ah_sequence h)) (\<lambda>aad.
     bindr (map_err (\<lambda>_. Backend ''account head seal'') (seal_with_nonce x key nonce aad plain)) (\<lambda>ciphertext.
     let sealed = head_magic @ be16 head_suite @ be64 (ah_sequence h) @ nonce @ ciphertext
     in bindr (require (\<not> length sealed > max_sealed_head_bytes) (head_invalid ''the head is too large'')) (\<lambda>_.
        Inr sealed))))))"

definition head_inspect :: "bytes \<Rightarrow> crypto_error + u64" where
  "head_inspect sealed =
     bindr (require (\<not> (length sealed \<le> head_header_len + head_tag_len \<or> length sealed > max_sealed_head_bytes))
       (head_invalid ''size is invalid'')) (\<lambda>_.
     bindr (require (\<not> (take 8 sealed \<noteq> head_magic \<or> take 2 (drop 8 sealed) \<noteq> be16 head_suite))
       (head_invalid ''not an account head'')) (\<lambda>_.
     let sequence = of_be64 (take 8 (drop 10 sealed))
     in bindr (require (sequence \<noteq> 0) (head_invalid ''sequence is invalid'')) (\<lambda>_. Inr sequence)))"

definition head_open ::
  "'a head_ext_scheme \<Rightarrow> head_keys \<Rightarrow> string \<Rightarrow> bytes \<Rightarrow> crypto_error + account_head" where
  "head_open x keys binding sealed =
     bindr (head_inspect sealed) (\<lambda>sequence.
     bindr (aead_new (hk_seal keys)) (\<lambda>key.
     bindr (head_aad binding sequence) (\<lambda>aad.
     bindr (map_err (\<lambda>_. AuthFailed) (open_with_nonce x key (take head_nonce_len (drop 18 sealed)) aad
       (drop head_header_len sealed))) (\<lambda>plain.
     bindr (ok_or (head_from_json x plain) (head_invalid ''decode'')) (\<lambda>h.
     bindr (validate_head h) (\<lambda>_.
     bindr (require (\<not> (ah_sequence h \<noteq> sequence \<or> head_to_json x h \<noteq> Some plain))
       (head_invalid ''the head is not canonical'')) (\<lambda>_. Inr h)))))))"

section \<open>What a device has verified\<close>

definition head_retention :: u64 where "head_retention = 1000"

record anchor =
  an_sequence :: u64
  an_digest :: string

definition anchor_of :: "'a ext_scheme \<Rightarrow> bytes \<Rightarrow> crypto_error + anchor" where
  "anchor_of x sealed =
     bindr (head_inspect sealed) (\<lambda>sequence.
     Inr \<lparr>an_sequence = sequence, an_digest = hex_encode x (head_digest x sealed)\<rparr>)"

record verified_head =
  vh_head :: account_head
  vh_sealed :: bytes
  vh_anchor :: anchor

definition verified_of :: "'a ext_scheme \<Rightarrow> account_head \<Rightarrow> bytes \<Rightarrow> crypto_error + verified_head" where
  "verified_of x h sealed =
     bindr (anchor_of x sealed) (\<lambda>anchor. Inr \<lparr>vh_head = h, vh_sealed = sealed, vh_anchor = anchor\<rparr>)"

definition verified_next ::
  "'a ext_scheme \<Rightarrow> verified_head \<Rightarrow> string \<Rightarrow> scope_entry list \<Rightarrow> crypto_error + account_head" where
  "verified_next x v writer entries = head_next x (vh_head v) (vh_sealed v) writer entries"

definition head_committed ::
  "'a head_ext_scheme \<Rightarrow> verified_head \<Rightarrow> head_keys \<Rightarrow> string \<Rightarrow> bytes \<Rightarrow> crypto_error + verified_head" where
  "head_committed x v keys binding sealed =
     bindr (head_open x keys binding sealed) (\<lambda>h.
     bindr (require (\<not> (ah_sequence h \<noteq> ah_sequence (vh_head v) + 1 \<or>
         ah_previous h \<noteq> Some (an_digest (vh_anchor v)) \<or>
         ah_incarnation_id h \<noteq> ah_incarnation_id (vh_head v)))
       (head_invalid ''the head does not follow the verified one'')) (\<lambda>_.
     verified_of x h sealed))"

section \<open>The check\<close>

datatype head_status = HeadFresh | HeadCurrent | HeadExtends | HeadRollback | HeadFork | HeadTooOld

record checked_head =
  ck_status :: head_status
  ck_verified :: "verified_head option"

text \<open>\<open>segment.last() != Some(current)\<close> is false only for a last element equal to it; the first element
  is read once the length is known to be the expected one, at least 1.\<close>

definition descends ::
  "'a head_ext_scheme \<Rightarrow> head_keys \<Rightarrow> string \<Rightarrow> string \<Rightarrow> anchor \<Rightarrow> bytes \<Rightarrow> bytes list \<Rightarrow> bool" where
  "descends x keys binding incarnation_id anchor current segment =
     (case head_inspect current of Inl _ \<Rightarrow> False
      | Inr current_sequence \<Rightarrow>
          (let expected = unat (current_sequence - an_sequence anchor + 1)
           in if length segment \<noteq> expected \<or> (if segment = [] then None else Some (last segment)) \<noteq> Some current \<or>
                hex_encode x (head_digest x (segment ! 0)) \<noteq> an_digest anchor
              then False
              else windows2 (\<lambda>a b. case (head_inspect a, head_open x keys binding b) of
                  (Inr earlier, Inr later) \<Rightarrow> ah_sequence later = earlier + 1 \<and>
                     ah_previous later = Some (hex_encode x (head_digest x a)) \<and>
                     ah_incarnation_id later = incarnation_id
                | _ \<Rightarrow> False) segment))"

definition status_of ::
  "'a head_ext_scheme \<Rightarrow> head_keys \<Rightarrow> string \<Rightarrow> string \<Rightarrow> account_head \<Rightarrow> anchor option \<Rightarrow> bytes \<Rightarrow>
   bytes list option \<Rightarrow> head_status" where
  "status_of x keys binding incarnation_id h anchor current segment =
     (case anchor of None \<Rightarrow> HeadFresh
      | Some anchor \<Rightarrow>
          if ah_sequence h < an_sequence anchor then HeadRollback
          else if ah_sequence h = an_sequence anchor
          then (if hex_encode x (head_digest x current) = an_digest anchor then HeadCurrent else HeadFork)
          else (case segment of
              None \<Rightarrow> if ah_sequence h - an_sequence anchor > head_retention then HeadTooOld else HeadFork
            | Some segment \<Rightarrow> if descends x keys binding incarnation_id anchor current segment
                then HeadExtends else HeadFork))"

definition check_head ::
  "'a head_ext_scheme \<Rightarrow> head_keys \<Rightarrow> string \<Rightarrow> string \<Rightarrow> anchor option \<Rightarrow> bytes \<Rightarrow> bytes list option \<Rightarrow>
   crypto_error + checked_head" where
  "check_head x keys binding incarnation_id anchor current segment =
     bindr (head_open x keys binding current) (\<lambda>h.
     bindr (require (ah_incarnation_id h = incarnation_id) (head_invalid ''the head is another incarnation's''))
       (\<lambda>_.
     let status = status_of x keys binding incarnation_id h anchor current segment
     in if status \<in> {HeadFresh, HeadCurrent, HeadExtends}
        then bindr (verified_of x h current) (\<lambda>v. Inr \<lparr>ck_status = status, ck_verified = Some v\<rparr>)
        else Inr \<lparr>ck_status = status, ck_verified = None\<rparr>))"

record reanchored =
  ra_from :: anchor
  ra_to :: anchor
  ra_status :: head_status
  ra_at_ms :: u64

definition reanchor ::
  "'a head_ext_scheme \<Rightarrow> head_keys \<Rightarrow> string \<Rightarrow> string \<Rightarrow> anchor \<Rightarrow> bytes \<Rightarrow> bytes list option \<Rightarrow> bool \<Rightarrow>
   u64 \<Rightarrow> crypto_error + reanchored \<times> verified_head" where
  "reanchor x keys binding incarnation_id anchor current segment confirmed at_ms =
     bindr (check_head x keys binding incarnation_id (Some anchor) current segment) (\<lambda>checked.
     bindr (case ck_status checked of
         HeadTooOld \<Rightarrow> Inr ()
       | HeadRollback \<Rightarrow> require confirmed
           (head_invalid ''a rollback or a fork is re-anchored only when the person confirms it'')
       | HeadFork \<Rightarrow> require confirmed
           (head_invalid ''a rollback or a fork is re-anchored only when the person confirms it'')
       | _ \<Rightarrow> Inl (head_invalid ''nothing to re-anchor: the head is trusted'')) (\<lambda>_.
     bindr (head_open x keys binding current) (\<lambda>h.
     bindr (verified_of x h current) (\<lambda>v.
     Inr (\<lparr>ra_from = anchor, ra_to = vh_anchor v, ra_status = ck_status checked, ra_at_ms = at_ms\<rparr>, v)))))"

datatype index_check = IndexMatches | IndexUncovered

definition check_index ::
  "'a ext_scheme \<Rightarrow> head_keys \<Rightarrow> verified_head \<Rightarrow> string \<Rightarrow> (string \<times> u64) list \<Rightarrow> crypto_error + index_check" where
  "check_index x keys v scope index =
     (case head_scope (vh_head v) scope of None \<Rightarrow> Inr IndexUncovered
      | Some entry \<Rightarrow>
          bindr (scope_digest x keys scope index) (\<lambda>d.
          bindr (require (d = entry) (head_invalid ''the index does not match the head'')) (\<lambda>_.
          Inr IndexMatches)))"

definition first_head ::
  "'a head_ext_scheme \<Rightarrow> bytes \<Rightarrow> head_keys \<Rightarrow> string \<Rightarrow> string \<Rightarrow> string \<Rightarrow> scope_entry list \<Rightarrow>
   crypto_error + bytes \<times> verified_head" where
  "first_head x nonce keys binding incarnation_id writer scopes =
     bindr (head_first incarnation_id writer scopes) (\<lambda>h.
     bindr (head_seal x nonce keys binding h) (\<lambda>sealed.
     bindr (verified_of x h sealed) (\<lambda>v. Inr (sealed, v))))"

section \<open>What a device keeps\<close>

definition local_log_len :: nat where "local_log_len = 20"
definition max_local_sealed_bytes :: nat where "max_local_sealed_bytes = 16 * 1024"

datatype local_head_event =
    StartedFresh anchor u64 "string option"
  | ReanchoredEvent reanchored
  | Forgotten anchor u64

record local_head_state =
  lh_incarnation_id :: string
  lh_device_id :: string
  lh_anchor :: "anchor option"
  lh_anchored_at_ms :: u64
  lh_log :: "local_head_event list"
  lh_started_over :: "string option"

record local_ext = head_ext +
  local_to_json :: "local_head_state \<Rightarrow> bytes option"
  local_from_json :: "bytes \<Rightarrow> local_head_state option"

definition validate_local :: "local_head_state \<Rightarrow> crypto_error + unit" where
  "validate_local s =
     bindr (require (is_lower_hex_32 (lh_incarnation_id s)) (head_invalid ''incarnation id is invalid'')) (\<lambda>_.
     bindr (require (\<not> (lh_device_id s = [] \<or> length (lh_device_id s) > 256))
       (head_invalid ''device id is invalid'')) (\<lambda>_.
     require (\<not> length (lh_log s) > local_log_len) (head_invalid ''the local log is too long'')))"

definition local_with_device :: "string \<Rightarrow> string \<Rightarrow> crypto_error + local_head_state" where
  "local_with_device incarnation_id device_id =
     (let s = \<lparr>lh_incarnation_id = incarnation_id, lh_device_id = device_id, lh_anchor = None,
            lh_anchored_at_ms = 0, lh_log = [], lh_started_over = None\<rparr>
      in bindr (validate_local s) (\<lambda>_. Inr s))"

definition local_new :: "'a ext_scheme \<Rightarrow> bytes \<Rightarrow> string \<Rightarrow> crypto_error + local_head_state" where
  "local_new x device incarnation_id = local_with_device incarnation_id (hex_encode x device)"

definition local_note :: "local_head_state \<Rightarrow> local_head_event \<Rightarrow> local_head_state" where
  "local_note s event =
     (let log = lh_log s @ [event]
      in s\<lparr>lh_log := if length log > local_log_len then drop (length log - local_log_len) log else log\<rparr>)"

definition local_advance :: "local_head_state \<Rightarrow> verified_head \<Rightarrow> u64 \<Rightarrow> bool \<times> local_head_state" where
  "local_advance s v at_ms =
     (let moved = s\<lparr>lh_anchor := Some (vh_anchor v), lh_anchored_at_ms := at_ms\<rparr>
      in case lh_anchor s of
           Some known \<Rightarrow> if an_sequence known \<ge> an_sequence (vh_anchor v) then (False, s) else (True, moved)
         | None \<Rightarrow> (True, local_note (moved\<lparr>lh_started_over := None\<rparr>)
             (StartedFresh (vh_anchor v) at_ms (lh_started_over s))))"

definition local_forgotten :: "local_head_state \<Rightarrow> u64 \<Rightarrow> bool \<times> local_head_state" where
  "local_forgotten s at_ms =
     (case lh_anchor s of None \<Rightarrow> (False, s)
      | Some from_anchor \<Rightarrow>
          (True, local_note (s\<lparr>lh_anchor := None, lh_anchored_at_ms := at_ms\<rparr>) (Forgotten from_anchor at_ms)))"

definition local_starting_over :: "local_head_state \<Rightarrow> string \<Rightarrow> local_head_state" where
  "local_starting_over s reason = s\<lparr>lh_started_over := Some reason\<rparr>"

definition local_reanchored :: "local_head_state \<Rightarrow> reanchored \<Rightarrow> local_head_state" where
  "local_reanchored s r =
     local_note (s\<lparr>lh_anchor := Some (ra_to r), lh_anchored_at_ms := ra_at_ms r\<rparr>) (ReanchoredEvent r)"

definition local_aad :: "string \<Rightarrow> string \<Rightarrow> crypto_error + bytes" where
  "local_aad binding incarnation_id =
     bindr (map_err (\<lambda>_. head_invalid ''key binding is invalid'') (binding_check binding)) (\<lambda>binding.
     Inr (local_magic @ be16 head_suite @ local_aad_domain @ be16 (length binding mod 2 ^ 16) @
       bytes_of_string binding @ bytes_of_string incarnation_id))"

definition seal_local ::
  "'a local_ext_scheme \<Rightarrow> bytes \<Rightarrow> head_keys \<Rightarrow> string \<Rightarrow> local_head_state \<Rightarrow> crypto_error + bytes" where
  "seal_local x nonce keys binding s =
     bindr (validate_local s) (\<lambda>_.
     bindr (ok_or (local_to_json x s) (head_invalid ''encode'')) (\<lambda>plain.
     bindr (aead_new (hk_seal keys)) (\<lambda>key.
     bindr (local_aad binding (lh_incarnation_id s)) (\<lambda>aad.
     bindr (map_err (\<lambda>_. Backend ''account head local seal'') (seal_with_nonce x key nonce aad plain)) (\<lambda>ciphertext.
     let sealed = local_magic @ be16 head_suite @ nonce @ ciphertext
     in bindr (require (\<not> length sealed > max_local_sealed_bytes) (head_invalid ''the local state is too large'')) (\<lambda>_.
        Inr sealed))))))"

definition open_local ::
  "'a local_ext_scheme \<Rightarrow> head_keys \<Rightarrow> string \<Rightarrow> string \<Rightarrow> bytes \<Rightarrow> crypto_error + local_head_state" where
  "open_local x keys binding incarnation_id sealed =
     (let header = 8 + 2 + head_nonce_len
      in bindr (require (\<not> (length sealed \<le> header + head_tag_len \<or> length sealed > max_local_sealed_bytes))
           (head_invalid ''size is invalid'')) (\<lambda>_.
         bindr (require (\<not> (take 8 sealed \<noteq> local_magic \<or> take 2 (drop 8 sealed) \<noteq> be16 head_suite))
           (head_invalid ''not a local head state'')) (\<lambda>_.
         bindr (aead_new (hk_seal keys)) (\<lambda>key.
         bindr (local_aad binding incarnation_id) (\<lambda>aad.
         bindr (map_err (\<lambda>_. AuthFailed) (open_with_nonce x key (take head_nonce_len (drop 10 sealed)) aad
           (drop header sealed))) (\<lambda>plain.
         bindr (ok_or (local_from_json x plain) (head_invalid ''decode'')) (\<lambda>s.
         bindr (validate_local s) (\<lambda>_.
         bindr (require (lh_incarnation_id s = incarnation_id)
           (head_invalid ''the local state is another incarnation's'')) (\<lambda>_. Inr s)))))))))"

end
