(* ===== verification/Account_Head_Facts.thy ===== *)
theory Account_Head_Facts
  imports Account_Head "HOL-Library.Multiset"
begin

text \<open>
  Facts about the account head: it opens to what was sealed, the histories its hashes determine, the
  indexes its digests determine, what writing the next head changes, and the state a device keeps.
\<close>

section \<open>What the outside promises\<close>

text \<open>The AEAD, hexadecimal, SHA-256 and HMAC-SHA-256 as documented; the JSON of a head or of a device's
  state reads back, and is not empty.\<close>

definition head_law :: "'a local_ext_scheme \<Rightarrow> bool" where
  "head_law x \<longleftrightarrow> aead_law x \<and> hex_law x \<and> (\<forall>b. length (sha256 x b) = 32) \<and>
     (\<forall>k b. length (hmac_sha256 x k b) = 32) \<and>
     (\<forall>h b. head_to_json x h = Some b \<longrightarrow> b \<noteq> [] \<and> head_from_json x b = Some h) \<and>
     (\<forall>s b. local_to_json x s = Some b \<longrightarrow> b \<noteq> [] \<and> local_from_json x b = Some s)"

lemma head_lawD:
  assumes "head_law x"
  shows "aead_law x" "hex_law x" "length (sha256 x b) = 32" "length (hmac_sha256 x k b) = 32"
    "head_to_json x h = Some b \<Longrightarrow> b \<noteq> [] \<and> head_from_json x b = Some h"
    "local_to_json x s = Some b \<Longrightarrow> b \<noteq> [] \<and> local_from_json x b = Some s"
  using assms by (auto simp: head_law_def)

section \<open>Sealing\<close>

lemma head_frame:
  "length head_magic = 8" "length local_magic = 8" "length (be16 n) = 2" "head_header_len = 42" "head_nonce_len = 24"
  "head_tag_len = 16"
  by (simp_all add: head_magic_def local_magic_def head_header_len_def head_nonce_len_def head_tag_len_def be16_def)

lemma head_open_InrD:
  assumes "head_open x keys binding s = Inr h"
  shows "head_inspect s = Inr (ah_sequence h)" "validate_head h = Inr ()"
  using assms by (auto simp: head_open_def)

lemma validate_head_sequence:
  "validate_head h = Inr u \<Longrightarrow> 0 < ah_sequence h \<and> ah_sequence h \<le> 2 ^ 53"
  by (auto simp: validate_head_def word_neq_0_conv not_less)

lemma head_open_seal:
  assumes law: "head_law x" and "head_seal x nonce keys binding h = Inr s"
  shows "head_open x keys binding s = Inr h" "head_inspect s = Inr (ah_sequence h)"
proof -
  from assms(2) obtain plain key aad c where p: "validate_head h = Inr ()" "head_to_json x h = Some plain"
    "aead_new (hk_seal keys) = Inr key" "head_aad binding (ah_sequence h) = Inr aad"
    "seal_with_nonce x key nonce aad plain = Inr c"
    and s: "s = head_magic @ be16 head_suite @ be64 (ah_sequence h) @ nonce @ c"
    and len: "length s \<le> max_sealed_head_bytes"
    by (auto simp: head_seal_def Let_def)
  note sp = sealed_parts [OF head_lawD(1) [OF law] p(5)] and j = head_lawD(5) [OF law p(2)]
  have d: "take 8 s = head_magic" "take 2 (drop 8 s) = be16 head_suite" "take 8 (drop 10 s) = be64 (ah_sequence h)"
    "take head_nonce_len (drop 18 s) = nonce" "drop head_header_len s = c"
    "length s = head_header_len + length plain + head_tag_len"
    using sp(1,2) by (simp_all add: s head_frame)
  then show i: "head_inspect s = Inr (ah_sequence h)"
    using len j validate_head_sequence [OF p(1)] by (auto simp: head_inspect_def Let_def)
  show "head_open x keys binding s = Inr h"
    using p(1-4) sp(3) j by (simp add: head_open_def i d)
qed

lemma open_seal_local:
  assumes law: "head_law x" and "seal_local x nonce keys binding s = Inr b"
  shows "open_local x keys binding (lh_incarnation_id s) b = Inr s"
proof -
  from assms(2) obtain plain key aad c where p: "validate_local s = Inr ()" "local_to_json x s = Some plain"
    "aead_new (hk_seal keys) = Inr key" "local_aad binding (lh_incarnation_id s) = Inr aad"
    "seal_with_nonce x key nonce aad plain = Inr c" and b: "b = local_magic @ be16 head_suite @ nonce @ c"
    and len: "length b \<le> max_local_sealed_bytes"
    by (auto simp: seal_local_def Let_def)
  note sp = sealed_parts [OF head_lawD(1) [OF law] p(5)] and j = head_lawD(6) [OF law p(2)]
  have d: "take 8 b = local_magic" "take 2 (drop 8 b) = be16 head_suite" "take head_nonce_len (drop 10 b) = nonce"
    "drop 34 b = c" "length b = 34 + length plain + head_tag_len"
    using sp(1,2) by (simp_all add: b head_frame)
  then show ?thesis
    using p(1-4) sp(3) j len by (simp add: open_local_def head_frame)
qed

text \<open>A state opens for one binding and one incarnation: what is authenticated with it names both.\<close>

lemma local_aad_inj:
  assumes "local_aad b i = Inr a" "local_aad b' i' = Inr a"
  shows "b = b' \<and> i = i'"
proof -
  from assms have "length b = 36" "length b' = 36" by (auto simp: local_aad_def dest!: binding_check_Inr)
  with assms show ?thesis by (auto simp: local_aad_def dest!: binding_check_Inr)
qed

section \<open>Histories\<close>

definition head_link :: "'a head_ext_scheme \<Rightarrow> head_keys \<Rightarrow> string \<Rightarrow> string \<Rightarrow> bytes \<Rightarrow> bytes \<Rightarrow> bool" where
  "head_link x keys binding inc a b \<longleftrightarrow> (\<exists>e h. head_inspect a = Inr e \<and> head_open x keys binding b = Inr h \<and>
     ah_sequence h = e + 1 \<and> ah_previous h = Some (hex_encode x (sha256 x a)) \<and> ah_incarnation_id h = inc)"

text \<open>A history: the heads an account wrote, each naming the one before, from its first.\<close>

inductive head_history :: "'a head_ext_scheme \<Rightarrow> head_keys \<Rightarrow> string \<Rightarrow> string \<Rightarrow> bytes list \<Rightarrow> bool"
  for x keys binding inc where
  first: "head_open x keys binding s = Inr h \<Longrightarrow> ah_sequence h = 1 \<Longrightarrow> ah_incarnation_id h = inc \<Longrightarrow>
     head_history x keys binding inc [s]"
| more: "head_history x keys binding inc ss \<Longrightarrow> head_link x keys binding inc (last ss) s \<Longrightarrow>
     head_history x keys binding inc (ss @ [s])"

inductive_cases head_history_single: "head_history x keys binding inc [s]"

lemma head_digest_unique:
  "hex_law x \<Longrightarrow> hex_encode x (sha256 x a) = hex_encode x (sha256 x b) \<Longrightarrow> a = b \<or> sha_clash x a b"
  by (auto simp: hex_encode_inj sha_clash_def)

lemma head_history_nonempty: "head_history x keys binding inc ss \<Longrightarrow> ss \<noteq> []"
  by (induction rule: head_history.induct) auto

lemma head_history_open:
  "head_history x keys binding inc ss \<Longrightarrow> i < length ss \<Longrightarrow>
     \<exists>h. head_open x keys binding (ss ! i) = Inr h \<and> unat (ah_sequence h) = Suc i \<and> ah_incarnation_id h = inc"
proof (induction arbitrary: i rule: head_history.induct)
  case (first s h)
  then show ?case by auto
next
  case (more ss s)
  show ?case
  proof (cases "i < length ss")
    case True
    with more.IH show ?thesis by (simp add: nth_append)
  next
    case False
    with more.prems have i: "i = length ss" by simp
    from head_history_nonempty [OF more.hyps(1)] have l: "length ss - 1 < length ss" "last ss = ss ! (length ss - 1)"
      by (simp_all add: last_conv_nth)
    from more.IH [OF l(1)] obtain h where h: "head_open x keys binding (last ss) = Inr h"
      "unat (ah_sequence h) = length ss" using l by auto
    from more.hyps(2) obtain e g where g: "head_inspect (last ss) = Inr e" "head_open x keys binding s = Inr g"
      "ah_sequence g = e + 1" "ah_incarnation_id g = inc" by (auto simp: head_link_def)
    from head_open_InrD [OF h(1)] g(1) have e: "e = ah_sequence h" by simp
    from validate_head_sequence [OF head_open_InrD(2) [OF h(1)]] have "unat (ah_sequence h) \<le> 2 ^ 53"
      by (simp add: word_le_nat_alt)
    then have "unat (ah_sequence h + 1) = Suc (unat (ah_sequence h))"
      by (simp add: unat_word_ariths)
    with g h e i show ?thesis by auto
  qed
qed

lemma head_history_snoc:
  assumes "head_history x keys binding inc ts" "ts = ss @ [s]" "ss \<noteq> []"
  shows "head_history x keys binding inc ss" "head_link x keys binding inc (last ss) s"
  using assms by (auto elim: head_history.cases)

lemma head_history_unique:
  assumes "hex_law x"
  shows "head_history x keys binding inc ss \<Longrightarrow> head_history x keys binding inc ts \<Longrightarrow> last ss = last ts \<Longrightarrow>
    ss = ts \<or> (\<exists>a\<in>set ss. \<exists>b\<in>set ts. sha_clash x a b)"
proof (induction arbitrary: ts rule: head_history.induct)
  case (first s h)
  from first.prems(2) show ?case
  proof (cases "ts = [s]")
    case False
    from head_history_nonempty [OF first.prems(1)] have l: "length ts - 1 < length ts" "ts ! (length ts - 1) = s"
      using first.prems(2) by (simp_all add: last_conv_nth)
    from head_history_nonempty [OF first.prems(1)] head_history_open [OF first.prems(1) l(1)] l(2) first.hyps have "length ts = 1" by (cases ts) auto
    then obtain t where "ts = [t]" by (cases ts) auto
    with first.prems(2) show ?thesis by simp
  qed simp
next
  case (more ss s)
  from more.hyps(2) obtain e h where h: "head_open x keys binding s = Inr h"
    "ah_previous h = Some (hex_encode x (sha256 x (last ss)))" "head_inspect (last ss) = Inr e"
    "ah_sequence h = e + 1" by (auto simp: head_link_def)
  from more.hyps(1) more.hyps(2) have ss: "head_history x keys binding inc (ss @ [s])" by (rule head_history.more)
  from more.prems(1) show ?case
  proof (cases rule: head_history.cases)
    case (first s' h')
    from head_history_open [OF ss, of "length ss"] h(1) first more.prems(2) have "length ss = 0" by auto
    with head_history_nonempty [OF more.hyps(1)] show ?thesis by simp
  next
    case (more us u)
    with more.prems(2) h have u: "u = s" "last us = last ss \<or> sha_clash x (last ss) (last us)"
      using head_digest_unique [OF assms, of "last ss" "last us"] by (auto simp: head_link_def)
    from head_history_nonempty [OF \<open>head_history x keys binding inc ss\<close>] head_history_nonempty [OF more(2)]
    have "last ss \<in> set ss" "last us \<in> set us" by simp_all
    with u more more.IH [OF more(2)] show ?thesis by auto
  qed
qed

text \<open>A segment whose pairs link extends a history of its first head.\<close>

lemma head_history_segment:
  "head_history x keys binding inc ss \<Longrightarrow> windows2 (head_link x keys binding inc) (last ss # ts) \<Longrightarrow>
     head_history x keys binding inc (ss @ ts)"
proof (induction ts arbitrary: ss)
  case (Cons t ts)
  then have "head_history x keys binding inc (ss @ [t])" by (auto intro: head_history.more)
  with Cons.IH [of "ss @ [t]"] Cons.prems(2) show ?case by simp
qed simp

lemma head_history_links:
  "head_history x keys binding inc (ss @ ts) \<Longrightarrow> ss \<noteq> [] \<Longrightarrow> windows2 (head_link x keys binding inc) (last ss # ts)"
proof (induction ts rule: rev_induct)
  case (snoc t ts)
  from head_history_snoc [OF snoc.prems(1), of "ss @ ts" t] snoc.prems(2)
  have h: "head_history x keys binding inc (ss @ ts)" "head_link x keys binding inc (last (ss @ ts)) t" by auto
  from snoc.IH [OF h(1) snoc.prems(2)] h(2) windows2_snoc [of "head_link x keys binding inc" "last ss # ts" t] show ?case
    by (cases ts) auto
qed simp

section \<open>The check against a remembered head\<close>

lemma descends_iff:
  "descends x keys binding inc an current segment \<longleftrightarrow> (\<exists>e. head_inspect current = Inr e \<and>
     length segment = unat (e - an_sequence an + 1) \<and> segment \<noteq> [] \<and> last segment = current \<and>
     hex_encode x (sha256 x (hd segment)) = an_digest an \<and> windows2 (head_link x keys binding inc) segment)"
proof -
  have "(\<lambda>a b. case (head_inspect a, head_open x keys binding b) of
      (Inr earlier, Inr later) \<Rightarrow> ah_sequence later = earlier + 1 \<and>
         ah_previous later = Some (hex_encode x (head_digest x a)) \<and> ah_incarnation_id later = inc
    | _ \<Rightarrow> False) = head_link x keys binding inc"
    by (auto simp: head_link_def head_digest_def fun_eq_iff split: sum.splits)
  then show ?thesis
    by (auto simp: descends_def Let_def head_digest_def hd_conv_nth split: sum.splits if_splits)
qed

lemma check_head_InrD:
  assumes "check_head x keys binding inc an current segment = Inr ck"
  obtains h where "head_open x keys binding current = Inr h" "ah_incarnation_id h = inc"
    "ck_status ck = status_of x keys binding inc h an current segment"
    "ck_verified ck = None \<longleftrightarrow> ck_status ck \<in> {HeadRollback, HeadFork, HeadTooOld}"
    "\<And>v. ck_verified ck = Some v \<Longrightarrow> verified_of x h current = Inr v"
proof -
  from assms obtain h where h: "head_open x keys binding current = Inr h" "ah_incarnation_id h = inc"
    by (auto simp: check_head_def)
  let ?s = "status_of x keys binding inc h an current segment"
  have "?s = HeadFresh \<or> ?s = HeadCurrent \<or> ?s = HeadExtends \<or> ?s \<in> {HeadRollback, HeadFork, HeadTooOld}"
    by (cases ?s) auto
  with assms h show thesis
    by (intro that [OF h]) (auto simp: check_head_def Let_def split: if_splits)
qed

lemma verified_of_total: "head_open x keys binding s = Inr h \<Longrightarrow> \<exists>v. verified_of x h s = Inr v"
  by (auto simp: verified_of_def anchor_of_def dest!: head_open_InrD(1))

lemma check_head_trusts:
  assumes "head_open x keys binding current = Inr h" "ah_incarnation_id h = inc"
    "status_of x keys binding inc h an current segment \<in> {HeadFresh, HeadCurrent, HeadExtends}"
  shows "\<exists>v. verified_of x h current = Inr v \<and> check_head x keys binding inc an current segment =
    Inr \<lparr>ck_status = status_of x keys binding inc h an current segment, ck_verified = Some v\<rparr>"
  using verified_of_total [OF assms(1)] assms by (auto simp: check_head_def Let_def)

text \<open>What a device trusts descends from what it remembered.\<close>

lemma trusted_extends_history:
  assumes law: "hex_law x" and hist: "head_history x keys binding inc ss" and an: "anchor_of x (last ss) = Inr an"
    and ck: "check_head x keys binding inc (Some an) current segment = Inr ck" and v: "ck_verified ck \<noteq> None"
  shows "(\<exists>ts. head_history x keys binding inc (ss @ ts) \<and> last (ss @ ts) = current) \<or>
    sha_clash x (last ss) current \<or> (\<exists>seg. segment = Some seg \<and> sha_clash x (last ss) (hd seg))"
proof -
  from an have d: "an_digest an = hex_encode x (sha256 x (last ss))"
    by (auto simp: anchor_of_def head_digest_def)
  from check_head_InrD [OF ck] v obtain h where h: "head_open x keys binding current = Inr h"
    and st: "status_of x keys binding inc h (Some an) current segment \<notin> {HeadRollback, HeadFork, HeadTooOld}"
    by metis
  consider (same) "hex_encode x (sha256 x current) = an_digest an"
    | (ext) seg where "segment = Some seg" "descends x keys binding inc an current seg"
    using st by (auto simp: status_of_def head_digest_def split: if_splits option.splits)
  then show ?thesis
  proof cases
    case same
    with d head_digest_unique [OF law, of "last ss" current] have "last ss = current \<or> sha_clash x (last ss) current"
      by simp
    with hist show ?thesis by (auto intro: exI [of _ "[]"])
  next
    case ext
    then have seg: "seg \<noteq> []" "last seg = current" "hex_encode x (sha256 x (hd seg)) = an_digest an"
      "windows2 (head_link x keys binding inc) seg" by (auto simp: descends_iff)
    from seg(3) d head_digest_unique [OF law, of "last ss" "hd seg"] consider "hd seg = last ss" | "sha_clash x (last ss) (hd seg)"
      by auto
    then show ?thesis
    proof cases
      case 1
      with seg(1) have s: "seg = last ss # tl seg" by (metis list.collapse)
      with seg(4) head_history_segment [OF hist] have "head_history x keys binding inc (ss @ tl seg)" by metis
      moreover have "last (ss @ tl seg) = current"
        using seg(2) s head_history_nonempty [OF hist] by (metis last_ConsR last_append last_ConsL)
      ultimately show ?thesis by blast
    qed (use ext(1) in blast)
  qed
qed

lemma head_sequence_word:
  "head_open x keys binding s = Inr h \<Longrightarrow> unat (ah_sequence h) = n \<Longrightarrow> n \<le> 2 ^ 53 \<and> ah_sequence h = word_of_nat n"
  using validate_head_sequence [OF head_open_InrD(2)] by (fastforce simp: word_le_nat_alt)

lemma history_status:
  assumes "head_history x keys binding inc ss" "i < length ss" "j < length ss" "anchor_of x (ss ! i) = Inr an"
  obtains h where "head_open x keys binding (ss ! j) = Inr h" "ah_incarnation_id h = inc" "unat (ah_sequence h) = Suc j"
    "unat (an_sequence an) = Suc i" "an_digest an = hex_encode x (sha256 x (ss ! i))"
    "head_inspect (ss ! j) = Inr (ah_sequence h)"
    "i \<le> j \<Longrightarrow> unat (ah_sequence h - an_sequence an) = j - i"
    "i \<le> j \<Longrightarrow> unat (ah_sequence h - an_sequence an + 1) = Suc (j - i)"
proof -
  from head_history_open [OF assms(1,3)] obtain h where h: "head_open x keys binding (ss ! j) = Inr h"
    "unat (ah_sequence h) = Suc j" "ah_incarnation_id h = inc" by blast
  from head_history_open [OF assms(1,2)] obtain g where g: "head_open x keys binding (ss ! i) = Inr g"
    "unat (ah_sequence g) = Suc i" by blast
  from assms(4) head_open_InrD(1) [OF g(1)] have an: "an_sequence an = ah_sequence g"
    "an_digest an = hex_encode x (sha256 x (ss ! i))" by (auto simp: anchor_of_def head_digest_def)
  from head_sequence_word [OF h(1,2)] have b: "Suc j \<le> 2 ^ 53" by simp
  have sub: "unat (ah_sequence h - an_sequence an) = j - i" if "i \<le> j"
    using that h(2) g(2) an(1) by (simp add: unat_sub word_le_nat_alt)
  moreover have "unat (ah_sequence h - an_sequence an + 1) = Suc (j - i)" if "i \<le> j"
    using sub [OF that] b by (simp add: unat_word_ariths)
  ultimately show thesis using that h g an head_open_InrD(1) [OF h(1)] by metis
qed

text \<open>A server that shows the account's own history is trusted; one that shows an older head of it is not.\<close>

lemma honest_head_status:
  assumes hist: "head_history x keys binding inc ss" and ij: "i \<le> j" "j < length ss"
    and an: "anchor_of x (ss ! i) = Inr an" and seg: "segment = Some (drop i (take (Suc j) ss))"
    and h: "head_open x keys binding (ss ! j) = Inr h"
  shows "status_of x keys binding inc h (Some an) (ss ! j) segment = (if i = j then HeadCurrent else HeadExtends)"
proof -
  from history_status [OF hist _ ij(2) an] ij h have f: "unat (ah_sequence h) = Suc j" "unat (an_sequence an) = Suc i"
    "an_digest an = hex_encode x (sha256 x (ss ! i))" "head_inspect (ss ! j) = Inr (ah_sequence h)"
    "unat (ah_sequence h - an_sequence an + 1) = Suc (j - i)"
    by (metis Inr_inject le_less_trans)+
  show ?thesis
  proof (cases "i = j")
    case True
    with f show ?thesis by (auto simp: status_of_def head_digest_def word_less_nat_alt word_unat_eq_iff)
  next
    case False
    let ?s = "drop i (take (Suc j) ss)"
    have ts: "ss = take (Suc i) ss @ drop (Suc i) ss" by simp
    have "windows2 (head_link x keys binding inc) (last (take (Suc i) ss) # drop (Suc i) ss)"
      by (rule head_history_links) (use hist ij in auto)
    moreover have "last (take (Suc i) ss) # drop (Suc i) ss = drop i ss"
      using ij by (simp add: take_Suc_conv_app_nth Cons_nth_drop_Suc)
    ultimately have w: "windows2 (head_link x keys binding inc) (drop i ss)" by simp
    have split: "drop i ss = ?s @ drop (Suc j) ss" using ij
      by (subst append_take_drop_id [of "Suc j" ss, symmetric], subst drop_append) simp
    have "windows2 (head_link x keys binding inc) ?s" using w unfolding split by (rule windows2_prefix)
    moreover have "length ?s = Suc (j - i)" "?s \<noteq> []" using ij by auto
    moreover from this have "last ?s = ss ! j" "hd ?s = ss ! i" using ij by (simp_all add: last_conv_nth hd_conv_nth)
    ultimately have "descends x keys binding inc an (ss ! j) ?s" using f by (simp add: descends_iff)
    with f ij False show ?thesis by (auto simp: status_of_def seg word_less_nat_alt word_unat_eq_iff)
  qed
qed

lemma reanchor_InrD:
  assumes "reanchor x keys binding inc an current segment confirmed at_ms = Inr (r, v)"
  shows "\<exists>ck. check_head x keys binding inc (Some an) current segment = Inr ck \<and> ck_status ck = ra_status r"
    "ra_status r = HeadTooOld \<or> confirmed \<and> ra_status r \<in> {HeadRollback, HeadFork}"
    "ra_from r = an \<and> ra_to r = vh_anchor v \<and> ra_at_ms r = at_ms \<and> anchor_of x current = Inr (vh_anchor v)"
proof -
  from assms obtain ck h where c: "check_head x keys binding inc (Some an) current segment = Inr ck"
    "verified_of x h current = Inr v"
    "r = \<lparr>ra_from = an, ra_to = vh_anchor v, ra_status = ck_status ck, ra_at_ms = at_ms\<rparr>"
    by (auto simp: reanchor_def)
  from assms c(1) have "ck_status ck = HeadTooOld \<or> confirmed \<and> ck_status ck \<in> {HeadRollback, HeadFork}"
    by (cases "ck_status ck") (auto simp: reanchor_def)
  with c show "\<exists>ck. check_head x keys binding inc (Some an) current segment = Inr ck \<and> ck_status ck = ra_status r"
    "ra_status r = HeadTooOld \<or> confirmed \<and> ra_status r \<in> {HeadRollback, HeadFork}"
    "ra_from r = an \<and> ra_to r = vh_anchor v \<and> ra_at_ms r = at_ms \<and> anchor_of x current = Inr (vh_anchor v)"
    by (auto simp: verified_of_def)
qed

section \<open>Indexes\<close>

lemma mac_input_inj:
  assumes "mac_input d [a, b] = mac_input d [a', b']" "length a < 2 ^ 32" "length a' < 2 ^ 32"
    "length b < 2 ^ 32" "length b' < 2 ^ 32"
  shows "a = a' \<and> b = b'"
proof -
  have l: "length (be32 n) = 4" for n by (simp add: be32_def)
  from assms(1) have e: "be32 (length a) @ a @ be32 (length b) @ b = be32 (length a') @ a' @ be32 (length b') @ b'"
    using assms(2-5) by (simp add: mac_input_def)
  from e l have "be32 (length a) = be32 (length a')" by (simp add: append_eq_append_conv)
  with assms(2,3) have "length a = length a'" by (simp add: be32_inj)
  with e l show ?thesis by (simp add: append_eq_append_conv)
qed

text \<open>Two values of one scope and the same HMAC.\<close>

definition value_clash :: "'a ext_scheme \<Rightarrow> head_keys \<Rightarrow> string \<Rightarrow> string \<Rightarrow> string \<Rightarrow> bool" where
  "value_clash x keys scope i j \<longleftrightarrow> i \<noteq> j \<and> mac_input value_id_domain [bytes_of_string scope, bytes_of_string i] \<noteq>
     mac_input value_id_domain [bytes_of_string scope, bytes_of_string j] \<and>
     head_mac x keys value_id_domain [bytes_of_string scope, bytes_of_string i] =
     head_mac x keys value_id_domain [bytes_of_string scope, bytes_of_string j]"

definition pair_of :: "'a ext_scheme \<Rightarrow> head_keys \<Rightarrow> string \<Rightarrow> string \<times> u64 \<Rightarrow> bytes \<times> u64" where
  "pair_of x keys scope = (\<lambda>(i, revision).
     (head_mac x keys value_id_domain [bytes_of_string scope, bytes_of_string i], revision))"

definition listed :: "string \<times> u64 \<Rightarrow> bool" where
  "listed = (\<lambda>(i, revision). revision \<noteq> 0 \<and> i \<noteq> [] \<and> length i \<le> 1024)"

lemma scope_digest_Inr:
  "scope_digest x keys scope index = Inr e \<longleftrightarrow> check_scope scope = Inr () \<and> length index \<le> max_scope_values \<and>
     (\<forall>a\<in>set index. listed a) \<and> windows2 (\<lambda>a b. fst a \<noteq> fst b) (sort (map (pair_of x keys scope) index)) \<and>
     e = \<lparr>sc_scope = scope, sc_count = word_of_nat (length index),
       sc_digest = hex_encode x (sha256 x (scope_input scope (sort (map (pair_of x keys scope) index))))\<rparr>"
proof (cases "check_scope scope = Inr ()")
  case True
  then have "scope_pair x keys scope a = Inr b \<longleftrightarrow> listed a \<and> b = pair_of x keys scope a" for a b
    by (cases a) (auto simp: scope_pair_def value_id_def pair_of_def listed_def)
  from collectr_Inr_fun [of "scope_pair x keys scope" listed, OF this] True show ?thesis
    by (auto simp: scope_digest_def Let_def)
qed (auto simp: scope_digest_def)

lemma scope_digest_InrD:
  assumes "scope_digest x keys scope index = Inr e"
  shows "length scope \<le> 32" "\<forall>a\<in>set index. length (fst a) \<le> 1024" "length index \<le> max_scope_values"
    "e = \<lparr>sc_scope = scope, sc_count = word_of_nat (length index),
       sc_digest = hex_encode x (sha256 x (scope_input scope (sort (map (pair_of x keys scope) index))))\<rparr>"
  using assms by (auto simp: scope_digest_Inr check_scope_def listed_def)

text \<open>The digest does not see the order of an index.\<close>

lemma scope_digest_permuted:
  assumes "mset index' = mset index"
  shows "scope_digest x keys scope index' = Inr e \<longleftrightarrow> scope_digest x keys scope index = Inr e"
proof -
  from assms have "mset (map (pair_of x keys scope) index') = mset (map (pair_of x keys scope) index)" by simp
  then have "sort (map (pair_of x keys scope) index') = sort (map (pair_of x keys scope) index)"
    by (metis sorted_list_of_multiset_mset)
  with mset_eq_setD [OF assms] mset_eq_length [OF assms] show ?thesis by (simp add: scope_digest_Inr)
qed

definition index_input :: "'a ext_scheme \<Rightarrow> head_keys \<Rightarrow> string \<Rightarrow> (string \<times> u64) list \<Rightarrow> bytes" where
  "index_input x keys scope index = scope_input scope (sort (map (pair_of x keys scope) index))"

lemma concat_fixed_inj:
  "(\<forall>a\<in>set as. length (f a) = (n :: nat)) \<Longrightarrow> (\<forall>b\<in>set bs. length (f b) = n) \<Longrightarrow> length as = length bs \<Longrightarrow>
     (\<forall>a\<in>set as. \<forall>b\<in>set bs. f a = f b \<longrightarrow> a = b) \<Longrightarrow> concat (map f as) = concat (map f bs) \<Longrightarrow> as = bs"
proof (induction as arbitrary: bs)
  case (Cons a as)
  then show ?case by (cases bs) auto
qed simp

lemma scope_digest_determines:
  assumes law: "hex_law x" "\<And>k b. length (hmac_sha256 x k b) = 32"
    and "scope_digest x keys scope index = Inr e" "scope_digest x keys scope index' = Inr e"
  shows "mset index = mset index' \<or>
    (\<exists>i\<in>fst ` (set index \<union> set index'). \<exists>j\<in>fst ` (set index \<union> set index'). value_clash x keys scope i j) \<or>
    sha_clash x (index_input x keys scope index) (index_input x keys scope index')"
proof (rule ccontr)
  assume no: "\<not> ?thesis"
  note f = scope_digest_InrD [OF assms(3)] and f' = scope_digest_InrD [OF assms(4)]
  let ?p = "pair_of x keys scope"
  let ?a = "sort (map ?p index)" and ?b = "sort (map ?p index')"
  from f(4) f'(4) no [unfolded index_input_def] have eq: "scope_input scope ?a = scope_input scope ?b"
    using head_digest_unique [OF law(1), of "scope_input scope ?a" "scope_input scope ?b"] by auto
  have l64: "n \<le> max_scope_values \<Longrightarrow> m \<le> max_scope_values \<Longrightarrow> (word_of_nat n :: u64) = word_of_nat m \<longleftrightarrow> n = m" for n m
    by (simp add: max_scope_values_def word_unat_eq_iff unat_of_nat take_bit_eq_mod)
  from eq have "be64 (word_of_nat (length ?a)) @ concat (map (\<lambda>(i, r). i @ be64 r) ?a) =
      be64 (word_of_nat (length ?b)) @ concat (map (\<lambda>(i, r). i @ be64 r) ?b)"
    by (simp add: scope_input_def)
  then have c: "be64 (word_of_nat (length ?a)) = be64 (word_of_nat (length ?b)) \<and>
      concat (map (\<lambda>(i, r). i @ be64 r) ?a) = concat (map (\<lambda>(i, r). i @ be64 r) ?b)"
    by (rule iffD1 [OF append_eq_append_conv, rotated]) simp
  then have len: "length ?a = length ?b" using l64 [OF f(3) f'(3)] conjunct1 [OF c] by simp
  have "?a = ?b"
    by (rule concat_fixed_inj [OF _ _ len _ conjunct2 [OF c], of 40]) (use law(2) in \<open>auto simp: pair_of_def head_mac_def\<close>)
  then have "mset (map ?p index) = mset (map ?p index')" by (metis mset_sort)
  then have m: "image_mset ?p (mset index) = image_mset ?p (mset index')" by simp
  have "inj_on ?p (set index \<union> set index')"
  proof (rule inj_onI)
    fix a b
    assume ab: "a \<in> set index \<union> set index'" "b \<in> set index \<union> set index'" "?p a = ?p b"
    obtain i r j s where v: "a = (i, r)" "b = (j, s)" by (cases a, cases b)
    from ab f(2) f'(2) have l: "length i \<le> 1024" "length j \<le> 1024" by (auto simp: v)
    have "i = j"
    proof (rule ccontr)
      assume "i \<noteq> j"
      with ab(3) mac_input_inj [of value_id_domain "bytes_of_string scope" "bytes_of_string i" "bytes_of_string scope"
          "bytes_of_string j"] l f(1) have "value_clash x keys scope i j"
        by (auto simp: value_clash_def pair_of_def v)
      moreover from ab(1,2) have "i \<in> fst ` (set index \<union> set index')" "j \<in> fst ` (set index \<union> set index')"
        unfolding v by force+
      ultimately show False using no by blast
    qed
    with ab(3) show "a = b" by (simp add: v pair_of_def)
  qed
  then have "\<exists>q. \<forall>a\<in>set index \<union> set index'. q (?p a) = a" by (metis the_inv_into_f_f)
  then obtain q where q: "\<forall>a\<in>set index \<union> set index'. q (?p a) = a" by blast
  have "mset index = image_mset q (image_mset ?p (mset index))"
    "mset index' = image_mset q (image_mset ?p (mset index'))"
    using q by (auto simp: multiset.map_comp comp_def intro: multiset.map_ident_strong [symmetric])
  with m no show False by metis
qed

section \<open>The next head\<close>

lemma find_append: "List.find p (as @ bs) = (case List.find p as of None \<Rightarrow> List.find p bs | Some a \<Rightarrow> Some a)"
  by (induction as) auto

lemma find_filter_other:
  "(\<And>a. p a \<Longrightarrow> q a) \<Longrightarrow> List.find p (filter q as) = List.find p as"
  by (induction as) auto

lemma find_put_scopes:
  "List.find (\<lambda>e. sc_scope e = n) (put_scopes scopes es) =
     (case List.find (\<lambda>e. sc_scope e = n) (rev es) of Some e \<Rightarrow> Some e
      | None \<Rightarrow> List.find (\<lambda>e. sc_scope e = n) scopes)"
proof (induction scopes es rule: put_scopes.induct)
  case (2 scopes e es)
  show ?case
  proof (cases "sc_scope e = n")
    case True
    then have "List.find (\<lambda>e. sc_scope e = n) (filter (\<lambda>known. sc_scope known \<noteq> sc_scope e) scopes) = None"
      by (auto simp: find_None_all)
    with 2 True show ?thesis by (auto simp: find_append split: option.splits)
  next
    case False
    then have "List.find (\<lambda>e. sc_scope e = n) (filter (\<lambda>known. sc_scope known \<noteq> sc_scope e) scopes) =
        List.find (\<lambda>e. sc_scope e = n) scopes" by (intro find_filter_other) auto
    with 2 False show ?thesis by (auto simp: find_append split: option.splits)
  qed
qed simp

lemma find_sort_key: "List.find (\<lambda>e. k e = n) (sort_key k as) = List.find (\<lambda>e. k e = (n :: 'b :: linorder)) as"
proof -
  have f: "List.find (\<lambda>e. k e = n) as = (case filter (\<lambda>e. k e = n) as of [] \<Rightarrow> None | a # _ \<Rightarrow> Some a)" for as
    by (induction as) auto
  show ?thesis by (simp only: f sort_key_stable)
qed

lemma head_next_InrD:
  assumes "validate_head h = Inr ()" "head_next x h sealed w es = Inr n"
  shows "validate_head n = Inr ()" "unat (ah_sequence n) = Suc (unat (ah_sequence h))"
    "ah_incarnation_id n = ah_incarnation_id h" "ah_writer n = w"
    "ah_previous n = Some (hex_encode x (sha256 x sealed))"
    "head_scope n s = (case List.find (\<lambda>e. sc_scope e = s) (rev es) of Some e \<Rightarrow> Some e | None \<Rightarrow> head_scope h s)"
proof -
  from validate_head_sequence [OF assms(1)] have "unat (ah_sequence h) \<le> 2 ^ 53" by (simp add: word_le_nat_alt)
  then have "unat (ah_sequence h + 1) = Suc (unat (ah_sequence h))" by (simp add: unat_word_ariths)
  with assms(2) show "validate_head n = Inr ()" "unat (ah_sequence n) = Suc (unat (ah_sequence h))"
    "ah_incarnation_id n = ah_incarnation_id h" "ah_writer n = w"
    "ah_previous n = Some (hex_encode x (sha256 x sealed))"
    "head_scope n s = (case List.find (\<lambda>e. sc_scope e = s) (rev es) of Some e \<Rightarrow> Some e | None \<Rightarrow> head_scope h s)"
    by (auto simp: head_next_def Let_def head_digest_def head_scope_def find_sort_key find_put_scopes split: option.splits)
qed

text \<open>A next head, sealed, links to the one it was written on and is committed.\<close>

lemma next_head_links:
  assumes law: "head_law x" and "head_open x keys binding a = Inr h" "head_next x h a w es = Inr n"
    and "head_seal x nonce keys binding n = Inr b"
  shows "head_link x keys binding (ah_incarnation_id h) a b"
  using head_open_seal(1) [OF law assms(4)] head_open_InrD [OF assms(2)] assms(3)
  by (auto simp: head_link_def head_next_def Let_def head_digest_def)

section \<open>What a device keeps\<close>

lemma local_note_sel [simp]:
  "lh_incarnation_id (local_note s e) = lh_incarnation_id s" "lh_device_id (local_note s e) = lh_device_id s"
  "lh_anchor (local_note s e) = lh_anchor s" "lh_anchored_at_ms (local_note s e) = lh_anchored_at_ms s"
  "lh_started_over (local_note s e) = lh_started_over s"
  "length (lh_log (local_note s e)) \<le> local_log_len"
  by (auto simp: local_note_def Let_def)

text \<open>The steps a device's state takes.\<close>

datatype local_step = Advance verified_head u64 | Forget u64 | StartOver string | Reanchor reanchored

fun local_apply :: "local_head_state \<Rightarrow> local_step \<Rightarrow> local_head_state" where
  "local_apply s (Advance v t) = snd (local_advance s v t)"
| "local_apply s (Forget t) = snd (local_forgotten s t)"
| "local_apply s (StartOver reason) = local_starting_over s reason"
| "local_apply s (Reanchor r) = local_reanchored s r"

lemma local_apply_valid: "validate_local s = Inr () \<Longrightarrow> validate_local (local_apply s step) = Inr ()"
  by (cases step) (auto simp: validate_local_def local_advance_def local_forgotten_def local_starting_over_def
      local_reanchored_def Let_def not_less split: option.splits)

definition anchor_le :: "anchor option \<Rightarrow> anchor option \<Rightarrow> bool" where
  "anchor_le a b \<longleftrightarrow> (case a of None \<Rightarrow> True
     | Some c \<Rightarrow> (case b of None \<Rightarrow> False | Some d \<Rightarrow> an_sequence c < an_sequence d \<or> d = c))"

definition advance_step :: "local_head_state \<Rightarrow> verified_head \<times> u64 \<Rightarrow> crypto_error + local_head_state" where
  "advance_step s = (\<lambda>(v, t). Inr (snd (local_advance s v t)))"

interpretation local_anchor: ratchet advance_step "\<lambda>s t. anchor_le (lh_anchor s) (lh_anchor t)"
  "\<lambda>s. validate_local s = Inr ()"
proof unfold_locales
  show "anchor_le (lh_anchor s) (lh_anchor s)" for s :: local_head_state
    by (auto simp: anchor_le_def split: option.splits)
  show "anchor_le (lh_anchor s) (lh_anchor u)"
    if "anchor_le (lh_anchor s) (lh_anchor t)" "anchor_le (lh_anchor t) (lh_anchor u)" for s t u :: local_head_state
    using that by (auto simp: anchor_le_def split: option.splits)
  show "anchor_le (lh_anchor s) (lh_anchor s')" if "advance_step s i = Inr s'" for s i s'
    using that by (cases i) (auto simp: advance_step_def local_advance_def anchor_le_def Let_def not_le split: option.splits if_splits)
  show "validate_local s' = Inr ()" if "validate_local s = Inr ()" "advance_step s i = Inr s'" for s i s'
    using that local_apply_valid [OF that(1), of "Advance (fst i) (snd i)"] by (cases i) (auto simp: advance_step_def)
qed

end
