(* ===== verification/Account_Head_Demo.thy ===== *)
theory Account_Head_Demo
  imports Account_Head_Facts Client_Demo
begin

text \<open>
  A concrete account head and its next one, on which the head's properties are evaluated: a hash shows
  the length and the last byte of its input, a tag is zeros and the last byte of the plaintext, and the JSON is that of these
  heads and of one device state.
\<close>

definition demo_sum :: "bytes \<Rightarrow> bytes" where "demo_sum bs = replicate 31 (word_of_nat (length bs)) @ [last bs]"

definition demo_binding :: string where "demo_binding = ''0b6b5e0c-4c1e-4b8e-9c2d-6a1f3e5d7c9b''"
definition demo_incarnation :: string where "demo_incarnation = replicate 64 CHR ''1''"
definition demo_writer :: string where "demo_writer = replicate 64 CHR ''2''"
definition demo_head_keys :: head_keys where
  "demo_head_keys = \<lparr>hk_seal = replicate 32 5, hk_id = replicate 32 6\<rparr>"
definition demo_nonce :: bytes where "demo_nonce = replicate 24 0x65"

definition demo_id :: "string \<Rightarrow> bytes" where
  "demo_id i = demo_sum (mac_input value_id_domain [bytes_of_string ''contacts'', bytes_of_string i])"

definition demo_index :: "u64 \<Rightarrow> (string \<times> u64) list" where
  "demo_index r = [(''b'', r), (''a'', 1)]"

definition demo_scope :: "u64 \<Rightarrow> scope_entry" where
  "demo_scope r = \<lparr>sc_scope = ''contacts'', sc_count = 2, sc_digest = bytes_to_hex (demo_sum (scope_input ''contacts''
     [(demo_id ''a'', 1), (demo_id ''b'', r)]))\<rparr>"

definition demo_head_1 :: account_head where
  "demo_head_1 = \<lparr>ah_incarnation_id = demo_incarnation, ah_sequence = 1, ah_previous = None, ah_writer = demo_writer,
     ah_scopes = [demo_scope 1]\<rparr>"

definition demo_sealed_head :: "u64 \<Rightarrow> bytes" where
  "demo_sealed_head n = head_magic @ be16 head_suite @ be64 n @ demo_nonce @ be64 n @ replicate 15 0 @ [last (be64 n)]"

definition demo_head_2 :: account_head where
  "demo_head_2 = \<lparr>ah_incarnation_id = demo_incarnation, ah_sequence = 2,
     ah_previous = Some (bytes_to_hex (demo_sum (demo_sealed_head 1))), ah_writer = demo_writer,
     ah_scopes = [demo_scope 2]\<rparr>"

definition demo_local :: local_head_state where
  "demo_local = \<lparr>lh_incarnation_id = demo_incarnation, lh_device_id = ''d'', lh_anchor = None,
     lh_anchored_at_ms = 0, lh_log = [], lh_started_over = None\<rparr>"

definition demo_head_ext :: local_ext where
  "demo_head_ext = \<lparr>std_encode = string_of_bytes, std_decode = (\<lambda>s. Some (bytes_of_string s)),
     url_encode = string_of_bytes, url_decode = (\<lambda>s. Some (bytes_of_string s)),
     hex_encode = bytes_to_hex, hex_decode = demo_hex_decode,
     sha256 = demo_sum, hmac_sha256 = (\<lambda>k. demo_sum),
     hkdf_sha256 = demo_hkdf, ed25519_key_ok = (\<lambda>k. True),
     ed25519_public = (\<lambda>seed. seed), ed25519_sign = (\<lambda>seed bs. replicate 64 0x73),
     ed25519_ok = (\<lambda>k bs sig. True),
     aead_seal = (\<lambda>k n aad p. Some (p @ replicate 15 0 @ [last p])),
     aead_open = (\<lambda>k n aad c. Some (take (length c - 16) c)),
     head_to_json = (\<lambda>h. if h \<in> {demo_head_1, demo_head_2} then Some (be64 (ah_sequence h)) else None),
     head_from_json = (\<lambda>b. if b = be64 1 then Some demo_head_1 else if b = be64 2 then Some demo_head_2 else None),
     local_to_json = (\<lambda>s. if s = demo_local then Some [1] else None),
     local_from_json = (\<lambda>b. if b = [1] then Some demo_local else None)\<rparr>"

lemma demo_head_sel [simp]:
  "sha256 demo_head_ext = demo_sum" "hmac_sha256 demo_head_ext k = demo_sum" "hex_encode demo_head_ext = bytes_to_hex"
  "hex_decode demo_head_ext = demo_hex_decode" "aead_seal demo_head_ext k n aad p = Some (p @ replicate 15 0 @ [last p])"
  "aead_open demo_head_ext k n aad c = Some (take (length c - 16) c)"
  "head_to_json demo_head_ext demo_head_1 = Some (be64 1)" "head_to_json demo_head_ext demo_head_2 = Some (be64 2)"
  "local_to_json demo_head_ext demo_local = Some [1]"
  by (simp_all add: demo_head_ext_def demo_head_1_def demo_head_2_def)

lemma demo_head_law: "head_law demo_head_ext"
proof -
  have "demo_hex_decode (bytes_to_hex b) = Some b" for b using demo_hex by (simp add: hex_law_def)
  moreover have "be64 1 \<noteq> []" "be64 2 \<noteq> []" "(be64 2 :: bytes) \<noteq> be64 1" by (simp_all flip: length_0_conv)
  ultimately show ?thesis
    by (auto simp: head_law_def aead_law_def aead_tag_len_def hex_law_def demo_sum_def)
      (auto simp: demo_head_ext_def demo_head_1_def demo_head_2_def split: if_splits)
qed

lemma lower_hex_bytes: "length b = 32 \<Longrightarrow> is_lower_hex_32 (bytes_to_hex b)"
proof -
  have "list_all (\<lambda>n. is_lower_hex (hex_char n)) [0..<16]" by code_simp
  then have "is_lower_hex (hex_char n)" if "n < 16" for n using that by (simp add: list_all_iff)
  moreover have "unat (c :: u8) div 16 < 16" for c
  proof -
    have "unat c < 256" by (rule order.strict_trans2 [OF unsigned_less]) simp
    then show ?thesis by simp
  qed
  ultimately have "list_all is_lower_hex (hex_byte c)" for c by (simp add: hex_byte_def)
  then have "list_all is_lower_hex (bytes_to_hex b)" by (auto simp: bytes_to_hex_def list_all_iff)
  moreover assume "length b = 32"
  ultimately show ?thesis by (simp add: is_lower_hex_32_def)
qed

lemma demo_sum_hex [simp]: "is_lower_hex_32 (bytes_to_hex (demo_sum bs))"
  by (rule lower_hex_bytes) (simp add: demo_sum_def)

lemma demo_head_names [simp]: "check_scope ''contacts'' = Inr ()" "is_lower_hex_32 demo_incarnation"
  "is_lower_hex_32 demo_writer"
  by code_simp+

lemma demo_heads_valid: "validate_head demo_head_1 = Inr ()" "validate_head demo_head_2 = Inr ()"
  by (simp_all add: validate_head_def demo_head_1_def demo_head_2_def demo_scope_def max_scopes_def max_scope_values_def)

lemma demo_pair_of: "pair_of demo_head_ext demo_head_keys ''contacts'' (i, r) = (demo_id i, r)"
  by (simp add: pair_of_def head_mac_def demo_id_def)

lemma demo_value_ids: "demo_id ''a'' < demo_id ''b''"
  by code_simp

lemma demo_scope_digest:
  assumes "r \<noteq> 0"
  shows "scope_digest demo_head_ext demo_head_keys ''contacts'' (demo_index r) = Inr (demo_scope r)"
proof -
  have "sort (map (pair_of demo_head_ext demo_head_keys ''contacts'') (demo_index r)) =
     [(demo_id ''a'', 1), (demo_id ''b'', r)]"
    using demo_value_ids by (auto simp: demo_index_def demo_pair_of)
  moreover have "demo_id ''a'' \<noteq> demo_id ''b''" using demo_value_ids by auto
  ultimately show ?thesis using assms
    by (simp add: scope_digest_Inr demo_scope_def demo_index_def listed_def max_scope_values_def)
qed

section \<open>The sealed heads\<close>

lemma demo_head_sealed:
  "head_seal demo_head_ext demo_nonce demo_head_keys demo_binding demo_head_1 = Inr (demo_sealed_head 1)"
  "head_seal demo_head_ext demo_nonce demo_head_keys demo_binding demo_head_2 = Inr (demo_sealed_head 2)"
proof -
  have b: "binding_check demo_binding = Inr demo_binding" by code_simp
  show "head_seal demo_head_ext demo_nonce demo_head_keys demo_binding demo_head_1 = Inr (demo_sealed_head 1)"
    "head_seal demo_head_ext demo_nonce demo_head_keys demo_binding demo_head_2 = Inr (demo_sealed_head 2)"
    using demo_heads_valid
    by (simp_all add: head_seal_def aead_new_def demo_head_keys_def aead_key_len_def head_aad_def b seal_with_nonce_def
        check_nonce_def aead_nonce_len_def demo_nonce_def max_sealed_head_bytes_def demo_sealed_head_def head_frame)
      (simp_all add: demo_head_1_def demo_head_2_def)
qed

lemmas demo_head_opens = head_open_seal [OF demo_head_law demo_head_sealed(1)]
  head_open_seal [OF demo_head_law demo_head_sealed(2)]

lemma demo_head_next:
  "head_next demo_head_ext demo_head_1 (demo_sealed_head 1) demo_writer [demo_scope 2] = Inr demo_head_2"
proof -
  have "\<lparr>ah_incarnation_id = ah_incarnation_id demo_head_1, ah_sequence = ah_sequence demo_head_1 + 1,
      ah_previous = Some (bytes_to_hex (demo_sum (demo_sealed_head 1))), ah_writer = demo_writer,
      ah_scopes = sort_key sc_scope (put_scopes (ah_scopes demo_head_1) [demo_scope 2])\<rparr> = demo_head_2"
    by (simp add: demo_head_1_def demo_head_2_def demo_scope_def)
  with demo_heads_valid(2) show ?thesis by (simp add: head_next_def head_digest_def)
qed

lemma demo_head_history:
  "head_history demo_head_ext demo_head_keys demo_binding demo_incarnation [demo_sealed_head 1]"
  "head_history demo_head_ext demo_head_keys demo_binding demo_incarnation [demo_sealed_head 1, demo_sealed_head 2]"
proof -
  have i: "ah_sequence demo_head_1 = 1" "ah_incarnation_id demo_head_1 = demo_incarnation" by (simp_all add: demo_head_1_def)
  from head_history.first [OF demo_head_opens(1) i] show h:
    "head_history demo_head_ext demo_head_keys demo_binding demo_incarnation [demo_sealed_head 1]" .
  from next_head_links [OF demo_head_law demo_head_opens(1) demo_head_next demo_head_sealed(2)] head_history.more [OF h] i
  show "head_history demo_head_ext demo_head_keys demo_binding demo_incarnation [demo_sealed_head 1, demo_sealed_head 2]"
    by simp
qed

definition demo_anchor :: "u64 \<Rightarrow> anchor" where
  "demo_anchor n = \<lparr>an_sequence = n, an_digest = bytes_to_hex (demo_sum (demo_sealed_head n))\<rparr>"

lemma demo_anchor_of: "anchor_of demo_head_ext (demo_sealed_head 1) = Inr (demo_anchor 1)"
  "anchor_of demo_head_ext (demo_sealed_head 2) = Inr (demo_anchor 2)"
  using demo_head_opens(2,4)
  by (simp_all add: anchor_of_def head_digest_def demo_anchor_def) (simp_all add: demo_head_1_def demo_head_2_def)

definition demo_verified :: verified_head where
  "demo_verified = \<lparr>vh_head = demo_head_1, vh_sealed = demo_sealed_head 1, vh_anchor = demo_anchor 1\<rparr>"

lemma demo_verified_of: "verified_of demo_head_ext demo_head_1 (demo_sealed_head 1) = Inr demo_verified"
  by (simp add: verified_of_def demo_anchor_of demo_verified_def)

lemma demo_local_sealed:
  "\<exists>b. seal_local demo_head_ext demo_nonce demo_head_keys demo_binding demo_local = Inr b"
proof -
  have b: "binding_check demo_binding = Inr demo_binding" by code_simp
  have v: "validate_local demo_local = Inr ()" by (simp add: validate_local_def demo_local_def)
  show ?thesis
    by (simp add: seal_local_def v aead_new_def demo_head_keys_def aead_key_len_def local_aad_def b seal_with_nonce_def
        check_nonce_def aead_nonce_len_def demo_nonce_def max_local_sealed_bytes_def head_frame)
qed

end
