(* ===== verification/Account_Head_Properties.thy ===== *)
theory Account_Head_Properties
  imports Account_Head_Demo
begin

text \<open>
  What the account head gives a device: a server that rolls back, drops, brings back or forks is told from
  one that shows the account's own history.
\<close>

text \<open>C22: Whatever head and segment the server shows, a head a device trusts descends from the one it
  remembers: it is the last of a history that continues the history of the remembered head, each head naming
  the one before, and the only history that ends there; unless, among the heads shown, remembered or in that
  other history, two with different bytes have one SHA-256.\<close>

theorem trusted_head_descends:
  assumes "hex_law x" and "head_history x keys binding inc ss" and "anchor_of x (last ss) = Inr an"
    and "check_head x keys binding inc (Some an) current segment = Inr ck" and "ck_verified ck \<noteq> None"
  shows "(\<exists>ts. head_history x keys binding inc (ss @ ts) \<and> last (ss @ ts) = current \<and>
      (\<forall>us. head_history x keys binding inc us \<and> last us = current \<longrightarrow>
         us = ss @ ts \<or> (\<exists>a\<in>set us. \<exists>b\<in>set (ss @ ts). sha_clash x a b))) \<or>
    sha_clash x (last ss) current \<or> (\<exists>seg. segment = Some seg \<and> sha_clash x (last ss) (hd seg))"
  using trusted_extends_history [OF assms] head_history_unique [OF assms(1)] by metis

theorem trusted_head_descends_witness:
  "\<exists>ck. check_head demo_head_ext demo_head_keys demo_binding demo_incarnation (Some (demo_anchor 1))
       (demo_sealed_head 2) (Some [demo_sealed_head 1, demo_sealed_head 2]) = Inr ck \<and> ck_status ck = HeadExtends \<and>
     (\<exists>ts. head_history demo_head_ext demo_head_keys demo_binding demo_incarnation ([demo_sealed_head 1] @ ts) \<and>
        last ([demo_sealed_head 1] @ ts) = demo_sealed_head 2)"
proof -
  let ?ss = "[demo_sealed_head 1, demo_sealed_head 2]"
  have st: "status_of demo_head_ext demo_head_keys demo_binding demo_incarnation demo_head_2 (Some (demo_anchor 1))
      (demo_sealed_head 2) (Some ?ss) = HeadExtends"
    using honest_head_status [OF demo_head_history(2), of 0 1 "demo_anchor 1" "Some ?ss" demo_head_2]
      demo_anchor_of demo_head_opens by simp
  have "ah_incarnation_id demo_head_2 = demo_incarnation" by (simp add: demo_head_2_def)
  from check_head_trusts [OF demo_head_opens(3) this, of "Some (demo_anchor 1)" "Some ?ss"] st obtain ck where
    ck: "check_head demo_head_ext demo_head_keys demo_binding demo_incarnation (Some (demo_anchor 1))
       (demo_sealed_head 2) (Some ?ss) = Inr ck" "ck_status ck = HeadExtends" "ck_verified ck \<noteq> None" by auto
  have demo_last: "last (be64 1) \<noteq> last (be64 2)" by code_simp
  have "anchor_of demo_head_ext (last [demo_sealed_head 1]) = Inr (demo_anchor 1)" by (simp add: demo_anchor_of)
  note trusted_head_descends [OF head_lawD(2) [OF demo_head_law] demo_head_history(1) this ck(1,3)]
  moreover have "\<not> sha_clash demo_head_ext (demo_sealed_head 1) b" if "b \<in> {demo_sealed_head 1, demo_sealed_head 2}" for b
    using that demo_last by (auto simp: sha_clash_def demo_sum_def demo_sealed_head_def)
  then have "\<not> (sha_clash demo_head_ext (last [demo_sealed_head 1]) (demo_sealed_head 2) \<or>
      (\<exists>seg. Some ?ss = Some seg \<and> sha_clash demo_head_ext (last [demo_sealed_head 1]) (hd seg)))" by simp
  ultimately show ?thesis using ck(1,2) by blast
qed

text \<open>C23: A server that shows the account's own history is believed: for a device that remembers any head of it,
  a later head with the chain between them is trusted, the same head is current, and a head with the
  chain withheld is too old only beyond the thousand heads the server keeps, and a fork otherwise.\<close>

theorem honest_history_is_trusted:
  assumes "head_history x keys binding inc ss" and "i \<le> j" and "j < length ss" and "anchor_of x (ss ! i) = Inr an"
  shows "(\<exists>v. check_head x keys binding inc (Some an) (ss ! j) (Some (drop i (take (Suc j) ss))) =
      Inr \<lparr>ck_status = (if i = j then HeadCurrent else HeadExtends), ck_verified = Some v\<rparr> \<and> vh_sealed v = ss ! j) \<and>
    (i < j \<longrightarrow> (\<exists>ck. check_head x keys binding inc (Some an) (ss ! j) None = Inr ck \<and> ck_verified ck = None \<and>
       ck_status ck = (if 1000 < j - i then HeadTooOld else HeadFork)))"
proof -
  have i: "i < length ss" using assms(2,3) by simp
  obtain h where h: "head_open x keys binding (ss ! j) = Inr h" "ah_incarnation_id h = inc"
    and n: "unat (ah_sequence h) = Suc j" "unat (an_sequence an) = Suc i" "unat (ah_sequence h - an_sequence an) = j - i"
    using history_status [OF assms(1) i assms(3,4)] assms(2) by metis
  let ?s = "Some (drop i (take (Suc j) ss))"
  have st: "status_of x keys binding inc h (Some an) (ss ! j) ?s = (if i = j then HeadCurrent else HeadExtends)"
    by (rule honest_head_status [OF assms refl h(1)])
  have "\<exists>v. verified_of x h (ss ! j) = Inr v \<and> check_head x keys binding inc (Some an) (ss ! j) ?s =
      Inr \<lparr>ck_status = status_of x keys binding inc h (Some an) (ss ! j) ?s, ck_verified = Some v\<rparr>"
    by (rule check_head_trusts [OF h]) (simp add: st)
  then have "\<exists>v. check_head x keys binding inc (Some an) (ss ! j) ?s =
      Inr \<lparr>ck_status = (if i = j then HeadCurrent else HeadExtends), ck_verified = Some v\<rparr> \<and> vh_sealed v = ss ! j"
    unfolding st by (auto simp: verified_of_def)
  moreover have "status_of x keys binding inc h (Some an) (ss ! j) None = (if 1000 < j - i then HeadTooOld else HeadFork)"
    if "i < j"
    using that n by (auto simp: status_of_def word_less_nat_alt word_unat_eq_iff head_retention_def)
  ultimately show ?thesis using h by (auto simp: check_head_def Let_def)
qed

theorem honest_history_is_trusted_witness:
  "\<exists>v. check_head demo_head_ext demo_head_keys demo_binding demo_incarnation (Some (demo_anchor 1)) (demo_sealed_head 2)
     (Some [demo_sealed_head 1, demo_sealed_head 2]) = Inr \<lparr>ck_status = HeadExtends, ck_verified = Some v\<rparr>"
  using honest_history_is_trusted [OF demo_head_history(2), of 0 1 "demo_anchor 1"] demo_anchor_of by auto

text \<open>C24: A device's check of an index is exact: it accepts every order of the index the head was written for,
  and any index it accepts has the same values at the same revisions, so a value rolled back, dropped or
  brought back is refused, unless two of their ids have one HMAC or the inputs of their two digests one SHA-256.\<close>

theorem index_check_is_exact:
  assumes "hex_law x" and "\<And>k b. length (hmac_sha256 x k b) = 32"
    and "scope_digest x keys scope index = Inr e" and "head_scope (vh_head v) scope = Some e"
  shows "(mset index' = mset index \<longrightarrow> check_index x keys v scope index' = Inr IndexMatches) \<and>
    (\<forall>answer. check_index x keys v scope index' = Inr answer \<longrightarrow>
       mset index' = mset index \<or> sha_clash x (index_input x keys scope index') (index_input x keys scope index) \<or>
       (\<exists>i\<in>fst ` (set index' \<union> set index). \<exists>j\<in>fst ` (set index' \<union> set index). value_clash x keys scope i j))"
proof (intro conjI impI allI)
  assume "mset index' = mset index"
  with assms(3,4) scope_digest_permuted [of index' index x keys scope e]
  show "check_index x keys v scope index' = Inr IndexMatches" by (simp add: check_index_def)
next
  fix answer
  assume "check_index x keys v scope index' = Inr answer"
  then have "scope_digest x keys scope index' = Inr e" using assms(4) by (auto simp: check_index_def)
  from scope_digest_determines [OF assms(1,2) this assms(3)]
  show "mset index' = mset index \<or> sha_clash x (index_input x keys scope index') (index_input x keys scope index) \<or>
    (\<exists>i\<in>fst ` (set index' \<union> set index). \<exists>j\<in>fst ` (set index' \<union> set index). value_clash x keys scope i j)" by blast
qed

theorem index_check_is_exact_witness:
  "check_index demo_head_ext demo_head_keys demo_verified ''contacts'' [(''a'', 1), (''b'', 1)] = Inr IndexMatches"
proof -
  have "head_scope (vh_head demo_verified) ''contacts'' = Some (demo_scope 1)"
    by (simp add: head_scope_def demo_verified_def demo_head_1_def demo_scope_def)
  from index_check_is_exact [OF head_lawD(2,4) [OF demo_head_law] demo_scope_digest this, of "[(''a'', 1), (''b'', 1)]"]
  show ?thesis by (simp add: demo_index_def add_mset_commute)
qed

text \<open>The next head a device writes covers exactly what changed: it is the one after, names the sealed bytes
  it was written on, keeps every other scope's entry, and, sealed, opens for every device of the account, is
  committed by the one that wrote it, and extends the account's history.\<close>

theorem next_head_changes_only_its_scopes:
  assumes "head_law x" and "head_history x keys binding (ah_incarnation_id h) (ss @ [a])"
    and "head_open x keys binding a = Inr h" and "verified_of x h a = Inr v"
    and "verified_next x v writer entries = Inr n" and "head_seal x nonce keys binding n = Inr b"
  shows "unat (ah_sequence n) = Suc (unat (ah_sequence h)) \<and>
    (\<forall>s. s \<notin> sc_scope ` set entries \<longrightarrow> head_scope n s = head_scope h s) \<and>
    (\<forall>e. entries = [e] \<longrightarrow> head_scope n (sc_scope e) = Some e) \<and>
    head_open x keys binding b = Inr n \<and> (\<exists>w. head_committed x v keys binding b = Inr w \<and> vh_head w = n) \<and>
    head_history x keys binding (ah_incarnation_id h) (ss @ [a, b])"
proof -
  from assms(4) have v: "vh_head v = h" "vh_sealed v = a" "an_digest (vh_anchor v) = hex_encode x (sha256 x a)"
    by (auto simp: verified_of_def anchor_of_def head_digest_def)
  with assms(5) have next_h: "head_next x h a writer entries = Inr n" by (simp add: verified_next_def)
  note n = head_next_InrD [OF head_open_InrD(2) [OF assms(3)] next_h] and o = head_open_seal [OF assms(1,6)]
  from next_h have "ah_sequence n = ah_sequence h + 1" by (auto simp: head_next_def Let_def)
  with n o v verified_of_total [OF o(1)] have "\<exists>w. head_committed x v keys binding b = Inr w \<and> vh_head w = n"
    by (auto simp: head_committed_def verified_of_def)
  moreover have "head_history x keys binding (ah_incarnation_id h) ((ss @ [a]) @ [b])"
    by (rule head_history.more [OF assms(2)]) (use next_head_links [OF assms(1,3) next_h assms(6)] in simp)
  moreover have "head_scope n s = head_scope h s" if "s \<notin> sc_scope ` set entries" for s
  proof -
    have "List.find (\<lambda>e. sc_scope e = s) (rev entries) = None" using that by (auto simp: find_None_all)
    then show ?thesis by (simp add: n(6))
  qed
  ultimately show ?thesis using n(2) o(1) by (auto simp: n(6))
qed

theorem next_head_changes_only_its_scopes_witness:
  "\<exists>w. head_committed demo_head_ext demo_verified demo_head_keys demo_binding (demo_sealed_head 2) = Inr w \<and>
     vh_head w = demo_head_2"
proof -
  have i: "ah_incarnation_id demo_head_1 = demo_incarnation" by (simp add: demo_head_1_def)
  have h: "head_history demo_head_ext demo_head_keys demo_binding (ah_incarnation_id demo_head_1)
      ([] @ [demo_sealed_head 1])" using demo_head_history(1) by (simp add: i)
  have n: "verified_next demo_head_ext demo_verified demo_writer [demo_scope 2] = Inr demo_head_2"
    using demo_head_next by (simp add: verified_next_def demo_verified_def)
  from next_head_changes_only_its_scopes [OF demo_head_law h demo_head_opens(1) demo_verified_of n demo_head_sealed(2)]
  show ?thesis by blast
qed

text \<open>C25: What a device remembers only moves forward: however many verified heads it is given, in whatever order
  its tabs give them, its anchor is never replaced by an earlier one nor by another of the same sequence; and
  every step of its state, re-anchoring and starting over included, keeps it well formed, its log at most twenty
  entries.\<close>

theorem anchor_only_moves_forward:
  assumes "validate_local s = Inr ()"
  shows "anchor_le (lh_anchor (run_steps advance_step s vs)) (lh_anchor (run_steps advance_step s (vs @ ws))) \<and>
    validate_local (run_steps advance_step s vs) = Inr () \<and>
    (\<forall>step. validate_local (local_apply s step) = Inr ())"
  using local_anchor.run_never_back [OF assms] local_anchor.run_up [OF assms] local_apply_valid [OF assms] by blast

theorem anchor_only_moves_forward_witness:
  "anchor_le (lh_anchor (run_steps advance_step demo_local [(demo_verified, 1)]))
     (lh_anchor (run_steps advance_step demo_local ([(demo_verified, 1)] @ [(demo_verified, 2)])))"
proof -
  have "validate_local demo_local = Inr ()" by (simp add: validate_local_def demo_local_def)
  from anchor_only_moves_forward [OF this, of "[(demo_verified, 1)]" "[(demo_verified, 2)]"] show ?thesis by blast
qed

text \<open>C26: A device leaves the history it remembers only knowingly: re-anchoring on a rollback or a fork without
  the person's word is an error, so is re-anchoring on a head that is trusted, and every re-anchoring that
  succeeds records what the check found, from where and to where.\<close>

theorem reanchoring_is_never_silent:
  "(\<forall>r v. reanchor x keys binding inc an current segment confirmed at_ms = Inr (r, v) \<longrightarrow>
      (ra_status r = HeadTooOld \<or> confirmed \<and> ra_status r \<in> {HeadRollback, HeadFork}) \<and> ra_from r = an \<and>
      ra_to r = vh_anchor v \<and> ra_at_ms r = at_ms \<and> anchor_of x current = Inr (vh_anchor v) \<and>
      (\<exists>ck. check_head x keys binding inc (Some an) current segment = Inr ck \<and> ck_status ck = ra_status r)) \<and>
   (\<forall>ck. check_head x keys binding inc (Some an) current segment = Inr ck \<longrightarrow>
      (ck_verified ck \<noteq> None \<longrightarrow> reanchor x keys binding inc an current segment confirmed at_ms =
         Inl (head_invalid ''nothing to re-anchor: the head is trusted'')) \<and>
      (\<not> confirmed \<and> ck_status ck \<in> {HeadRollback, HeadFork} \<longrightarrow>
         reanchor x keys binding inc an current segment confirmed at_ms =
         Inl (head_invalid ''a rollback or a fork is re-anchored only when the person confirms it'')))"
proof (intro conjI allI impI)
  fix r v
  assume "reanchor x keys binding inc an current segment confirmed at_ms = Inr (r, v)"
  from reanchor_InrD [OF this] show "ra_status r = HeadTooOld \<or> confirmed \<and> ra_status r \<in> {HeadRollback, HeadFork}" "ra_from r = an"
    "ra_to r = vh_anchor v" "ra_at_ms r = at_ms" "anchor_of x current = Inr (vh_anchor v)"
    "\<exists>ck. check_head x keys binding inc (Some an) current segment = Inr ck \<and> ck_status ck = ra_status r"
    by auto
next
  fix ck
  assume ck: "check_head x keys binding inc (Some an) current segment = Inr ck"
  from check_head_InrD [OF ck] have v: "ck_verified ck = None \<longleftrightarrow> ck_status ck \<in> {HeadRollback, HeadFork, HeadTooOld}"
    by metis
  show "reanchor x keys binding inc an current segment confirmed at_ms =
      Inl (head_invalid ''nothing to re-anchor: the head is trusted'')" if "ck_verified ck \<noteq> None"
    using that v ck by (cases "ck_status ck") (auto simp: reanchor_def)
  show "reanchor x keys binding inc an current segment confirmed at_ms =
      Inl (head_invalid ''a rollback or a fork is re-anchored only when the person confirms it'')"
    if "\<not> confirmed \<and> ck_status ck \<in> {HeadRollback, HeadFork}"
    using that ck by (auto simp: reanchor_def)
qed

theorem reanchoring_is_never_silent_witness:
  "reanchor demo_head_ext demo_head_keys demo_binding demo_incarnation (demo_anchor 2) (demo_sealed_head 1) None False 5 =
     Inl (head_invalid ''a rollback or a fork is re-anchored only when the person confirms it'')"
proof -
  have "ah_incarnation_id demo_head_1 = demo_incarnation" "ah_sequence demo_head_1 = 1" by (simp_all add: demo_head_1_def)
  then have "check_head demo_head_ext demo_head_keys demo_binding demo_incarnation (Some (demo_anchor 2))
      (demo_sealed_head 1) None = Inr \<lparr>ck_status = HeadRollback, ck_verified = None\<rparr>"
    by (simp add: check_head_def demo_head_opens status_of_def demo_anchor_def)
  with reanchoring_is_never_silent [of demo_head_ext demo_head_keys demo_binding demo_incarnation "demo_anchor 2"
      "demo_sealed_head 1" None False 5] show ?thesis by simp
qed

text \<open>The state a device keeps opens to what was sealed, and only for the account and the incarnation it was
  sealed for: what is authenticated with it names both.\<close>

theorem local_state_roundtrip:
  assumes "head_law x" and "seal_local x nonce keys binding s = Inr b"
  shows "open_local x keys binding (lh_incarnation_id s) b = Inr s \<and>
    (\<forall>binding' inc a. local_aad binding' inc = Inr a \<and> local_aad binding (lh_incarnation_id s) = Inr a \<longrightarrow>
       binding' = binding \<and> inc = lh_incarnation_id s) \<and>
    (\<forall>inc t. open_local x keys binding inc b = Inr t \<longrightarrow> lh_incarnation_id t = inc)"
  using open_seal_local [OF assms] local_aad_inj by (auto simp: open_local_def Let_def)

theorem local_state_roundtrip_witness:
  "\<exists>b. open_local demo_head_ext demo_head_keys demo_binding demo_incarnation b = Inr demo_local"
proof -
  from demo_local_sealed obtain b where
    b: "seal_local demo_head_ext demo_nonce demo_head_keys demo_binding demo_local = Inr b" by blast
  from local_state_roundtrip [OF demo_head_law b] show ?thesis by (auto simp: demo_local_def)
qed

end
