(* ===== verification/Account_Rename.thy ===== *)
theory Account_Rename
  imports Primitives Tables
begin

text \<open>
  Account renames (\<open>kutup-crypto/src/account_rename.rs\<close>): statements signed by an account's authority that
  it moved from one address to another, numbered from 1 and chained by address; what a verified chain says
  and when one chain extends another.
\<close>

section \<open>Statements\<close>

definition rename_domain :: bytes where "rename_domain = domain_bytes ''kutup/account-rename/v1''"
definition max_chain :: nat where "max_chain = 1000"
definition min_issued_at_ms :: int where "min_issued_at_ms = 1577836800000"
definition max_issued_at_ms :: int where "max_issued_at_ms = 7258118400000"

definition incarnation_domain :: bytes where "incarnation_domain = domain_bytes ''kutup/account-incarnation/v1''"

definition incarnation_of :: "'a ext_scheme \<Rightarrow> bytes \<Rightarrow> string" where
  "incarnation_of x authority_public = hex_encode x (sha256 x (incarnation_domain @ authority_public))"

record account_rename =
  re_incarnation_id :: string
  re_sequence :: u64
  re_previous :: string
  re_current :: string
  re_issued_at_ms :: int
  re_signature :: string

definition rename_invalid :: "string \<Rightarrow> crypto_error" where
  "rename_invalid what = InvalidInput (''account rename: '' @ what)"

definition server_of :: "string \<Rightarrow> string" where
  "server_of account = (case split_once (CHR ''@'') account of None \<Rightarrow> '''' | Some (_, server) \<Rightarrow> server)"

definition rename_address :: "string \<Rightarrow> crypto_error + bytes" where
  "rename_address address =
     bindr (require (length address < 2 ^ 16) (rename_invalid ''address is too long'')) (\<lambda>_.
     Inr (be16 (length address) @ bytes_of_string address))"

definition rename_signing_bytes ::
  "'a ext_scheme \<Rightarrow> string \<Rightarrow> u64 \<Rightarrow> string \<Rightarrow> string \<Rightarrow> int \<Rightarrow> crypto_error + bytes" where
  "rename_signing_bytes x incarnation_id sequence previous current issued_at_ms =
     bindr (ok_or (case hex_decode x incarnation_id of None \<Rightarrow> None
         | Some bs \<Rightarrow> if length bs = 32 \<and> hex_encode x bs = incarnation_id then Some bs else None)
       (rename_invalid ''incarnation id'')) (\<lambda>incarnation.
     bindr (map_err (\<lambda>_. rename_invalid ''previous address'') (canonical_account previous)) (\<lambda>previous.
     bindr (map_err (\<lambda>_. rename_invalid ''current address'') (canonical_account current)) (\<lambda>current.
     bindr (require (\<not> (sequence = 0 \<or> sequence > word_of_nat max_chain)) (rename_invalid ''sequence'')) (\<lambda>_.
     bindr (require (previous \<noteq> current) (rename_invalid ''previous and current are the same'')) (\<lambda>_.
     bindr (require (server_of previous = server_of current)
       (rename_invalid ''previous and current are on different servers'')) (\<lambda>_.
     bindr (require (min_issued_at_ms \<le> issued_at_ms \<and> issued_at_ms \<le> max_issued_at_ms)
       (rename_invalid ''issuedAtMs'')) (\<lambda>_.
     bindr (rename_address previous) (\<lambda>p.
     bindr (rename_address current) (\<lambda>c.
     Inr (rename_domain @ incarnation @ be64 sequence @ p @ c @ be64 (word_of_int issued_at_ms)))))))))))"

text \<open>The identity's authority key, by its seed.\<close>

definition rename_sign ::
  "'a ext_scheme \<Rightarrow> bytes \<Rightarrow> u64 \<Rightarrow> string \<Rightarrow> string \<Rightarrow> int \<Rightarrow> crypto_error + account_rename" where
  "rename_sign x authority_seed sequence previous current issued_at_ms =
     (let incarnation_id = incarnation_of x (ed25519_public x authority_seed)
      in bindr (rename_signing_bytes x incarnation_id sequence previous current issued_at_ms) (\<lambda>bs.
         Inr \<lparr>re_incarnation_id = incarnation_id, re_sequence = sequence, re_previous = previous,
           re_current = current, re_issued_at_ms = issued_at_ms,
           re_signature = std_encode x (ed25519_sign x authority_seed bs)\<rparr>))"

definition rename_bytes :: "'a ext_scheme \<Rightarrow> account_rename \<Rightarrow> crypto_error + bytes" where
  "rename_bytes x r =
     rename_signing_bytes x (re_incarnation_id r) (re_sequence r) (re_previous r) (re_current r) (re_issued_at_ms r)"

definition rename_verify :: "'a ext_scheme \<Rightarrow> bytes \<Rightarrow> account_rename \<Rightarrow> crypto_error + unit" where
  "rename_verify x authority_public r =
     bindr (rename_bytes x r) (\<lambda>bs.
     bindr (require (re_incarnation_id r = incarnation_of x authority_public)
       (rename_invalid ''signed for another incarnation'')) (\<lambda>_.
     bindr (ok_or (case std_decode x (re_signature r) of None \<Rightarrow> None
         | Some raw \<Rightarrow> if std_encode x raw = re_signature r \<and> length raw = 64 then Some raw else None)
       (rename_invalid ''signature'')) (\<lambda>signature.
     bindr (map_err (\<lambda>_. rename_invalid ''authority key'') (verifying_key_from_bytes x authority_public)) (\<lambda>key.
     map_err (\<lambda>_. AuthFailed) (verify_signature x key bs signature)))))"

definition rename_digest :: "'a ext_scheme \<Rightarrow> account_rename \<Rightarrow> crypto_error + bytes" where
  "rename_digest x r =
     bindr (rename_bytes x r) (\<lambda>bs. Inr (sha256 x (bs @ bytes_of_string (re_signature r))))"

section \<open>Chains\<close>

record rename_chain_view =
  rv_incarnation_id :: string
  rv_first :: string
  rv_current :: string
  rv_addresses :: "string list"
  rv_sequence :: u64
  rv_digests :: "bytes list"

definition chain_extends :: "rename_chain_view \<Rightarrow> rename_chain_view \<Rightarrow> bool" where
  "chain_extends v earlier \<longleftrightarrow> rv_incarnation_id v = rv_incarnation_id earlier \<and>
     length (rv_digests v) \<ge> length (rv_digests earlier) \<and>
     take (length (rv_digests earlier)) (rv_digests v) = rv_digests earlier"

definition chain_had :: "rename_chain_view \<Rightarrow> string \<Rightarrow> bool" where
  "chain_had v address = any (\<lambda>known. known = address) (rv_addresses v)"

text \<open>The loop of \<open>verify_chain\<close>: the index, the addresses and digests so far, and when the last statement
  was issued (\<open>i64::MIN\<close> before the first).\<close>

fun chain_loop ::
  "'a ext_scheme \<Rightarrow> bytes \<Rightarrow> nat \<Rightarrow> string list \<Rightarrow> bytes list \<Rightarrow> int \<Rightarrow> account_rename list \<Rightarrow>
   crypto_error + string list \<times> bytes list" where
  "chain_loop x authority_public index addresses digests last_issued [] = Inr (addresses, digests)"
| "chain_loop x authority_public index addresses digests last_issued (r # rs) =
     bindr (rename_verify x authority_public r) (\<lambda>_.
     bindr (require (re_sequence r = word_of_nat index + 1) (rename_invalid ''sequence is not consecutive'')) (\<lambda>_.
     bindr (require (re_previous r = last addresses)
       (rename_invalid ''a rename does not start where the one before ended'')) (\<lambda>_.
     bindr (require (\<not> re_issued_at_ms r < last_issued) (rename_invalid ''renames are out of time order'')) (\<lambda>_.
     bindr (rename_digest x r) (\<lambda>d.
     chain_loop x authority_public (Suc index) (addresses @ [re_current r]) (digests @ [d]) (re_issued_at_ms r) rs)))))"

definition verify_chain :: "'a ext_scheme \<Rightarrow> bytes \<Rightarrow> account_rename list \<Rightarrow> crypto_error + rename_chain_view" where
  "verify_chain x authority_public chain =
     bindr (require (chain \<noteq> []) (rename_invalid ''empty chain'')) (\<lambda>_.
     bindr (require (\<not> length chain > max_chain) (rename_invalid ''chain is too long'')) (\<lambda>_.
     bindr (chain_loop x authority_public 0 [re_previous (hd chain)] [] (- (2 ^ 63)) chain)
       (\<lambda>(addresses, digests).
     Inr \<lparr>rv_incarnation_id = re_incarnation_id (hd chain), rv_first = addresses ! 0, rv_current = last addresses,
       rv_addresses = addresses, rv_sequence = word_of_nat (length chain), rv_digests = digests\<rparr>)))"

section \<open>What a verified chain says\<close>

lemma chain_loop_Inr:
  "chain_loop x au n as ds t rs = Inr (as', ds') \<Longrightarrow> as \<noteq> [] \<Longrightarrow>
     as' = as @ map re_current rs \<and> length ds' = length ds + length rs \<and> take (length ds) ds' = ds \<and>
     (\<forall>r\<in>set rs. rename_verify x au r = Inr ()) \<and>
     (\<forall>i<length rs. re_sequence (rs ! i) = word_of_nat (Suc (n + i)) \<and> rename_digest x (rs ! i) = Inr (ds' ! (length ds + i)) \<and>
        re_previous (rs ! i) = as' ! (length as - 1 + i))"
proof (induction x au n as ds t rs rule: chain_loop.induct)
  case (2 x au n as ds t r rs)
  from 2(2) obtain d where d: "rename_verify x au r = Inr ()" "re_sequence r = word_of_nat n + 1"
    "re_previous r = last as" "rename_digest x r = Inr d"
    "chain_loop x au (Suc n) (as @ [re_current r]) (ds @ [d]) (re_issued_at_ms r) rs = Inr (as', ds')"
    "\<not> re_issued_at_ms r < t" by auto
  from 2(1) [OF d(5)] have ih: "as' = (as @ [re_current r]) @ map re_current rs"
    "length ds' = length (ds @ [d]) + length rs" "take (length (ds @ [d])) ds' = ds @ [d]"
    "\<forall>r\<in>set rs. rename_verify x au r = Inr ()"
    "\<forall>i<length rs. re_sequence (rs ! i) = word_of_nat (Suc (Suc n + i)) \<and>
        rename_digest x (rs ! i) = Inr (ds' ! (length (ds @ [d]) + i)) \<and>
        re_previous (rs ! i) = as' ! (length (as @ [re_current r]) - 1 + i)"
    by auto
  have "take (length ds) (take (length (ds @ [d])) ds') = take (length ds) (ds @ [d])" by (simp only: ih(3))
  then have t: "take (length ds) ds' = ds" by simp
  have n: "ds' ! length ds = d" using ih(2,3) by (metis length_append_singleton lessI nth_append_length nth_take)
  show ?case
  proof (intro conjI allI impI)
    fix i
    assume i: "i < length (r # rs)"
    show "re_sequence ((r # rs) ! i) = word_of_nat (Suc (n + i))"
      using i d(2) ih(5) by (cases i) auto
    show "rename_digest x ((r # rs) ! i) = Inr (ds' ! (length ds + i))"
      using i d(4) n ih(5) by (cases i) auto
    show "re_previous ((r # rs) ! i) = as' ! (length as - 1 + i)"
    proof (cases i)
      case 0
      with d(3) \<open>as \<noteq> []\<close> ih(1) show ?thesis by (simp add: last_conv_nth nth_append)
    next
      case (Suc j)
      with i ih(5) \<open>as \<noteq> []\<close> show ?thesis by (cases as) auto
    qed
  qed (use ih d t in auto)
qed simp

lemma verify_chain_Inr:
  assumes "verify_chain x au chain = Inr v"
  shows "chain \<noteq> []" "length chain \<le> max_chain" "rv_addresses v = re_previous (hd chain) # map re_current chain"
    "rv_current v = last (rv_addresses v)" "rv_sequence v = word_of_nat (length chain)"
    "length (rv_digests v) = length chain" "rv_incarnation_id v = incarnation_of x au"
    "\<forall>r\<in>set chain. rename_verify x au r = Inr ()"
    "\<forall>i<length chain. re_sequence (chain ! i) = word_of_nat (Suc i) \<and>
       rename_digest x (chain ! i) = Inr (rv_digests v ! i) \<and> re_previous (chain ! i) = rv_addresses v ! i"
proof -
  from assms obtain as ds where c: "chain \<noteq> []" "length chain \<le> max_chain"
    "chain_loop x au 0 [re_previous (hd chain)] [] (- (2 ^ 63)) chain = Inr (as, ds)"
    "v = \<lparr>rv_incarnation_id = re_incarnation_id (hd chain), rv_first = as ! 0, rv_current = last as,
       rv_addresses = as, rv_sequence = word_of_nat (length chain), rv_digests = ds\<rparr>"
    by (auto simp: verify_chain_def)
  from chain_loop_Inr [OF c(3)] have l: "as = re_previous (hd chain) # map re_current chain"
    "length ds = length chain" "\<forall>r\<in>set chain. rename_verify x au r = Inr ()"
    "\<forall>i<length chain. re_sequence (chain ! i) = word_of_nat (Suc i) \<and> rename_digest x (chain ! i) = Inr (ds ! i) \<and>
       re_previous (chain ! i) = as ! i" by auto
  from l(3) c(1) have "re_incarnation_id (hd chain) = incarnation_of x au" by (auto simp: rename_verify_def)
  with c l show "chain \<noteq> []" "length chain \<le> max_chain" "rv_addresses v = re_previous (hd chain) # map re_current chain"
    "rv_current v = last (rv_addresses v)" "rv_sequence v = word_of_nat (length chain)"
    "length (rv_digests v) = length chain" "rv_incarnation_id v = incarnation_of x au"
    "\<forall>r\<in>set chain. rename_verify x au r = Inr ()"
    "\<forall>i<length chain. re_sequence (chain ! i) = word_of_nat (Suc i) \<and>
       rename_digest x (chain ! i) = Inr (rv_digests v ! i) \<and> re_previous (chain ! i) = rv_addresses v ! i"
    by auto
qed

end
