(* ===== verification/Clock.thy ===== *)
theory Clock
  imports Names
begin

text \<open>
  Instants as text: \<open>rfc3339\<close> of \<open>kutup-chat-core/src/clock.rs\<close> and \<open>since_from_unix\<close> of
  \<open>kutup-crypto/src/identity_pins.rs\<close>, which compute the calendar date of a day number by one algorithm, and the
  proof that it is the Gregorian date.
\<close>

section \<open>The program's conversion\<close>

text \<open>The year of an era (400 years from the first of March) that a day of the era is in, and the day of that year.\<close>

definition year_of_era :: "int \<Rightarrow> int" where
  "year_of_era doe = (doe - doe div 1460 + doe div 36524 - doe div 146096) div 365"

definition day_of_year :: "int \<Rightarrow> int" where
  "day_of_year doe = (let yoe = year_of_era doe in doe - (365 * yoe + yoe div 4 - yoe div 100))"

definition march_month :: "int \<Rightarrow> int" where
  "march_month doy = (5 * doy + 2) div 153"

definition march_day :: "int \<Rightarrow> int" where
  "march_day doy = doy - (153 * march_month doy + 2) div 5 + 1"

definition civil_month :: "int \<Rightarrow> int" where
  "civil_month mp = (if mp < 10 then mp + 3 else mp - 9)"

definition civil_from_days :: "int \<Rightarrow> int \<times> int \<times> int" where
  "civil_from_days days =
     (let z = days + 719468; era = z div 146097; doe = z mod 146097;
          yoe = year_of_era doe; doy = day_of_year doe;
          month = civil_month (march_month doy)
      in (yoe + era * 400 + (if month \<le> 2 then 1 else 0), month, march_day doy))"

definition pad_left :: "nat \<Rightarrow> string \<Rightarrow> string" where
  "pad_left n s = replicate (n - length s) (CHR ''0'') @ s"

text \<open>\<open>format!\<close> of a signed number to a width, zeros after the sign.\<close>

definition pad_int :: "nat \<Rightarrow> int \<Rightarrow> string" where
  "pad_int n i = (if i < 0 then ''-'' @ pad_left (n - 1) (decimal (nat (- i))) else pad_left n (decimal (nat i)))"

definition date_text :: "int \<times> int \<times> int \<Rightarrow> string" where
  "date_text = (\<lambda>(year, month, day). pad_int 4 year @ ''-'' @ pad_int 2 month @ ''-'' @ pad_int 2 day)"

definition clock_text :: "int \<Rightarrow> string" where
  "clock_text s = pad_int 2 (s div 3600) @ '':'' @ pad_int 2 (s mod 3600 div 60) @ '':'' @ pad_int 2 (s mod 60)"

definition since_from_unix :: "nat \<Rightarrow> string" where
  "since_from_unix seconds =
     (let days = int (seconds div 86400); rem_s = int (seconds mod 86400)
      in date_text (civil_from_days days) @ ''T'' @ clock_text rem_s @ ''Z'')"

definition rfc3339 :: "int \<Rightarrow> string" where
  "rfc3339 unix_millis =
     (let millis = unix_millis mod 1000; seconds = unix_millis div 1000; day_seconds = seconds mod 86400
      in date_text (civil_from_days (seconds div 86400)) @ ''T'' @ clock_text day_seconds @ ''.'' @ pad_int 3 millis @ ''Z'')"

section \<open>The Gregorian calendar\<close>

definition leap_year :: "int \<Rightarrow> bool" where
  "leap_year y \<longleftrightarrow> y mod 4 = 0 \<and> (y mod 100 \<noteq> 0 \<or> y mod 400 = 0)"

definition month_days :: "int \<Rightarrow> int \<Rightarrow> int" where
  "month_days y m = (if m = 2 then if leap_year y then 29 else 28 else if m \<in> {4, 6, 9, 11} then 30 else 31)"

definition civil_ok :: "int \<times> int \<times> int \<Rightarrow> bool" where
  "civil_ok = (\<lambda>(y, m, d). 1 \<le> m \<and> m \<le> 12 \<and> 1 \<le> d \<and> d \<le> month_days y m)"

fun next_day :: "int \<times> int \<times> int \<Rightarrow> int \<times> int \<times> int" where
  "next_day (y, m, d) =
     (if d < month_days y m then (y, m, d + 1) else if m < 12 then (y, m + 1, 1) else (y + 1, 1, 1))"

section \<open>The conversion is the calendar\<close>

definition era_start :: "int \<Rightarrow> int" where
  "era_start y = 365 * y + y div 4 - y div 100"

text \<open>The days of the year that starts in March of year \<open>y\<close> of an era: the leap day is its last.\<close>

definition march_year_days :: "int \<Rightarrow> int" where
  "march_year_days y = (if leap_year (y + 1) then 366 else 365)"

lemma march_year_days_le: "march_year_days y \<le> 366"
  by (simp add: march_year_days_def)

text \<open>A year of an era is a century of it, a group of four years and a year of the group.\<close>

lemma year_parts:
  assumes "0 \<le> y" and "y < 400"
  obtains c a j :: int where "y = 100 * c + 4 * a + j" "0 \<le> c" "c \<le> 3" "0 \<le> a" "a \<le> 24" "0 \<le> j" "j \<le> 3"
    "y div 4 = 25 * c + a" "y div 100 = c"
proof -
  define r where "r = y mod 100"
  have r: "0 \<le> r" "r < 100" by (simp_all add: r_def)
  have y: "y = 100 * (y div 100) + r" by (simp add: r_def)
  also have "\<dots> = r + 4 * (25 * (y div 100))" by simp
  finally have "y div 4 = (r + 4 * (25 * (y div 100))) div 4" by simp
  then have d: "y div 4 = 25 * (y div 100) + r div 4" by simp
  have "r = 4 * (r div 4) + r mod 4" by simp
  with y have p: "y = 100 * (y div 100) + 4 * (r div 4) + r mod 4" by simp
  show thesis
    by (rule that [OF p _ _ _ _ _ _ d]) (use assms r in auto)
qed

lemma leap_day_last:
  assumes "y = 100 * c + 4 * a + j" and "0 \<le> c" "c \<le> 3" "0 \<le> a" "a \<le> 24" "0 \<le> j" "j \<le> 3" and "doy < march_year_days y"
    and "\<not> doy \<le> 364"
  shows "j = 3 \<and> (a = 24 \<longrightarrow> c = 3) \<and> doy = 365"
proof -
  from assms(8,9) have l: "leap_year (y + 1)" "doy = 365"
    by (auto simp: march_year_days_def split: if_splits)
  have "y + 1 = (j + 1) + 4 * (25 * c + a)" using assms(1) by simp
  then have "(y + 1) mod 4 = ((j + 1) + 4 * (25 * c + a)) mod 4" by (simp only:)
  also have "\<dots> = (j + 1) mod 4" by (rule mod_mult_self2)
  finally have "(y + 1) mod 4 = (j + 1) mod 4" .
  with l(1) have "(j + 1) mod 4 = 0" by (simp add: leap_year_def)
  moreover have "j = 0 \<or> j = 1 \<or> j = 2 \<or> j = 3" using assms(6,7) by linarith
  ultimately have j: "j = 3" by auto
  have "c = 3" if "a = 24"
  proof -
    from that j assms(1) have "y + 1 = 100 * (c + 1)" by simp
    with l(1) have "(100 * (c + 1)) mod 400 = 0" by (simp add: leap_year_def)
    moreover have "c = 0 \<or> c = 1 \<or> c = 2 \<or> c = 3" using assms(2,3) by linarith
    ultimately show ?thesis by auto
  qed
  with j l(2) show ?thesis by simp
qed

lemma year_of_era_start:
  assumes y: "0 \<le> y" "y < 400" and doy: "0 \<le> doy" "doy < march_year_days y"
  shows "year_of_era (era_start y + doy) = y"
proof -
  obtain c a j where p: "y = 100 * c + 4 * a + j" "0 \<le> c" "c \<le> 3" "0 \<le> a" "a \<le> 24" "0 \<le> j" "j \<le> 3"
    and d: "y div 4 = 25 * c + a" "y div 100 = c" using year_parts [OF y] by blast
  have le: "doy \<le> 364 \<or> (j = 3 \<and> (a = 24 \<longrightarrow> c = 3) \<and> doy = 365)" using leap_day_last [OF p doy(2)] by blast
  show ?thesis
  proof (cases "doy = 365 \<and> a = 24")
    case True
    with le p d show ?thesis by (auto simp: era_start_def year_of_era_def)
  next
    case False
    let ?doe = "era_start y + doy"
    have e: "?doe = 36524 * c + (1461 * a + 365 * j + doy)" using p(1) d by (simp add: era_start_def)
    have r: "0 \<le> 1461 * a + 365 * j + doy" "1461 * a + 365 * j + doy < 36524" using p le doy(1) False by auto
    have c: "?doe div 36524 = c" unfolding e using r by simp
    have big: "?doe div 146096 = 0" using e r p(2,3) by simp
    let ?s = "365 * j + (24 * c + a) + doy"
    have e2: "?doe = 1460 * (25 * c + a) + ?s" using e by simp
    have s: "0 \<le> ?s" "?s < 2920" using p le doy(1) by auto
    have q: "?doe div 1460 = 25 * c + a + ?s div 1460" unfolding e2 by simp
    have f: "?doe - ?doe div 1460 + ?doe div 36524 - ?doe div 146096 = 365 * y + (doy - ?s div 1460)"
      unfolding q c big using e p(1) by simp
    have "0 \<le> doy - ?s div 1460 \<and> doy - ?s div 1460 < 365"
    proof (cases "?s < 1460")
      case True
      then have o: "?s div 1460 = 0" using s by simp
      from le show ?thesis unfolding o
      proof (elim disjE conjE)
        assume "j = 3" "doy = 365"
        with True p(2,4) show "0 \<le> doy - 0 \<and> doy - 0 < 365" by linarith
      qed (use doy(1) in simp)
    next
      case False
      then have o: "?s div 1460 = 1" using s by (subst div_pos_geq) simp_all
      from le show ?thesis unfolding o
      proof (elim disjE conjE)
        assume "doy \<le> 364"
        with False p(3,5,7) show "0 \<le> doy - 1 \<and> doy - 1 < 365" by linarith
      qed simp
    qed
    then show ?thesis unfolding year_of_era_def f by simp
  qed
qed

lemma day_of_year_start:
  assumes "0 \<le> y" and "y < 400" and "0 \<le> doy" and "doy < march_year_days y"
  shows "day_of_year (era_start y + doy) = doy"
  using year_of_era_start [OF assms] by (simp add: day_of_year_def Let_def era_start_def)

lemma div_succ: "(0 :: int) < n \<Longrightarrow> (a + 1) div n = a div n + (if (a + 1) mod n = 0 then 1 else 0)"
proof -
  assume n: "0 < n"
  obtain q r where a: "a = r + n * q" and r: "0 \<le> r" "r < n"
    using n by (intro that [of "a mod n" "a div n"]) simp_all
  show ?thesis
  proof (cases "r = n - 1")
    case True
    with a have e: "a + 1 = n * (q + 1)" by (simp add: algebra_simps)
    have "(a + 1) div n = q + 1" unfolding e using n by simp
    moreover have "(a + 1) mod n = 0" unfolding e by simp
    moreover have "a div n = q" unfolding a using n r by simp
    ultimately show ?thesis by simp
  next
    case False
    have e: "a + 1 = (r + 1) + n * q" using a by simp
    have s: "0 \<le> r + 1" "r + 1 < n" using r False by simp_all
    have "(a + 1) div n = q" unfolding e using n s by (subst div_mult_self2) (simp_all add: div_pos_pos_trivial)
    moreover have "(a + 1) mod n = r + 1" unfolding e using s by (subst mod_mult_self2) (simp add: mod_pos_pos_trivial)
    moreover have "a div n = q" unfolding a using n r by simp
    ultimately show ?thesis using r by simp
  qed
qed

lemma era_start_next:
  assumes "0 \<le> y" and "y < 399"
  shows "era_start (y + 1) = era_start y + march_year_days y"
proof -
  have "(y + 1) mod 400 = y + 1" using assms by simp
  then have l: "leap_year (y + 1) \<longleftrightarrow> (y + 1) mod 4 = 0 \<and> (y + 1) mod 100 \<noteq> 0" using assms by (simp add: leap_year_def)
  have "(y + 1) mod 4 = (y + 1) mod 100 mod 4" by (simp add: mod_mod_cancel)
  then have h: "(y + 1) mod 100 = 0 \<longrightarrow> (y + 1) mod 4 = 0" by simp
  have d: "(y + 1) div 4 = y div 4 + (if (y + 1) mod 4 = 0 then 1 else 0)"
    "(y + 1) div 100 = y div 100 + (if (y + 1) mod 100 = 0 then 1 else 0)"
    using div_succ [of 4 y] div_succ [of 100 y] by simp_all
  have "era_start (y + 1) = era_start y + 365 + (if (y + 1) mod 4 = 0 then 1 else 0) - (if (y + 1) mod 100 = 0 then 1 else 0)"
    unfolding era_start_def d by simp
  with h show ?thesis unfolding march_year_days_def l by (simp split: if_splits)
qed

text \<open>Every day of an era is a day of one of its years.\<close>

lemma era_day:
  assumes "0 \<le> doe" and "doe < 146097"
  obtains y doy where "0 \<le> y" "y < 400" "0 \<le> doy" "doy < march_year_days y" "doe = era_start y + doy"
proof -
  have "int n < 146097 \<Longrightarrow> \<exists>y doy. 0 \<le> y \<and> y < 400 \<and> 0 \<le> doy \<and> doy < march_year_days y \<and> int n = era_start y + doy" for n
  proof (induction n)
    case 0
    have "(0 :: int) \<le> 0 \<and> (0 :: int) < 400 \<and> (0 :: int) \<le> 0 \<and> (0 :: int) < march_year_days 0 \<and> int 0 = era_start 0 + 0"
      by (simp add: march_year_days_def era_start_def)
    then show ?case by blast
  next
    case (Suc n)
    then obtain y doy where d: "0 \<le> y" "y < 400" "0 \<le> doy" "doy < march_year_days y" "int n = era_start y + doy" by auto
    show ?case
    proof (cases "doy + 1 < march_year_days y")
      case True
      with d show ?thesis by (intro exI [of _ y] exI [of _ "doy + 1"]) simp
    next
      case False
      then have e: "int (Suc n) = era_start y + march_year_days y" using d(4,5) by simp
      have "y \<noteq> 399" using e Suc.prems by (auto simp: era_start_def march_year_days_def leap_year_def)
      then have "y < 399" using d(2) by simp
      moreover have "0 < march_year_days (y + 1)" by (simp add: march_year_days_def)
      ultimately show ?thesis using e era_start_next [of y] d(1) by (intro exI [of _ "y + 1"] exI [of _ 0]) simp
    qed
  qed
  from this [of "nat doe"] assms that show thesis by auto
qed

text \<open>The months of a year from March: where each starts, and its days (\<open>29\<close> for February, reached in leap years).\<close>

definition month_span :: "int \<Rightarrow> int" where
  "month_span m = (if m = 2 then 29 else month_days 0 m)"

definition month_start :: "int \<Rightarrow> int" where
  "month_start m = (if m \<le> 2 then 275 + 31 * m else (153 * (m - 3) + 2) div 5)"

lemma month_cases:
  assumes "1 \<le> (m :: int)" and "m \<le> 12"
  obtains "m = 1" | "m = 2" | "m = 3" | "m = 4" | "m = 5" | "m = 6" | "m = 7" | "m = 8" | "m = 9" | "m = 10" | "m = 11" | "m = 12"
proof -
  from assms have "m = 1 \<or> m = 2 \<or> m = 3 \<or> m = 4 \<or> m = 5 \<or> m = 6 \<or> m = 7 \<or> m = 8 \<or> m = 9 \<or> m = 10 \<or> m = 11 \<or> m = 12"
    by presburger
  with that show thesis by blast
qed

lemma march_month_eq: "153 * mp \<le> 5 * doy + 2 \<Longrightarrow> 5 * doy + 2 < 153 * (mp + 1) \<Longrightarrow> march_month doy = mp"
proof -
  assume a: "153 * mp \<le> 5 * doy + 2" "5 * doy + 2 < 153 * (mp + 1)"
  obtain r where r: "5 * doy + 2 = r + 153 * mp" "0 \<le> r" "r < 153"
    using a by (intro that [of "5 * doy + 2 - 153 * mp"]) simp_all
  show ?thesis unfolding march_month_def r(1) using r(2,3) by simp
qed

lemma march_decode:
  assumes "1 \<le> m" and "m \<le> 12" and "month_start m \<le> doy" and "doy < month_start m + month_span m"
  shows "civil_month (march_month doy) = m" and "march_day doy = doy - month_start m + 1"
proof -
  define mp where "mp = (if m \<le> 2 then m + 9 else m - 3)"
  have "153 * mp \<le> 5 * doy + 2 \<and> 5 * doy + 2 < 153 * (mp + 1) \<and> (153 * mp + 2) div 5 = month_start m \<and> civil_month mp = m"
    by (rule month_cases [OF assms(1,2)])
      (use assms(3,4) in \<open>simp_all add: mp_def month_start_def month_span_def month_days_def civil_month_def\<close>)
  then have "march_month doy = mp" "(153 * mp + 2) div 5 = month_start m" "civil_month mp = m"
    using march_month_eq by auto
  then show "civil_month (march_month doy) = m" "march_day doy = doy - month_start m + 1"
    by (simp_all add: march_day_def)
qed

lemma march_month_ex:
  assumes "0 \<le> doy" and "doy < 366"
  obtains m where "1 \<le> m" "m \<le> 12" "month_start m \<le> doy" "doy < month_start m + month_span m"
proof -
  have "\<exists>m\<in>{1, 2, 3, 4, 5, 6, 7, 8, 9, 10, 11, 12}. month_start m \<le> doy \<and> doy < month_start m + month_span m"
    using assms by (simp add: month_start_def month_span_def month_days_def) linarith
  then obtain m where "m \<in> {1, 2, 3, 4, 5, 6, 7, 8, 9, 10, 11, 12}" "month_start m \<le> doy" "doy < month_start m + month_span m"
    by blast
  moreover from this(1) have "1 \<le> m" "m \<le> 12" by auto
  ultimately show thesis using that by blast
qed

lemma month_start_next:
  assumes "1 \<le> m" and "m \<le> 12" and "m \<noteq> 2"
  shows "month_start (if m < 12 then m + 1 else 1) = month_start m + month_span m"
  by (rule month_cases [OF assms(1,2)]) (use assms(3) in \<open>simp_all add: month_start_def month_span_def month_days_def\<close>)

text \<open>A day number as an era, a year of it and a day of that year, and the date the conversion gives it.\<close>

definition day_number :: "int \<Rightarrow> int \<Rightarrow> int \<Rightarrow> int" where
  "day_number era y doy = era * 146097 + era_start y + doy - 719468"

lemma era_start_bounds: "0 \<le> y \<Longrightarrow> y < 400 \<Longrightarrow> 0 \<le> era_start y \<and> era_start y + march_year_days y \<le> 146097"
proof -
  assume y: "0 \<le> y" "y < 400"
  from y obtain c a j where p: "y = 100 * c + 4 * a + j" "0 \<le> c" "c \<le> 3" "0 \<le> a" "a \<le> 24" "0 \<le> j" "j \<le> 3"
    and d: "y div 4 = 25 * c + a" "y div 100 = c" using year_parts by blast
  have "era_start y = 365 * y + 24 * c + a" using d by (simp add: era_start_def)
  with p march_year_days_le [of y] show ?thesis by (cases "y = 399") (simp_all add: march_year_days_def leap_year_def)
qed

lemma day_number_ex:
  obtains era y doy where "0 \<le> y" "y < 400" "0 \<le> doy" "doy < march_year_days y" "n = day_number era y doy"
proof -
  have "0 \<le> (n + 719468) mod 146097" "(n + 719468) mod 146097 < 146097" by simp_all
  then obtain y doy where d: "0 \<le> y" "y < 400" "0 \<le> doy" "doy < march_year_days y" "(n + 719468) mod 146097 = era_start y + doy"
    by (rule era_day)
  have "n = day_number ((n + 719468) div 146097) y doy"
    using d(5) div_mult_mod_eq [of "n + 719468" 146097] by (simp add: day_number_def)
  with d that show thesis by blast
qed

lemma leap_year_era: "leap_year (y + 400 * era) \<longleftrightarrow> leap_year y"
proof -
  have "(y + 400 * era) mod 4 = y mod 4" using mod_mult_self2 [of y 4 "100 * era"] by simp
  moreover have "(y + 400 * era) mod 100 = y mod 100" using mod_mult_self2 [of y 100 "4 * era"] by simp
  moreover have "(y + 400 * era) mod 400 = y mod 400" by simp
  ultimately show ?thesis by (simp add: leap_year_def)
qed

lemma civil_of_day_number:
  assumes "0 \<le> y" "y < 400" "0 \<le> doy" "doy < march_year_days y"
    and "1 \<le> m" "m \<le> 12" "month_start m \<le> doy" "doy < month_start m + month_span m"
  shows "civil_from_days (day_number era y doy) =
    (y + era * 400 + (if m \<le> 2 then 1 else 0), m, doy - month_start m + 1)"
proof -
  have r: "0 \<le> era_start y + doy" "era_start y + doy < 146097" using era_start_bounds [of y] assms(1-4) by simp_all
  have z: "day_number era y doy + 719468 = (era_start y + doy) + 146097 * era" by (simp add: day_number_def)
  have "(day_number era y doy + 719468) div 146097 = era" "(day_number era y doy + 719468) mod 146097 = era_start y + doy"
    unfolding z using r by simp_all
  with march_decode [OF assms(5-8)] year_of_era_start [OF assms(1-4)] day_of_year_start [OF assms(1-4)] show ?thesis
    by (simp add: civil_from_days_def Let_def)
qed

lemma march_year_days_february:
  "month_start m \<le> doy \<Longrightarrow> 1 \<le> m \<Longrightarrow> m \<le> 12 \<Longrightarrow> doy < march_year_days y \<Longrightarrow> doy < month_start m + month_span m \<Longrightarrow>
   doy - month_start m + 1 \<le> month_days (y + era * 400 + (if m \<le> 2 then 1 else 0)) m"
  using leap_year_era [of "y + 1" era]
  by (cases "m = 2") (auto simp: march_year_days_def month_start_def month_span_def month_days_def ac_simps split: if_splits)

lemma civil_from_days_ok: "civil_ok (civil_from_days n)"
proof -
  obtain era y doy where d: "0 \<le> y" "y < 400" "0 \<le> doy" "doy < march_year_days y" "n = day_number era y doy"
    by (rule day_number_ex)
  then have "doy < 366" using march_year_days_le [of y] by simp
  with d(3) obtain m where m: "1 \<le> m" "m \<le> 12" "month_start m \<le> doy" "doy < month_start m + month_span m"
    by (rule march_month_ex)
  from march_year_days_february [OF m(3,1,2) d(4) m(4), of era] civil_of_day_number [OF d(1-4) m, of era] m d(5)
  show ?thesis by (simp add: civil_ok_def)
qed

lemma month_days_other: "m \<noteq> 2 \<Longrightarrow> month_days y m = month_span m"
  by (simp add: month_days_def month_span_def)

theorem civil_from_days_next: "civil_from_days (n + 1) = next_day (civil_from_days n)"
proof -
  obtain era y doy where d: "0 \<le> y" "y < 400" "0 \<le> doy" "doy < march_year_days y" "n = day_number era y doy"
    by (rule day_number_ex)
  then have "doy < 366" using march_year_days_le [of y] by simp
  with d(3) obtain m where m: "1 \<le> m" "m \<le> 12" "month_start m \<le> doy" "doy < month_start m + month_span m"
    by (rule march_month_ex)
  let ?y = "y + era * 400 + (if m \<le> 2 then 1 else 0)"
  have c: "civil_from_days n = (?y, m, doy - month_start m + 1)" using civil_of_day_number [OF d(1-4) m, of era] d(5) by simp
  have ms: "month_days ?y 2 = (if march_year_days y = 366 then 29 else 28)" if "m = 2"
    using that leap_year_era [of "y + 1" era] by (simp add: month_days_def march_year_days_def ac_simps)
  show ?thesis
  proof (cases "doy + 1 < march_year_days y")
    case False
    then have doy: "doy + 1 = march_year_days y" using d(4) by simp
    have m2: "m = 2" by (rule month_cases [OF m(1,2)])
      (use m doy in \<open>simp_all add: month_start_def month_span_def month_days_def march_year_days_def split: if_splits\<close>)
    have l: "doy - month_start m + 1 = month_days ?y m"
      using m2 ms doy by (simp add: month_start_def march_year_days_def split: if_splits)
    have nd: "next_day (civil_from_days n) = (y + era * 400 + 1, 3, 1)" unfolding c using l m2 by simp
    show ?thesis
    proof (cases "y < 399")
      case True
      have e: "n + 1 = day_number era (y + 1) 0" using d(1,5) doy True era_start_next [of y] by (simp add: day_number_def)
      have "civil_from_days (n + 1) = (y + 1 + era * 400, 3, 1)"
        unfolding e using True d(1) civil_of_day_number [of "y + 1" 0 3 era]
        by (simp add: month_start_def month_span_def month_days_def march_year_days_def)
      with nd show ?thesis by simp
    next
      case False
      then have y: "y = 399" using d(2) by simp
      have e: "n + 1 = day_number (era + 1) 0 0"
        using d(5) doy y by (simp add: day_number_def era_start_def march_year_days_def leap_year_def)
      have "civil_from_days (n + 1) = ((era + 1) * 400, 3, 1)"
        unfolding e using civil_of_day_number [of 0 0 3 "era + 1"]
        by (simp add: month_start_def month_span_def month_days_def march_year_days_def)
      with nd y show ?thesis by simp
    qed
  next
    case True
    have e: "n + 1 = day_number era y (doy + 1)" using d(5) by (simp add: day_number_def)
    show ?thesis
    proof (cases "doy + 1 < month_start m + month_span m")
      case inside: True
      have "doy - month_start m + 1 < month_days ?y m"
        using inside True ms m by (cases "m = 2") (auto simp: month_days_other month_start_def march_year_days_def split: if_splits)
      moreover have "civil_from_days (n + 1) = (?y, m, doy + 1 - month_start m + 1)"
        unfolding e using civil_of_day_number [of y "doy + 1" m era] d(1-3) True m(1-3) inside by simp
      ultimately show ?thesis unfolding c by simp
    next
      case False
      then have last: "doy + 1 = month_start m + month_span m" using m(4) by simp
      have m2: "m \<noteq> 2"
      proof
        assume "m = 2"
        with last True march_year_days_le [of y] show False by (simp add: month_start_def month_span_def)
      qed
      let ?m = "if m < 12 then m + 1 else 1"
      have s: "month_start ?m = doy + 1" using month_start_next [OF m(1,2) m2] last by simp
      have sp: "1 \<le> ?m" "?m \<le> 12" "0 < month_span ?m" using m(1,2) by (auto simp: month_span_def month_days_def)
      have "civil_from_days (n + 1) = (y + era * 400 + (if ?m \<le> 2 then 1 else 0), ?m, doy + 1 - month_start ?m + 1)"
        unfolding e using d(1-3) True sp s by (intro civil_of_day_number) linarith+
      then have "civil_from_days (n + 1) = (y + era * 400 + (if ?m \<le> 2 then 1 else 0), ?m, 1)" using s by simp
      moreover have "doy - month_start m + 1 = month_days ?y m" using last month_days_other [OF m2] by simp
      ultimately have f: "civil_from_days (n + 1) = (y + era * 400 + (if ?m \<le> 2 then 1 else 0), ?m, 1)"
        and l: "\<not> doy - month_start m + 1 < month_days ?y m" by simp_all
      show ?thesis
      proof (cases "m = 12")
        case False
        with m(2) have "m < 12" by simp
        moreover have "m + 1 \<le> 2 \<longleftrightarrow> m \<le> 2" using m(1) m2 by presburger
        ultimately show ?thesis unfolding f c using l by simp
      qed (use f c l in simp)
    qed
  qed
qed

lemma civil_from_days_0: "civil_from_days 0 = (1970, 1, 1)"
  using civil_of_day_number [of 369 306 1 4]
  by (simp add: day_number_def era_start_def month_start_def month_span_def month_days_def march_year_days_def leap_year_def)

section \<open>Dates and day numbers\<close>

definition civil_less :: "int \<times> int \<times> int \<Rightarrow> int \<times> int \<times> int \<Rightarrow> bool" where
  "civil_less = (\<lambda>(y, m, d) (y', m', d'). y < y' \<or> (y = y' \<and> (m < m' \<or> (m = m' \<and> d < d'))))"

lemma civil_less_trans: "civil_less a b \<Longrightarrow> civil_less b c \<Longrightarrow> civil_less a c"
  by (auto simp: civil_less_def split: prod.splits)

lemma civil_less_irrefl [simp]: "\<not> civil_less a a"
  by (auto simp: civil_less_def split: prod.splits)

lemma next_day_greater: "civil_less c (next_day c)"
  by (cases c) (auto simp: civil_less_def)

lemma civil_from_days_mono: "m < n \<Longrightarrow> civil_less (civil_from_days m) (civil_from_days n)"
proof -
  have "civil_less (civil_from_days m) (civil_from_days (m + 1 + int k))" for k
  proof (induction k)
    case 0
    then show ?case by (simp add: civil_from_days_next next_day_greater)
  next
    case (Suc k)
    have "civil_from_days (m + 1 + int (Suc k)) = next_day (civil_from_days (m + 1 + int k))"
      using civil_from_days_next [of "m + 1 + int k"] by (simp add: ac_simps)
    with Suc next_day_greater civil_less_trans show ?case by metis
  qed
  from this [of "nat (n - m - 1)"] show "m < n \<Longrightarrow> ?thesis" by simp
qed

lemma civil_from_days_less_iff: "civil_less (civil_from_days m) (civil_from_days n) \<longleftrightarrow> m < n"
  by (metis civil_from_days_mono civil_less_irrefl civil_less_trans linorder_less_linear)

lemma civil_from_days_inj [simp]: "civil_from_days m = civil_from_days n \<longleftrightarrow> m = n"
  by (metis civil_from_days_less_iff civil_less_irrefl linorder_less_linear)

definition civil_to_days :: "int \<Rightarrow> int \<Rightarrow> int \<Rightarrow> int" where
  "civil_to_days y m d =
     (let y' = y - (if m \<le> 2 then 1 else 0) in day_number (y' div 400) (y' mod 400) (month_start m + d - 1))"

lemma civil_to_from: "civil_ok (y, m, d) \<Longrightarrow> civil_from_days (civil_to_days y m d) = (y, m, d)"
proof -
  assume "civil_ok (y, m, d)"
  then have ok: "1 \<le> m" "m \<le> 12" "1 \<le> d" "d \<le> month_days y m" by (simp_all add: civil_ok_def)
  define z where "z = y - (if m \<le> 2 then 1 else 0)"
  have "month_days y m \<le> month_span m" by (simp add: month_span_def month_days_def)
  then have doy: "month_start m \<le> month_start m + d - 1" "month_start m + d - 1 < month_start m + month_span m"
    using ok by simp_all
  have y: "0 \<le> z mod 400" "z mod 400 < 400" by simp_all
  have l: "leap_year (z mod 400 + 1) \<longleftrightarrow> leap_year (z + 1)"
    using leap_year_era [of "z mod 400 + 1" "z div 400"] by simp
  have s: "0 \<le> month_start m" by (rule month_cases [OF ok(1,2)]) (simp_all add: month_start_def)
  have "month_start m + d - 1 < march_year_days (z mod 400)"
    by (rule month_cases [OF ok(1,2)])
      (use ok(4) l in \<open>auto simp: month_start_def month_days_def march_year_days_def z_def split: if_splits\<close>)
  with civil_of_day_number [OF y _ _ ok(1,2) doy] s ok(3) have
    "civil_from_days (civil_to_days y m d) = (z mod 400 + z div 400 * 400 + (if m \<le> 2 then 1 else 0), m, d)"
    by (simp add: civil_to_days_def Let_def z_def)
  then show ?thesis by (simp add: z_def)
qed

lemma civil_from_to: "civil_from_days n = (y, m, d) \<Longrightarrow> civil_to_days y m d = n"
  by (metis civil_from_days_inj civil_from_days_ok civil_to_from)

lemma civil_iterate: "civil_from_days (int n) = (next_day ^^ n) (1970, 1, 1)"
proof (induction n)
  case (Suc n)
  with civil_from_days_next [of "int n"] show ?case by (simp add: add.commute)
qed (simp add: civil_from_days_0)

section \<open>The texts\<close>

lemma is_digit_char_of: "k < 10 \<Longrightarrow> is_digit (char_of (48 + k :: nat))"
  by (simp add: is_digit_def less_eq_char_def)

lemma is_digit_zero: "is_digit (CHR ''0'')"
  by (simp add: is_digit_def)

lemma list_all_decimal: "list_all is_digit (decimal n)"
proof (induction n rule: decimal.induct)
  case (1 n)
  then show ?case using is_digit_char_of [of n] is_digit_char_of [of "n mod 10"] by (subst decimal.simps) simp
qed

lemma length_decimal_le: "n < 10 ^ k \<Longrightarrow> 0 < k \<Longrightarrow> length (decimal n) \<le> k"
proof (induction k arbitrary: n)
  case (Suc k)
  show ?case
  proof (cases "n < 10")
    case False
    then have "0 < k" using Suc.prems by (cases k) simp_all
    moreover have "n div 10 < 10 ^ k" using Suc.prems(1) by (simp add: less_mult_imp_div_less mult.commute)
    ultimately have "length (decimal (n div 10)) \<le> k" by (rule Suc.IH [rotated])
    with False show ?thesis by (subst decimal.simps) simp
  qed (subst decimal.simps, simp)
qed simp

lemma pad_int_digits:
  assumes "0 \<le> i" and "i < 10 ^ n" and "0 < n"
  shows "length (pad_int n i) = n" and "list_all is_digit (pad_int n i)"
proof -
  have "nat i < 10 ^ n" using assms(1,2) by (simp add: nat_less_iff)
  then have "length (decimal (nat i)) \<le> n" using assms(3) by (rule length_decimal_le)
  with assms(1) list_all_decimal [of "nat i"] show "length (pad_int n i) = n" "list_all is_digit (pad_int n i)"
    by (auto simp: pad_int_def pad_left_def list_all_iff is_digit_zero)
qed

lemma clock_text_parts:
  assumes "0 \<le> s" and "s < 86400"
  shows "clock_text s = pad_int 2 (s div 3600) @ '':'' @ pad_int 2 (s mod 3600 div 60) @ '':'' @ pad_int 2 (s mod 60)"
    and "s div 3600 < 10 ^ 2" "0 \<le> s div 3600" "s mod 3600 div 60 < 10 ^ 2" "0 \<le> s mod 3600 div 60" "s mod 60 < 10 ^ 2" "0 \<le> s mod 60"
proof -
  show "s div 3600 < 10 ^ 2" using assms by (simp add: div_less_iff_less_mult)
  have "s mod 3600 < 3600" by simp
  then show "s mod 3600 div 60 < 10 ^ 2" by (simp add: div_less_iff_less_mult)
  have "s mod 60 < 60" by simp
  then show "s mod 60 < 10 ^ 2" by simp
qed (use assms in \<open>simp_all add: clock_text_def pos_imp_zdiv_nonneg_iff\<close>)

lemma civil_year_bounds:
  assumes "civil_from_days n = (y, m, d)" and "0 \<le> n" and "n \<le> 2932896"
  shows "1970 \<le> y" and "y \<le> 9999"
proof -
  have top: "civil_from_days 2932896 = (9999, 12, 31)"
    using civil_of_day_number [of 399 305 12 24]
    by (simp add: day_number_def era_start_def month_start_def month_span_def month_days_def march_year_days_def leap_year_def)
  have "\<not> civil_less (y, m, d) (1970, 1, 1)" "\<not> civil_less (9999, 12, 31) (y, m, d)"
    using civil_from_days_less_iff [of n 0] civil_from_days_less_iff [of 2932896 n] assms by (simp_all add: top civil_from_days_0)
  then show "1970 \<le> y" "y \<le> 9999" by (auto simp: civil_less_def)
qed

lemma date_text_parts:
  assumes "civil_from_days n = (y, m, d)" and "0 \<le> n" and "n \<le> 2932896"
  shows "0 \<le> y" "y < 10 ^ 4" "0 \<le> m" "m < 10 ^ 2" "0 \<le> d" "d < 10 ^ 2"
proof -
  have "1 \<le> m" "m \<le> 12" "1 \<le> d" "d \<le> month_days y m" using civil_from_days_ok [of n] assms(1) by (simp_all add: civil_ok_def)
  moreover have "month_days y m \<le> 31" by (simp add: month_days_def)
  ultimately show "0 \<le> y" "y < 10 ^ 4" "0 \<le> m" "m < 10 ^ 2" "0 \<le> d" "d < 10 ^ 2"
    using civil_year_bounds [OF assms] by simp_all
qed

lemma two_chars: "length xs = 2 \<Longrightarrow> \<exists>a b. xs = [a, b]"
  by (auto simp: length_Suc_conv numeral_2_eq_2)

lemma four_chars: "length xs = 4 \<Longrightarrow> \<exists>a b c d. xs = [a, b, c, d]"
  by (auto simp: length_Suc_conv eval_nat_numeral)

text \<open>The text of a moment before the year 10000: nineteen characters of fixed form, then the rest.\<close>

lemma moment_text:
  assumes "civil_from_days n = c" and "0 \<le> n" and "n \<le> 2932896" and "0 \<le> s" and "s < 86400"
  obtains y1 y2 y3 y4 m1 m2 d1 d2 h1 h2 i1 i2 s1 s2 where
    "date_text c @ ''T'' @ clock_text s =
      [y1, y2, y3, y4, CHR ''-'', m1, m2, CHR ''-'', d1, d2, CHR ''T'', h1, h2, CHR '':'', i1, i2, CHR '':'', s1, s2]"
    "list_all is_digit [y1, y2, y3, y4, m1, m2, d1, d2, h1, h2, i1, i2, s1, s2]"
proof -
  obtain y m d where c: "c = (y, m, d)" by (cases c)
  note p = date_text_parts [OF assms(1) [unfolded c] assms(2,3)]
  note k = clock_text_parts [OF assms(4,5)]
  from pad_int_digits [OF p(1,2)] four_chars obtain a b e f where y: "pad_int 4 y = [a, b, e, f]" "list_all is_digit [a, b, e, f]"
    by (metis zero_less_numeral)
  from pad_int_digits [OF p(3,4)] two_chars obtain m1 m2 where m: "pad_int 2 m = [m1, m2]" "list_all is_digit [m1, m2]"
    by (metis zero_less_numeral)
  from pad_int_digits [OF p(5,6)] two_chars obtain d1 d2 where d: "pad_int 2 d = [d1, d2]" "list_all is_digit [d1, d2]"
    by (metis zero_less_numeral)
  from pad_int_digits [OF k(3,2)] two_chars obtain h1 h2 where
    h: "pad_int 2 (s div 3600) = [h1, h2]" "list_all is_digit [h1, h2]" by (metis zero_less_numeral)
  from pad_int_digits [OF k(5,4)] two_chars obtain i1 i2 where
    i: "pad_int 2 (s mod 3600 div 60) = [i1, i2]" "list_all is_digit [i1, i2]" by (metis zero_less_numeral)
  from pad_int_digits [OF k(7,6)] two_chars obtain s1 s2 where
    s: "pad_int 2 (s mod 60) = [s1, s2]" "list_all is_digit [s1, s2]" by (metis zero_less_numeral)
  show thesis by (rule that [of a b e f m1 m2 d1 d2 h1 h2 i1 i2 s1 s2])
      (use c k(1) y m d h i s in \<open>simp_all add: date_text_def\<close>)
qed

end
