(* ===== verification/Identity_Pins.thy ===== *)
theory Identity_Pins
  imports Account_Rename Padding Clock "HOL-Library.Product_Lexorder"
begin

text \<open>
  Identity pins (\<open>kutup-crypto/src/identity_pins.rs\<close>): the accounts an account has met, by their permanent
  id, the authority each was trusted at and the addresses it proved, what may change them, and the sealed
  list the server stores.  Fields a later version added are kept as an association of names to JSON texts;
  the JSON of the whole list is a parameter.
\<close>

section \<open>Constants\<close>

definition pins_key_salt :: bytes where "pins_key_salt = domain_bytes ''kutup/identity-pins/v1''"
definition pins_key_info :: bytes where "pins_key_info = domain_bytes ''kutup/identity-pins/list-key/v1''"
definition pins_magic :: bytes where "pins_magic = bytes_of_string ''KUTIP3'' @ [0, 0]"
definition pins_aad_domain :: bytes where "pins_aad_domain = domain_bytes ''kutup/identity-pins/v3''"
definition pins_suite :: nat where "pins_suite = 3"
definition pins_nonce_len :: nat where "pins_nonce_len = 24"
definition pins_revision_len :: nat where "pins_revision_len = 8"
definition pins_header_len :: nat where "pins_header_len = 8 + 2 + pins_revision_len + pins_nonce_len"
definition pins_tag_len :: nat where "pins_tag_len = 16"
definition pins_padding :: length_policy where "pins_padding = Bucket 256"
definition max_pins :: nat where "max_pins = 10000"
definition max_replaced :: nat where "max_replaced = 10"
definition max_addresses :: nat where "max_addresses = 32"
definition max_list_bytes :: nat where "max_list_bytes = 4 * 1024 * 1024"
definition max_group_pins :: nat where "max_group_pins = 10000"
definition reader_version :: u32 where "reader_version = 1"

definition pins_invalid :: "string \<Rightarrow> crypto_error" where
  "pins_invalid message = InvalidInput (''identity pins: '' @ message)"

section \<open>Pins\<close>

datatype pin_state = PinSeen | PinVerified

type_synonym unknown_fields = "(string \<times> string) list"

record address_label =
  al_address :: string
  al_seen_at :: string
  al_unknown :: unknown_fields

record rename_anchor =
  rn_sequence :: u64
  rn_digest :: string
  rn_unknown :: unknown_fields

record identity_pin =
  ip_account :: account_ref
  ip_authority :: string
  ip_state :: pin_state
  ip_since :: string
  ip_replaced :: "string list"
  ip_addresses :: "address_label list"
  ip_renames :: "rename_anchor option"
  ip_unknown :: unknown_fields

record group_pin =
  gp_server :: string
  gp_group_id :: string
  gp_signer :: string
  gp_since :: string
  gp_anchor :: rename_anchor
  gp_replaced :: "string list"
  gp_unknown :: unknown_fields

record identity_pins =
  pl_pins :: "identity_pin list"
  pl_groups :: "group_pin list"
  pl_min_reader :: "u32 option"
  pl_unknown :: unknown_fields

definition authority_bytes :: "'a ext_scheme \<Rightarrow> string \<Rightarrow> crypto_error + bytes" where
  "authority_bytes x value =
     bindr (ok_or (std_decode x value) Base64) (\<lambda>bs.
     bindr (require (length bs = 32) (InvalidLength 32 (length bs))) (\<lambda>_.
     bindr (require (std_encode x bs = value) (pins_invalid ''authority key is not canonical base64'')) (\<lambda>_.
     Inr bs)))"

text \<open>\<open>same\<close>: two addresses are one name once folded.\<close>

definition same_address :: "string \<Rightarrow> string \<Rightarrow> bool" where
  "same_address a b \<longleftrightarrow> a = b \<or>
     (case (fold_address a, fold_address b) of (Some a, Some b) \<Rightarrow> a = b | _ \<Rightarrow> False)"

definition pin_authority :: "'a ext_scheme \<Rightarrow> identity_pin \<Rightarrow> crypto_error + bytes" where
  "pin_authority x p = authority_bytes x (ip_authority p)"

definition pin_incarnation :: "'a ext_scheme \<Rightarrow> identity_pin \<Rightarrow> crypto_error + string" where
  "pin_incarnation x p = bindr (pin_authority x p) (\<lambda>key. Inr (incarnation_of x key))"

definition pin_address :: "identity_pin \<Rightarrow> string option" where
  "pin_address p = (if ip_addresses p = [] then None else Some (al_address (last (ip_addresses p))))"

definition label_of :: "identity_pin \<Rightarrow> string \<Rightarrow> address_label option" where
  "label_of p address = List.find (\<lambda>l. same_address (al_address l) address) (ip_addresses p)"

definition pin_had :: "identity_pin \<Rightarrow> string \<Rightarrow> bool" where
  "pin_had p address \<longleftrightarrow> label_of p address \<noteq> None"

definition pin_holds :: "identity_pin \<Rightarrow> string \<Rightarrow> bool" where
  "pin_holds p address \<longleftrightarrow> (case pin_address p of None \<Rightarrow> False | Some current \<Rightarrow> same_address current address)"

text \<open>\<open>YYYY-MM-DDTHH:MM:SSZ\<close>, optionally with fractional seconds.\<close>

definition rfc3339_utc :: "string \<Rightarrow> bool" where
  "rfc3339_utc value =
     (let n = length value;
          digits = (\<lambda>a b. list_all (\<lambda>i. i < n \<and> is_digit (value ! i)) [a..<b])
      in n \<ge> 20 \<and> n \<le> 30 \<and> digits 0 4 \<and> value ! 4 = CHR ''-'' \<and> digits 5 7 \<and> value ! 7 = CHR ''-'' \<and>
         digits 8 10 \<and> value ! 10 = CHR ''T'' \<and> digits 11 13 \<and> value ! 13 = CHR '':'' \<and> digits 14 16 \<and>
         value ! 16 = CHR '':'' \<and> digits 17 19 \<and> value ! (n - 1) = CHR ''Z'' \<and>
         (n = 20 \<or> value ! 19 = CHR ''.'' \<and> digits 20 (n - 1)))"

text \<open>\<open>iter().all(|v| p(v) && set.insert(k(v)))\<close>: every element passes and no key comes twice.\<close>

definition all_once :: "('a \<Rightarrow> bool) \<Rightarrow> ('a \<Rightarrow> 'k) \<Rightarrow> 'a list \<Rightarrow> bool" where
  "all_once p k xs \<longleftrightarrow> list_all p xs \<and> distinct (map k xs)"

definition validate_pin :: "'a ext_scheme \<Rightarrow> identity_pin \<Rightarrow> crypto_error + unit" where
  "validate_pin x p =
     bindr (pin_authority x p) (\<lambda>_.
     bindr (require (rfc3339_utc (ip_since p)) (pins_invalid ''since is not an RFC 3339 UTC time'')) (\<lambda>_.
     bindr (pin_incarnation x p) (\<lambda>incarnation.
     bindr (require (\<not> (length (ip_replaced p) > max_replaced \<or>
         \<not> all_once (\<lambda>i. is_lower_hex_32 i \<and> i \<noteq> incarnation) (\<lambda>i. i) (ip_replaced p)))
       (pins_invalid ''replaced identities are invalid'')) (\<lambda>_.
     bindr (require (\<not> (length (ip_addresses p) > max_addresses \<or>
         \<not> all_once (\<lambda>l. canonical_account (al_address l) = Inr (al_address l) \<and> rfc3339_utc (al_seen_at l) \<and>
             fold_address (al_address l) \<noteq> None) (\<lambda>l. fold_address (al_address l)) (ip_addresses p)))
       (pins_invalid ''addresses are invalid'')) (\<lambda>_.
     case ip_renames p of None \<Rightarrow> Inr ()
     | Some anchor \<Rightarrow>
         require (\<not> (\<not> (1 \<le> rn_sequence anchor \<and> rn_sequence anchor \<le> word_of_nat max_chain) \<or>
             \<not> is_lower_hex_32 (rn_digest anchor))) (pins_invalid ''the rename anchor is invalid''))))))"

definition fresh_pin :: "account_ref \<Rightarrow> string \<Rightarrow> pin_state \<Rightarrow> string \<Rightarrow> identity_pin" where
  "fresh_pin account authority state since =
     \<lparr>ip_account = account, ip_authority = authority, ip_state = state, ip_since = since, ip_replaced = [],
      ip_addresses = [], ip_renames = None, ip_unknown = []\<rparr>"

definition pin_label :: "identity_pin \<Rightarrow> string \<Rightarrow> string \<Rightarrow> identity_pin" where
  "pin_label p address seen_at =
     p\<lparr>ip_addresses := [\<lparr>al_address = address, al_seen_at = seen_at, al_unknown = []\<rparr>]\<rparr>"

definition group_key :: "group_pin \<Rightarrow> string \<times> string" where
  "group_key g = (gp_server g, gp_group_id g)"

definition validate_group_pin :: "'a ext_scheme \<Rightarrow> group_pin \<Rightarrow> crypto_error + unit" where
  "validate_group_pin x g =
     bindr (require (\<not> (\<not> valid_server (gp_server g) \<or> \<not> valid_account_id (gp_group_id g)))
       (pins_invalid ''a group pin names no canonical mailbox'')) (\<lambda>_.
     bindr (authority_bytes x (gp_signer g)) (\<lambda>_.
     bindr (require (rfc3339_utc (gp_since g)) (pins_invalid ''since is not an RFC 3339 UTC time'')) (\<lambda>_.
     bindr (require (\<not> (rn_sequence (gp_anchor g) = 0 \<or> \<not> is_lower_hex_32 (rn_digest (gp_anchor g))))
       (pins_invalid ''the group anchor is invalid'')) (\<lambda>_.
     require (\<not> (length (gp_replaced g) > max_replaced \<or>
         \<not> all_once (\<lambda>key. is_ok (authority_bytes x key) \<and> key \<noteq> gp_signer g) (\<lambda>key. key) (gp_replaced g)))
       (pins_invalid ''replaced group signers are invalid'')))))"

definition validate_pins :: "'a ext_scheme \<Rightarrow> identity_pins \<Rightarrow> crypto_error + unit" where
  "validate_pins x l =
     bindr (require (\<not> (length (pl_pins l) > max_pins \<or> length (pl_groups l) > max_group_pins))
       (pins_invalid ''too many pins'')) (\<lambda>_.
     bindr (for_each (validate_group_pin x) (pl_groups l)) (\<lambda>_.
     bindr (require (windows2 (\<lambda>a b. group_key a < group_key b) (pl_groups l))
       (pins_invalid ''group pins must be sorted by server and group id, one each'')) (\<lambda>_.
     bindr (case pl_min_reader l of None \<Rightarrow> Inr ()
       | Some version \<Rightarrow>
           if version > reader_version
           then Inl (pins_invalid (''this identity list needs a newer app (reader version '' @
                  decimal (unat version) @ '')''))
           else Inl (pins_invalid ''minReader is not above 1'')) (\<lambda>_.
     bindr (for_each (validate_pin x) (pl_pins l)) (\<lambda>_.
     bindr (require (windows2 (\<lambda>a b. ip_account a < ip_account b) (pl_pins l))
       (pins_invalid ''pins must be sorted by account, one each'')) (\<lambda>_.
     require (distinct (map ip_authority (pl_pins l)))
       (pins_invalid ''an authority is pinned for two accounts'')))))))"

definition group_get :: "identity_pins \<Rightarrow> string \<times> string \<Rightarrow> group_pin option" where
  "group_get l k = (case bsearch group_key k (pl_groups l) of Inl _ \<Rightarrow> None | Inr i \<Rightarrow> Some (pl_groups l ! i))"

definition pin_position :: "identity_pins \<Rightarrow> account_ref \<Rightarrow> nat + nat" where
  "pin_position l account = bsearch ip_account account (pl_pins l)"

definition pin_get :: "identity_pins \<Rightarrow> account_ref \<Rightarrow> identity_pin option" where
  "pin_get l account = (case pin_position l account of Inl _ \<Rightarrow> None | Inr i \<Rightarrow> Some (pl_pins l ! i))"

text \<open>The stable sort by who holds the address now, then by when it was seen, both descending.\<close>

definition pins_at :: "identity_pins \<Rightarrow> string \<Rightarrow> identity_pin list" where
  "pins_at l address =
     (let found = List.map_filter (\<lambda>p. map_option (\<lambda>label. (p, pin_holds p address, al_seen_at label))
            (label_of p address)) (pl_pins l)
      in map fst (rev (sort_key snd (rev found))))"

section \<open>Recording what was learned\<close>

datatype pin_update = FirstSeen | AcceptedNow | VerifiedNow

datatype recorded =
    Updated
  | Unchanged
  | AddressHadOthers "identity_pin list"
  | AddressHeldByOthers "identity_pin list"
  | AuthorityElsewhere identity_pin

definition other_holders :: "identity_pins \<Rightarrow> account_ref \<Rightarrow> string \<Rightarrow> identity_pin list" where
  "other_holders l account address =
     filter (\<lambda>other. ip_account other \<noteq> account \<and> pin_holds other address) (pins_at l address)"

text \<open>The list after the last step of an operation, unless it does not validate: then the caller's stays.\<close>

definition finish_pins :: "'a ext_scheme \<Rightarrow> identity_pins \<Rightarrow> identity_pins \<Rightarrow> crypto_error + recorded \<times> identity_pins" where
  "finish_pins x l before =
     bindr (validate_pins x l) (\<lambda>_. Inr (if l = before then Unchanged else Updated, l))"

definition keep_last :: "nat \<Rightarrow> 'b list \<Rightarrow> 'b list" where
  "keep_last n xs = drop (length xs - n) xs"

definition replace_authority ::
  "identity_pin \<Rightarrow> string \<Rightarrow> string \<Rightarrow> string \<Rightarrow> pin_state \<Rightarrow> string \<Rightarrow> identity_pin" where
  "replace_authority p previous incoming authority state since =
     p\<lparr>ip_replaced := keep_last max_replaced (filter (\<lambda>i. i \<noteq> incoming) (ip_replaced p) @ [previous]),
       ip_authority := authority, ip_state := state, ip_since := since, ip_renames := None\<rparr>"

fun update_state :: "pin_update \<Rightarrow> pin_state" where
  "update_state VerifiedNow = PinVerified"
| "update_state FirstSeen = PinSeen"
| "update_state AcceptedNow = PinSeen"

definition update_known ::
  "'a ext_scheme \<Rightarrow> identity_pin \<Rightarrow> identity_pin \<Rightarrow> string \<Rightarrow> pin_update \<Rightarrow> string \<Rightarrow> crypto_error + identity_pin" where
  "update_known x p candidate authority upd since =
     (if ip_authority p = authority
      then Inr (if upd = VerifiedNow \<and> ip_state p \<noteq> PinVerified
             then p\<lparr>ip_state := PinVerified, ip_since := since\<rparr> else p)
      else if upd \<noteq> FirstSeen
      then bindr (pin_incarnation x p) (\<lambda>previous.
           bindr (pin_incarnation x candidate) (\<lambda>incoming.
           Inr (replace_authority p previous incoming authority (update_state upd) since)))
      else Inr p)"

definition record_pin ::
  "'a ext_scheme \<Rightarrow> identity_pins \<Rightarrow> account_ref \<Rightarrow> string option \<Rightarrow> string \<Rightarrow> pin_update \<Rightarrow> string \<Rightarrow>
   crypto_error + recorded \<times> identity_pins" where
  "record_pin x l account address authority upd since =
     (let fresh = fresh_pin account authority PinSeen since;
          candidate = (case address of None \<Rightarrow> fresh | Some a \<Rightarrow> pin_label fresh a since)
      in bindr (validate_pin x candidate) (\<lambda>_.
         case List.find (\<lambda>p. ip_authority p = authority \<and> ip_account p \<noteq> account) (pl_pins l) of
           Some other \<Rightarrow> Inr (AuthorityElsewhere other, l)
         | None \<Rightarrow>
           (case pin_position l account of
              Inl at \<Rightarrow>
                (let others = (case address of Some a \<Rightarrow> if upd = FirstSeen then pins_at l a else [] | None \<Rightarrow> [])
                 in if others \<noteq> [] then Inr (AddressHadOthers others, l)
                    else finish_pins x (l\<lparr>pl_pins := insert_at at (candidate\<lparr>ip_state := update_state upd\<rparr>)
                           (pl_pins l)\<rparr>) l)
            | Inr i \<Rightarrow>
                (let others = (if upd \<noteq> FirstSeen then (case address of Some a \<Rightarrow> other_holders l account a | None \<Rightarrow> [])
                       else [])
                 in if others \<noteq> [] then Inr (AddressHeldByOthers others, l)
                    else bindr (update_known x (pl_pins l ! i) candidate authority upd since) (\<lambda>p.
                         finish_pins x (l\<lparr>pl_pins := (pl_pins l)[i := p]\<rparr>) l)))))"

section \<open>What the list says\<close>

datatype authority_check = AuthoritySame | AuthorityChanged | AuthorityEarlier | AuthorityUnknown

datatype pin_match =
    MatchPinned identity_pin authority_check bool "identity_pin list"
  | MatchSomeoneElse "identity_pin list"
  | MatchNew

definition check_authority :: "'a ext_scheme \<Rightarrow> identity_pin \<Rightarrow> string option \<Rightarrow> authority_check" where
  "check_authority x p published =
     (case published of None \<Rightarrow> AuthorityUnknown
      | Some key \<Rightarrow>
          if key = ip_authority p then AuthoritySame
          else if (case authority_bytes x key of Inl _ \<Rightarrow> False
                   | Inr bs \<Rightarrow> incarnation_of x bs \<in> set (ip_replaced p))
          then AuthorityEarlier else AuthorityChanged)"

definition lookup_pin ::
  "'a ext_scheme \<Rightarrow> identity_pins \<Rightarrow> account_ref \<Rightarrow> string option \<Rightarrow> string option \<Rightarrow> pin_match" where
  "lookup_pin x l account address published =
     (case pin_get l account of
        None \<Rightarrow>
          (let others = (case address of None \<Rightarrow> [] | Some a \<Rightarrow> pins_at l a)
           in if others = [] then MatchNew else MatchSomeoneElse others)
      | Some p \<Rightarrow>
          MatchPinned p (check_authority x p published)
            (case address of None \<Rightarrow> False | Some a \<Rightarrow> pin_had p a)
            (case address of None \<Rightarrow> [] | Some a \<Rightarrow> other_holders l account a))"

section \<open>Renames\<close>

record rename_applied =
  ra_from_address :: "string option"
  ra_to_address :: string
  ra_changed :: bool

fun relabel ::
  "string option \<Rightarrow> string \<Rightarrow> string \<Rightarrow> address_label list \<Rightarrow> address_label list \<Rightarrow> string list \<Rightarrow>
   address_label list" where
  "relabel from_address current since known labels [] = labels"
| "relabel from_address current since known labels (a # as) =
     (let previous = List.find (\<lambda>l. same_address (al_address l) a) known;
          label = \<lparr>al_address = a,
            al_seen_at = (case previous of
                Some l \<Rightarrow> if a \<noteq> current \<or> from_address = Some a then al_seen_at l else since
              | None \<Rightarrow> since),
            al_unknown = (case previous of Some l \<Rightarrow> al_unknown l | None \<Rightarrow> [])\<rparr>
      in relabel from_address current since known
           (filter (\<lambda>l. \<not> same_address (al_address l) a) labels @ [label]) as)"

definition renamed_pin :: "'a ext_scheme \<Rightarrow> identity_pin \<Rightarrow> rename_chain_view \<Rightarrow> string \<Rightarrow> identity_pin" where
  "renamed_pin x p view since =
     (let known = ip_addresses p;
          kept = filter (\<lambda>l. \<not> any (\<lambda>a. same_address a (al_address l)) (rv_addresses view)) known;
          labels = relabel (pin_address p) (rv_current view) since known kept (rv_addresses view)
      in p\<lparr>ip_addresses := keep_last max_addresses labels,
           ip_renames := Some \<lparr>rn_sequence = rv_sequence view, rn_digest = hex_encode x (last (rv_digests view)),
             rn_unknown = (case ip_renames p of None \<Rightarrow> []
               | Some anchor \<Rightarrow> if rn_sequence anchor = rv_sequence view then rn_unknown anchor else [])\<rparr>\<rparr>)"

text \<open>Whether a chain's digests hold the anchored one at its sequence.\<close>

definition holds_anchor :: "'a ext_scheme \<Rightarrow> rename_anchor \<Rightarrow> bytes list \<Rightarrow> bool" where
  "holds_anchor x anchor digests \<longleftrightarrow> rn_sequence anchor \<noteq> 0 \<and> unat (rn_sequence anchor - 1) < length digests \<and>
     hex_encode x (digests ! unat (rn_sequence anchor - 1)) = rn_digest anchor"

definition apply_rename ::
  "'a ext_scheme \<Rightarrow> identity_pins \<Rightarrow> account_ref \<Rightarrow> account_rename list \<Rightarrow> string \<Rightarrow>
   crypto_error + rename_applied \<times> identity_pins" where
  "apply_rename x l account chain since =
     bindr (require (rfc3339_utc since) (pins_invalid ''since is not an RFC 3339 UTC time'')) (\<lambda>_.
     bindr (map_err (\<lambda>_. pins_invalid ''no pin for this account'') (pin_position l account)) (\<lambda>i.
     let p = pl_pins l ! i
     in bindr (pin_authority x p) (\<lambda>authority.
        bindr (verify_chain x authority chain) (\<lambda>view.
        bindr (case ip_renames p of None \<Rightarrow> Inr ()
          | Some anchor \<Rightarrow> require (holds_anchor x anchor (rv_digests view))
              (pins_invalid ''the rename chain does not extend the one pinned'')) (\<lambda>_.
        let after = l\<lparr>pl_pins := (pl_pins l)[i := renamed_pin x p view since]\<rparr>
        in bindr (validate_pins x after) (\<lambda>_.
           Inr (\<lparr>ra_from_address = pin_address p, ra_to_address = rv_current view, ra_changed = (after \<noteq> l)\<rparr>,
             after)))))))"

section \<open>Shared mailboxes\<close>

text \<open>A verified key-list chain: its signers in order and one digest per list.\<close>

record group_chain =
  gc_signers :: "bytes list"
  gc_digests :: "bytes list"

definition check_chain :: "group_chain \<Rightarrow> crypto_error + unit" where
  "check_chain c = require (\<not> (gc_signers c = [] \<or> gc_digests c = [])) (pins_invalid ''a group key chain is empty'')"

definition chain_signer :: "'a ext_scheme \<Rightarrow> group_chain \<Rightarrow> string" where
  "chain_signer x c = std_encode x (last (gc_signers c))"

definition chain_anchor :: "'a ext_scheme \<Rightarrow> group_chain \<Rightarrow> rename_anchor" where
  "chain_anchor x c = \<lparr>rn_sequence = word_of_nat (length (gc_digests c)),
     rn_digest = hex_encode x (last (gc_digests c)), rn_unknown = []\<rparr>"

definition continued_by :: "'a ext_scheme \<Rightarrow> group_pin \<Rightarrow> group_chain \<Rightarrow> bool" where
  "continued_by x g c \<longleftrightarrow> (case std_decode x (gp_signer g) of None \<Rightarrow> False
     | Some pinned \<Rightarrow> any (\<lambda>s. s = pinned) (gc_signers c)) \<and> holds_anchor x (gp_anchor g) (gc_digests c)"

datatype group_match = GroupNew | GroupSame group_pin | GroupChanged group_pin

definition lookup_group ::
  "'a ext_scheme \<Rightarrow> identity_pins \<Rightarrow> string \<times> string \<Rightarrow> group_chain \<Rightarrow> crypto_error + group_match" where
  "lookup_group x l k chain =
     bindr (check_chain chain) (\<lambda>_.
     Inr (case group_get l k of None \<Rightarrow> GroupNew
       | Some g \<Rightarrow> if continued_by x g chain then GroupSame g else GroupChanged g))"

datatype group_update = GroupFirstSeen | GroupAccepted

definition update_group ::
  "'a ext_scheme \<Rightarrow> group_pin \<Rightarrow> group_pin \<Rightarrow> group_chain \<Rightarrow> group_update \<Rightarrow> group_pin" where
  "update_group x g fresh chain upd =
     (if continued_by x g chain
      then (let g' = g\<lparr>gp_signer := gp_signer fresh\<rparr>
            in if rn_sequence (gp_anchor g) \<noteq> rn_sequence (gp_anchor fresh)
               then g'\<lparr>gp_anchor := gp_anchor fresh\<rparr> else g')
      else if upd = GroupAccepted
      then g\<lparr>gp_signer := gp_signer fresh,
          gp_replaced := keep_last max_replaced
            (filter (\<lambda>key. key \<noteq> gp_signer g \<and> key \<noteq> gp_signer fresh) (gp_replaced g) @ [gp_signer g]),
          gp_anchor := gp_anchor fresh, gp_since := gp_since fresh\<rparr>
      else g)"

definition record_group ::
  "'a ext_scheme \<Rightarrow> identity_pins \<Rightarrow> string \<times> string \<Rightarrow> group_chain \<Rightarrow> group_update \<Rightarrow> string \<Rightarrow>
   crypto_error + bool \<times> identity_pins" where
  "record_group x l k chain upd since =
     bindr (check_chain chain) (\<lambda>_.
     let fresh = \<lparr>gp_server = fst k, gp_group_id = snd k, gp_signer = chain_signer x chain, gp_since = since,
           gp_anchor = chain_anchor x chain, gp_replaced = [], gp_unknown = []\<rparr>
     in bindr (validate_group_pin x fresh) (\<lambda>_.
        let after = (case bsearch group_key k (pl_groups l) of
              Inl at \<Rightarrow> l\<lparr>pl_groups := insert_at at fresh (pl_groups l)\<rparr>
            | Inr i \<Rightarrow> l\<lparr>pl_groups := (pl_groups l)[i := update_group x (pl_groups l ! i) fresh chain upd]\<rparr>)
        in bindr (validate_pins x after) (\<lambda>_. Inr (after \<noteq> l, after))))"

section \<open>The sealed list\<close>

record pins_ext = ext +
  pins_to_json :: "identity_pins \<Rightarrow> bytes option"
  pins_from_json :: "bytes \<Rightarrow> identity_pins option"

definition encode_pins :: "'a pins_ext_scheme \<Rightarrow> identity_pins \<Rightarrow> crypto_error + bytes" where
  "encode_pins x l =
     bindr (validate_pins x l) (\<lambda>_.
     bindr (ok_or (pins_to_json x l) (pins_invalid ''encode'')) (\<lambda>bs.
     bindr (require (\<not> length bs > max_list_bytes) (pins_invalid ''the list is too large'')) (\<lambda>_. Inr bs)))"

definition decode_pins :: "'a pins_ext_scheme \<Rightarrow> bytes \<Rightarrow> crypto_error + identity_pins" where
  "decode_pins x bs =
     bindr (require (\<not> length bs > max_list_bytes) (pins_invalid ''the list is too large'')) (\<lambda>_.
     bindr (ok_or (pins_from_json x bs) (pins_invalid ''decode'')) (\<lambda>l.
     bindr (encode_pins x l) (\<lambda>encoded.
     bindr (require (encoded = bs) (pins_invalid ''the list is not canonical'')) (\<lambda>_. Inr l))))"

definition pins_key :: "'a ext_scheme \<Rightarrow> bytes \<Rightarrow> bytes" where
  "pins_key x master_key = hkdf_sha256 x pins_key_salt master_key pins_key_info 32"

definition pins_aad :: "string \<Rightarrow> u64 \<Rightarrow> crypto_error + bytes" where
  "pins_aad binding revision =
     bindr (map_err (\<lambda>_. pins_invalid ''owner binding is invalid'') (binding_check binding)) (\<lambda>binding.
     Inr (pins_magic @ be16 pins_suite @ pins_aad_domain @ be16 (length binding mod 2 ^ 16) @
       bytes_of_string binding @ be64 revision))"

definition pins_seal ::
  "'a pins_ext_scheme \<Rightarrow> bytes \<Rightarrow> bytes \<Rightarrow> string \<Rightarrow> u64 \<Rightarrow> identity_pins \<Rightarrow> crypto_error + bytes" where
  "pins_seal x nonce key owner revision l =
     bindr (require (revision \<noteq> 0) (pins_invalid ''revisions start at 1'')) (\<lambda>_.
     bindr (encode_pins x l) (\<lambda>bs.
     bindr (pad pins_padding bs) (\<lambda>plain.
     bindr (aead_new key) (\<lambda>key.
     bindr (pins_aad owner revision) (\<lambda>aad.
     bindr (map_err (\<lambda>_. Backend ''identity pins seal'') (seal_with_nonce x key nonce aad plain)) (\<lambda>ciphertext.
     Inr (pins_magic @ be16 pins_suite @ be64 revision @ nonce @ ciphertext)))))))"

definition max_sealed_pins_bytes :: nat where
  "max_sealed_pins_bytes = pins_header_len + max_list_bytes + 256 + pins_tag_len"

definition pins_inspect :: "bytes \<Rightarrow> crypto_error + u64" where
  "pins_inspect sealed =
     bindr (require (\<not> (length sealed \<le> pins_header_len + pins_tag_len \<or> length sealed > max_sealed_pins_bytes \<or>
         \<not> allows_padded_len pins_padding (length sealed - pins_header_len - pins_tag_len)))
       (pins_invalid ''size is invalid'')) (\<lambda>_.
     bindr (require (\<not> (take 8 sealed \<noteq> pins_magic \<or> take 2 (drop 8 sealed) \<noteq> be16 pins_suite))
       (pins_invalid ''not an identity pin list'')) (\<lambda>_.
     let revision = of_be64 (take 8 (drop 10 sealed))
     in bindr (require (revision \<noteq> 0) (pins_invalid ''revisions start at 1'')) (\<lambda>_. Inr revision)))"

definition pins_open ::
  "'a pins_ext_scheme \<Rightarrow> bytes \<Rightarrow> string \<Rightarrow> bytes \<Rightarrow> crypto_error + identity_pins \<times> u64" where
  "pins_open x key owner sealed =
     bindr (pins_inspect sealed) (\<lambda>revision.
     bindr (aead_new key) (\<lambda>key.
     bindr (pins_aad owner revision) (\<lambda>aad.
     bindr (map_err (\<lambda>_. AuthFailed) (open_with_nonce x key (take pins_nonce_len (drop 18 sealed)) aad
       (drop pins_header_len sealed))) (\<lambda>plain.
     bindr (unpad pins_padding plain) (\<lambda>plain.
     bindr (decode_pins x plain) (\<lambda>l. Inr (l, revision)))))))"

end
