(* ===== verification/Identity_Pins_Facts.thy ===== *)
theory Identity_Pins_Facts
  imports Identity_Pins
begin

text \<open>
  Facts about the pin list: its invariant, what each operation changes, renames along a verified chain, and
  the sealed list.
\<close>

section \<open>The invariant\<close>

lemma validate_pins_Inr:
  "validate_pins x l = Inr u \<longleftrightarrow> length (pl_pins l) \<le> max_pins \<and> length (pl_groups l) \<le> max_group_pins \<and>
     (\<forall>g\<in>set (pl_groups l). validate_group_pin x g = Inr ()) \<and> sorted_by group_key (pl_groups l) \<and>
     pl_min_reader l = None \<and> (\<forall>p\<in>set (pl_pins l). validate_pin x p = Inr ()) \<and>
     sorted_by ip_account (pl_pins l) \<and> distinct (map ip_authority (pl_pins l))"
  by (auto simp: validate_pins_def windows2_sorted split: option.splits)

interpretation pins: keyed_table pl_pins ip_account pin_get "\<lambda>l. sorted_by ip_account (pl_pins l)"
  by unfold_locales (simp_all add: pin_get_def pin_position_def)

interpretation group_pins: keyed_table pl_groups group_key group_get "\<lambda>l. sorted_by group_key (pl_groups l)"
  by unfold_locales (simp_all add: group_get_def)

lemma pin_get_insert:
  assumes "sorted_by ip_account (pl_pins l)" "pin_position l (ip_account p) = Inl i"
  shows "pin_get (l\<lparr>pl_pins := insert_at i p (pl_pins l)\<rparr>) a = (if a = ip_account p then Some p else pin_get l a)"
proof (rule pins.lookup_put [OF assms(1)])
  show "sorted_by ip_account (pl_pins (l\<lparr>pl_pins := insert_at i p (pl_pins l)\<rparr>))"
    using assms by (simp add: pin_position_def sorted_by_insert_at)
  have "pin_get l (ip_account p) = None" using assms(2) by (simp add: pin_get_def)
  then show "v \<in> set (pl_pins (l\<lparr>pl_pins := insert_at i p (pl_pins l)\<rparr>)) \<longleftrightarrow>
      v = p \<or> (v \<in> set (pl_pins l) \<and> ip_account v \<noteq> ip_account p)" for v
    using pins.lookup_none_iff [OF assms(1), of "ip_account p"] by (auto simp: image_iff)
qed

lemma pin_position_InrD:
  "pin_position l a = Inr i \<Longrightarrow> i < length (pl_pins l) \<and> ip_account (pl_pins l ! i) = a \<and> pin_get l a = Some (pl_pins l ! i)"
  by (auto simp: pin_get_def pin_position_def dest!: bsearch_Inr)

lemma pin_get_update:
  assumes "sorted_by ip_account (pl_pins l)" "pin_position l a = Inr i" "ip_account q = a"
  shows "pin_get (l\<lparr>pl_pins := (pl_pins l)[i := q]\<rparr>) b = (if b = a then Some q else pin_get l b)"
proof -
  note i = pin_position_InrD [OF assms(2)]
  have "pin_get (l\<lparr>pl_pins := (pl_pins l)[i := q]\<rparr>) b = (if b = ip_account q then Some q else pin_get l b)"
    by (rule pins.lookup_put [OF assms(1)])
      (use assms i in \<open>simp_all add: sorted_by_update set_update_by\<close>)
  then show ?thesis by (simp add: assms(3))
qed

section \<open>Recording\<close>

lemma finish_pins_Inr:
  "finish_pins x l before = Inr (r, l') \<longleftrightarrow>
     validate_pins x l = Inr () \<and> l' = l \<and> r = (if l = before then Unchanged else Updated)"
  by (auto simp: finish_pins_def)

lemma update_known_account:
  "update_known x p c au upd since = Inr q \<Longrightarrow>
     ip_account q = ip_account p \<and> ip_addresses q = ip_addresses p \<and> ip_unknown q = ip_unknown p"
  by (auto simp: update_known_def replace_authority_def split: if_splits)

text \<open>What one record did: nothing, a new pin, or a change of the account's own pin.\<close>

lemma record_pin_cases:
  assumes ok: "validate_pins x l = Inr ()" and rec: "record_pin x l a address au upd since = Inr (r, l')"
  obtains (same) "l' = l"
  | (new) p where "pin_get l a = None" "pin_get l' a = Some p" "ip_account p = a" "ip_authority p = au"
      "ip_state p = update_state upd" "ip_replaced p = []" "map al_address (ip_addresses p) = (case address of None \<Rightarrow> [] | Some b \<Rightarrow> [b])"
      "validate_pins x l' = Inr ()" "pl_groups l' = pl_groups l" "\<And>b. b \<noteq> a \<Longrightarrow> pin_get l' b = pin_get l b"
      "\<And>b. upd = FirstSeen \<Longrightarrow> address = Some b \<Longrightarrow> pins_at l b = []" "r = Updated"
  | (known) p q c where "pin_get l a = Some p" "pin_get l' a = Some q" "update_known x p c au upd since = Inr q"
      "ip_authority c = au" "validate_pins x l' = Inr ()" "pl_groups l' = pl_groups l"
      "\<And>b. b \<noteq> a \<Longrightarrow> pin_get l' b = pin_get l b"
      "\<And>b. upd \<noteq> FirstSeen \<Longrightarrow> address = Some b \<Longrightarrow> other_holders l a b = []"
      "r = (if l' = l then Unchanged else Updated)" "q = p \<Longrightarrow> l' = l"
proof -
  from ok have srt: "sorted_by ip_account (pl_pins l)" by (simp add: validate_pins_Inr)
  define c where "c = (case address of None \<Rightarrow> fresh_pin a au PinSeen since | Some b \<Rightarrow> pin_label (fresh_pin a au PinSeen since) b since)"
  have c: "ip_account c = a" "ip_authority c = au" "ip_replaced c = []"
    "map al_address (ip_addresses c) = (case address of None \<Rightarrow> [] | Some b \<Rightarrow> [b])"
    by (auto simp: c_def fresh_pin_def pin_label_def split: option.splits)
  show thesis
  proof (cases "l' = l")
    case True
    then show thesis by (rule same)
  next
    case False
    with rec have f: "List.find (\<lambda>p. ip_authority p = au \<and> ip_account p \<noteq> a) (pl_pins l) = None"
      by (auto simp: record_pin_def Let_def split: option.splits)
    show thesis
    proof (cases "pin_position l a")
      case (Inl at)
      let ?p = "c\<lparr>ip_state := update_state upd\<rparr>"
      from rec f Inl False have fin: "finish_pins x (l\<lparr>pl_pins := insert_at at ?p (pl_pins l)\<rparr>) l = Inr (r, l')"
        and o: "\<And>b. upd = FirstSeen \<Longrightarrow> address = Some b \<Longrightarrow> pins_at l b = []"
        by (auto simp: record_pin_def c_def Let_def split: if_splits option.splits)
      then have l': "l' = l\<lparr>pl_pins := insert_at at ?p (pl_pins l)\<rparr>" "validate_pins x l' = Inr ()" "r = Updated"
        using False by (auto simp: finish_pins_Inr)
      have at: "pin_position l (ip_account ?p) = Inl at" using Inl c by simp
      have g: "pin_get l' b = (if b = a then Some ?p else pin_get l b)" for b
        using pin_get_insert [OF srt at, of b] c by (simp add: l'(1))
      have "pin_get l a = None" using Inl by (simp add: pin_get_def)
      then show thesis using g c l' o by (intro new [of ?p]) auto
    next
      case (Inr i)
      note i = pin_position_InrD [OF Inr]
      from rec f Inr False obtain q where q: "update_known x (pl_pins l ! i) c au upd since = Inr q"
        "finish_pins x (l\<lparr>pl_pins := (pl_pins l)[i := q]\<rparr>) l = Inr (r, l')"
        and o: "\<And>b. upd \<noteq> FirstSeen \<Longrightarrow> address = Some b \<Longrightarrow> other_holders l a b = []"
        by (auto simp: record_pin_def c_def Let_def split: if_splits option.splits)
      then have l': "l' = l\<lparr>pl_pins := (pl_pins l)[i := q]\<rparr>" "validate_pins x l' = Inr ()"
        "r = (if l' = l then Unchanged else Updated)" by (auto simp: finish_pins_Inr)
      have "ip_account q = a" using update_known_account [OF q(1)] i by simp
      then have g: "pin_get l' b = (if b = a then Some q else pin_get l b)" for b
        using pin_get_update [OF srt Inr, of q b] by (simp add: l'(1))
      have "q = pl_pins l ! i \<Longrightarrow> l' = l" using l'(1) by simp
      then show thesis using g i q(1) c l' o by (intro known [of "pl_pins l ! i" q c]) auto
    qed
  qed
qed

text \<open>The answers that leave the list as it was.\<close>

lemma record_pin_refusals:
  assumes "record_pin x l a address au upd since = Inr (r, l')"
  shows "\<exists>p\<in>set (pl_pins l). ip_authority p = au \<and> ip_account p \<noteq> a \<Longrightarrow>
      (\<exists>p\<in>set (pl_pins l). r = AuthorityElsewhere p \<and> ip_authority p = au \<and> ip_account p \<noteq> a) \<and> l' = l"
    "r \<noteq> Updated \<Longrightarrow> l' = l"
proof -
  show "(\<exists>p\<in>set (pl_pins l). r = AuthorityElsewhere p \<and> ip_authority p = au \<and> ip_account p \<noteq> a) \<and> l' = l"
    if e: "\<exists>p\<in>set (pl_pins l). ip_authority p = au \<and> ip_account p \<noteq> a"
  proof -
    from e obtain p where p: "List.find (\<lambda>p. ip_authority p = au \<and> ip_account p \<noteq> a) (pl_pins l) = Some p"
      by (metis (mono_tags, lifting) find_None_all not_Some_eq)
    with assms find_Some_in [OF p] show ?thesis by (auto simp: record_pin_def Let_def)
  qed
  show "l' = l" if "r \<noteq> Updated"
    using assms that by (auto simp: record_pin_def Let_def finish_pins_Inr split: option.splits sum.splits if_splits)
qed

lemma record_pin_updated: "record_pin x l a address au upd since \<noteq> Inr (Updated, l)"
  by (auto simp: record_pin_def Let_def finish_pins_Inr split: option.splits sum.splits if_splits)

lemma validate_pin_authority:
  "validate_pin x p = Inr () \<Longrightarrow> \<exists>key. authority_bytes x (ip_authority p) = Inr key \<and> pin_incarnation x p = Inr (incarnation_of x key)"
  by (auto simp: validate_pin_def pin_authority_def pin_incarnation_def)

lemma keep_last_last: "0 < n \<Longrightarrow> y \<in> set (keep_last n (xs @ [y]))"
  by (simp add: keep_last_def)

lemma pin_in_list: "validate_pins x l = Inr () \<Longrightarrow> pin_get l a = Some p \<Longrightarrow> p \<in> set (pl_pins l) \<and> ip_account p = a \<and> validate_pin x p = Inr ()"
  using pins.lookup_key by (auto simp: validate_pins_Inr)

section \<open>Renames\<close>

lemma apply_rename_InrD:
  assumes ok: "validate_pins x l = Inr ()" and ren: "apply_rename x l a chain since = Inr (r, l')"
  obtains p au v where "pin_get l a = Some p" "pin_authority x p = Inr au" "verify_chain x au chain = Inr v"
    "\<And>an. ip_renames p = Some an \<Longrightarrow> holds_anchor x an (rv_digests v)"
    "pin_get l' a = Some (renamed_pin x p v since)" "validate_pins x l' = Inr ()" "pl_groups l' = pl_groups l"
    "\<And>b. b \<noteq> a \<Longrightarrow> pin_get l' b = pin_get l b"
    "ra_from_address r = pin_address p" "ra_to_address r = rv_current v" "ra_changed r = (l' \<noteq> l)"
proof -
  from ok have srt: "sorted_by ip_account (pl_pins l)" by (simp add: validate_pins_Inr)
  from ren obtain i where i: "pin_position l a = Inr i" by (auto simp: apply_rename_def)
  note p = pin_position_InrD [OF i]
  from ren i obtain au v where v: "pin_authority x (pl_pins l ! i) = Inr au" "verify_chain x au chain = Inr v"
    "\<And>an. ip_renames (pl_pins l ! i) = Some an \<Longrightarrow> holds_anchor x an (rv_digests v)"
    and l': "l' = l\<lparr>pl_pins := (pl_pins l)[i := renamed_pin x (pl_pins l ! i) v since]\<rparr>"
    "validate_pins x l' = Inr ()" "ra_from_address r = pin_address (pl_pins l ! i)"
    "ra_to_address r = rv_current v" "ra_changed r = (l' \<noteq> l)"
    by (auto simp: apply_rename_def Let_def split: option.splits)
  have "ip_account (renamed_pin x (pl_pins l ! i) v since) = a" using p by (simp add: renamed_pin_def Let_def)
  then have g: "pin_get l' b = (if b = a then Some (renamed_pin x (pl_pins l ! i) v since) else pin_get l b)" for b
    using pin_get_update [OF srt i, of "renamed_pin x (pl_pins l ! i) v since" b] by (simp add: l'(1))
  show thesis using p v l' g by (intro that [of "pl_pins l ! i" au v]) auto
qed

lemma relabel_append: "relabel f c s k ls (as @ bs) = relabel f c s k (relabel f c s k ls as) bs"
  by (induction as arbitrary: ls) (auto simp: Let_def)

text \<open>After a chain with at least one address, its last one is the last label.\<close>

lemma relabel_last:
  "as \<noteq> [] \<Longrightarrow> relabel f c s k ls as \<noteq> [] \<and> al_address (last (relabel f c s k ls as)) = last as"
  by (induction as rule: rev_induct) (auto simp: relabel_append Let_def)

lemma keep_last_nonempty: "0 < n \<Longrightarrow> xs \<noteq> [] \<Longrightarrow> keep_last n xs \<noteq> [] \<and> last (keep_last n xs) = last xs"
  by (cases xs rule: rev_cases) (auto simp: keep_last_def)

lemma renamed_pin_address:
  "rv_addresses v \<noteq> [] \<Longrightarrow> pin_address (renamed_pin x p v since) = Some (last (rv_addresses v))"
proof -
  assume a: "rv_addresses v \<noteq> []"
  let ?ls = "relabel (pin_address p) (rv_current v) since (ip_addresses p)
    (filter (\<lambda>l. \<not> any (\<lambda>a. same_address a (al_address l)) (rv_addresses v)) (ip_addresses p)) (rv_addresses v)"
  have "keep_last max_addresses ?ls \<noteq> [] \<and> al_address (last (keep_last max_addresses ?ls)) = last (rv_addresses v)"
    using relabel_last [OF a] keep_last_nonempty [of max_addresses ?ls] by (simp add: max_addresses_def)
  then show ?thesis by (simp only: renamed_pin_def Let_def pin_address_def identity_pin.select_convs
      identity_pin.update_convs) simp
qed

lemma renamed_pin_frame:
  "ip_account (renamed_pin x p v since) = ip_account p" "ip_authority (renamed_pin x p v since) = ip_authority p"
  "ip_state (renamed_pin x p v since) = ip_state p" "ip_since (renamed_pin x p v since) = ip_since p"
  "ip_replaced (renamed_pin x p v since) = ip_replaced p"
  by (simp_all add: renamed_pin_def Let_def)

text \<open>A chain that holds an anchor is as long as the anchor's sequence at least.\<close>

lemma holds_anchor_reaches:
  "holds_anchor x an ds \<Longrightarrow> 0 < rn_sequence an \<and> unat (rn_sequence an) \<le> length ds"
  by (auto simp: holds_anchor_def unat_minus_one word_neq_0_conv)

section \<open>The sealed list\<close>

definition pins_law :: "'a pins_ext_scheme \<Rightarrow> bool" where
  "pins_law x \<longleftrightarrow> aead_law x \<and> (\<forall>l b. pins_to_json x l = Some b \<longrightarrow> pins_from_json x b = Some l)"

lemma pins_frame:
  "length pins_magic = 8" "length (be16 n) = 2" "pins_header_len = 42" "pins_nonce_len = 24" "pins_tag_len = 16"
  by (simp_all add: pins_magic_def pins_header_len_def pins_nonce_len_def pins_tag_len_def pins_revision_len_def be16_def)

lemma decode_encode_pins:
  "pins_law x \<Longrightarrow> encode_pins x l = Inr b \<Longrightarrow> decode_pins x b = Inr l \<and> length b \<le> max_list_bytes"
  by (auto simp: encode_pins_def decode_pins_def pins_law_def)

lemma decode_pins_InrD: "decode_pins x b = Inr l \<Longrightarrow> encode_pins x l = Inr b \<and> validate_pins x l = Inr ()"
  by (auto simp: decode_pins_def encode_pins_def)

lemma pins_padded:
  assumes "pad pins_padding b = Inr plain" "length b \<le> max_list_bytes"
  shows "allows_padded_len pins_padding (length plain)" "0 < length plain" "length plain \<le> max_list_bytes + 256"
proof -
  note p = pad_length [OF assms(1)]
  show "allows_padded_len pins_padding (length plain)" by (rule padded_len_allowed [OF p])
  show "0 < length plain" using padded_len_gt [OF _ p] by (auto simp: pins_padding_def)
  from p have "length plain = div_ceil (length b + 1) 256 * 256"
    by (auto simp: pins_padding_def usize_add_def usize_mul_def split: if_splits bind_splits)
  with div_ceil_less [of 256 "length b + 1"] assms(2) show "length plain \<le> max_list_bytes + 256" by simp
qed

lemma pins_open_seal:
  assumes law: "pins_law x" and "pins_seal x nonce key owner revision l = Inr s"
  shows "pins_open x key owner s = Inr (l, revision)" "pins_inspect s = Inr revision"
proof -
  from assms(2) obtain b plain k aad c where p: "revision \<noteq> 0" "encode_pins x l = Inr b" "pad pins_padding b = Inr plain"
    "aead_new key = Inr k" "pins_aad owner revision = Inr aad" "seal_with_nonce x k nonce aad plain = Inr c"
    and s: "s = pins_magic @ be16 pins_suite @ be64 revision @ nonce @ c"
    by (auto simp: pins_seal_def)
  from law have a: "aead_law x" by (simp add: pins_law_def)
  note sp = sealed_parts [OF a p(6)] and j = decode_encode_pins [OF law p(2)]
  note pl = pins_padded [OF p(3) conjunct2 [OF j]]
  have d: "take 8 s = pins_magic" "take 2 (drop 8 s) = be16 pins_suite" "take 8 (drop 10 s) = be64 revision"
    "take pins_nonce_len (drop 18 s) = nonce" "drop pins_header_len s = c"
    "length s = pins_header_len + length plain + pins_tag_len"
    using sp(1,2) by (simp_all add: s pins_frame)
  then show i: "pins_inspect s = Inr revision"
    using pl p(1) by (auto simp: pins_inspect_def Let_def max_sealed_pins_bytes_def)
  show "pins_open x key owner s = Inr (l, revision)"
    using p(4,5) sp(3) j unpad_pad [OF p(3)] by (simp add: pins_open_def i d)
qed

text \<open>What is authenticated with a list names its owner and its revision.\<close>

lemma pins_aad_inj: "pins_aad a r = Inr d \<Longrightarrow> pins_aad b s = Inr d \<Longrightarrow> a = b \<and> r = s"
proof -
  assume p: "pins_aad a r = Inr d" "pins_aad b s = Inr d"
  then have "length a = 36" "length b = 36" by (auto simp: pins_aad_def dest!: binding_check_Inr)
  with p show ?thesis by (auto simp: pins_aad_def dest!: binding_check_Inr)
qed

section \<open>Shared mailboxes\<close>

lemma group_get_insert:
  assumes "sorted_by group_key (pl_groups l)" "bsearch group_key (group_key g) (pl_groups l) = Inl i"
  shows "group_get (l\<lparr>pl_groups := insert_at i g (pl_groups l)\<rparr>) k = (if k = group_key g then Some g else group_get l k)"
proof (rule group_pins.lookup_put [OF assms(1)])
  show "sorted_by group_key (pl_groups (l\<lparr>pl_groups := insert_at i g (pl_groups l)\<rparr>))"
    using assms by (simp add: sorted_by_insert_at)
  have "group_get l (group_key g) = None" using assms(2) by (simp add: group_get_def)
  then show "v \<in> set (pl_groups (l\<lparr>pl_groups := insert_at i g (pl_groups l)\<rparr>)) \<longleftrightarrow>
      v = g \<or> (v \<in> set (pl_groups l) \<and> group_key v \<noteq> group_key g)" for v
    using group_pins.lookup_none_iff [OF assms(1), of "group_key g"] by (auto simp: image_iff)
qed

lemma group_get_update:
  assumes "sorted_by group_key (pl_groups l)" "i < length (pl_groups l)" "group_key g = group_key (pl_groups l ! i)"
  shows "group_get (l\<lparr>pl_groups := (pl_groups l)[i := g]\<rparr>) k = (if k = group_key g then Some g else group_get l k)"
  by (rule group_pins.lookup_put [OF assms(1)]) (use assms in \<open>simp_all add: sorted_by_update set_update_by\<close>)

lemma update_group_key: "group_key (update_group x g fresh chain upd) = group_key g"
  by (simp add: update_group_def group_key_def Let_def)

lemma record_group_InrD:
  assumes ok: "validate_pins x l = Inr ()" and rec: "record_group x l k c upd since = Inr (ch, l')"
  obtains fresh where "validate_group_pin x fresh = Inr ()" "check_chain c = Inr ()" "gp_signer fresh = chain_signer x c"
    "gp_anchor fresh = chain_anchor x c" "gp_since fresh = since" "gp_replaced fresh = []" "group_key fresh = k"
    "group_get l' k = Some (case group_get l k of None \<Rightarrow> fresh | Some g \<Rightarrow> update_group x g fresh c upd)"
    "\<And>j. j \<noteq> k \<Longrightarrow> group_get l' j = group_get l j" "pl_pins l' = pl_pins l" "validate_pins x l' = Inr ()"
    "ch \<longleftrightarrow> l' \<noteq> l"
proof -
  from ok have srt: "sorted_by group_key (pl_groups l)" by (simp add: validate_pins_Inr)
  define fresh where "fresh = \<lparr>gp_server = fst k, gp_group_id = snd k, gp_signer = chain_signer x c, gp_since = since,
    gp_anchor = chain_anchor x c, gp_replaced = [], gp_unknown = []\<rparr>"
  have k: "group_key fresh = k" by (simp add: fresh_def group_key_def)
  from rec have v: "validate_group_pin x fresh = Inr ()" "check_chain c = Inr ()"
    by (auto simp: record_group_def Let_def fresh_def)
  show thesis
  proof (cases "bsearch group_key k (pl_groups l)")
    case (Inl at)
    with rec have l': "l' = l\<lparr>pl_groups := insert_at at fresh (pl_groups l)\<rparr>" "validate_pins x l' = Inr ()" "ch = (l' \<noteq> l)"
      by (auto simp: record_group_def Let_def fresh_def)
    have "group_get l k = None" using Inl by (simp add: group_get_def)
    with l' v k group_get_insert [OF srt, of fresh at] Inl show thesis by (intro that [of fresh]) (auto simp: fresh_def)
  next
    case (Inr i)
    let ?g = "update_group x (pl_groups l ! i) fresh c upd"
    from rec Inr have l': "l' = l\<lparr>pl_groups := (pl_groups l)[i := ?g]\<rparr>" "validate_pins x l' = Inr ()" "ch = (l' \<noteq> l)"
      by (auto simp: record_group_def Let_def fresh_def)
    from bsearch_Inr [OF Inr] have i: "i < length (pl_groups l)" "group_key (pl_groups l ! i) = k" by auto
    have "group_get l k = Some (pl_groups l ! i)" using Inr by (simp add: group_get_def)
    with l' v k group_get_update [OF srt i(1), of ?g] i show thesis
      by (intro that [of fresh]) (auto simp: fresh_def update_group_key)
  qed
qed

text \<open>A chain continues the pin it made.\<close>

lemma continued_by_own:
  assumes "std_law x" "check_chain c = Inr ()" "length (gc_digests c) < 2 ^ 64" "gp_signer g = chain_signer x c"
    "gp_anchor g = chain_anchor x c \<or> holds_anchor x (gp_anchor g) (gc_digests c)"
  shows "continued_by x g c"
proof -
  from assms(2) have ne: "gc_signers c \<noteq> []" "gc_digests c \<noteq> []" by (auto simp: check_chain_def)
  let ?n = "length (gc_digests c)"
  have u: "unat (word_of_nat ?n :: u64) = ?n" using assms(3) by (simp add: unat_of_nat)
  then have z: "(word_of_nat ?n :: u64) \<noteq> 0" using ne by (metis length_0_conv unat_0)
  then have "unat ((word_of_nat ?n :: u64) - 1) = ?n - 1" by (simp add: unat_minus_one u)
  then have "holds_anchor x (chain_anchor x c) (gc_digests c)"
    using ne z by (simp add: holds_anchor_def chain_anchor_def last_conv_nth)
  with assms ne show ?thesis by (auto simp: continued_by_def chain_signer_def)
qed

section \<open>Who is at an address\<close>

lemma set_pins_at: "set (pins_at l address) = {p \<in> set (pl_pins l). pin_had p address}"
proof -
  have "set (List.map_filter (\<lambda>p. map_option (\<lambda>label. (p, pin_holds p address, al_seen_at label)) (label_of p address))
      (pl_pins l)) = {(p, h, s) | p h s. p \<in> set (pl_pins l) \<and> (\<exists>label. label_of p address = Some label \<and>
        h = pin_holds p address \<and> s = al_seen_at label)}"
    by (force simp: map_filter_def)
  then show ?thesis by (force simp: pins_at_def Let_def pin_had_def)
qed

lemma holds_had: "pin_holds p address \<Longrightarrow> pin_had p address"
  by (auto simp: pin_holds_def pin_had_def pin_address_def label_of_def find_None_iff intro!: exI [of _ "last (ip_addresses p)"] split: if_splits)

lemma set_other_holders:
  "set (other_holders l a address) = {p \<in> set (pl_pins l). ip_account p \<noteq> a \<and> pin_holds p address}"
  using holds_had by (auto simp: other_holders_def set_pins_at)

lemma record_pin_had_others:
  assumes "record_pin x l a address au upd since = Inr (r, l')" "address = Some ad" "upd = FirstSeen"
    "pin_get l a = None" "\<not> (\<exists>p\<in>set (pl_pins l). ip_authority p = au \<and> ip_account p \<noteq> a)"
    "\<exists>p\<in>set (pl_pins l). pin_had p ad"
  shows "(\<exists>ps. r = AddressHadOthers ps \<and> set ps = {p \<in> set (pl_pins l). pin_had p ad}) \<and> l' = l"
proof -
  from assms(5) have f: "List.find (\<lambda>p. ip_authority p = au \<and> ip_account p \<noteq> a) (pl_pins l) = None"
    by (auto simp: find_None_iff)
  from assms(4) obtain i where i: "pin_position l a = Inl i" by (auto simp: pin_get_def split: sum.splits)
  from assms(6) have "pins_at l ad \<noteq> []" by (auto simp: set_pins_at simp flip: set_empty)
  with assms(1-3) f i show ?thesis by (auto simp: record_pin_def Let_def set_pins_at split: if_splits)
qed

lemma record_pin_held_by_others:
  assumes "record_pin x l a address au upd since = Inr (r, l')" "address = Some ad" "upd \<noteq> FirstSeen"
    "pin_get l a \<noteq> None" "\<not> (\<exists>p\<in>set (pl_pins l). ip_authority p = au \<and> ip_account p \<noteq> a)"
    "\<exists>p\<in>set (pl_pins l). ip_account p \<noteq> a \<and> pin_holds p ad"
  shows "(\<exists>ps. r = AddressHeldByOthers ps \<and> set ps = {p \<in> set (pl_pins l). ip_account p \<noteq> a \<and> pin_holds p ad}) \<and> l' = l"
proof -
  from assms(5) have f: "List.find (\<lambda>p. ip_authority p = au \<and> ip_account p \<noteq> a) (pl_pins l) = None"
    by (auto simp: find_None_iff)
  from assms(4) obtain i where i: "pin_position l a = Inr i" by (auto simp: pin_get_def split: sum.splits)
  from assms(6) have "other_holders l a ad \<noteq> []" by (auto simp: set_other_holders simp flip: set_empty)
  with assms(1-3) f i show ?thesis by (auto simp: record_pin_def Let_def set_other_holders split: if_splits)
qed

section \<open>Runs of the list\<close>

text \<open>What a client does to the list, one after the other.\<close>

datatype pin_event =
    Met account_ref pin_update
  | Moved account_ref
  | Mailbox "string \<times> string" group_update

inductive pins_step :: "'a ext_scheme \<Rightarrow> identity_pins \<Rightarrow> pin_event \<Rightarrow> identity_pins \<Rightarrow> bool" for x where
  met: "record_pin x l a address au upd since = Inr (r, l') \<Longrightarrow> pins_step x l (Met a upd) l'"
| moved: "apply_rename x l a chain since = Inr (r, l') \<Longrightarrow> pins_step x l (Moved a) l'"
| mailbox: "record_group x l k c upd since = Inr (ch, l') \<Longrightarrow> pins_step x l (Mailbox k upd) l'"

inductive pins_run :: "'a ext_scheme \<Rightarrow> identity_pins \<Rightarrow> pin_event list \<Rightarrow> identity_pins \<Rightarrow> bool" for x where
  stay: "pins_run x l [] l"
| step: "pins_run x l evs m \<Longrightarrow> pins_step x m ev n \<Longrightarrow> pins_run x l (evs @ [ev]) n"

inductive_simps pins_step_met: "pins_step x l (Met a upd) l'"

definition accepts :: "pin_event \<Rightarrow> account_ref \<Rightarrow> bool" where
  "accepts ev a \<longleftrightarrow> (\<exists>upd. ev = Met a upd \<and> upd \<noteq> FirstSeen)"

text \<open>A pin that is the same person's: same authority and history, and no rename forgotten.\<close>

definition pin_kept :: "identity_pin \<Rightarrow> identity_pin \<Rightarrow> bool" where
  "pin_kept p q \<longleftrightarrow> ip_authority q = ip_authority p \<and> ip_replaced q = ip_replaced p \<and>
     (\<forall>an. ip_renames p = Some an \<longrightarrow> (\<exists>bn. ip_renames q = Some bn \<and> rn_sequence an \<le> rn_sequence bn))"

lemma pin_kept_refl [simp]: "pin_kept p p"
  by (simp add: pin_kept_def)

lemma pin_kept_trans: "pin_kept p q \<Longrightarrow> pin_kept q r \<Longrightarrow> pin_kept p r"
  by (force simp: pin_kept_def intro: order_trans)

lemma renamed_pin_kept:
  assumes "verify_chain x au chain = Inr v" "\<And>an. ip_renames p = Some an \<Longrightarrow> holds_anchor x an (rv_digests v)"
  shows "pin_kept p (renamed_pin x p v since)"
proof -
  note c = verify_chain_Inr [OF assms(1)]
  have s: "unat (rv_sequence v) = length chain"
    using c(2) by (simp add: c(5) unat_of_nat max_chain_def take_bit_eq_mod)
  have "rn_sequence an \<le> rv_sequence v" if "ip_renames p = Some an" for an
    using holds_anchor_reaches [OF assms(2) [OF that]] s c(6) by (simp add: word_le_nat_alt)
  then show ?thesis by (auto simp: pin_kept_def renamed_pin_def Let_def)
qed

lemma pins_step_kept:
  assumes "pins_step x l ev l'" "validate_pins x l = Inr ()"
  shows "validate_pins x l' = Inr () \<and>
    (\<forall>b p. pin_get l b = Some p \<longrightarrow> (\<exists>q. pin_get l' b = Some q \<and> (\<not> accepts ev b \<longrightarrow> pin_kept p q)))"
  using assms(1)
proof cases
  case (met a address au upd since r)
  from assms(2) met(2) show ?thesis
  proof (cases rule: record_pin_cases)
    case (known p q cand)
    have "upd = FirstSeen \<Longrightarrow> pin_kept p q"
      using known(3) by (auto simp: update_known_def pin_kept_def split: if_splits)
    with known show ?thesis by (auto simp: met accepts_def) (metis option.inject pin_kept_refl)
  next
    case (new p)
    then show ?thesis by (metis not_None_eq pin_kept_refl option.distinct(1))
  next
    case same
    with assms(2) show ?thesis by auto
  qed
next
  case (moved a chain since r)
  from moved(2) show ?thesis
  proof (rule apply_rename_InrD [OF assms(2)])
    fix p au v
    assume r: "pin_get l a = Some p" "verify_chain x au chain = Inr v"
      "\<And>an. ip_renames p = Some an \<Longrightarrow> holds_anchor x an (rv_digests v)"
      "pin_get l' a = Some (renamed_pin x p v since)" "validate_pins x l' = Inr ()"
      "\<And>b. b \<noteq> a \<Longrightarrow> pin_get l' b = pin_get l b"
    from renamed_pin_kept [OF r(2,3)] r show ?thesis by (metis option.inject pin_kept_refl)
  qed
next
  case (mailbox k c upd since ch)
  from mailbox(2) show ?thesis
  proof (rule record_group_InrD [OF assms(2)])
    assume g: "pl_pins l' = pl_pins l" "validate_pins x l' = Inr ()"
    then have "pin_get l' b = pin_get l b" for b by (simp only: pin_get_def pin_position_def g(1))
    with g show ?thesis by auto
  qed
qed

lemma pins_run_kept:
  "pins_run x l evs l' \<Longrightarrow> validate_pins x l = Inr () \<Longrightarrow> validate_pins x l' = Inr () \<and>
    (\<forall>b p. pin_get l b = Some p \<longrightarrow> (\<exists>q. pin_get l' b = Some q \<and> ((\<forall>ev\<in>set evs. \<not> accepts ev b) \<longrightarrow> pin_kept p q)))"
proof (induction rule: pins_run.induct)
  case (step l evs m ev n)
  from step pins_step_kept [OF step.hyps(2)] show ?case
    by (auto intro: pin_kept_trans) (meson pin_kept_trans)
qed simp

text \<open>The anchor a rename leaves is held only by chains that agree with it where it ended.\<close>

lemma renamed_holds:
  assumes "hex_law x" "verify_chain x au chain = Inr v" "pin_authority x (renamed_pin x p v since) = Inr au2"
    "verify_chain x au2 chain2 = Inr w"
    "\<And>an. ip_renames (renamed_pin x p v since) = Some an \<Longrightarrow> holds_anchor x an (rv_digests w)"
  shows "length chain \<le> length chain2 \<and> rename_digest x (chain2 ! (length chain - 1)) = rename_digest x (last chain)"
proof -
  note c = verify_chain_Inr [OF assms(2)] and d = verify_chain_Inr [OF assms(4)]
  let ?n = "length chain - 1"
  have s: "unat (rv_sequence v) = length chain"
    using c(2) by (simp add: c(5) unat_of_nat max_chain_def take_bit_eq_mod)
  obtain an where an: "ip_renames (renamed_pin x p v since) = Some an" "rn_sequence an = rv_sequence v"
    "rn_digest an = hex_encode x (last (rv_digests v))"
    by (simp add: renamed_pin_def Let_def)
  note h = assms(5) [OF an(1)]
  from holds_anchor_reaches [OF h] an(2) s d(6) have l: "length chain \<le> length chain2" by simp
  from c(1) have ne: "rv_sequence v \<noteq> 0" using s by (metis length_0_conv unat_0)
  then have u: "unat (rv_sequence v - 1) = ?n" by (simp add: unat_minus_one s)
  from h have "hex_encode x (rv_digests w ! ?n) = hex_encode x (last (rv_digests v))"
    by (simp add: holds_anchor_def an u)
  then have "rv_digests w ! ?n = last (rv_digests v)" by (simp add: hex_encode_inj [OF assms(1)])
  also have "\<dots> = rv_digests v ! ?n" using c(1,6) by (metis last_conv_nth length_0_conv)
  finally have e: "rv_digests w ! ?n = rv_digests v ! ?n" .
  from c(1) l have "?n < length chain" "?n < length chain2" by (cases chain, auto)+
  with c(9) d(9) e l c(1) show ?thesis by (simp add: last_conv_nth)
qed

lemma update_group_signer:
  assumes "gp_signer fresh = chain_signer x c" "gp_anchor fresh = chain_anchor x c"
    "continued_by x g c \<or> upd = GroupAccepted"
  shows "gp_signer (update_group x g fresh c upd) = chain_signer x c \<and>
    (gp_anchor (update_group x g fresh c upd) = chain_anchor x c \<or>
       holds_anchor x (gp_anchor (update_group x g fresh c upd)) (gc_digests c))"
  using assms by (auto simp: update_group_def Let_def continued_by_def)

section \<open>Moments as the list writes them\<close>

lemma three_chars: "length xs = 3 \<Longrightarrow> \<exists>a b c. xs = [a, b, c]"
  by (auto simp: length_Suc_conv eval_nat_numeral)

lemma moment_accepted:
  assumes "0 \<le> n" and "n \<le> 2932896" and "0 \<le> s" and "s < 86400"
  shows "rfc3339_utc (date_text (civil_from_days n) @ ''T'' @ clock_text s @ ''Z'')"
    and "0 \<le> ms \<Longrightarrow> ms < 1000 \<Longrightarrow> rfc3339_utc (date_text (civil_from_days n) @ ''T'' @ clock_text s @ ''.'' @ pad_int 3 ms @ ''Z'')"
proof -
  from moment_text [OF refl assms] obtain y1 y2 y3 y4 m1 m2 d1 d2 h1 h2 i1 i2 s1 s2 where
    t: "date_text (civil_from_days n) @ ''T'' @ clock_text s =
      [y1, y2, y3, y4, CHR ''-'', m1, m2, CHR ''-'', d1, d2, CHR ''T'', h1, h2, CHR '':'', i1, i2, CHR '':'', s1, s2]"
    and d: "list_all is_digit [y1, y2, y3, y4, m1, m2, d1, d2, h1, h2, i1, i2, s1, s2]" .
  have e: "date_text (civil_from_days n) @ ''T'' @ clock_text s @ r = (date_text (civil_from_days n) @ ''T'' @ clock_text s) @ r" for r
    by simp
  show "rfc3339_utc (date_text (civil_from_days n) @ ''T'' @ clock_text s @ ''Z'')"
    unfolding e t using d by (simp add: rfc3339_utc_def upt_rec)
  assume "0 \<le> ms" "ms < 1000"
  then have "0 \<le> ms" "ms < 10 ^ 3" by simp_all
  from pad_int_digits [OF this] three_chars obtain a b c where "pad_int 3 ms = [a, b, c]" "list_all is_digit [a, b, c]"
    by (metis zero_less_numeral)
  with d show "rfc3339_utc (date_text (civil_from_days n) @ ''T'' @ clock_text s @ ''.'' @ pad_int 3 ms @ ''Z'')"
    unfolding e t by (simp add: rfc3339_utc_def upt_rec)
qed

lemma instants_gregorian:
  assumes "s < 253402300800" and "ms < 1000"
  shows "since_from_unix s = date_text ((next_day ^^ (s div 86400)) (1970, 1, 1)) @ ''T'' @ clock_text (int (s mod 86400)) @ ''Z''"
    and "rfc3339 (int (s * 1000 + ms)) =
      date_text ((next_day ^^ (s div 86400)) (1970, 1, 1)) @ ''T'' @ clock_text (int (s mod 86400)) @ ''.'' @ pad_int 3 (int ms) @ ''Z''"
    and "rfc3339_utc (since_from_unix s)" and "rfc3339_utc (rfc3339 (int (s * 1000 + ms)))"
proof -
  show 1: "since_from_unix s = date_text ((next_day ^^ (s div 86400)) (1970, 1, 1)) @ ''T'' @ clock_text (int (s mod 86400)) @ ''Z''"
    by (simp add: since_from_unix_def Let_def civil_iterate)
  have "int (s * 1000 + ms) mod 1000 = int ms" "int (s * 1000 + ms) div 1000 = int s" using assms(2) by simp_all
  then have "rfc3339 (int (s * 1000 + ms)) = date_text (civil_from_days (int s div 86400)) @ ''T'' @
      clock_text (int s mod 86400) @ ''.'' @ pad_int 3 (int ms) @ ''Z''" unfolding rfc3339_def by (simp only: Let_def)
  also have "int s div 86400 = int (s div 86400)" using zdiv_int [of s 86400] by (simp only: of_nat_numeral)
  also have "int s mod 86400 = int (s mod 86400)" using zmod_int [of s 86400] by (simp only: of_nat_numeral)
  finally show 2: "rfc3339 (int (s * 1000 + ms)) =
      date_text ((next_day ^^ (s div 86400)) (1970, 1, 1)) @ ''T'' @ clock_text (int (s mod 86400)) @ ''.'' @ pad_int 3 (int ms) @ ''Z''"
    by (simp only: civil_iterate)
  have "s div 86400 < 2932897" using assms(1) by (simp add: div_less_iff_less_mult)
  then have b: "(0 :: int) \<le> int (s div 86400)" "int (s div 86400) \<le> 2932896" by simp_all
  have "(0 :: int) \<le> int (s mod 86400)" "int (s mod 86400) < 86400" by simp_all
  note a = moment_accepted [OF b this]
  show "rfc3339_utc (since_from_unix s)" unfolding 1 using a(1) by (simp only: civil_iterate)
  show "rfc3339_utc (rfc3339 (int (s * 1000 + ms)))" unfolding 2 using a(2) [of "int ms"] assms(2) by (simp add: civil_iterate)
qed

end
