(* ===== verification/Identity_Pins_Demo.thy ===== *)
theory Identity_Pins_Demo
  imports Identity_Pins_Facts Account_Head_Demo
begin

text \<open>
  A concrete list: Ana was met at her address, Ben is new.  Keys are 32 equal characters, a hash shows the
  length and the last byte of its input, every 64-byte signature verifies, and the JSON is that of one list.
\<close>

definition demo_key_of :: "char \<Rightarrow> string" where "demo_key_of c = replicate 32 c"
definition demo_since :: string where "demo_since = ''2026-01-02T03:04:05Z''"
definition demo_ana :: account_ref where "demo_ana = AccountRef ''a.example'' ''0b6b5e0c-4c1e-4b8e-9c2d-6a1f3e5d7c9b''"
definition demo_ben :: account_ref where "demo_ben = AccountRef ''b.example'' ''1b6b5e0c-4c1e-4b8e-9c2d-6a1f3e5d7c9b''"
definition demo_ana_at :: string where "demo_ana_at = ''ana@a.example''"
definition demo_ann_at :: string where "demo_ann_at = ''ann@a.example''"

definition demo_label :: address_label where
  "demo_label = \<lparr>al_address = demo_ana_at, al_seen_at = demo_since, al_unknown = []\<rparr>"

definition demo_pin :: identity_pin where
  "demo_pin = \<lparr>ip_account = demo_ana, ip_authority = demo_key_of CHR ''A'', ip_state = PinSeen, ip_since = demo_since,
     ip_replaced = [], ip_addresses = [demo_label], ip_renames = None, ip_unknown = []\<rparr>"

definition demo_pins :: identity_pins where
  "demo_pins = \<lparr>pl_pins = [demo_pin], pl_groups = [], pl_min_reader = None, pl_unknown = []\<rparr>"

definition demo_pins_ext :: pins_ext where
  "demo_pins_ext = \<lparr>std_encode = string_of_bytes, std_decode = (\<lambda>s. Some (bytes_of_string s)),
     url_encode = string_of_bytes, url_decode = (\<lambda>s. Some (bytes_of_string s)),
     hex_encode = bytes_to_hex, hex_decode = demo_hex_decode,
     sha256 = demo_sum, hmac_sha256 = (\<lambda>k. demo_sum), hkdf_sha256 = demo_hkdf, ed25519_key_ok = (\<lambda>k. True),
     ed25519_public = (\<lambda>seed. seed), ed25519_sign = (\<lambda>seed bs. replicate 64 0x73),
     ed25519_ok = (\<lambda>k bs sig. True),
     aead_seal = (\<lambda>k n aad p. Some (p @ replicate 16 0)), aead_open = (\<lambda>k n aad c. Some (take (length c - 16) c)),
     pins_to_json = (\<lambda>l. if l = demo_pins then Some [1] else None),
     pins_from_json = (\<lambda>b. if b = [1] then Some demo_pins else None)\<rparr>"

lemma demo_pins_sel [simp]:
  "std_decode demo_pins_ext s = Some (bytes_of_string s)" "std_encode demo_pins_ext b = string_of_bytes b"
  "sha256 demo_pins_ext = demo_sum" "hex_encode demo_pins_ext = bytes_to_hex" "hex_decode demo_pins_ext = demo_hex_decode"
  "ed25519_key_ok demo_pins_ext k" "ed25519_ok demo_pins_ext k bs sig"
  "aead_seal demo_pins_ext k n aad p = Some (p @ replicate 16 0)"
  "pins_to_json demo_pins_ext demo_pins = Some [1]"
  by (simp_all add: demo_pins_ext_def)

lemma demo_hex_inj: "bytes_to_hex a = bytes_to_hex b \<longleftrightarrow> a = b"
  using hex_encode_inj [OF demo_hex, of a b] by simp

lemma demo_pins_laws: "std_law demo_pins_ext" "hex_law demo_pins_ext" "pins_law demo_pins_ext"
proof -
  have "demo_hex_decode (bytes_to_hex b) = Some b" for b using demo_hex by (simp add: hex_law_def)
  then show "std_law demo_pins_ext" "hex_law demo_pins_ext" "pins_law demo_pins_ext"
    by (auto simp: std_law_def hex_law_def pins_law_def aead_law_def aead_tag_len_def demo_pins_ext_def split: if_splits)
qed

lemma demo_authority [simp]: "authority_bytes demo_pins_ext (demo_key_of c) = Inr (bytes_of_string (demo_key_of c))"
  by (simp add: authority_bytes_def demo_key_of_def)

definition demo_incarnation_of :: "char \<Rightarrow> string" where
  "demo_incarnation_of c = bytes_to_hex (demo_sum (incarnation_domain @ bytes_of_string (demo_key_of c)))"

lemma demo_incarnations [simp]: "incarnation_of demo_pins_ext (bytes_of_string (demo_key_of c)) = demo_incarnation_of c"
  "is_lower_hex_32 (demo_incarnation_of c)"
  by (simp_all add: incarnation_of_def demo_incarnation_of_def)

lemma demo_incarnation_differ: "demo_incarnation_of CHR ''A'' \<noteq> demo_incarnation_of CHR ''C''"
proof -
  have "last (demo_sum (incarnation_domain @ bytes_of_string (demo_key_of c))) = word_of_nat (of_char c)" for c
    by (simp add: demo_sum_def demo_key_of_def bytes_of_string_def)
  then have "last (demo_sum (incarnation_domain @ bytes_of_string (demo_key_of CHR ''A''))) \<noteq>
    last (demo_sum (incarnation_domain @ bytes_of_string (demo_key_of CHR ''C'')))" by simp
  then show ?thesis by (auto simp: demo_incarnation_of_def demo_hex_inj)
qed

lemma demo_pins_names [simp]: "rfc3339_utc demo_since" "canonical_account demo_ana_at = Inr demo_ana_at"
  "canonical_account demo_ann_at = Inr demo_ann_at" "fold_address demo_ana_at \<noteq> None" "fold_address demo_ann_at \<noteq> None"
  "\<not> same_address demo_ana_at demo_ann_at" "\<not> same_address demo_ann_at demo_ana_at" "same_address demo_ana_at demo_ana_at"
  "same_address demo_ann_at demo_ann_at"
  by code_simp+

lemma demo_pin_valid: "validate_pin demo_pins_ext demo_pin = Inr ()"
  by (simp add: validate_pin_def demo_pin_def demo_label_def pin_authority_def pin_incarnation_def max_replaced_def max_addresses_def
      all_once_def)

lemma demo_pins_valid: "validate_pins demo_pins_ext demo_pins = Inr ()"
  using demo_pin_valid by (simp add: validate_pins_Inr demo_pins_def max_pins_def max_group_pins_def)

lemma demo_pin_get: "pin_get demo_pins demo_ana = Some demo_pin" "pin_position demo_pins demo_ana = Inr 0"
  by code_simp+

section \<open>What happens to it\<close>

definition demo_pins_accepted :: identity_pins where
  "demo_pins_accepted = demo_pins\<lparr>pl_pins := [replace_authority demo_pin (demo_incarnation_of CHR ''A'')
     (demo_incarnation_of CHR ''C'') (demo_key_of CHR ''C'') PinSeen demo_since]\<rparr>"

lemma demo_keep_one: "keep_last 10 [y] = [y]" "keep_last 32 [z] = [z]" "keep_last 32 [a, b] = [a, b]"
  by (simp_all add: keep_last_def)

lemma demo_accepts:
  "record_pin demo_pins_ext demo_pins demo_ana None (demo_key_of CHR ''C'') AcceptedNow demo_since =
     Inr (Updated, demo_pins_accepted)"
proof -
  have c: "validate_pin demo_pins_ext (fresh_pin demo_ana (demo_key_of CHR ''C'') PinSeen demo_since) = Inr ()"
    by (simp add: validate_pin_def fresh_pin_def pin_authority_def pin_incarnation_def max_replaced_def max_addresses_def
        all_once_def)
  have ne: "demo_key_of CHR ''A'' \<noteq> demo_key_of CHR ''C''" by (simp add: demo_key_of_def)
  have u: "update_known demo_pins_ext demo_pin (fresh_pin demo_ana (demo_key_of CHR ''C'') PinSeen demo_since)
      (demo_key_of CHR ''C'') AcceptedNow demo_since = Inr (replace_authority demo_pin (demo_incarnation_of CHR ''A'')
        (demo_incarnation_of CHR ''C'') (demo_key_of CHR ''C'') PinSeen demo_since)"
    using ne by (simp add: update_known_def pin_incarnation_def pin_authority_def fresh_pin_def demo_pin_def)
  have "validate_pin demo_pins_ext (replace_authority demo_pin (demo_incarnation_of CHR ''A'')
        (demo_incarnation_of CHR ''C'') (demo_key_of CHR ''C'') PinSeen demo_since) = Inr ()"
    using demo_incarnation_differ
    by (simp add: validate_pin_def replace_authority_def demo_pin_def demo_label_def pin_authority_def pin_incarnation_def
        max_replaced_def max_addresses_def all_once_def demo_keep_one)
  then have v: "validate_pins demo_pins_ext demo_pins_accepted = Inr ()"
    by (simp add: validate_pins_Inr demo_pins_accepted_def demo_pins_def max_pins_def max_group_pins_def)
  have d: "demo_pins_accepted \<noteq> demo_pins"
    using ne by (auto simp: demo_pins_accepted_def demo_pins_def replace_authority_def demo_pin_def)
  have l: "pl_pins demo_pins = [demo_pin]" by (simp add: demo_pins_def)
  have f: "ip_authority demo_pin \<noteq> demo_key_of CHR ''C''" using ne by (simp add: demo_pin_def)
  show ?thesis
    using u v d by (simp add: record_pin_def c l f demo_pin_get(2) finish_pins_def demo_pins_accepted_def)
qed

lemma demo_had: "pin_had demo_pin demo_ana_at"
  by (simp add: pin_had_def label_of_def demo_pin_def demo_label_def)

lemma demo_imposes:
  "record_pin demo_pins_ext demo_pins demo_ben (Some demo_ana_at) (demo_key_of CHR ''B'') FirstSeen demo_since =
     Inr (AddressHadOthers [demo_pin], demo_pins)"
proof -
  have c: "validate_pin demo_pins_ext (pin_label (fresh_pin demo_ben (demo_key_of CHR ''B'') PinSeen demo_since)
      demo_ana_at demo_since) = Inr ()"
    by (simp add: validate_pin_def fresh_pin_def pin_label_def pin_authority_def pin_incarnation_def max_replaced_def
        max_addresses_def all_once_def)
  have p: "pin_position demo_pins demo_ben = Inl 1" by code_simp
  have "pins_at demo_pins demo_ana_at = [demo_pin]"
    by (simp add: pins_at_def demo_pins_def label_of_def demo_pin_def demo_label_def map_filter_def)
  moreover have "ip_authority demo_pin \<noteq> demo_key_of CHR ''B''" "pl_pins demo_pins = [demo_pin]"
    by (simp_all add: demo_pin_def demo_key_of_def demo_pins_def)
  ultimately show ?thesis by (simp add: record_pin_def Let_def c p)
qed

definition demo_rename :: account_rename where
  "demo_rename = \<lparr>re_incarnation_id = demo_incarnation_of CHR ''A'', re_sequence = 1, re_previous = demo_ana_at,
     re_current = demo_ann_at, re_issued_at_ms = 1700000000000, re_signature = replicate 64 CHR ''s''\<rparr>"

definition demo_rename_bytes :: bytes where
  "demo_rename_bytes = rename_domain @ demo_sum (incarnation_domain @ bytes_of_string (demo_key_of CHR ''A'')) @ be64 1 @
     (be16 (length demo_ana_at) @ bytes_of_string demo_ana_at) @ (be16 (length demo_ann_at) @ bytes_of_string demo_ann_at) @
     be64 (word_of_int 1700000000000)"

lemma demo_rename_signed: "rename_bytes demo_pins_ext demo_rename = Inr demo_rename_bytes"
proof -
  have h: "demo_hex_decode (bytes_to_hex b) = Some b" for b using demo_hex by (simp add: hex_law_def)
  have s: "server_of demo_ana_at = server_of demo_ann_at" "demo_ana_at \<noteq> demo_ann_at" "length demo_ana_at < 2 ^ 16"
    "length demo_ann_at < 2 ^ 16" by code_simp+
  have l: "length (demo_sum b) = 32" for b by (simp add: demo_sum_def)
  have m: "(1 :: u64) \<le> word_of_nat max_chain" "(word_of_nat max_chain :: u64) \<noteq> 0" by (simp_all add: max_chain_def)
  show ?thesis
    using s h l m by (simp add: rename_bytes_def rename_signing_bytes_def demo_rename_def demo_rename_bytes_def rename_address_def
        demo_incarnation_of_def min_issued_at_ms_def max_issued_at_ms_def not_less)
qed

lemma demo_chain_verifies:
  "verify_chain demo_pins_ext (bytes_of_string (demo_key_of CHR ''A'')) [demo_rename] =
     Inr \<lparr>rv_incarnation_id = demo_incarnation_of CHR ''A'', rv_first = demo_ana_at, rv_current = demo_ann_at,
       rv_addresses = [demo_ana_at, demo_ann_at], rv_sequence = 1,
       rv_digests = [demo_sum (demo_rename_bytes @ bytes_of_string (re_signature demo_rename))]\<rparr>"
proof -
  have k: "length (demo_key_of CHR ''A'') = 32" by (simp add: demo_key_of_def)
  have "rename_verify demo_pins_ext (bytes_of_string (demo_key_of CHR ''A'')) demo_rename = Inr ()"
    using k by (simp add: rename_verify_def demo_rename_signed verifying_key_from_bytes_def verify_signature_def)
      (simp add: demo_rename_def)
  then show ?thesis
    by (simp add: verify_chain_def rename_digest_def demo_rename_signed max_chain_def) (simp add: demo_rename_def)
qed

definition demo_pin_moved :: identity_pin where
  "demo_pin_moved = renamed_pin demo_pins_ext demo_pin
     \<lparr>rv_incarnation_id = demo_incarnation_of CHR ''A'', rv_first = demo_ana_at, rv_current = demo_ann_at,
       rv_addresses = [demo_ana_at, demo_ann_at], rv_sequence = 1,
       rv_digests = [demo_sum (demo_rename_bytes @ bytes_of_string (re_signature demo_rename))]\<rparr> demo_since"

definition demo_pins_moved :: identity_pins where
  "demo_pins_moved = demo_pins\<lparr>pl_pins := [demo_pin_moved]\<rparr>"

lemma demo_moved_valid: "validate_pin demo_pins_ext demo_pin_moved = Inr ()"
proof -
  have f: "fold_address demo_ana_at \<noteq> fold_address demo_ann_at" by code_simp
  have m: "(1 :: u64) \<le> word_of_nat max_chain" by (simp add: max_chain_def)
  show ?thesis
    using f m by (simp add: validate_pin_def demo_pin_moved_def renamed_pin_def demo_pin_def demo_label_def pin_authority_def
        pin_incarnation_def max_replaced_def max_addresses_def all_once_def pin_address_def demo_keep_one)
qed

lemma demo_moves:
  "apply_rename demo_pins_ext demo_pins demo_ana [demo_rename] demo_since =
     Inr (\<lparr>ra_from_address = Some demo_ana_at, ra_to_address = demo_ann_at, ra_changed = True\<rparr>, demo_pins_moved)"
proof -
  have v: "validate_pins demo_pins_ext demo_pins_moved = Inr ()"
    using demo_moved_valid
    by (simp add: validate_pins_Inr demo_pins_moved_def demo_pins_def max_pins_def max_group_pins_def)
  have d: "demo_pins_moved \<noteq> demo_pins"
    by (auto simp: demo_pins_moved_def demo_pins_def demo_pin_moved_def renamed_pin_def Let_def demo_pin_def)
  have a: "pin_authority demo_pins_ext demo_pin = Inr (bytes_of_string (demo_key_of CHR ''A''))"
    "pin_address demo_pin = Some demo_ana_at" "ip_renames demo_pin = None"
    by (simp_all add: pin_authority_def demo_pin_def pin_address_def demo_label_def)
  have l: "pl_pins demo_pins = [demo_pin]" by (simp add: demo_pins_def)
  show ?thesis
    using v d by (simp add: apply_rename_def demo_pin_get(2) l a demo_chain_verifies Let_def flip: demo_pin_moved_def)
      (simp add: demo_pins_moved_def)
qed

lemma demo_pins_sealed:
  "\<exists>s. pins_seal demo_pins_ext demo_nonce (replicate 32 5) demo_binding 1 demo_pins = Inr s"
proof -
  have b: "binding_check demo_binding = Inr demo_binding" by code_simp
  show ?thesis
    by (simp add: pins_seal_def encode_pins_def demo_pins_valid max_list_bytes_def pad_def pins_padding_def usize_add_def
        usize_mul_def usize_bound_def div_ceil_def aead_new_def aead_key_len_def pins_aad_def b seal_with_nonce_def
        check_nonce_def aead_nonce_len_def demo_nonce_def)
qed

definition demo_mailbox :: "string \<times> string" where
  "demo_mailbox = (''a.example'', ''0b6b5e0c-4c1e-4b8e-9c2d-6a1f3e5d7c9c'')"

definition demo_chain :: group_chain where
  "demo_chain = \<lparr>gc_signers = [replicate 32 7], gc_digests = [replicate 32 8]\<rparr>"

definition demo_mailbox_pin :: group_pin where
  "demo_mailbox_pin = \<lparr>gp_server = fst demo_mailbox, gp_group_id = snd demo_mailbox,
     gp_signer = string_of_bytes (replicate 32 7), gp_since = demo_since,
     gp_anchor = \<lparr>rn_sequence = 1, rn_digest = bytes_to_hex (replicate 32 8), rn_unknown = []\<rparr>,
     gp_replaced = [], gp_unknown = []\<rparr>"

definition demo_pins_mailbox :: identity_pins where
  "demo_pins_mailbox = demo_pins\<lparr>pl_groups := [demo_mailbox_pin]\<rparr>"

lemma demo_mailbox_met:
  "record_group demo_pins_ext demo_pins demo_mailbox demo_chain GroupFirstSeen demo_since = Inr (True, demo_pins_mailbox)"
proof -
  have f: "\<lparr>gp_server = fst demo_mailbox, gp_group_id = snd demo_mailbox, gp_signer = chain_signer demo_pins_ext demo_chain,
      gp_since = demo_since, gp_anchor = chain_anchor demo_pins_ext demo_chain, gp_replaced = [], gp_unknown = []\<rparr> =
      demo_mailbox_pin"
    by (simp add: chain_signer_def chain_anchor_def demo_chain_def demo_mailbox_pin_def)
  have n: "valid_server (fst demo_mailbox)" "valid_account_id (snd demo_mailbox)" by code_simp+
  have g: "validate_group_pin demo_pins_ext demo_mailbox_pin = Inr ()"
    using n lower_hex_bytes [of "replicate 32 8"]
    by (simp add: validate_group_pin_def demo_mailbox_pin_def authority_bytes_def max_replaced_def all_once_def)
  have v: "validate_pins demo_pins_ext demo_pins_mailbox = Inr ()"
    using g demo_pin_valid by (simp add: validate_pins_Inr demo_pins_mailbox_def demo_pins_def max_pins_def max_group_pins_def)
  have b: "bsearch group_key demo_mailbox (pl_groups demo_pins) = Inl 0" by code_simp
  have a: "demo_pins\<lparr>pl_groups := insert_at 0 demo_mailbox_pin (pl_groups demo_pins)\<rparr> = demo_pins_mailbox"
    by (simp add: demo_pins_mailbox_def demo_pins_def insert_at_def)
  have d: "demo_pins_mailbox \<noteq> demo_pins" by (simp add: demo_pins_mailbox_def demo_pins_def)
  show ?thesis
    using d g v by (simp add: record_group_def f b a Let_def) (simp add: check_chain_def demo_chain_def)
qed

end
