(* ===== verification/Identity_Pins_Properties.thy ===== *)
theory Identity_Pins_Properties
  imports Identity_Pins_Demo
begin

text \<open>
  What the identity list promises: an identity changes only when the user accepts it and is remembered when it
  does, an impostor is refused, a rename never rolls back, the sealed list opens to what was sealed, and a
  shared mailbox is followed along its chain.
\<close>

text \<open>C27: Whatever is recorded, whichever renames are followed and whichever mailboxes are met, in any order, a
  valid list stays valid and nobody on it is forgotten; and an account whose change nobody accepted or verified
  keeps its pinned authority, the history of those it replaced, and a rename anchor at least as late.\<close>

theorem authority_changes_only_when_accepted:
  assumes "pins_run x l evs l'" and "validate_pins x l = Inr ()"
  shows "validate_pins x l' = Inr () \<and> (\<forall>b p. pin_get l b = Some p \<longrightarrow> (\<exists>q. pin_get l' b = Some q \<and>
    ((\<forall>ev\<in>set evs. \<not> accepts ev b) \<longrightarrow> ip_authority q = ip_authority p \<and> ip_replaced q = ip_replaced p \<and>
       (\<forall>an. ip_renames p = Some an \<longrightarrow> (\<exists>bn. ip_renames q = Some bn \<and> rn_sequence an \<le> rn_sequence bn)))))"
  by (rule pins_run_kept [OF assms, unfolded pin_kept_def])

theorem authority_changes_only_when_accepted_witness:
  "\<exists>q. pin_get demo_pins_accepted demo_ana = Some q \<and> pins_run demo_pins_ext demo_pins [Met demo_ana AcceptedNow] demo_pins_accepted \<and>
     validate_pins demo_pins_ext demo_pins_accepted = Inr ()"
proof -
  have r: "pins_run demo_pins_ext demo_pins ([] @ [Met demo_ana AcceptedNow]) demo_pins_accepted"
    by (rule pins_run.step [OF pins_run.stay pins_step.met [OF demo_accepts]])
  from authority_changes_only_when_accepted [OF r demo_pins_valid] demo_pin_get(1) r show ?thesis
    by (metis append_Nil)
qed

text \<open>A change of an account's authority happens only when it is accepted or verified, and the list then tells
  the new key from the old: the new one is the account's own, the one it replaced is recognised as an earlier
  one, the state is that of the decision, and the rename anchor, which the old key signed, is gone.\<close>

theorem accepted_change_is_remembered:
  assumes "validate_pins x l = Inr ()" and "record_pin x l a address au upd since = Inr (Updated, l')"
    and "pin_get l a = Some p" and "ip_authority p \<noteq> au"
  shows "upd \<noteq> FirstSeen \<and> (\<exists>q. pin_get l' a = Some q \<and> ip_state q = update_state upd \<and> ip_since q = since \<and>
     ip_renames q = None \<and> check_authority x q (Some au) = AuthoritySame \<and>
     check_authority x q (Some (ip_authority p)) = AuthorityEarlier)"
proof -
  from assms(1,2) show ?thesis
  proof (cases rule: record_pin_cases)
    case same
    with assms(2) record_pin_updated show ?thesis by blast
  next
    case (known p' q c)
    with assms(3,4) have u: "upd \<noteq> FirstSeen" by (auto simp: update_known_def split: if_splits)
    note old = validate_pin_authority [OF conjunct2 [OF conjunct2 [OF pin_in_list [OF assms(1,3)]]]]
    from known u assms(3,4) old obtain key i where q: "authority_bytes x (ip_authority p) = Inr key"
      "q = replace_authority p (incarnation_of x key) i au (update_state upd) since"
      by (auto simp: update_known_def split: if_splits)
    have "incarnation_of x key \<in> set (ip_replaced q)"
      by (simp add: q(2) replace_authority_def keep_last_last max_replaced_def)
    with q u known(2) assms(4) show ?thesis
      by (auto simp: check_authority_def replace_authority_def)
  qed (use assms(3) in simp)
qed

theorem accepted_change_is_remembered_witness:
  "\<exists>q. pin_get demo_pins_accepted demo_ana = Some q \<and>
     check_authority demo_pins_ext q (Some (demo_key_of CHR ''A'')) = AuthorityEarlier"
proof -
  have "ip_authority demo_pin \<noteq> demo_key_of CHR ''C''" by (simp add: demo_pin_def demo_key_of_def)
  with accepted_change_is_remembered [OF demo_pins_valid demo_accepts demo_pin_get(1)] show ?thesis
    by (auto simp: demo_pin_def)
qed

text \<open>C28: Recording a pin, where it does not fail, refuses these, and leaves the list as it was. A key pinned for another
  account, whatever the update, is reported with the account that has it. Short of that, a new account seen for the
  first time at an address others had is reported with all of them; and for an account already pinned, an update the
  person accepts or verifies at an address that others hold now is reported with all of them. (A new account the
  person accepts is pinned wherever it is met: that decision is theirs, and not refused.)\<close>

theorem impostors_are_refused:
  assumes "record_pin x l a address au upd since = Inr (r, l')"
  shows "((\<exists>p\<in>set (pl_pins l). ip_authority p = au \<and> ip_account p \<noteq> a) \<longrightarrow>
      (\<exists>p\<in>set (pl_pins l). r = AuthorityElsewhere p \<and> ip_authority p = au \<and> ip_account p \<noteq> a) \<and> l' = l) \<and>
    (\<forall>ad. address = Some ad \<and> \<not> (\<exists>p\<in>set (pl_pins l). ip_authority p = au \<and> ip_account p \<noteq> a) \<longrightarrow>
      (pin_get l a = None \<and> upd = FirstSeen \<and> (\<exists>p\<in>set (pl_pins l). pin_had p ad) \<longrightarrow>
        (\<exists>ps. r = AddressHadOthers ps \<and> set ps = {p \<in> set (pl_pins l). pin_had p ad}) \<and> l' = l) \<and>
      (pin_get l a \<noteq> None \<and> upd \<noteq> FirstSeen \<and> (\<exists>p\<in>set (pl_pins l). ip_account p \<noteq> a \<and> pin_holds p ad) \<longrightarrow>
        (\<exists>ps. r = AddressHeldByOthers ps \<and> set ps = {p \<in> set (pl_pins l). ip_account p \<noteq> a \<and> pin_holds p ad}) \<and>
        l' = l))"
  using record_pin_refusals(1) [OF assms] record_pin_had_others [OF assms] record_pin_held_by_others [OF assms] by blast

theorem impostors_are_refused_witness:
  "record_pin demo_pins_ext demo_pins demo_ben (Some demo_ana_at) (demo_key_of CHR ''B'') FirstSeen demo_since =
     Inr (AddressHadOthers [demo_pin], demo_pins)"
  using impostors_are_refused [OF demo_imposes] demo_imposes by simp



text \<open>C30: The sealed list opens, under the key and for the owner it was sealed for, to the list and the revision
  that were sealed; its revision is readable without the key; its length shows only a multiple of 256; and what
  is authenticated with it names that owner and that revision and no other.\<close>

theorem sealed_pins_roundtrip:
  assumes "pins_law x" and "pins_seal x nonce key owner revision l = Inr s"
  shows "pins_open x key owner s = Inr (l, revision) \<and> pins_inspect s = Inr revision \<and>
    (length s - pins_header_len - pins_tag_len) mod 256 = 0 \<and>
    (\<forall>owner' revision' d. pins_aad owner' revision' = Inr d \<and> pins_aad owner revision = Inr d \<longrightarrow>
       owner' = owner \<and> revision' = revision)"
proof -
  note o = pins_open_seal [OF assms]
  from o(2) have "allows_padded_len pins_padding (length s - pins_header_len - pins_tag_len)"
    by (auto simp: pins_inspect_def)
  with o show ?thesis by (auto simp: pins_padding_def dest: pins_aad_inj)
qed

theorem sealed_pins_roundtrip_witness:
  "\<exists>s. pins_seal demo_pins_ext demo_nonce (replicate 32 5) demo_binding 1 demo_pins = Inr s \<and>
     pins_open demo_pins_ext (replicate 32 5) demo_binding s = Inr (demo_pins, 1)"
proof -
  from demo_pins_sealed obtain s where s: "pins_seal demo_pins_ext demo_nonce (replicate 32 5) demo_binding 1 demo_pins = Inr s"
    by blast
  from sealed_pins_roundtrip [OF demo_pins_laws(3) s] s show ?thesis by auto
qed

text \<open>A shared mailbox is followed only along its chain of key lists.  A chain that does not continue the pin
  changes nothing unless it is accepted, and then the replaced signer is remembered; a chain that continues it,
  and an accepted or a new one, is the pinned one afterwards: the same chain met again is the same mailbox.\<close>

theorem mailbox_is_followed_along_its_chain:
  assumes "std_law x" and "validate_pins x l = Inr ()" and "record_group x l k c upd since = Inr (changed, l')"
    and "length (gc_digests c) < 2 ^ 64"
  shows "(\<forall>g. group_get l k = Some g \<and> \<not> continued_by x g c \<longrightarrow>
      (if upd = GroupAccepted then \<exists>g'. group_get l' k = Some g' \<and> gp_signer g \<in> set (gp_replaced g')
       else group_get l' k = Some g)) \<and>
    ((\<forall>g. group_get l k = Some g \<longrightarrow> continued_by x g c \<or> upd = GroupAccepted) \<longrightarrow>
      (\<exists>g'. lookup_group x l' k c = Inr (GroupSame g') \<and> gp_signer g' = chain_signer x c)) \<and>
    (\<forall>j. j \<noteq> k \<longrightarrow> group_get l' j = group_get l j) \<and> pl_pins l' = pl_pins l \<and> validate_pins x l' = Inr ()"
proof (rule record_group_InrD [OF assms(2,3)])
  fix fresh
  assume f: "check_chain c = Inr ()" "gp_signer fresh = chain_signer x c" "gp_anchor fresh = chain_anchor x c"
    and g: "group_get l' k = Some (case group_get l k of None \<Rightarrow> fresh | Some g \<Rightarrow> update_group x g fresh c upd)"
    and fr: "\<And>j. j \<noteq> k \<Longrightarrow> group_get l' j = group_get l j" "pl_pins l' = pl_pins l" "validate_pins x l' = Inr ()"
  have own: "continued_by x h c" if "gp_signer h = chain_signer x c"
    "gp_anchor h = chain_anchor x c \<or> holds_anchor x (gp_anchor h) (gc_digests c)" for h
    by (rule continued_by_own [OF assms(1) f(1) assms(4) that])
  note u = update_group_signer [of fresh x c] f(2,3)
  have "\<exists>g'. lookup_group x l' k c = Inr (GroupSame g') \<and> gp_signer g' = chain_signer x c"
    if "\<forall>g. group_get l k = Some g \<longrightarrow> continued_by x g c \<or> upd = GroupAccepted"
  proof (cases "group_get l k")
    case None
    with g f own [of fresh] show ?thesis by (simp add: lookup_group_def)
  next
    case (Some h)
    with that u(1) [OF f(2,3), of h upd] g own [of "update_group x h fresh c upd"] f(1) show ?thesis
      by (simp add: lookup_group_def)
  qed
  then show ?thesis using g fr by (auto simp: update_group_def keep_last_last max_replaced_def)
qed

theorem mailbox_is_followed_along_its_chain_witness:
  "\<exists>g'. lookup_group demo_pins_ext demo_pins_mailbox demo_mailbox demo_chain = Inr (GroupSame g')"
proof -
  have n: "length (gc_digests demo_chain) < 2 ^ 64" "group_get demo_pins demo_mailbox = None" by code_simp+
  from mailbox_is_followed_along_its_chain [OF demo_pins_laws(1) demo_pins_valid demo_mailbox_met n(1)] n(2) show ?thesis
    by auto
qed

text \<open>C40: The instants the program writes are Gregorian: up to the year 9999, the date in a pin's \<open>since\<close> and in a
  message's \<open>sentAt\<close> is the one counting days from 1970-01-01 with the leap-year rule reaches, and the list
  accepts both texts as RFC 3339 instants.\<close>

theorem instants_are_gregorian:
  assumes "s < 253402300800" and "ms < 1000"
  shows "since_from_unix s = date_text ((next_day ^^ (s div 86400)) (1970, 1, 1)) @ ''T'' @ clock_text (int (s mod 86400)) @ ''Z'' \<and>
    rfc3339 (int (s * 1000 + ms)) =
      date_text ((next_day ^^ (s div 86400)) (1970, 1, 1)) @ ''T'' @ clock_text (int (s mod 86400)) @ ''.'' @ pad_int 3 (int ms) @ ''Z'' \<and>
    rfc3339_utc (since_from_unix s) \<and> rfc3339_utc (rfc3339 (int (s * 1000 + ms)))"
  using instants_gregorian [OF assms] by blast

theorem instants_are_gregorian_witness:
  "since_from_unix 951782400 = ''2000-02-29T00:00:00Z'' \<and> rfc3339_utc (since_from_unix 951782400)"
proof -
  have b: "(951782400 :: nat) < 253402300800" "(0 :: nat) < 1000" by simp_all
  have "civil_from_days 11016 = (2000, 2, 29)"
    using civil_of_day_number [of 399 365 2 4]
    by (simp add: day_number_def era_start_def month_start_def month_span_def month_days_def march_year_days_def leap_year_def)
  then have "since_from_unix 951782400 = ''2000-02-29T00:00:00Z''"
    by (simp add: since_from_unix_def date_text_def clock_text_def pad_int_def pad_left_def decimal.simps char_of_def bit_0)
  with instants_are_gregorian [OF b] show ?thesis by simp
qed

end
