(* ===== verification/Blocks.thy ===== *)
theory Blocks
  imports Primitives Padding
begin

text \<open>
  The seekable framing of every large object (\<open>kutup-crypto/src/blocks.rs\<close>): 4 MiB blocks, each sealed on its
  own and bound to its index and to whether it is the last; a sealed manifest of the blocks' hashes; a trailer
  that says where the manifest starts.  Sizes and counts are \<open>nat\<close>: a count is at most \<open>2 ^ 20\<close> and a size at most
  \<open>2 ^ 42\<close> wherever the code adds or multiplies them; the one sum it checks is checked.
\<close>

section \<open>Sizes\<close>

definition block_size :: nat where "block_size = 4 * 1024 * 1024"
definition block_nonce_len :: nat where "block_nonce_len = 24"
definition block_tag_len :: nat where "block_tag_len = 16"
definition block_overhead :: nat where "block_overhead = block_nonce_len + block_tag_len"
definition block_hash_len :: nat where "block_hash_len = 32"
definition trailer_len :: nat where "trailer_len = 12"
definition max_blocks :: nat where "max_blocks = 2 ^ 20"
definition block_key_len :: nat where "block_key_len = 32"
definition manifest_fixed_len :: nat where "manifest_fixed_len = 4 + 4 + 8"
definition signer_none :: u8 where "signer_none = 0"
definition signer_drive_signing_key :: u8 where "signer_drive_signing_key = 1"
definition account_len :: nat where "account_len = 16"
definition block_signature_len :: nat where "block_signature_len = 64"
definition manifest_aad_label :: bytes where "manifest_aad_label = bytes_of_string ''manifest''"

record block_family =
  bf_block_key_label :: bytes
  bf_nonce_key_label :: bytes
  bf_manifest_key_label :: bytes
  bf_signature_domain :: bytes
  bf_trailer_magic :: bytes
  bf_signed :: bool

definition signer_len :: "block_family \<Rightarrow> nat" where
  "signer_len f = 1 + (if bf_signed f then account_len + block_signature_len else 0)"

definition manifest_plaintext_len :: "block_family \<Rightarrow> nat \<Rightarrow> crypto_error + nat" where
  "manifest_plaintext_len f count =
     bindr (require (\<not> (count = 0 \<or> count > max_blocks)) (InvalidInput ''a block object has 1 to MAX_BLOCKS blocks'')) (\<lambda>_.
     Inr (manifest_fixed_len + count * block_hash_len + signer_len f))"

definition sealed_manifest_len :: "block_family \<Rightarrow> nat \<Rightarrow> crypto_error + nat" where
  "sealed_manifest_len f count =
     bindr (manifest_plaintext_len f count) (\<lambda>n. Inr (block_nonce_len + n + block_tag_len))"

definition too_large :: crypto_error where "too_large = InvalidInput ''block object too large''"

definition block_count :: "nat \<Rightarrow> crypto_error + nat" where
  "block_count sz =
     (let count = max (div_ceil sz block_size) 1
      in bindr (require (\<not> count > max_blocks) too_large) (\<lambda>_. Inr count))"

definition object_len :: "block_family \<Rightarrow> nat \<Rightarrow> nat \<Rightarrow> crypto_error + nat" where
  "object_len f header_len sz =
     bindr (block_count sz) (\<lambda>count.
     bindr (ok_or (usize_add sz (count * block_overhead)) too_large) (\<lambda>body.
     bindr (sealed_manifest_len f count) (\<lambda>n. Inr (header_len + body + n + trailer_len))))"

definition check_structure :: "block_family \<Rightarrow> nat \<Rightarrow> nat \<Rightarrow> nat \<Rightarrow> crypto_error + nat" where
  "check_structure f header_len total_len manifest_len =
     (let fixed = block_nonce_len + manifest_fixed_len + signer_len f + block_tag_len
      in bindr (require (\<not> (manifest_len < fixed + block_hash_len \<or> (manifest_len - fixed) mod block_hash_len \<noteq> 0))
           (InvalidInput ''block object manifest length is malformed'')) (\<lambda>_.
         let count = (manifest_len - fixed) div block_hash_len
         in bindr (require (\<not> count > max_blocks) (InvalidInput ''block object has too many blocks'')) (\<lambda>_.
            bindr (require (header_len + manifest_len + trailer_len \<le> total_len) TooShort) (\<lambda>_.
            let body = total_len - (header_len + manifest_len + trailer_len);
                full = (count - 1) * (block_size + block_overhead)
            in bindr (require (full \<le> body) TooShort) (\<lambda>_.
               bindr (require (block_overhead \<le> body - full \<and> body - full \<le> block_size + block_overhead)
                 (InvalidInput ''block object length does not fit its block count'')) (\<lambda>_.
               Inr count))))))"

definition parse_trailer :: "block_family \<Rightarrow> bytes \<Rightarrow> crypto_error + nat" where
  "parse_trailer f trailer =
     bindr (require (\<not> (length trailer \<noteq> trailer_len \<or> drop 4 trailer \<noteq> bf_trailer_magic f))
       (InvalidInput ''block object trailer is malformed'')) (\<lambda>_.
     let n = from_be (take 4 trailer)
     in bindr (sealed_manifest_len f max_blocks) (\<lambda>most.
        if n > most then Inl (InvalidInput ''block object manifest length is out of range'')
        else bindr (sealed_manifest_len f 1) (\<lambda>least.
          bindr (require (\<not> n < least) (InvalidInput ''block object manifest length is out of range'')) (\<lambda>_.
          Inr n))))"

definition block_plaintext_len :: "nat \<Rightarrow> nat \<Rightarrow> crypto_error + nat" where
  "block_plaintext_len sz index =
     bindr (block_count sz) (\<lambda>count.
     bindr (require (\<not> index \<ge> count) (InvalidInput ''block index out of range'')) (\<lambda>_.
     Inr (min (sz - index * block_size) block_size)))"

definition block_offset :: "nat \<Rightarrow> nat \<Rightarrow> nat" where
  "block_offset header_len index = header_len + index * (block_size + block_overhead)"

section \<open>Blocks\<close>

record block_keys =
  bk_block :: bytes
  bk_nonce :: bytes
  bk_manifest :: bytes

definition derive_block_key :: "'a ext_scheme \<Rightarrow> bytes \<Rightarrow> bytes \<Rightarrow> bytes \<Rightarrow> bytes" where
  "derive_block_key x label ikm header = hkdf_sha256 x label ikm header block_key_len"

definition block_keys_derive :: "'a ext_scheme \<Rightarrow> block_family \<Rightarrow> bytes \<Rightarrow> bytes \<Rightarrow> crypto_error + block_keys" where
  "block_keys_derive x f ikm header =
     bindr (require (length ikm = block_key_len) (InvalidLength block_key_len (length ikm))) (\<lambda>_.
     bindr (aead_new (derive_block_key x (bf_block_key_label f) ikm header)) (\<lambda>block.
     bindr (aead_new (derive_block_key x (bf_manifest_key_label f) ikm header)) (\<lambda>manifest.
     Inr \<lparr>bk_block = block, bk_nonce = derive_block_key x (bf_nonce_key_label f) ikm header, bk_manifest = manifest\<rparr>)))"

definition index_u32 :: "nat \<Rightarrow> crypto_error + bytes" where
  "index_u32 index = bindr (require (index < 2 ^ 32) (InvalidInput ''block index out of range'')) (\<lambda>_. Inr (be32 index))"

definition last_byte :: "bool \<Rightarrow> u8" where "last_byte b = (if b then 1 else 0)"

definition block_aad :: "bytes \<Rightarrow> nat \<Rightarrow> bool \<Rightarrow> crypto_error + bytes" where
  "block_aad header index is_last = bindr (index_u32 index) (\<lambda>i. Inr (header @ i @ [last_byte is_last]))"

definition block_nonce :: "'a ext_scheme \<Rightarrow> block_keys \<Rightarrow> nat \<Rightarrow> bool \<Rightarrow> bytes \<Rightarrow> crypto_error + bytes" where
  "block_nonce x keys index is_last plaintext =
     bindr (index_u32 index) (\<lambda>i.
     Inr (take block_nonce_len (hmac_sha256 x (bk_nonce keys) (i @ [last_byte is_last] @ sha256 x plaintext))))"

definition seal_block ::
  "'a ext_scheme \<Rightarrow> block_keys \<Rightarrow> bytes \<Rightarrow> nat \<Rightarrow> bool \<Rightarrow> bytes \<Rightarrow> crypto_error + bytes" where
  "seal_block x keys header index is_last plaintext =
     bindr (require (\<not> (length plaintext > block_size \<or> \<not> is_last \<and> length plaintext \<noteq> block_size))
       (InvalidInput ''only the last block may be shorter than the block size'')) (\<lambda>_.
     bindr (block_nonce x keys index is_last plaintext) (\<lambda>nonce.
     bindr (block_aad header index is_last) (\<lambda>aad.
     bindr (seal_with_nonce x (bk_block keys) nonce aad plaintext) (\<lambda>sealed. Inr (nonce @ sealed)))))"

definition open_block ::
  "'a ext_scheme \<Rightarrow> block_keys \<Rightarrow> bytes \<Rightarrow> nat \<Rightarrow> bool \<Rightarrow> bytes \<Rightarrow> crypto_error + bytes" where
  "open_block x keys header index is_last block =
     bindr (require (\<not> (length block < block_overhead \<or> length block > block_size + block_overhead))
       (InvalidLength (block_size + block_overhead) (length block))) (\<lambda>_.
     bindr (block_aad header index is_last) (\<lambda>aad.
     bindr (map_err (\<lambda>_. AuthFailed) (open_with_nonce x (bk_block keys) (take block_nonce_len block) aad
       (drop block_nonce_len block))) (\<lambda>plaintext.
     bindr (require (\<not> (\<not> is_last \<and> length plaintext \<noteq> block_size)) AuthFailed) (\<lambda>_. Inr plaintext))))"

section \<open>The manifest\<close>

record manifest_signer =
  ms_account_id :: bytes
  ms_signature :: bytes

record manifest =
  mf_size :: nat
  mf_count :: nat
  mf_hashes :: "bytes list"
  mf_signer :: "manifest_signer option"
  mf_signed_message :: bytes

definition verify_signer :: "'a ext_scheme \<Rightarrow> manifest \<Rightarrow> bytes \<Rightarrow> crypto_error + unit" where
  "verify_signer x m key =
     bindr (ok_or (mf_signer m) (InvalidInput ''the manifest is not signed'')) (\<lambda>s.
     verify_signature x key (mf_signed_message m) (ms_signature s))"

text \<open>The fields of a manifest as it is sealed and signed: sizes, then every block's hash.\<close>

definition manifest_fields :: "nat \<Rightarrow> bytes list \<Rightarrow> bytes" where
  "manifest_fields sz hashes =
     be32 (block_size mod 2 ^ 32) @ be32 (length hashes mod 2 ^ 32) @ be64 (word_of_nat sz) @ concat hashes"

definition signed_message :: "block_family \<Rightarrow> bytes \<Rightarrow> bytes \<Rightarrow> nat \<Rightarrow> bytes list \<Rightarrow> bytes" where
  "signed_message f header account sz hashes =
     bf_signature_domain f @ header @ account @ manifest_fields sz hashes"

definition manifest_aad :: "bytes \<Rightarrow> bytes" where "manifest_aad header = header @ manifest_aad_label"
definition manifest_digest :: "'a ext_scheme \<Rightarrow> bytes \<Rightarrow> bytes" where "manifest_digest x sealed_manifest = sha256 x sealed_manifest"

definition seal_manifest :: "'a ext_scheme \<Rightarrow> block_keys \<Rightarrow> bytes \<Rightarrow> bytes \<Rightarrow> bytes \<Rightarrow> crypto_error + bytes" where
  "seal_manifest x keys header plaintext nonce =
     bindr (seal_with_nonce x (bk_manifest keys) nonce (manifest_aad header) plaintext) (\<lambda>sealed. Inr (nonce @ sealed))"

fun chunks :: "nat \<Rightarrow> 'b list \<Rightarrow> 'b list list" where
  "chunks n xs = (if xs = [] \<or> n = 0 then [] else take n xs # chunks n (drop n xs))"

declare chunks.simps [simp del]

definition manifest_malformed :: crypto_error where
  "manifest_malformed = InvalidInput ''block object manifest is malformed''"

definition parse_signer :: "block_family \<Rightarrow> bytes \<Rightarrow> crypto_error + manifest_signer option" where
  "parse_signer f signer_bytes =
     (if bf_signed f
      then (case signer_bytes of [] \<Rightarrow> Inl manifest_malformed
        | kind # rest \<Rightarrow>
            bindr (require (kind = signer_drive_signing_key \<and> length rest = account_len + block_signature_len)
              manifest_malformed) (\<lambda>_.
            Inr (Some \<lparr>ms_account_id = take account_len rest, ms_signature = drop account_len rest\<rparr>)))
      else bindr (require (signer_bytes = [signer_none]) manifest_malformed) (\<lambda>_. Inr None))"

definition parse_manifest :: "block_family \<Rightarrow> bytes \<Rightarrow> bytes \<Rightarrow> crypto_error + manifest" where
  "parse_manifest f header plaintext =
     bindr (require (\<not> length plaintext < manifest_fixed_len) manifest_malformed) (\<lambda>_.
     let bsize = from_be (take 4 plaintext);
         count = from_be (take 4 (drop 4 plaintext));
         sz = from_be (take 8 (drop 8 plaintext))
     in bindr (require (bsize = block_size) manifest_malformed) (\<lambda>_.
        bindr (block_count sz) (\<lambda>n.
        bindr (require (count = n) manifest_malformed) (\<lambda>_.
        bindr (manifest_plaintext_len f count) (\<lambda>len.
        bindr (require (length plaintext = len) manifest_malformed) (\<lambda>_.
        let hashes_end = manifest_fixed_len + count * block_hash_len;
            hashes = chunks block_hash_len (drop manifest_fixed_len (take hashes_end plaintext))
        in bindr (parse_signer f (drop hashes_end plaintext)) (\<lambda>signer.
           Inr \<lparr>mf_size = sz, mf_count = count, mf_hashes = hashes, mf_signer = signer,
             mf_signed_message = (case signer of None \<Rightarrow> []
               | Some s \<Rightarrow> signed_message f header (ms_account_id s) sz hashes)\<rparr>)))))))"

section \<open>Sealing an object\<close>

record block_sealer =
  se_family :: block_family
  se_keys :: block_keys
  se_header :: bytes
  se_size :: nat
  se_count :: nat
  se_hashes :: "bytes list"

definition sealer_new :: "'a ext_scheme \<Rightarrow> block_family \<Rightarrow> bytes \<Rightarrow> bytes \<Rightarrow> nat \<Rightarrow> crypto_error + block_sealer" where
  "sealer_new x f ikm header sz =
     bindr (block_count sz) (\<lambda>count.
     bindr (block_keys_derive x f ikm header) (\<lambda>keys.
     Inr \<lparr>se_family = f, se_keys = keys, se_header = header, se_size = sz, se_count = count, se_hashes = []\<rparr>))"

definition next_index :: "block_sealer \<Rightarrow> nat" where "next_index s = length (se_hashes s)"

definition seal_next :: "'a ext_scheme \<Rightarrow> block_sealer \<Rightarrow> bytes \<Rightarrow> crypto_error + bytes \<times> block_sealer" where
  "seal_next x s plaintext =
     (let index = next_index s
      in bindr (require (\<not> index \<ge> se_count s) (InvalidInput ''every block is sealed already'')) (\<lambda>_.
         bindr (block_plaintext_len (se_size s) index) (\<lambda>n.
         bindr (require (length plaintext = n)
           (InvalidInput ''a block holds its share of the size, no more and no less'')) (\<lambda>_.
         bindr (seal_block x (se_keys s) (se_header s) index (index + 1 = se_count s) plaintext) (\<lambda>block.
         Inr (block, s\<lparr>se_hashes := se_hashes s @ [sha256 x block]\<rparr>))))))"

record sealed_object =
  so_bytes :: bytes
  so_manifest_sha256 :: bytes

text \<open>\<open>finish\<close>, given the manifest's nonce and the signer's seed and account.\<close>

definition finish_sealer ::
  "'a ext_scheme \<Rightarrow> block_sealer \<Rightarrow> (bytes \<times> bytes) option \<Rightarrow> bytes \<Rightarrow> crypto_error + sealed_object" where
  "finish_sealer x s signer nonce =
     bindr (require (next_index s = se_count s) (InvalidInput ''the manifest comes after every block'')) (\<lambda>_.
     bindr (manifest_plaintext_len (se_family s) (se_count s)) (\<lambda>_.
     bindr (case signer of
         Some (seed, account) \<Rightarrow>
           if bf_signed (se_family s)
           then Inr (signer_drive_signing_key # account @
             ed25519_sign x seed (signed_message (se_family s) (se_header s) account (se_size s) (se_hashes s)))
           else Inl (InvalidInput ''a signed family's manifest is signed, another's is not'')
       | None \<Rightarrow>
           if bf_signed (se_family s)
           then Inl (InvalidInput ''a signed family's manifest is signed, another's is not'')
           else Inr [signer_none]) (\<lambda>signed.
     bindr (seal_manifest x (se_keys s) (se_header s)
       (be32 (block_size mod 2 ^ 32) @ be32 (se_count s mod 2 ^ 32) @ be64 (word_of_nat (se_size s)) @
        concat (se_hashes s) @ signed) nonce) (\<lambda>tail.
     bindr (require (length tail < 2 ^ 32) (InvalidInput ''manifest too large'')) (\<lambda>_.
     Inr \<lparr>so_bytes = tail @ be32 (length tail) @ bf_trailer_magic (se_family s),
       so_manifest_sha256 = manifest_digest x tail\<rparr>)))))"

fun seal_all :: "'a ext_scheme \<Rightarrow> block_sealer \<Rightarrow> bytes list \<Rightarrow> crypto_error + bytes list \<times> block_sealer" where
  "seal_all x s [] = Inr ([], s)"
| "seal_all x s (p # ps) =
     bindr (seal_next x s p) (\<lambda>(block, s).
     bindr (seal_all x s ps) (\<lambda>(blocks, s). Inr (block # blocks, s)))"

definition seal_object ::
  "'a ext_scheme \<Rightarrow> block_family \<Rightarrow> bytes \<Rightarrow> bytes \<Rightarrow> bytes \<Rightarrow> (bytes \<times> bytes) option \<Rightarrow> bytes \<Rightarrow>
   crypto_error + sealed_object" where
  "seal_object x f ikm header plaintext signer nonce =
     bindr (sealer_new x f ikm header (length plaintext)) (\<lambda>s.
     bindr (object_len f (length header) (length plaintext)) (\<lambda>_.
     bindr (seal_all x s ((if plaintext = [] then [[]] else []) @ chunks block_size plaintext)) (\<lambda>(blocks, s).
     bindr (finish_sealer x s signer nonce) (\<lambda>tail.
     Inr \<lparr>so_bytes = header @ concat blocks @ so_bytes tail, so_manifest_sha256 = so_manifest_sha256 tail\<rparr>))))"

section \<open>Opening an object\<close>

record block_reader =
  br_family :: block_family
  br_keys :: block_keys
  br_header :: bytes
  br_manifest :: manifest

definition reader_open ::
  "'a ext_scheme \<Rightarrow> block_family \<Rightarrow> bytes \<Rightarrow> bytes \<Rightarrow> bytes \<Rightarrow> bytes \<Rightarrow> crypto_error + block_reader" where
  "reader_open x f ikm header sealed_manifest expected =
     bindr (sealed_manifest_len f 1) (\<lambda>least.
     if length sealed_manifest < least then Inl (InvalidInput ''block object manifest length is out of range'')
     else bindr (sealed_manifest_len f max_blocks) (\<lambda>most.
       bindr (require (\<not> length sealed_manifest > most)
         (InvalidInput ''block object manifest length is out of range'')) (\<lambda>_.
       bindr (require (manifest_digest x sealed_manifest = expected) AuthFailed) (\<lambda>_.
       bindr (block_keys_derive x f ikm header) (\<lambda>keys.
       bindr (map_err (\<lambda>_. AuthFailed) (open_sealed x (bk_manifest keys) (manifest_aad header) sealed_manifest)) (\<lambda>plaintext.
       bindr (parse_manifest f header plaintext) (\<lambda>m.
       Inr \<lparr>br_family = f, br_keys = keys, br_header = header, br_manifest = m\<rparr>)))))))"

definition reader_object_len :: "block_reader \<Rightarrow> crypto_error + nat" where
  "reader_object_len r = object_len (br_family r) (length (br_header r)) (mf_size (br_manifest r))"

definition reader_open_block :: "'a ext_scheme \<Rightarrow> block_reader \<Rightarrow> nat \<Rightarrow> bytes \<Rightarrow> crypto_error + bytes" where
  "reader_open_block x r index block =
     bindr (ok_or (if index < length (mf_hashes (br_manifest r)) then Some (mf_hashes (br_manifest r) ! index) else None)
       (InvalidInput ''block index out of range'')) (\<lambda>expected.
     bindr (require (sha256 x block = expected) AuthFailed) (\<lambda>_.
     bindr (open_block x (br_keys r) (br_header r) index (index + 1 = mf_count (br_manifest r)) block) (\<lambda>plaintext.
     bindr (block_plaintext_len (mf_size (br_manifest r)) index) (\<lambda>n.
     bindr (require (length plaintext = n) AuthFailed) (\<lambda>_. Inr plaintext)))))"

definition manifest_range :: "block_family \<Rightarrow> nat \<Rightarrow> bytes \<Rightarrow> crypto_error + nat \<times> nat" where
  "manifest_range f header_len object =
     bindr (require (\<not> length object < header_len + trailer_len) TooShort) (\<lambda>_.
     let stop = length object - trailer_len
     in bindr (parse_trailer f (drop stop object)) (\<lambda>n.
        bindr (require (n \<le> stop \<and> stop - n \<ge> header_len) TooShort) (\<lambda>_. Inr (stop - n, stop))))"

definition subrange :: "nat \<Rightarrow> nat \<Rightarrow> 'b list \<Rightarrow> 'b list" where
  "subrange start stop xs = drop start (take stop xs)"

definition trailer_manifest_digest :: "'a ext_scheme \<Rightarrow> bytes \<Rightarrow> nat \<Rightarrow> block_family \<Rightarrow> crypto_error + bytes" where
  "trailer_manifest_digest x object header_len f =
     bindr (manifest_range f header_len object) (\<lambda>(start, stop). Inr (manifest_digest x (subrange start stop object)))"

definition open_object_block :: "'a ext_scheme \<Rightarrow> block_reader \<Rightarrow> nat \<Rightarrow> bytes \<Rightarrow> nat \<Rightarrow> crypto_error + bytes" where
  "open_object_block x r header_len object index =
     (let start = block_offset header_len index
      in bindr (block_plaintext_len (mf_size (br_manifest r)) index) (\<lambda>n.
         bindr (require (start + (n + block_overhead) \<le> length object) TooShort) (\<lambda>_.
         reader_open_block x r index (subrange start (start + (n + block_overhead)) object))))"

definition open_object ::
  "'a ext_scheme \<Rightarrow> block_family \<Rightarrow> bytes \<Rightarrow> nat \<Rightarrow> bytes \<Rightarrow> bytes \<Rightarrow> crypto_error + bytes \<times> manifest" where
  "open_object x f ikm header_len object expected =
     bindr (manifest_range f header_len object) (\<lambda>(start, stop).
     bindr (check_structure f header_len (length object) (stop - start)) (\<lambda>count.
     bindr (reader_open x f ikm (take header_len object) (subrange start stop object) expected) (\<lambda>r.
     let mismatch = InvalidInput ''block object length does not match its manifest''
     in bindr (require (mf_count (br_manifest r) = count) mismatch) (\<lambda>_.
        bindr (reader_object_len r) (\<lambda>len.
        bindr (require (len = length object) mismatch) (\<lambda>_.
        bindr (collectr (open_object_block x r header_len object) [0..<count]) (\<lambda>plaintexts.
        Inr (concat plaintexts, br_manifest r))))))))"

end
