(* ===== verification/Block_Families.thy ===== *)
theory Block_Families
  imports Blocks
begin

text \<open>
  The three families of block objects: Drive files (\<open>drive_blocks.rs\<close>, with the UUIDs of \<open>drive_object.rs\<close> and the
  content commitment of \<open>file_metadata.rs\<close>), Chat attachments (\<open>chat_media_blocks.rs\<close>), and the padded media of
  Chat backups (\<open>chat_backup_media.rs\<close>, \<open>chat_backup_media_blocks.rs\<close>).  Array-typed fields of a context are
  lists of bytes; the lengths their types fix are hypotheses where a proof needs them.
\<close>

section \<open>Canonical UUIDs\<close>

definition nibble :: "char \<Rightarrow> nat option" where
  "nibble c = (if is_digit c then Some (of_char c - 48)
     else if CHR ''a'' \<le> c \<and> c \<le> CHR ''f'' then Some (of_char c - 97 + 10) else None)"

definition uuid_hyphen :: "nat \<Rightarrow> bool" where
  "uuid_hyphen i \<longleftrightarrow> i = 8 \<or> i = 13 \<or> i = 18 \<or> i = 23"

definition uuid_error :: "string \<Rightarrow> string \<Rightarrow> crypto_error" where
  "uuid_error field what = InvalidInput (''Drive '' @ field @ '' UUID is '' @ what)"

text \<open>The loop: the index, the first half of the current byte, the bytes so far.\<close>

fun uuid_loop :: "string \<Rightarrow> nat \<Rightarrow> nat option \<Rightarrow> bytes \<Rightarrow> string \<Rightarrow> crypto_error + bytes \<times> nat option" where
  "uuid_loop field index high output [] = Inr (output, high)"
| "uuid_loop field index high output (c # cs) =
     (if uuid_hyphen index then uuid_loop field (Suc index) high output cs
      else bindr (ok_or (nibble c) (uuid_error field ''not canonical'')) (\<lambda>n.
        case high of
          Some h \<Rightarrow> uuid_loop field (Suc index) None (output @ [word_of_nat (h * 16 + n)]) cs
        | None \<Rightarrow> uuid_loop field (Suc index) (Some n) output cs))"

definition parse_canonical_uuid :: "string \<Rightarrow> string \<Rightarrow> crypto_error + bytes" where
  "parse_canonical_uuid value field =
     bindr (require (\<not> (length value \<noteq> 36 \<or> value ! 8 \<noteq> CHR ''-'' \<or> value ! 13 \<noteq> CHR ''-'' \<or> value ! 18 \<noteq> CHR ''-'' \<or>
         value ! 23 \<noteq> CHR ''-'')) (uuid_error field ''invalid'')) (\<lambda>_.
     bindr (uuid_loop field 0 None [] value) (\<lambda>(output, high).
     bindr (require (length output = 16 \<and> high = None) (uuid_error field ''invalid'')) (\<lambda>_. Inr output)))"

fun canonical_uuid_from :: "nat \<Rightarrow> bytes \<Rightarrow> string" where
  "canonical_uuid_from index [] = []"
| "canonical_uuid_from index (b # bs) =
     (if index = 4 \<or> index = 6 \<or> index = 8 \<or> index = 10 then [CHR ''-''] else []) @
     hex_byte b @ canonical_uuid_from (Suc index) bs"

definition canonical_uuid :: "bytes \<Rightarrow> string" where
  "canonical_uuid bs = canonical_uuid_from 0 bs"

section \<open>What metadata commits to\<close>

definition metadata_invalid :: "string \<Rightarrow> crypto_error" where
  "metadata_invalid what = InvalidInput (''file metadata: '' @ what)"

definition decode_digest :: "'a ext_scheme \<Rightarrow> string \<Rightarrow> crypto_error + bytes" where
  "decode_digest x value =
     bindr (ok_or (std_decode x value) (metadata_invalid ''digest'')) (\<lambda>bs.
     bindr (require (std_encode x bs = value) (metadata_invalid ''digest'')) (\<lambda>_.
     bindr (require (length bs = 32) (metadata_invalid ''digest'')) (\<lambda>_. Inr bs)))"

record content_commitment =
  cc_revision_id :: string
  cc_manifest_sha256 :: string

definition commitment_new :: "'a ext_scheme \<Rightarrow> bytes \<Rightarrow> bytes \<Rightarrow> content_commitment" where
  "commitment_new x revision_id digest =
     \<lparr>cc_revision_id = canonical_uuid revision_id, cc_manifest_sha256 = std_encode x digest\<rparr>"

definition commitment_validate :: "'a ext_scheme \<Rightarrow> content_commitment \<Rightarrow> crypto_error + unit" where
  "commitment_validate x c =
     bindr (map_err (\<lambda>_. metadata_invalid ''content.revisionId'')
       (parse_canonical_uuid (cc_revision_id c) ''content revision'')) (\<lambda>_.
     bindr (map_err (\<lambda>_. metadata_invalid ''content.manifestSha256'') (decode_digest x (cc_manifest_sha256 c))) (\<lambda>_.
     Inr ()))"

definition commitment_check :: "'a ext_scheme \<Rightarrow> content_commitment \<Rightarrow> bytes \<Rightarrow> bytes \<Rightarrow> crypto_error + unit" where
  "commitment_check x c revision_id digest =
     bindr (parse_canonical_uuid (cc_revision_id c) ''content revision'') (\<lambda>committed_revision.
     bindr (decode_digest x (cc_manifest_sha256 c)) (\<lambda>committed_digest.
     require (\<not> \<not> (committed_revision = revision_id \<and> committed_digest = digest))
       (InvalidInput ''file content is not the revision its metadata commits to'')))"

section \<open>Drive files\<close>

definition drive_magic :: bytes where "drive_magic = bytes_of_string ''KUTPDB3'' @ [0]"
definition drive_blocks_header_bytes :: nat where "drive_blocks_header_bytes = 48"
definition drive_blocks_suite :: nat where "drive_blocks_suite = 2"
definition drive_purpose_file_blob :: u8 where "drive_purpose_file_blob = 1"

definition drive_blocks :: block_family where
  "drive_blocks = \<lparr>bf_block_key_label = domain_bytes ''kutup/drive-object/blocks/block-key/v1'',
     bf_nonce_key_label = domain_bytes ''kutup/drive-object/blocks/nonce-key/v1'',
     bf_manifest_key_label = domain_bytes ''kutup/drive-object/blocks/manifest-key/v1'',
     bf_signature_domain = domain_bytes ''kutup/drive-block-manifest/v1'',
     bf_trailer_magic = bytes_of_string ''KUTPDBM'' @ [0], bf_signed = True\<rparr>"

record drive_blob_context =
  db_generation :: nat
  db_file_id :: bytes
  db_revision_id :: bytes

definition zero_generation :: crypto_error where
  "zero_generation = InvalidInput ''Drive file-blob key generation must be non-zero''"

definition drive_blob_context_new :: "string \<Rightarrow> string \<Rightarrow> nat \<Rightarrow> crypto_error + drive_blob_context" where
  "drive_blob_context_new file_id revision_id generation =
     bindr (require (generation \<noteq> 0) zero_generation) (\<lambda>_.
     bindr (parse_canonical_uuid file_id ''file'') (\<lambda>file.
     bindr (parse_canonical_uuid revision_id ''revision'') (\<lambda>revision.
     Inr \<lparr>db_generation = generation, db_file_id = file, db_revision_id = revision\<rparr>)))"

definition drive_header :: "drive_blob_context \<Rightarrow> bytes" where
  "drive_header c = drive_magic @ be16 drive_blocks_suite @ [drive_purpose_file_blob, 0] @ be32 (db_generation c) @
     db_file_id c @ db_revision_id c"

definition drive_purpose :: "u8 \<Rightarrow> crypto_error + u8" where
  "drive_purpose value = (if value = 1 then Inr drive_purpose_file_blob
     else Inl (InvalidInput (''unknown Drive object purpose '' @ decimal (unat value))))"

definition inspect_drive_header :: "bytes \<Rightarrow> crypto_error + drive_blob_context" where
  "inspect_drive_header header =
     bindr (require (\<not> (length header \<noteq> drive_blocks_header_bytes \<or> take 8 header \<noteq> drive_magic))
       (InvalidInput ''not a Drive block-format header'')) (\<lambda>_.
     let other = InvalidInput ''Drive block-format header names another suite or purpose''
     in bindr (require (from_be (take 2 (drop 8 header)) = drive_blocks_suite) other) (\<lambda>_.
        bindr (drive_purpose (header ! 10)) (\<lambda>purpose.
        bindr (require (purpose = drive_purpose_file_blob \<and> header ! 11 = 0) other) (\<lambda>_.
        let generation = from_be (take 4 (drop 12 header))
        in bindr (require (generation \<noteq> 0) zero_generation) (\<lambda>_.
           Inr \<lparr>db_generation = generation, db_file_id = subrange 16 32 header, db_revision_id = subrange 32 48 header\<rparr>)))))"

definition validate_drive_header :: "bytes \<Rightarrow> drive_blob_context \<Rightarrow> crypto_error + unit" where
  "validate_drive_header header expected =
     bindr (inspect_drive_header header) (\<lambda>c.
     require (c = expected) (InvalidInput ''Drive blob is another file's, revision's or generation's''))"

text \<open>\<open>file_key\<close>, \<open>attachment_key\<close> and \<open>outer_key\<close>: the same length check in each family.\<close>

definition check_key :: "bytes \<Rightarrow> crypto_error + bytes" where
  "check_key key = bindr (require (length key = 32) (InvalidLength 32 (length key))) (\<lambda>_. Inr key)"

definition drive_sealer :: "'a ext_scheme \<Rightarrow> bytes \<Rightarrow> drive_blob_context \<Rightarrow> nat \<Rightarrow> crypto_error + block_sealer" where
  "drive_sealer x file_key c sz = bindr (check_key file_key) (\<lambda>key. sealer_new x drive_blocks key (drive_header c) sz)"

definition check_size :: "manifest \<Rightarrow> nat \<Rightarrow> crypto_error + unit" where
  "check_size m sz = require (mf_size m = sz) (InvalidInput ''the Drive blob's size is not the one its metadata names'')"

definition drive_reader ::
  "'a ext_scheme \<Rightarrow> bytes \<Rightarrow> drive_blob_context \<Rightarrow> bytes \<Rightarrow> content_commitment \<Rightarrow> nat \<Rightarrow> crypto_error + block_reader" where
  "drive_reader x file_key c sealed_manifest content sz =
     (let digest = manifest_digest x sealed_manifest
      in bindr (commitment_check x content (db_revision_id c) digest) (\<lambda>_.
         bindr (check_key file_key) (\<lambda>key.
         bindr (reader_open x drive_blocks key (drive_header c) sealed_manifest digest) (\<lambda>r.
         bindr (check_size (br_manifest r) sz) (\<lambda>_. Inr r)))))"

definition blob_len :: "nat \<Rightarrow> crypto_error + nat" where
  "blob_len sz = object_len drive_blocks drive_blocks_header_bytes sz"

definition seal_file ::
  "'a ext_scheme \<Rightarrow> bytes \<Rightarrow> bytes \<Rightarrow> bytes \<Rightarrow> drive_blob_context \<Rightarrow> bytes \<Rightarrow> bytes \<Rightarrow> crypto_error + sealed_object" where
  "seal_file x nonce plaintext file_key c seed account =
     bindr (check_key file_key) (\<lambda>key.
     seal_object x drive_blocks key (drive_header c) plaintext (Some (seed, account)) nonce)"

definition open_file ::
  "'a ext_scheme \<Rightarrow> bytes \<Rightarrow> bytes \<Rightarrow> drive_blob_context \<Rightarrow> content_commitment \<Rightarrow> nat \<Rightarrow> crypto_error + bytes \<times> manifest" where
  "open_file x object file_key expected content sz =
     bindr (require (drive_blocks_header_bytes \<le> length object) TooShort) (\<lambda>_.
     bindr (validate_drive_header (take drive_blocks_header_bytes object) expected) (\<lambda>_.
     bindr (trailer_manifest_digest x object drive_blocks_header_bytes drive_blocks) (\<lambda>digest.
     bindr (commitment_check x content (db_revision_id expected) digest) (\<lambda>_.
     bindr (check_key file_key) (\<lambda>key.
     bindr (open_object x drive_blocks key drive_blocks_header_bytes object digest) (\<lambda>(plaintext, m).
     bindr (check_size m sz) (\<lambda>_. Inr (plaintext, m))))))))"

section \<open>Chat attachments\<close>

definition chat_media_magic :: bytes where "chat_media_magic = bytes_of_string ''KUTPCM2'' @ [0]"
definition chat_media_blocks_header_bytes :: nat where "chat_media_blocks_header_bytes = 28"
definition chat_media_blocks_suite :: nat where "chat_media_blocks_suite = 2"
definition chat_media_attachment_blob :: u8 where "chat_media_attachment_blob = 1"

definition chat_media_blocks :: block_family where
  "chat_media_blocks = \<lparr>bf_block_key_label = domain_bytes ''kutup/chat-media/blocks/block-key/v1'',
     bf_nonce_key_label = domain_bytes ''kutup/chat-media/blocks/nonce-key/v1'',
     bf_manifest_key_label = domain_bytes ''kutup/chat-media/blocks/manifest-key/v1'',
     bf_signature_domain = [], bf_trailer_magic = bytes_of_string ''KUTPCMM'' @ [0], bf_signed = False\<rparr>"

definition chat_media_context :: "string \<Rightarrow> crypto_error + bytes" where
  "chat_media_context attachment_id = parse_canonical_uuid attachment_id ''Chat-media attachment''"

definition chat_media_header :: "bytes \<Rightarrow> bytes" where
  "chat_media_header attachment = chat_media_magic @ be16 chat_media_blocks_suite @ [chat_media_attachment_blob, 0] @ attachment"

definition chat_media_purpose :: "u8 \<Rightarrow> crypto_error + u8" where
  "chat_media_purpose value = (if value = 1 then Inr chat_media_attachment_blob
     else Inl (InvalidInput (''unknown Chat-media object purpose '' @ decimal (unat value))))"

definition validate_chat_media_header :: "bytes \<Rightarrow> bytes \<Rightarrow> crypto_error + unit" where
  "validate_chat_media_header header expected =
     (let other = InvalidInput ''Chat-media object is not this attachment's''
      in bindr (require (\<not> (length header \<noteq> chat_media_blocks_header_bytes \<or> take 8 header \<noteq> chat_media_magic \<or>
           from_be (take 2 (drop 8 header)) \<noteq> chat_media_blocks_suite)) other) (\<lambda>_.
         bindr (chat_media_purpose (header ! 10)) (\<lambda>purpose.
         require (\<not> (purpose \<noteq> chat_media_attachment_blob \<or> header ! 11 \<noteq> 0 \<or> subrange 12 28 header \<noteq> expected)) other)))"

definition chat_media_sealer :: "'a ext_scheme \<Rightarrow> bytes \<Rightarrow> bytes \<Rightarrow> nat \<Rightarrow> crypto_error + block_sealer" where
  "chat_media_sealer x key attachment sz =
     bindr (check_key key) (\<lambda>key. sealer_new x chat_media_blocks key (chat_media_header attachment) sz)"

definition chat_media_reader :: "'a ext_scheme \<Rightarrow> bytes \<Rightarrow> bytes \<Rightarrow> bytes \<Rightarrow> bytes \<Rightarrow> crypto_error + block_reader" where
  "chat_media_reader x key attachment sealed_manifest expected =
     bindr (check_key key) (\<lambda>key.
     reader_open x chat_media_blocks key (chat_media_header attachment) sealed_manifest expected)"

definition chat_media_object_len :: "nat \<Rightarrow> crypto_error + nat" where
  "chat_media_object_len sz = object_len chat_media_blocks chat_media_blocks_header_bytes sz"

definition seal_attachment :: "'a ext_scheme \<Rightarrow> bytes \<Rightarrow> bytes \<Rightarrow> bytes \<Rightarrow> bytes \<Rightarrow> crypto_error + sealed_object" where
  "seal_attachment x nonce plaintext key attachment =
     bindr (check_key key) (\<lambda>key. seal_object x chat_media_blocks key (chat_media_header attachment) plaintext None nonce)"

definition open_attachment :: "'a ext_scheme \<Rightarrow> bytes \<Rightarrow> bytes \<Rightarrow> bytes \<Rightarrow> bytes \<Rightarrow> crypto_error + bytes \<times> manifest" where
  "open_attachment x object key expected expected_digest =
     bindr (require (chat_media_blocks_header_bytes \<le> length object) TooShort) (\<lambda>_.
     bindr (validate_chat_media_header (take chat_media_blocks_header_bytes object) expected) (\<lambda>_.
     bindr (check_key key) (\<lambda>key.
     open_object x chat_media_blocks key chat_media_blocks_header_bytes object expected_digest)))"

section \<open>Media in Chat backups\<close>

definition minimum_bucket :: nat where "minimum_bucket = 541"

definition padding_overflow :: crypto_error where
  "padding_overflow = InvalidInput ''backup media padding overflow''"

text \<open>The next of the buckets, which grow by a twentieth; \<open>usize_add\<close> is \<open>u64::checked_add\<close>.\<close>

definition next_bucket :: "nat \<Rightarrow> nat option" where
  "next_bucket bucket = Option.bind (usize_add bucket 19) (\<lambda>v. usize_add bucket (max (v div 20) 1))"

lemma next_bucket_greater: "next_bucket b = Some c \<Longrightarrow> b < c"
  by (auto simp: next_bucket_def usize_add_def split: bind_splits if_splits)

function bucket_loop :: "nat \<Rightarrow> nat \<Rightarrow> crypto_error + nat" where
  "bucket_loop source bucket =
     (if bucket < source
      then (case next_bucket bucket of None \<Rightarrow> Inl padding_overflow | Some b \<Rightarrow> bucket_loop source b)
      else Inr bucket)"
  by pat_completeness auto
termination
  by (relation "measure (\<lambda>(source, bucket). source - bucket)") (auto dest: next_bucket_greater)

declare bucket_loop.simps [simp del]

definition padded_media_bytes :: "nat \<Rightarrow> crypto_error + nat" where
  "padded_media_bytes source =
     bindr (require (source \<noteq> 0) (InvalidInput ''backup media source cannot be empty'')) (\<lambda>_.
     bucket_loop source minimum_bucket)"

definition backup_media_magic :: bytes where "backup_media_magic = bytes_of_string ''KUTPBM2'' @ [0]"
definition backup_media_suite :: nat where "backup_media_suite = 2"
definition backup_media_header_bytes :: nat where "backup_media_header_bytes = 8 + 2 + 1 + 32 + 16 + 32 + 8 + 8"

definition backup_media_blocks :: block_family where
  "backup_media_blocks = \<lparr>bf_block_key_label = domain_bytes ''kutup/chat-backup-media/blocks/block-key/v1'',
     bf_nonce_key_label = domain_bytes ''kutup/chat-backup-media/blocks/nonce-key/v1'',
     bf_manifest_key_label = domain_bytes ''kutup/chat-backup-media/blocks/manifest-key/v1'',
     bf_signature_domain = [], bf_trailer_magic = bytes_of_string ''KUTPBMM'' @ [0], bf_signed = False\<rparr>"

datatype protection_domain = StandardChat

definition protection_domain_u8 :: "protection_domain \<Rightarrow> u8" where
  "protection_domain_u8 d = 1"

definition protection_domain_from :: "u8 \<Rightarrow> crypto_error + protection_domain" where
  "protection_domain_from value = (if value = 1 then Inr StandardChat
     else Inl (InvalidInput (''unknown Chat backup protection domain '' @ decimal (unat value))))"

record backup_media_context =
  bm_account_incarnation :: bytes
  bm_backup_incarnation :: bytes
  bm_domain :: protection_domain
  bm_media_id :: bytes

record backup_media_info =
  bi_context :: backup_media_context
  bi_source_bytes :: nat
  bi_padded_bytes :: nat

definition backup_media_header :: "backup_media_context \<Rightarrow> nat \<Rightarrow> crypto_error + bytes" where
  "backup_media_header c source =
     bindr (padded_media_bytes source) (\<lambda>padded.
     Inr (backup_media_magic @ be16 backup_media_suite @ [protection_domain_u8 (bm_domain c)] @ bm_account_incarnation c @
       bm_backup_incarnation c @ bm_media_id c @ be64 (word_of_nat source) @ be64 (word_of_nat padded)))"

definition inspect_backup_media_header :: "bytes \<Rightarrow> crypto_error + backup_media_info" where
  "inspect_backup_media_header header =
     bindr (require (\<not> (length header \<noteq> backup_media_header_bytes \<or> take 8 header \<noteq> backup_media_magic \<or>
         from_be (subrange 8 10 header) \<noteq> backup_media_suite)) (InvalidInput ''not a Chat backup media block header'')) (\<lambda>_.
     let source = from_be (subrange 91 99 header); padded = from_be (subrange 99 107 header)
     in bindr (padded_media_bytes source) (\<lambda>bucket.
        bindr (require (padded = bucket) (InvalidInput ''invalid Chat backup media padding bucket'')) (\<lambda>_.
        bindr (protection_domain_from (header ! 10)) (\<lambda>d.
        Inr \<lparr>bi_context = \<lparr>bm_account_incarnation = subrange 11 43 header, bm_backup_incarnation = subrange 43 59 header,
               bm_domain = d, bm_media_id = subrange 59 91 header\<rparr>,
             bi_source_bytes = source, bi_padded_bytes = padded\<rparr>))))"

definition backup_padding_invalid :: crypto_error where
  "backup_padding_invalid = InvalidInput ''Chat backup media padding is invalid''"

definition another_media :: crypto_error where
  "another_media = InvalidInput ''Chat backup media is another object's''"

definition backup_media_sealer :: "'a ext_scheme \<Rightarrow> bytes \<Rightarrow> backup_media_context \<Rightarrow> nat \<Rightarrow> crypto_error + block_sealer" where
  "backup_media_sealer x key c source =
     bindr (backup_media_header c source) (\<lambda>header.
     bindr (padded_media_bytes source) (\<lambda>padded.
     bindr (check_key key) (\<lambda>key. sealer_new x backup_media_blocks key header padded)))"

record media_reader =
  mr_reader :: block_reader
  mr_source_bytes :: nat

definition media_reader_open ::
  "'a ext_scheme \<Rightarrow> bytes \<Rightarrow> backup_media_context \<Rightarrow> bytes \<Rightarrow> bytes \<Rightarrow> bytes \<Rightarrow> crypto_error + media_reader" where
  "media_reader_open x key expected header sealed_manifest expected_digest =
     bindr (inspect_backup_media_header header) (\<lambda>parsed.
     bindr (require (bi_context parsed = expected) another_media) (\<lambda>_.
     bindr (check_key key) (\<lambda>key.
     bindr (reader_open x backup_media_blocks key header sealed_manifest expected_digest) (\<lambda>r.
     bindr (require (mf_size (br_manifest r) = bi_padded_bytes parsed) backup_padding_invalid) (\<lambda>_.
     Inr \<lparr>mr_reader = r, mr_source_bytes = bi_source_bytes parsed\<rparr>)))))"

definition media_open_block :: "'a ext_scheme \<Rightarrow> media_reader \<Rightarrow> nat \<Rightarrow> bytes \<Rightarrow> crypto_error + bytes" where
  "media_open_block x r index block =
     bindr (reader_open_block x (mr_reader r) index block) (\<lambda>plaintext.
     let keep = min (mr_source_bytes r - index * block_size) (length plaintext)
     in bindr (require (\<not> any (\<lambda>b. b \<noteq> 0) (drop keep plaintext)) backup_padding_invalid) (\<lambda>_.
        Inr (take keep plaintext)))"

definition backup_media_object_len :: "nat \<Rightarrow> crypto_error + nat" where
  "backup_media_object_len source =
     bindr (padded_media_bytes source) (\<lambda>padded. object_len backup_media_blocks backup_media_header_bytes padded)"

definition seal_media ::
  "'a ext_scheme \<Rightarrow> bytes \<Rightarrow> bytes \<Rightarrow> bytes \<Rightarrow> backup_media_context \<Rightarrow> crypto_error + sealed_object" where
  "seal_media x nonce source key c =
     bindr (backup_media_header c (length source)) (\<lambda>header.
     bindr (padded_media_bytes (length source)) (\<lambda>padded.
     bindr (check_key key) (\<lambda>key.
     seal_object x backup_media_blocks key header (source @ replicate (padded - length source) 0) None nonce)))"

definition open_media ::
  "'a ext_scheme \<Rightarrow> bytes \<Rightarrow> bytes \<Rightarrow> backup_media_context \<Rightarrow> bytes \<Rightarrow> crypto_error + bytes \<times> manifest" where
  "open_media x object key expected expected_digest =
     bindr (require (backup_media_header_bytes \<le> length object) TooShort) (\<lambda>_.
     bindr (inspect_backup_media_header (take backup_media_header_bytes object)) (\<lambda>parsed.
     bindr (require (bi_context parsed = expected) another_media) (\<lambda>_.
     bindr (check_key key) (\<lambda>key.
     bindr (open_object x backup_media_blocks key backup_media_header_bytes object expected_digest) (\<lambda>(plaintext, m).
     bindr (require (\<not> (mf_size m \<noteq> bi_padded_bytes parsed \<or> any (\<lambda>b. b \<noteq> 0) (drop (bi_source_bytes parsed) plaintext)))
       backup_padding_invalid) (\<lambda>_.
     Inr (take (bi_source_bytes parsed) plaintext, m)))))))"

end
