(* ===== verification/Block_Facts.thy ===== *)
theory Block_Facts
  imports Blocks
begin

text \<open>
  Facts about block objects: what their lengths are, that every block opens alone to its share of what was
  sealed, that an object opens to its plaintext, and that the manifest's digest fixes every byte of it.
\<close>

section \<open>Cutting into pieces\<close>

lemma chunks_Nil [simp]: "chunks n [] = []"
  by (simp add: chunks.simps)

lemma chunks_step: "xs \<noteq> [] \<Longrightarrow> 0 < n \<Longrightarrow> chunks n xs = take n xs # chunks n (drop n xs)"
  by (simp add: chunks.simps [of n xs])

lemma concat_chunks: "0 < n \<Longrightarrow> concat (chunks n xs) = xs"
proof (induction n xs rule: chunks.induct)
  case (1 n xs)
  then show ?case by (cases "xs = []") (auto simp: chunks_step)
qed

lemma chunks_concat: "0 < n \<Longrightarrow> \<forall>h\<in>set hs. length h = n \<Longrightarrow> chunks n (concat hs) = hs"
proof (induction hs)
  case (Cons h hs)
  then have "h @ concat hs \<noteq> []" "length h = n" by auto
  with Cons show ?case by (simp add: chunks_step)
qed simp

lemma length_chunks: "0 < n \<Longrightarrow> length (chunks n xs) = div_ceil (length xs) n"
proof (induction n xs rule: chunks.induct)
  case (1 n xs)
  show ?case
  proof (cases "xs = []")
    case False
    with 1 have l: "length (chunks n xs) = Suc (div_ceil (length xs - n) n)" by (simp add: chunks_step)
    show ?thesis
    proof (cases "n \<le> length xs")
      case True
      then have "length xs div n = Suc ((length xs - n) div n)" "length xs mod n = (length xs - n) mod n"
        using 1(2) by (simp_all add: le_div_geq le_mod_geq)
      with l show ?thesis by (simp add: div_ceil_def)
    next
      case False
      with \<open>xs \<noteq> []\<close> l show ?thesis by (simp add: div_ceil_def)
    qed
  qed (simp add: div_ceil_def)
qed

lemma nth_chunks: "0 < n \<Longrightarrow> i < length (chunks n xs) \<Longrightarrow> chunks n xs ! i = take n (drop (i * n) xs)"
proof (induction n xs arbitrary: i rule: chunks.induct)
  case (1 n xs)
  then have ne: "xs \<noteq> []" by auto
  with 1 show ?case by (cases i) (simp_all add: chunks_step add.commute)
qed

text \<open>The pieces of one length, found again by their index.\<close>

lemma slice_concat:
  "i < length bs \<Longrightarrow> \<forall>j < length bs - 1. length (bs ! j) = n \<Longrightarrow>
     take (length (bs ! i)) (drop (i * n) (concat bs @ rest)) = bs ! i"
proof (induction bs arbitrary: i)
  case (Cons b bs)
  show ?case
  proof (cases i)
    case 0
    then show ?thesis by simp
  next
    case (Suc j)
    with Cons.prems have b: "length b = n" by (metis length_Cons diff_Suc_1 less_nat_zero_code linorder_neqE_nat not_less_eq nth_Cons_0)
    have "length (bs ! j) = n" if "j < length bs - 1" for j
      using Cons.prems(2) [rule_format, of "Suc j"] that by simp
    then have "\<forall>j < length bs - 1. length (bs ! j) = n" by blast
    with Cons.IH [of j] Cons.prems(1) Suc b show ?thesis by simp
  qed
qed simp

lemma subrange_take_drop: "subrange a b xs = take (b - a) (drop a xs)"
  by (simp add: subrange_def drop_take)

section \<open>Counts and lengths\<close>

lemma block_size_pos [simp]: "0 < block_size"
  by (simp add: block_size_def)

lemma block_overhead_40: "block_overhead = 40" "block_hash_len = 32" "manifest_fixed_len = 16" "trailer_len = 12"
  "block_nonce_len = 24" "block_tag_len = 16" "block_key_len = 32" "account_len = 16" "block_signature_len = 64"
  by (simp_all add: block_overhead_def block_nonce_len_def block_tag_len_def block_hash_len_def manifest_fixed_len_def
      trailer_len_def block_key_len_def account_len_def block_signature_len_def)

lemma block_count_Inr: "block_count n = Inr c \<longleftrightarrow> c = max (div_ceil n block_size) 1 \<and> c \<le> max_blocks"
  by (auto simp: block_count_def Let_def max_blocks_def)

lemma div_ceil_pred: "0 < b \<Longrightarrow> 0 < n \<Longrightarrow> div_ceil n b = (n - 1) div b + 1"
proof -
  assume b: "0 < b" and n: "0 < n"
  show ?thesis
  proof (cases "n mod b = 0")
    case True
    then obtain k where k: "n = b * k" by (auto elim: dvdE simp: mod_eq_0_iff_dvd)
    with n obtain j where j: "k = Suc j" by (cases k) auto
    have "(n - 1) div b = j" by (rule div_nat_eqI) (use b k j in \<open>simp_all add: algebra_simps\<close>)
    with k j b show ?thesis by (simp add: div_ceil_def)
  next
    case False
    from n obtain m where m: "n = Suc m" by (cases n) auto
    with False have "Suc m div b = m div b" by (simp add: div_Suc)
    with False m show ?thesis by (simp add: div_ceil_def)
  qed
qed

text \<open>\<open>c\<close> blocks hold \<open>n\<close> bytes: all full but the last, which is empty only in an empty object.\<close>

lemma block_count_bounds:
  "block_count n = Inr c \<Longrightarrow> 0 < c \<and> c \<le> max_blocks \<and> (c - 1) * block_size \<le> n \<and> n \<le> c * block_size \<and>
     (1 < c \<longrightarrow> (c - 1) * block_size < n)"
proof -
  assume "block_count n = Inr c"
  then have c: "c = max (div_ceil n block_size) 1" "c \<le> max_blocks" unfolding block_count_Inr by blast+
  have ge: "n \<le> div_ceil n block_size * block_size" by (rule div_ceil_ge) simp
  have "div_ceil n block_size * block_size < n + block_size \<or> n = 0" using div_ceil_less [of block_size n] by auto
  then have lt: "(div_ceil n block_size - 1) * block_size < n \<or> n = 0"
    by (cases "div_ceil n block_size") (auto simp: div_ceil_def)
  from c ge lt show ?thesis
    by (cases "div_ceil n block_size = 0") (auto simp: max_def div_ceil_def split: if_splits)
qed

lemma block_count_full: "block_count n = Inr c \<Longrightarrow> Suc j < c \<Longrightarrow> min (n - j * block_size) block_size = block_size"
proof -
  assume c: "block_count n = Inr c" "Suc j < c"
  then have "Suc j * block_size \<le> (c - 1) * block_size" by (intro mult_le_mono1) simp
  with block_count_bounds [OF c(1)] have "block_size + j * block_size \<le> n" by auto
  then show ?thesis by linarith
qed

lemma block_count_total: "n \<le> max_blocks * block_size \<Longrightarrow> \<exists>c. block_count n = Inr c"
proof -
  assume n: "n \<le> max_blocks * block_size"
  have "div_ceil n block_size \<le> max_blocks"
  proof (cases "n = 0")
    case False
    with n have "(n - 1) div block_size < max_blocks" by (simp add: div_less_iff_less_mult)
    with False show ?thesis by (simp add: div_ceil_pred)
  qed (simp add: div_ceil_def)
  then show ?thesis by (simp add: block_count_def Let_def max_blocks_def)
qed

lemma block_count_unique:
  "0 < c \<Longrightarrow> c \<le> max_blocks \<Longrightarrow> n \<le> c * block_size \<Longrightarrow> (c - 1) * block_size < n \<or> c = 1 \<Longrightarrow> block_count n = Inr c"
proof -
  assume c: "0 < c" "c \<le> max_blocks" "n \<le> c * block_size" "(c - 1) * block_size < n \<or> c = 1"
  have "max (div_ceil n block_size) 1 = c"
  proof (cases "n = 0")
    case True
    with c show ?thesis by (auto simp: div_ceil_def)
  next
    case False
    then have d: "div_ceil n block_size = (n - 1) div block_size + 1" by (simp add: div_ceil_pred)
    have "(n - 1) div block_size = c - 1"
    proof (rule div_nat_eqI)
      from c(4) False show "block_size * (c - 1) \<le> n - 1" by (cases "c = 1") (auto simp: mult.commute)
      have "block_size * Suc (c - 1) = c * block_size" using c(1) by (simp add: mult.commute)
      with c(3) False show "n - 1 < block_size * Suc (c - 1)" by linarith
    qed
    with d c show ?thesis by simp
  qed
  with c show ?thesis by (simp add: block_count_Inr)
qed

lemma sealed_manifest_len_Inr:
  "sealed_manifest_len f c = Inr m \<longleftrightarrow> 0 < c \<and> c \<le> max_blocks \<and> m = 56 + c * 32 + signer_len f"
  by (auto simp: sealed_manifest_len_def manifest_plaintext_len_def block_overhead_40)

lemma object_len_Inr:
  "object_len f h n = Inr t \<Longrightarrow> \<exists>c m. block_count n = Inr c \<and> sealed_manifest_len f c = Inr m \<and>
     t = h + n + c * block_overhead + m + trailer_len"
  by (auto simp: object_len_def usize_add_def split: if_splits)

text \<open>Every object that has so many blocks fits in \<open>u64\<close>.\<close>

lemma object_len_total: "block_count n = Inr c \<Longrightarrow> \<exists>t. object_len f h n = Inr t"
proof -
  assume c: "block_count n = Inr c"
  note b = block_count_bounds [OF c]
  then have c2: "c \<le> 2 ^ 20" by (simp add: max_blocks_def)
  then have "c * block_size \<le> 2 ^ 20 * block_size" by (rule mult_le_mono1)
  with b c2 have "n + c * block_overhead < usize_bound"
    by (simp add: block_size_def block_overhead_40 usize_bound_def)
  then have u: "usize_add n (c * block_overhead) = Some (n + c * block_overhead)" by (simp add: usize_add_def)
  obtain m where "sealed_manifest_len f c = Inr m" using b sealed_manifest_len_Inr by blast
  with c u show ?thesis by (simp add: object_len_def)
qed

section \<open>The server's structural check\<close>

lemma check_structure_Inr:
  "check_structure f h t m = Inr c \<longleftrightarrow> sealed_manifest_len f c = Inr m \<and>
     (\<exists>n. (c - 1) * block_size \<le> n \<and> n \<le> c * block_size \<and> t = h + n + c * block_overhead + m + trailer_len)"
  (is "?L \<longleftrightarrow> ?R")
proof
  let ?x = "56 + signer_len f"
  assume ?L
  then have s: "?x + 32 \<le> m" "(m - ?x) mod 32 = 0" "c = (m - ?x) div 32" "c \<le> max_blocks"
    "h + m + trailer_len \<le> t" "(c - 1) * (block_size + block_overhead) \<le> t - (h + m + trailer_len)"
    "block_overhead \<le> t - (h + m + trailer_len) - (c - 1) * (block_size + block_overhead)"
    "t - (h + m + trailer_len) - (c - 1) * (block_size + block_overhead) \<le> block_size + block_overhead"
    by (auto simp: check_structure_def Let_def block_overhead_40)
  define n where "n = t - (h + m + trailer_len) - c * block_overhead"
  have "m - ?x = c * 32" using div_mult_mod_eq [of "m - ?x" 32] s(2,3) by linarith
  then have m: "m = ?x + c * 32" using s(1) by linarith
  with s(1) have c: "0 < c" by linarith
  have e: "(c - 1) * (block_size + block_overhead) = (c - 1) * block_size + (c - 1) * block_overhead"
    by (simp add: distrib_left)
  have o: "c * block_overhead = (c - 1) * block_overhead + block_overhead" "c * block_size = (c - 1) * block_size + block_size"
    using c by (cases c; simp)+
  have "(c - 1) * block_size \<le> n" unfolding n_def using s(5-8) e o by linarith
  moreover have "n \<le> c * block_size" unfolding n_def using s(5-8) e o by linarith
  moreover have "t = h + n + c * block_overhead + m + trailer_len" unfolding n_def using s(5-8) e o by linarith
  ultimately show ?R using m c s(4) unfolding sealed_manifest_len_Inr by auto
next
  assume ?R
  then obtain n where n: "(c - 1) * block_size \<le> n" "n \<le> c * block_size" "t = h + n + c * block_overhead + m + trailer_len"
    and m: "0 < c" "c \<le> max_blocks" "m = 56 + c * 32 + signer_len f" by (auto simp: sealed_manifest_len_Inr)
  have o: "c * block_overhead = (c - 1) * block_overhead + block_overhead" "c * block_size = (c - 1) * block_size + block_size"
    "(c - 1) * (block_size + block_overhead) = (c - 1) * block_size + (c - 1) * block_overhead"
    using m(1) by (cases c; simp add: distrib_left)+
  have d: "56 + c * 32 + signer_len f - (56 + signer_len f) = c * 32" by simp
  show ?L using n m(1,2) o by (auto simp: check_structure_def Let_def block_overhead_40 m(3) d) linarith+
qed

section \<open>One block\<close>

text \<open>The suite's lengths, as documented: SHA-256 and HMAC-SHA-256 give 32 bytes, HKDF as many as asked.\<close>

definition block_law :: "'a ext_scheme \<Rightarrow> bool" where
  "block_law x \<longleftrightarrow> aead_law x \<and> (\<forall>b. length (sha256 x b) = 32) \<and> (\<forall>k b. length (hmac_sha256 x k b) = 32) \<and>
     (\<forall>s k i n. length (hkdf_sha256 x s k i n) = n)"

lemma block_lawD:
  assumes "block_law x"
  shows "aead_law x" "length (sha256 x b) = 32" "length (hmac_sha256 x k b) = 32" "length (hkdf_sha256 x s k i n) = n"
  using assms by (auto simp: block_law_def)

lemma open_seal_block:
  assumes "block_law x" "seal_block x keys header i l p = Inr b"
  shows "open_block x keys header i l b = Inr p" "length b = length p + block_overhead"
proof -
  from assms(2) obtain nonce aad c where s: "length p \<le> block_size" "l \<or> length p = block_size"
    "block_aad header i l = Inr aad" "seal_with_nonce x (bk_block keys) nonce aad p = Inr c" "b = nonce @ c"
    by (auto simp: seal_block_def)
  note sp = sealed_parts [OF block_lawD(1) [OF assms(1)] s(4)]
  show l: "length b = length p + block_overhead" using s(5) sp by (simp add: block_overhead_40)
  show "open_block x keys header i l b = Inr p"
    using s l sp by (auto simp: open_block_def block_overhead_40)
qed

section \<open>Sealing every block\<close>

lemma seal_next_Inr:
  "seal_next x s p = Inr (b, s') \<longleftrightarrow> next_index s < se_count s \<and>
     block_plaintext_len (se_size s) (next_index s) = Inr (length p) \<and>
     seal_block x (se_keys s) (se_header s) (next_index s) (next_index s + 1 = se_count s) p = Inr b \<and>
     s' = s\<lparr>se_hashes := se_hashes s @ [sha256 x b]\<rparr>"
  by (auto simp: seal_next_def Let_def)

lemma seal_all_Inr:
  "seal_all x s ps = Inr (bs, s') \<Longrightarrow> length bs = length ps \<and> s' = s\<lparr>se_hashes := se_hashes s @ map (sha256 x) bs\<rparr> \<and>
     (\<forall>i<length ps. next_index s + i < se_count s \<and>
        block_plaintext_len (se_size s) (next_index s + i) = Inr (length (ps ! i)) \<and>
        seal_block x (se_keys s) (se_header s) (next_index s + i) (next_index s + i + 1 = se_count s) (ps ! i) = Inr (bs ! i))"
proof (induction ps arbitrary: s bs)
  case (Cons p ps)
  from Cons.prems obtain b t bs' where b: "seal_next x s p = Inr (b, t)" "seal_all x t ps = Inr (bs', s')" "bs = b # bs'"
    by (auto split: prod.splits)
  from b(1) have n: "next_index s < se_count s" "block_plaintext_len (se_size s) (next_index s) = Inr (length p)"
    "seal_block x (se_keys s) (se_header s) (next_index s) (next_index s + 1 = se_count s) p = Inr b"
    "t = s\<lparr>se_hashes := se_hashes s @ [sha256 x b]\<rparr>" unfolding seal_next_Inr by blast+
  from n(4) have t: "next_index t = Suc (next_index s)" "se_count t = se_count s" "se_size t = se_size s" "se_keys t = se_keys s"
    "se_header t = se_header s" "se_hashes t = se_hashes s @ [sha256 x b]" by (simp_all add: next_index_def)
  from Cons.IH [OF b(2)] have ih: "length bs' = length ps" "s' = t\<lparr>se_hashes := se_hashes t @ map (sha256 x) bs'\<rparr>"
    "\<forall>i<length ps. next_index t + i < se_count t \<and> block_plaintext_len (se_size t) (next_index t + i) = Inr (length (ps ! i)) \<and>
        seal_block x (se_keys t) (se_header t) (next_index t + i) (next_index t + i + 1 = se_count t) (ps ! i) = Inr (bs' ! i)"
    by blast+
  have "next_index s + i < se_count s \<and> block_plaintext_len (se_size s) (next_index s + i) = Inr (length ((p # ps) ! i)) \<and>
        seal_block x (se_keys s) (se_header s) (next_index s + i) (next_index s + i + 1 = se_count s) ((p # ps) ! i) = Inr (bs ! i)"
    if "i < length (p # ps)" for i
    using that n(1-3) b(3) ih(3) t by (cases i) auto
  then show ?case using ih b n(4) t by auto
qed simp

section \<open>The manifest\<close>

lemma from_be_be: "n < 2 ^ 32 \<Longrightarrow> from_be (be32 n) = n" "n < 2 ^ 64 \<Longrightarrow> from_be (be64 (word_of_nat n)) = n"
  by (simp_all add: be32_def be64_def from_to_be unat_of_nat take_bit_eq_mod)

lemma block_count_u64: "block_count n = Inr c \<Longrightarrow> n < 2 ^ 64 \<and> c < 2 ^ 32"
proof -
  assume "block_count n = Inr c"
  note b = block_count_bounds [OF this]
  then have "c \<le> 2 ^ 20" by (simp add: max_blocks_def)
  then have "c * block_size \<le> 2 ^ 20 * block_size" by (rule mult_le_mono1)
  with b \<open>c \<le> 2 ^ 20\<close> show ?thesis by (simp add: block_size_def)
qed

lemma length_concat_const: "\<forall>h\<in>set hs. length h = n \<Longrightarrow> length (concat hs) = length hs * n"
  by (induction hs) auto

text \<open>What \<open>finish\<close> writes is what \<open>parse_manifest\<close> reads.\<close>

lemma parse_manifest_fields:
  assumes "block_count n = Inr c" "length hs = c" "\<forall>h\<in>set hs. length h = 32" "parse_signer f sg = Inr signer"
    "length sg = signer_len f"
  shows "parse_manifest f header (be32 (block_size mod 2 ^ 32) @ be32 (c mod 2 ^ 32) @ be64 (word_of_nat n) @ concat hs @ sg) =
    Inr \<lparr>mf_size = n, mf_count = c, mf_hashes = hs, mf_signer = signer,
      mf_signed_message = (case signer of None \<Rightarrow> [] | Some s \<Rightarrow> signed_message f header (ms_account_id s) n hs)\<rparr>"
    (is "parse_manifest f header ?p = _")
proof -
  note b = block_count_bounds [OF assms(1)] and u = block_count_u64 [OF assms(1)]
  have l: "length (concat hs) = c * 32" using length_concat_const [OF assms(3)] assms(2) by simp
  have bs: "block_size < 2 ^ 32" by (simp add: block_size_def)
  have "take 4 ?p = be32 block_size" "take 4 (drop 4 ?p) = be32 c" "take 8 (drop 8 ?p) = be64 (word_of_nat n)"
    "drop 16 ?p = concat hs @ sg" "length ?p = 16 + c * 32 + signer_len f"
    using bs u l assms(5) by simp_all
  moreover have "drop 16 (take (16 + c * 32) ?p) = concat hs" "drop (16 + c * 32) ?p = sg"
    using l by simp_all
  moreover have "manifest_plaintext_len f c = Inr (16 + c * 32 + signer_len f)"
    using b by (simp add: manifest_plaintext_len_def block_overhead_40)
  moreover have "chunks 32 (concat hs) = hs" using assms(3) by (simp add: chunks_concat)
  moreover have "from_be (be32 block_size) = block_size" "from_be (be32 c) = c" "from_be (be64 (word_of_nat n)) = n"
    using from_be_be bs u by auto
  ultimately show ?thesis using assms(1,4)
    by (simp only: parse_manifest_def block_overhead_40 Let_def) simp
qed

section \<open>The whole object\<close>

text \<open>What a family brings: an eight-byte trailer magic.  A signed one is signed with a seed, for an account.\<close>

definition family_ok :: "block_family \<Rightarrow> bool" where
  "family_ok f \<longleftrightarrow> length (bf_trailer_magic f) = 8"

definition signer_ok :: "'a ext_scheme \<Rightarrow> (bytes \<times> bytes) option \<Rightarrow> bool" where
  "signer_ok x signer \<longleftrightarrow> (case signer of None \<Rightarrow> True
     | Some (seed, account) \<Rightarrow> ed25519_law x \<and> length seed = 32 \<and> length account = account_len)"

text \<open>The plaintext's pieces.\<close>

definition pieces :: "bytes \<Rightarrow> bytes list" where
  "pieces p = (if p = [] then [[]] else []) @ chunks block_size p"

lemma pieces:
  assumes "block_count (length p) = Inr c"
  shows "length (pieces p) = c" "concat (pieces p) = p" "i < c \<Longrightarrow> pieces p ! i = take block_size (drop (i * block_size) p)"
proof -
  have "length p \<noteq> 0 \<Longrightarrow> div_ceil (length p) block_size \<noteq> 0" using div_ceil_ge [of block_size "length p"] by (metis block_size_pos le_0_eq mult_0)
  then show "length (pieces p) = c"
    using assms by (auto simp: block_count_Inr pieces_def length_chunks div_ceil_def)
  show "concat (pieces p) = p" by (simp add: pieces_def concat_chunks)
  show "i < c \<Longrightarrow> pieces p ! i = take block_size (drop (i * block_size) p)"
  proof -
    assume "i < c"
    with \<open>length (pieces p) = c\<close> show ?thesis
      by (cases "p = []") (auto simp: pieces_def nth_chunks)
  qed
qed

lemma block_plaintext_len_Inr:
  "block_plaintext_len n i = Inr k \<longleftrightarrow> (\<exists>c. block_count n = Inr c \<and> i < c \<and> k = min (n - i * block_size) block_size)"
  by (auto simp: block_plaintext_len_def)

text \<open>The signer's part of a manifest, written and read.\<close>

definition signer_part :: "'a ext_scheme \<Rightarrow> block_sealer \<Rightarrow> (bytes \<times> bytes) option \<Rightarrow> bytes" where
  "signer_part x s signer = (case signer of None \<Rightarrow> [signer_none]
     | Some (seed, account) \<Rightarrow> signer_drive_signing_key # account @
         ed25519_sign x seed (signed_message (se_family s) (se_header s) account (se_size s) (se_hashes s)))"

lemma finish_sealer_Inr:
  assumes "finish_sealer x s signer nonce = Inr t"
  obtains sm where "next_index s = se_count s" "(signer \<noteq> None) = bf_signed (se_family s)"
    "seal_manifest x (se_keys s) (se_header s) (be32 (block_size mod 2 ^ 32) @ be32 (se_count s mod 2 ^ 32) @
       be64 (word_of_nat (se_size s)) @ concat (se_hashes s) @ signer_part x s signer) nonce = Inr sm"
    "so_bytes t = sm @ be32 (length sm) @ bf_trailer_magic (se_family s)" "so_manifest_sha256 t = sha256 x sm"
    "length sm < 2 ^ 32"
  using assms by (auto simp: finish_sealer_def signer_part_def manifest_digest_def split: option.splits prod.splits if_splits)

lemma signer_part_read:
  assumes "signer_ok x signer" "(signer \<noteq> None) = bf_signed (se_family s)"
  shows "length (signer_part x s signer) = signer_len (se_family s)"
    "parse_signer (se_family s) (signer_part x s signer) = Inr (map_option (\<lambda>(seed, account).
       \<lparr>ms_account_id = account, ms_signature =
          ed25519_sign x seed (signed_message (se_family s) (se_header s) account (se_size s) (se_hashes s))\<rparr>) signer)"
  using assms
  by (auto simp: signer_ok_def signer_part_def signer_len_def parse_signer_def block_overhead_40 ed25519_law_def
      split: option.splits)

lemma open_seal_manifest:
  assumes "block_law x" "seal_manifest x keys header p nonce = Inr sm"
  shows "open_sealed x (bk_manifest keys) (manifest_aad header) sm = Inr p" "length sm = 40 + length p"
proof -
  from assms(2) have "seal_random x (bk_manifest keys) nonce (manifest_aad header) p = Inr sm"
    by (simp add: seal_manifest_def seal_random_def)
  from open_seal_random [OF block_lawD(1) [OF assms(1)] this]
  show "open_sealed x (bk_manifest keys) (manifest_aad header) sm = Inr p" "length sm = 40 + length p"
    by (simp_all add: aead_nonce_len_def aead_tag_len_def)
qed

text \<open>The manifest a sealed object ends with.\<close>

definition object_manifest :: "'a ext_scheme \<Rightarrow> block_family \<Rightarrow> bytes \<Rightarrow> bytes \<Rightarrow> bytes list \<Rightarrow> (bytes \<times> bytes) option \<Rightarrow> manifest" where
  "object_manifest x f header p bs signer =
     \<lparr>mf_size = length p, mf_count = length bs, mf_hashes = map (sha256 x) bs,
      mf_signer = map_option (\<lambda>(seed, account). \<lparr>ms_account_id = account, ms_signature =
        ed25519_sign x seed (signed_message f header account (length p) (map (sha256 x) bs))\<rparr>) signer,
      mf_signed_message = (case signer of None \<Rightarrow> []
        | Some (seed, account) \<Rightarrow> signed_message f header account (length p) (map (sha256 x) bs))\<rparr>"

lemma seal_object_Inr:
  assumes law: "block_law x" and sg: "signer_ok x signer" and "seal_object x f ikm header p signer nonce = Inr t"
  obtains c keys bs sm where "block_count (length p) = Inr c" "block_keys_derive x f ikm header = Inr keys"
    "length bs = c" "\<And>i. i < c \<Longrightarrow> block_plaintext_len (length p) i = Inr (length (pieces p ! i)) \<and>
       seal_block x keys header i (i + 1 = c) (pieces p ! i) = Inr (bs ! i)"
    "so_bytes t = header @ concat bs @ sm @ be32 (length sm) @ bf_trailer_magic f" "so_manifest_sha256 t = sha256 x sm"
    "length sm = 56 + c * 32 + signer_len f" "length sm < 2 ^ 32"
    "reader_open x f ikm header sm (sha256 x sm) =
       Inr \<lparr>br_family = f, br_keys = keys, br_header = header, br_manifest = object_manifest x f header p bs signer\<rparr>"
proof -
  from assms(3) obtain s bs s' u where s: "sealer_new x f ikm header (length p) = Inr s"
    "seal_all x s (pieces p) = Inr (bs, s')" "finish_sealer x s' signer nonce = Inr u"
    and t: "so_bytes t = header @ concat bs @ so_bytes u" "so_manifest_sha256 t = so_manifest_sha256 u"
    by (auto simp: seal_object_def pieces_def split: prod.splits)
  from s(1) obtain c keys where c: "block_count (length p) = Inr c" and k: "block_keys_derive x f ikm header = Inr keys"
    and se: "s = \<lparr>se_family = f, se_keys = keys, se_header = header, se_size = length p, se_count = c, se_hashes = []\<rparr>"
    by (auto simp: sealer_new_def)
  note pc = pieces [OF c]
  from seal_all_Inr [OF s(2)] have bs: "length bs = c" "s' = s\<lparr>se_hashes := map (sha256 x) bs\<rparr>"
    "\<And>i. i < c \<Longrightarrow> block_plaintext_len (length p) i = Inr (length (pieces p ! i)) \<and>
       seal_block x keys header i (i + 1 = c) (pieces p ! i) = Inr (bs ! i)"
    using pc(1) by (simp_all add: se next_index_def)
  from s(3) show thesis
  proof (rule finish_sealer_Inr)
    fix sm
    assume f: "next_index s' = se_count s'" "(signer \<noteq> None) = bf_signed (se_family s')"
      "seal_manifest x (se_keys s') (se_header s') (be32 (block_size mod 2 ^ 32) @ be32 (se_count s' mod 2 ^ 32) @
         be64 (word_of_nat (se_size s')) @ concat (se_hashes s') @ signer_part x s' signer) nonce = Inr sm"
      "so_bytes u = sm @ be32 (length sm) @ bf_trailer_magic (se_family s')" "so_manifest_sha256 u = sha256 x sm"
      "length sm < 2 ^ 32"
    note sr = signer_part_read [OF sg f(2)] and om = open_seal_manifest [OF law f(3)]
    have h32: "\<forall>h\<in>set (map (sha256 x) bs). length h = 32" using block_lawD(2) [OF law] by simp
    have l: "length sm = 56 + c * 32 + signer_len f"
      using om(2) sr(1) length_concat_const [OF h32] bs(1) by (simp add: bs(2) se)
    have sg_len: "length (signer_part x s' signer) = signer_len f" and
      ps: "parse_signer f (signer_part x s' signer) = Inr (mf_signer (object_manifest x f header p bs signer))"
      using sr by (simp_all add: bs(2) se object_manifest_def)
    have hs: "length (map (sha256 x) bs) = c" by (simp add: bs(1))
    note pm = parse_manifest_fields [OF c hs h32 ps sg_len, of header]
    have "parse_manifest f header (be32 (block_size mod 2 ^ 32) @ be32 (c mod 2 ^ 32) @ be64 (word_of_nat (length p)) @
        concat (map (sha256 x) bs) @ signer_part x s' signer) = Inr (object_manifest x f header p bs signer)"
      unfolding pm by (auto simp: object_manifest_def bs(1) split: option.splits)
    moreover have "open_sealed x (bk_manifest keys) (manifest_aad header) sm = Inr (be32 (block_size mod 2 ^ 32) @
        be32 (c mod 2 ^ 32) @ be64 (word_of_nat (length p)) @ concat (map (sha256 x) bs) @ signer_part x s' signer)"
      using om(1) by (simp add: bs(2) se)
    moreover have "sealed_manifest_len f 1 = Inr (88 + signer_len f)"
      "sealed_manifest_len f max_blocks = Inr (56 + max_blocks * 32 + signer_len f)" "0 < c" "c \<le> max_blocks"
      using block_count_bounds [OF c] by (auto simp: sealed_manifest_len_Inr max_blocks_def)
    ultimately have "reader_open x f ikm header sm (sha256 x sm) =
       Inr \<lparr>br_family = f, br_keys = keys, br_header = header, br_manifest = object_manifest x f header p bs signer\<rparr>"
      by (simp add: reader_open_def k l manifest_digest_def)
    with c k bs t f(4-6) l show thesis
      by (intro that [of c keys bs sm]) (simp_all add: bs(2) se)
  qed
qed

text \<open>Any block opens alone, given the reader, to its piece; and it is where its index says.\<close>

lemma sealed_object_block:
  assumes law: "block_law x" and c: "block_count (length p) = Inr c" and bs: "length bs = c"
    and b: "\<And>i. i < c \<Longrightarrow> block_plaintext_len (length p) i = Inr (length (pieces p ! i)) \<and>
       seal_block x keys header i (i + 1 = c) (pieces p ! i) = Inr (bs ! i)" and i: "i < c"
  shows "reader_open_block x \<lparr>br_family = f, br_keys = keys, br_header = header,
      br_manifest = object_manifest x f header p bs signer\<rparr> i (bs ! i) = Inr (pieces p ! i)"
    "take (length (pieces p ! i) + block_overhead) (drop (i * (block_size + block_overhead)) (concat bs @ rest)) = bs ! i"
proof -
  from b [OF i] have p: "block_plaintext_len (length p) i = Inr (length (pieces p ! i))"
    "seal_block x keys header i (i + 1 = c) (pieces p ! i) = Inr (bs ! i)" by auto
  note o = open_seal_block [OF law p(2)]
  show "reader_open_block x \<lparr>br_family = f, br_keys = keys, br_header = header,
      br_manifest = object_manifest x f header p bs signer\<rparr> i (bs ! i) = Inr (pieces p ! i)"
    using i bs p(1) o(1) by (simp add: reader_open_block_def object_manifest_def)
  have "length (bs ! j) = block_size + block_overhead" if j: "j < length bs - 1" for j
  proof -
    from j bs have jc: "j < c" "j + 1 \<noteq> c" by auto
    from b [OF jc(1)] have s: "seal_block x keys header j (j + 1 = c) (pieces p ! j) = Inr (bs ! j)" by blast
    with jc(2) have "length (pieces p ! j) = block_size" by (auto simp: seal_block_def)
    with open_seal_block(2) [OF law s] show ?thesis by simp
  qed
  then have n: "\<forall>j<length bs - 1. length (bs ! j) = block_size + block_overhead" by blast
  have ib: "i < length bs" using i bs by simp
  from slice_concat [OF ib n, of rest] o(2)
  show "take (length (pieces p ! i) + block_overhead) (drop (i * (block_size + block_overhead)) (concat bs @ rest)) = bs ! i"
    by simp
qed

lemma sum_list_overhead:
  "length ps = length bs \<Longrightarrow> (\<And>i. i < length bs \<Longrightarrow> length (bs ! i) = length (ps ! i) + k) \<Longrightarrow>
     length (concat bs) = length (concat ps) + length bs * k"
proof (induction ps bs rule: list_induct2)
  case (Cons q qs b bs)
  from Cons.prems [of 0] have "length b = length q + k" by simp
  moreover have "length (bs ! i) = length (qs ! i) + k" if "i < length bs" for i
    using Cons.prems [of "Suc i"] that by simp
  ultimately show ?case using Cons.IH by simp
qed simp

lemma open_seal_object:
  assumes law: "block_law x" and fam: "family_ok f" and sg: "signer_ok x signer"
    and "seal_object x f ikm header p signer nonce = Inr t"
  shows "(\<exists>bs. open_object x f ikm (length header) (so_bytes t) (so_manifest_sha256 t) =
      Inr (p, object_manifest x f header p bs signer)) \<and>
    object_len f (length header) (length p) = Inr (length (so_bytes t)) \<and>
    take (length header) (so_bytes t) = header \<and>
    trailer_manifest_digest x (so_bytes t) (length header) f = Inr (so_manifest_sha256 t)"
proof -
  let ?h = "length header"
  from assms(4) show ?thesis
  proof (rule seal_object_Inr [OF law sg])
    fix c keys bs sm
    assume c: "block_count (length p) = Inr c" and bs: "length bs = c"
      and b: "\<And>i. i < c \<Longrightarrow> block_plaintext_len (length p) i = Inr (length (pieces p ! i)) \<and>
         seal_block x keys header i (i + 1 = c) (pieces p ! i) = Inr (bs ! i)"
      and t: "so_bytes t = header @ concat bs @ sm @ be32 (length sm) @ bf_trailer_magic f" "so_manifest_sha256 t = sha256 x sm"
      and sm: "length sm = 56 + c * 32 + signer_len f" "length sm < 2 ^ 32"
      and r: "reader_open x f ikm header sm (sha256 x sm) =
         Inr \<lparr>br_family = f, br_keys = keys, br_header = header, br_manifest = object_manifest x f header p bs signer\<rparr>"
    let ?r = "\<lparr>br_family = f, br_keys = keys, br_header = header, br_manifest = object_manifest x f header p bs signer\<rparr>"
    let ?body = "header @ concat bs" and ?tr = "be32 (length sm) @ bf_trailer_magic f"
    note pc = pieces [OF c] and cb = block_count_bounds [OF c]
    from fam have m: "length (bf_trailer_magic f) = 8" by (simp add: family_ok_def)
    have lb: "length (concat bs) = length p + c * block_overhead"
    proof -
      have "length (bs ! i) = length (pieces p ! i) + block_overhead" if "i < length bs" for i
      proof -
        from that bs have i: "i < c" by simp
        from b [OF i] have "seal_block x keys header i (i + 1 = c) (pieces p ! i) = Inr (bs ! i)" by blast
        from open_seal_block(2) [OF law this] show ?thesis .
      qed
      with sum_list_overhead [of "pieces p" bs block_overhead] pc bs show ?thesis by simp
    qed
    have smi: "sealed_manifest_len f c = Inr (length sm)" using cb sm(1) by (simp add: sealed_manifest_len_Inr)
    have tot: "length (so_bytes t) = ?h + length p + c * block_overhead + length sm + trailer_len"
      using m lb by (simp add: t(1) block_overhead_40)
    obtain len where len: "object_len f ?h (length p) = Inr len" using object_len_total [OF c] by blast
    from object_len_Inr [OF len] c smi tot have ol: "object_len f ?h (length p) = Inr (length (so_bytes t))"
      using len by auto
    have stop: "length (so_bytes t) - 12 = length ?body + length sm" using m by (simp add: t(1))
    have ts: "so_bytes t = (?body @ sm) @ ?tr" by (simp add: t(1))
    have dt: "drop (length ?body + length sm) (so_bytes t) = ?tr" unfolding ts
      by (subst drop_append) simp
    have "length sm \<le> 56 + max_blocks * 32 + signer_len f" "88 + signer_len f \<le> length sm" using cb sm(1) by auto
    then have pt: "parse_trailer f ?tr = Inr (length sm)"
      using m sm(2) by (simp add: parse_trailer_def block_overhead_40 Let_def sealed_manifest_len_def
          manifest_plaintext_len_def max_blocks_def from_be_be)
    have mr: "manifest_range f ?h (so_bytes t) = Inr (length ?body, length ?body + length sm)"
      using m stop dt pt by (simp add: manifest_range_def block_overhead_40 Let_def t(1))
    have sl: "subrange (length ?body) (length ?body + length sm) (so_bytes t) = sm"
      unfolding ts subrange_take_drop by simp
    have th: "take ?h (so_bytes t) = header" by (simp add: t(1))
    have cs: "check_structure f ?h (length (so_bytes t)) (length sm) = Inr c"
      unfolding check_structure_Inr using smi tot cb by blast
    have "open_object_block x ?r ?h (so_bytes t) i = Inr (pieces p ! i)" if i: "i < c" for i
    proof -
      note o1 = sealed_object_block(1) [OF law c bs b i, of f signer]
        and o2 = sealed_object_block(2) [OF law c bs b i, of "sm @ ?tr"]
      have d: "drop (?h + i * (block_size + block_overhead)) (so_bytes t) =
          drop (i * (block_size + block_overhead)) (concat bs @ sm @ ?tr)" by (simp add: t(1))
      have e: "take (length (pieces p ! i) + block_overhead) (drop (?h + i * (block_size + block_overhead)) (so_bytes t)) = bs ! i"
        unfolding d by (rule o2)
      have lbi: "length (bs ! i) = length (pieces p ! i) + block_overhead"
        using open_seal_block(2) [OF law] b [OF i] by blast
      have "?h + i * (block_size + block_overhead) + (length (pieces p ! i) + block_overhead) \<le> length (so_bytes t)"
        using arg_cong [OF e, of length] lbi block_overhead_40(1) by (simp del: block_overhead_40(1))
      then show ?thesis
        using b [OF i] o1 e by (simp add: open_object_block_def block_offset_def subrange_take_drop object_manifest_def Let_def)
    qed
    then have "collectr (open_object_block x ?r ?h (so_bytes t)) [0..<c] = Inr (pieces p)"
      using pc(1) by (auto simp: collectr_Inr_iff list_eq_iff_nth_eq)
    then have "open_object x f ikm ?h (so_bytes t) (so_manifest_sha256 t) = Inr (p, object_manifest x f header p bs signer)"
      using mr cs th sl r ol pc(2) bs
      by (simp add: open_object_def t(2) reader_object_len_def object_manifest_def Let_def)
    moreover have "trailer_manifest_digest x (so_bytes t) ?h f = Inr (so_manifest_sha256 t)"
      using mr sl by (simp add: trailer_manifest_digest_def manifest_digest_def t(2))
    ultimately show ?thesis
      using ol th by blast
  qed
qed

section \<open>What a digest fixes\<close>

text \<open>Where an object's manifest and its blocks are stored.\<close>

definition stored_manifest :: "block_family \<Rightarrow> nat \<Rightarrow> bytes \<Rightarrow> bytes" where
  "stored_manifest f h object = (case manifest_range f h object of Inl _ \<Rightarrow> [] | Inr (start, stop) \<Rightarrow> subrange start stop object)"

definition stored_block :: "nat \<Rightarrow> nat \<Rightarrow> nat \<Rightarrow> bytes \<Rightarrow> bytes" where
  "stored_block h n i object = subrange (block_offset h i)
     (block_offset h i + (min (n - i * block_size) block_size + block_overhead)) object"

lemma open_object_Inr:
  assumes "open_object x f ikm h object digest = Inr (p, m)"
  obtains r ps where "reader_open x f ikm (take h object) (stored_manifest f h object) digest = Inr r" "br_manifest r = m"
    "reader_object_len r = Inr (length object)" "p = concat ps" "length ps = mf_count m"
    "\<And>i. i < mf_count m \<Longrightarrow> reader_open_block x r i (stored_block h (mf_size m) i object) = Inr (ps ! i)"
    "manifest_digest x (stored_manifest f h object) = digest"
proof -
  from assms obtain start stop c r ps where o: "manifest_range f h object = Inr (start, stop)"
    "reader_open x f ikm (take h object) (subrange start stop object) digest = Inr r" "mf_count (br_manifest r) = c"
    "reader_object_len r = Inr (length object)" "collectr (open_object_block x r h object) [0..<c] = Inr ps"
    "p = concat ps" "m = br_manifest r"
    by (auto simp: open_object_def Let_def split: prod.splits)
  from o(5) have l: "length ps = c" "\<And>i. i < c \<Longrightarrow> open_object_block x r h object i = Inr (ps ! i)"
    by (auto simp: collectr_Inr_iff list_eq_iff_nth_eq)
  have "reader_open_block x r i (stored_block h (mf_size m) i object) = Inr (ps ! i)" if "i < mf_count m" for i
    using l(2) [of i] that o(3,7)
    by (auto simp: open_object_block_def stored_block_def Let_def block_plaintext_len_Inr)
  with o l that [of r ps] show thesis
    by (auto simp: stored_manifest_def reader_open_def split: if_splits)
qed

lemma reader_open_block_unique:
  assumes "reader_open_block x r i b = Inr q" "reader_open_block x r i b' = Inr q'"
  shows "(b = b' \<and> q = q') \<or> sha_clash x b b'"
  using assms by (cases "b = b'") (auto simp: reader_open_block_def sha_clash_def split: if_splits)

lemma digest_fixes:
  assumes "open_object x f ikm h object digest = Inr (p, m)" "open_object x f ikm h object' digest = Inr (p', m')"
    "take h object = take h object'"
  shows "(p = p' \<and> m = m') \<or> sha_clash x (stored_manifest f h object) (stored_manifest f h object') \<or>
    (\<exists>i<mf_count m. sha_clash x (stored_block h (mf_size m) i object) (stored_block h (mf_size m) i object'))"
  using assms(1)
proof (rule open_object_Inr)
  fix r ps
  assume r: "reader_open x f ikm (take h object) (stored_manifest f h object) digest = Inr r" "br_manifest r = m"
    "p = concat ps" "length ps = mf_count m" "manifest_digest x (stored_manifest f h object) = digest"
    and b: "\<And>i. i < mf_count m \<Longrightarrow> reader_open_block x r i (stored_block h (mf_size m) i object) = Inr (ps ! i)"
  from assms(2) show ?thesis
  proof (rule open_object_Inr)
    fix r' ps'
    assume r': "reader_open x f ikm (take h object') (stored_manifest f h object') digest = Inr r'" "br_manifest r' = m'"
      "p' = concat ps'" "length ps' = mf_count m'" "manifest_digest x (stored_manifest f h object') = digest"
      and b': "\<And>i. i < mf_count m' \<Longrightarrow> reader_open_block x r' i (stored_block h (mf_size m') i object') = Inr (ps' ! i)"
    show ?thesis
    proof (cases "stored_manifest f h object = stored_manifest f h object'")
      case True
      with r(1,2) r'(1,2) assms(3) have e: "r' = r" "m' = m" by auto
      have "ps ! i = ps' ! i \<or> sha_clash x (stored_block h (mf_size m) i object) (stored_block h (mf_size m) i object')"
        if "i < mf_count m" for i
        using reader_open_block_unique [OF b [OF that], of "stored_block h (mf_size m) i object'" "ps' ! i"] b' [of i] that e by auto
      then have "ps = ps' \<or> (\<exists>i<mf_count m. sha_clash x (stored_block h (mf_size m) i object) (stored_block h (mf_size m) i object'))"
        using r(4) r'(4) e by (auto simp: list_eq_iff_nth_eq)
      with r(3) r'(3) e show ?thesis by auto
    next
      case False
      with r(5) r'(5) show ?thesis by (auto simp: sha_clash_def manifest_digest_def)
    qed
  qed
qed

section \<open>Sealing succeeds\<close>

definition aead_total :: "'a ext_scheme \<Rightarrow> bool" where
  "aead_total x \<longleftrightarrow> (\<forall>k n aad p. aead_seal x k n aad p \<noteq> None)"

lemma seal_with_nonce_total:
  "aead_total x \<Longrightarrow> length nonce = 24 \<Longrightarrow> \<exists>c. seal_with_nonce x key nonce aad p = Inr c"
  by (auto simp: aead_total_def seal_with_nonce_def check_nonce_def aead_nonce_len_def)

lemma block_keys_total:
  assumes "block_law x" "length ikm = 32"
  shows "\<exists>keys. block_keys_derive x f ikm header = Inr keys"
  using assms block_lawD(4) [OF assms(1)]
  by (simp add: block_keys_derive_def derive_block_key_def aead_new_def aead_key_len_def block_overhead_40)

lemma seal_block_total:
  assumes "block_law x" "aead_total x" "i < 2 ^ 32" "length p \<le> block_size" "l \<or> length p = block_size"
  shows "\<exists>b. seal_block x keys header i l p = Inr b"
proof -
  from assms(3) obtain nonce aad where n: "block_nonce x keys i l p = Inr nonce" "block_aad header i l = Inr aad"
    by (auto simp: block_nonce_def block_aad_def index_u32_def)
  then have "length nonce = 24" using block_lawD(3) [OF assms(1)] by (auto simp: block_nonce_def block_overhead_40)
  from seal_with_nonce_total [OF assms(2) this] obtain c where
    "seal_with_nonce x (bk_block keys) nonce aad p = Inr c" by blast
  with assms(4,5) n show ?thesis by (auto simp: seal_block_def)
qed

lemma seal_all_total:
  assumes "block_law x" "aead_total x" "se_count s < 2 ^ 32"
    "\<And>i. i < length ps \<Longrightarrow> next_index s + i < se_count s \<and>
       block_plaintext_len (se_size s) (next_index s + i) = Inr (length (ps ! i)) \<and>
       (length (ps ! i) = block_size \<or> next_index s + i + 1 = se_count s)"
  shows "\<exists>bs t. seal_all x s ps = Inr (bs, t)"
  using assms(3-4)
proof (induction ps arbitrary: s)
  case (Cons p ps)
  from Cons.prems(2) [of 0] have p: "next_index s < se_count s"
    "block_plaintext_len (se_size s) (next_index s) = Inr (length p)"
    "length p = block_size \<or> next_index s + 1 = se_count s" by simp_all
  from p(2) have "length p \<le> block_size" by (auto simp: block_plaintext_len_Inr)
  with seal_block_total [OF assms(1,2), of "next_index s" p "next_index s + 1 = se_count s"] p(1,3) Cons.prems(1)
  obtain b where b: "seal_block x (se_keys s) (se_header s) (next_index s) (next_index s + 1 = se_count s) p = Inr b"
    by (meson order.strict_trans)
  define t where "t = s\<lparr>se_hashes := se_hashes s @ [sha256 x b]\<rparr>"
  have n: "seal_next x s p = Inr (b, t)" unfolding seal_next_Inr t_def using p b by blast
  have t: "next_index t = Suc (next_index s)" "se_count t = se_count s" "se_size t = se_size s"
    by (simp_all add: t_def next_index_def)
  from Cons.prems(2) [of "Suc _"] have "next_index t + i < se_count t \<and>
      block_plaintext_len (se_size t) (next_index t + i) = Inr (length (ps ! i)) \<and>
      (length (ps ! i) = block_size \<or> next_index t + i + 1 = se_count t)" if "i < length ps" for i
    using that by (simp add: t)
  from Cons.IH [OF _ this] Cons.prems(1) t obtain bs u where "seal_all x t ps = Inr (bs, u)" by auto
  with n show ?case by simp
qed simp

text \<open>Whatever fits in an object is sealed.\<close>

lemma seal_object_total:
  assumes law: "block_law x" "aead_total x" "signer_ok x signer" and sg: "(signer \<noteq> None) = bf_signed f"
    and c: "block_count (length p) = Inr c" and len: "length ikm = 32" "length nonce = 24"
  shows "\<exists>t. seal_object x f ikm header p signer nonce = Inr t"
proof -
  note cb = block_count_bounds [OF c] and pc = pieces [OF c] and u = block_count_u64 [OF c]
  obtain keys where k: "block_keys_derive x f ikm header = Inr keys" using block_keys_total [OF law(1) len(1)] by blast
  define s where "s = \<lparr>se_family = f, se_keys = keys, se_header = header, se_size = length p, se_count = c, se_hashes = []\<rparr>"
  have s: "sealer_new x f ikm header (length p) = Inr s" by (simp add: sealer_new_def c k s_def)
  have "next_index s + i < se_count s \<and> block_plaintext_len (se_size s) (next_index s + i) = Inr (length (pieces p ! i)) \<and>
      (length (pieces p ! i) = block_size \<or> next_index s + i + 1 = se_count s)" if "i < length (pieces p)" for i
  proof -
    from that pc(1) have i: "i < c" by simp
    have l: "length (pieces p ! i) = min (length p - i * block_size) block_size" using pc(3) [OF i] by simp
    have "length (pieces p ! i) = block_size \<or> i + 1 = c"
    proof (cases "i + 1 = c")
      case False
      with i have "Suc i < c" by simp
      with block_count_full [OF c] l show ?thesis by simp
    qed simp
    with l i c show ?thesis by (auto simp: s_def next_index_def block_plaintext_len_Inr)
  qed
  from seal_all_total [OF law(1,2) _ this] u obtain bs t where a: "seal_all x s (pieces p) = Inr (bs, t)"
    by (auto simp: s_def)
  from seal_all_Inr [OF a] pc(1) have t: "t = s\<lparr>se_hashes := map (sha256 x) bs\<rparr>" "length bs = c" by (simp_all add: s_def)
  have sgt: "(signer \<noteq> None) = bf_signed (se_family t)" using sg by (simp add: t s_def)
  obtain len where o: "object_len f (length header) (length p) = Inr len" using object_len_total [OF c] by blast
  let ?m = "be32 (block_size mod 2 ^ 32) @ be32 (se_count t mod 2 ^ 32) @ be64 (word_of_nat (se_size t)) @
    concat (se_hashes t) @ signer_part x t signer"
  obtain e where "seal_with_nonce x (bk_manifest (se_keys t)) nonce (manifest_aad (se_header t)) ?m = Inr e"
    using seal_with_nonce_total [OF law(2) len(2)] by blast
  then have sm: "seal_manifest x (se_keys t) (se_header t) ?m nonce = Inr (nonce @ e)" by (simp add: seal_manifest_def)
  have h32: "\<forall>h\<in>set (map (sha256 x) bs). length h = 32" using block_lawD(2) [OF law(1)] by simp
  have sl: "length (signer_part x t signer) = signer_len f" using signer_part_read(1) [OF law(3) sgt] by (simp add: t s_def)
  have "length (nonce @ e) = 56 + c * 32 + signer_len f"
    using open_seal_manifest(2) [OF law(1) sm] sl length_concat_const [OF h32] t by (simp add: s_def)
  moreover have "c \<le> 2 ^ 20" "signer_len f \<le> 81" using cb by (simp_all add: max_blocks_def signer_len_def block_overhead_40)
  ultimately have "length (nonce @ e) < 2 ^ 32" by simp
  moreover have "next_index t = se_count t" by (simp add: t next_index_def s_def)
  moreover have "\<exists>n. manifest_plaintext_len (se_family t) (se_count t) = Inr n"
    using cb by (simp add: manifest_plaintext_len_def t s_def)
  ultimately obtain v where "finish_sealer x t signer nonce = Inr v"
    using sm sgt by (cases signer) (auto simp: finish_sealer_def signer_part_def split: prod.splits)
  with s o a show ?thesis by (simp add: seal_object_def pieces_def)
qed

section \<open>Reading one block\<close>

lemma reader_open_count: "reader_open x f ikm h sm d = Inr r \<Longrightarrow> block_count (mf_size (br_manifest r)) = Inr (mf_count (br_manifest r))"
  by (auto simp: reader_open_def parse_manifest_def Let_def split: if_splits)

lemma length_concat_last:
  assumes "ps \<noteq> []" "\<forall>j < length ps - 1. length (ps ! j) = n"
  shows "length (concat ps) = (length ps - 1) * n + length (last ps)"
proof -
  have "\<forall>q\<in>set (butlast ps). length q = n" using assms(2) by (auto simp: in_set_conv_nth nth_butlast)
  then have "length (concat (butlast ps)) = (length ps - 1) * n" using length_concat_const [of "butlast ps" n] by simp
  moreover have "concat ps = concat (butlast ps) @ last ps"
    using assms(1) by (metis append_butlast_last_id concat.simps(1,2) concat_append append_Nil2)
  ultimately show ?thesis by simp
qed

lemma random_access:
  assumes "open_object x f ikm h object d = Inr (p, m)"
  shows "length p = mf_size m \<and> (\<exists>r. reader_open x f ikm (take h object) (stored_manifest f h object) d = Inr r \<and>
     (\<forall>i<mf_count m. reader_open_block x r i (stored_block h (mf_size m) i object) = Inr (take block_size (drop (i * block_size) p))))"
  using assms
proof (rule open_object_Inr)
  fix r ps
  assume r: "reader_open x f ikm (take h object) (stored_manifest f h object) d = Inr r" "br_manifest r = m"
    and p: "p = concat ps" "length ps = mf_count m"
    and b: "\<And>i. i < mf_count m \<Longrightarrow> reader_open_block x r i (stored_block h (mf_size m) i object) = Inr (ps ! i)"
  from reader_open_count [OF r(1)] r(2) have c: "block_count (mf_size m) = Inr (mf_count m)" by simp
  note cb = block_count_bounds [OF c]
  have l: "length (ps ! i) = min (mf_size m - i * block_size) block_size" if "i < mf_count m" for i
    using b [OF that] r(2) by (auto simp: reader_open_block_def block_plaintext_len_Inr split: if_splits)
  have full: "length (ps ! j) = block_size" if j: "j < length ps - 1" for j
  proof -
    from j p(2) have "Suc j < mf_count m" by simp
    with block_count_full [OF c this] l [of j] show ?thesis by simp
  qed
  then have all: "\<forall>j < length ps - 1. length (ps ! j) = block_size" by blast
  have ne: "ps \<noteq> []" using cb p(2) by auto
  have last: "length (last ps) = mf_size m - (mf_count m - 1) * block_size"
  proof -
    have "mf_count m * block_size = (mf_count m - 1) * block_size + block_size" using cb by (cases "mf_count m") simp_all
    then have "mf_size m - (mf_count m - 1) * block_size \<le> block_size" using cb by linarith
    moreover have "length (ps ! (mf_count m - 1)) = min (mf_size m - (mf_count m - 1) * block_size) block_size"
      using l cb by simp
    ultimately show ?thesis using ne p(2) by (simp add: last_conv_nth)
  qed
  have lp: "length p = mf_size m" using length_concat_last [OF ne all] last cb p by simp
  have "take block_size (drop (i * block_size) p) = ps ! i" if i: "i < mf_count m" for i
  proof -
    from slice_concat [OF _ all, of i "[]"] i p have s: "take (length (ps ! i)) (drop (i * block_size) p) = ps ! i" by simp
    show ?thesis
    proof (cases "length (ps ! i) = block_size")
      case False
      with l [OF i] lp have "length (drop (i * block_size) p) \<le> length (ps ! i)" "length (ps ! i) \<le> block_size" by auto
      with s show ?thesis by simp
    qed (use s in simp)
  qed
  with b r(1) lp show ?thesis by auto
qed

end
