(* ===== verification/Block_Family_Facts.thy ===== *)
theory Block_Family_Facts
  imports Block_Families Block_Facts
begin

text \<open>
  Facts about the families of block objects: UUIDs and headers written and read, what a commitment accepts, the
  padding buckets, and that each family's objects open to what was sealed.
\<close>

section \<open>UUIDs\<close>

lemma nibble_hex_char: "n < 16 \<Longrightarrow> nibble (hex_char n) = Some n"
proof -
  have "list_all (\<lambda>n. nibble (hex_char n) = Some n) [0..<16]" by code_simp
  then show "n < 16 \<Longrightarrow> nibble (hex_char n) = Some n" by (simp add: list_all_iff)
qed

lemma nibble_byte: "nibble (hex_char (unat (b :: u8) div 16)) = Some (unat b div 16)"
  "nibble (hex_char (unat (b :: u8) mod 16)) = Some (unat b mod 16)"
proof -
  have "unat b < 256" using unsigned_less [of b] by simp
  then show "nibble (hex_char (unat b div 16)) = Some (unat b div 16)" by (intro nibble_hex_char) simp
qed (simp add: nibble_hex_char)

lemma word_of_nibbles: "word_of_nat (unat (b :: u8) div 16 * 16 + unat b mod 16) = b"
  by (simp add: div_mult_mod_eq)

lemma uuid_roundtrip:
  assumes "length b = 16"
  shows "parse_canonical_uuid (canonical_uuid b) field = Inr b"
proof -
  obtain b0 b1 b2 b3 b4 b5 b6 b7 b8 b9 b10 b11 b12 b13 b14 b15 where
    b: "b = [b0, b1, b2, b3, b4, b5, b6, b7, b8, b9, b10, b11, b12, b13, b14, b15]"
    using assms by (auto simp: eval_nat_numeral length_Suc_conv)
  show ?thesis
    unfolding b parse_canonical_uuid_def canonical_uuid_def
    by (simp add: hex_byte_def uuid_hyphen_def nibble_byte word_of_nibbles del: of_nat_add of_nat_mult)
qed

section \<open>Commitments\<close>

lemma commitment_check_new:
  assumes "std_law x" "length r = 16" "length d = 32"
  shows "commitment_check x (commitment_new x r d) r d = Inr ()" "commitment_validate x (commitment_new x r d) = Inr ()"
  using assms by (simp_all add: commitment_check_def commitment_new_def commitment_validate_def uuid_roundtrip decode_digest_def)

text \<open>A commitment accepts one revision and one manifest.\<close>

lemma commitment_check_Inr:
  "commitment_check x c r d = Inr u \<longleftrightarrow> parse_canonical_uuid (cc_revision_id c) ''content revision'' = Inr r \<and>
     decode_digest x (cc_manifest_sha256 c) = Inr d"
  by (auto simp: commitment_check_def)

section \<open>Headers\<close>

lemma subrange_append: "length a = n \<Longrightarrow> length b = k \<Longrightarrow> m = n + k \<Longrightarrow> subrange n m (a @ b @ c) = b"
  by (simp add: subrange_def)

definition drive_context_ok :: "drive_blob_context \<Rightarrow> bool" where
  "drive_context_ok c \<longleftrightarrow> 0 < db_generation c \<and> db_generation c < 2 ^ 32 \<and> length (db_file_id c) = 16 \<and>
     length (db_revision_id c) = 16"

lemma drive_frame: "length drive_magic = 8" "drive_blocks_header_bytes = 48" "length (drive_header c) = 16 + length (db_file_id c) + length (db_revision_id c)"
  by (simp_all add: drive_magic_def drive_blocks_header_bytes_def drive_header_def)

lemma be16_small: "n < 65536 \<Longrightarrow> from_be (be16 n) = n"
  by (simp add: be16_def from_to_be)

lemma inspect_drive_header_of:
  assumes "drive_context_ok c"
  shows "inspect_drive_header (drive_header c) = Inr c"
proof -
  let ?h = "drive_header c"
  have l: "length (db_file_id c) = 16" "length (db_revision_id c) = 16" "0 < db_generation c" "db_generation c < 2 ^ 32"
    using assms by (auto simp: drive_context_ok_def)
  have "take 8 ?h = drive_magic" "take 2 (drop 8 ?h) = be16 drive_blocks_suite" "take 4 (drop 12 ?h) = be32 (db_generation c)"
    "?h ! 10 = drive_purpose_file_blob" "?h ! 11 = 0" "subrange 16 32 ?h = db_file_id c" "subrange 32 48 ?h = db_revision_id c"
    "length ?h = 48"
    using l by (simp_all add: drive_header_def drive_frame subrange_def nth_append)
  moreover have "from_be (be16 drive_blocks_suite) = drive_blocks_suite" "from_be (be32 (db_generation c)) = db_generation c"
    using l(4) by (simp_all add: drive_blocks_suite_def be16_small from_be_be)
  ultimately show ?thesis
    using l by (simp add: inspect_drive_header_def drive_frame drive_purpose_def drive_purpose_file_blob_def)
qed

lemma split_at: "a \<le> b \<Longrightarrow> drop a xs = subrange a b xs @ drop b xs"
  by (simp add: subrange_take_drop) (metis append_take_drop_id drop_drop le_add_diff_inverse2)

text \<open>Only the canonical header is read.\<close>

lemma drive_header_of_inspect:
  assumes "inspect_drive_header h = Inr c"
  shows "h = drive_header c \<and> drive_context_ok c"
proof -
  from assms have h: "length h = 48" "take 8 h = drive_magic" "from_be (take 2 (drop 8 h)) = 2" "h ! 10 = 1" "h ! 11 = 0"
    "from_be (take 4 (drop 12 h)) \<noteq> 0"
    "c = \<lparr>db_generation = from_be (take 4 (drop 12 h)), db_file_id = subrange 16 32 h, db_revision_id = subrange 32 48 h\<rparr>"
    by (auto simp: inspect_drive_header_def drive_frame drive_purpose_def drive_blocks_suite_def Let_def
        drive_purpose_file_blob_def split: if_splits)
  have s: "take 2 (drop 8 h) = be16 2"
    using to_from_be [of "take 2 (drop 8 h)"] h(1,3) by (simp add: be16_def)
  have g: "take 4 (drop 12 h) = be32 (from_be (take 4 (drop 12 h)))"
    using to_from_be [of "take 4 (drop 12 h)"] h(1) by (simp add: be32_def)
  have "h = take 8 h @ take 2 (drop 8 h) @ [h ! 10, h ! 11] @ take 4 (drop 12 h) @ subrange 16 32 h @ subrange 32 48 h"
    (is "_ = ?r")
  proof (rule nth_equalityI)
    show "length h = length ?r" using h(1) by (simp add: subrange_def)
    fix i
    assume "i < length h"
    then show "h ! i = ?r ! i"
      using h(1) by (auto simp: nth_append subrange_def nth_Cons' not_less less_Suc_eq_le le_Suc_eq)
        (rule arg_cong [where f = "nth h"], linarith)+
  qed
  then have "h = drive_header c"
    by (simp add: drive_header_def h(2,4,5,7) s drive_blocks_suite_def drive_purpose_file_blob_def flip: g)
  moreover have "from_be (take 4 (drop 12 h)) < 2 ^ 32" using from_be_less [of "take 4 (drop 12 h)"] h(1) by simp
  ultimately show ?thesis using h(1,6,7) by (auto simp: drive_context_ok_def subrange_def)
qed

section \<open>Drive files\<close>

lemma drive_family: "family_ok drive_blocks" "bf_signed drive_blocks"
  by (simp_all add: family_ok_def drive_blocks_def)

lemma open_seal_file:
  assumes law: "block_law x" "std_law x" "ed25519_law x" and len: "length seed = 32" "length account = 16"
    and c: "drive_context_ok c" and "seal_file x nonce p key c seed account = Inr t"
  obtains m where "open_file x (so_bytes t) key c (commitment_new x (db_revision_id c) (so_manifest_sha256 t)) (length p) = Inr (p, m)"
    "mf_size m = length p" "map_option ms_account_id (mf_signer m) = Some account"
    "verify_signer x m (ed25519_public x seed) = Inr ()" "blob_len (length p) = Inr (length (so_bytes t))"
    "length (so_manifest_sha256 t) = 32"
proof -
  from assms(7) have k: "check_key key = Inr key" and s: "seal_object x drive_blocks key (drive_header c) p (Some (seed, account)) nonce = Inr t"
    by (auto simp: seal_file_def check_key_def)
  have sg: "signer_ok x (Some (seed, account))" using law len by (simp add: signer_ok_def account_len_def)
  have h: "length (drive_header c) = 48" using c by (simp add: drive_frame drive_context_ok_def)
  from open_seal_object [OF law(1) drive_family(1) sg s] h obtain bs where o:
    "open_object x drive_blocks key 48 (so_bytes t) (so_manifest_sha256 t) =
       Inr (p, object_manifest x drive_blocks (drive_header c) p bs (Some (seed, account)))"
    "object_len drive_blocks 48 (length p) = Inr (length (so_bytes t))" "take 48 (so_bytes t) = drive_header c"
    "trailer_manifest_digest x (so_bytes t) 48 drive_blocks = Inr (so_manifest_sha256 t)" by auto
  let ?m = "object_manifest x drive_blocks (drive_header c) p bs (Some (seed, account))"
  have d: "length (so_manifest_sha256 t) = 32"
  proof -
    from o(4) obtain sm where "sha256 x sm = so_manifest_sha256 t"
      by (auto simp: trailer_manifest_digest_def manifest_digest_def split: prod.splits)
    then show ?thesis using block_lawD(2) [OF law(1), of sm] by simp
  qed
  have "48 \<le> length (so_bytes t)" using arg_cong [OF o(3), of length] h by simp
  then have "open_file x (so_bytes t) key c (commitment_new x (db_revision_id c) (so_manifest_sha256 t)) (length p) = Inr (p, ?m)"
    using o c k d law(2) commitment_check_new(1) [OF law(2), of "db_revision_id c" "so_manifest_sha256 t"]
    by (simp add: open_file_def drive_frame validate_drive_header_def inspect_drive_header_of drive_context_ok_def check_size_def
        object_manifest_def)
  moreover have "verify_signer x ?m (ed25519_public x seed) = Inr ()"
    using law(3) len(1) by (simp add: verify_signer_def object_manifest_def verify_signature_def ed25519_law_def)
  ultimately show thesis using o(2) d by (intro that [of ?m]) (simp_all add: object_manifest_def blob_len_def drive_frame)
qed

lemma open_file_Inr:
  assumes "open_file x object key c content n = Inr (p, m)"
  obtains digest where "take 48 object = drive_header c" "drive_context_ok c" "commitment_check x content (db_revision_id c) digest = Inr ()"
    "open_object x drive_blocks key 48 object digest = Inr (p, m)" "mf_size m = n" "48 \<le> length object"
proof -
  from assms obtain digest where o: "inspect_drive_header (take 48 object) = Inr c" "48 \<le> length object"
    "commitment_check x content (db_revision_id c) digest = Inr ()" "open_object x drive_blocks key 48 object digest = Inr (p, m)"
    "mf_size m = n"
    by (auto simp: open_file_def drive_frame validate_drive_header_def check_key_def check_size_def split: prod.splits)
  with drive_header_of_inspect [OF o(1)] that show thesis by auto
qed

lemma committed_file:
  assumes "open_file x object key c content n = Inr (p, m)" "open_file x object' key c content n' = Inr (p', m')"
  shows "(p = p' \<and> m = m' \<and> n = n') \<or>
    sha_clash x (stored_manifest drive_blocks 48 object) (stored_manifest drive_blocks 48 object') \<or>
    (\<exists>i<mf_count m. sha_clash x (stored_block 48 (mf_size m) i object) (stored_block 48 (mf_size m) i object'))"
  using assms(1)
proof (rule open_file_Inr)
  fix d
  assume o: "take 48 object = drive_header c" "commitment_check x content (db_revision_id c) d = Inr ()"
    "open_object x drive_blocks key 48 object d = Inr (p, m)" "mf_size m = n"
  from assms(2) show ?thesis
  proof (rule open_file_Inr)
    fix d'
    assume o': "take 48 object' = drive_header c" "commitment_check x content (db_revision_id c) d' = Inr ()"
      "open_object x drive_blocks key 48 object' d' = Inr (p', m')" "mf_size m' = n'"
    from o(2) o'(2) have "d' = d" by (auto simp: commitment_check_Inr)
    with digest_fixes [OF o(3), of object' p' m'] o o' show ?thesis by auto
  qed
qed

section \<open>Padding buckets\<close>

lemma next_bucket_Some: "b < 2 ^ 63 \<Longrightarrow> 0 < b \<Longrightarrow> next_bucket b = Some (b + (b + 19) div 20)"
proof -
  assume b: "b < 2 ^ 63" "0 < b"
  have m: "max ((b + 19) div 20) 1 = (b + 19) div 20" using b(2) by simp
  have "b + 19 < 2 ^ 64" "b + (b + 19) div 20 < 2 ^ 64" using b by simp_all
  then show ?thesis using m by (simp add: next_bucket_def usize_add_def usize_bound_def)
qed

lemma bucket_loop_bounds:
  "source \<le> 2 ^ 63 \<Longrightarrow> 0 < b \<Longrightarrow> \<exists>r. bucket_loop source b = Inr r \<and> source \<le> r \<and> b \<le> r \<and>
     (r = b \<or> r \<le> source + source div 20)"
proof (induction source b rule: bucket_loop.induct)
  case (1 source b)
  show ?case
  proof (cases "b < source")
    case True
    then have n: "next_bucket b = Some (b + (b + 19) div 20)" using 1(2,3) by (intro next_bucket_Some) simp_all
    let ?c = "b + (b + 19) div 20"
    from 1(1) [OF True n] 1(2,3) obtain r where r: "bucket_loop source ?c = Inr r" "source \<le> r" "?c \<le> r"
      "r = ?c \<or> r \<le> source + source div 20" by auto
    have "(b + 19) div 20 \<le> source div 20 + 1" "b + 1 \<le> source" using True by simp_all
    then have "?c \<le> source + source div 20" by linarith
    with r have "r \<le> source + source div 20" by auto
    with r True n show ?thesis by (auto simp: bucket_loop.simps [of source b])
  next
    case False
    then show ?thesis by (simp add: bucket_loop.simps)
  qed
qed

text \<open>Every source up to a bucket and not below the one before pads to it: the size shows the bucket only.\<close>

lemma bucket_loop_canonical:
  "bucket_loop source b = Inr r \<Longrightarrow> source \<le> t \<Longrightarrow> t \<le> r \<Longrightarrow> bucket_loop t b = Inr r"
proof (induction source b rule: bucket_loop.induct)
  case (1 source b)
  show ?case
  proof (cases "b < source")
    case True
    with 1(2) obtain c where c: "next_bucket b = Some c" "bucket_loop source c = Inr r"
      by (auto simp: bucket_loop.simps [of source b] split: option.splits)
    from 1(1) [OF True c(1,2) 1(3,4)] c True 1(3) show ?thesis by (simp add: bucket_loop.simps [of t b])
  next
    case False
    with 1(2,4) show ?thesis by (simp add: bucket_loop.simps)
  qed
qed

lemma padded_media:
  assumes "padded_media_bytes n = Inr b"
  shows "0 < n" "n \<le> 2 ^ 63 \<Longrightarrow> n \<le> b \<and> 541 \<le> b \<and> (b = 541 \<or> b \<le> n + n div 20)"
    "n \<le> t \<Longrightarrow> t \<le> b \<Longrightarrow> padded_media_bytes t = Inr b"
proof -
  from assms have b: "0 < n" "bucket_loop n 541 = Inr b" by (auto simp: padded_media_bytes_def minimum_bucket_def)
  then show "0 < n" "n \<le> t \<Longrightarrow> t \<le> b \<Longrightarrow> padded_media_bytes t = Inr b"
    by (auto simp: padded_media_bytes_def minimum_bucket_def dest: bucket_loop_canonical)
  show "n \<le> 2 ^ 63 \<Longrightarrow> n \<le> b \<and> 541 \<le> b \<and> (b = 541 \<or> b \<le> n + n div 20)"
    using bucket_loop_bounds [of n 541] b(2) by auto
qed

section \<open>Attachments\<close>

lemma validate_chat_media_header_of:
  assumes "length a = 16"
  shows "validate_chat_media_header (chat_media_header a) a = Inr ()" "length (chat_media_header a) = 28"
proof -
  let ?h = "chat_media_header a"
  have m: "length chat_media_magic = 8" by (simp add: chat_media_magic_def)
  then show l: "length ?h = 28" using assms by (simp add: chat_media_header_def)
  have "take 8 ?h = chat_media_magic" "take 2 (drop 8 ?h) = be16 chat_media_blocks_suite" "?h ! 10 = chat_media_attachment_blob"
    "?h ! 11 = 0" "subrange 12 28 ?h = a"
    using m assms by (simp_all add: chat_media_header_def subrange_def nth_append)
  then show "validate_chat_media_header ?h a = Inr ()"
    using l by (simp add: validate_chat_media_header_def chat_media_blocks_header_bytes_def chat_media_blocks_suite_def be16_small
        chat_media_purpose_def chat_media_attachment_blob_def Let_def)
qed

lemma open_seal_attachment:
  assumes law: "block_law x" and a: "length a = 16" and "seal_attachment x nonce p key a = Inr t"
  shows "\<exists>m. open_attachment x (so_bytes t) key a (so_manifest_sha256 t) = Inr (p, m) \<and> mf_size m = length p"
    "chat_media_object_len (length p) = Inr (length (so_bytes t))"
proof -
  from assms(3) have k: "check_key key = Inr key" and s: "seal_object x chat_media_blocks key (chat_media_header a) p None nonce = Inr t"
    by (auto simp: seal_attachment_def check_key_def)
  have f: "family_ok chat_media_blocks" by (simp add: family_ok_def chat_media_blocks_def)
  have sg: "signer_ok x None" by (simp add: signer_ok_def)
  note h = validate_chat_media_header_of [OF a]
  from open_seal_object [OF law f sg s] h(2) obtain bs where o:
    "open_object x chat_media_blocks key 28 (so_bytes t) (so_manifest_sha256 t) =
       Inr (p, object_manifest x chat_media_blocks (chat_media_header a) p bs None)"
    "object_len chat_media_blocks 28 (length p) = Inr (length (so_bytes t))" "take 28 (so_bytes t) = chat_media_header a" by auto
  have "28 \<le> length (so_bytes t)" using arg_cong [OF o(3), of length] h(2) by simp
  with o h k show "\<exists>m. open_attachment x (so_bytes t) key a (so_manifest_sha256 t) = Inr (p, m) \<and> mf_size m = length p"
    "chat_media_object_len (length p) = Inr (length (so_bytes t))"
    by (simp_all add: open_attachment_def chat_media_blocks_header_bytes_def object_manifest_def chat_media_object_len_def)
qed

section \<open>Backup media\<close>

definition media_context_ok :: "backup_media_context \<Rightarrow> bool" where
  "media_context_ok c \<longleftrightarrow> length (bm_account_incarnation c) = 32 \<and> length (bm_backup_incarnation c) = 16 \<and>
     length (bm_media_id c) = 32"

lemma inspect_backup_media_header_of:
  assumes c: "media_context_ok c" and n: "n \<le> 2 ^ 63" and h: "backup_media_header c n = Inr h"
  obtains padded where "padded_media_bytes n = Inr padded" "length h = 107"
    "inspect_backup_media_header h = Inr \<lparr>bi_context = c, bi_source_bytes = n, bi_padded_bytes = padded\<rparr>"
proof -
  from h obtain padded where p: "padded_media_bytes n = Inr padded" and
    hd: "h = backup_media_magic @ be16 backup_media_suite @ [protection_domain_u8 (bm_domain c)] @ bm_account_incarnation c @
       bm_backup_incarnation c @ bm_media_id c @ be64 (word_of_nat n) @ be64 (word_of_nat padded)"
    by (auto simp: backup_media_header_def)
  have m: "length backup_media_magic = 8" by (simp add: backup_media_magic_def)
  from padded_media(2) [OF p n] n have pb: "padded < 2 ^ 64" by auto
  have fb: "from_be (be64 (word_of_nat n)) = n" "from_be (be64 (word_of_nat padded)) = padded"
    using from_be_be(2) n pb by auto
  have l: "length h = 107" using c m by (simp add: hd media_context_ok_def)
  have "take 8 h = backup_media_magic" "subrange 8 10 h = be16 backup_media_suite" "h ! 10 = protection_domain_u8 (bm_domain c)"
    "subrange 11 43 h = bm_account_incarnation c" "subrange 43 59 h = bm_backup_incarnation c" "subrange 59 91 h = bm_media_id c"
    "subrange 91 99 h = be64 (word_of_nat n)" "subrange 99 107 h = be64 (word_of_nat padded)"
    using c m by (simp_all add: hd media_context_ok_def subrange_def nth_append)
  moreover have "protection_domain_from (protection_domain_u8 (bm_domain c)) = Inr (bm_domain c)"
    by (cases "bm_domain c") (simp add: protection_domain_from_def protection_domain_u8_def)
  ultimately have "inspect_backup_media_header h = Inr \<lparr>bi_context = c, bi_source_bytes = n, bi_padded_bytes = padded\<rparr>"
    using l p by (simp add: inspect_backup_media_header_def backup_media_header_bytes_def backup_media_suite_def be16_small fb Let_def)
  with p l show thesis by (rule that)
qed

lemma open_seal_media:
  assumes law: "block_law x" and c: "media_context_ok c" and n: "length source \<le> 2 ^ 63"
    and "seal_media x nonce source key c = Inr t"
  obtains m padded where "open_media x (so_bytes t) key c (so_manifest_sha256 t) = Inr (source, m)"
    "padded_media_bytes (length source) = Inr padded" "mf_size m = padded"
    "backup_media_object_len (length source) = Inr (length (so_bytes t))"
proof -
  from assms(4) obtain h padded where k: "check_key key = Inr key" and h: "backup_media_header c (length source) = Inr h"
    and p: "padded_media_bytes (length source) = Inr padded" and
    s: "seal_object x backup_media_blocks key h (source @ replicate (padded - length source) 0) None nonce = Inr t"
    by (auto simp: seal_media_def check_key_def)
  from inspect_backup_media_header_of [OF c n h] p have i: "length h = 107"
    "inspect_backup_media_header h = Inr \<lparr>bi_context = c, bi_source_bytes = length source, bi_padded_bytes = padded\<rparr>" by auto
  have f: "family_ok backup_media_blocks" by (simp add: family_ok_def backup_media_blocks_def)
  have sg: "signer_ok x None" by (simp add: signer_ok_def)
  let ?p = "source @ replicate (padded - length source) 0"
  have lp: "length ?p = padded" using padded_media(2) [OF p n] by simp
  from open_seal_object [OF law f sg s] i(1) lp obtain bs where o:
    "open_object x backup_media_blocks key 107 (so_bytes t) (so_manifest_sha256 t) =
       Inr (?p, object_manifest x backup_media_blocks h ?p bs None)"
    "object_len backup_media_blocks 107 padded = Inr (length (so_bytes t))" "take 107 (so_bytes t) = h" by auto
  have "107 \<le> length (so_bytes t)" using arg_cong [OF o(3), of length] i(1) by simp
  then have "open_media x (so_bytes t) key c (so_manifest_sha256 t) = Inr (source, object_manifest x backup_media_blocks h ?p bs None)"
    using o i(2) k lp by (simp add: open_media_def backup_media_header_bytes_def object_manifest_def)
  with p o(2) lp show thesis
    by (intro that [of "object_manifest x backup_media_blocks h ?p bs None" padded])
      (simp_all add: object_manifest_def backup_media_object_len_def backup_media_header_bytes_def)
qed

end
