(* ===== verification/Block_Demo.thy ===== *)
theory Block_Demo
  imports Block_Family_Facts Account_Head_Demo
begin

text \<open>
  A three-byte Drive file and a three-byte piece of backup media, sealed: keys are zeros, a hash shows the
  length and the last byte of its input, an authentication tag is sixteen zeros.
\<close>

definition demo_block_ext :: ext where
  "demo_block_ext = \<lparr>std_encode = string_of_bytes, std_decode = (\<lambda>s. Some (bytes_of_string s)),
     url_encode = string_of_bytes, url_decode = (\<lambda>s. Some (bytes_of_string s)),
     hex_encode = bytes_to_hex, hex_decode = demo_hex_decode, sha256 = demo_sum, hmac_sha256 = (\<lambda>k. demo_sum),
     hkdf_sha256 = (\<lambda>s k i n. replicate n 0), ed25519_key_ok = (\<lambda>k. True), ed25519_public = (\<lambda>seed. seed),
     ed25519_sign = (\<lambda>seed bs. replicate 64 0x73), ed25519_ok = (\<lambda>k bs sig. True),
     aead_seal = (\<lambda>k n aad p. Some (p @ replicate 16 0)), aead_open = (\<lambda>k n aad c. Some (take (length c - 16) c))\<rparr>"

lemma demo_block_sel [simp]:
  "sha256 demo_block_ext = demo_sum" "hmac_sha256 demo_block_ext k = demo_sum"
  "hkdf_sha256 demo_block_ext s k i n = replicate n 0" "ed25519_sign demo_block_ext seed b = replicate 64 0x73"
  "aead_seal demo_block_ext k nonce aad p = Some (p @ replicate 16 0)"
  by (simp_all add: demo_block_ext_def)

lemma demo_block_laws: "block_law demo_block_ext" "std_law demo_block_ext" "ed25519_law demo_block_ext"
  by (auto simp: block_law_def std_law_def ed25519_law_def aead_law_def aead_tag_len_def demo_block_ext_def demo_sum_def)

definition demo_plain :: bytes where "demo_plain = [1, 2, 3]"

lemma demo_plain_length [simp]: "length demo_plain = 3"
  by (simp add: demo_plain_def)

definition demo_file :: drive_blob_context where
  "demo_file = \<lparr>db_generation = 1, db_file_id = replicate 16 1, db_revision_id = replicate 16 2\<rparr>"

lemma demo_file_ok: "drive_context_ok demo_file"
  by (simp add: drive_context_ok_def demo_file_def)

lemma demo_sum_length [simp]: "length (demo_sum b) = 32"
  by (simp add: demo_sum_def)

lemma demo_count: "block_count 3 = Inr 1" "block_count 541 = Inr 1"
  by (simp_all add: block_count_def div_ceil_def block_size_def max_blocks_def)

lemma demo_block_total: "aead_total demo_block_ext"
  by (simp add: aead_total_def)

lemma demo_file_sealed:
  "\<exists>t. seal_file demo_block_ext demo_nonce demo_plain (replicate 32 0) demo_file (replicate 32 4) (replicate 16 5) = Inr t"
proof -
  have "block_count (length demo_plain) = Inr 1" by (simp add: demo_count)
  from seal_object_total [OF demo_block_laws(1) demo_block_total _ _ this, of "Some (replicate 32 4, replicate 16 5)"
      drive_blocks "replicate 32 0" demo_nonce "drive_header demo_file"] demo_block_laws(3)
  show ?thesis by (simp add: seal_file_def check_key_def signer_ok_def account_len_def drive_blocks_def demo_nonce_def)
qed

definition demo_media :: backup_media_context where
  "demo_media = \<lparr>bm_account_incarnation = replicate 32 1, bm_backup_incarnation = replicate 16 2, bm_domain = StandardChat,
     bm_media_id = replicate 32 3\<rparr>"

lemma demo_media_ok: "media_context_ok demo_media"
  by (simp add: media_context_ok_def demo_media_def)

lemma demo_padded: "padded_media_bytes 3 = Inr 541"
  by (simp add: padded_media_bytes_def minimum_bucket_def bucket_loop.simps)

lemma demo_media_sealed: "\<exists>t. seal_media demo_block_ext demo_nonce demo_plain (replicate 32 0) demo_media = Inr t"
proof -
  have c: "block_count (length (demo_plain @ replicate 538 0)) = Inr 1" using demo_count by simp
  obtain h where h: "backup_media_header demo_media 3 = Inr h" by (simp add: backup_media_header_def demo_padded)
  from seal_object_total [OF demo_block_laws(1) demo_block_total _ _ c, of None backup_media_blocks "replicate 32 0" demo_nonce h] h
  show ?thesis by (simp add: seal_media_def check_key_def demo_padded signer_ok_def backup_media_blocks_def demo_nonce_def)
qed

lemma demo_bucket_600: "padded_media_bytes 600 = Inr 628"
proof -
  have a: "next_bucket 541 = Some 569" "next_bucket 569 = Some 598" "next_bucket 598 = Some 628"
    by (simp_all add: next_bucket_def usize_add_def usize_bound_def)
  show ?thesis
    by (simp add: padded_media_bytes_def minimum_bucket_def bucket_loop.simps [of 600] a)
qed

lemma demo_file_opens:
  "\<exists>object content m. open_file demo_block_ext object (replicate 32 0) demo_file content 3 = Inr (demo_plain, m) \<and> mf_size m = 3"
proof -
  from demo_file_sealed obtain t where
    t: "seal_file demo_block_ext demo_nonce demo_plain (replicate 32 0) demo_file (replicate 32 4) (replicate 16 5) = Inr t" by blast
  have l: "length (replicate 32 4 :: bytes) = 32" "length (replicate 16 5 :: bytes) = 16" by simp_all
  show ?thesis
    by (rule open_seal_file [OF demo_block_laws l demo_file_ok t]) (metis demo_plain_length)
qed

lemma demo_object_opens:
  "\<exists>object digest m. open_object demo_block_ext drive_blocks (replicate 32 0) 48 object digest = Inr (demo_plain, m) \<and>
     mf_size m = 3 \<and> mf_count m = 1"
proof -
  from demo_file_opens obtain object content m where
    m: "open_file demo_block_ext object (replicate 32 0) demo_file content 3 = Inr (demo_plain, m)" "mf_size m = 3" by blast
  from m(1) show ?thesis
  proof (rule open_file_Inr)
    fix d
    assume o: "open_object demo_block_ext drive_blocks (replicate 32 0) 48 object d = Inr (demo_plain, m)"
    from o have "block_count (mf_size m) = Inr (mf_count m)"
      by (rule open_object_Inr) (auto dest: reader_open_count)
    with m(2) demo_count have "mf_count m = 1" by simp
    with o m(2) show ?thesis by blast
  qed
qed

end
