(* ===== verification/Block_Properties.thy ===== *)
theory Block_Properties
  imports Block_Demo
begin

text \<open>
  What block objects promise: whatever fits is sealed and opens to what was sealed, as a whole and block by
  block; the manifest's digest fixes the content; the server's structural check is exact; padding ends.
\<close>

text \<open>C31: Every plaintext of up to \<open>2 ^ 20\<close> blocks is sealed as a Drive file, to exactly the length announced before
  sealing; and the file opens, under the commitment its metadata makes, to the plaintext and to a manifest of
  its size that names the uploader's account and carries the uploader's valid signature.\<close>

theorem drive_file_roundtrip:
  assumes "block_law x" and "aead_total x" and "std_law x" and "ed25519_law x" and "drive_context_ok c"
    and "length key = 32" and "length nonce = 24" and "length seed = 32" and "length account = 16"
    and "length p \<le> max_blocks * block_size"
  shows "\<exists>t m. seal_file x nonce p key c seed account = Inr t \<and> blob_len (length p) = Inr (length (so_bytes t)) \<and>
    open_file x (so_bytes t) key c (commitment_new x (db_revision_id c) (so_manifest_sha256 t)) (length p) = Inr (p, m) \<and>
    mf_size m = length p \<and> map_option ms_account_id (mf_signer m) = Some account \<and>
    verify_signer x m (ed25519_public x seed) = Inr ()"
proof -
  obtain n where n: "block_count (length p) = Inr n" using block_count_total [OF assms(10)] by blast
  have "signer_ok x (Some (seed, account))" using assms by (simp add: signer_ok_def account_len_def)
  from seal_object_total [OF assms(1,2) this _ n assms(6,7), of drive_blocks "drive_header c"] drive_family(2)
  obtain t where "seal_object x drive_blocks key (drive_header c) p (Some (seed, account)) nonce = Inr t" by auto
  then have s: "seal_file x nonce p key c seed account = Inr t" using assms(6) by (simp add: seal_file_def check_key_def)
  from open_seal_file [OF assms(1,3,4,8,9,5) s] obtain m where
    "open_file x (so_bytes t) key c (commitment_new x (db_revision_id c) (so_manifest_sha256 t)) (length p) = Inr (p, m)"
    "mf_size m = length p" "map_option ms_account_id (mf_signer m) = Some account"
    "verify_signer x m (ed25519_public x seed) = Inr ()" "blob_len (length p) = Inr (length (so_bytes t))" .
  with s show ?thesis by blast
qed

theorem drive_file_roundtrip_witness:
  "\<exists>t m. seal_file demo_block_ext demo_nonce demo_plain (replicate 32 0) demo_file (replicate 32 4) (replicate 16 5) = Inr t \<and>
    open_file demo_block_ext (so_bytes t) (replicate 32 0) demo_file
      (commitment_new demo_block_ext (db_revision_id demo_file) (so_manifest_sha256 t)) 3 = Inr (demo_plain, m)"
proof -
  have "length demo_plain \<le> max_blocks * block_size" by (simp add: max_blocks_def block_size_def)
  from drive_file_roundtrip [OF demo_block_laws(1) demo_block_total demo_block_laws(2,3) demo_file_ok _ _ _ _ this,
      of "replicate 32 0" demo_nonce "replicate 32 4" "replicate 16 5"]
  show ?thesis by (simp add: demo_nonce_def) blast
qed

text \<open>C32: What a commitment was made to is all it opens.  Two blobs that open for one file, revision, key and
  commitment hold the same plaintext, the same manifest and the same signer, or else their stored manifests, or
  two of their blocks at one place, are two values with one SHA-256.\<close>

theorem commitment_fixes_the_file:
  assumes "open_file x object key c content n = Inr (p, m)" and "open_file x object' key c content n' = Inr (p', m')"
  shows "(p = p' \<and> m = m' \<and> n = n') \<or>
    sha_clash x (stored_manifest drive_blocks 48 object) (stored_manifest drive_blocks 48 object') \<or>
    (\<exists>i<mf_count m. sha_clash x (stored_block 48 (mf_size m) i object) (stored_block 48 (mf_size m) i object'))"
  by (rule committed_file [OF assms])

theorem commitment_fixes_the_file_witness:
  "\<exists>object content. (\<exists>m. open_file demo_block_ext object (replicate 32 0) demo_file content 3 = Inr (demo_plain, m)) \<and>
    (\<forall>p m n. open_file demo_block_ext object (replicate 32 0) demo_file content n = Inr (p, m) \<longrightarrow> p = demo_plain \<and> n = 3)"
proof -
  from demo_file_opens obtain object content m where
    o: "open_file demo_block_ext object (replicate 32 0) demo_file content 3 = Inr (demo_plain, m)" by blast
  have "p = demo_plain \<and> n = 3" if "open_file demo_block_ext object (replicate 32 0) demo_file content n = Inr (p, m')" for p n m'
    using commitment_fixes_the_file [OF o that] by (auto simp: sha_clash_def)
  with o show ?thesis by blast
qed

text \<open>C33: Reading a block alone reads what reading the whole object reads there: the plaintext has the manifest's
  size, and the block stored at an index opens, under the committed manifest, to its share of the plaintext.\<close>

theorem blocks_open_alone:
  assumes "open_object x f ikm h object digest = Inr (p, m)"
  shows "length p = mf_size m \<and> (\<exists>r. reader_open x f ikm (take h object) (stored_manifest f h object) digest = Inr r \<and>
    (\<forall>i<mf_count m. reader_open_block x r i (stored_block h (mf_size m) i object) =
       Inr (take block_size (drop (i * block_size) p))))"
  by (rule random_access [OF assms])

theorem blocks_open_alone_witness:
  "\<exists>object r. reader_open_block demo_block_ext r 0 (stored_block 48 3 0 object) = Inr demo_plain"
proof -
  from demo_object_opens obtain object digest m where
    o: "open_object demo_block_ext drive_blocks (replicate 32 0) 48 object digest = Inr (demo_plain, m)" "mf_size m = 3" "mf_count m = 1"
    by blast
  have "take block_size demo_plain = demo_plain" by (simp add: block_size_def demo_plain_def)
  with blocks_open_alone [OF o(1)] o(2,3) show ?thesis by auto
qed

text \<open>The server's check of an upload's structure sees only the shape: it answers a count of blocks exactly when the
  manifest has that count's length and the rest of the object is that many blocks of some plaintext length, from one
  whole block less than they can hold to all they can hold. (The reader is stricter: it refuses an empty last block
  after another one.)\<close>

theorem structure_check_is_exact:
  "check_structure f h size_stored len = Inr c \<longleftrightarrow> sealed_manifest_len f c = Inr len \<and>
     (\<exists>n. (c - 1) * block_size \<le> n \<and> n \<le> c * block_size \<and> size_stored = h + n + c * block_overhead + len + trailer_len)"
  by (rule check_structure_Inr)

text \<open>The padding of backup media always ends: for any source of at most \<open>2 ^ 63\<close> bytes and not empty it finds a
  bucket that holds it, the smallest one or one at most a twentieth larger than the source; and all the sources
  between this one and its bucket have the same bucket, so the size shown tells them apart no further.\<close>

theorem media_padding_ends:
  assumes "0 < n" and "n \<le> 2 ^ 63"
  shows "\<exists>b. padded_media_bytes n = Inr b \<and> n \<le> b \<and> minimum_bucket \<le> b \<and> (b = minimum_bucket \<or> b \<le> n + n div 20) \<and>
    (\<forall>t. n \<le> t \<and> t \<le> b \<longrightarrow> padded_media_bytes t = Inr b)"
proof -
  from bucket_loop_bounds [OF assms(2), of minimum_bucket] obtain b where b: "bucket_loop n minimum_bucket = Inr b"
    by (auto simp: minimum_bucket_def)
  then have p: "padded_media_bytes n = Inr b" using assms(1) by (simp add: padded_media_bytes_def)
  with padded_media [OF p] assms(2) show ?thesis by (auto simp: minimum_bucket_def)
qed

theorem media_padding_ends_witness: "padded_media_bytes 541 = Inr 541 \<and> padded_media_bytes 600 = Inr 628"
proof -
  have "(0 :: nat) < 541" "(541 :: nat) \<le> 2 ^ 63" by simp_all
  from media_padding_ends [OF this] have "padded_media_bytes 541 = Inr 541"
    by (auto simp: padded_media_bytes_def minimum_bucket_def bucket_loop.simps)
  moreover have "padded_media_bytes 600 = Inr 628" by (simp add: demo_bucket_600)
  ultimately show ?thesis by simp
qed

text \<open>A piece of backup media opens to the source without its padding, for the account, backup and media it was
  sealed for; the object's length is known from the source's length before sealing, and its manifest shows the
  bucket.\<close>

theorem backup_media_roundtrip:
  assumes "block_law x" and "media_context_ok c" and "length source \<le> 2 ^ 63" and "seal_media x nonce source key c = Inr t"
  shows "\<exists>m padded. open_media x (so_bytes t) key c (so_manifest_sha256 t) = Inr (source, m) \<and>
    padded_media_bytes (length source) = Inr padded \<and> mf_size m = padded \<and>
    backup_media_object_len (length source) = Inr (length (so_bytes t))"
  by (rule open_seal_media [OF assms]) blast

theorem backup_media_roundtrip_witness:
  "\<exists>t m. seal_media demo_block_ext demo_nonce demo_plain (replicate 32 0) demo_media = Inr t \<and>
    open_media demo_block_ext (so_bytes t) (replicate 32 0) demo_media (so_manifest_sha256 t) = Inr (demo_plain, m)"
proof -
  from demo_media_sealed obtain t where
    t: "seal_media demo_block_ext demo_nonce demo_plain (replicate 32 0) demo_media = Inr t" by blast
  have "length demo_plain \<le> 2 ^ 63" by simp
  from backup_media_roundtrip [OF demo_block_laws(1) demo_media_ok this t] t show ?thesis by blast
qed

end
