(* ===== verification/Account_Manifest.thy ===== *)
theory Account_Manifest
  imports Account_Rename Tables Clock
begin

text \<open>
  The account manifest (\<open>kutup-chat-proto/src/account_identity.rs\<close>, and what it uses of \<open>lib.rs\<close>): the list of an
  account's devices, with the one libsignal identity they share, signed by the account's authority and chained by
  hash; and the requests that carry one: prekey bundles, linking, distribution of a new identity, registration.
  Errors are the strings of the code.  libsignal's checks are fields of \<open>signal_ext\<close>.
\<close>

record signal_ext = ext +
  id_key_decode :: "bytes \<Rightarrow> string + bytes"                      \<comment> \<open>\<open>IdentityKey::decode\<close>, as the key serializes\<close>
  private_public :: "bytes \<Rightarrow> string + bytes"                     \<comment> \<open>\<open>PrivateKey::deserialize\<close> and its \<open>public_key\<close>\<close>
  xed_ok :: "bytes \<Rightarrow> bytes \<Rightarrow> bytes \<Rightarrow> bool"                    \<comment> \<open>\<open>PublicKey::verify_signature\<close>\<close>
  xed_sign :: "bytes \<Rightarrow> bytes \<Rightarrow> bytes \<Rightarrow> string + bytes"         \<comment> \<open>\<open>calculate_signature\<close>, with its randomness\<close>
  xwing_public :: "bytes \<Rightarrow> bytes"                              \<comment> \<open>the encapsulation key of a seed\<close>

type_synonym 'a mx_scheme = "'a signal_ext_scheme"

section \<open>Constants and encodings\<close>

definition account_manifest_v2_version :: u16 where "account_manifest_v2_version = 2"
definition identity_binding_len :: nat where "identity_binding_len = 64"
definition identity_public_key_len :: nat where "identity_public_key_len = 33"
definition djb_key_type :: u8 where "djb_key_type = 5"
definition identity_private_key_len :: nat where "identity_private_key_len = 32"
definition max_registration_id :: u32 where "max_registration_id = 0x3fff"
definition max_device_id :: u32 where "max_device_id = 127"
definition device_credential_len :: nat where "device_credential_len = 32"
definition provisioning_address_len :: nat where "provisioning_address_len = 16"
definition link_token_len :: nat where "link_token_len = 32"
definition provisioning_version :: u16 where "provisioning_version = 1"
definition reregistration_device_id :: u32 where "reregistration_device_id = 1"
definition max_prekey_record_bytes :: nat where "max_prekey_record_bytes = 16 * 1024"
definition max_provision_body_bytes :: nat where "max_provision_body_bytes = 64 * 1024"
definition link_uri_prefix :: string where "link_uri_prefix = ''kutup://link?''"
definition max_account_manifest_devices :: nat where "max_account_manifest_devices = 10"
definition max_account_manifest_history_page :: nat where "max_account_manifest_history_page = 64"

definition decode_lower_hex_32 :: "'a ext_scheme \<Rightarrow> string \<Rightarrow> string \<Rightarrow> string + bytes" where
  "decode_lower_hex_32 x name val =
     (let e = name @ '' must be lowercase SHA-256 hex''
      in bindr (ok_or (hex_decode x val) e) (\<lambda>bs.
         bindr (require (\<not> (length bs \<noteq> 32 \<or> hex_encode x bs \<noteq> val)) e) (\<lambda>_. Inr bs)))"

definition decode_canonical_base64_exact :: "'a ext_scheme \<Rightarrow> string \<Rightarrow> string \<Rightarrow> nat \<Rightarrow> string + bytes" where
  "decode_canonical_base64_exact x name val expected =
     bindr (ok_or (std_decode x val) (name @ '' must be canonical padded base64'')) (\<lambda>bs.
     bindr (require (\<not> (length bs \<noteq> expected \<or> std_encode x bs \<noteq> val))
       (name @ '' must be canonical base64 for '' @ decimal expected @ '' bytes'')) (\<lambda>_. Inr bs))"

definition decode_canonical_base64_bounded :: "'a ext_scheme \<Rightarrow> string \<Rightarrow> string \<Rightarrow> nat \<Rightarrow> string + bytes" where
  "decode_canonical_base64_bounded x name val max_len =
     bindr (ok_or (std_decode x val) (name @ '' must be canonical padded base64'')) (\<lambda>bs.
     bindr (require (\<not> (bs = [] \<or> length bs > max_len \<or> std_encode x bs \<noteq> val))
       (name @ '' must be canonical base64 for 1-'' @ decimal max_len @ '' bytes'')) (\<lambda>_. Inr bs))"

definition decode_b64url_exact :: "'a ext_scheme \<Rightarrow> string \<Rightarrow> string \<Rightarrow> nat \<Rightarrow> string + bytes" where
  "decode_b64url_exact x name val expected =
     bindr (ok_or (url_decode x val) (name @ '' must be canonical unpadded base64url'')) (\<lambda>bs.
     bindr (require (\<not> (length bs \<noteq> expected \<or> url_encode x bs \<noteq> val))
       (name @ '' must be canonical unpadded base64url for '' @ decimal expected @ '' bytes'')) (\<lambda>_. Inr bs))"

definition push_manifest_string :: "string \<Rightarrow> string + bytes" where
  "push_manifest_string val =
     bindr (require (length val < 2 ^ 32) ''manifest string is too long'') (\<lambda>_.
     Inr (be32 (length val) @ bytes_of_string val))"

definition push_optional :: "string option \<Rightarrow> string + bytes" where
  "push_optional v = (case v of
     Some val \<Rightarrow> bindr (push_manifest_string val) (\<lambda>bs. Inr (1 # bs))
   | None \<Rightarrow> Inr [0])"

definition decode_identity_key :: "'a ext_scheme \<Rightarrow> string \<Rightarrow> string \<Rightarrow> string + bytes" where
  "decode_identity_key x name val =
     bindr (decode_canonical_base64_exact x name val identity_public_key_len) (\<lambda>bs.
     bindr (require (hd bs = djb_key_type) (name @ '' must be a Curve25519 key'')) (\<lambda>_. Inr bs))"

definition check_device_id :: "u32 \<Rightarrow> string + unit" where
  "check_device_id i = require (\<not> (i = 0 \<or> i > max_device_id)) ''device id must be 1-127''"

definition check_registration_id :: "u32 \<Rightarrow> string + unit" where
  "check_registration_id i = require (\<not> (i = 0 \<or> i > max_registration_id)) ''registration id must be 1-16383''"

text \<open>\<open>AccountRef::bytes\<close>.  A reference is only made with a valid id, whose digits decode, so its panic has no branch.\<close>

definition account_bytes :: "'a ext_scheme \<Rightarrow> account_ref \<Rightarrow> bytes" where
  "account_bytes x r = (case account_ref_bytes x r of Some bs \<Rightarrow> bs | None \<Rightarrow> [])"

definition authority_key_id_of :: "'a ext_scheme \<Rightarrow> bytes \<Rightarrow> string" where
  "authority_key_id_of x public = hex_encode x (sha256 x public)"

section \<open>The manifest\<close>

datatype chat_suite = PqxdhTripleRatchetV1

definition chat_suite_number :: "chat_suite \<Rightarrow> nat" where "chat_suite_number s = 1"

datatype identity_suite = X25519Ed25519V1 | XWingEd25519V2

fun identity_suite_number :: "identity_suite \<Rightarrow> nat" where
  "identity_suite_number X25519Ed25519V1 = 1"
| "identity_suite_number XWingEd25519V2 = 2"

fun hpke_public_key_len :: "identity_suite \<Rightarrow> nat" where
  "hpke_public_key_len X25519Ed25519V1 = 32"
| "hpke_public_key_len XWingEd25519V2 = 1216"

record legacy_mls =
  lm_suite :: u16
  lm_credential :: string
  lm_delivery :: string

record manifest_device =
  md_device_id :: u32
  md_suite :: chat_suite
  md_registration_id :: u32
  md_mls :: "legacy_mls option"

record drive_keys =
  dk_suite :: identity_suite
  dk_hpke :: string
  dk_signing :: string

record account_manifest =
  mn_version :: u16
  mn_account :: account_ref
  mn_incarnation_id :: string
  mn_sequence :: u64
  mn_previous_hash :: "string option"
  mn_identity_key :: string
  mn_identity_binding :: string
  mn_drive :: drive_keys
  mn_devices :: "manifest_device list"
  mn_issued_at :: string
  mn_authority_key_id :: string
  mn_self_authority_key :: string
  mn_signature :: string

definition hex16 :: "u16 \<Rightarrow> string" where
  "hex16 n = ''0x'' @ hex_byte (word_of_nat (unat n div 256)) @ hex_byte (word_of_nat (unat n mod 256))"

definition legacy_mls_ciphersuite :: u16 where "legacy_mls_ciphersuite = 3"

definition mls_validate :: "'a ext_scheme \<Rightarrow> legacy_mls \<Rightarrow> string + unit" where
  "mls_validate x m =
     bindr (require (lm_suite m = legacy_mls_ciphersuite) (''unknown MLS ciphersuite '' @ hex16 (lm_suite m))) (\<lambda>_.
     bindr (decode_canonical_base64_exact x ''MLS credentialPublicKey'' (lm_credential m) 32) (\<lambda>credential.
     bindr (require (ed25519_key_ok x credential) ''MLS credentialPublicKey must be a valid Ed25519 public key'') (\<lambda>_.
     bindr (decode_canonical_base64_exact x ''MLS anonymousDeliveryPublicKey'' (lm_delivery m) 32) (\<lambda>delivery.
     require (\<not> list_all (\<lambda>b. b = 0) delivery)
       ''MLS anonymousDeliveryPublicKey must not be the all-zero X25519 key''))))"

definition identity_binding_domain :: bytes where
  "identity_binding_domain = domain_bytes ''kutup/account-identity-binding/v1''"

definition binding_bytes :: "'a ext_scheme \<Rightarrow> string \<Rightarrow> string \<Rightarrow> account_ref \<Rightarrow> string \<Rightarrow> string + bytes" where
  "binding_bytes x authority_key_id incarnation_id account identity_key =
     bindr (decode_lower_hex_32 x ''authorityKeyId'' authority_key_id) (\<lambda>a.
     bindr (decode_lower_hex_32 x ''incarnationId'' incarnation_id) (\<lambda>i.
     bindr (decode_identity_key x ''identityKey'' identity_key) (\<lambda>key.
     Inr (identity_binding_domain @ a @ i @ account_bytes x account @ key))))"

definition manifest_binding_bytes :: "'a ext_scheme \<Rightarrow> account_manifest \<Rightarrow> string + bytes" where
  "manifest_binding_bytes x m =
     binding_bytes x (mn_authority_key_id m) (mn_incarnation_id m) (mn_account m) (mn_identity_key m)"

definition manifest_domain :: bytes where "manifest_domain = domain_bytes ''kutup/account-manifest/v2''"

text \<open>The loop over the devices of \<open>manifest_signing_bytes\<close>.\<close>

definition device_mls_bytes :: "'a ext_scheme \<Rightarrow> legacy_mls option \<Rightarrow> string + bytes" where
  "device_mls_bytes x v = (case v of
     Some mls \<Rightarrow>
       bindr (mls_validate x mls) (\<lambda>_.
       bindr (push_manifest_string (lm_credential mls)) (\<lambda>c.
       bindr (push_manifest_string (lm_delivery mls)) (\<lambda>d. Inr (1 # be16 (unat (lm_suite mls)) @ c @ d))))
   | None \<Rightarrow> Inr [0])"

fun device_bytes :: "'a ext_scheme \<Rightarrow> u32 option \<Rightarrow> manifest_device list \<Rightarrow> string + bytes" where
  "device_bytes x prior [] = Inr []"
| "device_bytes x prior (d # ds) =
     bindr (require (\<not> (case prior of Some i \<Rightarrow> md_device_id d \<le> i | None \<Rightarrow> False))
       ''manifest devices must be strictly ordered by deviceId'') (\<lambda>_.
     bindr (device_mls_bytes x (md_mls d)) (\<lambda>mls.
     bindr (device_bytes x (Some (md_device_id d)) ds) (\<lambda>rest.
     Inr (be32 (unat (md_device_id d)) @ be32 (unat (md_registration_id d)) @ be16 (chat_suite_number (md_suite d)) @
       mls @ rest))))"

definition manifest_signing_bytes :: "'a ext_scheme \<Rightarrow> account_manifest \<Rightarrow> string + bytes" where
  "manifest_signing_bytes x m =
     bindr (decode_lower_hex_32 x ''incarnationId'' (mn_incarnation_id m)) (\<lambda>incarnation.
     bindr (push_optional (mn_previous_hash m)) (\<lambda>previous.
     bindr (push_manifest_string (mn_issued_at m)) (\<lambda>issued.
     bindr (decode_lower_hex_32 x ''authorityKeyId'' (mn_authority_key_id m)) (\<lambda>authority.
     bindr (decode_canonical_base64_exact x ''selfAuthorityKey'' (mn_self_authority_key m) 32) (\<lambda>self.
     bindr (decode_identity_key x ''identityKey'' (mn_identity_key m)) (\<lambda>identity.
     bindr (decode_canonical_base64_exact x ''identityBinding'' (mn_identity_binding m) identity_binding_len) (\<lambda>binding.
     bindr (decode_canonical_base64_exact x ''drive.hpkePublicKey'' (dk_hpke (mn_drive m))
       (hpke_public_key_len (dk_suite (mn_drive m)))) (\<lambda>hpke.
     bindr (decode_canonical_base64_exact x ''drive.shareSigningPublicKey'' (dk_signing (mn_drive m)) 32) (\<lambda>sharing.
     bindr (require (length (mn_devices m) < 2 ^ 32) ''too many devices'') (\<lambda>_.
     bindr (device_bytes x None (mn_devices m)) (\<lambda>devices.
     Inr (manifest_domain @ be16 (unat (mn_version m)) @ account_bytes x (mn_account m) @ incarnation @
       be64 (mn_sequence m) @ previous @ issued @ authority @ self @ identity @ binding @
       be16 (identity_suite_number (dk_suite (mn_drive m))) @ hpke @ sharing @ be32 (length (mn_devices m)) @ devices))))))))))))"

definition manifest_hash :: "'a ext_scheme \<Rightarrow> account_manifest \<Rightarrow> string + string" where
  "manifest_hash x m =
     bindr (manifest_signing_bytes x m) (\<lambda>bs. Inr (hex_encode x (sha256 x (bs @ bytes_of_string (mn_signature m)))))"

definition manifest_device_of :: "account_manifest \<Rightarrow> u32 \<Rightarrow> manifest_device option" where
  "manifest_device_of m i = (case bsearch md_device_id i (mn_devices m) of
     Inr j \<Rightarrow> Some (mn_devices m ! j)
   | Inl _ \<Rightarrow> None)"

definition manifest_verify :: "'a ext_scheme \<Rightarrow> account_manifest \<Rightarrow> string + unit" where
  "manifest_verify x m =
     bindr (require (mn_version m = account_manifest_v2_version) ''unsupported account manifest version'') (\<lambda>_.
     bindr (require (mn_sequence m \<noteq> 0) ''manifest sequence must be positive'') (\<lambda>_.
     bindr (require (mn_sequence m = 1 \<longleftrightarrow> mn_previous_hash m = None) ''only manifest sequence 1 has no previousHash'') (\<lambda>_.
     bindr (case mn_previous_hash m of None \<Rightarrow> Inr () | Some h \<Rightarrow> bindr (decode_lower_hex_32 x ''previousHash'' h) (\<lambda>_. Inr ())) (\<lambda>_.
     bindr (require (\<not> (mn_issued_at m = [] \<or> length (mn_issued_at m) > 64)) ''manifest issuedAt must be 1-64 bytes'') (\<lambda>_.
     bindr (require (\<not> (mn_devices m = [] \<or> length (mn_devices m) > max_account_manifest_devices))
       ''account manifest requires 1-10 active devices'') (\<lambda>_.
     bindr (for_each (\<lambda>d. bindr (check_device_id (md_device_id d)) (\<lambda>_. check_registration_id (md_registration_id d)))
       (mn_devices m)) (\<lambda>_.
     bindr (decode_canonical_base64_exact x ''selfAuthorityKey'' (mn_self_authority_key m) 32) (\<lambda>public.
     bindr (require (mn_authority_key_id m = authority_key_id_of x public) ''authorityKeyId does not match selfAuthorityKey'') (\<lambda>_.
     bindr (require (mn_incarnation_id m = incarnation_of x public) ''incarnationId does not match selfAuthorityKey'') (\<lambda>_.
     bindr (decode_canonical_base64_exact x ''drive.shareSigningPublicKey'' (dk_signing (mn_drive m)) 32) (\<lambda>signing.
     bindr (require (ed25519_key_ok x signing) ''Drive signing public key is not valid Ed25519'') (\<lambda>_.
     bindr (decode_canonical_base64_exact x ''signature'' (mn_signature m) 64) (\<lambda>signature.
     bindr (require (ed25519_key_ok x public) ''selfAuthorityKey is not a valid Ed25519 key'') (\<lambda>_.
     bindr (manifest_signing_bytes x m) (\<lambda>bs.
     require (ed25519_ok x public bs signature) ''manifest signature is invalid'')))))))))))))))"

definition manifest_verify_successor :: "'a ext_scheme \<Rightarrow> account_manifest \<Rightarrow> account_manifest option \<Rightarrow> string + unit" where
  "manifest_verify_successor x m head =
     bindr (manifest_verify x m) (\<lambda>_.
     case head of
       None \<Rightarrow> require (mn_sequence m = 1) ''the account has no manifest: the chain starts at sequence 1''
     | Some h \<Rightarrow>
         bindr (require (\<not> (mn_account m \<noteq> mn_account h \<or> mn_incarnation_id m \<noteq> mn_incarnation_id h \<or>
             mn_authority_key_id m \<noteq> mn_authority_key_id h \<or> mn_self_authority_key m \<noteq> mn_self_authority_key h))
           ''a successor names another account, incarnation or authority'') (\<lambda>_.
         bindr (require (Some (mn_sequence m) = checked_add (mn_sequence h) 1) ''a successor's sequence is the head's + 1'') (\<lambda>_.
         bindr (manifest_hash x h) (\<lambda>hash.
         require (mn_previous_hash m = Some hash) ''a successor's previousHash is the head's manifest hash''))))"

end
