(* ===== verification/Manifest_Requests.thy ===== *)
theory Manifest_Requests
  imports Account_Manifest
begin

text \<open>
  What carries a manifest (\<open>kutup-chat-proto/src/account_identity.rs\<close>): pages of its history, prekey bundles, the
  device credential header, the code and envelope a new device is linked with, the distribution of a new identity,
  registration, the digest of a device's keys, the sync a distribution sends.
\<close>

section \<open>History pages\<close>

record history_page =
  hp_account :: account_ref
  hp_from :: u64
  hp_to :: u64
  hp_manifests :: "account_manifest list"
  hp_next :: "u64 option"

text \<open>The loop of \<open>validate\<close>: the first manifest, the next sequence expected, the hash of the one before.\<close>

fun page_loop :: "'a ext_scheme \<Rightarrow> account_ref \<Rightarrow> account_manifest \<Rightarrow> u64 \<Rightarrow> string option \<Rightarrow> account_manifest list \<Rightarrow> string + u64" where
  "page_loop x account first expected previous [] = Inr expected"
| "page_loop x account first expected previous (m # ms) =
     bindr (manifest_verify x m) (\<lambda>_.
     bindr (require (\<not> (mn_account m \<noteq> account \<or> mn_sequence m \<noteq> expected))
       ''account manifest history page is missing or reordered'') (\<lambda>_.
     bindr (require (\<not> (previous \<noteq> None \<and> mn_previous_hash m \<noteq> previous))
       ''account manifest history page breaks the hash chain'') (\<lambda>_.
     bindr (require (\<not> (mn_incarnation_id m \<noteq> mn_incarnation_id first \<or> mn_authority_key_id m \<noteq> mn_authority_key_id first))
       ''account manifest history page changes authority'') (\<lambda>_.
     bindr (manifest_hash x m) (\<lambda>hash.
     bindr (ok_or (checked_add expected 1) ''account manifest sequence is exhausted'') (\<lambda>next.
     page_loop x account first next (Some hash) ms))))))"

definition page_validate :: "'a ext_scheme \<Rightarrow> history_page \<Rightarrow> string + unit" where
  "page_validate x p =
     bindr (require (\<not> (hp_from p = 0 \<or> hp_to p < hp_from p \<or> hp_manifests p = [] \<or>
         length (hp_manifests p) > max_account_manifest_history_page))
       ''account manifest history page has an invalid shape'') (\<lambda>_.
     bindr (page_loop x (hp_account p) (hd (hp_manifests p)) (hp_from p) None (hp_manifests p)) (\<lambda>expected.
     require (case hp_next p of
         Some next \<Rightarrow> expected - 1 < hp_to p \<and> next = expected
       | None \<Rightarrow> expected - 1 = hp_to p)
       ''account manifest history pagination is inconsistent''))"

section \<open>Bundles\<close>

record ec_pre_key =
  ep_key_id :: u32
  ep_public :: string
  ep_signature :: "string option"

record kem_pre_key =
  kp_key_id :: u32
  kp_public :: string
  kp_signature :: string

record bundle_v2 =
  bu_device_id :: u32
  bu_registration_id :: u32
  bu_suite :: chat_suite
  bu_signed :: ec_pre_key
  bu_kyber :: kem_pre_key
  bu_one_time :: "ec_pre_key option"

record bundles_response =
  br_account :: account_ref
  br_identity_key :: string
  br_devices :: "bundle_v2 list"
  br_manifest :: account_manifest

fun bundle_loop :: "account_manifest \<Rightarrow> u32 set \<Rightarrow> bundle_v2 list \<Rightarrow> string + unit" where
  "bundle_loop m seen [] = Inr ()"
| "bundle_loop m seen (b # bs) =
     bindr (ok_or (manifest_device_of m (bu_device_id b)) ''a bundle names a device the manifest does not list'') (\<lambda>listed.
     bindr (require (\<not> (md_registration_id listed \<noteq> bu_registration_id b \<or> md_suite listed \<noteq> bu_suite b))
       ''a bundle disagrees with the manifest'') (\<lambda>_.
     bindr (require (bu_device_id b \<notin> seen) ''a device has two bundles'') (\<lambda>_.
     bundle_loop m (insert (bu_device_id b) seen) bs)))"

definition check_against_manifest :: "'a ext_scheme \<Rightarrow> bundles_response \<Rightarrow> string + unit" where
  "check_against_manifest x r =
     bindr (manifest_verify x (br_manifest r)) (\<lambda>_.
     bindr (require (mn_account (br_manifest r) = br_account r) ''bundles name another account than their manifest'') (\<lambda>_.
     bindr (require (br_identity_key r = mn_identity_key (br_manifest r))
       ''bundles carry another identity than their manifest'') (\<lambda>_.
     bundle_loop (br_manifest r) {} (br_devices r))))"

section \<open>Device credentials\<close>

definition format_device_header :: "'a ext_scheme \<Rightarrow> u32 \<Rightarrow> bytes \<Rightarrow> string" where
  "format_device_header x i credential = decimal (unat i) @ ''.'' @ url_encode x credential"

definition parse_device_header :: "'a ext_scheme \<Rightarrow> string \<Rightarrow> string + u32 \<times> bytes" where
  "parse_device_header x val =
     bindr (ok_or (split_once (CHR ''.'') val) ''device header must be <deviceId>.<credential>'') (\<lambda>(i, credential).
     bindr (require (\<not> (i = [] \<or> length i > 3 \<or> \<not> list_all is_digit i \<or> hd i = CHR ''0''))
       ''device header has an invalid device id'') (\<lambda>_.
     let device_id = word_of_nat (decimal_value i)
     in bindr (check_device_id device_id) (\<lambda>_.
        bindr (decode_b64url_exact x ''credential'' credential device_credential_len) (\<lambda>credential.
        Inr (device_id, credential)))))"

definition decode_device_credential :: "'a ext_scheme \<Rightarrow> string \<Rightarrow> string + bytes" where
  "decode_device_credential x val = decode_b64url_exact x ''credential'' val device_credential_len"

section \<open>Linking\<close>

definition decode_link_token :: "'a ext_scheme \<Rightarrow> string \<Rightarrow> string + bytes" where
  "decode_link_token x val = decode_b64url_exact x ''linkToken'' val link_token_len"

definition decode_provisioning_address :: "'a ext_scheme \<Rightarrow> string \<Rightarrow> string + bytes" where
  "decode_provisioning_address x val = decode_b64url_exact x ''address'' val provisioning_address_len"

record provision_envelope =
  pe_public_key :: string
  pe_body :: string

definition min_body_len :: nat where "min_body_len = 1 + 16 + 16 + 32"

definition envelope_validate :: "'a ext_scheme \<Rightarrow> provision_envelope \<Rightarrow> string + unit" where
  "envelope_validate x e =
     bindr (decode_identity_key x ''publicKey'' (pe_public_key e)) (\<lambda>_.
     bindr (decode_canonical_base64_bounded x ''body'' (pe_body e) max_provision_body_bytes) (\<lambda>body.
     bindr (require (\<not> (length body < min_body_len \<or> (length body - 1 - 16 - 32) mod 16 \<noteq> 0))
       ''provisioning body has an invalid length'') (\<lambda>_.
     require (hd body = 1) ''unsupported provisioning cipher version'')))"

record link_code =
  lc_address :: bytes
  lc_public_key :: bytes

definition link_to_uri :: "'a ext_scheme \<Rightarrow> link_code \<Rightarrow> string" where
  "link_to_uri x c = link_uri_prefix @ ''address='' @ url_encode x (lc_address c) @ ''&key='' @ url_encode x (lc_public_key c)"

text \<open>\<open>split_once\<close> at a string: at its first place.\<close>

fun split_once_str :: "string \<Rightarrow> string \<Rightarrow> (string \<times> string) option" where
  "split_once_str d s =
     (if take (length d) s = d then Some ([], drop (length d) s)
      else case s of [] \<Rightarrow> None | c # cs \<Rightarrow> map_option (\<lambda>(a, b). (c # a, b)) (split_once_str d cs))"

declare split_once_str.simps [simp del]

definition link_parse :: "'a ext_scheme \<Rightarrow> string \<Rightarrow> string + link_code" where
  "link_parse x val =
     bindr (ok_or (strip_prefix link_uri_prefix (trim val)) ''not a Kutup link code'') (\<lambda>query.
     bindr (ok_or (Option.bind (strip_prefix ''address='' query) (split_once_str ''&key=''))
       (''link code must be address='' @ [char_of (226 :: nat), char_of (128 :: nat), char_of (166 :: nat)] @ ''&key='' @
        [char_of (226 :: nat), char_of (128 :: nat), char_of (166 :: nat)])) (\<lambda>(address, key).
     bindr (decode_provisioning_address x address) (\<lambda>address.
     bindr (decode_b64url_exact x ''key'' key identity_public_key_len) (\<lambda>public.
     bindr (require (hd public = djb_key_type) ''link code key must be a Curve25519 key'') (\<lambda>_.
     Inr \<lparr>lc_address = address, lc_public_key = public\<rparr>)))))"

datatype profile_suite = XChaCha20Poly1305V1

record chat_provision =
  cp_version :: u16
  cp_account :: account_ref
  cp_identity_public :: string
  cp_identity_private :: string
  cp_link_token :: string
  cp_manifest_sequence :: u64
  cp_manifest_hash :: string
  cp_profile_key :: string
  cp_profile_suite :: profile_suite
  cp_read_receipts :: bool
  cp_typing_indicators :: bool

definition provision_validate :: "'a ext_scheme \<Rightarrow> chat_provision \<Rightarrow> string + unit" where
  "provision_validate x p =
     bindr (require (cp_version p = provisioning_version) ''unsupported provisioning version'') (\<lambda>_.
     bindr (decode_identity_key x ''identityKeyPublic'' (cp_identity_public p)) (\<lambda>_.
     bindr (decode_canonical_base64_exact x ''identityKeyPrivate'' (cp_identity_private p) identity_private_key_len) (\<lambda>_.
     bindr (decode_link_token x (cp_link_token p)) (\<lambda>_.
     bindr (require (cp_manifest_sequence p \<noteq> 0) ''manifestSequence must be positive'') (\<lambda>_.
     bindr (decode_lower_hex_32 x ''manifestHash'' (cp_manifest_hash p)) (\<lambda>_.
     bindr (decode_canonical_base64_exact x ''profileKey'' (cp_profile_key p) 32) (\<lambda>_. Inr ())))))))"

section \<open>Distribution of a new identity\<close>

datatype envelope_type = PreKey | Message

record outgoing_envelope =
  oe_device_id :: u32
  oe_registration_id :: u32
  oe_type :: envelope_type
  oe_suite :: chat_suite
  oe_content :: string

record distributed_keys =
  di_device_id :: u32
  di_registration_id :: u32
  di_signed :: ec_pre_key
  di_last_resort :: kem_pre_key

record distribution =
  ds_identity_key :: string
  ds_devices :: "distributed_keys list"
  ds_messages :: "outgoing_envelope list"
  ds_manifest :: account_manifest

record mismatch =
  mi_missing :: "u32 list"
  mi_stale :: "u32 list"
  mi_extra :: "u32 list"

datatype distribution_error = DInvalid string | DMismatched mismatch

definition strictly_ordered :: "'b list \<Rightarrow> ('b \<Rightarrow> u32) \<Rightarrow> string \<Rightarrow> string + unit" where
  "strictly_ordered items key what =
     require (windows2 (\<lambda>a b. key a < key b) items) (what @ '' must be strictly ordered by deviceId'')"

definition compare_sets :: "u32 list \<Rightarrow> u32 list \<Rightarrow> mismatch" where
  "compare_sets want have =
     \<lparr>mi_missing = filter (\<lambda>i. i \<notin> set have) want, mi_stale = [], mi_extra = filter (\<lambda>i. i \<notin> set want) have\<rparr>"

definition same_devices :: "u32 list \<Rightarrow> u32 list \<Rightarrow> distribution_error + unit" where
  "same_devices want have =
     (let mismatch = compare_sets want have
      in require (\<not> (mi_missing mismatch \<noteq> [] \<or> mi_extra mismatch \<noteq> [])) (DMismatched mismatch))"

text \<open>\<open>None\<close> of the device is the panic of \<open>expect\<close>; the sets were compared before.\<close>

definition check_keys :: "account_manifest \<Rightarrow> distributed_keys \<Rightarrow> string + unit" where
  "check_keys m keys = (case manifest_device_of m (di_device_id keys) of
     None \<Rightarrow> Inl ''sets compared''
   | Some listed \<Rightarrow>
       bindr (require (md_registration_id listed = di_registration_id keys)
         ''a device's registration id disagrees with the manifest'') (\<lambda>_.
       require (ep_signature (di_signed keys) \<noteq> None) ''a signed prekey must carry its signature''))"

definition distribution_validate :: "'a ext_scheme \<Rightarrow> distribution \<Rightarrow> u32 \<Rightarrow> distribution_error + unit" where
  "distribution_validate x d sender =
     (let m = ds_manifest d; listed = map md_device_id (mn_devices m)
      in bindr (map_err DInvalid (manifest_verify x m)) (\<lambda>_.
         bindr (map_err DInvalid (decode_identity_key x ''identityKey'' (ds_identity_key d))) (\<lambda>_.
         bindr (require (ds_identity_key d = mn_identity_key m) (DInvalid ''the manifest lists another identity'')) (\<lambda>_.
         bindr (require (manifest_device_of m sender \<noteq> None) (DInvalid ''the sending device must keep itself'')) (\<lambda>_.
         bindr (map_err DInvalid (strictly_ordered (ds_devices d) di_device_id ''devices'')) (\<lambda>_.
         bindr (map_err DInvalid (strictly_ordered (ds_messages d) oe_device_id ''deviceMessages'')) (\<lambda>_.
         bindr (same_devices listed (map di_device_id (ds_devices d))) (\<lambda>_.
         bindr (same_devices (filter (\<lambda>i. i \<noteq> sender) listed) (map oe_device_id (ds_messages d))) (\<lambda>_.
         map_err DInvalid (for_each (check_keys m) (ds_devices d)))))))))))"

section \<open>Registration\<close>

datatype registration = Link string | Reregistration account_manifest

record register_request =
  rg_suite :: chat_suite
  rg_registration_id :: u32
  rg_identity_key :: string
  rg_signed :: ec_pre_key
  rg_last_resort :: kem_pre_key
  rg_one_time :: "ec_pre_key list"
  rg_one_time_kyber :: "kem_pre_key list"
  rg_name :: string
  rg_credential :: string
  rg_registration :: registration

definition register_validate :: "'a ext_scheme \<Rightarrow> register_request \<Rightarrow> string + unit" where
  "register_validate x r =
     bindr (decode_identity_key x ''identityKey'' (rg_identity_key r)) (\<lambda>_.
     bindr (decode_device_credential x (rg_credential r)) (\<lambda>_.
     bindr (check_registration_id (rg_registration_id r)) (\<lambda>_.
     bindr (require (ep_signature (rg_signed r) \<noteq> None) ''a signed prekey must carry its signature'') (\<lambda>_.
     case rg_registration r of
       Link token \<Rightarrow> bindr (decode_link_token x token) (\<lambda>_. Inr ())
     | Reregistration m \<Rightarrow>
         bindr (manifest_verify x m) (\<lambda>_.
         bindr (require (mn_identity_key m = rg_identity_key r) ''the manifest lists another identity'') (\<lambda>_.
         require (case mn_devices m of
             [d] \<Rightarrow> md_device_id d = reregistration_device_id \<and> md_registration_id d = rg_registration_id r \<and>
               md_suite d = rg_suite r
           | _ \<Rightarrow> False) ''a re-registration manifest lists this device alone''))))))"

section \<open>The digest of a device's keys, and the identity sync\<close>

definition keys_check_domain :: bytes where "keys_check_domain = domain_bytes ''kutup/chat-keys-check/v1''"

fun key_digest_part :: "u32 option \<times> bytes \<Rightarrow> bytes" where
  "key_digest_part (i, key) =
     (case i of Some i \<Rightarrow> be64 (word_of_nat (unat i)) | None \<Rightarrow> []) @ be32 (length key mod 2 ^ 32) @ key"

definition repeated_use_keys_digest :: "'a ext_scheme \<Rightarrow> bytes \<Rightarrow> u32 \<Rightarrow> bytes \<Rightarrow> u32 \<Rightarrow> bytes \<Rightarrow> bytes" where
  "repeated_use_keys_digest x identity_key signed_id signed_key last_id last_resort =
     sha256 x (keys_check_domain @
       concat (map key_digest_part [(None, identity_key), (Some signed_id, signed_key), (Some last_id, last_resort)]))"

record identity_body =
  ib_identity_public :: string
  ib_identity_private :: string
  ib_registration_id :: u32
  ib_signed :: string
  ib_last_resort :: string
  ib_manifest_sequence :: u64
  ib_manifest_hash :: string

definition identity_body_validate :: "'a ext_scheme \<Rightarrow> identity_body \<Rightarrow> string + unit" where
  "identity_body_validate x b =
     bindr (decode_identity_key x ''identityKeyPublic'' (ib_identity_public b)) (\<lambda>_.
     bindr (decode_canonical_base64_exact x ''identityKeyPrivate'' (ib_identity_private b) identity_private_key_len) (\<lambda>_.
     bindr (check_registration_id (ib_registration_id b)) (\<lambda>_.
     bindr (decode_canonical_base64_bounded x ''signedPreKey'' (ib_signed b) max_prekey_record_bytes) (\<lambda>_.
     bindr (decode_canonical_base64_bounded x ''lastResortKyberPreKey'' (ib_last_resort b) max_prekey_record_bytes) (\<lambda>_.
     bindr (require (ib_manifest_sequence b \<noteq> 0) ''manifestSequence must be positive'') (\<lambda>_.
     bindr (decode_lower_hex_32 x ''manifestHash'' (ib_manifest_hash b)) (\<lambda>_. Inr ())))))))"

end
