(* ===== verification/Manifest_Trust.thy ===== *)
theory Manifest_Trust
  imports Manifest_Requests Padding
begin

text \<open>
  What a client makes of manifests (\<open>kutup-chat-core/src/manifest.rs\<close>, with \<open>ManifestTrust\<close> of \<open>db.rs\<close>): it signs its
  own (\<open>AccountAuthority\<close>, keys from \<open>kutup-crypto/src/identity.rs\<close>), pins a peer's, accepts a later one only where it
  follows from the pin, and recovers a gap from the history.  \<open>account_identity.rs\<close>: the checks of the account's
  own manifest when a device is linked or takes over a new identity.
\<close>

section \<open>Pins\<close>

datatype authority_trust = Tofu | Verified | Quarantined

fun trust_code :: "authority_trust \<Rightarrow> int" where
  "trust_code Tofu = 0" | "trust_code Verified = 1" | "trust_code Quarantined = 2"

definition trust_from_code :: "int \<Rightarrow> authority_trust option" where
  "trust_from_code c = (if c = 0 then Some Tofu else if c = 1 then Some Verified else if c = 2 then Some Quarantined else None)"

record history_record =
  hr_peer :: string
  hr_sequence :: u64
  hr_manifest :: account_manifest

text \<open>\<open>ManifestTrust\<close> without its \<open>pending_reset\<close>, which holds another one.\<close>

record trust_pin =
  tp_peer :: string
  tp_account :: string
  tp_incarnation_id :: string
  tp_authority_key_id :: string
  tp_self_authority_key :: string
  tp_drive_hpke :: string
  tp_drive_signing :: string
  tp_highest_sequence :: u64
  tp_manifest_hash :: string
  tp_identity_key :: string
  tp_identity_verified :: bool
  tp_identity_verified_at_ms :: int
  tp_trust :: authority_trust
  tp_continuity_gap :: bool
  tp_quarantine_reason :: "string option"

datatype manifest_trust = ManifestTrust (mt_pin: trust_pin) (mt_pending: "pending_reset option")
  and pending_reset = PendingReset (pr_candidate: manifest_trust) (pr_history: "history_record list")

section \<open>The account's keys\<close>

definition account_identity_salt :: bytes where "account_identity_salt = domain_bytes ''kutup/account-identity/v1''"
definition self_authority_info :: bytes where "self_authority_info = domain_bytes ''kutup/account-identity/self-authority/v1''"
definition drive_hpke_info :: bytes where "drive_hpke_info = domain_bytes ''kutup/account-identity/drive-hpke-xwing/v1''"
definition drive_signing_info :: bytes where
  "drive_signing_info = domain_bytes ''kutup/account-identity/drive-share-signing-ed25519/v1''"

record identity_keys =
  ak_authority_seed :: bytes
  ak_hpke_seed :: bytes
  ak_signing_seed :: bytes

definition derive_identity_keys :: "'a ext_scheme \<Rightarrow> bytes \<Rightarrow> identity_keys" where
  "derive_identity_keys x master_key =
     \<lparr>ak_authority_seed = hkdf_sha256 x account_identity_salt master_key self_authority_info 32,
      ak_hpke_seed = hkdf_sha256 x account_identity_salt master_key drive_hpke_info 32,
      ak_signing_seed = hkdf_sha256 x account_identity_salt master_key drive_signing_info 32\<rparr>"

definition authority_public :: "'a ext_scheme \<Rightarrow> identity_keys \<Rightarrow> bytes" where
  "authority_public x k = ed25519_public x (ak_authority_seed k)"

definition public_key_base64 :: "'a ext_scheme \<Rightarrow> identity_keys \<Rightarrow> string" where
  "public_key_base64 x k = std_encode x (authority_public x k)"

definition key_id :: "'a ext_scheme \<Rightarrow> identity_keys \<Rightarrow> string" where
  "key_id x k = authority_key_id_of x (authority_public x k)"

definition own_incarnation_id :: "'a ext_scheme \<Rightarrow> identity_keys \<Rightarrow> string" where
  "own_incarnation_id x k = incarnation_of x (authority_public x k)"

definition own_drive_keys :: "'a mx_scheme \<Rightarrow> identity_keys \<Rightarrow> drive_keys" where
  "own_drive_keys x k =
     \<lparr>dk_suite = XWingEd25519V2,
      dk_hpke = std_encode x (xwing_public x (ak_hpke_seed k)),
      dk_signing = std_encode x (ed25519_public x (ak_signing_seed k))\<rparr>"

section \<open>Signing\<close>

record identity_key_pair =
  ik_public :: bytes
  ik_private :: bytes

definition identity_binding :: "'a mx_scheme \<Rightarrow> identity_keys \<Rightarrow> account_ref \<Rightarrow> identity_key_pair \<Rightarrow> bytes \<Rightarrow> chat_error + string" where
  "identity_binding x k account identity random =
     bindr (map_err Invalid (binding_bytes x (key_id x k) (own_incarnation_id x k) account (std_encode x (ik_public identity)))) (\<lambda>bs.
     bindr (map_err Protocol (xed_sign x (ik_private identity) bs random)) (\<lambda>signature.
     Inr (std_encode x signature)))"

definition unsigned_manifest ::
    "'a mx_scheme \<Rightarrow> identity_keys \<Rightarrow> account_ref \<Rightarrow> u64 \<Rightarrow> string option \<Rightarrow> string \<Rightarrow> string \<Rightarrow> manifest_device list \<Rightarrow> string \<Rightarrow> account_manifest" where
  "unsigned_manifest x k account sequence previous_hash identity_key binding devices issued_at =
     \<lparr>mn_version = account_manifest_v2_version, mn_account = account, mn_incarnation_id = own_incarnation_id x k,
      mn_sequence = sequence, mn_previous_hash = previous_hash, mn_identity_key = identity_key,
      mn_identity_binding = binding, mn_drive = own_drive_keys x k, mn_devices = sort_key md_device_id devices,
      mn_issued_at = issued_at, mn_authority_key_id = key_id x k, mn_self_authority_key = public_key_base64 x k,
      mn_signature = []\<rparr>"

definition sign_devices_as_given ::
    "'a mx_scheme \<Rightarrow> identity_keys \<Rightarrow> account_ref \<Rightarrow> u64 \<Rightarrow> string option \<Rightarrow> string \<Rightarrow> string \<Rightarrow> manifest_device list \<Rightarrow> string \<Rightarrow>
       chat_error + account_manifest" where
  "sign_devices_as_given x k account sequence previous_hash identity_key binding devices issued_at =
     (let m = unsigned_manifest x k account sequence previous_hash identity_key binding devices issued_at
      in bindr (map_err Invalid (manifest_signing_bytes x m)) (\<lambda>bs.
         let m = m\<lparr>mn_signature := std_encode x (ed25519_sign x (ak_authority_seed k) bs)\<rparr>
         in bindr (map_err Protocol (manifest_verify x m)) (\<lambda>_. Inr m)))"

definition sign_manifest_with_binding ::
    "'a mx_scheme \<Rightarrow> identity_keys \<Rightarrow> account_ref \<Rightarrow> u64 \<Rightarrow> string option \<Rightarrow> string \<Rightarrow> string \<Rightarrow> manifest_device list \<Rightarrow> string \<Rightarrow>
       chat_error + account_manifest" where
  "sign_manifest_with_binding x k account sequence previous_hash identity_key binding devices issued_at =
     sign_devices_as_given x k account sequence previous_hash identity_key binding
       (map (\<lambda>d. d\<lparr>md_mls := None\<rparr>) devices) issued_at"

definition sign_manifest ::
    "'a mx_scheme \<Rightarrow> identity_keys \<Rightarrow> account_ref \<Rightarrow> u64 \<Rightarrow> string option \<Rightarrow> identity_key_pair \<Rightarrow> manifest_device list \<Rightarrow> string \<Rightarrow> bytes \<Rightarrow>
       chat_error + account_manifest" where
  "sign_manifest x k account sequence previous_hash identity devices issued_at random =
     bindr (identity_binding x k account identity random) (\<lambda>binding.
     sign_manifest_with_binding x k account sequence previous_hash (std_encode x (ik_public identity)) binding devices issued_at)"

section \<open>Reading\<close>

fun chat_error_text :: "chat_error \<Rightarrow> string" where
  "chat_error_text (Trust e) = ''device trust: '' @ e"
| "chat_error_text (Protocol e) = ''crypto: '' @ e"
| "chat_error_text (Invalid e) = ''invalid parameter: '' @ e"

definition parse_account :: "string \<Rightarrow> chat_error + account_ref" where
  "parse_account val = map_err (\<lambda>e. Invalid (''not an account: '' @ crypto_error_text e)) (account_ref_from_str val)"

definition match_expected_account :: "string \<Rightarrow> account_ref \<Rightarrow> chat_error + unit" where
  "match_expected_account expected_peer account =
     bindr (map_err (\<lambda>e. Trust (chat_error_text e)) (parse_account expected_peer)) (\<lambda>expected.
     require (expected = account) (Trust ''account manifest belongs to another account''))"

definition binding_refused :: chat_error where
  "binding_refused = Trust ''the manifest's identity binding is invalid''"

definition verify_identity_binding :: "'a mx_scheme \<Rightarrow> account_manifest \<Rightarrow> chat_error + unit" where
  "verify_identity_binding x m =
     bindr (map_err (\<lambda>_. binding_refused) (manifest_binding_bytes x m)) (\<lambda>bs.
     bindr (ok_or (Option.bind (std_decode x (mn_identity_key m)) (\<lambda>k. case id_key_decode x k of Inr key \<Rightarrow> Some key | Inl _ \<Rightarrow> None))
       binding_refused) (\<lambda>key.
     bindr (ok_or (std_decode x (mn_identity_binding m)) binding_refused) (\<lambda>signature.
     require (xed_ok x key bs signature) binding_refused)))"

definition verify_manifest :: "'a mx_scheme \<Rightarrow> account_manifest \<Rightarrow> chat_error + unit" where
  "verify_manifest x m =
     bindr (map_err Protocol (manifest_verify x m)) (\<lambda>_.
     map_err (\<lambda>e. Protocol (chat_error_text e)) (verify_identity_binding x m))"

definition drive_key_rises :: "'a ext_scheme \<Rightarrow> string \<Rightarrow> account_manifest \<Rightarrow> bool" where
  "drive_key_rises x prior_key next \<longleftrightarrow>
     map_option length (std_decode x prior_key) = Some (hpke_public_key_len X25519Ed25519V1) \<and>
     dk_suite (mn_drive next) = XWingEd25519V2"

definition decide_fresh :: "account_manifest \<Rightarrow> authority_trust \<times> bool" where
  "decide_fresh m = (Tofu, mn_sequence m \<noteq> 1)"

text \<open>
  The branch with a prior pin.  \<open>None\<close> is the early return of the prior pin itself, for the manifest it already
  pins.
\<close>

definition decide_known ::
    "'a ext_scheme \<Rightarrow> string \<Rightarrow> account_manifest \<Rightarrow> string \<Rightarrow> trust_pin \<Rightarrow> chat_error + (authority_trust \<times> bool) option" where
  "decide_known x expected_peer m hash p =
     bindr (require (tp_trust p \<noteq> Quarantined)
       (Trust ''peer account identity is quarantined pending explicit verification'')) (\<lambda>_.
     bindr (require (tp_peer p = expected_peer) (Trust ''account-manifest pin belongs to another peer'')) (\<lambda>_.
     bindr (require (\<not> (tp_authority_key_id p \<noteq> mn_authority_key_id m \<or> tp_self_authority_key p \<noteq> mn_self_authority_key m \<or>
         tp_incarnation_id p \<noteq> mn_incarnation_id m))
       (Trust ''peer authority or incarnation changed; explicit reset acceptance is required'')) (\<lambda>_.
     let consecutive = (mn_sequence m = saturating_add (tp_highest_sequence p) 1);
         linked = (consecutive \<and> mn_previous_hash m = Some (tp_manifest_hash p));
         drive_key_ok = (tp_drive_hpke p = dk_hpke (mn_drive m) \<or>
           (linked \<or> \<not> consecutive) \<and> drive_key_rises x (tp_drive_hpke p) m)
     in bindr (require (\<not> (tp_account p \<noteq> account_ref_to_string (mn_account m) \<or> \<not> drive_key_ok \<or>
            tp_drive_signing p \<noteq> dk_signing (mn_drive m)))
          (Trust ''stable account identity changed inside one incarnation'')) (\<lambda>_.
        bindr (require (\<not> mn_sequence m < tp_highest_sequence p)
          (Trust (''account manifest rollback from sequence '' @ decimal (unat (tp_highest_sequence p)) @ '' to '' @
             decimal (unat (mn_sequence m))))) (\<lambda>_.
        if mn_sequence m = tp_highest_sequence p then
          bindr (require (hash = tp_manifest_hash p)
            (Trust (''account manifest equivocation at sequence '' @ decimal (unat (mn_sequence m))))) (\<lambda>_. Inr None)
        else
          bindr (require (\<not> (consecutive \<and> mn_previous_hash m \<noteq> Some (tp_manifest_hash p)))
            (Trust ''account manifest does not link to the accepted predecessor'')) (\<lambda>_.
          Inr (Some (tp_trust p, tp_continuity_gap p \<or> \<not> consecutive))))))))"

definition pin_of :: "string \<Rightarrow> account_manifest \<Rightarrow> string \<Rightarrow> manifest_trust option \<Rightarrow> authority_trust \<Rightarrow> bool \<Rightarrow> manifest_trust" where
  "pin_of expected_peer m hash prior trust gap =
     ManifestTrust
       \<lparr>tp_peer = expected_peer, tp_account = account_ref_to_string (mn_account m), tp_incarnation_id = mn_incarnation_id m,
        tp_authority_key_id = mn_authority_key_id m, tp_self_authority_key = mn_self_authority_key m,
        tp_drive_hpke = dk_hpke (mn_drive m), tp_drive_signing = dk_signing (mn_drive m), tp_highest_sequence = mn_sequence m,
        tp_manifest_hash = hash, tp_identity_key = mn_identity_key m,
        tp_identity_verified = (case prior of None \<Rightarrow> False
          | Some p \<Rightarrow> tp_identity_verified (mt_pin p) \<and> tp_identity_key (mt_pin p) = mn_identity_key m),
        tp_identity_verified_at_ms = (case prior of None \<Rightarrow> 0
          | Some p \<Rightarrow> if tp_identity_key (mt_pin p) = mn_identity_key m then tp_identity_verified_at_ms (mt_pin p) else 0),
        tp_trust = trust, tp_continuity_gap = gap, tp_quarantine_reason = None\<rparr> None"

definition verify_manifest_trust ::
    "'a mx_scheme \<Rightarrow> string \<Rightarrow> account_manifest \<Rightarrow> manifest_trust option \<Rightarrow> chat_error + manifest_trust" where
  "verify_manifest_trust x expected_peer m prior =
     bindr (map_err Trust (manifest_verify x m)) (\<lambda>_.
     bindr (verify_identity_binding x m) (\<lambda>_.
     bindr (match_expected_account expected_peer (mn_account m)) (\<lambda>_.
     bindr (map_err Trust (manifest_hash x m)) (\<lambda>hash.
     case prior of
       None \<Rightarrow> (case decide_fresh m of (trust, gap) \<Rightarrow> Inr (pin_of expected_peer m hash prior trust gap))
     | Some p \<Rightarrow> bindr (decide_known x expected_peer m hash (mt_pin p)) (\<lambda>d. case d of
           None \<Rightarrow> Inr p
         | Some (trust, gap) \<Rightarrow> Inr (pin_of expected_peer m hash prior trust gap))))))"

definition verify_bundle_response ::
    "'a mx_scheme \<Rightarrow> string \<Rightarrow> bundles_response \<Rightarrow> manifest_trust option \<Rightarrow> chat_error + manifest_trust option" where
  "verify_bundle_response x expected_peer r prior =
     (let m = br_manifest r
      in bindr (map_err Trust (manifest_verify x m)) (\<lambda>_.
         bindr (require (br_account r = mn_account m)
           (Trust ''bundle routing identity does not match its account manifest'')) (\<lambda>_.
         bindr (match_expected_account expected_peer (mn_account m)) (\<lambda>_.
         bindr (map_err (\<lambda>e. Trust (''bundles contradict the signed manifest: '' @ e)) (check_against_manifest x r)) (\<lambda>_.
         bindr (verify_manifest_trust x expected_peer m prior) (\<lambda>t. Inr (Some t)))))))"

record device_bundle =
  db_device_id :: u32
  db_registration_id :: u32
  db_suite :: chat_suite
  db_identity_key :: string
  db_signed :: ec_pre_key
  db_kyber :: kem_pre_key
  db_one_time :: "ec_pre_key option"

definition account_bundles :: "bundles_response \<Rightarrow> device_bundle list" where
  "account_bundles r = map (\<lambda>b.
     \<lparr>db_device_id = bu_device_id b, db_registration_id = bu_registration_id b, db_suite = bu_suite b,
      db_identity_key = br_identity_key r, db_signed = bu_signed b, db_kyber = bu_kyber b, db_one_time = bu_one_time b\<rparr>)
     (br_devices r)"

section \<open>Recovering a gap\<close>

text \<open>What \<open>verify_manifest_history\<close> carries from one manifest to the next.\<close>

record history_state =
  hs_expected :: u64
  hs_predecessor :: "string option"
  hs_identity :: "(string \<times> string \<times> string \<times> string) option"
  hs_rolling :: "manifest_trust option"
  hs_records :: "history_record list"

definition identity_of_manifest :: "account_manifest \<Rightarrow> string \<times> string \<times> string \<times> string" where
  "identity_of_manifest m =
     (account_ref_to_string (mn_account m), mn_incarnation_id m, mn_authority_key_id m, mn_self_authority_key m)"

definition history_start :: "manifest_trust option \<Rightarrow> history_state" where
  "history_start prior =
     \<lparr>hs_expected = (case prior of None \<Rightarrow> 1 | Some t \<Rightarrow> saturating_add (tp_highest_sequence (mt_pin t)) 1),
      hs_predecessor = map_option (\<lambda>t. tp_manifest_hash (mt_pin t)) prior,
      hs_identity = map_option (\<lambda>t. (tp_account (mt_pin t), tp_incarnation_id (mt_pin t), tp_authority_key_id (mt_pin t),
         tp_self_authority_key (mt_pin t))) prior,
      hs_rolling = None, hs_records = []\<rparr>"

definition history_step ::
    "'a mx_scheme \<Rightarrow> string \<Rightarrow> manifest_trust option \<Rightarrow> account_manifest \<Rightarrow> history_state \<Rightarrow> chat_error + history_state" where
  "history_step x expected_peer prior m s =
     bindr (require (\<not> (mn_sequence m \<noteq> hs_expected s \<or> mn_previous_hash m \<noteq> hs_predecessor s))
       (Trust ''account manifest history chain is incomplete or inconsistent'')) (\<lambda>_.
     bindr (verify_manifest_trust x expected_peer m (case hs_rolling s of Some r \<Rightarrow> Some r | None \<Rightarrow> prior)) (\<lambda>checked.
     bindr (case hs_identity s of
         Some i \<Rightarrow> bindr (require (i = identity_of_manifest m) (Trust ''account manifest history changes identity'')) (\<lambda>_. Inr i)
       | None \<Rightarrow> Inr (identity_of_manifest m)) (\<lambda>identity.
     bindr (map_err Trust (manifest_hash x m)) (\<lambda>hash.
     bindr (ok_or (checked_add (hs_expected s) 1) (Trust ''account manifest sequence exhausted'')) (\<lambda>expected.
     Inr \<lparr>hs_expected = expected, hs_predecessor = Some hash, hs_identity = Some identity, hs_rolling = Some checked,
       hs_records = hs_records s @ [\<lparr>hr_peer = expected_peer, hr_sequence = mn_sequence m, hr_manifest = m\<rparr>]\<rparr>)))))"

fun history_manifests ::
    "'a mx_scheme \<Rightarrow> string \<Rightarrow> manifest_trust option \<Rightarrow> account_manifest list \<Rightarrow> history_state \<Rightarrow> chat_error + history_state" where
  "history_manifests x expected_peer prior [] s = Inr s"
| "history_manifests x expected_peer prior (m # ms) s =
     bindr (history_step x expected_peer prior m s) (history_manifests x expected_peer prior ms)"

fun history_pages ::
    "'a mx_scheme \<Rightarrow> string \<Rightarrow> manifest_trust option \<Rightarrow> history_page list \<Rightarrow> history_state \<Rightarrow> chat_error + history_state" where
  "history_pages x expected_peer prior [] s = Inr s"
| "history_pages x expected_peer prior (p # ps) s =
     bindr (map_err Trust (page_validate x p)) (\<lambda>_.
     bindr (match_expected_account expected_peer (hp_account p)) (\<lambda>_.
     bindr (require (\<not> (hp_from p \<noteq> hs_expected s \<or> ps \<noteq> [] \<and> hp_next p = None))
       (Trust ''account manifest history pages are missing or reordered'')) (\<lambda>_.
     bindr (history_manifests x expected_peer prior (hp_manifests p) s) (history_pages x expected_peer prior ps))))"

definition close_gap :: "manifest_trust \<Rightarrow> manifest_trust" where
  "close_gap t = ManifestTrust ((mt_pin t)\<lparr>tp_continuity_gap := False\<rparr>) (mt_pending t)"

definition verify_manifest_history ::
    "'a mx_scheme \<Rightarrow> string \<Rightarrow> history_page list \<Rightarrow> manifest_trust option \<Rightarrow> account_manifest \<Rightarrow>
       chat_error + manifest_trust \<times> history_record list" where
  "verify_manifest_history x expected_peer pages prior pending =
     bindr (require (pages \<noteq> []) (Trust ''account manifest gap recovery returned no history'')) (\<lambda>_.
     bindr (history_pages x expected_peer prior pages (history_start prior)) (\<lambda>s.
     bindr (ok_or (if hs_records s = [] then None else Some (last (hs_records s)))
       (Trust ''account manifest gap recovery returned no manifests'')) (\<lambda>final.
     bindr (require (\<not> (hr_manifest final \<noteq> pending \<or> hr_sequence final \<noteq> mn_sequence pending))
       (Trust ''account manifest history does not terminate at the pending manifest'')) (\<lambda>_.
     bindr (ok_or (hs_rolling s) (Trust ''account manifest gap recovery returned no manifests'')) (\<lambda>trust.
     Inr (close_gap trust, hs_records s))))))"

section \<open>The account's own manifest\<close>

definition verify_own_manifest :: "'a mx_scheme \<Rightarrow> account_manifest \<Rightarrow> account_ref \<Rightarrow> identity_keys \<Rightarrow> chat_error + unit" where
  "verify_own_manifest x m account k =
     bindr (map_err Trust (manifest_verify x m)) (\<lambda>_.
     bindr (verify_identity_binding x m) (\<lambda>_.
     bindr (require (mn_account m = account) (Trust ''the account manifest belongs to another account'')) (\<lambda>_.
     require (\<not> (mn_authority_key_id m \<noteq> key_id x k \<or> mn_self_authority_key m \<noteq> public_key_base64 x k))
       (Trust ''the account manifest belongs to a different authority''))))"

definition identity_from_parts :: "'a mx_scheme \<Rightarrow> string \<Rightarrow> string \<Rightarrow> chat_error + identity_key_pair" where
  "identity_from_parts x public private =
     bindr (ok_or (std_decode x public) (Protocol ''identity key is not base64'')) (\<lambda>public.
     bindr (ok_or (std_decode x private) (Protocol ''identity private key is not base64'')) (\<lambda>private.
     bindr (map_err (\<lambda>e. Protocol (''identity key: '' @ e)) (id_key_decode x public)) (\<lambda>public.
     bindr (map_err (\<lambda>e. Protocol (''identity private key: '' @ e)) (private_public x private)) (\<lambda>derived.
     bindr (require (derived = public) (Trust ''the identity private key is not the public key's'')) (\<lambda>_.
     Inr \<lparr>ik_public = public, ik_private = private\<rparr>)))))"

text \<open>
  \<open>LinkingDevice::verify\<close> once the message is opened; \<open>head\<close> is the manifest the server serves.
\<close>

definition verify_provision ::
    "'a mx_scheme \<Rightarrow> chat_provision \<Rightarrow> string \<Rightarrow> account_manifest option \<Rightarrow> identity_keys \<Rightarrow>
       chat_error + identity_key_pair \<times> string \<times> bool \<times> bool" where
  "verify_provision x message user head k =
     bindr (map_err Protocol (provision_validate x message)) (\<lambda>_.
     bindr (require (cp_version message = provisioning_version) (Protocol ''unsupported provisioning version'')) (\<lambda>_.
     bindr (parse_account user) (\<lambda>account.
     bindr (require (cp_account message = account) (Trust ''the provisioning message is for another account'')) (\<lambda>_.
     bindr (identity_from_parts x (cp_identity_public message) (cp_identity_private message)) (\<lambda>identity.
     bindr (ok_or head (Trust ''the account has no manifest to link to'')) (\<lambda>head.
     bindr (verify_own_manifest x head account k) (\<lambda>_.
     bindr (require (mn_identity_key head = cp_identity_public message)
       (Trust ''the account's manifest lists another identity'')) (\<lambda>_.
     bindr (require (\<not> mn_sequence head < cp_manifest_sequence message)
       (Trust ''the account's manifest is older than the provisioning message's'')) (\<lambda>_.
     bindr (if mn_sequence head = cp_manifest_sequence message
         then bindr (map_err Trust (manifest_hash x head)) (\<lambda>hash.
           require (hash = cp_manifest_hash message) (Trust ''the provisioning message names another manifest''))
         else Inr ()) (\<lambda>_.
     Inr (identity, cp_link_token message, cp_read_receipts message, cp_typing_indicators message)))))))))))"

text \<open>\<open>apply_account_identity\<close>: is the identity another device sent the one the account's manifest lists now?\<close>

definition identity_is_current :: "'a mx_scheme \<Rightarrow> identity_body \<Rightarrow> account_manifest \<Rightarrow> u32 \<Rightarrow> chat_error + bool" where
  "identity_is_current x b head device =
     (if mn_identity_key head = ib_identity_public b \<and>
         (case manifest_device_of head device of Some d \<Rightarrow> md_registration_id d = ib_registration_id b | None \<Rightarrow> False)
      then if mn_sequence head < ib_manifest_sequence b then Inr False
        else if mn_sequence head = ib_manifest_sequence b
        then bindr (map_err Trust (manifest_hash x head)) (\<lambda>hash. Inr (hash = ib_manifest_hash b))
        else Inr True
      else Inr False)"

end
