(* ===== verification/Manifest_Bytes.thy ===== *)
theory Manifest_Bytes
  imports Manifest_Trust
begin

text \<open>
  What the bytes under a manifest's signature say.  Each field is of a fixed length or carries its own, so the bytes
  of two manifests are the same only for the same manifest, whatever follows them; two manifests of one hash are the
  same or a SHA-256 clash.
\<close>

section \<open>Reading the front of a byte string\<close>

lemma fixed_front: "a @ s = b @ t \<Longrightarrow> length a = length b \<Longrightarrow> a = b \<and> s = t"
  by simp

lemma push_manifest_string_front:
  assumes "push_manifest_string a = Inr p" "push_manifest_string b = Inr q" "p @ s = q @ t"
  shows "a = b \<and> s = t"
proof -
  from assms(1,2) have l: "length a < 2 ^ 32" "length b < 2 ^ 32" "p = be32 (length a) @ bytes_of_string a"
    "q = be32 (length b) @ bytes_of_string b" by (simp_all add: push_manifest_string_def)
  from assms(3) l(3,4) have "be32 (length a) = be32 (length b)"
    "bytes_of_string a @ s = bytes_of_string b @ t" by simp_all
  with l(1,2) show ?thesis by (simp add: be32_inj)
qed

lemma push_optional_front:
  assumes "push_optional a = Inr p" "push_optional b = Inr q" "p @ s = q @ t"
  shows "a = b \<and> s = t"
proof (cases a; cases b)
  fix u v assume a: "a = Some u" and b: "b = Some v"
  with assms(1,2) obtain p' q' where "push_manifest_string u = Inr p'" "push_manifest_string v = Inr q'" "p = 1 # p'" "q = 1 # q'"
    by (auto simp: push_optional_def)
  with push_manifest_string_front [of u p' v q' s t] assms(3) a b show ?thesis by simp
qed (use assms in \<open>auto simp: push_optional_def\<close>)

lemma decode_lower_hex_32_Inr:
  "decode_lower_hex_32 x n s = Inr p \<longleftrightarrow> hex_decode x s = Some p \<and> length p = 32 \<and> hex_encode x p = s"
  unfolding decode_lower_hex_32_def Let_def bindr_Inr_iff ok_or_Inr_iff require_Inr_iff sum.inject de_Morgan_disj not_not
  by fast

lemma decode_canonical_base64_exact_Inr:
  "decode_canonical_base64_exact x n s k = Inr p \<longleftrightarrow> std_decode x s = Some p \<and> length p = k \<and> std_encode x p = s"
  by (auto simp only: decode_canonical_base64_exact_def bindr_Inr_iff ok_or_Inr_iff require_Inr_iff Inr_inject)

lemma decode_identity_key_Inr:
  "decode_identity_key x n s = Inr p \<longleftrightarrow>
     std_decode x s = Some p \<and> length p = 33 \<and> std_encode x p = s \<and> hd p = djb_key_type"
  by (auto simp only: decode_identity_key_def bindr_Inr_iff require_Inr_iff Inr_inject decode_canonical_base64_exact_Inr
    identity_public_key_len_def)

lemma hex_32_front:
  assumes "decode_lower_hex_32 x n a = Inr p" "decode_lower_hex_32 x n' b = Inr q" "p @ s = q @ t"
  shows "a = b \<and> s = t"
proof -
  from assms(1,2) have e: "length p = length q" "a = hex_encode x p" "b = hex_encode x q"
    by (simp_all add: decode_lower_hex_32_Inr)
  from fixed_front [OF assms(3) e(1)] show ?thesis by (simp add: e(2,3))
qed

lemma base64_front:
  assumes "decode_canonical_base64_exact x n a k = Inr p" "decode_canonical_base64_exact x n' b k = Inr q" "p @ s = q @ t"
  shows "a = b \<and> s = t"
proof -
  from assms(1,2) have e: "length p = length q" "a = std_encode x p" "b = std_encode x q"
    by (simp_all add: decode_canonical_base64_exact_Inr)
  from fixed_front [OF assms(3) e(1)] show ?thesis by (simp add: e(2,3))
qed

lemma identity_key_front:
  assumes "decode_identity_key x n a = Inr p" "decode_identity_key x n' b = Inr q" "p @ s = q @ t"
  shows "a = b \<and> s = t"
proof -
  from assms(1,2) have e: "length p = length q" "a = std_encode x p" "b = std_encode x q"
    by (simp_all add: decode_identity_key_Inr)
  from fixed_front [OF assms(3) e(1)] show ?thesis by (simp add: e(2,3))
qed

lemma be16_front:
  assumes "be16 m @ s = be16 n @ t" "m < 65536" "n < 65536" shows "m = n \<and> s = t"
  using assms by (simp add: be16_inj)

lemma be32_front:
  assumes "be32 m @ s = be32 n @ t" "m < 2 ^ 32" "n < 2 ^ 32" shows "m = n \<and> s = t"
  using assms by (simp add: be32_inj)

lemma u16_front: "be16 (unat (v :: u16)) @ s = be16 (unat w) @ t \<Longrightarrow> v = w \<and> s = t"
proof -
  assume h: "be16 (unat v) @ s = be16 (unat w) @ t"
  have "unat v < 65536" "unat w < 65536" using unsigned_less [of v] unsigned_less [of w] by simp_all
  from be16_front [OF h this] show ?thesis by (blast intro: word_unat_eq_iff [THEN iffD2])
qed

lemma u32_front: "be32 (unat (v :: u32)) @ s = be32 (unat w) @ t \<Longrightarrow> v = w \<and> s = t"
proof -
  assume h: "be32 (unat v) @ s = be32 (unat w) @ t"
  have "unat v < 2 ^ 32" "unat w < 2 ^ 32" using unsigned_less [of v] unsigned_less [of w] by simp_all
  from be32_front [OF h this] show ?thesis by (blast intro: word_unat_eq_iff [THEN iffD2])
qed

section \<open>Accounts\<close>

text \<open>
  The hexadecimal decoder as documented, on lower case: an even number of digits decodes, to half as many bytes,
  which encode to the digits again.
\<close>

definition lower_hex_law :: "'a ext_scheme \<Rightarrow> bool" where
  "lower_hex_law x \<longleftrightarrow> (\<forall>s. list_all is_lower_hex s \<and> even (length s) \<longrightarrow>
     (\<exists>b. hex_decode x s = Some b \<and> length b * 2 = length s \<and> hex_encode x b = s))"

definition account_valid :: "account_ref \<Rightarrow> bool" where
  "account_valid r \<longleftrightarrow> valid_server (server_of_ref r) \<and> valid_account_id (account_id r)"

lemma parsed_account_valid: "account_ref_from_str s = Inr r \<Longrightarrow> account_valid r"
  by (auto simp: account_ref_from_str_def account_ref_new_def account_valid_def split: prod.splits)

lemma lower_hex_not_hyphen: "is_lower_hex c \<Longrightarrow> c \<noteq> CHR ''-''"
  by (auto simp: is_lower_hex_def is_digit_def less_eq_char_def)

lemma remove_char_lower_hex: "list_all is_lower_hex s \<Longrightarrow> remove_char (CHR ''-'') s = s"
  by (auto simp: remove_char_def list_all_iff filter_id_conv dest: lower_hex_not_hyphen)

lemma list_at: "n < length s \<Longrightarrow> drop n s = s ! n # drop (Suc n) s"
  by (simp add: Cons_nth_drop_Suc)

lemma uuid_nth:
  assumes "valid_account_id s" "i < 36"
  shows "if i = 8 \<or> i = 13 \<or> i = 18 \<or> i = 23 then s ! i = CHR ''-'' else is_lower_hex (s ! i)"
  using assms by (auto simp: valid_account_id_def uuid_layout_def list_all_length nth_enumerate_eq)

definition uuid_digits :: "string \<Rightarrow> string" where
  "uuid_digits s = take 8 s @ take 4 (drop 9 s) @ take 4 (drop 14 s) @ take 4 (drop 19 s) @ drop 24 s"

definition with_hyphens :: "string \<Rightarrow> string" where
  "with_hyphens s = take 8 s @ CHR ''-'' # take 4 (drop 8 s) @ CHR ''-'' # take 4 (drop 12 s) @ CHR ''-'' # take 4 (drop 16 s) @
     CHR ''-'' # drop 20 s"

lemma uuid_split:
  assumes "valid_account_id s"
  shows "s = take 8 s @ CHR ''-'' # take 4 (drop 9 s) @ CHR ''-'' # take 4 (drop 14 s) @ CHR ''-'' # take 4 (drop 19 s) @
    CHR ''-'' # drop 24 s"
proof -
  from assms have l: "length s = 36" by (simp add: valid_account_id_def)
  have h: "s ! 8 = CHR ''-''" "s ! 13 = CHR ''-''" "s ! 18 = CHR ''-''" "s ! 23 = CHR ''-''"
    using uuid_nth [OF assms, of 8] uuid_nth [OF assms, of 13] uuid_nth [OF assms, of 18] uuid_nth [OF assms, of 23] by simp_all
  have step: "drop n s = take k (drop n s) @ s ! (n + k) # drop (n + k + 1) s" if "n + k < 36" for n k
  proof -
    have "drop n s = take k (drop n s) @ drop k (drop n s)" by (rule append_take_drop_id [symmetric])
    also have "drop k (drop n s) = s ! (n + k) # drop (n + k + 1) s"
      using list_at [of "n + k" s] that l by (simp add: add.commute)
    finally show ?thesis .
  qed
  show ?thesis using step [of 0 8] step [of 9 4] step [of 14 4] step [of 19 4] h by simp
qed

lemma uuid_digits_lower_hex:
  assumes "valid_account_id s"
  shows "list_all is_lower_hex (uuid_digits s)" "length (uuid_digits s) = 32"
proof -
  from assms have l: "length s = 36" by (simp add: valid_account_id_def)
  then show "length (uuid_digits s) = 32" by (simp add: uuid_digits_def)
  have part: "list_all is_lower_hex (take k (drop n s))"
    if "n + k \<le> 36" "\<forall>i. n \<le> i \<and> i < n + k \<longrightarrow> i \<notin> {8, 13, 18, 23}" for n k
  proof (unfold list_all_length, intro allI impI)
    fix i assume i: "i < length (take k (drop n s))"
    with l that(1) have "take k (drop n s) ! i = s ! (n + i)" "n + i < 36" "n \<le> n + i" "n + i < n + k" by auto
    with uuid_nth [OF assms this(2)] that(2) show "is_lower_hex (take k (drop n s) ! i)" by auto
  qed
  have "drop 24 s = take 12 (drop 24 s)" using l by simp
  then show "list_all is_lower_hex (uuid_digits s)"
    using part [of 0 8] part [of 9 4] part [of 14 4] part [of 19 4] part [of 24 12]
    by (simp add: uuid_digits_def)
qed

lemma uuid_remove_hyphens:
  assumes "valid_account_id s" shows "remove_char (CHR ''-'') s = uuid_digits s"
proof -
  have app: "remove_char c (a @ b) = remove_char c a @ remove_char c b" for c a b by (simp add: remove_char_def)
  have hy: "remove_char (CHR ''-'') (CHR ''-'' # a) = remove_char (CHR ''-'') a" for a by (simp add: remove_char_def)
  have "list_all is_lower_hex (take 8 s)" "list_all is_lower_hex (take 4 (drop 9 s))" "list_all is_lower_hex (take 4 (drop 14 s))"
    "list_all is_lower_hex (take 4 (drop 19 s))" "list_all is_lower_hex (drop 24 s)"
    using uuid_digits_lower_hex(1) [OF assms] by (simp_all add: uuid_digits_def)
  then show ?thesis
    by (subst uuid_split [OF assms]) (simp only: app hy remove_char_lower_hex uuid_digits_def)
qed

lemma uuid_from_digits:
  assumes "valid_account_id s" shows "s = with_hyphens (uuid_digits s)"
proof -
  from assms have l: "length s = 36" by (simp add: valid_account_id_def)
  have "with_hyphens (uuid_digits s) = take 8 s @ CHR ''-'' # take 4 (drop 9 s) @ CHR ''-'' # take 4 (drop 14 s) @ CHR ''-'' #
    take 4 (drop 19 s) @ CHR ''-'' # drop 24 s"
    using l by (simp add: with_hyphens_def uuid_digits_def)
  with uuid_split [OF assms] show ?thesis by simp
qed

lemma account_bytes_front:
  assumes "lower_hex_law x" "account_valid a" "account_valid b" "account_bytes x a @ s = account_bytes x b @ t"
  shows "a = b \<and> s = t"
proof -
  have id: "\<exists>d. account_bytes x r = be16 (length (server_of_ref r)) @ bytes_of_string (server_of_ref r) @ d \<and> length d = 16 \<and>
      account_id r = with_hyphens (hex_encode x d)" "length (server_of_ref r) < 65536" if "account_valid r" for r
  proof -
    from that have v: "valid_account_id (account_id r)" "length (server_of_ref r) \<le> 253"
      by (simp_all add: account_valid_def valid_server_def)
    note dg = uuid_digits_lower_hex [OF v(1)]
    with assms(1) obtain d where d: "hex_decode x (uuid_digits (account_id r)) = Some d" "length d * 2 = 32"
      "hex_encode x d = uuid_digits (account_id r)" unfolding lower_hex_law_def by force
    with uuid_from_digits [OF v(1)] uuid_remove_hyphens [OF v(1)] v(2)
    show "\<exists>d. account_bytes x r = be16 (length (server_of_ref r)) @ bytes_of_string (server_of_ref r) @ d \<and> length d = 16 \<and>
        account_id r = with_hyphens (hex_encode x d)"
      by (intro exI [of _ d]) (simp add: account_bytes_def account_ref_bytes_def)
    show "length (server_of_ref r) < 65536" using v(2) by simp
  qed
  from id(1) [OF assms(2)] obtain d where d: "account_bytes x a = be16 (length (server_of_ref a)) @ bytes_of_string (server_of_ref a) @ d"
    "length d = 16" "account_id a = with_hyphens (hex_encode x d)" by blast
  from id(1) [OF assms(3)] obtain e where e: "account_bytes x b = be16 (length (server_of_ref b)) @ bytes_of_string (server_of_ref b) @ e"
    "length e = 16" "account_id b = with_hyphens (hex_encode x e)" by blast
  from assms(4) d(1) e(1) have q: "be16 (length (server_of_ref a)) @ bytes_of_string (server_of_ref a) @ d @ s =
    be16 (length (server_of_ref b)) @ bytes_of_string (server_of_ref b) @ e @ t" by simp
  from be16_front [OF q id(2) [OF assms(2)] id(2) [OF assms(3)]] have
    "server_of_ref a = server_of_ref b \<and> d @ s = e @ t"
    using fixed_front [of "bytes_of_string (server_of_ref a)" "d @ s" "bytes_of_string (server_of_ref b)" "e @ t"] by auto
  with d(2,3) e(2,3) show ?thesis by (auto intro: account_ref.expand)
qed

section \<open>Devices\<close>

lemma device_mls_bytes_front:
  assumes "device_mls_bytes x a = Inr p" "device_mls_bytes x b = Inr q" "p @ s = q @ t"
  shows "a = b \<and> s = t"
proof (cases a; cases b)
  fix u v assume a: "a = Some u" and b: "b = Some v"
  from assms(1) a obtain c d where u: "push_manifest_string (lm_credential u) = Inr c" "push_manifest_string (lm_delivery u) = Inr d"
    "p = 1 # be16 (unat (lm_suite u)) @ c @ d" by (auto simp: device_mls_bytes_def)
  from assms(2) b obtain c' d' where v: "push_manifest_string (lm_credential v) = Inr c'" "push_manifest_string (lm_delivery v) = Inr d'"
    "q = 1 # be16 (unat (lm_suite v)) @ c' @ d'" by (auto simp: device_mls_bytes_def)
  from assms(3) u(3) v(3) have "be16 (unat (lm_suite u)) @ c @ d @ s = be16 (unat (lm_suite v)) @ c' @ d' @ t" by simp
  from u16_front [OF this] have e: "lm_suite u = lm_suite v" "c @ d @ s = c' @ d' @ t" by simp_all
  from push_manifest_string_front [OF u(1) v(1) e(2)] have f: "lm_credential u = lm_credential v" "d @ s = d' @ t" by simp_all
  from push_manifest_string_front [OF u(2) v(2) f(2)] e(1) f(1) a b show ?thesis by simp
qed (use assms in \<open>auto simp: device_mls_bytes_def\<close>)

lemma device_bytes_Cons:
  assumes "device_bytes x prior (d # ds) = Inr p"
  shows "\<exists>mls rest. device_mls_bytes x (md_mls d) = Inr mls \<and> device_bytes x (Some (md_device_id d)) ds = Inr rest \<and>
    p = be32 (unat (md_device_id d)) @ be32 (unat (md_registration_id d)) @ be16 (chat_suite_number (md_suite d)) @ mls @ rest"
  using assms by auto

lemma device_bytes_front:
  assumes "device_bytes x prior ds = Inr p" "device_bytes x prior' es = Inr q" "length ds = length es" "p @ s = q @ t"
  shows "ds = es \<and> s = t"
  using assms(3,1,2,4)
proof (induction ds es arbitrary: prior prior' p q rule: list_induct2)
  case (Cons d ds e es)
  from device_bytes_Cons [OF Cons.prems(1)] obtain mls rest where d: "device_mls_bytes x (md_mls d) = Inr mls"
    "device_bytes x (Some (md_device_id d)) ds = Inr rest"
    "p = be32 (unat (md_device_id d)) @ be32 (unat (md_registration_id d)) @ be16 (chat_suite_number (md_suite d)) @ mls @ rest"
    by blast
  from device_bytes_Cons [OF Cons.prems(2)] obtain mls' rest' where e: "device_mls_bytes x (md_mls e) = Inr mls'"
    "device_bytes x (Some (md_device_id e)) es = Inr rest'"
    "q = be32 (unat (md_device_id e)) @ be32 (unat (md_registration_id e)) @ be16 (chat_suite_number (md_suite e)) @ mls' @ rest'"
    by blast
  have suite: "md_suite d = md_suite e" by (cases "md_suite d"; cases "md_suite e") simp
  from Cons.prems(3) d(3) e(3) have "be32 (unat (md_device_id d)) @ be32 (unat (md_registration_id d)) @
      be16 (chat_suite_number (md_suite d)) @ mls @ rest @ s = be32 (unat (md_device_id e)) @
      be32 (unat (md_registration_id e)) @ be16 (chat_suite_number (md_suite e)) @ mls' @ rest' @ t" by simp
  from u32_front [OF this] have i: "md_device_id d = md_device_id e"
    "be32 (unat (md_registration_id d)) @ be16 (chat_suite_number (md_suite d)) @ mls @ rest @ s =
      be32 (unat (md_registration_id e)) @ be16 (chat_suite_number (md_suite e)) @ mls' @ rest' @ t" by simp_all
  from u32_front [OF i(2)] suite have r: "md_registration_id d = md_registration_id e" "mls @ rest @ s = mls' @ rest' @ t"
    by simp_all
  from device_mls_bytes_front [OF d(1) e(1) r(2)] have m: "md_mls d = md_mls e" "rest @ s = rest' @ t" by simp_all
  from Cons.IH [OF d(2) e(2) m(2)] i(1) r(1) m(1) suite show ?case by (simp add: manifest_device.equality)
qed simp

lemma device_bytes_sorted:
  "device_bytes x prior ds = Inr p \<Longrightarrow> sorted_by md_device_id ds \<and> (\<forall>i. prior = Some i \<longrightarrow> (\<forall>d\<in>set ds. i < md_device_id d))"
proof (induction ds arbitrary: prior p)
  case (Cons d ds)
  from Cons.prems have o: "\<forall>i. prior = Some i \<longrightarrow> i < md_device_id d" by (auto split: option.splits)
  from device_bytes_Cons [OF Cons.prems] obtain rest where "device_bytes x (Some (md_device_id d)) ds = Inr rest" by blast
  from Cons.IH [OF this] o show ?case by (auto dest: less_trans)
qed simp

section \<open>The manifest\<close>

lemma manifest_signing_bytes_parts:
  assumes "manifest_signing_bytes x m = Inr b"
  shows "\<exists>incarnation previous issued authority self identity binding hpke sharing devices.
    decode_lower_hex_32 x ''incarnationId'' (mn_incarnation_id m) = Inr incarnation \<and>
    push_optional (mn_previous_hash m) = Inr previous \<and> push_manifest_string (mn_issued_at m) = Inr issued \<and>
    decode_lower_hex_32 x ''authorityKeyId'' (mn_authority_key_id m) = Inr authority \<and>
    decode_canonical_base64_exact x ''selfAuthorityKey'' (mn_self_authority_key m) 32 = Inr self \<and>
    decode_identity_key x ''identityKey'' (mn_identity_key m) = Inr identity \<and>
    decode_canonical_base64_exact x ''identityBinding'' (mn_identity_binding m) identity_binding_len = Inr binding \<and>
    decode_canonical_base64_exact x ''drive.hpkePublicKey'' (dk_hpke (mn_drive m)) (hpke_public_key_len (dk_suite (mn_drive m))) = Inr hpke \<and>
    decode_canonical_base64_exact x ''drive.shareSigningPublicKey'' (dk_signing (mn_drive m)) 32 = Inr sharing \<and>
    length (mn_devices m) < 2 ^ 32 \<and> device_bytes x None (mn_devices m) = Inr devices \<and>
    b = manifest_domain @ be16 (unat (mn_version m)) @ account_bytes x (mn_account m) @ incarnation @
       be64 (mn_sequence m) @ previous @ issued @ authority @ self @ identity @ binding @
       be16 (identity_suite_number (dk_suite (mn_drive m))) @ hpke @ sharing @ be32 (length (mn_devices m)) @ devices"
  using assms unfolding manifest_signing_bytes_def bindr_Inr_iff require_Inr_iff sum.inject by metis

lemma identity_suite_number_inj: "identity_suite_number a = identity_suite_number b \<Longrightarrow> a = b"
  by (cases a; cases b) simp_all

lemma identity_suite_number_less: "identity_suite_number a < 65536"
  by (cases a) simp_all

text \<open>Everything of a manifest but its signature.\<close>

definition without_signature :: "account_manifest \<Rightarrow> account_manifest" where
  "without_signature m = m\<lparr>mn_signature := []\<rparr>"

lemma manifest_signing_bytes_front:
  assumes "lower_hex_law x" "account_valid (mn_account m)" "account_valid (mn_account n)"
    "manifest_signing_bytes x m = Inr b" "manifest_signing_bytes x n = Inr c" "b @ s = c @ t"
  shows "without_signature m = without_signature n \<and> s = t"
proof -
  from manifest_signing_bytes_parts [OF assms(4)] obtain i p u a k d g h r v where
    m: "decode_lower_hex_32 x ''incarnationId'' (mn_incarnation_id m) = Inr i" "push_optional (mn_previous_hash m) = Inr p"
      "push_manifest_string (mn_issued_at m) = Inr u" "decode_lower_hex_32 x ''authorityKeyId'' (mn_authority_key_id m) = Inr a"
      "decode_canonical_base64_exact x ''selfAuthorityKey'' (mn_self_authority_key m) 32 = Inr k"
      "decode_identity_key x ''identityKey'' (mn_identity_key m) = Inr d"
      "decode_canonical_base64_exact x ''identityBinding'' (mn_identity_binding m) identity_binding_len = Inr g"
      "decode_canonical_base64_exact x ''drive.hpkePublicKey'' (dk_hpke (mn_drive m)) (hpke_public_key_len (dk_suite (mn_drive m))) = Inr h"
      "decode_canonical_base64_exact x ''drive.shareSigningPublicKey'' (dk_signing (mn_drive m)) 32 = Inr r"
      "length (mn_devices m) < 2 ^ 32" "device_bytes x None (mn_devices m) = Inr v"
      "b = manifest_domain @ be16 (unat (mn_version m)) @ account_bytes x (mn_account m) @ i @ be64 (mn_sequence m) @ p @ u @ a @
         k @ d @ g @ be16 (identity_suite_number (dk_suite (mn_drive m))) @ h @ r @ be32 (length (mn_devices m)) @ v" by blast
  from manifest_signing_bytes_parts [OF assms(5)] obtain i' p' u' a' k' d' g' h' r' v' where
    n: "decode_lower_hex_32 x ''incarnationId'' (mn_incarnation_id n) = Inr i'" "push_optional (mn_previous_hash n) = Inr p'"
      "push_manifest_string (mn_issued_at n) = Inr u'" "decode_lower_hex_32 x ''authorityKeyId'' (mn_authority_key_id n) = Inr a'"
      "decode_canonical_base64_exact x ''selfAuthorityKey'' (mn_self_authority_key n) 32 = Inr k'"
      "decode_identity_key x ''identityKey'' (mn_identity_key n) = Inr d'"
      "decode_canonical_base64_exact x ''identityBinding'' (mn_identity_binding n) identity_binding_len = Inr g'"
      "decode_canonical_base64_exact x ''drive.hpkePublicKey'' (dk_hpke (mn_drive n)) (hpke_public_key_len (dk_suite (mn_drive n))) = Inr h'"
      "decode_canonical_base64_exact x ''drive.shareSigningPublicKey'' (dk_signing (mn_drive n)) 32 = Inr r'"
      "length (mn_devices n) < 2 ^ 32" "device_bytes x None (mn_devices n) = Inr v'"
      "c = manifest_domain @ be16 (unat (mn_version n)) @ account_bytes x (mn_account n) @ i' @ be64 (mn_sequence n) @ p' @ u' @ a' @
         k' @ d' @ g' @ be16 (identity_suite_number (dk_suite (mn_drive n))) @ h' @ r' @ be32 (length (mn_devices n)) @ v'" by blast
  from assms(6) m(12) n(12) have "be16 (unat (mn_version m)) @ account_bytes x (mn_account m) @ i @ be64 (mn_sequence m) @ p @ u @ a @
      k @ d @ g @ be16 (identity_suite_number (dk_suite (mn_drive m))) @ h @ r @ be32 (length (mn_devices m)) @ v @ s =
    be16 (unat (mn_version n)) @ account_bytes x (mn_account n) @ i' @ be64 (mn_sequence n) @ p' @ u' @ a' @
      k' @ d' @ g' @ be16 (identity_suite_number (dk_suite (mn_drive n))) @ h' @ r' @ be32 (length (mn_devices n)) @ v' @ t" by simp
  note f1 = u16_front [OF this]
  note f2 = account_bytes_front [OF assms(1-3) f1 [THEN conjunct2]]
  note f3 = hex_32_front [OF m(1) n(1) f2 [THEN conjunct2]]
  note f4 = fixed_front [OF f3 [THEN conjunct2], simplified]
  note f5 = push_optional_front [OF m(2) n(2) f4 [THEN conjunct2]]
  note f6 = push_manifest_string_front [OF m(3) n(3) f5 [THEN conjunct2]]
  note f7 = hex_32_front [OF m(4) n(4) f6 [THEN conjunct2]]
  note f8 = base64_front [OF m(5) n(5) f7 [THEN conjunct2]]
  note f9 = identity_key_front [OF m(6) n(6) f8 [THEN conjunct2]]
  note f10 = base64_front [OF m(7) n(7) f9 [THEN conjunct2]]
  note f11 = be16_front [OF f10 [THEN conjunct2] identity_suite_number_less identity_suite_number_less]
  have suite: "dk_suite (mn_drive m) = dk_suite (mn_drive n)" using f11 identity_suite_number_inj by blast
  note f12 = base64_front [OF m(8) n(8) [folded suite] f11 [THEN conjunct2]]
  note f13 = base64_front [OF m(9) n(9) f12 [THEN conjunct2]]
  note f14 = be32_front [OF f13 [THEN conjunct2] m(10) n(10)]
  note f15 = device_bytes_front [OF m(11) n(11) f14 [THEN conjunct1] f14 [THEN conjunct2]]
  have "mn_drive m = mn_drive n" using suite f12 [THEN conjunct1] f13 [THEN conjunct1] by (simp add: drive_keys.equality)
  then have "without_signature m = without_signature n"
    by (intro account_manifest.equality) (simp_all add: without_signature_def f1 [THEN conjunct1] f2 [THEN conjunct1]
      f3 [THEN conjunct1] f4 [THEN conjunct1] f5 [THEN conjunct1] f6 [THEN conjunct1] f7 [THEN conjunct1]
      f8 [THEN conjunct1] f9 [THEN conjunct1] f10 [THEN conjunct1] f15 [THEN conjunct1])
  then show ?thesis using f15 [THEN conjunct2] by (rule conjI)
qed

lemma without_signature_equal: "without_signature m = without_signature n \<Longrightarrow> mn_signature m = mn_signature n \<Longrightarrow> m = n"
  by (cases m; cases n) (simp add: without_signature_def)

lemma manifest_hash_names_one:
  assumes "lower_hex_law x" "hex_law x" "account_valid (mn_account m)" "account_valid (mn_account n)"
    "manifest_hash x m = Inr h" "manifest_hash x n = Inr h"
  shows "m = n \<or> (\<exists>b c. manifest_signing_bytes x m = Inr b \<and> manifest_signing_bytes x n = Inr c \<and>
    sha_clash x (b @ bytes_of_string (mn_signature m)) (c @ bytes_of_string (mn_signature n)))"
proof -
  from assms(5) obtain b where b: "manifest_signing_bytes x m = Inr b" "hex_encode x (sha256 x (b @ bytes_of_string (mn_signature m))) = h"
    by (auto simp: manifest_hash_def)
  from assms(6) obtain c where c: "manifest_signing_bytes x n = Inr c" "hex_encode x (sha256 x (c @ bytes_of_string (mn_signature n))) = h"
    by (auto simp: manifest_hash_def)
  from trans [OF b(2) c(2) [symmetric]]
  have sha: "sha256 x (b @ bytes_of_string (mn_signature m)) = sha256 x (c @ bytes_of_string (mn_signature n))"
    by (simp only: hex_encode_inj [OF assms(2)])
  show ?thesis
  proof (cases "b @ bytes_of_string (mn_signature m) = c @ bytes_of_string (mn_signature n)")
    case True
    from manifest_signing_bytes_front [OF assms(1,3,4) b(1) c(1) True] show ?thesis by (simp add: without_signature_equal)
  next
    case False
    with sha b(1) c(1) show ?thesis by (auto simp: sha_clash_def)
  qed
qed

end
