(* ===== verification/Manifest_Facts.thy ===== *)
theory Manifest_Facts
  imports Manifest_Bytes Ratchet
begin

text \<open>
  What a client's pin promises: a pin only moves forward along the signed chain; a recovered history is the chain from
  the pin to the pending manifest, and the only one; what an account signs one after the other is trusted; a
  distribution that validates names the devices of its manifest, no more and no fewer.
\<close>

section \<open>A verified manifest\<close>

lemma manifest_verify_parts:
  assumes "manifest_verify x m = Inr ()"
  shows "mn_sequence m \<noteq> 0" "mn_sequence m = 1 \<longleftrightarrow> mn_previous_hash m = None" "mn_devices m \<noteq> []"
    "length (mn_devices m) \<le> 10"
    "\<exists>public signature bs. std_decode x (mn_self_authority_key m) = Some public \<and> length public = 32 \<and>
       mn_authority_key_id m = authority_key_id_of x public \<and> mn_incarnation_id m = incarnation_of x public \<and>
       std_decode x (mn_signature m) = Some signature \<and> manifest_signing_bytes x m = Inr bs \<and> ed25519_ok x public bs signature"
  using assms
  by (auto simp: manifest_verify_def decode_canonical_base64_exact_Inr max_account_manifest_devices_def split: option.splits)

lemma verified_devices_sorted: "manifest_verify x m = Inr () \<Longrightarrow> sorted_by md_device_id (mn_devices m)"
proof -
  assume "manifest_verify x m = Inr ()"
  from manifest_verify_parts(5) [OF this] obtain bs where "manifest_signing_bytes x m = Inr bs" by blast
  from manifest_signing_bytes_parts [OF this] show ?thesis by (auto dest: device_bytes_sorted)
qed

lemma manifest_device_of_iff:
  assumes "sorted_by md_device_id (mn_devices m)"
  shows "manifest_device_of m i = Some d \<longleftrightarrow> d \<in> set (mn_devices m) \<and> md_device_id d = i"
proof (cases "bsearch md_device_id i (mn_devices m)")
  case (Inl j)
  then have "i \<notin> md_device_id ` set (mn_devices m)" using bsearch_Inr_iff_in [OF assms, of i] by auto
  with Inl show ?thesis by (auto simp: manifest_device_of_def)
next
  case (Inr j)
  from bsearch_Inr [OF this] have j: "j < length (mn_devices m)" "md_device_id (mn_devices m ! j) = i" by simp_all
  with Inr show ?thesis using sorted_by_inj [OF assms, of d "mn_devices m ! j"]
    by (auto simp: manifest_device_of_def)
qed

lemma match_expected_account_Inr:
  "match_expected_account peer r = Inr () \<longleftrightarrow> account_ref_from_str peer = Inr r"
  by (auto simp: match_expected_account_def parse_account_def)

section \<open>One step of a pin\<close>

lemma decide_known_Inr:
  assumes "decide_known x peer m hash p = Inr d"
  shows "tp_trust p \<noteq> Quarantined" "tp_peer p = peer" "tp_authority_key_id p = mn_authority_key_id m"
    "tp_self_authority_key p = mn_self_authority_key m" "tp_incarnation_id p = mn_incarnation_id m"
    "tp_account p = account_ref_to_string (mn_account m)" "tp_drive_signing p = dk_signing (mn_drive m)"
    "tp_highest_sequence p \<le> mn_sequence m"
    "tp_drive_hpke p = dk_hpke (mn_drive m) \<or> drive_key_rises x (tp_drive_hpke p) m"
    "d = None \<longleftrightarrow> mn_sequence m = tp_highest_sequence p"
    "d = None \<longrightarrow> hash = tp_manifest_hash p"
    "d \<noteq> None \<longrightarrow> d = Some (tp_trust p, tp_continuity_gap p \<or> mn_sequence m \<noteq> saturating_add (tp_highest_sequence p) 1)"
    "d \<noteq> None \<and> mn_sequence m = saturating_add (tp_highest_sequence p) 1 \<longrightarrow> mn_previous_hash m = Some (tp_manifest_hash p)"
  using assms by (auto simp: decide_known_def Let_def not_less split: if_splits)

lemma saturating_next: "(a :: u64) < b \<Longrightarrow> b = saturating_add a 1 \<longleftrightarrow> unat b = unat a + 1"
proof -
  assume "a < b"
  then have "unat a < unat b" by (simp add: word_less_nat_alt)
  moreover have "unat b < 2 ^ 64" using unsigned_less [of b] by simp
  ultimately have s: "unat a + 1 < 2 ^ 64" by linarith
  then have e: "unat (a + 1) = unat a + 1" by (simp add: unat_word_ariths)
  show ?thesis
  proof
    assume "b = saturating_add a 1"
    with s e show "unat b = unat a + 1" by (auto simp: saturating_add_def)
  next
    assume "unat b = unat a + 1"
    with e have "b = a + 1" by (intro word_unat_eq_iff [THEN iffD2]) simp
    with s show "b = saturating_add a 1" by (simp add: saturating_add_def)
  qed
qed

lemma verify_manifest_trust_parts:
  assumes "verify_manifest_trust x peer m prior = Inr t"
  shows "manifest_verify x m = Inr ()" "verify_identity_binding x m = Inr ()" "account_ref_from_str peer = Inr (mn_account m)"
    "\<exists>hash. manifest_hash x m = Inr hash \<and>
       (prior = None \<longrightarrow> t = pin_of peer m hash None Tofu (mn_sequence m \<noteq> 1)) \<and>
       (\<forall>p. prior = Some p \<longrightarrow> (\<exists>d. decide_known x peer m hash (mt_pin p) = Inr d \<and>
          (d = None \<longrightarrow> t = p) \<and> (\<forall>trust gap. d = Some (trust, gap) \<longrightarrow> t = pin_of peer m hash prior trust gap)))"
proof -
  from assms obtain hash where a: "manifest_verify x m = Inr ()" "verify_identity_binding x m = Inr ()"
    "match_expected_account peer (mn_account m) = Inr ()" "manifest_hash x m = Inr hash"
    "(case prior of None \<Rightarrow> (case decide_fresh m of (trust, gap) \<Rightarrow> Inr (pin_of peer m hash prior trust gap))
       | Some p \<Rightarrow> bindr (decide_known x peer m hash (mt_pin p)) (\<lambda>d. case d of None \<Rightarrow> Inr p
         | Some (trust, gap) \<Rightarrow> Inr (pin_of peer m hash prior trust gap))) = (Inr t :: chat_error + manifest_trust)"
    unfolding verify_manifest_trust_def by fastforce
  show "manifest_verify x m = Inr ()" "verify_identity_binding x m = Inr ()" by (fact a(1), fact a(2))
  show "account_ref_from_str peer = Inr (mn_account m)" using a(3) by (simp add: match_expected_account_Inr)
  show "\<exists>hash. manifest_hash x m = Inr hash \<and>
       (prior = None \<longrightarrow> t = pin_of peer m hash None Tofu (mn_sequence m \<noteq> 1)) \<and>
       (\<forall>p. prior = Some p \<longrightarrow> (\<exists>d. decide_known x peer m hash (mt_pin p) = Inr d \<and>
          (d = None \<longrightarrow> t = p) \<and> (\<forall>trust gap. d = Some (trust, gap) \<longrightarrow> t = pin_of peer m hash prior trust gap)))"
  proof (cases prior)
    case None
    with a(4,5) show ?thesis by (auto simp: decide_fresh_def)
  next
    case (Some p)
    with a(5) obtain d where d: "decide_known x peer m hash (mt_pin p) = Inr d"
      "(case d of None \<Rightarrow> Inr p | Some (trust, gap) \<Rightarrow> Inr (pin_of peer m hash prior trust gap)) = (Inr t :: chat_error + manifest_trust)"
      by auto
    with Some a(4) show ?thesis by (auto split: option.splits)
  qed
qed

lemma pin_of_simps [simp]:
  "tp_peer (mt_pin (pin_of peer m h prior tr g)) = peer"
  "tp_account (mt_pin (pin_of peer m h prior tr g)) = account_ref_to_string (mn_account m)"
  "tp_incarnation_id (mt_pin (pin_of peer m h prior tr g)) = mn_incarnation_id m"
  "tp_authority_key_id (mt_pin (pin_of peer m h prior tr g)) = mn_authority_key_id m"
  "tp_self_authority_key (mt_pin (pin_of peer m h prior tr g)) = mn_self_authority_key m"
  "tp_drive_hpke (mt_pin (pin_of peer m h prior tr g)) = dk_hpke (mn_drive m)"
  "tp_drive_signing (mt_pin (pin_of peer m h prior tr g)) = dk_signing (mn_drive m)"
  "tp_highest_sequence (mt_pin (pin_of peer m h prior tr g)) = mn_sequence m"
  "tp_manifest_hash (mt_pin (pin_of peer m h prior tr g)) = h"
  "tp_identity_key (mt_pin (pin_of peer m h prior tr g)) = mn_identity_key m"
  "tp_trust (mt_pin (pin_of peer m h prior tr g)) = tr"
  "tp_continuity_gap (mt_pin (pin_of peer m h prior tr g)) = g"
  "tp_identity_verified (mt_pin (pin_of peer m h prior tr g)) \<longleftrightarrow>
     (\<exists>p. prior = Some p \<and> tp_identity_verified (mt_pin p) \<and> tp_identity_key (mt_pin p) = mn_identity_key m)"
  by (simp_all add: pin_of_def split: option.splits)

text \<open>Whose account a pin is of, and under what authority.\<close>

definition pin_identity :: "trust_pin \<Rightarrow> string \<times> string \<times> string \<times> string" where
  "pin_identity p = (tp_account p, tp_incarnation_id p, tp_authority_key_id p, tp_self_authority_key p)"

lemma pin_identity_of [simp]: "pin_identity (mt_pin (pin_of peer m h prior tr g)) = identity_of_manifest m"
  by (simp add: pin_identity_def identity_of_manifest_def)

lemma pin_after:
  assumes "verify_manifest_trust x peer m (Some p) = Inr q"
  shows "tp_trust (mt_pin p) \<noteq> Quarantined" "tp_trust (mt_pin q) = tp_trust (mt_pin p)"
    "tp_peer (mt_pin p) = peer" "tp_peer (mt_pin q) = peer"
    "pin_identity (mt_pin p) = identity_of_manifest m" "pin_identity (mt_pin q) = identity_of_manifest m"
    "tp_drive_signing (mt_pin p) = dk_signing (mn_drive m)" "tp_drive_signing (mt_pin q) = dk_signing (mn_drive m)"
    "tp_highest_sequence (mt_pin p) \<le> mn_sequence m" "tp_highest_sequence (mt_pin q) = mn_sequence m"
    "manifest_hash x m = Inr (tp_manifest_hash (mt_pin q))"
    "tp_highest_sequence (mt_pin p) = mn_sequence m \<Longrightarrow> q = p"
    "unat (mn_sequence m) = unat (tp_highest_sequence (mt_pin p)) + 1 \<Longrightarrow> mn_previous_hash m = Some (tp_manifest_hash (mt_pin p))"
    "tp_continuity_gap (mt_pin q) \<longleftrightarrow>
       tp_continuity_gap (mt_pin p) \<or> unat (tp_highest_sequence (mt_pin p)) + 1 < unat (mn_sequence m)"
    "tp_drive_hpke (mt_pin q) = tp_drive_hpke (mt_pin p) \<or> drive_key_rises x (tp_drive_hpke (mt_pin p)) m"
    "tp_identity_verified (mt_pin q) \<Longrightarrow>
       tp_identity_verified (mt_pin p) \<and> tp_identity_key (mt_pin q) = tp_identity_key (mt_pin p)"
proof -
  let ?p = "mt_pin p"
  from verify_manifest_trust_parts(4) [OF assms] obtain h d where h: "manifest_hash x m = Inr h"
    and d: "decide_known x peer m h ?p = Inr d" "d = None \<Longrightarrow> q = p" "\<And>tr g. d = Some (tr, g) \<Longrightarrow> q = pin_of peer m h (Some p) tr g"
    by blast
  note k = decide_known_Inr [OF d(1)]
  show "tp_trust ?p \<noteq> Quarantined" "tp_peer ?p = peer" "tp_drive_signing ?p = dk_signing (mn_drive m)"
    "tp_highest_sequence ?p \<le> mn_sequence m" by (rule k)+
  show id: "pin_identity ?p = identity_of_manifest m" using k(3-6) by (simp add: pin_identity_def identity_of_manifest_def)
  have le: "unat (tp_highest_sequence ?p) \<le> unat (mn_sequence m)" using k(8) by (simp add: word_le_nat_alt)
  show "tp_highest_sequence ?p = mn_sequence m \<Longrightarrow> q = p" using k(10) d(2) by simp
  have new: "q = pin_of peer m h (Some p) (tp_trust ?p) (tp_continuity_gap ?p \<or> unat (tp_highest_sequence ?p) + 1 < unat (mn_sequence m))"
    "unat (mn_sequence m) = unat (tp_highest_sequence ?p) + 1 \<longrightarrow> mn_previous_hash m = Some (tp_manifest_hash ?p)"
    if "d \<noteq> None"
  proof -
    from that k(10) have "tp_highest_sequence ?p \<noteq> mn_sequence m" by simp
    with k(8) have lt: "tp_highest_sequence ?p < mn_sequence m" by simp
    then have ltn: "unat (tp_highest_sequence ?p) < unat (mn_sequence m)" by (simp add: word_less_nat_alt)
    note s = saturating_next [OF lt]
    from k(12) that have "d = Some (tp_trust ?p, tp_continuity_gap ?p \<or> mn_sequence m \<noteq> saturating_add (tp_highest_sequence ?p) 1)"
      by simp
    moreover have "mn_sequence m \<noteq> saturating_add (tp_highest_sequence ?p) 1 \<longleftrightarrow>
        unat (tp_highest_sequence ?p) + 1 < unat (mn_sequence m)" unfolding s using ltn by linarith
    ultimately show "q = pin_of peer m h (Some p) (tp_trust ?p) (tp_continuity_gap ?p \<or> unat (tp_highest_sequence ?p) + 1 < unat (mn_sequence m))"
      using d(3) by simp
    show "unat (mn_sequence m) = unat (tp_highest_sequence ?p) + 1 \<longrightarrow> mn_previous_hash m = Some (tp_manifest_hash ?p)"
      using k(13) that s by auto
  qed
  have old: "q = p" "tp_highest_sequence ?p = mn_sequence m" "h = tp_manifest_hash ?p" if "d = None"
    using that d(2) k(10,11) by simp_all
  have all: "(tp_trust (mt_pin q) = tp_trust ?p) \<and>
      (tp_peer (mt_pin q) = peer) \<and>
      (pin_identity (mt_pin q) = identity_of_manifest m) \<and>
      (tp_drive_signing (mt_pin q) = dk_signing (mn_drive m)) \<and>
      (tp_highest_sequence (mt_pin q) = mn_sequence m) \<and>
      (manifest_hash x m = Inr (tp_manifest_hash (mt_pin q))) \<and>
      (tp_continuity_gap (mt_pin q) \<longleftrightarrow> tp_continuity_gap ?p \<or> unat (tp_highest_sequence ?p) + 1 < unat (mn_sequence m)) \<and>
      (tp_drive_hpke (mt_pin q) = tp_drive_hpke ?p \<or> drive_key_rises x (tp_drive_hpke ?p) m)"
  proof (cases "d = None")
    case True
    from old [OF True] k(2,7) id h show ?thesis by simp
  next
    case False
    show ?thesis unfolding new(1) [OF False] using h k(9) by auto
  qed
  show "tp_trust (mt_pin q) = tp_trust ?p" "tp_peer (mt_pin q) = peer" "pin_identity (mt_pin q) = identity_of_manifest m"
    "tp_drive_signing (mt_pin q) = dk_signing (mn_drive m)" "tp_highest_sequence (mt_pin q) = mn_sequence m"
    "manifest_hash x m = Inr (tp_manifest_hash (mt_pin q))"
    "tp_continuity_gap (mt_pin q) \<longleftrightarrow> tp_continuity_gap ?p \<or> unat (tp_highest_sequence ?p) + 1 < unat (mn_sequence m)"
    "tp_drive_hpke (mt_pin q) = tp_drive_hpke ?p \<or> drive_key_rises x (tp_drive_hpke ?p) m"
    using all by - (elim conjE, assumption)+
  show "unat (mn_sequence m) = unat (tp_highest_sequence ?p) + 1 \<Longrightarrow> mn_previous_hash m = Some (tp_manifest_hash ?p)"
    using old(2) new(2) by (cases "d = None") auto
  show "tp_identity_verified (mt_pin q) \<Longrightarrow> tp_identity_verified ?p \<and> tp_identity_key (mt_pin q) = tp_identity_key ?p"
  proof (cases "d = None")
    case False
    assume "tp_identity_verified (mt_pin q)"
    with new(1) [OF False] show ?thesis by simp
  qed (use old(1) in simp)
qed

lemma pin_first:
  assumes "verify_manifest_trust x peer m None = Inr q"
  shows "manifest_hash x m = Inr (tp_manifest_hash (mt_pin q))" "pin_identity (mt_pin q) = identity_of_manifest m"
    "tp_highest_sequence (mt_pin q) = mn_sequence m" "tp_peer (mt_pin q) = peer" "tp_trust (mt_pin q) = Tofu"
    "tp_continuity_gap (mt_pin q) \<longleftrightarrow> mn_sequence m \<noteq> 1"
  using verify_manifest_trust_parts(4) [OF assms] by auto

lemma pin_made:
  assumes "verify_manifest_trust x peer m prior = Inr q"
  shows "manifest_hash x m = Inr (tp_manifest_hash (mt_pin q))" "pin_identity (mt_pin q) = identity_of_manifest m"
    "tp_highest_sequence (mt_pin q) = mn_sequence m" "tp_peer (mt_pin q) = peer"
  using assms pin_first [of x peer m q] pin_after(11,6,10,4) [of x peer m _ q] by (cases prior; auto)+

text \<open>
  How a pin may change: it stays of one peer and one authority, its sequence never falls, and at one sequence it stays
  as it is.
\<close>

definition pin_le :: "manifest_trust \<Rightarrow> manifest_trust \<Rightarrow> bool" where
  "pin_le p q \<longleftrightarrow> tp_peer (mt_pin q) = tp_peer (mt_pin p) \<and> pin_identity (mt_pin q) = pin_identity (mt_pin p) \<and>
     tp_trust (mt_pin q) = tp_trust (mt_pin p) \<and>
     (q = p \<or> tp_highest_sequence (mt_pin p) < tp_highest_sequence (mt_pin q) \<and>
        (tp_continuity_gap (mt_pin p) \<longrightarrow> tp_continuity_gap (mt_pin q)))"

lemma pin_le_step: "verify_manifest_trust x peer m (Some p) = Inr q \<Longrightarrow> pin_le p q"
proof -
  assume h: "verify_manifest_trust x peer m (Some p) = Inr q"
  note a = pin_after [OF h]
  have "q = p \<or> tp_highest_sequence (mt_pin p) < tp_highest_sequence (mt_pin q)"
    using a(9,10,12) by (metis order_le_less)
  moreover have "tp_continuity_gap (mt_pin p) \<Longrightarrow> tp_continuity_gap (mt_pin q)" using a(14) by blast
  ultimately show ?thesis using a(2-6) by (simp add: pin_le_def)
qed

interpretation peer_pin: ratchet "\<lambda>t m. verify_manifest_trust x peer m (Some t)" pin_le "\<lambda>_. True"
  for x :: "'a mx_scheme" and peer
proof unfold_locales
  show "pin_le s u" if "pin_le s t" "pin_le t u" for s t u
    using that by (auto simp: pin_le_def dest: less_trans)
qed (auto simp: pin_le_def [of s s for s] intro: pin_le_step)

section \<open>Recovered histories\<close>

text \<open>
  What a complete history is, as a specification: from the hash it follows on, each manifest names the hash of the one
  before it.
\<close>

fun hash_chain :: "'a ext_scheme \<Rightarrow> string option \<Rightarrow> account_manifest list \<Rightarrow> bool" where
  "hash_chain x previous [] \<longleftrightarrow> True"
| "hash_chain x previous (m # ms) \<longleftrightarrow>
     mn_previous_hash m = previous \<and> (case manifest_hash x m of Inr h \<Rightarrow> hash_chain x (Some h) ms | Inl e \<Rightarrow> False)"

definition hash_after :: "'a ext_scheme \<Rightarrow> string option \<Rightarrow> account_manifest list \<Rightarrow> string option" where
  "hash_after x previous ms = (if ms = [] then previous else ok (manifest_hash x (last ms)))"

lemma hash_chain_snoc:
  "hash_chain x previous (ms @ [m]) \<longleftrightarrow>
     hash_chain x previous ms \<and> mn_previous_hash m = hash_after x previous ms \<and> (\<exists>h. manifest_hash x m = Inr h)"
  by (induction ms arbitrary: previous) (auto simp: hash_after_def split: sum.splits)

definition history_ok :: "'a mx_scheme \<Rightarrow> string \<Rightarrow> account_manifest \<Rightarrow> bool" where
  "history_ok x peer m \<longleftrightarrow> manifest_verify x m = Inr () \<and> verify_identity_binding x m = Inr () \<and>
     account_ref_from_str peer = Inr (mn_account m)"

text \<open>What holds after the manifests \<open>ms\<close>, from the start of a recovery.\<close>

definition history_inv ::
    "'a mx_scheme \<Rightarrow> string \<Rightarrow> manifest_trust option \<Rightarrow> account_manifest list \<Rightarrow> history_state \<Rightarrow> bool" where
  "history_inv x peer prior ms s \<longleftrightarrow>
     hs_records s = map (\<lambda>m. \<lparr>hr_peer = peer, hr_sequence = mn_sequence m, hr_manifest = m\<rparr>) ms \<and>
     hash_chain x (hs_predecessor (history_start prior)) ms \<and>
     hs_predecessor s = hash_after x (hs_predecessor (history_start prior)) ms \<and>
     list_all (history_ok x peer) ms \<and>
     (ms \<noteq> [] \<longrightarrow> unat (hs_expected s) = unat (hs_expected (history_start prior)) + length ms) \<and>
     (ms = [] \<longrightarrow> s = history_start prior) \<and>
     map (\<lambda>m. unat (mn_sequence m)) ms =
       [unat (hs_expected (history_start prior))..<unat (hs_expected (history_start prior)) + length ms] \<and>
     (\<forall>m\<in>set ms. hs_identity s = Some (identity_of_manifest m)) \<and>
     (hs_identity s \<noteq> hs_identity (history_start prior) \<longrightarrow> prior = None) \<and>
     (case hs_rolling s of None \<Rightarrow> ms = []
      | Some t \<Rightarrow> ms \<noteq> [] \<and> manifest_hash x (last ms) = Inr (tp_manifest_hash (mt_pin t)) \<and>
          pin_identity (mt_pin t) = identity_of_manifest (last ms) \<and> tp_highest_sequence (mt_pin t) = mn_sequence (last ms) \<and>
          tp_peer (mt_pin t) = peer)"

lemma history_inv_start: "history_inv x peer prior [] (history_start prior)"
  by (simp add: history_inv_def history_start_def hash_after_def)

lemma history_step_parts:
  assumes "history_step x peer prior m s = Inr s'"
  shows "\<exists>checked hash.
    mn_sequence m = hs_expected s \<and> mn_previous_hash m = hs_predecessor s \<and>
    verify_manifest_trust x peer m (case hs_rolling s of Some r \<Rightarrow> Some r | None \<Rightarrow> prior) = Inr checked \<and>
    (hs_identity s = None \<or> hs_identity s = Some (identity_of_manifest m)) \<and> manifest_hash x m = Inr hash \<and>
    unat (hs_expected s') = unat (hs_expected s) + 1 \<and> hs_predecessor s' = Some hash \<and>
    hs_identity s' = Some (identity_of_manifest m) \<and> hs_rolling s' = Some checked \<and>
    hs_records s' = hs_records s @ [\<lparr>hr_peer = peer, hr_sequence = mn_sequence m, hr_manifest = m\<rparr>]"
proof -
  from assms obtain checked identity hash expected where
    s: "mn_sequence m = hs_expected s" "mn_previous_hash m = hs_predecessor s"
      "verify_manifest_trust x peer m (case hs_rolling s of Some r \<Rightarrow> Some r | None \<Rightarrow> prior) = Inr checked"
      "(case hs_identity s of
         Some i \<Rightarrow> bindr (require (i = identity_of_manifest m) (Trust ''account manifest history changes identity'')) (\<lambda>_. Inr i)
       | None \<Rightarrow> Inr (identity_of_manifest m)) = Inr identity"
      "manifest_hash x m = Inr hash" "checked_add (hs_expected s) 1 = Some expected"
      "s' = \<lparr>hs_expected = expected, hs_predecessor = Some hash, hs_identity = Some identity, hs_rolling = Some checked,
         hs_records = hs_records s @ [\<lparr>hr_peer = peer, hr_sequence = mn_sequence m, hr_manifest = m\<rparr>]\<rparr>"
    unfolding history_step_def bindr_Inr_iff require_Inr_iff de_Morgan_disj not_not ok_or_Inr_iff map_err_Inr_iff sum.inject
    by blast
  from s(4) have i: "identity = identity_of_manifest m" "hs_identity s = None \<or> hs_identity s = Some (identity_of_manifest m)"
    by (auto split: option.splits)
  from checked_add_Some [OF s(6)] have "unat expected = unat (hs_expected s) + 1" by simp
  with s i show ?thesis by (intro exI [of _ checked] exI [of _ hash]) simp
qed

lemma history_inv_step:
  assumes "history_inv x peer prior ms s" "history_step x peer prior m s = Inr s'"
  shows "history_inv x peer prior (ms @ [m]) s'"
proof -
  from history_step_parts [OF assms(2)] obtain checked hash where
    s: "mn_sequence m = hs_expected s" "mn_previous_hash m = hs_predecessor s"
      "verify_manifest_trust x peer m (case hs_rolling s of Some r \<Rightarrow> Some r | None \<Rightarrow> prior) = Inr checked"
      "hs_identity s = None \<or> hs_identity s = Some (identity_of_manifest m)" "manifest_hash x m = Inr hash"
      "unat (hs_expected s') = unat (hs_expected s) + 1" "hs_predecessor s' = Some hash"
      "hs_identity s' = Some (identity_of_manifest m)" "hs_rolling s' = Some checked"
      "hs_records s' = hs_records s @ [\<lparr>hr_peer = peer, hr_sequence = mn_sequence m, hr_manifest = m\<rparr>]"
    by (elim exE conjE) (rule that; assumption)
  note pin = pin_made [OF s(3)]
  have ok: "history_ok x peer m" using verify_manifest_trust_parts(1-3) [OF s(3)] by (simp add: history_ok_def)
  note inv = assms(1) [unfolded history_inv_def]
  have e: "unat (hs_expected s) = unat (hs_expected (history_start prior)) + length ms"
    using inv by (cases "ms = []") auto
  have same: "\<forall>n\<in>set ms. identity_of_manifest n = identity_of_manifest m" using inv s(4) by auto
  have first: "hs_identity s' \<noteq> hs_identity (history_start prior) \<longrightarrow> prior = None"
    using inv s(4,8) by (auto simp: history_start_def)
  show ?thesis
    unfolding history_inv_def
  proof (intro conjI)
    show "map (\<lambda>m. unat (mn_sequence m)) (ms @ [m]) = [unat (hs_expected (history_start prior))..<
        unat (hs_expected (history_start prior)) + length (ms @ [m])]" using inv e s(1) by simp
    show "hash_chain x (hs_predecessor (history_start prior)) (ms @ [m])"
      using inv s(2,5) by (simp add: hash_chain_snoc)
    show "case hs_rolling s' of None \<Rightarrow> ms @ [m] = []
      | Some t \<Rightarrow> ms @ [m] \<noteq> [] \<and> manifest_hash x (last (ms @ [m])) = Inr (tp_manifest_hash (mt_pin t)) \<and>
          pin_identity (mt_pin t) = identity_of_manifest (last (ms @ [m])) \<and>
          tp_highest_sequence (mt_pin t) = mn_sequence (last (ms @ [m])) \<and> tp_peer (mt_pin t) = peer"
      using s(9) pin by simp
    from inv have r: "hs_records s = map (\<lambda>m. \<lparr>hr_peer = peer, hr_sequence = mn_sequence m, hr_manifest = m\<rparr>) ms"
      and l: "list_all (history_ok x peer) ms" by - (elim conjE, assumption)+
    show "hs_records s' = map (\<lambda>m. \<lparr>hr_peer = peer, hr_sequence = mn_sequence m, hr_manifest = m\<rparr>) (ms @ [m])"
      by (simp add: s(10) r)
    show "hs_predecessor s' = hash_after x (hs_predecessor (history_start prior)) (ms @ [m])"
      by (simp add: s(5,7) hash_after_def)
    show "list_all (history_ok x peer) (ms @ [m])" using l ok by simp
    show "ms @ [m] \<noteq> [] \<longrightarrow> unat (hs_expected s') = unat (hs_expected (history_start prior)) + length (ms @ [m])"
      by (simp add: s(6) e)
    show "ms @ [m] = [] \<longrightarrow> s' = history_start prior" by simp
    show "\<forall>n\<in>set (ms @ [m]). hs_identity s' = Some (identity_of_manifest n)" using same s(8) by simp
    show "hs_identity s' \<noteq> hs_identity (history_start prior) \<longrightarrow> prior = None" by (rule first)
  qed
qed

lemma history_inv_manifests:
  "history_manifests x peer prior ns s = Inr s' \<Longrightarrow> history_inv x peer prior ms s \<Longrightarrow> history_inv x peer prior (ms @ ns) s'"
proof (induction ns arbitrary: ms s)
  case (Cons n ns)
  from Cons.prems(1) obtain t where t: "history_step x peer prior n s = Inr t" "history_manifests x peer prior ns t = Inr s'"
    by auto
  from Cons.IH [OF t(2) history_inv_step [OF Cons.prems(2) t(1)]] show ?case by simp
qed simp

lemma history_manifests_append:
  "history_manifests x peer prior (as @ bs) s = bindr (history_manifests x peer prior as s) (history_manifests x peer prior bs)"
proof (induction as arbitrary: s)
  case (Cons a as)
  show ?case by (cases "history_step x peer prior a s") (simp_all add: Cons.IH)
qed simp

lemma history_pages_manifests:
  "history_pages x peer prior pages s = Inr s' \<Longrightarrow>
     history_manifests x peer prior (concat (map hp_manifests pages)) s = Inr s'"
proof (induction pages arbitrary: s)
  case (Cons p ps)
  from Cons.prems obtain t where "history_manifests x peer prior (hp_manifests p) s = Inr t"
    "history_pages x peer prior ps t = Inr s'" by auto
  with Cons.IH show ?case by (simp add: history_manifests_append)
qed simp

lemma verify_manifest_history_parts:
  assumes "verify_manifest_history x peer pages prior pending = Inr (t, rs)"
  shows "\<exists>s r. history_manifests x peer prior (concat (map hp_manifests pages)) (history_start prior) = Inr s \<and>
    history_inv x peer prior (concat (map hp_manifests pages)) s \<and> hs_rolling s = Some r \<and> t = close_gap r \<and> rs = hs_records s \<and>
    rs \<noteq> [] \<and> concat (map hp_manifests pages) \<noteq> [] \<and> last (concat (map hp_manifests pages)) = pending"
proof -
  from assms obtain s r where s: "history_pages x peer prior pages (history_start prior) = Inr s"
    "hs_records s \<noteq> []" "hr_manifest (last (hs_records s)) = pending" "hs_rolling s = Some r" "t = close_gap r" "rs = hs_records s"
    by (auto simp: verify_manifest_history_def split: if_splits)
  note m = history_pages_manifests [OF s(1)]
  have inv: "history_inv x peer prior (concat (map hp_manifests pages)) s"
    using history_inv_manifests [OF m history_inv_start] by simp
  then have "hs_records s = map (\<lambda>m. \<lparr>hr_peer = peer, hr_sequence = mn_sequence m, hr_manifest = m\<rparr>) (concat (map hp_manifests pages))"
    by (simp only: history_inv_def)
  with s(2,3) have "concat (map hp_manifests pages) \<noteq> []" "last (concat (map hp_manifests pages)) = pending"
    by (auto simp: last_map)
  with m inv s show ?thesis by blast
qed

text \<open>Two manifests whose hashes are one: bytes no one is known to find.\<close>

definition manifest_clash :: "'a ext_scheme \<Rightarrow> account_manifest \<Rightarrow> account_manifest \<Rightarrow> bool" where
  "manifest_clash x m n \<longleftrightarrow> (\<exists>b c. manifest_signing_bytes x m = Inr b \<and> manifest_signing_bytes x n = Inr c \<and>
     sha_clash x (b @ bytes_of_string (mn_signature m)) (c @ bytes_of_string (mn_signature n)))"

lemma hash_chain_unique:
  assumes "lower_hex_law x" "hex_law x"
  shows "length ms = length ns \<Longrightarrow> hash_chain x p ms \<Longrightarrow> hash_chain x p' ns \<Longrightarrow>
    ms \<noteq> [] \<longrightarrow> last ms = last ns \<Longrightarrow> list_all (\<lambda>m. account_valid (mn_account m)) (ms @ ns) \<Longrightarrow>
    ms = ns \<or> (\<exists>m\<in>set ms. \<exists>n\<in>set ns. manifest_clash x m n)"
proof (induction ms arbitrary: ns rule: rev_induct)
  case (snoc a ms)
  from snoc.prems(1) obtain b ns' where ns: "ns = ns' @ [b]" by (cases ns rule: rev_cases) auto
  with snoc.prems(4) have b: "b = a" by simp
  from snoc.prems(1) ns have l: "length ms = length ns'" by simp
  have c: "hash_chain x p ms" "hash_chain x p' ns'" "hash_after x p ms = hash_after x p' ns'"
    using snoc.prems(2,3) by (simp_all add: ns b hash_chain_snoc)
  have v: "list_all (\<lambda>m. account_valid (mn_account m)) (ms @ ns')" using snoc.prems(5) by (simp add: ns)
  show ?case
  proof (cases "ms = []")
    case True
    with l ns b show ?thesis by simp
  next
    case False
    with l have ne: "ns' \<noteq> []" by auto
    with False c(1,2) obtain h h' where h: "manifest_hash x (last ms) = Inr h" "manifest_hash x (last ns') = Inr h'"
      by (metis append_butlast_last_id hash_chain_snoc)
    with c(3) False ne have "h = h'" by (simp add: hash_after_def)
    with h have h': "manifest_hash x (last ns') = Inr h" by simp
    from v False ne have va: "account_valid (mn_account (last ms))" "account_valid (mn_account (last ns'))"
      by (simp_all add: list_all_iff)
    show ?thesis
    proof (cases "last ms = last ns'")
      case True
      from snoc.IH [OF l c(1,2) _ v] True have "ms = ns' \<or> (\<exists>m\<in>set ms. \<exists>n\<in>set ns'. manifest_clash x m n)" by simp
      then show ?thesis by (auto simp: ns b)
    next
      case False
      with manifest_hash_names_one [OF assms va h(1) h'] have "manifest_clash x (last ms) (last ns')"
        by (simp add: manifest_clash_def)
      moreover have "last ms \<in> set ms" "last ns' \<in> set ns'" using \<open>ms \<noteq> []\<close> ne by simp_all
      ultimately show ?thesis by (auto simp: ns)
    qed
  qed
qed simp

lemma history_inv_valid:
  assumes "history_inv x peer prior ms s" shows "list_all (\<lambda>m. account_valid (mn_account m)) ms"
proof -
  from assms have "list_all (history_ok x peer) ms" unfolding history_inv_def by (elim conjE)
  then show ?thesis by (auto simp: list_all_iff history_ok_def intro: parsed_account_valid)
qed

lemma history_unique:
  assumes "lower_hex_law x" "hex_law x" "verify_manifest_history x peer pages prior pending = Inr (t, rs)"
    "verify_manifest_history x peer pages' prior pending = Inr (t', rs')"
  shows "(t, rs) = (t', rs') \<or>
    (\<exists>m\<in>set (map hr_manifest rs). \<exists>n\<in>set (map hr_manifest rs'). manifest_clash x m n)"
proof -
  let ?s = "unat (hs_expected (history_start prior))"
  from verify_manifest_history_parts [OF assms(3)] obtain s r where
    a: "history_manifests x peer prior (concat (map hp_manifests pages)) (history_start prior) = Inr s"
      "history_inv x peer prior (concat (map hp_manifests pages)) s" "hs_rolling s = Some r" "t = close_gap r" "rs = hs_records s"
      "concat (map hp_manifests pages) \<noteq> []" "last (concat (map hp_manifests pages)) = pending" by blast
  from verify_manifest_history_parts [OF assms(4)] obtain s' r' where
    b: "history_manifests x peer prior (concat (map hp_manifests pages')) (history_start prior) = Inr s'"
      "history_inv x peer prior (concat (map hp_manifests pages')) s'" "hs_rolling s' = Some r'" "t' = close_gap r'" "rs' = hs_records s'"
      "concat (map hp_manifests pages') \<noteq> []" "last (concat (map hp_manifests pages')) = pending" by blast
  define ms where "ms = concat (map hp_manifests pages)"
  define ns where "ns = concat (map hp_manifests pages')"
  note a = a [folded ms_def] and b = b [folded ns_def]
  have seq: "unat (mn_sequence (last qs)) = ?s + length qs - 1" if "history_inv x peer prior qs u" "qs \<noteq> []" for qs u
  proof -
    from that(1) have "map (\<lambda>m. unat (mn_sequence m)) qs = [?s..<?s + length qs]" unfolding history_inv_def by (elim conjE)
    then have "last (map (\<lambda>m. unat (mn_sequence m)) qs) = last [?s..<?s + length qs]" by (rule arg_cong)
    with that(2) show ?thesis by (simp add: last_map)
  qed
  from seq [OF a(2,6)] seq [OF b(2,6)] a(6,7) b(6,7) have l: "length ms = length ns"
    by (metis One_nat_def Suc_pred add_left_cancel diff_Suc_1 length_greater_0_conv add_gr_0 nat.inject)
  have c: "hash_chain x (hs_predecessor (history_start prior)) ms" "hash_chain x (hs_predecessor (history_start prior)) ns"
    using a(2) b(2) unfolding history_inv_def by - (elim conjE, assumption)+
  have m: "map hr_manifest (hs_records u) = qs" if "history_inv x peer prior qs u" for qs u
  proof -
    from that have "hs_records u = map (\<lambda>m. \<lparr>hr_peer = peer, hr_sequence = mn_sequence m, hr_manifest = m\<rparr>) qs"
      unfolding history_inv_def by (elim conjE)
    then show ?thesis by (simp add: comp_def)
  qed
  have v: "list_all (\<lambda>m. account_valid (mn_account m)) (ms @ ns)"
    using history_inv_valid [OF a(2)] history_inv_valid [OF b(2)] by simp
  from hash_chain_unique [OF assms(1,2) l c _ v] a(7) b(7)
  consider "ms = ns" | "\<exists>m\<in>set ms. \<exists>n\<in>set ns. manifest_clash x m n" by auto
  then show ?thesis
  proof cases
    case 1
    with a(1) b(1) have "s = s'" by simp
    with a b show ?thesis by simp
  next
    case 2
    then show ?thesis unfolding a(5) b(5) m [OF a(2)] m [OF b(2)] by simp
  qed
qed

lemma history_start_expected:
  assumes "unat (e :: u64) = unat (hs_expected (history_start prior)) + length ms" "ms \<noteq> []"
  shows "unat (hs_expected (history_start prior)) =
    (case prior of None \<Rightarrow> 1 | Some p \<Rightarrow> unat (tp_highest_sequence (mt_pin p)) + 1)"
proof (cases prior)
  case (Some p)
  have m: "unat (- 1 :: u64) = 2 ^ 64 - 1" by (simp add: unsigned_minus_1_eq_mask mask_eq_exp_minus_1)
  have "unat e < 2 ^ 64" using unsigned_less [of e] by simp
  moreover have "length ms > 0" using assms(2) by simp
  ultimately have "unat (saturating_add (tp_highest_sequence (mt_pin p)) 1) < 2 ^ 64 - 1"
    using assms(1) Some unfolding history_start_def by (cases "length ms") simp_all
  then show ?thesis using Some m by (auto simp: history_start_def saturating_add_def unat_word_ariths split: if_splits)
qed (simp add: history_start_def)

lemma history_complete:
  assumes "verify_manifest_history x peer pages prior pending = Inr (t, rs)"
  defines "ms \<equiv> map hr_manifest rs"
  shows "ms \<noteq> []" "last ms = pending" "hash_chain x (map_option (\<lambda>p. tp_manifest_hash (mt_pin p)) prior) ms"
    "list_all (history_ok x peer) ms"
    "map (\<lambda>m. unat (mn_sequence m)) ms =
       (let start = (case prior of None \<Rightarrow> 1 | Some p \<Rightarrow> unat (tp_highest_sequence (mt_pin p)) + 1) in [start..<start + length ms])"
    "\<forall>m\<in>set ms. identity_of_manifest m = pin_identity (mt_pin t)"
    "prior = Some p \<Longrightarrow> pin_identity (mt_pin t) = pin_identity (mt_pin p)"
    "manifest_hash x pending = Inr (tp_manifest_hash (mt_pin t))" "tp_highest_sequence (mt_pin t) = mn_sequence pending"
    "\<not> tp_continuity_gap (mt_pin t)"
    "rs = map (\<lambda>m. \<lparr>hr_peer = peer, hr_sequence = mn_sequence m, hr_manifest = m\<rparr>) ms"
proof -
  from verify_manifest_history_parts [OF assms(1)] obtain s r where
    a: "history_inv x peer prior (concat (map hp_manifests pages)) s" "hs_rolling s = Some r" "t = close_gap r" "rs = hs_records s"
      "concat (map hp_manifests pages) \<noteq> []" "last (concat (map hp_manifests pages)) = pending" by blast
  note i = a(1) [unfolded history_inv_def]
  from i have r: "hs_records s = map (\<lambda>m. \<lparr>hr_peer = peer, hr_sequence = mn_sequence m, hr_manifest = m\<rparr>) (concat (map hp_manifests pages))"
    and ch: "hash_chain x (hs_predecessor (history_start prior)) (concat (map hp_manifests pages))"
    and v: "list_all (history_ok x peer) (concat (map hp_manifests pages))"
    and e: "concat (map hp_manifests pages) \<noteq> [] \<longrightarrow> unat (hs_expected s) = unat (hs_expected (history_start prior)) + length (concat (map hp_manifests pages))"
    and q: "map (\<lambda>m. unat (mn_sequence m)) (concat (map hp_manifests pages)) =
      [unat (hs_expected (history_start prior))..<unat (hs_expected (history_start prior)) + length (concat (map hp_manifests pages))]"
    and d: "\<forall>m\<in>set (concat (map hp_manifests pages)). hs_identity s = Some (identity_of_manifest m)"
    and d0: "hs_identity s \<noteq> hs_identity (history_start prior) \<longrightarrow> prior = None"
    and o: "case hs_rolling s of None \<Rightarrow> concat (map hp_manifests pages) = []
      | Some t \<Rightarrow> concat (map hp_manifests pages) \<noteq> [] \<and>
          manifest_hash x (last (concat (map hp_manifests pages))) = Inr (tp_manifest_hash (mt_pin t)) \<and>
          pin_identity (mt_pin t) = identity_of_manifest (last (concat (map hp_manifests pages))) \<and>
          tp_highest_sequence (mt_pin t) = mn_sequence (last (concat (map hp_manifests pages))) \<and> tp_peer (mt_pin t) = peer"
    by - (elim conjE, assumption)+
  have ms: "ms = concat (map hp_manifests pages)" by (simp add: ms_def a(4) r comp_def)
  note fold = ms [symmetric]
  show ne: "ms \<noteq> []" "last ms = pending" unfolding ms by (fact a(5), fact a(6))
  show "rs = map (\<lambda>m. \<lparr>hr_peer = peer, hr_sequence = mn_sequence m, hr_manifest = m\<rparr>) ms" unfolding ms a(4) by (fact r)
  show "hash_chain x (map_option (\<lambda>p. tp_manifest_hash (mt_pin p)) prior) ms"
    using ch unfolding fold by (simp add: history_start_def)
  show "list_all (history_ok x peer) ms" unfolding ms by (fact v)
  have pin: "mt_pin t = (mt_pin r)\<lparr>tp_continuity_gap := False\<rparr>" by (simp add: a(3) close_gap_def)
  have id: "pin_identity (mt_pin t) = pin_identity (mt_pin r)" by (simp add: pin pin_identity_def)
  from o a(2,6) have o': "manifest_hash x pending = Inr (tp_manifest_hash (mt_pin r))"
    "pin_identity (mt_pin r) = identity_of_manifest pending" "tp_highest_sequence (mt_pin r) = mn_sequence pending" by simp_all
  show "manifest_hash x pending = Inr (tp_manifest_hash (mt_pin t))" "tp_highest_sequence (mt_pin t) = mn_sequence pending"
    "\<not> tp_continuity_gap (mt_pin t)" using o' by (simp_all add: pin)
  have last_in: "pending \<in> set ms" using ne by (metis last_in_set)
  show all: "\<forall>m\<in>set ms. identity_of_manifest m = pin_identity (mt_pin t)"
  proof
    fix m assume "m \<in> set ms"
    with d last_in have "hs_identity s = Some (identity_of_manifest m)" "hs_identity s = Some (identity_of_manifest pending)"
      unfolding fold by blast+
    then show "identity_of_manifest m = pin_identity (mt_pin t)" by (simp add: id o')
  qed
  show "pin_identity (mt_pin t) = pin_identity (mt_pin p)" if p: "prior = Some p"
  proof -
    from d0 p have "hs_identity s = Some (pin_identity (mt_pin p))" by (simp add: history_start_def pin_identity_def)
    with d last_in show ?thesis unfolding fold by (auto simp: id o')
  qed
  from e ne have "unat (hs_expected s) = unat (hs_expected (history_start prior)) + length ms" "ms \<noteq> []" unfolding fold by simp_all
  note start = history_start_expected [OF this]
  show "map (\<lambda>m. unat (mn_sequence m)) ms =
       (let start = (case prior of None \<Rightarrow> 1 | Some p \<Rightarrow> unat (tp_highest_sequence (mt_pin p)) + 1) in [start..<start + length ms])"
    using q unfolding fold start Let_def .
qed

end
