(* ===== verification/Manifest_Own.thy ===== *)
theory Manifest_Own
  imports Manifest_Facts
begin

text \<open>
  What an account signs and what others make of it: the chain of manifests an account signs with its own keys is
  trusted by a client that follows it; the distribution of a new identity names the devices of its manifest.
\<close>

section \<open>Signing\<close>

text \<open>libsignal as documented: a key pair's public key serializes to itself, and verifies what the pair signs.\<close>

definition identity_law :: "'a mx_scheme \<Rightarrow> bool" where
  "identity_law x \<longleftrightarrow>
     (\<forall>private public. private_public x private = Inr public \<longrightarrow> id_key_decode x public = Inr public) \<and>
     (\<forall>private public bs r signature. private_public x private = Inr public \<longrightarrow> xed_sign x private bs r = Inr signature \<longrightarrow>
        xed_ok x public bs signature)"

definition key_pair_ok :: "'a mx_scheme \<Rightarrow> identity_key_pair \<Rightarrow> bool" where
  "key_pair_ok x identity \<longleftrightarrow> private_public x (ik_private identity) = Inr (ik_public identity)"

lemma identity_lawD:
  assumes "identity_law x" "key_pair_ok x identity"
  shows "id_key_decode x (ik_public identity) = Inr (ik_public identity)"
    "xed_sign x (ik_private identity) bs r = Inr signature \<Longrightarrow> xed_ok x (ik_public identity) bs signature"
  using assms unfolding identity_law_def key_pair_ok_def by blast+

lemma sign_manifest_parts:
  assumes "sign_manifest x k account sequence previous identity devices issued random = Inr m"
  shows "\<exists>binding bs. identity_binding x k account identity random = Inr binding \<and> manifest_verify x m = Inr () \<and>
    m = (unsigned_manifest x k account sequence previous (std_encode x (ik_public identity)) binding
      (map (\<lambda>d. d\<lparr>md_mls := None\<rparr>) devices) issued)\<lparr>mn_signature := std_encode x (ed25519_sign x (ak_authority_seed k) bs)\<rparr>"
proof -
  from assms obtain binding where b: "identity_binding x k account identity random = Inr binding"
    "sign_devices_as_given x k account sequence previous (std_encode x (ik_public identity)) binding
       (map (\<lambda>d. d\<lparr>md_mls := None\<rparr>) devices) issued = Inr m"
    by (auto simp: sign_manifest_def sign_manifest_with_binding_def)
  let ?u = "unsigned_manifest x k account sequence previous (std_encode x (ik_public identity)) binding
    (map (\<lambda>d. d\<lparr>md_mls := None\<rparr>) devices) issued"
  from b(2) obtain bs where "manifest_verify x (?u\<lparr>mn_signature := std_encode x (ed25519_sign x (ak_authority_seed k) bs)\<rparr>) = Inr ()"
    "m = ?u\<lparr>mn_signature := std_encode x (ed25519_sign x (ak_authority_seed k) bs)\<rparr>"
    by (auto simp: sign_devices_as_given_def Let_def)
  with b(1) show ?thesis by blast
qed

lemma sign_manifest_fields:
  assumes "sign_manifest x k account sequence previous identity devices issued random = Inr m"
  shows "manifest_verify x m = Inr ()" "mn_account m = account" "mn_sequence m = sequence" "mn_previous_hash m = previous"
    "mn_identity_key m = std_encode x (ik_public identity)" "mn_incarnation_id m = own_incarnation_id x k"
    "mn_authority_key_id m = key_id x k" "mn_self_authority_key m = public_key_base64 x k" "mn_drive m = own_drive_keys x k"
    "identity_binding x k account identity random = Inr (mn_identity_binding m)"
    "\<forall>d\<in>set (mn_devices m). md_mls d = None"
  using sign_manifest_parts [OF assms] by (auto simp: unsigned_manifest_def)

lemma signed_binding_ok:
  assumes "std_law x" "identity_law x" "key_pair_ok x identity"
    "sign_manifest x k account sequence previous identity devices issued random = Inr m"
  shows "verify_identity_binding x m = Inr ()"
proof -
  note f = sign_manifest_fields [OF assms(4)]
  from f(10) obtain bs signature where b: "manifest_binding_bytes x m = Inr bs"
    "xed_sign x (ik_private identity) bs random = Inr signature" "mn_identity_binding m = std_encode x signature"
    by (auto simp: identity_binding_def manifest_binding_bytes_def f(2,5-7))
  with identity_lawD [OF assms(2,3)] assms(1) f(5) show ?thesis
    by (simp add: verify_identity_binding_def)
qed

text \<open>
  The manifests an account signs, newest first: each names the hash of the one before it.  The devices and the
  identity may change in each.
\<close>

inductive own_chain :: "'a mx_scheme \<Rightarrow> identity_keys \<Rightarrow> account_ref \<Rightarrow> account_manifest list \<Rightarrow> bool"
  for x k account where
  first: "key_pair_ok x identity \<Longrightarrow> sign_manifest x k account 1 None identity devices issued random = Inr m \<Longrightarrow>
    own_chain x k account [m]"
| successor: "own_chain x k account (m # ms) \<Longrightarrow> manifest_hash x m = Inr h \<Longrightarrow> key_pair_ok x identity \<Longrightarrow>
    sign_manifest x k account (mn_sequence m + 1) (Some h) identity devices issued random = Inr n \<Longrightarrow>
    own_chain x k account (n # m # ms)"

text \<open>A client that is shown manifests one after the other, oldest first.\<close>

fun follow_manifests :: "'a mx_scheme \<Rightarrow> string \<Rightarrow> manifest_trust option \<Rightarrow> account_manifest list \<Rightarrow> chat_error + manifest_trust option" where
  "follow_manifests x peer prior [] = Inr prior"
| "follow_manifests x peer prior (m # ms) = bindr (verify_manifest_trust x peer m prior) (\<lambda>t. follow_manifests x peer (Some t) ms)"

lemma follow_manifests_snoc:
  "follow_manifests x peer prior (ms @ [m]) =
     bindr (follow_manifests x peer prior ms) (\<lambda>t. bindr (verify_manifest_trust x peer m t) (\<lambda>t. Inr (Some t)))"
proof (induction ms arbitrary: prior)
  case Nil
  show ?case by (cases "verify_manifest_trust x peer m prior") simp_all
next
  case (Cons a ms)
  show ?case by (cases "verify_manifest_trust x peer a prior") (simp_all add: Cons.IH)
qed

text \<open>The pin of the newest manifest of an account's own chain.\<close>

definition pin_current :: "'a mx_scheme \<Rightarrow> identity_keys \<Rightarrow> account_ref \<Rightarrow> account_manifest \<Rightarrow> trust_pin \<Rightarrow> bool" where
  "pin_current x k account m p \<longleftrightarrow>
     tp_peer p = account_ref_to_string account \<and> tp_account p = account_ref_to_string account \<and>
     tp_authority_key_id p = key_id x k \<and> tp_self_authority_key p = public_key_base64 x k \<and>
     tp_incarnation_id p = own_incarnation_id x k \<and> tp_drive_hpke p = dk_hpke (own_drive_keys x k) \<and>
     tp_drive_signing p = dk_signing (own_drive_keys x k) \<and> tp_highest_sequence p = mn_sequence m \<and>
     manifest_hash x m = Inr (tp_manifest_hash p) \<and> tp_identity_key p = mn_identity_key m \<and>
     tp_trust p = Tofu \<and> \<not> tp_continuity_gap p"

lemma signed_hash:
  assumes "manifest_verify x m = Inr ()" shows "\<exists>h. manifest_hash x m = Inr h"
  using manifest_verify_parts(5) [OF assms] by (auto simp: manifest_hash_def)

lemma own_account_matches:
  "account_valid account \<Longrightarrow> match_expected_account (account_ref_to_string account) account = Inr ()"
  by (simp add: match_expected_account_Inr account_valid_def account_ref_from_to_string)

lemma first_is_trusted:
  assumes "std_law x" "identity_law x" "account_valid account" "key_pair_ok x identity"
    "sign_manifest x k account 1 None identity devices issued random = Inr m"
  shows "\<exists>t. verify_manifest_trust x (account_ref_to_string account) m None = Inr t \<and> pin_current x k account m (mt_pin t)"
proof -
  note f = sign_manifest_fields [OF assms(5)]
  from signed_hash [OF f(1)] obtain h where h: "manifest_hash x m = Inr h" by blast
  then have "verify_manifest_trust x (account_ref_to_string account) m None =
      Inr (pin_of (account_ref_to_string account) m h None Tofu False)"
    using signed_binding_ok [OF assms(1,2,4,5)] own_account_matches [OF assms(3)]
    by (simp add: verify_manifest_trust_def f decide_fresh_def)
  then show ?thesis using h by (simp add: pin_current_def f)
qed

lemma successor_is_trusted:
  assumes "std_law x" "identity_law x" "account_valid account" "key_pair_ok x identity"
    "sign_manifest x k account (mn_sequence m + 1) (Some h) identity devices issued random = Inr n"
    "pin_current x k account m (mt_pin t)" "manifest_hash x m = Inr h"
  shows "\<exists>t'. verify_manifest_trust x (account_ref_to_string account) n (Some t) = Inr t' \<and> pin_current x k account n (mt_pin t')"
proof -
  let ?peer = "account_ref_to_string account"
  note f = sign_manifest_fields [OF assms(5)] and p = assms(6) [unfolded pin_current_def]
  from signed_hash [OF f(1)] obtain g where g: "manifest_hash x n = Inr g" by blast
  have "mn_sequence n \<noteq> 0" by (rule manifest_verify_parts [OF f(1)])
  then have s: "mn_sequence m + 1 \<noteq> 0" by (simp add: f(3))
  have "unat (mn_sequence m) + 1 < 2 ^ 64"
  proof (rule ccontr)
    have "unat (mn_sequence m) < 2 ^ 64" using unsigned_less [of "mn_sequence m"] by simp
    moreover assume "\<not> unat (mn_sequence m) + 1 < 2 ^ 64"
    ultimately have "unat (mn_sequence m) + 1 = 2 ^ 64" by linarith
    then have "unat (mn_sequence m + 1) = 0" by (simp add: unat_word_ariths)
    with s show False by (simp add: unat_eq_0)
  qed
  then have sat: "saturating_add (mn_sequence m) 1 = mn_sequence m + 1" and u: "unat (mn_sequence m + 1) = unat (mn_sequence m) + 1"
    by (simp_all add: saturating_add_def unat_word_ariths)
  then have lt: "mn_sequence m < mn_sequence m + 1" by (simp add: word_less_nat_alt)
  have "h = tp_manifest_hash (mt_pin t)" using p assms(7) by simp
  with p lt sat have d: "decide_known x ?peer n g (mt_pin t) = Inr (Some (Tofu, False))"
    by (simp add: decide_known_def f less_imp_neq [OF lt, symmetric] not_less less_imp_le)
  then have "verify_manifest_trust x ?peer n (Some t) = Inr (pin_of ?peer n g (Some t) Tofu False)"
    using signed_binding_ok [OF assms(1,2,4,5)] own_account_matches [OF assms(3)] g
    by (simp add: verify_manifest_trust_def f(1,2))
  then show ?thesis using g by (simp add: pin_current_def f)
qed

lemma own_chain_followed:
  assumes "std_law x" "identity_law x" "account_valid account" "own_chain x k account ms"
  shows "\<exists>t. follow_manifests x (account_ref_to_string account) None (rev ms) = Inr (Some t) \<and> pin_current x k account (hd ms) (mt_pin t)"
  using assms(4)
proof (induction rule: own_chain.induct)
  case (first identity devices issued random m)
  from first_is_trusted [OF assms(1-3) first] show ?case by auto
next
  case (successor m ms h identity devices issued random n)
  from successor.IH obtain t where t: "follow_manifests x (account_ref_to_string account) None (rev (m # ms)) = Inr (Some t)"
    "pin_current x k account m (mt_pin t)" by auto
  from successor_is_trusted [OF assms(1-3) successor.hyps(3,4) t(2) successor.hyps(2)] obtain t' where
    "verify_manifest_trust x (account_ref_to_string account) n (Some t) = Inr t'" "pin_current x k account n (mt_pin t')" by blast
  with t(1) have "follow_manifests x (account_ref_to_string account) None (rev (m # ms) @ [n]) = Inr (Some t')"
    by (simp only: follow_manifests_snoc bindr_simps)
  with \<open>pin_current x k account n (mt_pin t')\<close> show ?case by simp
qed

section \<open>Distribution\<close>

lemma bindr_unit: "bindr (r :: 'e + unit) f = Inr y \<longleftrightarrow> r = Inr () \<and> f () = Inr y"
  by (cases r) simp_all

lemma same_devices_Inr: "same_devices want have = Inr () \<longleftrightarrow> set want = set have"
  by (auto simp: same_devices_def compare_sets_def Let_def filter_empty_conv)

lemma strictly_ordered_Inr: "strictly_ordered items key what = Inr () \<longleftrightarrow> sorted_by key items"
  by (simp add: strictly_ordered_def windows2_sorted)

lemma check_keys_Inr:
  assumes "sorted_by md_device_id (mn_devices m)"
  shows "check_keys m keys = Inr () \<longleftrightarrow>
    (di_device_id keys, di_registration_id keys) \<in> set (map (\<lambda>d. (md_device_id d, md_registration_id d)) (mn_devices m)) \<and>
    ep_signature (di_signed keys) \<noteq> None"
proof (cases "manifest_device_of m (di_device_id keys)")
  case None
  then have "\<nexists>d. d \<in> set (mn_devices m) \<and> md_device_id d = di_device_id keys"
    by (metis manifest_device_of_iff [OF assms] option.distinct(1))
  with None show ?thesis by (auto simp: check_keys_def)
next
  case (Some d)
  with manifest_device_of_iff [OF assms] have d: "d \<in> set (mn_devices m)" "md_device_id d = di_device_id keys" by auto
  have "e = d" if "e \<in> set (mn_devices m)" "md_device_id e = di_device_id keys" for e
    by (rule sorted_by_inj [OF assms that(1) d(1)]) (simp only: that(2) d(2))
  note unique = this
  have "(di_device_id keys, di_registration_id keys) \<in> set (map (\<lambda>d. (md_device_id d, md_registration_id d)) (mn_devices m)) \<longleftrightarrow>
      md_registration_id d = di_registration_id keys"
  proof
    assume "(di_device_id keys, di_registration_id keys) \<in> set (map (\<lambda>d. (md_device_id d, md_registration_id d)) (mn_devices m))"
    then obtain e where e: "e \<in> set (mn_devices m)" "di_device_id keys = md_device_id e" "di_registration_id keys = md_registration_id e"
      by auto
    from unique [OF e(1) e(2) [symmetric]] e(3) show "md_registration_id d = di_registration_id keys" by simp
  next
    assume "md_registration_id d = di_registration_id keys"
    with d(2) have "(md_device_id d, md_registration_id d) = (di_device_id keys, di_registration_id keys)" by simp
    with d(1) show "(di_device_id keys, di_registration_id keys) \<in> set (map (\<lambda>d. (md_device_id d, md_registration_id d)) (mn_devices m))"
      by (metis (no_types, lifting) image_eqI list.set_map)
  qed
  with Some show ?thesis unfolding check_keys_def by (simp only: option.case bindr_unit require_Inr_iff)
qed

lemma pairs_equal:
  assumes "map fst as = map fst (bs :: ('a \<times> 'b) list)" "distinct (map fst bs)" "set as \<subseteq> set bs"
  shows "as = bs"
proof (rule nth_equalityI)
  show l: "length as = length bs" using assms(1) by (metis length_map)
  fix i assume i: "i < length as"
  then have f: "fst (as ! i) = fst (bs ! i)" using assms(1) l by (metis nth_map)
  from i assms(3) have "as ! i \<in> set bs" by (metis nth_mem subsetD)
  moreover have "bs ! i \<in> set bs" using i l by simp
  ultimately show "as ! i = bs ! i" using f assms(2) by (metis distinct_map inj_onD)
qed

lemma sender_listed: "manifest_device_of m i \<noteq> None \<longleftrightarrow> i \<in> md_device_id ` set (mn_devices m)"
  if "sorted_by md_device_id (mn_devices m)"
  using manifest_device_of_iff [OF that] by (metis (no_types, lifting) image_iff not_None_eq)

lemma distribution_exact:
  "distribution_validate x d sender = Inr () \<longleftrightarrow>
     (let m = ds_manifest d
      in manifest_verify x m = Inr () \<and> ds_identity_key d = mn_identity_key m \<and>
         sender \<in> set (map md_device_id (mn_devices m)) \<and>
         map (\<lambda>k. (di_device_id k, di_registration_id k)) (ds_devices d) =
           map (\<lambda>l. (md_device_id l, md_registration_id l)) (mn_devices m) \<and>
         map oe_device_id (ds_messages d) = filter (\<lambda>i. i \<noteq> sender) (map md_device_id (mn_devices m)) \<and>
         (\<forall>k\<in>set (ds_devices d). ep_signature (di_signed k) \<noteq> None))"
proof (cases "manifest_verify x (ds_manifest d) = Inr ()")
  case True
  let ?m = "ds_manifest d" let ?l = "map md_device_id (mn_devices ?m)"
  let ?pair = "\<lambda>l. (md_device_id l, md_registration_id l)" and ?kpair = "\<lambda>k. (di_device_id k, di_registration_id k)"
  note s = verified_devices_sorted [OF True]
  from manifest_verify_parts(5) [OF True] obtain bs where "manifest_signing_bytes x ?m = Inr bs" by blast
  from manifest_signing_bytes_parts [OF this] have key: "\<exists>k. decode_identity_key x ''identityKey'' (mn_identity_key ?m) = Inr k" by blast
  have dist: "distinct ?l" using s by (simp add: strict_sorted_iff)
  have devs: "sorted_by di_device_id ks \<and> set ?l = set (map di_device_id ks) \<and> (\<forall>k\<in>set ks. ?kpair k \<in> set (map ?pair (mn_devices ?m))) \<longleftrightarrow>
      map ?kpair ks = map ?pair (mn_devices ?m)" for ks
  proof
    assume h: "sorted_by di_device_id ks \<and> set ?l = set (map di_device_id ks) \<and> (\<forall>k\<in>set ks. ?kpair k \<in> set (map ?pair (mn_devices ?m)))"
    then have "map di_device_id ks = ?l" using s strict_sorted_equal by metis
    then have "map fst (map ?kpair ks) = map fst (map ?pair (mn_devices ?m))" by (simp add: comp_def)
    with h dist show "map ?kpair ks = map ?pair (mn_devices ?m)" by (intro pairs_equal) (auto simp: comp_def)
  next
    assume h: "map ?kpair ks = map ?pair (mn_devices ?m)"
    then have "map fst (map ?kpair ks) = map fst (map ?pair (mn_devices ?m))" by simp
    then have e: "map di_device_id ks = ?l" by (simp add: comp_def)
    with s have "sorted_by di_device_id ks" by simp
    moreover have "?kpair k \<in> set (map ?pair (mn_devices ?m))" if "k \<in> set ks" for k
      using that h by (metis (no_types, lifting) image_eqI list.set_map)
    ultimately show "sorted_by di_device_id ks \<and> set ?l = set (map di_device_id ks) \<and> (\<forall>k\<in>set ks. ?kpair k \<in> set (map ?pair (mn_devices ?m)))"
      unfolding e by (intro conjI ballI refl)
  qed
  have msgs: "sorted_by oe_device_id es \<and> set (filter (\<lambda>i. i \<noteq> sender) ?l) = set (map oe_device_id es) \<longleftrightarrow>
      map oe_device_id es = filter (\<lambda>i. i \<noteq> sender) ?l" for es
    using s strict_sorted_equal sorted_wrt_filter by metis
  have "distribution_validate x d sender = Inr () \<longleftrightarrow>
      (\<exists>k. decode_identity_key x ''identityKey'' (ds_identity_key d) = Inr k) \<and> ds_identity_key d = mn_identity_key ?m \<and>
      sender \<in> set ?l \<and> sorted_by di_device_id (ds_devices d) \<and> sorted_by oe_device_id (ds_messages d) \<and>
      set ?l = set (map di_device_id (ds_devices d)) \<and>
      set (filter (\<lambda>i. i \<noteq> sender) ?l) = set (map oe_device_id (ds_messages d)) \<and>
      (\<forall>k\<in>set (ds_devices d). ?kpair k \<in> set (map ?pair (mn_devices ?m)) \<and> ep_signature (di_signed k) \<noteq> None)"
    unfolding distribution_validate_def Let_def bindr_unit map_err_Inr_iff require_Inr_iff strictly_ordered_Inr
      same_devices_Inr for_each_Inr_iff check_keys_Inr [OF s] sender_listed [OF s] bindr_Inr_iff ex_simps
    by (simp only: True set_map simp_thms)
  also have "\<dots> \<longleftrightarrow> ds_identity_key d = mn_identity_key ?m \<and> sender \<in> set ?l \<and>
      map ?kpair (ds_devices d) = map ?pair (mn_devices ?m) \<and> map oe_device_id (ds_messages d) = filter (\<lambda>i. i \<noteq> sender) ?l \<and>
      (\<forall>k\<in>set (ds_devices d). ep_signature (di_signed k) \<noteq> None)"
  proof (cases "ds_identity_key d = mn_identity_key ?m")
    case same: True
    with key have "\<exists>k. decode_identity_key x ''identityKey'' (ds_identity_key d) = Inr k" by simp
    then show ?thesis unfolding devs [symmetric] msgs [symmetric] ball_conj_distrib by (simp only: same simp_thms conj_ac)
  qed (simp only: simp_thms)
  finally show ?thesis unfolding Let_def True by simp
qed (simp add: distribution_validate_def Let_def)

end
