(* ===== verification/Manifest_Demo.thy ===== *)
theory Manifest_Demo
  imports Manifest_Own Account_Head_Demo
begin

text \<open>
  A concrete account: its first manifest with one device, the next one with a second, each signed with its keys, and
  the pages, pins and the distribution they appear in.  Hexadecimal is real; a signature is 64 equal bytes; a hash
  shows the length and the last byte of its input.
\<close>

definition demo_manifest_ext :: signal_ext where
  "demo_manifest_ext = \<lparr>std_encode = string_of_bytes, std_decode = (\<lambda>s. Some (bytes_of_string s)),
     url_encode = string_of_bytes, url_decode = (\<lambda>s. Some (bytes_of_string s)),
     hex_encode = bytes_to_hex, hex_decode = demo_hex_decode, sha256 = demo_sum, hmac_sha256 = (\<lambda>k. demo_sum),
     hkdf_sha256 = demo_hkdf, ed25519_key_ok = (\<lambda>k. True), ed25519_public = (\<lambda>seed. seed),
     ed25519_sign = (\<lambda>seed bs. replicate 64 0x73), ed25519_ok = (\<lambda>k bs sig. sig = replicate 64 0x73),
     aead_seal = (\<lambda>k n aad p. Some (p @ replicate 16 0)), aead_open = (\<lambda>k n aad c. Some (take (length c - 16) c)),
     id_key_decode = Inr, private_public = (\<lambda>k. Inr (5 # k)), xed_ok = (\<lambda>k bs sig. sig = replicate 64 0x78),
     xed_sign = (\<lambda>k bs r. Inr (replicate 64 0x78)), xwing_public = (\<lambda>seed. replicate 1216 0x68)\<rparr>"

lemma demo_manifest_laws: "std_law demo_manifest_ext" "url_law demo_manifest_ext" "hex_law demo_manifest_ext"
  "identity_law demo_manifest_ext"
  using demo_hex by (simp_all add: std_law_def url_law_def hex_law_def identity_law_def demo_manifest_ext_def)

fun in_pairs :: "string \<Rightarrow> bool" where
  "in_pairs [] = True"
| "in_pairs (c # d # s) = in_pairs s"
| "in_pairs [c] = False"

lemma in_pairs_even: "in_pairs s \<longleftrightarrow> even (length s)"
  by (induction s rule: in_pairs.induct) simp_all

definition chunk_byte :: "string \<Rightarrow> u8" where
  "chunk_byte s = (case from_str_radix_16 s of None \<Rightarrow> 0 | Some b \<Rightarrow> b)"

lemma lower_hex_digits_decode:
  assumes "is_lower_hex c" "is_lower_hex d" shows "hex_byte (chunk_byte [c, d]) = [c, d]"
proof -
  from assms obtain m n where mn: "hex_digit c = Some m" "m < 16" "hex_digit d = Some n" "n < 16" "hex_char m = c"
    using hex_char_digit by blast
  then have "from_str_radix_16 [c, d] = Some (word_of_nat (m * 16 + n))"
    by (auto simp: from_str_radix_16_def hex_digit_def)
  with lower_hex_chunk [of c d] assms show ?thesis by (simp add: chunk_byte_def)
qed

lemma demo_lower_hex_law: "lower_hex_law demo_manifest_ext"
proof -
  have "\<exists>b. b = map (\<lambda>i. chunk_byte (take 2 (drop (2 * i) s))) [0..<length s div 2] \<and> length b * 2 = length s \<and> bytes_to_hex b = s"
    if "list_all is_lower_hex s" "even (length s)" for s
    using that
  proof (induction s rule: in_pairs.induct)
    case (2 c d s)
    then have h: "is_lower_hex c" "is_lower_hex d" by simp_all
    have u: "[0..<length (c # d # s) div 2] = 0 # map Suc [0..<length s div 2]" by (simp add: upt_conv_Cons map_Suc_upt del: upt_Suc)
    with 2 lower_hex_digits_decode [OF h] show ?case by (simp add: bytes_to_hex_def comp_def del: upt_Suc)
  qed (simp_all add: bytes_to_hex_def)
  then show ?thesis
    by (auto simp: lower_hex_law_def demo_manifest_ext_def demo_hex_decode_def chunk_byte_def)
qed

lemma demo_manifest_sel [simp]:
  "std_encode demo_manifest_ext = string_of_bytes" "std_decode demo_manifest_ext s = Some (bytes_of_string s)"
  "hex_encode demo_manifest_ext = bytes_to_hex" "hex_decode demo_manifest_ext = demo_hex_decode"
  "sha256 demo_manifest_ext = demo_sum" "hkdf_sha256 demo_manifest_ext = demo_hkdf" "ed25519_key_ok demo_manifest_ext k"
  "ed25519_public demo_manifest_ext seed = seed" "ed25519_sign demo_manifest_ext seed bs = replicate 64 0x73"
  "ed25519_ok demo_manifest_ext k bs sig \<longleftrightarrow> sig = replicate 64 0x73" "id_key_decode demo_manifest_ext k = Inr k"
  "private_public demo_manifest_ext k = Inr (5 # k)" "xed_ok demo_manifest_ext k bs sig \<longleftrightarrow> sig = replicate 64 0x78"
  "xed_sign demo_manifest_ext k bs r = Inr (replicate 64 0x78)" "xwing_public demo_manifest_ext seed = replicate 1216 0x68"
  by (simp_all add: demo_manifest_ext_def)

lemma demo_base64_exact [simp]:
  "length s = k \<Longrightarrow> decode_canonical_base64_exact demo_manifest_ext n s k = Inr (bytes_of_string s)"
  by (simp add: decode_canonical_base64_exact_Inr)

lemma demo_hex_32 [simp]: "length b = 32 \<Longrightarrow> decode_lower_hex_32 demo_manifest_ext n (bytes_to_hex b) = Inr b"
  using demo_hex by (simp add: decode_lower_hex_32_Inr hex_law_def)

lemma demo_identity_key_decodes [simp]:
  "length b = 32 \<Longrightarrow> decode_identity_key demo_manifest_ext n (string_of_bytes (5 # b)) = Inr (5 # b)"
  by (simp add: decode_identity_key_Inr djb_key_type_def)

lemma length_demo_sum [simp]: "length (demo_sum bs) = 32" by (simp add: demo_sum_def)
lemma length_demo_hkdf [simp]: "length (demo_hkdf s k i n) = n" by (simp add: demo_hkdf_def)

section \<open>Two manifests\<close>

definition demo_account :: account_ref where "demo_account = AccountRef ''a.example'' demo_binding"
definition demo_peer :: string where "demo_peer = account_ref_to_string demo_account"
definition demo_identity_keys :: identity_keys where
  "demo_identity_keys = derive_identity_keys demo_manifest_ext (replicate 32 1)"
definition demo_identity :: identity_key_pair where
  "demo_identity = \<lparr>ik_public = 5 # replicate 32 3, ik_private = replicate 32 3\<rparr>"
definition demo_device :: "u32 \<Rightarrow> manifest_device" where
  "demo_device i = \<lparr>md_device_id = i, md_suite = PqxdhTripleRatchetV1, md_registration_id = 100 + i, md_mls = None\<rparr>"
definition demo_time :: string where "demo_time = ''2026-01-01T00:00:00Z''"

definition demo_signed :: "u64 \<Rightarrow> string option \<Rightarrow> manifest_device list \<Rightarrow> account_manifest" where
  "demo_signed sequence previous devices =
     (unsigned_manifest demo_manifest_ext demo_identity_keys demo_account sequence previous
        (string_of_bytes (ik_public demo_identity)) (string_of_bytes (replicate 64 0x78)) devices demo_time)
     \<lparr>mn_signature := string_of_bytes (replicate 64 0x73)\<rparr>"

definition demo_manifest_1 :: account_manifest where "demo_manifest_1 = demo_signed 1 None [demo_device 1]"

definition demo_hash_of :: "account_manifest \<Rightarrow> string" where
  "demo_hash_of m = (case manifest_hash demo_manifest_ext m of Inr h \<Rightarrow> h | Inl e \<Rightarrow> [])"

definition demo_manifest_2 :: account_manifest where
  "demo_manifest_2 = demo_signed 2 (Some (demo_hash_of demo_manifest_1)) [demo_device 1, demo_device 2]"

lemma demo_account_ok: "account_valid demo_account" "key_pair_ok demo_manifest_ext demo_identity"
proof -
  show "account_valid demo_account" unfolding account_valid_def demo_account_def by code_simp
  show "key_pair_ok demo_manifest_ext demo_identity" by (simp add: key_pair_ok_def demo_identity_def)
qed

lemma demo_signature_irrelevant [simp]:
  "manifest_signing_bytes x (m\<lparr>mn_signature := s\<rparr>) = manifest_signing_bytes x m"
  by (simp add: manifest_signing_bytes_def cong del: bindr_cong)

lemma demo_signed_fields [simp]:
  "mn_sequence (demo_signed q p ds) = q" "mn_previous_hash (demo_signed q p ds) = p"
  "mn_devices (demo_signed q p ds) = sort_key md_device_id ds" "mn_account (demo_signed q p ds) = demo_account"
  "mn_identity_key (demo_signed q p ds) = string_of_bytes (ik_public demo_identity)"
  "mn_signature (demo_signed q p ds) = string_of_bytes (replicate 64 0x73)"
  by (simp_all add: demo_signed_def unsigned_manifest_def)

lemma demo_bytes:
  assumes "push_optional p = Inr previous" "device_bytes demo_manifest_ext None (sort_key md_device_id ds) = Inr devices"
    "length ds < 2 ^ 32"
  shows "\<exists>bs. manifest_signing_bytes demo_manifest_ext (demo_signed q p ds) = Inr bs"
proof -
  have "push_manifest_string demo_time = Inr (be32 (length demo_time) @ bytes_of_string demo_time)"
    by (simp add: push_manifest_string_def) (simp add: demo_time_def)
  with assms show ?thesis
    by (simp add: manifest_signing_bytes_def demo_signed_def unsigned_manifest_def own_incarnation_id_def incarnation_of_def
      key_id_def authority_key_id_of_def public_key_base64_def authority_public_def demo_identity_keys_def derive_identity_keys_def
      demo_identity_def identity_binding_len_def own_drive_keys_def)
qed

lemma demo_verifies:
  assumes "push_optional p = Inr previous" "device_bytes demo_manifest_ext None (sort_key md_device_id ds) = Inr devices"
    "q \<noteq> 0" "q = 1 \<longleftrightarrow> p = None" "p = None \<or> (\<exists>b. length b = 32 \<and> p = Some (bytes_to_hex b))" "ds \<noteq> []" "length ds \<le> 10"
    "\<forall>d\<in>set ds. check_device_id (md_device_id d) = Inr () \<and> check_registration_id (md_registration_id d) = Inr ()"
  shows "manifest_verify demo_manifest_ext (demo_signed q p ds) = Inr ()"
proof -
  from assms(7) have "length ds < 2 ^ 32" by simp
  from demo_bytes [OF assms(1,2) this] obtain bs where bs: "manifest_signing_bytes demo_manifest_ext (demo_signed q p ds) = Inr bs"
    by blast
  have prev: "(case p of None \<Rightarrow> Inr () | Some h \<Rightarrow> bindr (decode_lower_hex_32 demo_manifest_ext ''previousHash'' h) (\<lambda>_. Inr ())) = Inr ()"
    using assms(5) by auto
  have ne: "sort_key md_device_id ds \<noteq> []" using assms(6) by (metis length_0_conv length_sort)
  have t: "demo_time \<noteq> []" "length demo_time \<le> 64" by (simp_all add: demo_time_def)
  show ?thesis
    using bs prev ne t assms
    by (simp add: manifest_verify_def demo_signed_def unsigned_manifest_def own_incarnation_id_def incarnation_of_def
      key_id_def authority_key_id_of_def public_key_base64_def authority_public_def demo_identity_keys_def derive_identity_keys_def
      own_drive_keys_def account_manifest_v2_version_def max_account_manifest_devices_def not_less)
qed

lemma demo_signs:
  assumes "manifest_verify demo_manifest_ext (demo_signed q p ds) = Inr ()" "\<forall>d\<in>set ds. md_mls d = None"
  shows "sign_manifest demo_manifest_ext demo_identity_keys demo_account q p demo_identity ds demo_time [] = Inr (demo_signed q p ds)"
proof -
  have mls: "map (\<lambda>d. d\<lparr>md_mls := None\<rparr>) ds = ds"
    using assms(2) by (intro map_idI) (auto intro: manifest_device.equality)
  have "\<exists>b. binding_bytes demo_manifest_ext (key_id demo_manifest_ext demo_identity_keys)
      (own_incarnation_id demo_manifest_ext demo_identity_keys) demo_account (string_of_bytes (ik_public demo_identity)) = Inr b"
    by (simp add: binding_bytes_def own_incarnation_id_def incarnation_of_def key_id_def authority_key_id_of_def
      authority_public_def demo_identity_keys_def derive_identity_keys_def demo_identity_def)
  then have b: "identity_binding demo_manifest_ext demo_identity_keys demo_account demo_identity [] =
      Inr (string_of_bytes (replicate 64 0x78))" by (auto simp: identity_binding_def)
  from manifest_verify_parts(5) [OF assms(1)] obtain bs where
    "manifest_signing_bytes demo_manifest_ext (demo_signed q p ds) = Inr bs" by blast
  with assms(1) show ?thesis
    unfolding sign_manifest_def b bindr_simps sign_manifest_with_binding_def sign_devices_as_given_def Let_def mls
    by (simp add: demo_signed_def)
qed

lemma demo_devices:
  "sort_key md_device_id [demo_device 1] = [demo_device 1]"
  "sort_key md_device_id [demo_device 1, demo_device 2] = [demo_device 1, demo_device 2]"
  by (simp_all add: demo_device_def)

lemma demo_device_bytes:
  "\<exists>b. device_bytes demo_manifest_ext None [demo_device 1] = Inr b"
  "\<exists>b. device_bytes demo_manifest_ext None [demo_device 1, demo_device 2] = Inr b"
  by (simp_all add: demo_device_def device_mls_bytes_def word_le_nat_alt)

lemma demo_verifies_1: "manifest_verify demo_manifest_ext demo_manifest_1 = Inr ()"
proof -
  obtain d where "device_bytes demo_manifest_ext None (sort_key md_device_id [demo_device 1]) = Inr d"
    using demo_device_bytes(1) by (auto simp only: demo_devices)
  then show ?thesis unfolding demo_manifest_1_def
    by (rule demo_verifies [rotated]) (simp_all add: push_optional_def demo_device_def check_device_id_def
      check_registration_id_def max_device_id_def max_registration_id_def)
qed

lemma demo_hash_1:
  "manifest_hash demo_manifest_ext demo_manifest_1 = Inr (demo_hash_of demo_manifest_1)"
  "\<exists>b. length b = 32 \<and> demo_hash_of demo_manifest_1 = bytes_to_hex b"
  using manifest_verify_parts(5) [OF demo_verifies_1] by (auto simp: demo_hash_of_def manifest_hash_def intro: length_demo_sum)

lemma demo_verifies_2: "manifest_verify demo_manifest_ext demo_manifest_2 = Inr ()"
proof -
  obtain d where d: "device_bytes demo_manifest_ext None (sort_key md_device_id [demo_device 1, demo_device 2]) = Inr d"
    using demo_device_bytes(2) by (auto simp only: demo_devices)
  from demo_hash_1(2) obtain b where b: "length b = 32" "demo_hash_of demo_manifest_1 = bytes_to_hex b" by blast
  then have "push_optional (Some (demo_hash_of demo_manifest_1)) = Inr (1 # be32 64 @ bytes_of_string (bytes_to_hex b))"
    by (simp add: push_optional_def push_manifest_string_def)
  then show ?thesis unfolding demo_manifest_2_def
    by (rule demo_verifies) (use d b in \<open>auto simp: demo_device_def check_device_id_def
      check_registration_id_def max_device_id_def max_registration_id_def\<close>)
qed

lemma demo_own_chain: "own_chain demo_manifest_ext demo_identity_keys demo_account [demo_manifest_2, demo_manifest_1]"
proof -
  have m: "\<forall>d\<in>set [demo_device 1, demo_device 2]. md_mls d = None" by (simp add: demo_device_def)
  have "own_chain demo_manifest_ext demo_identity_keys demo_account [demo_manifest_1]"
    using demo_signs [OF demo_verifies_1 [unfolded demo_manifest_1_def]] m demo_account_ok(2)
    by (auto simp: demo_manifest_1_def intro!: own_chain.first)
  then show ?thesis
  proof (rule own_chain.successor)
    show "manifest_hash demo_manifest_ext demo_manifest_1 = Inr (demo_hash_of demo_manifest_1)" by (rule demo_hash_1)
    show "key_pair_ok demo_manifest_ext demo_identity" by (rule demo_account_ok)
    show "sign_manifest demo_manifest_ext demo_identity_keys demo_account (mn_sequence demo_manifest_1 + 1)
        (Some (demo_hash_of demo_manifest_1)) demo_identity [demo_device 1, demo_device 2] demo_time [] = Inr demo_manifest_2"
      using demo_signs [OF demo_verifies_2 [unfolded demo_manifest_2_def] m] by (simp add: demo_manifest_1_def demo_manifest_2_def)
  qed
qed

section \<open>Pins and pages\<close>

lemma demo_pins:
  "\<exists>t. verify_manifest_trust demo_manifest_ext demo_peer demo_manifest_1 None = Inr t \<and>
     (\<exists>u. verify_manifest_trust demo_manifest_ext demo_peer demo_manifest_2 (Some t) = Inr u)"
proof -
  have m: "\<forall>d\<in>set [demo_device 1, demo_device 2]. md_mls d = None" by (simp add: demo_device_def)
  have "sign_manifest demo_manifest_ext demo_identity_keys demo_account 1 None demo_identity [demo_device 1] demo_time [] =
      Inr demo_manifest_1"
    using demo_signs [OF demo_verifies_1 [unfolded demo_manifest_1_def]] m by (simp add: demo_manifest_1_def)
  from first_is_trusted [OF demo_manifest_laws(1,4) demo_account_ok this] obtain t where
    t: "verify_manifest_trust demo_manifest_ext demo_peer demo_manifest_1 None = Inr t"
      "pin_current demo_manifest_ext demo_identity_keys demo_account demo_manifest_1 (mt_pin t)" unfolding demo_peer_def by blast
  have "sign_manifest demo_manifest_ext demo_identity_keys demo_account (mn_sequence demo_manifest_1 + 1)
      (Some (demo_hash_of demo_manifest_1)) demo_identity [demo_device 1, demo_device 2] demo_time [] = Inr demo_manifest_2"
    using demo_signs [OF demo_verifies_2 [unfolded demo_manifest_2_def] m] by (simp add: demo_manifest_1_def demo_manifest_2_def)
  from successor_is_trusted [OF demo_manifest_laws(1,4) demo_account_ok this t(2) demo_hash_1(1)] t(1)
  show ?thesis unfolding demo_peer_def by blast
qed

definition demo_page :: "u64 \<Rightarrow> account_manifest list \<Rightarrow> u64 option \<Rightarrow> history_page" where
  "demo_page from ms next = \<lparr>hp_account = demo_account, hp_from = from, hp_to = 2, hp_manifests = ms, hp_next = next\<rparr>"

lemma demo_manifest_fields:
  "mn_sequence demo_manifest_1 = 1" "mn_sequence demo_manifest_2 = 2" "mn_previous_hash demo_manifest_1 = None"
  "mn_previous_hash demo_manifest_2 = Some (demo_hash_of demo_manifest_1)"
  "mn_account demo_manifest_1 = demo_account" "mn_account demo_manifest_2 = demo_account"
  "mn_incarnation_id demo_manifest_2 = mn_incarnation_id demo_manifest_1"
  "mn_authority_key_id demo_manifest_2 = mn_authority_key_id demo_manifest_1"
  "mn_self_authority_key demo_manifest_2 = mn_self_authority_key demo_manifest_1"
  by (simp_all add: demo_manifest_1_def demo_manifest_2_def demo_signed_def unsigned_manifest_def)

lemma demo_hash_2: "manifest_hash demo_manifest_ext demo_manifest_2 = Inr (demo_hash_of demo_manifest_2)"
  using manifest_verify_parts(5) [OF demo_verifies_2] by (auto simp: demo_hash_of_def manifest_hash_def)

lemma demo_pages_valid:
  "page_validate demo_manifest_ext (demo_page 1 [demo_manifest_1, demo_manifest_2] None) = Inr ()"
  "page_validate demo_manifest_ext (demo_page 1 [demo_manifest_1] (Some 2)) = Inr ()"
  "page_validate demo_manifest_ext (demo_page 2 [demo_manifest_2] None) = Inr ()"
  by (simp_all add: page_validate_def demo_page_def demo_verifies_1 demo_verifies_2 demo_hash_1 demo_hash_2 demo_manifest_fields
    checked_add_def max_account_manifest_history_page_def word_less_nat_alt)

lemma demo_peer_matches: "match_expected_account demo_peer demo_account = Inr ()"
  unfolding demo_peer_def by (rule own_account_matches [OF demo_account_ok(1)])

lemma demo_recovers:
  "\<exists>r. verify_manifest_history demo_manifest_ext demo_peer [demo_page 1 [demo_manifest_1, demo_manifest_2] None] None demo_manifest_2 = Inr r"
  "\<exists>r. verify_manifest_history demo_manifest_ext demo_peer
     [demo_page 1 [demo_manifest_1] (Some 2), demo_page 2 [demo_manifest_2] None] None demo_manifest_2 = Inr r"
proof -
  from demo_pins obtain t u where t: "verify_manifest_trust demo_manifest_ext demo_peer demo_manifest_1 None = Inr t"
    "verify_manifest_trust demo_manifest_ext demo_peer demo_manifest_2 (Some t) = Inr u" by blast
  show "\<exists>r. verify_manifest_history demo_manifest_ext demo_peer [demo_page 1 [demo_manifest_1, demo_manifest_2] None] None demo_manifest_2 = Inr r"
    "\<exists>r. verify_manifest_history demo_manifest_ext demo_peer
       [demo_page 1 [demo_manifest_1] (Some 2), demo_page 2 [demo_manifest_2] None] None demo_manifest_2 = Inr r"
    using demo_pages_valid demo_peer_matches
    by (simp_all add: verify_manifest_history_def demo_page_def history_start_def history_step_def t demo_hash_1 demo_hash_2
      demo_manifest_fields checked_add_def identity_of_manifest_def)
qed

end
