(* ===== verification/Manifest_Properties.thy ===== *)
theory Manifest_Properties
  imports Manifest_Demo
begin

text \<open>
  What account manifests promise to the devices that read them: the authority's signature covers the whole list; a pin
  never goes back and never changes hands; a recovered history is complete and the only one; an honest account is
  always followed; and a new identity goes to exactly the account's devices.
\<close>

text \<open>The bytes an account's authority signs determine its manifest: two manifests with the same signed bytes have
  the same account, sequence, predecessor, identity, Drive keys, devices and every other field but the signature
  itself. A server that changes or reorders anything of a signed manifest changes the bytes under the signature.\<close>

theorem signature_covers_the_manifest:
  assumes "lower_hex_law x" "account_valid (mn_account m)" "account_valid (mn_account n)"
    "manifest_signing_bytes x m = Inr bs" "manifest_signing_bytes x n = Inr bs"
  shows "m\<lparr>mn_signature := []\<rparr> = n\<lparr>mn_signature := []\<rparr>"
  using manifest_signing_bytes_front [OF assms, of "[]" "[]"] by (simp add: without_signature_def)

lemma signature_covers_the_manifest_witness:
  "demo_manifest_1\<lparr>mn_signature := []\<rparr> = (demo_manifest_1\<lparr>mn_signature := ''forged''\<rparr>)\<lparr>mn_signature := []\<rparr>"
proof -
  from manifest_verify_parts(5) [OF demo_verifies_1] obtain bs where
    "manifest_signing_bytes demo_manifest_ext demo_manifest_1 = Inr bs" by blast
  then have "manifest_signing_bytes demo_manifest_ext demo_manifest_1 = Inr bs"
    "manifest_signing_bytes demo_manifest_ext (demo_manifest_1\<lparr>mn_signature := ''forged''\<rparr>) = Inr bs" by simp_all
  from signature_covers_the_manifest [OF demo_lower_hex_law _ _ this] show ?thesis
    using demo_account_ok(1) by (simp add: demo_manifest_fields)
qed

text \<open>C18: A peer's pin only moves along the account's signed chain. When a client that holds a pin accepts a manifest, the
  pin stays with the same peer, account, authority, incarnation and signing key and keeps its trust; its sequence never
  falls; at the same sequence nothing changes and the manifest is the pinned one by hash; the next sequence must name
  the pinned hash; skipping ahead is recorded as a gap, which later acceptance never clears; a verified identity stays
  verified only while the identity key is the same; a quarantined pin accepts nothing. And so it stays over any
  manifests that come after, in any order, with those refused among them.\<close>

theorem pins_follow_the_chain:
  assumes "verify_manifest_trust x peer m (Some p) = Inr q"
  defines "P \<equiv> mt_pin p" and "Q \<equiv> mt_pin q"
  shows "tp_trust P \<noteq> Quarantined \<and> tp_trust Q = tp_trust P \<and> tp_peer Q = tp_peer P \<and> pin_identity Q = pin_identity P \<and>
    tp_drive_signing Q = tp_drive_signing P \<and>
    (tp_drive_hpke Q \<noteq> tp_drive_hpke P \<longrightarrow> drive_key_rises x (tp_drive_hpke P) m) \<and>
    pin_identity Q = identity_of_manifest m \<and> tp_highest_sequence Q = mn_sequence m \<and>
    manifest_hash x m = Inr (tp_manifest_hash Q) \<and>
    tp_highest_sequence P \<le> tp_highest_sequence Q \<and> (tp_highest_sequence P = tp_highest_sequence Q \<longrightarrow> q = p) \<and>
    (unat (tp_highest_sequence Q) = unat (tp_highest_sequence P) + 1 \<longrightarrow> mn_previous_hash m = Some (tp_manifest_hash P)) \<and>
    (tp_continuity_gap Q \<longleftrightarrow>
       tp_continuity_gap P \<or> unat (tp_highest_sequence P) + 1 < unat (tp_highest_sequence Q)) \<and>
    (tp_identity_verified Q \<longrightarrow> tp_identity_verified P \<and> tp_identity_key Q = tp_identity_key P) \<and>
    (\<forall>ms. pin_le p (run_steps (\<lambda>t n. verify_manifest_trust x peer n (Some t)) q ms))"
proof -
  note a = pin_after [OF assms(1), folded P_def Q_def]
  have "tp_drive_hpke Q \<noteq> tp_drive_hpke P \<longrightarrow> drive_key_rises x (tp_drive_hpke P) m" using a(15) by blast
  moreover have "tp_identity_verified Q \<longrightarrow> tp_identity_verified P \<and> tp_identity_key Q = tp_identity_key P" using a(16) by blast
  moreover have "unat (tp_highest_sequence Q) = unat (tp_highest_sequence P) + 1 \<longrightarrow> mn_previous_hash m = Some (tp_manifest_hash P)"
    using a(13) by (simp add: a(10))
  moreover have "tp_highest_sequence P = tp_highest_sequence Q \<longrightarrow> q = p" using a(12) by (simp add: a(10))
  moreover have "\<forall>ms. pin_le p (run_steps (\<lambda>t n. verify_manifest_trust x peer n (Some t)) q ms)"
    using peer_pin.le_trans [OF pin_le_step [OF assms(1)]] peer_pin.run_up by blast
  ultimately show ?thesis using a(1-11,14) by simp
qed

lemma pins_follow_the_chain_witness:
  "\<exists>p q. verify_manifest_trust demo_manifest_ext demo_peer demo_manifest_2 (Some p) = Inr q \<and>
     tp_highest_sequence (mt_pin p) \<le> tp_highest_sequence (mt_pin q) \<and> pin_identity (mt_pin q) = pin_identity (mt_pin p)"
proof -
  from demo_pins obtain p q where pq: "verify_manifest_trust demo_manifest_ext demo_peer demo_manifest_2 (Some p) = Inr q" by blast
  from pins_follow_the_chain [OF this] have "tp_highest_sequence (mt_pin p) \<le> tp_highest_sequence (mt_pin q)"
    "pin_identity (mt_pin q) = pin_identity (mt_pin p)" by - (elim conjE, assumption)+
  with pq show ?thesis by blast
qed

text \<open>C19: A history recovered over a gap is complete. Whatever pages a server sends, once they are accepted the manifests
  recorded are every sequence from the one after the pin (or from 1) to the pending one, each verified with its
  identity binding, each naming the hash of the one before it and the first that of the pin, all under one account,
  incarnation and authority, the pin's; the new pin is of the pending manifest and has no gap left.\<close>

theorem recovered_history_is_complete:
  assumes "verify_manifest_history x peer pages prior pending = Inr (t, rs)"
  defines "ms \<equiv> map hr_manifest rs"
    and "start \<equiv> (case prior of None \<Rightarrow> 1 | Some p \<Rightarrow> unat (tp_highest_sequence (mt_pin p)) + 1)"
  shows "ms \<noteq> [] \<and> last ms = pending \<and> map (\<lambda>m. unat (mn_sequence m)) ms = [start..<start + length ms] \<and>
    hash_chain x (map_option (\<lambda>p. tp_manifest_hash (mt_pin p)) prior) ms \<and>
    (\<forall>m\<in>set ms. manifest_verify x m = Inr () \<and> verify_identity_binding x m = Inr () \<and>
       account_ref_from_str peer = Inr (mn_account m) \<and> identity_of_manifest m = pin_identity (mt_pin t)) \<and>
    (\<forall>p. prior = Some p \<longrightarrow> pin_identity (mt_pin t) = pin_identity (mt_pin p)) \<and>
    tp_highest_sequence (mt_pin t) = mn_sequence pending \<and> manifest_hash x pending = Inr (tp_manifest_hash (mt_pin t)) \<and>
    \<not> tp_continuity_gap (mt_pin t)"
proof -
  note h = history_complete [OF assms(1), folded ms_def]
  from h(4) have "\<forall>m\<in>set ms. manifest_verify x m = Inr () \<and> verify_identity_binding x m = Inr () \<and>
      account_ref_from_str peer = Inr (mn_account m)" by (simp add: list_all_iff history_ok_def)
  with h(6) have v: "\<forall>m\<in>set ms. manifest_verify x m = Inr () \<and> verify_identity_binding x m = Inr () \<and>
      account_ref_from_str peer = Inr (mn_account m) \<and> identity_of_manifest m = pin_identity (mt_pin t)" by blast
  have s: "map (\<lambda>m. unat (mn_sequence m)) ms = [start..<start + length ms]" using h(5) by (simp add: start_def Let_def)
  from h(7) have i: "\<forall>p. prior = Some p \<longrightarrow> pin_identity (mt_pin t) = pin_identity (mt_pin p)" by blast
  show ?thesis by (intro conjI h(1-3,8-10) s v i)
qed

lemma recovered_history_is_complete_witness:
  "\<exists>t rs. verify_manifest_history demo_manifest_ext demo_peer [demo_page 1 [demo_manifest_1] (Some 2), demo_page 2 [demo_manifest_2] None]
      None demo_manifest_2 = Inr (t, rs) \<and> map (\<lambda>m. unat (mn_sequence m)) (map hr_manifest rs) = [1..<1 + length rs] \<and>
      \<not> tp_continuity_gap (mt_pin t)"
proof -
  from demo_recovers(2) obtain t rs where r: "verify_manifest_history demo_manifest_ext demo_peer
    [demo_page 1 [demo_manifest_1] (Some 2), demo_page 2 [demo_manifest_2] None] None demo_manifest_2 = Inr (t, rs)" by force
  note h = recovered_history_is_complete [OF r]
  from h have "map (\<lambda>m. unat (mn_sequence m)) (map hr_manifest rs) = [1..<1 + length rs]" by simp
  moreover from h have "\<not> tp_continuity_gap (mt_pin t)" by blast
  ultimately show ?thesis using r by blast
qed

text \<open>A recovered history is the only one. However a server cuts the pages, two recoveries from one pin to one pending
  manifest give the same records and the same new pin, unless among the manifests recorded are two with different
  signed bytes and one SHA-256.\<close>

theorem recovered_history_is_determined:
  assumes "lower_hex_law x" "hex_law x" "verify_manifest_history x peer pages prior pending = Inr (t, rs)"
    "verify_manifest_history x peer pages' prior pending = Inr (t', rs')"
  shows "t = t' \<and> rs = rs' \<or>
    (\<exists>r\<in>set rs. \<exists>s\<in>set rs'. \<exists>b c. manifest_signing_bytes x (hr_manifest r) = Inr b \<and>
       manifest_signing_bytes x (hr_manifest s) = Inr c \<and>
       sha_clash x (b @ bytes_of_string (mn_signature (hr_manifest r))) (c @ bytes_of_string (mn_signature (hr_manifest s))))"
  using history_unique [OF assms] by (auto simp: manifest_clash_def)

lemma recovered_history_is_determined_witness:
  "\<exists>t rs t' rs'.
     verify_manifest_history demo_manifest_ext demo_peer [demo_page 1 [demo_manifest_1, demo_manifest_2] None] None demo_manifest_2 = Inr (t, rs) \<and>
     verify_manifest_history demo_manifest_ext demo_peer [demo_page 1 [demo_manifest_1] (Some 2), demo_page 2 [demo_manifest_2] None]
       None demo_manifest_2 = Inr (t', rs') \<and>
     (t = t' \<and> rs = rs' \<or> (\<exists>r\<in>set rs. \<exists>s\<in>set rs'. \<exists>b c. manifest_signing_bytes demo_manifest_ext (hr_manifest r) = Inr b \<and>
       manifest_signing_bytes demo_manifest_ext (hr_manifest s) = Inr c \<and>
       sha_clash demo_manifest_ext (b @ bytes_of_string (mn_signature (hr_manifest r)))
         (c @ bytes_of_string (mn_signature (hr_manifest s)))))"
proof -
  from demo_recovers(1) obtain t rs where
    a: "verify_manifest_history demo_manifest_ext demo_peer [demo_page 1 [demo_manifest_1, demo_manifest_2] None] None demo_manifest_2 = Inr (t, rs)"
    by force
  from demo_recovers(2) obtain t' rs' where
    b: "verify_manifest_history demo_manifest_ext demo_peer [demo_page 1 [demo_manifest_1] (Some 2), demo_page 2 [demo_manifest_2] None]
       None demo_manifest_2 = Inr (t', rs')" by force
  from recovered_history_is_determined [OF demo_lower_hex_law demo_manifest_laws(3) a b] a b show ?thesis by blast
qed

text \<open>C20: An honest account is always followed. Whatever devices it lists and however often its identity changes, the
  manifests an account signs one after the other with its own keys are each accepted by a client that sees them in
  order: it ends with the pin of the newest one, trusted on first use and without a gap.\<close>

theorem own_chain_is_trusted:
  assumes "std_law x" "identity_law x" "account_valid account" "own_chain x k account ms"
  shows "\<exists>t. follow_manifests x (account_ref_to_string account) None (rev ms) = Inr (Some t) \<and>
    tp_account (mt_pin t) = account_ref_to_string account \<and> tp_authority_key_id (mt_pin t) = key_id x k \<and>
    tp_highest_sequence (mt_pin t) = mn_sequence (hd ms) \<and> manifest_hash x (hd ms) = Inr (tp_manifest_hash (mt_pin t)) \<and>
    tp_identity_key (mt_pin t) = mn_identity_key (hd ms) \<and> tp_trust (mt_pin t) = Tofu \<and> \<not> tp_continuity_gap (mt_pin t)"
  using own_chain_followed [OF assms] unfolding pin_current_def by blast

lemma own_chain_is_trusted_witness:
  "\<exists>t. follow_manifests demo_manifest_ext demo_peer None [demo_manifest_1, demo_manifest_2] = Inr (Some t) \<and>
     tp_highest_sequence (mt_pin t) = 2 \<and> \<not> tp_continuity_gap (mt_pin t)"
  using own_chain_is_trusted [OF demo_manifest_laws(1,4) demo_account_ok(1) demo_own_chain]
  by (auto simp: demo_peer_def demo_manifest_fields)

text \<open>C21: The distribution of a new identity reaches exactly the account's devices. The request validates if and only if
  its manifest verifies and lists the new identity, the sending device is listed, the keys it distributes are, in
  order, one per listed device with that device's registration id and a signed prekey, and its messages are, in order,
  one per listed device but the sender: no device is left behind and none is added.\<close>

theorem distribution_is_exact:
  "distribution_validate x d sender = Inr () \<longleftrightarrow>
     (let m = ds_manifest d
      in manifest_verify x m = Inr () \<and> ds_identity_key d = mn_identity_key m \<and>
         sender \<in> set (map md_device_id (mn_devices m)) \<and>
         map (\<lambda>k. (di_device_id k, di_registration_id k)) (ds_devices d) =
           map (\<lambda>l. (md_device_id l, md_registration_id l)) (mn_devices m) \<and>
         map oe_device_id (ds_messages d) = filter (\<lambda>i. i \<noteq> sender) (map md_device_id (mn_devices m)) \<and>
         list_all (\<lambda>k. ep_signature (di_signed k) \<noteq> None) (ds_devices d))"
  unfolding distribution_exact by (simp add: list_all_iff)

end
