(* ===== verification/Calendar_Times.thy ===== *)
theory Calendar_Times
  imports Names
begin

text \<open>
  The times of calendar events (\<open>EventTime\<close>, \<open>time_zone\<close> and \<open>TimeV1\<close> of
  \<open>kutup-crypto/src/calendar_event.rs\<close>), over the date library the program calls.  A civil date is its day number
  from 1970-01-01, a wall-clock time the nanoseconds from the midnight that starts that day on the same clock,
  an instant the nanoseconds from the Unix epoch; so the library's orders are those of the integers.
\<close>

section \<open>The date library\<close>

text \<open>Days of the week, and what the program calls of \<open>jiff\<close>: \<open>None\<close> is its error.\<close>

datatype weekday = Monday | Tuesday | Wednesday | Thursday | Friday | Saturday | Sunday

record calendar_ext =
  jf_new :: "int \<Rightarrow> int \<Rightarrow> int \<Rightarrow> int option"                    \<comment> \<open>\<open>Date::new(year, month, day)\<close>\<close>
  jf_year :: "int \<Rightarrow> int"
  jf_month :: "int \<Rightarrow> int"
  jf_day :: "int \<Rightarrow> int"
  jf_days_in_month :: "int \<Rightarrow> int"
  jf_days_in_year :: "int \<Rightarrow> int"
  jf_weekday :: "int \<Rightarrow> weekday"
  jf_nth_weekday_of_month :: "int \<Rightarrow> int \<Rightarrow> weekday \<Rightarrow> int option"
  jf_with_day_of_year :: "int \<Rightarrow> int \<Rightarrow> int option"              \<comment> \<open>\<open>with().day_of_year(n).build()\<close>\<close>
  jf_add_days :: "int \<Rightarrow> int \<Rightarrow> int option"                      \<comment> \<open>\<open>checked_add\<close> of days to a date\<close>
  jf_since :: "weekday \<Rightarrow> weekday \<Rightarrow> int"                        \<comment> \<open>\<open>Weekday::since\<close>\<close>
  jf_offset :: "weekday \<Rightarrow> int"                                \<comment> \<open>\<open>to_monday_zero_offset\<close>\<close>
  jf_zone_known :: "string \<Rightarrow> bool"                           \<comment> \<open>\<open>tz::db().get\<close>\<close>
  jf_zoned :: "string \<Rightarrow> int \<Rightarrow> int option"                     \<comment> \<open>the instant of a wall-clock time in a zone\<close>
  jf_zone_local :: "string \<Rightarrow> int \<Rightarrow> int"                       \<comment> \<open>the wall-clock time of an instant in a zone\<close>
  jf_utc :: "int \<Rightarrow> int option"                               \<comment> \<open>the instant of a wall-clock time in UTC\<close>
  jf_utc_local :: "int \<Rightarrow> int"                                \<comment> \<open>the wall-clock time of an instant in UTC\<close>
  jf_add_local :: "int \<Rightarrow> int \<Rightarrow> int option"                     \<comment> \<open>\<open>DateTime::checked_add\<close> of a duration\<close>
  jf_add_instant :: "int \<Rightarrow> int \<Rightarrow> int option"                   \<comment> \<open>\<open>Timestamp::checked_add\<close> of a duration\<close>
  jf_from_second :: "int \<Rightarrow> int option"
  jf_instant_min :: int
  jf_date_text :: "int \<Rightarrow> string"                             \<comment> \<open>\<open>%Y%m%d\<close>\<close>
  jf_read_date :: "string \<Rightarrow> int option"
  jf_local_text :: "int \<Rightarrow> string"                            \<comment> \<open>\<open>%Y%m%dT%H%M%S\<close>\<close>
  jf_read_local :: "string \<Rightarrow> int option"
  jf_instant_text :: "int \<Rightarrow> string"                          \<comment> \<open>\<open>%Y%m%dT%H%M%SZ\<close>\<close>
  jf_parse_date :: "string \<Rightarrow> int option"                     \<comment> \<open>\<open>FromStr\<close> and \<open>Display\<close>\<close>
  jf_show_date :: "int \<Rightarrow> string"
  jf_parse_local :: "string \<Rightarrow> int option"
  jf_show_local :: "int \<Rightarrow> string"                            \<comment> \<open>\<open>%Y-%m-%dT%H:%M:%S\<close>\<close>
  jf_parse_instant :: "string \<Rightarrow> int option"
  jf_show_instant :: "int \<Rightarrow> string"
  rs_debug :: "string \<Rightarrow> string"                              \<comment> \<open>\<open>{:?}\<close> of a string\<close>

type_synonym 'a calendar_scheme = "'a calendar_ext_scheme"

definition day_ns :: int where "day_ns = 86400 * 1000000000"

definition date_of :: "int \<Rightarrow> int" where "date_of local = local div day_ns"
definition time_of :: "int \<Rightarrow> int" where "time_of local = local mod day_ns"
definition at_time :: "int \<Rightarrow> int \<Rightarrow> int" where "at_time date time = date * day_ns + time"

lemma day_ns_pos [simp]: "0 < day_ns" "day_ns \<noteq> 0"
  by (simp_all add: day_ns_def)

lemma time_of_bounds [simp]: "0 \<le> time_of l" "time_of l < day_ns"
  by (simp_all add: time_of_def)

lemma date_of_at_time [simp]: "0 \<le> t \<Longrightarrow> t < day_ns \<Longrightarrow> date_of (at_time d t) = d"
  by (simp add: date_of_def at_time_def)

lemma time_of_at_time [simp]: "0 \<le> t \<Longrightarrow> t < day_ns \<Longrightarrow> time_of (at_time d t) = t"
  by (simp add: time_of_def at_time_def)

lemma at_time_of [simp]: "at_time (date_of l) (time_of l) = l"
  by (simp add: date_of_def time_of_def at_time_def)

lemma at_time_less_iff [simp]: "at_time d t < at_time d' t \<longleftrightarrow> d < d'"
  by (simp add: at_time_def)

lemma at_time_eq_iff [simp]: "at_time d t = at_time d' t \<longleftrightarrow> d = d'"
  by (simp add: at_time_def)

section \<open>Event times\<close>

datatype event_time = EDate int | EZoned int string | EUtc int

definition is_graphic :: "char \<Rightarrow> bool" where
  "is_graphic c \<longleftrightarrow> CHR ''!'' \<le> c \<and> c \<le> CHR ''~''"

text \<open>\<open>Ok\<close> stands for the zone itself, which its name determines.\<close>

definition time_zone :: "'a calendar_scheme \<Rightarrow> string \<Rightarrow> crypto_error + unit" where
  "time_zone k tzid =
     bindr (require (\<not> (tzid = [] \<or> length tzid > 64 \<or> \<not> list_all is_graphic tzid)) (InvalidInput ''time zone name is invalid'')) (\<lambda>_.
     require (jf_zone_known k tzid) (InvalidInput (''unknown time zone '' @ rs_debug k tzid)))"

definition instant :: "'a calendar_scheme \<Rightarrow> event_time \<Rightarrow> crypto_error + int" where
  "instant k t = (case t of
     EDate date \<Rightarrow> ok_or (jf_utc k (at_time date 0)) (InvalidInput ''date out of range'')
   | EZoned local tzid \<Rightarrow>
       bindr (time_zone k tzid) (\<lambda>_. ok_or (jf_zoned k tzid local) (InvalidInput ''time out of range''))
   | EUtc i \<Rightarrow> Inr i)"

fun is_date :: "event_time \<Rightarrow> bool" where
  "is_date (EDate _) = True"
| "is_date _ = False"

fun tzid :: "event_time \<Rightarrow> string option" where
  "tzid (EDate _) = None"
| "tzid (EZoned _ z) = Some z"
| "tzid (EUtc _) = Some ''UTC''"

definition write_time :: "'a calendar_scheme \<Rightarrow> event_time \<Rightarrow> string \<Rightarrow> string" where
  "write_time k t name = (case t of
     EDate date \<Rightarrow> name @ '';VALUE=DATE:'' @ jf_date_text k date
   | EZoned local z \<Rightarrow> name @ '';TZID='' @ z @ '':'' @ jf_local_text k local
   | EUtc i \<Rightarrow> name @ '':'' @ jf_instant_text k i)"

definition utc_to_local :: "'a calendar_scheme \<Rightarrow> string \<Rightarrow> string \<Rightarrow> crypto_error + string" where
  "utc_to_local k i z =
     bindr (ok_or (jf_parse_instant k i) (InvalidInput ''instant is invalid'')) (\<lambda>i.
     bindr (time_zone k z) (\<lambda>_. Inr (jf_show_local k (jf_zone_local k z i))))"

definition local_to_utc :: "'a calendar_scheme \<Rightarrow> string \<Rightarrow> string \<Rightarrow> crypto_error + string" where
  "local_to_utc k l z =
     bindr (ok_or (jf_parse_local k l) (InvalidInput ''time is invalid'')) (\<lambda>l.
     bindr (instant k (EZoned l z)) (\<lambda>i. Inr (jf_show_instant k i)))"

text \<open>The wall-clock time an event time names (a date at midnight), from \<open>calendar_recurrence.rs\<close>.\<close>

definition local_of :: "'a calendar_scheme \<Rightarrow> event_time \<Rightarrow> int" where
  "local_of k t = (case t of EDate date \<Rightarrow> at_time date 0 | EZoned local _ \<Rightarrow> local | EUtc i \<Rightarrow> jf_utc_local k i)"

section \<open>Times as a client sends them\<close>

datatype time_v1 = TDate string | TZoned string string | TUtc string

definition to_time :: "'a calendar_scheme \<Rightarrow> time_v1 \<Rightarrow> crypto_error + event_time" where
  "to_time k t = (let invalid = InvalidInput ''time is invalid'' in case t of
     TDate date \<Rightarrow> bindr (ok_or (jf_parse_date k date) invalid) (\<lambda>d. Inr (EDate d))
   | TZoned local z \<Rightarrow>
       bindr (time_zone k z) (\<lambda>_. bindr (ok_or (jf_parse_local k local) invalid) (\<lambda>l. Inr (EZoned l z)))
   | TUtc i \<Rightarrow> bindr (ok_or (jf_parse_instant k i) invalid) (\<lambda>i. Inr (EUtc i)))"

definition time_v1_of :: "'a calendar_scheme \<Rightarrow> event_time \<Rightarrow> time_v1" where
  "time_v1_of k t = (case t of
     EDate date \<Rightarrow> TDate (jf_show_date k date)
   | EZoned local z \<Rightarrow> TZoned (jf_show_local k local) z
   | EUtc i \<Rightarrow> TUtc (jf_show_instant k i))"

end
