(* ===== verification/Calendar_Rule.thy ===== *)
theory Calendar_Rule
  imports Calendar_Times
begin

text \<open>
  Recurrence rules (\<open>kutup-crypto/src/calendar_recurrence.rs\<close>): Proton's subset of RFC 5545's \<open>RRULE\<close>, read from
  the text others write, checked, and written in one canonical form.  Numbers of the rule are integers; the
  widths their types fix (\<open>u16\<close>, \<open>i8\<close>, \<open>i16\<close>) are the bounds \<open>number\<close> reads them with.
\<close>

section \<open>Rules\<close>

definition max_count :: int where "max_count = 499"
definition max_interval_daily :: int where "max_interval_daily = 999"
definition max_interval_weekly :: int where "max_interval_weekly = 4999"
definition max_interval_monthly :: int where "max_interval_monthly = 999"
definition max_interval_yearly :: int where "max_interval_yearly = 99"
definition max_rule_len :: nat where "max_rule_len = 256"

text \<open>\<open>civil::date\<close> of two fixed dates, which exist.\<close>

definition first_date :: "'a calendar_scheme \<Rightarrow> int" where "first_date k = the (jf_new k 1970 1 1)"
definition last_date :: "'a calendar_scheme \<Rightarrow> int" where "last_date k = the (jf_new k 2037 12 31)"

datatype frequency = Daily | Weekly | Monthly | Yearly

fun frequency_name :: "frequency \<Rightarrow> string" where
  "frequency_name Daily = ''DAILY''"
| "frequency_name Weekly = ''WEEKLY''"
| "frequency_name Monthly = ''MONTHLY''"
| "frequency_name Yearly = ''YEARLY''"

fun max_interval :: "frequency \<Rightarrow> int" where
  "max_interval Daily = max_interval_daily"
| "max_interval Weekly = max_interval_weekly"
| "max_interval Monthly = max_interval_monthly"
| "max_interval Yearly = max_interval_yearly"

datatype until = UntilDate int | UntilUtc int

record rule =
  r_frequency :: frequency
  r_interval :: int
  r_count :: "int option"
  r_until :: "until option"
  r_by_day :: "weekday list"
  r_by_month_day :: "int option"
  r_by_month :: "int option"
  r_by_set_pos :: "int option"
  r_by_year_day :: "int option"
  r_wkst :: "weekday option"

definition weekdays :: "(weekday \<times> string) list" where
  "weekdays = [(Monday, ''MO''), (Tuesday, ''TU''), (Wednesday, ''WE''), (Thursday, ''TH''), (Friday, ''FR''),
     (Saturday, ''SA''), (Sunday, ''SU'')]"

definition rule_invalid :: "string \<Rightarrow> crypto_error" where
  "rule_invalid message = InvalidInput (''RRULE: '' @ message)"

definition weekday_name :: "weekday \<Rightarrow> string" where
  "weekday_name day = (case List.find (\<lambda>(d, _). d = day) weekdays of Some (_, name) \<Rightarrow> name | None \<Rightarrow> '''')"

definition weekday_of :: "'a calendar_scheme \<Rightarrow> string \<Rightarrow> crypto_error + weekday" where
  "weekday_of k name =
     ok_or (map_option fst (List.find (\<lambda>(_, n). n = name) weekdays)) (rule_invalid (rs_debug k name @ '' is not a day of the week''))"

section \<open>Reading parts\<close>

definition strip_sign :: "string \<Rightarrow> string" where
  "strip_sign value = (case value of c # cs \<Rightarrow> if c = CHR ''+'' \<or> c = CHR ''-'' then cs else value | [] \<Rightarrow> value)"

text \<open>\<open>number::<T>\<close>: the bounds are \<open>T\<close>'s; an unsigned \<open>T\<close> reads no minus sign, not even of zero.\<close>

definition number :: "int \<Rightarrow> int \<Rightarrow> string \<Rightarrow> string \<Rightarrow> crypto_error + int" where
  "number lo hi value part =
     (let digits = strip_sign value; negative = (value \<noteq> [] \<and> hd value = CHR ''-'');
          n = int (decimal_value digits); v = (if negative then - n else n)
      in bindr (require (\<not> (digits = [] \<or> length digits > 6 \<or> \<not> list_all is_digit digits)) (rule_invalid (part @ '' is not a number''))) (\<lambda>_.
         bindr (require (lo \<le> v \<and> v \<le> hi \<and> \<not> (negative \<and> 0 \<le> lo)) (rule_invalid (part @ '' is out of range''))) (\<lambda>_. Inr v)))"

definition number_u16 :: "string \<Rightarrow> string \<Rightarrow> crypto_error + int" where "number_u16 = number 0 65535"
definition number_i8 :: "string \<Rightarrow> string \<Rightarrow> crypto_error + int" where "number_i8 = number (- 128) 127"
definition number_i16 :: "string \<Rightarrow> string \<Rightarrow> crypto_error + int" where "number_i16 = number (- 32768) 32767"

definition single :: "string \<Rightarrow> string \<Rightarrow> crypto_error + string" where
  "single value part =
     bindr (require (CHR '','' \<notin> set value) (rule_invalid (part @ '' takes one value''))) (\<lambda>_. Inr value)"

definition read_until :: "'a calendar_scheme \<Rightarrow> string \<Rightarrow> crypto_error + until" where
  "read_until k value =
     (let bad = rule_invalid ''UNTIL is not a date or a UTC time''
      in if length value = 8 then bindr (ok_or (jf_read_date k value) bad) (\<lambda>d. Inr (UntilDate d))
         else if length value = 16 \<and> last value = CHR ''Z''
         then bindr (ok_or (Option.bind (jf_read_local k (take 15 value)) (jf_utc k)) bad) (\<lambda>i. Inr (UntilUtc i))
         else Inl bad)"

text \<open>What the loop over the parts keeps: the frequency, the rule so far, the names seen, an ordinal day.\<close>

record rule_reader =
  rr_frequency :: "frequency option"
  rr_rule :: rule
  rr_seen :: "string list"
  rr_ordinal :: "(int \<times> weekday) option"

definition frequency_of :: "string \<Rightarrow> crypto_error + frequency" where
  "frequency_of value =
     (if value = ''DAILY'' then Inr Daily else if value = ''WEEKLY'' then Inr Weekly
      else if value = ''MONTHLY'' then Inr Monthly else if value = ''YEARLY'' then Inr Yearly
      else Inl (rule_invalid (''FREQ='' @ value @ '' is not supported'')))"

fun read_days :: "'a calendar_scheme \<Rightarrow> string \<Rightarrow> string list \<Rightarrow> rule_reader \<Rightarrow> crypto_error + rule_reader" where
  "read_days k value [] s = Inr s"
| "read_days k value (day # days) s =
     (let at = length day - 2; ordinal = take at day
      in bindr (weekday_of k (drop at day)) (\<lambda>weekday.
         if ordinal = []
         then read_days k value days (s\<lparr>rr_rule := (rr_rule s)\<lparr>r_by_day := r_by_day (rr_rule s) @ [weekday]\<rparr>\<rparr>)
         else bindr (require (CHR '','' \<notin> set value) (rule_invalid ''an ordinal BYDAY takes one day'')) (\<lambda>_.
              bindr (number_i8 ordinal ''BYDAY'') (\<lambda>n.
              read_days k value days (s\<lparr>rr_ordinal := Some (n, weekday)\<rparr>)))))"

definition set_rule :: "(rule \<Rightarrow> rule) \<Rightarrow> rule_reader \<Rightarrow> rule_reader" where
  "set_rule f s = s\<lparr>rr_rule := f (rr_rule s)\<rparr>"

definition read_value :: "'a calendar_scheme \<Rightarrow> string \<Rightarrow> string \<Rightarrow> rule_reader \<Rightarrow> crypto_error + rule_reader" where
  "read_value k name value s =
     (if name = ''FREQ'' then bindr (frequency_of value) (\<lambda>f. Inr (s\<lparr>rr_frequency := Some f\<rparr>))
      else if name = ''INTERVAL'' then bindr (number_u16 value ''INTERVAL'') (\<lambda>n. Inr (set_rule (r_interval_update (\<lambda>_. n)) s))
      else if name = ''COUNT'' then bindr (number_u16 value ''COUNT'') (\<lambda>n. Inr (set_rule (r_count_update (\<lambda>_. Some n)) s))
      else if name = ''UNTIL'' then bindr (read_until k value) (\<lambda>u. Inr (set_rule (r_until_update (\<lambda>_. Some u)) s))
      else if name = ''WKST'' then bindr (weekday_of k value) (\<lambda>d. Inr (set_rule (r_wkst_update (\<lambda>_. Some d)) s))
      else if name = ''BYMONTHDAY''
      then bindr (single value name) (\<lambda>value. bindr (number_i8 value ''BYMONTHDAY'') (\<lambda>n.
           Inr (set_rule (r_by_month_day_update (\<lambda>_. Some n)) s)))
      else if name = ''BYMONTH''
      then bindr (single value name) (\<lambda>value. bindr (number_i8 value ''BYMONTH'') (\<lambda>n.
           Inr (set_rule (r_by_month_update (\<lambda>_. Some n)) s)))
      else if name = ''BYSETPOS''
      then bindr (single value name) (\<lambda>value. bindr (number_i8 value ''BYSETPOS'') (\<lambda>n.
           Inr (set_rule (r_by_set_pos_update (\<lambda>_. Some n)) s)))
      else if name = ''BYYEARDAY''
      then bindr (single value name) (\<lambda>value. bindr (number_i16 value ''BYYEARDAY'') (\<lambda>n.
           Inr (set_rule (r_by_year_day_update (\<lambda>_. Some n)) s)))
      else if name = ''BYDAY'' then read_days k value (split_on (CHR '','') value) s
      else Inl (rule_invalid (name @ '' is not supported'')))"

fun read_parts :: "'a calendar_scheme \<Rightarrow> string list \<Rightarrow> rule_reader \<Rightarrow> crypto_error + rule_reader" where
  "read_parts k [] s = Inr s"
| "read_parts k (part # parts) s =
     bindr (ok_or (split_once (CHR ''='') part) (rule_invalid (rs_debug k part @ '' has no value''))) (\<lambda>(name, value).
     bindr (require (value \<noteq> []) (rule_invalid (name @ '' has no value''))) (\<lambda>_.
     bindr (require (name \<notin> set (rr_seen s)) (rule_invalid (name @ '' appears twice''))) (\<lambda>_.
     bindr (read_value k name value (s\<lparr>rr_seen := rr_seen s @ [name]\<rparr>)) (\<lambda>s. read_parts k parts s))))"

section \<open>The checks of a rule on its own\<close>

definition check_month_day :: "int \<Rightarrow> crypto_error + unit" where
  "check_month_day day =
     require (\<not> (day = 0 \<or> \<not> (- 31 \<le> day \<and> day \<le> 31))) (rule_invalid ''BYMONTHDAY is 1 to 31 or -31 to -1'')"

definition optionally :: "('b \<Rightarrow> 'e + unit) \<Rightarrow> 'b option \<Rightarrow> 'e + unit" where
  "optionally check v = (case v of None \<Rightarrow> Inr () | Some x \<Rightarrow> check x)"

lemma optionally_Inr [simp]: "optionally f v = Inr u \<longleftrightarrow> (\<forall>x. v = Some x \<longrightarrow> f x = Inr ())"
  by (cases v) (simp_all add: optionally_def)

definition until_date :: "'a calendar_scheme \<Rightarrow> until \<Rightarrow> int" where
  "until_date k u = (case u of UntilDate d \<Rightarrow> d | UntilUtc i \<Rightarrow> date_of (jf_utc_local k i))"

definition check_by_parts :: "rule \<Rightarrow> crypto_error + unit" where
  "check_by_parts r = (case r_frequency r of
     Daily \<Rightarrow>
       require (\<not> (r_by_day r \<noteq> [] \<or> r_by_month_day r \<noteq> None \<or> r_by_month r \<noteq> None \<or> r_by_set_pos r \<noteq> None \<or>
           r_by_year_day r \<noteq> None)) (rule_invalid ''a DAILY rule takes no BY parts'')
   | Weekly \<Rightarrow>
       require (\<not> (r_by_month_day r \<noteq> None \<or> r_by_month r \<noteq> None \<or> r_by_set_pos r \<noteq> None \<or> r_by_year_day r \<noteq> None))
         (rule_invalid ''a WEEKLY rule takes BYDAY only'')
   | Monthly \<Rightarrow>
       bindr (require (\<not> (r_by_month r \<noteq> None \<or> r_by_year_day r \<noteq> None)) (rule_invalid ''a MONTHLY rule takes no BYMONTH or BYYEARDAY'')) (\<lambda>_.
       bindr (case (r_by_day r, r_by_set_pos r) of
           ([], None) \<Rightarrow> Inr ()
         | ([_], Some pos) \<Rightarrow>
             bindr (require (pos \<in> {- 1, 1, 2, 3, 4}) (rule_invalid ''BYSETPOS is 1 to 4 or -1'')) (\<lambda>_.
             require (r_by_month_day r = None) (rule_invalid ''BYDAY and BYMONTHDAY together''))
         | _ \<Rightarrow> Inl (rule_invalid ''a MONTHLY BYDAY is one day with its position'')) (\<lambda>_.
       optionally check_month_day (r_by_month_day r)))
   | Yearly \<Rightarrow>
       bindr (require (\<not> (r_by_day r \<noteq> [] \<or> r_by_set_pos r \<noteq> None)) (rule_invalid ''a YEARLY rule takes no BYDAY or BYSETPOS'')) (\<lambda>_.
       bindr (require (\<not> (r_by_month_day r \<noteq> None \<and> r_by_month r = None)) (rule_invalid ''BYMONTHDAY needs BYMONTH in a YEARLY rule'')) (\<lambda>_.
       bindr (optionally (\<lambda>month. require (1 \<le> month \<and> month \<le> 12) (rule_invalid ''BYMONTH is 1 to 12'')) (r_by_month r)) (\<lambda>_.
       bindr (optionally check_month_day (r_by_month_day r)) (\<lambda>_.
       optionally (\<lambda>day.
         bindr (require (\<not> (day = 0 \<or> \<not> (- 366 \<le> day \<and> day \<le> 366))) (rule_invalid ''BYYEARDAY is 1 to 366 or -366 to -1'')) (\<lambda>_.
         require (r_by_month r = None) (rule_invalid ''BYYEARDAY and BYMONTH together''))) (r_by_year_day r))))))"

definition check_shape :: "'a calendar_scheme \<Rightarrow> rule \<Rightarrow> crypto_error + unit" where
  "check_shape k r =
     bindr (require (\<not> (r_interval r = 0 \<or> r_interval r > max_interval (r_frequency r))) (rule_invalid ''INTERVAL is out of range'')) (\<lambda>_.
     bindr (optionally (\<lambda>count. require (\<not> (count = 0 \<or> count > max_count)) (rule_invalid ''COUNT is out of range'')) (r_count r)) (\<lambda>_.
     bindr (require (\<not> (r_count r \<noteq> None \<and> r_until r \<noteq> None)) (rule_invalid ''COUNT and UNTIL together'')) (\<lambda>_.
     bindr (optionally (\<lambda>u. require (\<not> (until_date k u > last_date k \<or> until_date k u < first_date k))
         (rule_invalid ''UNTIL is out of range'')) (r_until r)) (\<lambda>_.
     check_by_parts r))))"

section \<open>Reading and writing\<close>

definition rule_char :: "char \<Rightarrow> bool" where
  "rule_char c \<longleftrightarrow> is_alphanumeric c \<or> c \<in> set ''=;,-+''"

definition empty_rule :: rule where
  "empty_rule = \<lparr>r_frequency = Daily, r_interval = 1, r_count = None, r_until = None, r_by_day = [], r_by_month_day = None,
     r_by_month = None, r_by_set_pos = None, r_by_year_day = None, r_wkst = None\<rparr>"

definition empty_reader :: rule_reader where
  "empty_reader = \<lparr>rr_frequency = None, rr_rule = empty_rule, rr_seen = [], rr_ordinal = None\<rparr>"

text \<open>After the parts: an ordinal day becomes a position, the days are put in one order, a week start that
  changes nothing is dropped.\<close>

definition ordinal_day :: "rule_reader \<Rightarrow> rule \<Rightarrow> crypto_error + rule" where
  "ordinal_day s r = (case rr_ordinal s of
     None \<Rightarrow> Inr r
   | Some (ordinal, weekday) \<Rightarrow>
       bindr (require (r_by_set_pos r = None) (rule_invalid ''BYDAY has an ordinal and BYSETPOS is given'')) (\<lambda>_.
       Inr (r\<lparr>r_by_day := [weekday], r_by_set_pos := Some ordinal\<rparr>)))"

definition drop_wkst :: "rule \<Rightarrow> rule" where
  "drop_wkst r =
     (if r_wkst r = Some Monday \<or> \<not> (r_frequency r = Weekly \<and> r_by_day r \<noteq> []) then r\<lparr>r_wkst := None\<rparr> else r)"

definition normal_rule :: "'a calendar_scheme \<Rightarrow> rule \<Rightarrow> crypto_error + rule" where
  "normal_rule k r =
     (let days = sort_key (jf_offset k) (r_by_day r)
      in bindr (require (length (remdups_adj days) = length days) (rule_invalid ''BYDAY names a day twice'')) (\<lambda>_.
         let r = drop_wkst (r\<lparr>r_by_day := remdups_adj days\<rparr>)
         in bindr (check_shape k r) (\<lambda>_. Inr r)))"

definition finish_rule :: "'a calendar_scheme \<Rightarrow> rule_reader \<Rightarrow> crypto_error + rule" where
  "finish_rule k s =
     bindr (ok_or (rr_frequency s) (rule_invalid ''FREQ is missing'')) (\<lambda>frequency.
     bindr (ordinal_day s ((rr_rule s)\<lparr>r_frequency := frequency\<rparr>)) (normal_rule k))"

definition read_rule :: "'a calendar_scheme \<Rightarrow> string \<Rightarrow> crypto_error + rule" where
  "read_rule k text =
     bindr (require (\<not> (text = [] \<or> length text > max_rule_len)) (rule_invalid ''empty or too long'')) (\<lambda>_.
     bindr (require (list_all rule_char text) (rule_invalid ''characters outside RFC 5545's recur syntax'')) (\<lambda>_.
     bindr (read_parts k (split_on (CHR '';'') text) empty_reader) (finish_rule k)))"

definition show_int :: "int \<Rightarrow> string" where
  "show_int i = (if i < 0 then CHR ''-'' # decimal (nat (- i)) else decimal (nat i))"

fun joined :: "string \<Rightarrow> string list \<Rightarrow> string" where
  "joined d [] = []"
| "joined d [x] = x"
| "joined d (x # y # xs) = x @ d @ joined d (y # xs)"

definition until_text :: "'a calendar_scheme \<Rightarrow> until \<Rightarrow> string" where
  "until_text k u = (case u of UntilDate d \<Rightarrow> jf_date_text k d | UntilUtc i \<Rightarrow> jf_instant_text k i)"

text \<open>The parts written, each a name and a value, in the canonical order.\<close>

definition rule_parts :: "'a calendar_scheme \<Rightarrow> rule \<Rightarrow> (string \<times> string) list" where
  "rule_parts k r =
     [(''FREQ'', frequency_name (r_frequency r))] @
     (case r_count r of Some count \<Rightarrow> [(''COUNT'', show_int count)] | None \<Rightarrow> []) @
     (case r_until r of Some u \<Rightarrow> [(''UNTIL'', until_text k u)] | None \<Rightarrow> []) @
     (if r_interval r \<noteq> 1 then [(''INTERVAL'', show_int (r_interval r))] else []) @
     (case r_by_set_pos r of Some pos \<Rightarrow> [(''BYSETPOS'', show_int pos)] | None \<Rightarrow> []) @
     (if r_by_day r \<noteq> [] then [(''BYDAY'', joined '','' (map weekday_name (r_by_day r)))] else []) @
     (case r_by_month_day r of Some day \<Rightarrow> [(''BYMONTHDAY'', show_int day)] | None \<Rightarrow> []) @
     (case r_by_month r of Some month \<Rightarrow> [(''BYMONTH'', show_int month)] | None \<Rightarrow> []) @
     (case r_by_year_day r of Some day \<Rightarrow> [(''BYYEARDAY'', show_int day)] | None \<Rightarrow> []) @
     (case r_wkst r of Some day \<Rightarrow> [(''WKST'', weekday_name day)] | None \<Rightarrow> [])"

definition write_rule :: "'a calendar_scheme \<Rightarrow> rule \<Rightarrow> string" where
  "write_rule k r = joined '';'' (map (\<lambda>(name, value). name @ ''='' @ value) (rule_parts k r))"

definition parse_rule :: "'a calendar_scheme \<Rightarrow> string \<Rightarrow> crypto_error + rule" where
  "parse_rule k text =
     bindr (read_rule k text) (\<lambda>r.
     bindr (require (write_rule k r = text) (rule_invalid ''not in its canonical form'')) (\<lambda>_. Inr r))"

section \<open>The end a client writes\<close>

definition supported_until :: "'a calendar_scheme \<Rightarrow> event_time \<Rightarrow> int \<Rightarrow> crypto_error + until" where
  "supported_until k start until =
     (let day = max until (date_of (local_of k start)); end_of_day = at_time day (86399 * 1000000000)
      in case start of
        EDate _ \<Rightarrow> Inr (UntilDate day)
      | EZoned _ z \<Rightarrow>
          bindr (time_zone k z) (\<lambda>_.
          bindr (ok_or (jf_zoned k z end_of_day) (rule_invalid ''UNTIL is out of range'')) (\<lambda>i. Inr (UntilUtc i)))
      | EUtc _ \<Rightarrow> bindr (ok_or (jf_utc k end_of_day) (rule_invalid ''UNTIL is out of range'')) (\<lambda>i. Inr (UntilUtc i)))"

section \<open>Rules as a client sends them\<close>

record rule_v1 =
  v_frequency :: frequency
  v_interval :: int
  v_count :: "int option"
  v_until :: "time_v1 option"
  v_by_day :: "string list"
  v_by_month_day :: "int option"
  v_by_month :: "int option"
  v_by_set_pos :: "int option"
  v_by_year_day :: "int option"
  v_wkst :: "string option"

definition until_v1 :: "'a calendar_scheme \<Rightarrow> time_v1 \<Rightarrow> crypto_error + until" where
  "until_v1 k t = (case t of
     TDate date \<Rightarrow> bindr (ok_or (jf_parse_date k date) (rule_invalid ''UNTIL is not a date'')) (\<lambda>d. Inr (UntilDate d))
   | TUtc i \<Rightarrow> bindr (ok_or (jf_parse_instant k i) (rule_invalid ''UNTIL is not an instant'')) (\<lambda>i. Inr (UntilUtc i))
   | TZoned _ _ \<Rightarrow> Inl (rule_invalid ''UNTIL is a date or a UTC instant''))"

definition transpose :: "('b \<Rightarrow> 'e + 'c) \<Rightarrow> 'b option \<Rightarrow> 'e + 'c option" where
  "transpose f v = (case v of None \<Rightarrow> Inr None | Some x \<Rightarrow> bindr (f x) (\<lambda>y. Inr (Some y)))"

definition to_rule :: "'a calendar_scheme \<Rightarrow> rule_v1 \<Rightarrow> crypto_error + rule" where
  "to_rule k v =
     bindr (transpose (until_v1 k) (v_until v)) (\<lambda>until.
     bindr (collectr (weekday_of k) (v_by_day v)) (\<lambda>by_day.
     bindr (transpose (weekday_of k) (v_wkst v)) (\<lambda>wkst.
     read_rule k (write_rule k
       \<lparr>r_frequency = v_frequency v, r_interval = v_interval v, r_count = v_count v, r_until = until, r_by_day = by_day,
        r_by_month_day = v_by_month_day v, r_by_month = v_by_month v, r_by_set_pos = v_by_set_pos v,
        r_by_year_day = v_by_year_day v, r_wkst = wkst\<rparr>))))"

definition to_text :: "'a calendar_scheme \<Rightarrow> rule_v1 \<Rightarrow> crypto_error + string" where
  "to_text k v = bindr (to_rule k v) (\<lambda>r. Inr (write_rule k r))"

definition until_to_v1 :: "'a calendar_scheme \<Rightarrow> until \<Rightarrow> time_v1" where
  "until_to_v1 k u = (case u of UntilDate d \<Rightarrow> TDate (jf_show_date k d) | UntilUtc i \<Rightarrow> TUtc (jf_show_instant k i))"

definition rule_v1_of :: "'a calendar_scheme \<Rightarrow> rule \<Rightarrow> rule_v1" where
  "rule_v1_of k r =
     \<lparr>v_frequency = r_frequency r, v_interval = r_interval r, v_count = r_count r,
      v_until = map_option (until_to_v1 k) (r_until r), v_by_day = map weekday_name (r_by_day r),
      v_by_month_day = r_by_month_day r, v_by_month = r_by_month r, v_by_set_pos = r_by_set_pos r,
      v_by_year_day = r_by_year_day r, v_wkst = map_option weekday_name (r_wkst r)\<rparr>"

definition supported_until_v1 :: "'a calendar_scheme \<Rightarrow> time_v1 \<Rightarrow> string \<Rightarrow> crypto_error + time_v1" where
  "supported_until_v1 k start date =
     bindr (ok_or (jf_parse_date k date) (rule_invalid ''UNTIL is not a date'')) (\<lambda>date.
     bindr (to_time k start) (\<lambda>start. bindr (supported_until k start date) (\<lambda>u. Inr (until_to_v1 k u))))"

end
