(* ===== verification/Calendar_Series.thy ===== *)
theory Calendar_Series
  imports Calendar_Rule "HOL-Library.Product_Lexorder" "HOL-Library.Option_ord"
begin

text \<open>
  Series of occurrences (\<open>kutup-crypto/src/calendar_recurrence.rs\<close>): the dates of a rule's periods, the walk over
  them, and what clients and servers ask of a series.  An iterator is the list it yields.  The walk is a loop
  that ends only because dates do; it is a partial function, whose \<open>None\<close> is a walk that never ends or a panic
  of the date library, and that a checked series' walk always ends is proved.
\<close>

section \<open>The dates of a period\<close>

text \<open>A n of days as a span, which panics beyond its range; a checked product of \<open>i64\<close>; \<open>i16::try_from\<close>.\<close>

definition days_span :: "int \<Rightarrow> int option" where
  "days_span n = (if \<bar>n\<bar> \<le> 7304484 then Some n else None)"

definition mul_i64 :: "int \<Rightarrow> int \<Rightarrow> int option" where
  "mul_i64 a b = (if - (2 ^ 63) \<le> a * b \<and> a * b < 2 ^ 63 then Some (a * b) else None)"

definition to_i16 :: "int \<Rightarrow> int option" where
  "to_i16 n = (if - 32768 \<le> n \<and> n \<le> 32767 then Some n else None)"

definition list_of_option :: "'b option \<Rightarrow> 'b list" where
  "list_of_option v = (case v of None \<Rightarrow> [] | Some x \<Rightarrow> [x])"

definition from_end :: "int \<Rightarrow> int \<Rightarrow> int" where
  "from_end days day = (if day > 0 then day else days + 1 + day)"

definition day_of_month :: "'a calendar_scheme \<Rightarrow> int \<Rightarrow> int \<Rightarrow> int option" where
  "day_of_month k first day =
     (let days = jf_days_in_month k first; day = from_end days day
      in if day < 1 \<or> day > days then None else jf_new k (jf_year k first) (jf_month k first) day)"

definition rule_wkst :: "rule \<Rightarrow> weekday" where
  "rule_wkst r = (case r_wkst r of Some d \<Rightarrow> d | None \<Rightarrow> Monday)"

text \<open>Each frequency's dates in the period \<open>step\<close> units on: \<open>None\<close> once the period starts past the last date.\<close>

definition daily_dates :: "'a calendar_scheme \<Rightarrow> int \<Rightarrow> int \<Rightarrow> int list option option" where
  "daily_dates k base step =
     Option.bind (days_span step) (\<lambda>step. Some (Option.bind (jf_add_days k base step) (\<lambda>date.
       if date \<le> last_date k then Some [date] else None)))"

definition weekly_days :: "'a calendar_scheme \<Rightarrow> rule \<Rightarrow> int \<Rightarrow> weekday list" where
  "weekly_days k r base = (if r_by_day r = [] then [jf_weekday k base] else r_by_day r)"

definition weekly_dates :: "'a calendar_scheme \<Rightarrow> rule \<Rightarrow> int \<Rightarrow> int \<Rightarrow> int list option option" where
  "weekly_dates k r base step =
     (let wkst = rule_wkst r; behind = jf_since k (jf_weekday k base) wkst
      in case jf_add_days k base (- behind) of
        None \<Rightarrow> Some None
      | Some week \<Rightarrow>
          Option.bind (days_span (step * 7)) (\<lambda>days. Some (Option.bind (jf_add_days k week days) (\<lambda>week.
            if week > last_date k then None
            else Some (sort (List.map_filter (\<lambda>day. jf_add_days k week (jf_since k day wkst)) (weekly_days k r base)))))))"

definition monthly_dates :: "'a calendar_scheme \<Rightarrow> rule \<Rightarrow> int \<Rightarrow> int \<Rightarrow> int list option" where
  "monthly_dates k r base step =
     (let months = jf_year k base * 12 + (jf_month k base - 1) + step
      in Option.bind (to_i16 (months div 12)) (\<lambda>year.
         Option.bind (jf_new k year (months mod 12 + 1) 1) (\<lambda>first.
         if first > last_date k then None
         else Some (list_of_option
           (case (r_by_day r, r_by_set_pos r) of
             (day # _, Some pos) \<Rightarrow> jf_nth_weekday_of_month k first pos day
           | _ \<Rightarrow> day_of_month k first (case r_by_month_day r of Some day \<Rightarrow> day | None \<Rightarrow> jf_day k base))))))"

definition yearly_dates :: "'a calendar_scheme \<Rightarrow> rule \<Rightarrow> int \<Rightarrow> int \<Rightarrow> int list option" where
  "yearly_dates k r base step =
     Option.bind (to_i16 (jf_year k base + step)) (\<lambda>year.
     Option.bind (jf_new k year 1 1) (\<lambda>first.
     if first > last_date k then None
     else case r_by_year_day r of
       Some day \<Rightarrow>
         let days = jf_days_in_year k first; day = from_end days day
         in Some (list_of_option (if 1 \<le> day \<and> day \<le> days then jf_with_day_of_year k first day else None))
     | None \<Rightarrow>
         Option.bind (jf_new k year (case r_by_month r of Some month \<Rightarrow> month | None \<Rightarrow> jf_month k base) 1) (\<lambda>in_month.
         Some (list_of_option (day_of_month k in_month (case r_by_month_day r of Some day \<Rightarrow> day | None \<Rightarrow> jf_day k base))))))"

definition period_dates :: "'a calendar_scheme \<Rightarrow> rule \<Rightarrow> int \<Rightarrow> int \<Rightarrow> int list option option" where
  "period_dates k r base period =
     (case mul_i64 period (r_interval r) of
       None \<Rightarrow> Some None
     | Some step \<Rightarrow>
         (case r_frequency r of
           Daily \<Rightarrow> daily_dates k base step
         | Weekly \<Rightarrow> weekly_dates k r base step
         | Monthly \<Rightarrow> Some (monthly_dates k r base step)
         | Yearly \<Rightarrow> Some (yearly_dates k r base step)))"

definition week_of :: "'a calendar_scheme \<Rightarrow> weekday \<Rightarrow> int \<Rightarrow> int" where
  "week_of k wkst day = (case jf_add_days k day (- jf_since k (jf_weekday k day) wkst) of Some w \<Rightarrow> w | None \<Rightarrow> day)"

definition periods_between :: "'a calendar_scheme \<Rightarrow> rule \<Rightarrow> int \<Rightarrow> int \<Rightarrow> int" where
  "periods_between k r base date = (case r_frequency r of
     Daily \<Rightarrow> date - base
   | Weekly \<Rightarrow> (week_of k (rule_wkst r) date - week_of k (rule_wkst r) base) div 7
   | Monthly \<Rightarrow> (jf_year k date - jf_year k base) * 12 + (jf_month k date - jf_month k base)
   | Yearly \<Rightarrow> jf_year k date - jf_year k base)"

text \<open>Rust's quotients round to zero, here a floor; they differ below zero only, where the maximum is zero.\<close>

definition period_of :: "'a calendar_scheme \<Rightarrow> rule \<Rightarrow> int \<Rightarrow> int \<Rightarrow> int" where
  "period_of k r base date = max (periods_between k r base date div max (r_interval r) 1) 0"

section \<open>Series\<close>

datatype length_v = LDays int | LTime int

record series =
  se_start :: event_time
  se_rule :: "rule option"
  se_excluded :: "int list"
  se_length :: length_v

record occurrence =
  oc_start :: event_time
  oc_start_utc :: int
  oc_end_utc :: int
  oc_number :: nat

definition instant_of :: "'a calendar_scheme \<Rightarrow> event_time \<Rightarrow> int \<Rightarrow> int option" where
  "instant_of k start local = (case start of
     EZoned _ z \<Rightarrow> (case time_zone k z of Inl _ \<Rightarrow> None | Inr _ \<Rightarrow> jf_zoned k z local)
   | _ \<Rightarrow> jf_utc k local)"

definition past_until :: "'a calendar_scheme \<Rightarrow> rule \<Rightarrow> event_time \<Rightarrow> int \<Rightarrow> int \<Rightarrow> bool" where
  "past_until k r start date local = (case r_until r of
     Some (UntilDate day) \<Rightarrow> date > day
   | Some (UntilUtc i) \<Rightarrow> (case instant_of k start local of Some at \<Rightarrow> at > i | None \<Rightarrow> True)
   | None \<Rightarrow> False)"

text \<open>The loop of \<open>candidates_from\<close>: the period to come, the dates of the current one, how many were yielded.\<close>

partial_function (option) walk ::
  "'a calendar_scheme \<Rightarrow> rule \<Rightarrow> event_time \<Rightarrow> bool \<Rightarrow> int \<Rightarrow> int list \<Rightarrow> nat \<Rightarrow> (nat \<times> int) list option" where
  "walk k r start counted period pending n =
     (case pending of
       date # rest \<Rightarrow>
         if date < date_of (local_of k start) then walk k r start counted period rest n
         else
           let local = at_time date (time_of (local_of k start))
           in if past_until k r start date local \<or> date > last_date k then Some []
              else if \<not> counted
              then Option.bind (walk k r start counted period rest n) (\<lambda>xs. Some ((0, local) # xs))
              else if (case r_count r of Some count \<Rightarrow> int (Suc n) > count | None \<Rightarrow> False) then Some []
              else Option.bind (walk k r start counted period rest (Suc n)) (\<lambda>xs. Some ((Suc n, local) # xs))
     | [] \<Rightarrow>
         (case period_dates k r (date_of (local_of k start)) period of
           None \<Rightarrow> None
         | Some None \<Rightarrow> Some []
         | Some (Some dates) \<Rightarrow> walk k r start counted (period + 1) dates n))"

definition skips :: "series \<Rightarrow> bool" where
  "skips s \<longleftrightarrow> (case se_rule s of Some r \<Rightarrow> r_count r = None | None \<Rightarrow> False)"

definition first_period :: "'a calendar_scheme \<Rightarrow> series \<Rightarrow> rule \<Rightarrow> int option \<Rightarrow> int" where
  "first_period k s r from_date = (let base = date_of (local_of k (se_start s)) in
     case from_date of
       Some d \<Rightarrow> if skips s \<and> d > base then max (period_of k r base d - 1) 0 else 0
     | None \<Rightarrow> 0)"

definition candidates_from :: "'a calendar_scheme \<Rightarrow> series \<Rightarrow> int option \<Rightarrow> (nat \<times> int) list option" where
  "candidates_from k s from_date = (case se_rule s of
     None \<Rightarrow> Some [(1, local_of k (se_start s))]
   | Some r \<Rightarrow>
       let p = first_period k s r from_date in walk k r (se_start s) (p = 0) p [] 0)"

text \<open>One occurrence.  A length of the other kind panics in the code; no series that \<open>series_new\<close> makes has one.\<close>

definition make_occurrence :: "'a calendar_scheme \<Rightarrow> series \<Rightarrow> nat \<Rightarrow> int \<Rightarrow> crypto_error + occurrence" where
  "make_occurrence k s n local =
     (let out_of_range = InvalidInput ''an occurrence is out of range''
      in bindr (case (se_start s, se_length s) of
          (EDate _, LDays days) \<Rightarrow>
            let date = date_of local
            in bindr (ok_or (jf_add_days k date days) out_of_range) (\<lambda>e.
               bindr (instant k (EDate e)) (\<lambda>end_utc.
               bindr (instant k (EDate date)) (\<lambda>start_utc. Inr (EDate date, start_utc, end_utc))))
        | (EZoned _ z, LTime len) \<Rightarrow>
            bindr (time_zone k z) (\<lambda>_.
            bindr (ok_or (jf_zoned k z local) out_of_range) (\<lambda>start_utc.
            bindr (ok_or (jf_add_local k local len) out_of_range) (\<lambda>end_local.
            bindr (ok_or (jf_zoned k z end_local) out_of_range) (\<lambda>end_utc. Inr (EZoned local z, start_utc, end_utc)))))
        | (EUtc _, LTime len) \<Rightarrow>
            bindr (ok_or (jf_utc k local) out_of_range) (\<lambda>start_utc.
            bindr (ok_or (jf_add_instant k start_utc len) out_of_range) (\<lambda>end_utc. Inr (EUtc start_utc, start_utc, end_utc)))
        | _ \<Rightarrow> Inl (InvalidInput ''lengths follow the start's kind''))
        (\<lambda>(start, start_utc, end_utc).
          Inr \<lparr>oc_start = start, oc_start_utc = start_utc, oc_end_utc = max end_utc start_utc, oc_number = n\<rparr>))"

text \<open>\<open>excluded\<close> is sorted, so the binary search finds what is in it.\<close>

definition kept :: "'a calendar_scheme \<Rightarrow> series \<Rightarrow> (nat \<times> int) list \<Rightarrow> (crypto_error + occurrence) list" where
  "kept k s xs = map (\<lambda>(n, local). make_occurrence k s n local) (filter (\<lambda>(_, local). local \<notin> set (se_excluded s)) xs)"

definition occurrences :: "'a calendar_scheme \<Rightarrow> series \<Rightarrow> (crypto_error + occurrence) list option" where
  "occurrences k s = map_option (kept k s) (candidates_from k s None)"

definition occurrences_from_date :: "'a calendar_scheme \<Rightarrow> series \<Rightarrow> int \<Rightarrow> (crypto_error + occurrence) list option" where
  "occurrences_from_date k s date = map_option (kept k s) (candidates_from k s (Some date))"

definition occurrences_from :: "'a calendar_scheme \<Rightarrow> series \<Rightarrow> int \<Rightarrow> (crypto_error + occurrence) list option" where
  "occurrences_from k s from_second =
     (let at = (case jf_from_second k from_second of Some t \<Rightarrow> t | None \<Rightarrow> jf_instant_min k);
          local = (case se_start s of
              EZoned _ z \<Rightarrow> (case time_zone k z of Inr _ \<Rightarrow> jf_zone_local k z at | Inl _ \<Rightarrow> jf_utc_local k at)
            | _ \<Rightarrow> jf_utc_local k at);
          date = (case jf_add_days k (date_of local) (- 1) of Some d \<Rightarrow> d | None \<Rightarrow> first_date k)
      in occurrences_from_date k s date)"

section \<open>Building a series\<close>

definition max_exdates :: nat where "max_exdates = 500"

definition series_length :: "'a calendar_scheme \<Rightarrow> event_time \<Rightarrow> event_time option \<Rightarrow> crypto_error + length_v" where
  "series_length k start end_time = (case (start, end_time) of
     (EDate from_date, Some (EDate to_date)) \<Rightarrow>
       bindr (require (\<not> to_date - from_date < 1) (InvalidInput ''an all-day event ends after it starts'')) (\<lambda>_.
       Inr (LDays (to_date - from_date)))
   | (EDate _, None) \<Rightarrow> Inr (LDays 1)
   | (EDate _, Some _) \<Rightarrow> Inl (InvalidInput ''an event's start and end are both dates or both times'')
   | (_, Some (EDate _)) \<Rightarrow> Inl (InvalidInput ''an event's start and end are both dates or both times'')
   | (_, Some e) \<Rightarrow>
       bindr (instant k start) (\<lambda>from_utc. bindr (instant k e) (\<lambda>to_utc.
       bindr (require (\<not> to_utc - from_utc < 0) (InvalidInput ''an event ends after it starts'')) (\<lambda>_.
       Inr (LTime (to_utc - from_utc)))))
   | (_, None) \<Rightarrow> Inr (LTime 0))"

fun same_form :: "event_time \<Rightarrow> event_time \<Rightarrow> bool" where
  "same_form (EDate _) (EDate _) = True"
| "same_form (EUtc _) (EUtc _) = True"
| "same_form (EZoned _ a) (EZoned _ b) = (a = b)"
| "same_form _ _ = False"

definition excluded_of :: "'a calendar_scheme \<Rightarrow> event_time \<Rightarrow> event_time list \<Rightarrow> crypto_error + int list" where
  "excluded_of k start exdates =
     bindr (collectr (\<lambda>e. bindr (require (same_form start e) (InvalidInput ''an EXDATE is in the form of DTSTART'')) (\<lambda>_.
       Inr (local_of k e))) exdates) (\<lambda>xs. Inr (remdups_adj (sort xs)))"

definition until_fits :: "'a calendar_scheme \<Rightarrow> event_time \<Rightarrow> rule \<Rightarrow> crypto_error + unit" where
  "until_fits k start r = (case (r_until r, start) of
     (None, _) \<Rightarrow> Inr ()
   | (Some (UntilDate _), EDate _) \<Rightarrow> Inr ()
   | (Some (UntilUtc _), EZoned _ _) \<Rightarrow> Inr ()
   | (Some (UntilUtc _), EUtc _) \<Rightarrow> Inr ()
   | _ \<Rightarrow> Inl (rule_invalid ''UNTIL is a date for an all-day event, else UTC''))"

definition until_after :: "'a calendar_scheme \<Rightarrow> event_time \<Rightarrow> rule \<Rightarrow> crypto_error + unit" where
  "until_after k start r = (case r_until r of
     None \<Rightarrow> Inr ()
   | Some (UntilDate day) \<Rightarrow> require (\<not> day < date_of (local_of k start)) (rule_invalid ''UNTIL is before DTSTART'')
   | Some (UntilUtc i) \<Rightarrow>
       bindr (instant k start) (\<lambda>at. require (\<not> i < at) (rule_invalid ''UNTIL is before DTSTART'')))"

text \<open>The checks of a repeating series: that the start is its rule's first occurrence, and one is left.\<close>

definition check_repeats :: "'a calendar_scheme \<Rightarrow> series \<Rightarrow> rule \<Rightarrow> (crypto_error + unit) option" where
  "check_repeats k s r =
     (let date = date_of (local_of k (se_start s)) in
      case bindr (check_shape k r) (\<lambda>_.
           bindr (require (\<not> (date < first_date k \<or> date > last_date k)) (rule_invalid ''a repeating event starts from 1970 to 2037'')) (\<lambda>_.
           bindr (until_fits k (se_start s) r) (\<lambda>_. until_after k (se_start s) r))) of
        Inl e \<Rightarrow> Some (Inl e)
      | Inr _ \<Rightarrow>
          Option.bind (candidates_from k s None) (\<lambda>xs.
          if map_option snd (case xs of [] \<Rightarrow> None | x # _ \<Rightarrow> Some x) \<noteq> Some (local_of k (se_start s))
          then Some (Inl (rule_invalid ''DTSTART is not an occurrence of its rule''))
          else Some (case kept k s xs of
              [] \<Rightarrow> Inl (rule_invalid ''every occurrence is excluded'')
            | Inl e # _ \<Rightarrow> Inl e
            | Inr _ # _ \<Rightarrow> Inr ())))"

definition series_new ::
  "'a calendar_scheme \<Rightarrow> event_time \<Rightarrow> event_time option \<Rightarrow> rule option \<Rightarrow> event_time list \<Rightarrow> (crypto_error + series) option" where
  "series_new k start end_time rule exdates =
     (case bindr (instant k start) (\<lambda>_.
           bindr (series_length k start end_time) (\<lambda>len.
           bindr (require (\<not> length exdates > max_exdates) (InvalidInput ''too many EXDATEs'')) (\<lambda>_.
           bindr (require (\<not> (rule = None \<and> exdates \<noteq> [])) (InvalidInput ''EXDATE without RRULE'')) (\<lambda>_.
           bindr (excluded_of k start exdates) (\<lambda>excluded.
           Inr \<lparr>se_start = start, se_rule = rule, se_excluded = excluded, se_length = len\<rparr>))))) of
       Inl e \<Rightarrow> Some (Inl e)
     | Inr s \<Rightarrow>
         (case rule of
           None \<Rightarrow> Some (Inr s)
         | Some r \<Rightarrow> map_option (\<lambda>c. bindr c (\<lambda>_. Inr s)) (check_repeats k s r)))"

section \<open>What is asked of a series\<close>

fun between_loop :: "int \<Rightarrow> int \<Rightarrow> nat \<Rightarrow> occurrence list \<Rightarrow> (crypto_error + occurrence) list \<Rightarrow> crypto_error + occurrence list" where
  "between_loop from_utc to_utc limit found [] = Inr found"
| "between_loop from_utc to_utc limit found (r # rs) =
     bindr r (\<lambda>oc.
       if oc_start_utc oc \<ge> to_utc then Inr found
       else if oc_end_utc oc > from_utc \<or> (oc_start_utc oc = oc_end_utc oc \<and> oc_start_utc oc \<ge> from_utc)
       then if length found = limit then Inr found else between_loop from_utc to_utc limit (found @ [oc]) rs
       else between_loop from_utc to_utc limit found rs)"

definition occurrences_between :: "'a calendar_scheme \<Rightarrow> series \<Rightarrow> int \<Rightarrow> int \<Rightarrow> nat \<Rightarrow> (crypto_error + occurrence list) option" where
  "occurrences_between k s from_utc to_utc limit =
     map_option (between_loop from_utc to_utc limit []) (occurrences k s)"

fun last_end :: "int option \<Rightarrow> (crypto_error + occurrence) list \<Rightarrow> crypto_error + int option" where
  "last_end found [] = Inr found"
| "last_end found (r # rs) = bindr r (\<lambda>oc. last_end (Some (oc_end_utc oc)) rs)"

partial_function (option) range_end_loop ::
  "'a calendar_scheme \<Rightarrow> series \<Rightarrow> int \<Rightarrow> int \<Rightarrow> (crypto_error + int option) option" where
  "range_end_loop k s until_day reach =
     Option.bind (days_span reach) (\<lambda>days.
     let from_date = (case jf_add_days k until_day (- days) of Some d \<Rightarrow> d | None \<Rightarrow> first_date k)
     in Option.bind (occurrences_from_date k s from_date) (\<lambda>rs.
        case last_end None rs of
          Inl e \<Rightarrow> Some (Inl e)
        | Inr found \<Rightarrow>
            if found \<noteq> None \<or> from_date \<le> date_of (local_of k (se_start s)) then Some (Inr found)
            else range_end_loop k s until_day (min (reach * 4) (2 ^ 63 - 1))))"

definition range_end :: "'a calendar_scheme \<Rightarrow> series \<Rightarrow> (crypto_error + int option) option" where
  "range_end k s =
     (case se_rule s of
       Some r \<Rightarrow>
         (case (r_count r, r_until r) of
           (None, None) \<Rightarrow> Some (Inr None)
         | (None, Some u) \<Rightarrow> range_end_loop k s (until_date k u) 64
         | _ \<Rightarrow> map_option (last_end None) (occurrences k s))
     | None \<Rightarrow> map_option (last_end None) (occurrences k s))"

fun at_loop :: "'a calendar_scheme \<Rightarrow> event_time \<Rightarrow> (crypto_error + occurrence) list \<Rightarrow> crypto_error + occurrence option" where
  "at_loop k start [] = Inr None"
| "at_loop k start (r # rs) =
     bindr r (\<lambda>oc.
       let local = local_of k (oc_start oc); wanted = local_of k start
       in if local = wanted \<and> tzid (oc_start oc) = tzid start then Inr (Some oc)
          else if local > wanted then Inr None else at_loop k start rs)"

definition occurrence_at :: "'a calendar_scheme \<Rightarrow> series \<Rightarrow> event_time \<Rightarrow> (crypto_error + occurrence option) option" where
  "occurrence_at k s start = map_option (at_loop k start) (occurrences k s)"

text \<open>\<open>occurs_at_all\<close>: each start looked up where it is, or one pass over the sorted starts.\<close>

fun found_loop :: "'a calendar_scheme \<Rightarrow> int \<times> string option \<Rightarrow> (crypto_error + occurrence) list \<Rightarrow> crypto_error + bool" where
  "found_loop k w [] = Inr False"
| "found_loop k w (r # rs) =
     bindr r (\<lambda>oc.
       let at = local_of k (oc_start oc)
       in if at > fst w then Inr False
          else if at = fst w then Inr (snd w = tzid (oc_start oc))
          else found_loop k w rs)"

fun each_found :: "'a calendar_scheme \<Rightarrow> series \<Rightarrow> (int \<times> string option) list \<Rightarrow> (crypto_error + bool) option" where
  "each_found k s [] = Some (Inr True)"
| "each_found k s (w # ws) =
     Option.bind (occurrences_from_date k s (date_of (fst w))) (\<lambda>rs.
     case found_loop k w rs of
       Inl e \<Rightarrow> Some (Inl e)
     | Inr found \<Rightarrow> if found then each_found k s ws else Some (Inr False))"

fun pass_loop :: "'a calendar_scheme \<Rightarrow> (int \<times> string option) list \<Rightarrow> (crypto_error + occurrence) list \<Rightarrow> crypto_error + bool" where
  "pass_loop k wanted [] = Inr (wanted = [])"
| "pass_loop k wanted (r # rs) =
     (case wanted of
       [] \<Rightarrow> Inr True
     | (local, z) # ws \<Rightarrow>
         bindr r (\<lambda>oc.
           let at = local_of k (oc_start oc)
           in if local < at then Inr False
              else if local = at
              then if z \<noteq> tzid (oc_start oc) then Inr False else pass_loop k ws rs
              else pass_loop k wanted rs))"

definition wanted_starts :: "'a calendar_scheme \<Rightarrow> event_time list \<Rightarrow> (int \<times> string option) list" where
  "wanted_starts k starts = remdups_adj (sort (map (\<lambda>start. (local_of k start, tzid start)) starts))"

definition occurs_at_all :: "'a calendar_scheme \<Rightarrow> series \<Rightarrow> event_time list \<Rightarrow> (crypto_error + bool) option" where
  "occurs_at_all k s starts =
     (let wanted = wanted_starts k starts
      in if skips s then each_found k s wanted else map_option (pass_loop k wanted) (occurrences k s))"

record occurrence_v1 =
  ov_start :: time_v1
  ov_start_utc :: string
  ov_end_utc :: string
  ov_number :: nat

definition occurrence_v1_of :: "'a calendar_scheme \<Rightarrow> occurrence \<Rightarrow> occurrence_v1" where
  "occurrence_v1_of k oc =
     \<lparr>ov_start = time_v1_of k (oc_start oc), ov_start_utc = jf_show_instant k (oc_start_utc oc),
      ov_end_utc = jf_show_instant k (oc_end_utc oc), ov_number = oc_number oc\<rparr>"

end
