(* ===== verification/Calendar_Periods.thy ===== *)
theory Calendar_Periods
  imports Calendar_Series Clock
begin

text \<open>
  Which days a rule names, stated on the Gregorian calendar alone, and that the dates of a rule's periods are
  those days.  What is used of the date library is \<open>calendar_law\<close>: its documented calendar.
\<close>

section \<open>What the library documents\<close>

fun weekday_number :: "weekday \<Rightarrow> int" where
  "weekday_number Monday = 0"
| "weekday_number Tuesday = 1"
| "weekday_number Wednesday = 2"
| "weekday_number Thursday = 3"
| "weekday_number Friday = 4"
| "weekday_number Saturday = 5"
| "weekday_number Sunday = 6"

lemma weekday_number_bounds [simp]: "0 \<le> weekday_number d" "weekday_number d < 7"
  by (cases d; simp)+

lemma weekday_number_inj [simp]: "weekday_number a = weekday_number b \<longleftrightarrow> a = b"
  by (cases a; cases b; simp)

definition year_at :: "int \<Rightarrow> int" where "year_at d = fst (civil_from_days d)"
definition month_at :: "int \<Rightarrow> int" where "month_at d = fst (snd (civil_from_days d))"
definition day_at :: "int \<Rightarrow> int" where "day_at d = snd (snd (civil_from_days d))"
definition days_in_month_at :: "int \<Rightarrow> int" where "days_in_month_at d = month_days (year_at d) (month_at d)"
definition year_days :: "int \<Rightarrow> int" where "year_days y = (if leap_year y then 366 else 365)"
definition weekday_at :: "int \<Rightarrow> int" where "weekday_at d = (d + 3) mod 7"

lemma civil_at: "civil_from_days d = (year_at d, month_at d, day_at d)"
  by (simp add: year_at_def month_at_def day_at_def)

lemma civil_at_ok: "1 \<le> month_at d" "month_at d \<le> 12" "1 \<le> day_at d" "day_at d \<le> days_in_month_at d"
  using civil_from_days_ok [of d] by (simp_all add: civil_at civil_ok_def days_in_month_at_def)

text \<open>The dates of the library, -9999-01-01 to 9999-12-31.\<close>

definition lib_date :: "int \<Rightarrow> bool" where "lib_date d \<longleftrightarrow> - 4371587 \<le> d \<and> d \<le> 2932896"

definition civil_law :: "'a calendar_scheme \<Rightarrow> bool" where
  "civil_law k \<longleftrightarrow>
     (\<forall>d. lib_date d \<longrightarrow> jf_year k d = year_at d \<and> jf_month k d = month_at d \<and> jf_day k d = day_at d \<and>
       jf_days_in_month k d = days_in_month_at d \<and> jf_days_in_year k d = year_days (year_at d) \<and>
       weekday_number (jf_weekday k d) = weekday_at d) \<and>
     (\<forall>y m d. jf_new k y m d = (if civil_ok (y, m, d) \<and> lib_date (civil_to_days y m d) then Some (civil_to_days y m d) else None)) \<and>
     (\<forall>d n. lib_date d \<longrightarrow> jf_add_days k d n = (if lib_date (d + n) then Some (d + n) else None)) \<and>
     (\<forall>w. jf_offset k w = weekday_number w) \<and> (\<forall>a b. jf_since k a b = (weekday_number a - weekday_number b) mod 7) \<and>
     (\<forall>d n w. lib_date d \<and> day_at d = 1 \<and> 1 \<le> n \<and> n \<le> 4 \<longrightarrow>
       jf_nth_weekday_of_month k d n w = Some (d + (weekday_number w - weekday_at d) mod 7 + 7 * (n - 1))) \<and>
     (\<forall>d w. lib_date d \<and> day_at d = 1 \<longrightarrow>
       jf_nth_weekday_of_month k d (- 1) w =
         (let l = d + days_in_month_at d - 1 in Some (l - (weekday_at l - weekday_number w) mod 7))) \<and>
     (\<forall>d n. lib_date d \<and> month_at d = 1 \<and> day_at d = 1 \<and> 1 \<le> n \<and> n \<le> year_days (year_at d) \<longrightarrow>
       jf_with_day_of_year k d n = Some (d + n - 1))"

section \<open>Which days a rule names\<close>

text \<open>The unit of a rule's frequency that a day is in: itself, its week, its month or its year.\<close>

definition unit_of :: "rule \<Rightarrow> int \<Rightarrow> int" where
  "unit_of r d = (case r_frequency r of
     Daily \<Rightarrow> d
   | Weekly \<Rightarrow> (d + 3 - weekday_number (rule_wkst r)) div 7
   | Monthly \<Rightarrow> year_at d * 12 + (month_at d - 1)
   | Yearly \<Rightarrow> year_at d)"

definition counted_day :: "rule \<Rightarrow> int \<Rightarrow> int" where
  "counted_day r base = (case r_by_month_day r of Some day \<Rightarrow> day | None \<Rightarrow> day_at base)"

definition day_due :: "rule \<Rightarrow> int \<Rightarrow> int \<Rightarrow> bool" where
  "day_due r base d = (case r_frequency r of
     Daily \<Rightarrow> True
   | Weekly \<Rightarrow>
       if r_by_day r = [] then weekday_at d = weekday_at base else weekday_at d \<in> weekday_number ` set (r_by_day r)
   | Monthly \<Rightarrow>
       (case (r_by_day r, r_by_set_pos r) of
         (w # _, Some n) \<Rightarrow>
           weekday_at d = weekday_number w \<and>
           (if n > 0 then (day_at d - 1) div 7 + 1 = n else days_in_month_at d < day_at d + 7)
       | _ \<Rightarrow> day_at d = from_end (days_in_month_at d) (counted_day r base))
   | Yearly \<Rightarrow>
       (case r_by_year_day r of
         Some n \<Rightarrow> d - civil_to_days (year_at d) 1 1 + 1 = from_end (year_days (year_at d)) n
       | None \<Rightarrow>
           month_at d = (case r_by_month r of Some m \<Rightarrow> m | None \<Rightarrow> month_at base) \<and>
           day_at d = from_end (days_in_month_at d) (counted_day r base)))"

definition due :: "rule \<Rightarrow> int \<Rightarrow> int \<Rightarrow> bool" where
  "due r base d \<longleftrightarrow> (unit_of r d - unit_of r base) mod r_interval r = 0 \<and> day_due r base d"

section \<open>Units are ordered as days are\<close>

lemma civil_year_mono: "d \<le> d' \<Longrightarrow> year_at d \<le> year_at d'"
  using civil_from_days_less_iff [of d' d] by (simp add: civil_at civil_less_def)

lemma civil_month_mono: "d \<le> d' \<Longrightarrow> year_at d * 12 + (month_at d - 1) \<le> year_at d' * 12 + (month_at d' - 1)"
  using civil_from_days_less_iff [of d' d] civil_at_ok [of d] civil_at_ok [of d'] by (simp add: civil_at civil_less_def) linarith

lemma unit_mono: "d \<le> d' \<Longrightarrow> unit_of r d \<le> unit_of r d'"
  by (auto simp: unit_of_def civil_year_mono civil_month_mono intro: zdiv_mono1 split: frequency.split)

lemma unit_less: "unit_of r d < unit_of r d' \<Longrightarrow> d < d'"
  using unit_mono [of d' d r] by linarith

section \<open>Months and years as ranges of days\<close>

lemma civil_to_days_day: "civil_to_days y m d = civil_to_days y m 1 + (d - 1)"
  by (simp add: civil_to_days_def day_number_def Let_def)

lemma civil_at_iff: "civil_ok (y, m, n) \<Longrightarrow> civil_to_days y m n = d \<longleftrightarrow> year_at d = y \<and> month_at d = m \<and> day_at d = n"
  using civil_to_from [of y m n] civil_from_to [of d y m n] by (auto simp: civil_at)

lemma civil_of: "civil_ok (y, m, n) \<Longrightarrow> d = civil_to_days y m n \<Longrightarrow> year_at d = y \<and> month_at d = m \<and> day_at d = n"
  using civil_at_iff by blast

lemma civil_to_at [simp]: "civil_to_days (year_at d) (month_at d) (day_at d) = d"
  by (rule civil_from_to) (simp add: civil_at)

lemma month_days_pos: "0 < month_days y m" "28 \<le> month_days y m" "month_days y m \<le> 31"
  by (simp_all add: month_days_def)

lemma in_month_iff:
  assumes "1 \<le> m" and "m \<le> 12"
  shows "year_at d = y \<and> month_at d = m \<longleftrightarrow>
    civil_to_days y m 1 \<le> d \<and> d < civil_to_days y m 1 + month_days y m" (is "?l \<longleftrightarrow> ?r")
proof
  assume l: ?l
  then have "d = civil_to_days y m 1 + (day_at d - 1)" using civil_to_at [of d] civil_to_days_day [of y m "day_at d"] by simp
  with civil_at_ok [of d] l show ?r by (auto simp: days_in_month_at_def)
next
  assume r: ?r
  let ?n = "d - civil_to_days y m 1 + 1"
  have "civil_ok (y, m, ?n)" using assms r by (simp add: civil_ok_def)
  moreover have "d = civil_to_days y m ?n" by (subst civil_to_days_day) simp
  ultimately show ?l using civil_of by blast
qed

lemma day_at_in_month: "day_at d = d - civil_to_days (year_at d) (month_at d) 1 + 1"
  using civil_to_at [of d] civil_to_days_day [of "year_at d" "month_at d" "day_at d"] by simp

lemma next_month:
  assumes "1 \<le> m" and "m \<le> 12"
  shows "civil_to_days y m 1 + month_days y m = (if m < 12 then civil_to_days y (m + 1) 1 else civil_to_days (y + 1) 1 1)"
proof -
  let ?d = "civil_to_days y m (month_days y m)"
  have "civil_from_days ?d = (y, m, month_days y m)"
    using assms month_days_pos(1) [of y m] by (intro civil_to_from) (simp add: civil_ok_def)
  then have "civil_from_days (?d + 1) = (if m < 12 then (y, m + 1, 1) else (y + 1, 1, 1))"
    using civil_from_days_next [of ?d] by simp
  then have "(if m < 12 then civil_to_days y (m + 1) 1 else civil_to_days (y + 1) 1 1) = ?d + 1"
    using civil_from_to by (auto split: if_splits)
  then show ?thesis using civil_to_days_day [of y m "month_days y m"] by simp
qed

lemma next_year: "civil_to_days (y + 1) 1 1 = civil_to_days y 1 1 + year_days y"
  using next_month [of 1 y] next_month [of 2 y] next_month [of 3 y] next_month [of 4 y] next_month [of 5 y] next_month [of 6 y]
    next_month [of 7 y] next_month [of 8 y] next_month [of 9 y] next_month [of 10 y] next_month [of 11 y] next_month [of 12 y]
  by (cases "leap_year y") (simp_all add: month_days_def year_days_def)

lemma civil_ok_first [simp]: "1 \<le> m \<Longrightarrow> m \<le> 12 \<Longrightarrow> civil_ok (y, m, 1)"
  using month_days_pos(1) [of y m] by (simp add: civil_ok_def)

lemma in_year_iff: "year_at d = y \<longleftrightarrow> civil_to_days y 1 1 \<le> d \<and> d < civil_to_days y 1 1 + year_days y"
proof -
  have lo: "civil_to_days z 1 1 \<le> d \<longleftrightarrow> z \<le> year_at d" for z
  proof -
    have "civil_from_days (civil_to_days z 1 1) = (z, 1, 1)" by (rule civil_to_from) simp
    then show ?thesis using civil_from_days_less_iff [of d "civil_to_days z 1 1"] civil_at_ok [of d]
      by (auto simp: civil_at civil_less_def)
  qed
  show ?thesis using lo [of y] lo [of "y + 1"] next_year [of y] by auto
qed

lemma civil_1970: "civil_to_days 1970 1 1 = 0"
  by (rule civil_from_to [OF civil_from_days_0])

lemma civil_2037: "civil_to_days 2037 12 31 = 24836"
proof (rule civil_from_to)
  show "civil_from_days 24836 = (2037, 12, 31)"
    using civil_of_day_number [of 37 305 12 5]
    by (simp add: day_number_def era_start_def month_start_def month_span_def month_days_def march_year_days_def leap_year_def)
qed

lemma first_last_date:
  assumes "civil_law k"
  shows "first_date k = 0" and "last_date k = 24836"
proof -
  have "jf_new k y m d = (if civil_ok (y, m, d) \<and> lib_date (civil_to_days y m d) then Some (civil_to_days y m d) else None)" for y m d
    using assms by (simp add: civil_law_def)
  then show "first_date k = 0" "last_date k = 24836"
    by (simp_all add: first_date_def last_date_def civil_1970 civil_2037 lib_date_def civil_ok_def month_days_def)
qed

section \<open>The library under its law\<close>

lemma lib:
  assumes "civil_law k"
  shows "lib_date d \<Longrightarrow> jf_year k d = year_at d" "lib_date d \<Longrightarrow> jf_month k d = month_at d" "lib_date d \<Longrightarrow> jf_day k d = day_at d"
    "lib_date d \<Longrightarrow> jf_days_in_month k d = days_in_month_at d" "lib_date d \<Longrightarrow> jf_days_in_year k d = year_days (year_at d)"
    "lib_date d \<Longrightarrow> weekday_number (jf_weekday k d) = weekday_at d"
    "jf_new k y m n = (if civil_ok (y, m, n) \<and> lib_date (civil_to_days y m n) then Some (civil_to_days y m n) else None)"
    "lib_date d \<Longrightarrow> jf_add_days k d n = (if lib_date (d + n) then Some (d + n) else None)"
    "jf_since k a b = (weekday_number a - weekday_number b) mod 7"
    "jf_offset k w = weekday_number w"
  using assms unfolding civil_law_def by blast+

lemma lib_nth:
  assumes "civil_law k" and "lib_date d" and "day_at d = 1"
  shows "1 \<le> n \<Longrightarrow> n \<le> 4 \<Longrightarrow> jf_nth_weekday_of_month k d n w = Some (d + (weekday_number w - weekday_at d) mod 7 + 7 * (n - 1))"
    and "jf_nth_weekday_of_month k d (- 1) w =
      Some (d + days_in_month_at d - 1 - (weekday_at (d + days_in_month_at d - 1) - weekday_number w) mod 7)"
  using assms unfolding civil_law_def Let_def by blast+

lemma lib_day_of_year:
  assumes "civil_law k" and "lib_date d" and "month_at d = 1" and "day_at d = 1" and "1 \<le> n" and "n \<le> year_days (year_at d)"
  shows "jf_with_day_of_year k d n = Some (d + n - 1)"
  using assms unfolding civil_law_def by blast

text \<open>The series' dates: a start from 1970 to 2037, and what a period that starts by the last date can reach.\<close>

lemma lib_dateI: "- 4000000 \<le> d \<Longrightarrow> d \<le> 2900000 \<Longrightarrow> lib_date d"
  by (simp add: lib_date_def)

definition start_date :: "int \<Rightarrow> bool" where "start_date base \<longleftrightarrow> 0 \<le> base \<and> base \<le> 24836"

lemma daily_dates_spec:
  assumes "civil_law k" and "start_date base" and "0 \<le> step" and "r_frequency r = Daily"
  shows "daily_dates k base step = Some (Some ds) \<Longrightarrow> sorted_wrt (<) ds \<and> set ds = {d. day_due r base d \<and> unit_of r d = unit_of r base + step} \<and> step \<le> 24836"
    and "daily_dates k base step = Some None \<Longrightarrow> 24836 < base + step"
    and "step \<le> 7304484 \<Longrightarrow> daily_dates k base step \<noteq> None"
proof -
  have b: "lib_date base" using assms(2) by (simp add: start_date_def lib_date_def)
  have l: "last_date k = 24836" using first_last_date [OF assms(1)] by simp
  show "daily_dates k base step = Some (Some ds) \<Longrightarrow> sorted_wrt (<) ds \<and> set ds = {d. day_due r base d \<and> unit_of r d = unit_of r base + step} \<and> step \<le> 24836"
    using assms(2-4) by (auto simp: daily_dates_def days_span_def l lib(8) [OF assms(1) b] day_due_def unit_of_def start_date_def
        split: bind_splits if_splits)
  show "daily_dates k base step = Some None \<Longrightarrow> 24836 < base + step"
    using assms(2,3) by (auto simp: daily_dates_def days_span_def l lib(8) [OF assms(1) b] lib_date_def start_date_def split: bind_splits if_splits)
  show "step \<le> 7304484 \<Longrightarrow> daily_dates k base step \<noteq> None"
    using assms(3) by (simp add: daily_dates_def days_span_def)
qed

text \<open>A week by its first day: the days of it, and which day of the week each is.\<close>

lemma week_iff:
  "(d + 3 - wn) div 7 = u \<longleftrightarrow> 7 * u + wn - 3 \<le> d \<and> d < 7 * u + wn - 3 + (7 :: int)"
  by linarith

lemma week_start: "base - (weekday_at base - wn) mod 7 = 7 * ((base + 3 - wn) div 7) + wn - 3"
proof -
  have "(weekday_at base - wn) mod 7 = (base + 3 - wn) mod 7" by (simp add: weekday_at_def mod_diff_left_eq)
  with div_mult_mod_eq [of "base + 3 - wn" 7] show ?thesis by linarith
qed

lemma weekday_in_week:
  assumes "0 \<le> wn" and "wn < 7" and "0 \<le> j" and "j < 7" and "0 \<le> wd" and "wd < 7"
  shows "weekday_at (7 * u + wn - 3 + j) = wd \<longleftrightarrow> j = (wd - wn) mod 7"
proof -
  have "7 * u + wn - 3 + j + 3 = (wn + j) + 7 * u" by simp
  then have e: "weekday_at (7 * u + wn - 3 + j) = (wn + j) mod 7" unfolding weekday_at_def by (simp only: mod_mult_self2)
  have 1: "(wn + (wd - wn) mod 7) mod 7 = wd" using assms(5,6) by (simp add: mod_add_right_eq)
  have 2: "((wn + j) mod 7 - wn) mod 7 = j" using assms(3,4) by (simp add: mod_diff_left_eq)
  show ?thesis unfolding e using 1 2 by metis
qed

lemma weekly_days_numbers:
  assumes "civil_law k" and "start_date base" and "r_frequency r = Weekly"
  shows "day_due r base d \<longleftrightarrow> weekday_at d \<in> weekday_number ` set (weekly_days k r base)"
  using lib(6) [OF assms(1), of base] assms(2,3)
  by (simp add: day_due_def weekly_days_def lib_dateI start_date_def)

lemma weekly_dates_spec:
  assumes "civil_law k" and "start_date base" and "0 \<le> step" and "r_frequency r = Weekly" and "distinct (r_by_day r)"
  shows "weekly_dates k r base step = Some (Some ds) \<Longrightarrow>
      sorted_wrt (<) ds \<and> set ds = {d. day_due r base d \<and> unit_of r d = unit_of r base + step} \<and> step \<le> 24836"
    and "weekly_dates k r base step = Some None \<Longrightarrow> d \<le> 24836 \<Longrightarrow> unit_of r d < unit_of r base + step"
    and "step * 7 \<le> 7304484 \<Longrightarrow> weekly_dates k r base step \<noteq> None"
proof -
  have b: "lib_date base" "0 \<le> base" "base \<le> 24836" using assms(2) by (simp_all add: start_date_def lib_date_def)
  have l: "last_date k = 24836" using first_last_date [OF assms(1)] by simp
  define wn where "wn = weekday_number (rule_wkst r)"
  have wn: "0 \<le> wn" "wn < 7" by (simp_all add: wn_def)
  define u where "u = unit_of r base"
  have u: "u = (base + 3 - wn) div 7" by (simp add: u_def unit_of_def assms(4) wn_def)
  have "jf_since k (jf_weekday k base) (rule_wkst r) = (weekday_at base - wn) mod 7"
    by (simp add: lib(9) [OF assms(1)] lib(6) [OF assms(1) b(1)] wn_def)
  then have w0: "base - jf_since k (jf_weekday k base) (rule_wkst r) = 7 * u + wn - 3" by (simp add: week_start u)
  define w where "w = 7 * (u + step) + wn - 3"
  have ub: "- 1 \<le> u" unfolding u using b(2) wn by linarith
  then have lo: "lib_date (7 * u + wn - 3)" using b wn u by (intro lib_dateI) linarith+
  have e: "weekly_dates k r base step = Option.bind (days_span (step * 7)) (\<lambda>n. Some (Option.bind (if lib_date (7 * u + wn - 3 + n) then Some (7 * u + wn - 3 + n) else None)
      (\<lambda>week. if week > 24836 then None else Some (sort (List.map_filter (\<lambda>day. jf_add_days k week (jf_since k day (rule_wkst r))) (weekly_days k r base))))))"
    using lo w0 by (simp add: weekly_dates_def Let_def l lib(8) [OF assms(1) b(1)] lib(8) [OF assms(1) lo])
  show "step * 7 \<le> 7304484 \<Longrightarrow> weekly_dates k r base step \<noteq> None"
    using assms(3) by (simp add: e days_span_def)
  show "unit_of r d < unit_of r base + step" if "weekly_dates k r base step = Some None" "d \<le> 24836"
  proof -
    from that(1) have "\<not> (lib_date w \<and> w \<le> 24836)" by (auto simp: e w_def days_span_def algebra_simps split: bind_splits if_splits)
    moreover have "0 \<le> w + 10" using ub wn assms(3) by (simp add: w_def)
    ultimately have "24836 < w" by (auto simp: lib_date_def)
    then show ?thesis using that(2) week_iff [of d wn "unit_of r d"] by (simp add: unit_of_def assms(4) wn_def u_def w_def)
  qed
  show "sorted_wrt (<) ds \<and> set ds = {d. day_due r base d \<and> unit_of r d = unit_of r base + step} \<and> step \<le> 24836"
    if s: "weekly_dates k r base step = Some (Some ds)"
  proof -
    from s have w: "lib_date w" "w \<le> 24836"
      and ds: "ds = sort (List.map_filter (\<lambda>day. jf_add_days k w (jf_since k day (rule_wkst r))) (weekly_days k r base))"
      by (auto simp: e w_def days_span_def algebra_simps split: bind_splits if_splits)
    have "0 \<le> w + 10" using ub wn assms(3) by (simp add: w_def)
    then have add: "jf_add_days k w (jf_since k day (rule_wkst r)) = Some (w + (weekday_number day - wn) mod 7)" for day
      unfolding lib(8) [OF assms(1) w(1)] lib(9) [OF assms(1)] wn_def [symmetric]
      using w(2) lib_dateI [of "w + (weekday_number day - wn) mod 7"] by simp
    define g where "g day = w + (weekday_number day - wn) mod 7" for day
    have ds': "ds = sort (map g (weekly_days k r base))"
      by (simp add: ds add List.map_filter_def g_def [abs_def] comp_def)
    have day: "weekday_at (g a) = weekday_number a" for a
      using weekday_in_week [of wn "(weekday_number a - wn) mod 7" "weekday_number a" "u + step"] wn by (simp add: g_def w_def)
    have "inj_on g (set (weekly_days k r base))"
      by (rule inj_onI) (use day in \<open>metis weekday_number_inj\<close>)
    then have "distinct (map g (weekly_days k r base))" using assms(5) by (auto simp: distinct_map weekly_days_def)
    then have "sorted_wrt (<) ds" unfolding ds' by (simp add: strict_sorted_iff)
    moreover have "set ds = {d. day_due r base d \<and> unit_of r d = unit_of r base + step}"
    proof (rule set_eqI)
      fix d
      have "unit_of r d = unit_of r base + step \<longleftrightarrow> w \<le> d \<and> d < w + 7"
        using week_iff [of d wn "u + step"] by (simp add: unit_of_def assms(4) wn_def u_def w_def)
      moreover have "d \<in> set ds \<longleftrightarrow> (\<exists>a\<in>set (weekly_days k r base). d = g a)" by (auto simp: ds')
      moreover have "w \<le> g a \<and> g a < w + 7" for a by (simp add: g_def)
      moreover have "d = g a \<longleftrightarrow> weekday_at d = weekday_number a" if "w \<le> d" "d < w + 7" for a
        using weekday_in_week [of wn "d - w" "weekday_number a" "u + step"] wn that by (simp add: w_def g_def algebra_simps)
      ultimately show "d \<in> set ds \<longleftrightarrow> d \<in> {d. day_due r base d \<and> unit_of r d = unit_of r base + step}"
        unfolding mem_Collect_eq weekly_days_numbers [OF assms(1,2,4)] by (metis image_iff)
    qed
    moreover have "step \<le> 24836" using w(2) ub wn assms(3) by (simp add: w_def)
    ultimately show ?thesis by blast
  qed
qed

text \<open>At most one date: the list of an option.\<close>

lemma list_of_option_spec: "(\<And>d. v = Some d \<longleftrightarrow> P d) \<Longrightarrow> sorted_wrt (<) (list_of_option v) \<and> set (list_of_option v) = {d :: int. P d}"
  by (cases v) (simp_all add: list_of_option_def set_eq_iff eq_commute)

text \<open>A month by its first day.\<close>

lemma unit_month: "year_at d * 12 + (month_at d - 1) = u \<longleftrightarrow> year_at d = u div 12 \<and> month_at d = u mod 12 + 1"
  using civil_at_ok [of d] by auto

lemma day_of_month_spec:
  assumes "civil_law k" and "lib_date first" and "first \<le> 24836" and "0 \<le> first" and "day_at first = 1"
  shows "day_of_month k first n = Some d \<longleftrightarrow>
    year_at d = year_at first \<and> month_at d = month_at first \<and> day_at d = from_end (days_in_month_at d) n"
proof -
  let ?y = "year_at first" and ?m = "month_at first" and ?n = "from_end (month_days (year_at first) (month_at first)) n"
  have m: "1 \<le> ?m" "?m \<le> 12" using civil_at_ok [of first] by simp_all
  have f: "civil_to_days ?y ?m 1 = first" using civil_to_at [of first] assms(5) by simp
  have "lib_date (civil_to_days ?y ?m ?n)" if "1 \<le> ?n" "?n \<le> month_days ?y ?m"
    using that f assms(3,4) month_days_pos(3) [of ?y ?m] civil_to_days_day [of ?y ?m ?n] by (intro lib_dateI) linarith+
  then have e: "day_of_month k first n = (if 1 \<le> ?n \<and> ?n \<le> month_days ?y ?m then Some (civil_to_days ?y ?m ?n) else None)"
    using m by (auto simp: day_of_month_def Let_def lib(1,2,4) [OF assms(1,2)] lib(7) [OF assms(1)] days_in_month_at_def civil_ok_def)
  show ?thesis
  proof
    assume "day_of_month k first n = Some d"
    then have "1 \<le> ?n" "?n \<le> month_days ?y ?m" "d = civil_to_days ?y ?m ?n" by (simp_all add: e split: if_splits)
    then show "year_at d = ?y \<and> month_at d = ?m \<and> day_at d = from_end (days_in_month_at d) n"
      using civil_of [of ?y ?m ?n d] m by (simp add: civil_ok_def days_in_month_at_def)
  next
    assume r: "year_at d = ?y \<and> month_at d = ?m \<and> day_at d = from_end (days_in_month_at d) n"
    then have n: "day_at d = ?n" by (simp add: days_in_month_at_def)
    then have "1 \<le> ?n" "?n \<le> month_days ?y ?m" using civil_at_ok [of d] r by (simp_all add: days_in_month_at_def)
    moreover have "civil_to_days ?y ?m ?n = d" using civil_to_at [of d] r n by simp
    ultimately show "day_of_month k first n = Some d" by (simp add: e)
  qed
qed

lemma mod_unique_upto: "0 \<le> (i :: int) \<Longrightarrow> i < 7 \<Longrightarrow> (a + i) mod 7 = b \<Longrightarrow> 0 \<le> b \<Longrightarrow> b < 7 \<Longrightarrow> i = (b - a mod 7) mod 7"
proof -
  assume i: "0 \<le> i" "i < 7" and b: "(a + i) mod 7 = b"
  have "(b - a mod 7) mod 7 = ((a + i) - a) mod 7" unfolding b [symmetric] by (rule mod_diff_eq)
  with i show "i = (b - a mod 7) mod 7" by simp
qed

lemma weekday_at_add: "weekday_at (d + i) = (weekday_at d + i) mod 7"
  using mod_add_left_eq [of "d + 3" 7 i] by (simp add: weekday_at_def ac_simps)

lemma nth_weekday_iff:
  assumes "0 \<le> j" and "1 \<le> n" and "0 \<le> wd" and "wd < 7"
  shows "weekday_at (f + j) = wd \<and> j div 7 + 1 = n \<longleftrightarrow> j = (wd - weekday_at f) mod 7 + 7 * (n - 1)"
proof
  assume l: "weekday_at (f + j) = wd \<and> j div 7 + 1 = n"
  have "(weekday_at f + j mod 7) mod 7 = wd" using l by (simp add: weekday_at_add mod_add_right_eq)
  then have "j mod 7 = (wd - weekday_at f mod 7) mod 7" using assms(3,4) by (intro mod_unique_upto) simp_all
  moreover have "weekday_at f mod 7 = weekday_at f" by (simp add: weekday_at_def)
  ultimately show "j = (wd - weekday_at f) mod 7 + 7 * (n - 1)" using l div_mult_mod_eq [of j 7] by simp
next
  assume r: "j = (wd - weekday_at f) mod 7 + 7 * (n - 1)"
  have "(weekday_at f + (wd - weekday_at f) mod 7) mod 7 = wd" using assms(3,4) by (simp add: mod_add_right_eq)
  moreover have "(weekday_at f + j) mod 7 = (weekday_at f + (wd - weekday_at f) mod 7) mod 7"
    using mod_mult_self2 [of "weekday_at f + (wd - weekday_at f) mod 7" 7 "n - 1"] by (simp add: r add.assoc)
  moreover have "j div 7 = n - 1" unfolding r by simp
  ultimately show "weekday_at (f + j) = wd \<and> j div 7 + 1 = n" by (simp add: weekday_at_add)
qed

lemma last_weekday_iff:
  assumes "0 \<le> i" and "0 \<le> wd" and "wd < 7"
  shows "weekday_at (l - i) = wd \<and> i < 7 \<longleftrightarrow> i = (weekday_at l - wd) mod 7"
proof
  assume a: "weekday_at (l - i) = wd \<and> i < 7"
  have "weekday_at l = (weekday_at (l - i) + i) mod 7" using weekday_at_add [of "l - i" i] by simp
  then have "(wd + i) mod 7 = weekday_at l" using a by simp
  then have "i = (weekday_at l - wd mod 7) mod 7" using a assms(1) by (intro mod_unique_upto) (simp_all add: weekday_at_def)
  then show "i = (weekday_at l - wd) mod 7" using assms(2,3) by simp
next
  assume r: "i = (weekday_at l - wd) mod 7"
  have "weekday_at (l - i) = (weekday_at l - i) mod 7" using weekday_at_add [of l "- i"] by simp
  also have "\<dots> = (weekday_at l - (weekday_at l - wd)) mod 7" unfolding r by (rule mod_diff_right_eq)
  finally have "weekday_at (l - i) = wd" using assms(2,3) by simp
  with r show "weekday_at (l - i) = wd \<and> i < 7" by simp
qed

lemma unit_first_month:
  assumes "1 \<le> u mod 12 + 1"
  shows "year_at (civil_to_days (u div 12) (u mod 12 + 1) 1) = u div 12 \<and>
    month_at (civil_to_days (u div 12) (u mod 12 + 1) 1) = u mod 12 + 1 \<and> day_at (civil_to_days (u div 12) (u mod 12 + 1) 1) = 1"
  by (rule civil_of [OF _ refl]) simp

lemma nth_weekday_spec:
  assumes "civil_law k" and "lib_date first" and "day_at first = 1" and "n \<in> {- 1, 1, 2, 3, 4}"
  shows "jf_nth_weekday_of_month k first n w = Some d \<longleftrightarrow>
    year_at d = year_at first \<and> month_at d = month_at first \<and> weekday_at d = weekday_number w \<and>
    (if n > 0 then (day_at d - 1) div 7 + 1 = n else days_in_month_at d < day_at d + 7)"
proof -
  let ?y = "year_at first" and ?m = "month_at first" and ?wd = "weekday_number w"
  let ?dim = "month_days ?y ?m"
  have m: "1 \<le> ?m" "?m \<le> 12" using civil_at_ok [of first] by simp_all
  have f: "civil_to_days ?y ?m 1 = first" using civil_to_at [of first] assms(3) by simp
  have im: "year_at d = ?y \<and> month_at d = ?m \<longleftrightarrow> first \<le> d \<and> d < first + ?dim" using in_month_iff [OF m, of d ?y] f by simp
  have dim: "days_in_month_at first = ?dim" by (simp add: days_in_month_at_def)
  have da: "year_at d = ?y \<Longrightarrow> month_at d = ?m \<Longrightarrow> day_at d = d - first + 1 \<and> days_in_month_at d = ?dim"
    using day_at_in_month [of d] f by (simp add: days_in_month_at_def)
  show ?thesis
  proof (cases "n > 0")
    case True
    with assms(4) have n: "1 \<le> n" "n \<le> 4" by auto
    have eq: "weekday_at d = ?wd \<and> (d - first) div 7 + 1 = n \<longleftrightarrow> d = first + (?wd - weekday_at first) mod 7 + 7 * (n - 1)" if "first \<le> d"
      using nth_weekday_iff [of "d - first" n ?wd first] n(1) that by auto
    have fits: "first \<le> first + (?wd - weekday_at first) mod 7 + 7 * (n - 1)" "first + (?wd - weekday_at first) mod 7 + 7 * (n - 1) < first + ?dim"
    proof -
      have "0 \<le> (?wd - weekday_at first) mod 7" "(?wd - weekday_at first) mod 7 < 7" by simp_all
      with n month_days_pos(2) [of ?y ?m]
      have "0 \<le> (?wd - weekday_at first) mod 7 + 7 * (n - 1)" "(?wd - weekday_at first) mod 7 + 7 * (n - 1) < ?dim" by simp_all
      then show "first \<le> first + (?wd - weekday_at first) mod 7 + 7 * (n - 1)"
        "first + (?wd - weekday_at first) mod 7 + 7 * (n - 1) < first + ?dim" by simp_all
    qed
    show ?thesis unfolding lib_nth(1) [OF assms(1-3) n]
      using True im da eq fits by auto
  next
    case False
    with assms(4) have n: "n = - 1" by auto
    let ?l = "first + ?dim - 1"
    have eq: "weekday_at d = ?wd \<and> ?l - d < 7 \<longleftrightarrow> d = ?l - (weekday_at ?l - ?wd) mod 7" if "d \<le> ?l"
      using last_weekday_iff [of "?l - d" ?wd ?l] that by auto
    have fits: "first \<le> ?l - (weekday_at ?l - ?wd) mod 7" "?l - (weekday_at ?l - ?wd) mod 7 \<le> ?l"
    proof -
      have "0 \<le> (weekday_at ?l - ?wd) mod 7" "(weekday_at ?l - ?wd) mod 7 < 7" by simp_all
      with month_days_pos(2) [of ?y ?m]
      show "first \<le> ?l - (weekday_at ?l - ?wd) mod 7" "?l - (weekday_at ?l - ?wd) mod 7 \<le> ?l" by simp_all
    qed
    show ?thesis unfolding n lib_nth(2) [OF assms(1-3)] dim
      using im da eq fits by auto
  qed
qed

lemma monthly_dates_spec:
  assumes "civil_law k" and "start_date base" and "0 \<le> step" and "r_frequency r = Monthly" and "check_by_parts r = Inr ()"
  shows "monthly_dates k r base step = Some ds \<Longrightarrow>
      sorted_wrt (<) ds \<and> set ds = {d. day_due r base d \<and> unit_of r d = unit_of r base + step} \<and> step \<le> 24836"
    and "monthly_dates k r base step = None \<Longrightarrow> d \<le> 24836 \<Longrightarrow> unit_of r d < unit_of r base + step"
proof -
  have b: "lib_date base" "0 \<le> base" "base \<le> 24836" using assms(2) by (simp_all add: start_date_def lib_date_def)
  have l: "last_date k = 24836" using first_last_date [OF assms(1)] by simp
  have un: "unit_of r d = year_at d * 12 + (month_at d - 1)" for d by (simp add: unit_of_def assms(4))
  define u where "u = unit_of r base + step"
  define first where "first = civil_to_days (u div 12) (u mod 12 + 1) 1"
  have f: "year_at first = u div 12" "month_at first = u mod 12 + 1" "day_at first = 1" "unit_of r first = u"
    using unit_first_month [of u] by (simp_all add: first_def un)
  have u0: "unit_of r 0 \<le> u" using unit_mono [OF b(2), of r] assms(3) by (simp add: u_def)
  have first0: "0 \<le> first"
  proof (rule ccontr)
    assume "\<not> 0 \<le> first"
    then have "unit_of r first \<le> unit_of r (- 1)" by (intro unit_mono) simp
    moreover have "unit_of r (- 1) < unit_of r 0"
      using in_month_iff [of 1 "- 1" 1970] civil_1970 unit_mono [of "- 1" 0 r] unit_month [of "- 1" "unit_of r 0"] civil_of [of 1970 1 1 0]
      by (auto simp: un month_days_def less_le)
    ultimately show False using u0 f(4) by simp
  qed
  have ym: "u = year_at base * 12 + (month_at base - 1) + step" by (simp add: u_def un)
  have c: "(case r_by_month_day r of Some day \<Rightarrow> day | None \<Rightarrow> jf_day k base) = counted_day r base"
    using lib(3) [OF assms(1) b(1)] by (simp add: counted_day_def split: option.split)
  have e: "monthly_dates k r base step =
     Option.bind (to_i16 (u div 12)) (\<lambda>year. Option.bind (jf_new k year (u mod 12 + 1) 1) (\<lambda>first.
         if first > 24836 then None
         else Some (list_of_option (case (r_by_day r, r_by_set_pos r) of
             (day # _, Some pos) \<Rightarrow> jf_nth_weekday_of_month k first pos day
           | _ \<Rightarrow> day_of_month k first (counted_day r base)))))"
    using c by (simp only: monthly_dates_def Let_def lib(1,2) [OF assms(1) b(1)] l ym)
  have jn: "jf_new k (u div 12) (u mod 12 + 1) 1 = (if lib_date first then Some first else None)"
    by (simp add: lib(7) [OF assms(1)] first_def)
  show "unit_of r d < unit_of r base + step" if "monthly_dates k r base step = None" "d \<le> 24836"
  proof (rule ccontr)
    assume "\<not> unit_of r d < unit_of r base + step"
    then have "u \<le> unit_of r d" by (simp add: u_def)
    then have "first \<le> d"
      using unit_less [of r first d] f(4) in_month_iff [of "u mod 12 + 1" d "u div 12"] unit_month [of d u]
      by (cases "unit_of r d = u") (auto simp: un first_def)
    then have fl: "first \<le> 24836" "lib_date first" using that(2) first0 by (simp_all add: lib_dateI)
    have "u div 12 \<le> year_at 24836" using civil_year_mono [of first 24836] fl(1) f(1) by simp
    moreover have "0 \<le> u div 12" using civil_year_mono [of 0 first] first0 f(1) civil_of [of 1970 1 1 0] civil_1970 by simp
    moreover have "year_at 24836 = 2037" using civil_of [of 2037 12 31 24836] civil_2037 by (simp add: civil_ok_def month_days_def)
    ultimately have "to_i16 (u div 12) = Some (u div 12)" by (simp add: to_i16_def)
    then show False using that(1) fl by (simp add: e jn)
  qed
  assume "monthly_dates k r base step = Some ds"
  then have fl: "first \<le> 24836" "lib_date first" and ds: "ds = list_of_option (case (r_by_day r, r_by_set_pos r) of
             (day # _, Some pos) \<Rightarrow> jf_nth_weekday_of_month k first pos day
           | _ \<Rightarrow> day_of_month k first (counted_day r base))"
    by (auto simp: e to_i16_def jn split: bind_splits if_splits)
  have unit: "unit_of r d = u \<longleftrightarrow> year_at d = year_at first \<and> month_at d = month_at first" for d
    using unit_month [of d u] f by (simp add: un)
  have "sorted_wrt (<) ds \<and> set ds = {d. day_due r base d \<and> unit_of r d = u}" unfolding ds
  proof (rule list_of_option_spec)
    fix d
    note dm = day_of_month_spec [OF assms(1) fl(2,1) first0 f(3), of "counted_day r base" d]
    show "(case (r_by_day r, r_by_set_pos r) of
             (day # _, Some pos) \<Rightarrow> jf_nth_weekday_of_month k first pos day
           | _ \<Rightarrow> day_of_month k first (counted_day r base)) = Some d \<longleftrightarrow> day_due r base d \<and> unit_of r d = u"
    proof (cases "r_by_day r = [] \<or> r_by_set_pos r = None")
      case True
      then show ?thesis using dm unit [of d] by (auto simp: day_due_def assms(4) split: list.splits option.splits)
    next
      case False
      then obtain w ws n where w: "r_by_day r = w # ws" "r_by_set_pos r = Some n" by (cases "r_by_day r") auto
      then have "n \<in> {- 1, 1, 2, 3, 4}" using assms(4,5) by (cases ws) (simp_all add: check_by_parts_def)
      from nth_weekday_spec [OF assms(1) fl(2) f(3) this, of w d] show ?thesis
        using unit [of d] w by (auto simp: day_due_def assms(4))
    qed
  qed
  moreover have "step \<le> 24836"
  proof -
    have "u \<le> unit_of r 24836" using unit_mono [OF fl(1), of r] f(4) by simp
    moreover have "unit_of r 24836 = 24455" using civil_of [of 2037 12 31 24836] civil_2037 by (simp add: un civil_ok_def month_days_def)
    moreover have "unit_of r 0 = 23640" using civil_of [of 1970 1 1 0] civil_1970 by (simp add: un)
    moreover have "unit_of r 0 \<le> unit_of r base" using unit_mono [OF b(2)] .
    ultimately show ?thesis by (simp add: u_def)
  qed
  ultimately show "sorted_wrt (<) ds \<and> set ds = {d. day_due r base d \<and> unit_of r d = unit_of r base + step} \<and> step \<le> 24836"
    by (simp add: u_def)
qed

lemma year_first: "year_at (civil_to_days y 1 1) = y \<and> month_at (civil_to_days y 1 1) = 1 \<and> day_at (civil_to_days y 1 1) = 1"
  by (rule civil_of [OF _ refl]) simp

lemma yearly_dates_spec:
  assumes "civil_law k" and "start_date base" and "0 \<le> step" and "r_frequency r = Yearly" and "check_by_parts r = Inr ()"
  shows "yearly_dates k r base step = Some ds \<Longrightarrow>
      sorted_wrt (<) ds \<and> set ds = {d. day_due r base d \<and> unit_of r d = unit_of r base + step} \<and> step \<le> 24836"
    and "yearly_dates k r base step = None \<Longrightarrow> d \<le> 24836 \<Longrightarrow> unit_of r d < unit_of r base + step"
proof -
  have b: "lib_date base" "0 \<le> base" "base \<le> 24836" using assms(2) by (simp_all add: start_date_def lib_date_def)
  have l: "last_date k = 24836" using first_last_date [OF assms(1)] by simp
  have un: "unit_of r d = year_at d" for d by (simp add: unit_of_def assms(4))
  define y where "y = year_at base + step"
  define first where "first = civil_to_days y 1 1"
  define m where "m = (case r_by_month r of Some month \<Rightarrow> month | None \<Rightarrow> month_at base)"
  have m: "1 \<le> m" "m \<le> 12"
    using assms(4,5) civil_at_ok [of base] by (auto simp: m_def check_by_parts_def split: option.splits)
  have f: "year_at first = y" "month_at first = 1" "day_at first = 1" using year_first [of y] by (simp_all add: first_def)
  have y: "1970 \<le> y" using civil_year_mono [OF b(2)] assms(3) civil_of [of 1970 1 1 0] civil_1970 by (simp add: y_def)
  have first0: "0 \<le> first"
    using civil_year_mono [of first "- 1"] in_year_iff [of "- 1" 1969] next_year [of 1969] civil_1970 f(1) y
    by (cases "0 \<le> first") (auto simp: year_days_def leap_year_def)
  have c: "(case r_by_month_day r of Some day \<Rightarrow> day | None \<Rightarrow> jf_day k base) = counted_day r base"
    using lib(3) [OF assms(1) b(1)] by (simp add: counted_day_def split: option.split)
  have mb: "(case r_by_month r of Some month \<Rightarrow> month | None \<Rightarrow> jf_month k base) = m"
    using lib(2) [OF assms(1) b(1)] by (simp add: m_def split: option.split)
  have jn: "jf_new k y 1 1 = (if lib_date first then Some first else None)" by (simp add: lib(7) [OF assms(1)] first_def)
  have e: "yearly_dates k r base step = Option.bind (to_i16 y) (\<lambda>year. Option.bind (jf_new k year 1 1) (\<lambda>first.
     if first > 24836 then None
     else case r_by_year_day r of
       Some day \<Rightarrow> Some (list_of_option (if 1 \<le> from_end (jf_days_in_year k first) day \<and> from_end (jf_days_in_year k first) day \<le> jf_days_in_year k first
           then jf_with_day_of_year k first (from_end (jf_days_in_year k first) day) else None))
     | None \<Rightarrow> Option.bind (jf_new k year m 1) (\<lambda>in_month. Some (list_of_option (day_of_month k in_month (counted_day r base))))))"
    using c mb by (simp only: yearly_dates_def Let_def lib(1) [OF assms(1) b(1)] l y_def)
  have y36: "year_at 24836 = 2037" and y38: "year_at 24837 = 2038"
    using in_year_iff [of 24837 2038] next_year [of 2037] civil_to_days_day [of 2037 12 31]
      civil_of [of 2037 12 31 24836] civil_2037 next_month [of 12 2037]
    by (simp_all add: civil_ok_def month_days_def year_days_def leap_year_def)
  have y37: "first \<le> 24836 \<longleftrightarrow> y \<le> 2037"
    using civil_year_mono [of first 24836] civil_year_mono [of 24837 first] y36 y38 f(1) by (cases "first \<le> 24836") simp_all
  define mf where "mf = civil_to_days y m 1"
  have mf: "year_at mf = y" "month_at mf = m" "day_at mf = 1" using civil_of [of y m 1 mf] m by (simp_all add: mf_def)
  have mf_b: "0 \<le> mf" and mf_t: "y \<le> 2037 \<Longrightarrow> mf \<le> 24836"
  proof -
    have r: "first \<le> mf" using in_year_iff [of mf y] mf(1) by (simp add: first_def)
    with first0 show "0 \<le> mf" by simp
    assume "y \<le> 2037"
    show "mf \<le> 24836"
    proof (rule ccontr)
      assume "\<not> mf \<le> 24836"
      then have "civil_less (2037, 12, 31) (civil_from_days mf)"
        using civil_from_days_less_iff [of 24836 mf] civil_to_from [of 2037 12 31] civil_2037 by (simp add: civil_ok_def month_days_def)
      with mf m \<open>y \<le> 2037\<close> show False by (auto simp: civil_at civil_less_def)
    qed
  qed
  have i16: "y \<le> 2037 \<Longrightarrow> to_i16 y = Some y" using y by (simp add: to_i16_def)
  have nm: "y \<le> 2037 \<Longrightarrow> jf_new k y m 1 = Some mf" using mf_b mf_t m lib_dateI [of mf] by (simp add: lib(7) [OF assms(1)] mf_def)
  show "unit_of r d < unit_of r base + step" if "yearly_dates k r base step = None" "d \<le> 24836"
  proof (rule ccontr)
    assume "\<not> unit_of r d < unit_of r base + step"
    then have "y \<le> year_at d" by (simp add: un y_def)
    then have y7: "y \<le> 2037" using civil_year_mono [OF that(2)] civil_of [of 2037 12 31 24836] civil_2037
      by (simp add: civil_ok_def month_days_def)
    moreover have "first \<le> 24836" "lib_date first" using y37 y7 first0 by (simp_all add: lib_dateI)
    ultimately show False using that(1) by (simp add: e i16 jn nm split: option.splits)
  qed
  assume s: "yearly_dates k r base step = Some ds"
  then have fl: "first \<le> 24836" "lib_date first" by (auto simp: e to_i16_def jn split: bind_splits if_splits)
  then have y7: "y \<le> 2037" using y37 by simp
  have u: "unit_of r base + step = y" by (simp add: un y_def)
  have "sorted_wrt (<) ds \<and> set ds = {d. day_due r base d \<and> unit_of r d = y}"
  proof (cases "r_by_year_day r")
    case None
    have ml: "mf \<le> 24836" "lib_date mf" using mf_t [OF y7] mf_b by (simp_all add: lib_dateI)
    have ds: "ds = list_of_option (day_of_month k mf (counted_day r base))"
      using s None fl y7 by (simp add: e i16 jn nm)
    show ?thesis unfolding ds
      by (rule list_of_option_spec)
        (use day_of_month_spec [OF assms(1) ml(2,1) mf_b mf(3)] mf(1,2) None in \<open>auto simp: day_due_def assms(4) un m_def\<close>)
  next
    case (Some n)
    let ?n = "from_end (year_days y) n"
    have dy: "jf_days_in_year k first = year_days y" using lib(5) [OF assms(1) fl(2)] f(1) by simp
    have ds: "ds = list_of_option (if 1 \<le> ?n \<and> ?n \<le> year_days y then jf_with_day_of_year k first ?n else None)"
      using s Some fl y7 dy by (auto simp: e i16 jn split: if_splits)
    show ?thesis unfolding ds
    proof (rule list_of_option_spec)
      fix d
      have "1 \<le> ?n \<Longrightarrow> ?n \<le> year_days y \<Longrightarrow> jf_with_day_of_year k first ?n = Some (first + ?n - 1)"
        by (rule lib_day_of_year [OF assms(1) fl(2) f(2,3)]) (simp_all add: f(1))
      moreover have "day_due r base d \<and> unit_of r d = y \<longleftrightarrow> d - first + 1 = ?n \<and> first \<le> d \<and> d < first + year_days y"
        using in_year_iff [of d y] Some by (auto simp: day_due_def assms(4) un first_def)
      ultimately show "(if 1 \<le> ?n \<and> ?n \<le> year_days y then jf_with_day_of_year k first ?n else None) = Some d \<longleftrightarrow>
          day_due r base d \<and> unit_of r d = y" by auto
    qed
  qed
  moreover have "step \<le> 24836"
    using y7 civil_year_mono [OF b(2)] civil_of [of 1970 1 1 0] civil_1970 by (simp add: y_def)
  ultimately show "sorted_wrt (<) ds \<and> set ds = {d. day_due r base d \<and> unit_of r d = unit_of r base + step} \<and> step \<le> 24836"
    by (simp add: u)
qed

section \<open>The dates of a period\<close>

text \<open>A rule as its types and \<open>check_shape\<close> have it: a \<open>u16\<close> interval, and a list of days that reading left
  without repetition.\<close>

definition rule_typed :: "rule \<Rightarrow> bool" where
  "rule_typed r \<longleftrightarrow> 0 \<le> r_interval r \<and> distinct (r_by_day r) \<and> (\<forall>c. r_count r = Some c \<longrightarrow> 0 \<le> c)"

definition rule_ok :: "rule \<Rightarrow> bool" where
  "rule_ok r \<longleftrightarrow> 1 \<le> r_interval r \<and> r_interval r \<le> 4999 \<and> check_by_parts r = Inr () \<and> distinct (r_by_day r)"

lemma check_shape_ok: "rule_typed r \<Longrightarrow> check_shape k r = Inr u \<Longrightarrow> rule_ok r"
  by (cases "r_frequency r")
    (auto simp: check_shape_def rule_ok_def rule_typed_def max_interval_daily_def max_interval_weekly_def
      max_interval_monthly_def max_interval_yearly_def)

definition span_factor :: "rule \<Rightarrow> int" where
  "span_factor r = (if r_frequency r = Weekly then 7 else 1)"

lemma span_factor_ge [simp]: "1 \<le> span_factor r"
  by (simp add: span_factor_def)

theorem period_dates_spec:
  assumes "civil_law k" and "start_date base" and "rule_ok r" and "0 \<le> p"
  shows "period_dates k r base p = Some (Some ds) \<Longrightarrow> sorted_wrt (<) ds \<and>
      set ds = {d. day_due r base d \<and> unit_of r d = unit_of r base + p * r_interval r} \<and> p * r_interval r \<le> 24836"
    and "period_dates k r base p = Some None \<Longrightarrow> d \<le> 24836 \<Longrightarrow> unit_of r d < unit_of r base + p * r_interval r"
    and "p * r_interval r * span_factor r \<le> 7304484 \<Longrightarrow> period_dates k r base p \<noteq> None"
proof -
  have i: "1 \<le> r_interval r" and c: "check_by_parts r = Inr ()" and d: "distinct (r_by_day r)"
    using assms(3) by (simp_all add: rule_ok_def)
  let ?s = "p * r_interval r"
  have s: "0 \<le> ?s" using assms(4) i by simp
  then have mul: "mul_i64 p (r_interval r) = (if ?s < 2 ^ 63 then Some ?s else None)" by (simp add: mul_i64_def)
  note dd = daily_dates_spec [OF assms(1,2) s]
  note wd = weekly_dates_spec [OF assms(1,2) s _ d]
  note md = monthly_dates_spec [OF assms(1,2) s _ c]
  note yd = yearly_dates_spec [OF assms(1,2) s _ c]
  show "period_dates k r base p = Some (Some ds) \<Longrightarrow> sorted_wrt (<) ds \<and>
      set ds = {d. day_due r base d \<and> unit_of r d = unit_of r base + ?s} \<and> ?s \<le> 24836"
    using dd(1) wd(1) md(1) yd(1) by (cases "r_frequency r") (simp_all add: period_dates_def mul split: if_splits)
  show "unit_of r d < unit_of r base + ?s" if n: "period_dates k r base p = Some None" and "d \<le> 24836"
  proof (cases "?s < 2 ^ 63")
    case True
    have "24836 < base + ?s \<Longrightarrow> r_frequency r = Daily \<Longrightarrow> ?thesis" using that(2) by (simp add: unit_of_def)
    with True n dd(2) wd(2) [OF _ _ that(2)] md(2) [OF _ _ that(2)] yd(2) [OF _ _ that(2)] show ?thesis
      by (cases "r_frequency r") (simp_all add: period_dates_def mul)
  next
    case False
    have "unit_of r d \<le> unit_of r 24836" using that(2) by (rule unit_mono)
    moreover have "unit_of r 0 \<le> unit_of r base" using assms(2) by (intro unit_mono) (simp add: start_date_def)
    moreover have "unit_of r 24836 \<le> unit_of r 0 + 30000"
    proof -
      have y: "year_at 24836 = 2037" "month_at 24836 = 12" "year_at 0 = 1970" "month_at 0 = 1"
        using civil_of [of 2037 12 31 24836] civil_2037 civil_of [of 1970 1 1 0] civil_1970 by (simp_all add: civil_ok_def month_days_def)
      have "(24839 - weekday_number (rule_wkst r)) div 7 \<le> (3 - weekday_number (rule_wkst r)) div 7 + 30000" by linarith
      with y show ?thesis by (cases "r_frequency r") (simp_all add: unit_of_def)
    qed
    moreover have "(30000 :: int) < 2 ^ 63" by simp
    ultimately show ?thesis using False by linarith
  qed
  assume sp: "?s * span_factor r \<le> 7304484"
  moreover have "?s \<le> ?s * span_factor r" using s mult_left_mono [of 1 "span_factor r" ?s] by simp
  ultimately have "?s \<le> 7304484" by simp
  with sp show "period_dates k r base p \<noteq> None"
    using dd(3) wd(3) by (cases "r_frequency r") (simp_all add: period_dates_def mul span_factor_def)
qed

lemma week_of_spec:
  assumes "civil_law k" and "lib_date d" and "lib_date (d - 6)"
  shows "week_of k w d = 7 * ((d + 3 - weekday_number w) div 7) + weekday_number w - 3"
proof -
  have s: "jf_since k (jf_weekday k d) w = (weekday_at d - weekday_number w) mod 7"
    by (simp add: lib(9) [OF assms(1)] lib(6) [OF assms(1,2)])
  have "0 \<le> (weekday_at d - weekday_number w) mod 7" "(weekday_at d - weekday_number w) mod 7 < 7" by simp_all
  then have "lib_date (d - (weekday_at d - weekday_number w) mod 7)" using assms(2,3) by (auto simp: lib_date_def)
  then have "week_of k w d = d - (weekday_at d - weekday_number w) mod 7"
    by (simp add: week_of_def s lib(8) [OF assms(1,2)])
  then show ?thesis by (simp add: week_start)
qed

lemma periods_between_spec:
  assumes "civil_law k" and "start_date base" and "lib_date d" and "base < d"
  shows "periods_between k r base d = unit_of r d - unit_of r base"
proof -
  have b: "lib_date base" "lib_date (base - 6)" "lib_date (d - 6)" using assms(2-4) by (auto simp: start_date_def lib_date_def)
  show ?thesis
    by (cases "r_frequency r")
      (simp_all add: periods_between_def unit_of_def lib(1,2) [OF assms(1,3)] lib(1,2) [OF assms(1) b(1)]
        week_of_spec [OF assms(1) b(1,2)] week_of_spec [OF assms(1,3) b(3)])
qed

end
