(* ===== verification/Calendar_Rule_Facts.thy ===== *)
theory Calendar_Rule_Facts
  imports Calendar_Periods
begin

text \<open>
  The text of a recurrence rule: what \<open>write_rule\<close> writes of a rule that was read, \<open>read_rule\<close> reads back as that
  rule.  The parts are taken one at a time: \<open>slots\<close> lists what a rule writes, in order, as a name, the value when
  there is one, and what reading that value does to the rule being read.
\<close>

section \<open>What the texts of the date library are\<close>

text \<open>\<open>jiff\<close>'s documented formats: \<open>%Y%m%d\<close> writes a four-digit year, and reads what it wrote; \<open>%H%M%S\<close> has whole
  seconds; \<open>Display\<close> and \<open>FromStr\<close> are inverse; a zone of zero offset maps a time to the instant of the same name.\<close>

definition whole_second :: "int \<Rightarrow> bool" where "whole_second l \<longleftrightarrow> l mod 1000000000 = 0"

definition text_law :: "'a calendar_scheme \<Rightarrow> bool" where
  "text_law k \<longleftrightarrow>
     (\<forall>d. 0 \<le> d \<and> d \<le> 24836 \<longrightarrow> length (jf_date_text k d) = 8 \<and> list_all is_digit (jf_date_text k d) \<and>
       jf_read_date k (jf_date_text k d) = Some d \<and> jf_parse_date k (jf_show_date k d) = Some d) \<and>
     (\<forall>i. 0 \<le> date_of i \<and> date_of i \<le> 24836 \<and> whole_second i \<longrightarrow>
       (\<exists>t. jf_instant_text k i = t @ ''Z'' \<and> length t = 15 \<and> list_all (\<lambda>c. is_digit c \<or> c = CHR ''T'') t \<and>
         jf_read_local k t = Some i \<and> jf_utc k i = Some i) \<and> jf_parse_instant k (jf_show_instant k i) = Some i) \<and>
     (\<forall>t l. jf_read_local k t = Some l \<longrightarrow> whole_second l) \<and>
     (\<forall>l i. jf_utc k l = Some i \<longrightarrow> i = l \<and> jf_utc_local k i = l)"

section \<open>Numbers\<close>

lemma decimal_value_snoc: "decimal_value (s @ [c]) = decimal_value s * 10 + (of_char c - 48)"
  by (simp add: decimal_value_def)

lemma decimal_value_decimal [simp]: "decimal_value (decimal n) = n"
proof (induction n rule: decimal.induct)
  case (1 n)
  have c: "(of_char (char_of (48 + d :: nat) :: char) :: nat) = 48 + d" if "d < 10" for d using that by simp
  show ?case
  proof (cases "n < 10")
    case True
    then show ?thesis using c [of n] by (subst decimal.simps) (simp add: decimal_value_def)
  next
    case False
    with 1 show ?thesis using c [of "n mod 10"] by (subst decimal.simps) (simp add: decimal_value_snoc)
  qed
qed

lemma decimal_neq_Nil [simp]: "decimal n \<noteq> []"
  by (subst decimal.simps) simp

lemma hd_decimal: "is_digit (hd (decimal n))"
  using list_all_decimal [of n] by (cases "decimal n") simp_all

lemma strip_sign_decimal [simp]: "strip_sign (decimal n) = decimal n"
  using hd_decimal [of n] by (cases "decimal n") (auto simp: strip_sign_def is_digit_def)

lemma show_int_neq_Nil [simp]: "show_int i \<noteq> []"
  by (simp add: show_int_def)

lemma show_int_chars: "c \<in> set (show_int i) \<Longrightarrow> is_digit c \<or> c = CHR ''-''"
  using list_all_decimal by (fastforce simp: show_int_def list_all_iff split: if_splits)

lemma length_show_int: "- 10000 < i \<Longrightarrow> i < 10000 \<Longrightarrow> length (show_int i) \<le> 5"
  using length_decimal_le [of "nat i" 4] length_decimal_le [of "nat (- i)" 4] nat_less_iff [of i 10000]
  by (cases "i < 0") (auto simp: show_int_def)

lemma number_show_int:
  assumes "- 10000 < i" and "i < 10000" and "lo \<le> i" and "i \<le> hi"
  shows "number lo hi (show_int i) part = Inr i"
proof (cases "i < 0")
  case True
  moreover have "length (decimal (nat (- i))) \<le> 4" using length_decimal_le [of "nat (- i)" 4] assms(1) by simp
  moreover have "strip_sign (CHR ''-'' # decimal (nat (- i))) = decimal (nat (- i))" by (simp add: strip_sign_def)
  ultimately show ?thesis using assms(3,4) list_all_decimal by (simp add: number_def show_int_def Let_def)
next
  case False
  then have "length (decimal (nat i)) \<le> 4" using length_decimal_le [of "nat i" 4] assms(2) by simp
  moreover have "hd (decimal (nat i)) \<noteq> CHR ''-''" using hd_decimal [of "nat i"] by (auto simp: is_digit_def)
  ultimately show ?thesis using False assms(3,4) list_all_decimal by (simp add: number_def show_int_def Let_def)
qed

lemma single_show_int [simp]: "single (show_int i) part = Inr (show_int i)"
  using show_int_chars [of "CHR '',''" i] by (auto simp: single_def is_digit_def)

section \<open>Names and lists\<close>

lemma weekday_name_simps [simp]:
  "weekday_name Monday = ''MO''" "weekday_name Tuesday = ''TU''" "weekday_name Wednesday = ''WE''" "weekday_name Thursday = ''TH''"
  "weekday_name Friday = ''FR''" "weekday_name Saturday = ''SA''" "weekday_name Sunday = ''SU''"
  by (simp_all add: weekday_name_def weekdays_def)

lemma weekday_of_name [simp]: "weekday_of k (weekday_name d) = Inr d"
  by (cases d) (simp_all add: weekday_of_def weekdays_def)

lemma weekday_name_shape: "length (weekday_name d) = 2" "weekday_name d \<noteq> []" "c \<in> set (weekday_name d) \<Longrightarrow> is_upper c"
  by (cases d; auto simp: is_upper_def)+

lemma frequency_of_name [simp]: "frequency_of (frequency_name f) = Inr f"
  by (cases f) (simp_all add: frequency_of_def)

lemma frequency_name_shape: "length (frequency_name f) \<le> 7" "frequency_name f \<noteq> []" "c \<in> set (frequency_name f) \<Longrightarrow> is_upper c"
  by (cases f; auto simp: is_upper_def)+

lemma split_on_whole: "c \<notin> set s \<Longrightarrow> split_on c s = [s]"
  by (induction s) (auto split: list.splits)

lemma split_on_append: "c \<notin> set s \<Longrightarrow> split_on c (s @ c # t) = s # split_on c t"
  by (induction s) (auto split: list.splits)

lemma split_on_joined: "xs \<noteq> [] \<Longrightarrow> \<forall>x\<in>set xs. c \<notin> set x \<Longrightarrow> split_on c (joined [c] xs) = xs"
  by (induction "[c]" xs rule: joined.induct) (simp_all add: split_on_whole split_on_append)

lemma set_joined: "set (joined d xs) \<subseteq> set d \<union> \<Union> (set ` set xs)"
  by (induction d xs rule: joined.induct) auto

lemma length_joined: "length (joined [c] xs) \<le> sum_list (map (\<lambda>x. Suc (length x)) xs)"
  by (induction "[c]" xs rule: joined.induct) simp_all

lemma joined_neq_Nil: "x \<in> set xs \<Longrightarrow> x \<noteq> [] \<Longrightarrow> joined d xs \<noteq> []"
  by (induction d xs rule: joined.induct) auto

lemma read_days_names:
  "read_days k value (map weekday_name ds) s = Inr (set_rule (r_by_day_update (\<lambda>xs. xs @ ds)) s)"
proof (induction ds arbitrary: s)
  case Nil
  show ?case by (simp add: set_rule_def)
next
  case (Cons d ds)
  then show ?case by (simp add: weekday_name_shape Let_def set_rule_def comp_def)
qed

section \<open>The parts, one at a time\<close>

abbreviation reader :: "frequency option \<Rightarrow> rule \<Rightarrow> string list \<Rightarrow> rule_reader" where
  "reader f q seen \<equiv> \<lparr>rr_frequency = f, rr_rule = q, rr_seen = seen, rr_ordinal = None\<rparr>"

abbreviation part_text :: "string \<times> string \<Rightarrow> string" where
  "part_text \<equiv> (\<lambda>(name, value). name @ ''='' @ value)"

type_synonym slot = "string \<times> string option \<times> (rule \<Rightarrow> rule)"

fun slot_parts :: "slot \<Rightarrow> (string \<times> string) list" where
  "slot_parts (name, None, u) = []"
| "slot_parts (name, Some value, u) = [(name, value)]"

fun slot_reads :: "'a calendar_scheme \<Rightarrow> slot \<Rightarrow> bool" where
  "slot_reads k (name, None, u) \<longleftrightarrow> (\<forall>q. u q = q)"
| "slot_reads k (name, Some value, u) \<longleftrightarrow> value \<noteq> [] \<and> CHR ''='' \<notin> set name \<and>
     (\<forall>f q seen. read_value k name value (reader f q seen) = Inr (reader f (u q) seen))"

lemma read_slots:
  assumes "\<forall>c\<in>set cs. slot_reads k c" and "distinct (map fst cs)" and "set seen \<inter> set (map fst cs) = {}"
  shows "\<exists>seen'. read_parts k (map part_text (concat (map slot_parts cs))) (reader f q seen) =
    Inr (reader f (fold (\<lambda>c. snd (snd c)) cs q) seen')"
  using assms
proof (induction cs arbitrary: q seen)
  case (Cons c cs)
  obtain name vo u where c: "c = (name, vo, u)" by (cases c)
  show ?case
  proof (cases vo)
    case None
    have "u q = q" using Cons.prems(1) by (simp add: c None)
    then show ?thesis using Cons.IH [of seen q] Cons.prems by (simp add: c None)
  next
    case (Some v)
    have r: "v \<noteq> []" "CHR ''='' \<notin> set name" "\<And>f q seen. read_value k name v (reader f q seen) = Inr (reader f (u q) seen)"
      using Cons.prems(1) by (simp_all add: c Some)
    have "set (seen @ [name]) \<inter> set (map fst cs) = {}" "name \<notin> set seen" using Cons.prems(2,3) by (auto simp: c)
    then show ?thesis using Cons.IH [of "seen @ [name]" "u q"] Cons.prems r by (simp add: c Some split_once_append)
  qed
qed simp

definition slots :: "'a calendar_scheme \<Rightarrow> rule \<Rightarrow> slot list" where
  "slots k r =
     [(''COUNT'', map_option show_int (r_count r), r_count_update (\<lambda>v. case r_count r of None \<Rightarrow> v | v' \<Rightarrow> v')),
      (''UNTIL'', map_option (until_text k) (r_until r), r_until_update (\<lambda>v. case r_until r of None \<Rightarrow> v | v' \<Rightarrow> v')),
      (''INTERVAL'', if r_interval r \<noteq> 1 then Some (show_int (r_interval r)) else None,
        r_interval_update (\<lambda>v. if r_interval r \<noteq> 1 then r_interval r else v)),
      (''BYSETPOS'', map_option show_int (r_by_set_pos r), r_by_set_pos_update (\<lambda>v. case r_by_set_pos r of None \<Rightarrow> v | v' \<Rightarrow> v')),
      (''BYDAY'', if r_by_day r \<noteq> [] then Some (joined '','' (map weekday_name (r_by_day r))) else None,
        r_by_day_update (\<lambda>v. v @ r_by_day r)),
      (''BYMONTHDAY'', map_option show_int (r_by_month_day r),
        r_by_month_day_update (\<lambda>v. case r_by_month_day r of None \<Rightarrow> v | v' \<Rightarrow> v')),
      (''BYMONTH'', map_option show_int (r_by_month r), r_by_month_update (\<lambda>v. case r_by_month r of None \<Rightarrow> v | v' \<Rightarrow> v')),
      (''BYYEARDAY'', map_option show_int (r_by_year_day r),
        r_by_year_day_update (\<lambda>v. case r_by_year_day r of None \<Rightarrow> v | v' \<Rightarrow> v')),
      (''WKST'', map_option weekday_name (r_wkst r), r_wkst_update (\<lambda>v. case r_wkst r of None \<Rightarrow> v | v' \<Rightarrow> v'))]"

lemma slot_parts_option: "slot_parts (name, map_option f v, u) = (case v of Some x \<Rightarrow> [(name, f x)] | None \<Rightarrow> [])"
  by (cases v) simp_all

lemma slot_parts_if: "slot_parts (name, if b then Some x else None, u) = (if b then [(name, x)] else [])"
  by simp

lemma rule_parts_slots: "rule_parts k r = (''FREQ'', frequency_name (r_frequency r)) # concat (map slot_parts (slots k r))"
  by (simp add: rule_parts_def slots_def slot_parts_option slot_parts_if del: slot_parts.simps)

lemma slots_names: "distinct (map fst (slots k r))" "''FREQ'' \<notin> set (map fst (slots k r))"
  by (simp_all add: slots_def)

lemma slots_result: "(fold (\<lambda>c. snd (snd c)) (slots k r) empty_rule)\<lparr>r_frequency := r_frequency r\<rparr> = r"
  by (cases r) (simp add: slots_def empty_rule_def split: option.splits)

section \<open>A rule as it is read\<close>

definition until_ok :: "'a calendar_scheme \<Rightarrow> until \<Rightarrow> bool" where
  "until_ok k u = (case u of UntilDate d \<Rightarrow> True | UntilUtc i \<Rightarrow> whole_second i \<and> jf_utc_local k i = i)"

definition numbers_ok :: "'a calendar_scheme \<Rightarrow> rule \<Rightarrow> bool" where
  "numbers_ok k r \<longleftrightarrow> 0 \<le> r_interval r \<and> (\<forall>c. r_count r = Some c \<longrightarrow> 0 \<le> c) \<and> (\<forall>u. r_until r = Some u \<longrightarrow> until_ok k u)"

definition canonical :: "'a calendar_scheme \<Rightarrow> rule \<Rightarrow> bool" where
  "canonical k r \<longleftrightarrow> numbers_ok k r \<and> distinct (r_by_day r) \<and> sorted (map (jf_offset k) (r_by_day r)) \<and>
     (r_wkst r = Some Monday \<or> \<not> (r_frequency r = Weekly \<and> r_by_day r \<noteq> []) \<longrightarrow> r_wkst r = None) \<and> check_shape k r = Inr ()"

lemma numbers_ok_updates [simp]:
  "numbers_ok k (r\<lparr>r_by_day := ds\<rparr>) = numbers_ok k r" "numbers_ok k (r\<lparr>r_by_set_pos := n\<rparr>) = numbers_ok k r"
  "numbers_ok k (r\<lparr>r_frequency := f\<rparr>) = numbers_ok k r" "numbers_ok k (r\<lparr>r_wkst := w\<rparr>) = numbers_ok k r"
  by (simp_all add: numbers_ok_def)

lemma text_lawD:
  assumes "text_law k"
  shows "jf_read_local k t = Some l \<Longrightarrow> whole_second l" and "jf_utc k l = Some i \<Longrightarrow> i = l" and "jf_utc k l = Some i \<Longrightarrow> jf_utc_local k i = l"
  using assms unfolding text_law_def by blast+

lemma until_ok_read: "text_law k \<Longrightarrow> read_until k value = Inr u \<Longrightarrow> until_ok k u"
  by (auto simp: read_until_def Let_def until_ok_def split: if_splits until.splits Option.bind_splits
      dest: text_lawD(1) text_lawD(2) text_lawD(3))

lemma number_bounds: "number lo hi value part = Inr n \<Longrightarrow> lo \<le> n \<and> n \<le> hi"
  by (auto simp: number_def Let_def)

lemma read_days_numbers: "read_days k value days s = Inr s' \<Longrightarrow> numbers_ok k (rr_rule s') = numbers_ok k (rr_rule s)"
proof (induction days arbitrary: s)
  case (Cons day days)
  from Cons.prems obtain w where
    "read_days k value days (s\<lparr>rr_rule := (rr_rule s)\<lparr>r_by_day := r_by_day (rr_rule s) @ [w]\<rparr>\<rparr>) = Inr s' \<or>
     (\<exists>n. read_days k value days (s\<lparr>rr_ordinal := Some (n, w)\<rparr>) = Inr s')"
    by (auto simp: Let_def split: if_splits)
  then show ?case using Cons.IH by fastforce
qed simp

lemma read_value_numbers:
  assumes "text_law k" and "read_value k name value s = Inr s'" and "numbers_ok k (rr_rule s)"
  shows "numbers_ok k (rr_rule s')"
  using assms(2,3) until_ok_read [OF assms(1), of "value"]
  by (auto simp: read_value_def numbers_ok_def set_rule_def number_u16_def dest: number_bounds read_days_numbers [of k "value" _ s "s'"]
      split: if_splits)

lemma read_parts_numbers:
  "text_law k \<Longrightarrow> read_parts k parts s = Inr s' \<Longrightarrow> numbers_ok k (rr_rule s) \<Longrightarrow> numbers_ok k (rr_rule s')"
proof (induction parts arbitrary: s)
  case (Cons part parts)
  from Cons.prems(2) obtain name v s1 where
    "read_value k name v (s\<lparr>rr_seen := rr_seen s @ [name]\<rparr>) = Inr s1" "read_parts k parts s1 = Inr s'" by auto
  with Cons.IH [of s1] Cons.prems(1,3) read_value_numbers [OF Cons.prems(1) this(1)] show ?case by simp
qed simp

lemma length_remdups_adj_eq: "length (remdups_adj xs) = length xs \<Longrightarrow> remdups_adj xs = xs"
proof (induction xs rule: remdups_adj.induct)
  case (3 x y xs)
  then show ?case using remdups_adj_length [of "y # xs"] by (auto split: if_splits)
qed simp_all

lemma sorted_adjacent_distinct:
  "sorted (map f xs) \<Longrightarrow> inj f \<Longrightarrow> remdups_adj xs = xs \<Longrightarrow> distinct (xs :: 'a list)" for f :: "'a \<Rightarrow> int"
proof (induction xs rule: remdups_adj.induct)
  case (3 x y xs)
  then have ne: "x \<noteq> y" and r: "remdups_adj (y # xs) = y # xs"
    using remdups_adj_length [of "y # xs"] by (auto split: if_splits dest: arg_cong [of _ _ length])
  have "x \<noteq> z" if "z \<in> set (y # xs)" for z
  proof
    assume "x = z"
    with that 3(3) have "f y \<le> f x" "f x \<le> f y" by auto
    then show False using ne 3(4) by (metis injD order_antisym)
  qed
  with 3(2) [OF ne _ 3(4) r] 3(3) show ?case by auto
qed simp_all

lemma drop_wkst_fields [simp]: "r_by_day (drop_wkst r) = r_by_day r" "r_frequency (drop_wkst r) = r_frequency r"
    "numbers_ok k (drop_wkst r) = numbers_ok k r"
  by (simp_all add: drop_wkst_def)

lemma normal_rule_canonical:
  assumes "civil_law k" and "numbers_ok k q" and "normal_rule k q = Inr r"
  shows "canonical k r"
proof -
  let ?days = "sort_key (jf_offset k) (r_by_day q)"
  have l: "length (remdups_adj ?days) = length ?days" and r: "r = drop_wkst (q\<lparr>r_by_day := remdups_adj ?days\<rparr>)"
    and c: "check_shape k r = Inr ()"
    using assms(3) by (auto simp: normal_rule_def Let_def simp del: length_sort)
  have "remdups_adj ?days = ?days" by (rule length_remdups_adj_eq [OF l])
  then have d: "r_by_day r = ?days" "remdups_adj (r_by_day r) = r_by_day r" by (simp_all add: r)
  have s: "sorted (map (jf_offset k) (r_by_day r))" by (simp add: d)
  have "inj (jf_offset k)" by (simp add: inj_def lib(10) [OF assms(1)])
  from sorted_adjacent_distinct [OF s this d(2)] have "distinct (r_by_day r)" .
  moreover have "numbers_ok k r" by (simp add: r assms(2))
  moreover have "r_wkst r = Some Monday \<or> \<not> (r_frequency r = Weekly \<and> r_by_day r \<noteq> []) \<longrightarrow> r_wkst r = None"
    by (auto simp: r drop_wkst_def)
  ultimately show ?thesis using s c by (simp add: canonical_def)
qed

lemma finish_rule_canonical:
  assumes "civil_law k" and "numbers_ok k (rr_rule s)" and "finish_rule k s = Inr r"
  shows "canonical k r"
proof -
  from assms(3) obtain f q where "ordinal_day s ((rr_rule s)\<lparr>r_frequency := f\<rparr>) = Inr q" and n: "normal_rule k q = Inr r"
    by (auto simp: finish_rule_def)
  with assms(2) have "numbers_ok k q" by (auto simp: ordinal_day_def split: option.splits prod.splits)
  from normal_rule_canonical [OF assms(1) this n] show ?thesis .
qed

lemma read_rule_canonical:
  assumes "civil_law k" and "text_law k" and "read_rule k text = Inr r"
  shows "canonical k r"
proof -
  from assms(3) obtain s where s: "read_parts k (split_on (CHR '';'') text) empty_reader = Inr s" "finish_rule k s = Inr r"
    by (auto simp: read_rule_def)
  have "numbers_ok k (rr_rule empty_reader)" by (simp add: numbers_ok_def empty_reader_def empty_rule_def)
  from read_parts_numbers [OF assms(2) s(1) this] have "numbers_ok k (rr_rule s)" .
  from finish_rule_canonical [OF assms(1) this s(2)] show ?thesis .
qed

lemma finish_rule_canonical_again:
  assumes "canonical k r" and "q\<lparr>r_frequency := r_frequency r\<rparr> = r"
  shows "finish_rule k (reader (Some (r_frequency r)) q seen) = Inr r"
proof -
  have s: "sort_key (jf_offset k) (r_by_day r) = r_by_day r"
    using assms(1) by (simp add: canonical_def sort_key_id_if_sorted)
  have d: "remdups_adj (r_by_day r) = r_by_day r"
    using assms(1) by (simp add: canonical_def remdups_adj_distinct)
  have c: "check_shape k r = Inr ()" "r_wkst r = Some Monday \<or> \<not> (r_frequency r = Weekly \<and> r_by_day r \<noteq> []) \<Longrightarrow> r_wkst r = None"
    using assms(1) by (auto simp: canonical_def)
  have e: "r\<lparr>r_by_day := r_by_day r\<rparr> = r" "r_wkst r = None \<Longrightarrow> r\<lparr>r_wkst := None\<rparr> = r" by (cases r, simp)+
  have w: "drop_wkst r = r" using c(2) e(2) by (auto simp: drop_wkst_def)
  show ?thesis by (simp add: finish_rule_def ordinal_day_def normal_rule_def Let_def assms(2) s d e(1) w c(1))
qed

section \<open>What was read is read back\<close>

lemma by_parts_bounds:
  assumes "check_by_parts r = Inr ()"
  shows "r_by_set_pos r = Some n \<Longrightarrow> - 1 \<le> n \<and> n \<le> 4" and "r_by_month_day r = Some n \<Longrightarrow> - 31 \<le> n \<and> n \<le> 31"
    and "r_by_month r = Some n \<Longrightarrow> 1 \<le> n \<and> n \<le> 12" and "r_by_year_day r = Some n \<Longrightarrow> - 366 \<le> n \<and> n \<le> 366"
  using assms
  by (cases "r_frequency r"; auto simp: check_by_parts_def check_month_day_def split: list.splits option.splits)+

lemma check_shape_parts:
  assumes "check_shape k r = Inr ()"
  shows "check_by_parts r = Inr ()" and "r_interval r < 5000" and "r_count r = Some n \<Longrightarrow> n < 1000"
    and "r_until r = Some u \<Longrightarrow> first_date k \<le> until_date k u \<and> until_date k u \<le> last_date k"
  using assms
  by (cases "r_frequency r"; auto simp: check_shape_def max_interval_daily_def max_interval_weekly_def max_interval_monthly_def
      max_interval_yearly_def max_count_def)+

lemma until_text_read:
  assumes "civil_law k" and "text_law k" and "until_ok k u" and "first_date k \<le> until_date k u" and "until_date k u \<le> last_date k"
  shows "read_until k (until_text k u) = Inr u" and "length (until_text k u) \<le> 16" and "until_text k u \<noteq> []"
    and "list_all (\<lambda>c. is_digit c \<or> is_upper c) (until_text k u)"
proof -
  have "read_until k (until_text k u) = Inr u \<and> length (until_text k u) \<le> 16 \<and> until_text k u \<noteq> [] \<and>
      list_all (\<lambda>c. is_digit c \<or> is_upper c) (until_text k u)"
  proof (cases u)
    case (UntilDate d)
    then have "0 \<le> d" "d \<le> 24836" using assms(4,5) first_last_date [OF assms(1)] by (simp_all add: until_date_def)
    then have "length (jf_date_text k d) = 8" "list_all is_digit (jf_date_text k d)" "jf_read_date k (jf_date_text k d) = Some d"
      using assms(2) by (simp_all add: text_law_def)
    then show ?thesis by (auto simp: UntilDate until_text_def read_until_def list_all_iff)
  next
    case (UntilUtc i)
    then have w: "whole_second i" "jf_utc_local k i = i" using assms(3) by (simp_all add: until_ok_def)
    then have "0 \<le> date_of i" "date_of i \<le> 24836" using assms(4,5) first_last_date [OF assms(1)] UntilUtc by (simp_all add: until_date_def)
    with w(1) obtain t where t: "jf_instant_text k i = t @ ''Z''" "length t = 15" "list_all (\<lambda>c. is_digit c \<or> c = CHR ''T'') t"
      "jf_read_local k t = Some i" "jf_utc k i = Some i" using assms(2) unfolding text_law_def by blast
    have e: "until_text k u = t @ ''Z''" using t(1) by (simp add: UntilUtc until_text_def)
    have "take 15 (t @ ''Z'') = t" "length (t @ ''Z'') = 16" "last (t @ ''Z'') = CHR ''Z''" using t(2) by simp_all
    then have "read_until k (t @ ''Z'') = Inr u" using t(4,5) unfolding read_until_def Let_def UntilUtc by (simp only:) simp
    moreover have "is_upper (CHR ''T'')" "is_upper (CHR ''Z'')" by (simp_all add: is_upper_def less_eq_char_def)
    then have "list_all (\<lambda>c. is_digit c \<or> is_upper c) (t @ ''Z'')" using t(3) by (auto simp: list_all_iff)
    ultimately show ?thesis by (simp add: e t(2))
  qed
  then show "read_until k (until_text k u) = Inr u" "length (until_text k u) \<le> 16" "until_text k u \<noteq> []"
    "list_all (\<lambda>c. is_digit c \<or> is_upper c) (until_text k u)" by blast+
qed

lemma days_text_read:
  assumes "ds \<noteq> []"
  shows "read_days k value (split_on (CHR '','') (joined '','' (map weekday_name ds))) s = Inr (set_rule (r_by_day_update (\<lambda>xs. xs @ ds)) s)"
    and "joined '','' (map weekday_name ds) \<noteq> []"
proof -
  have "\<forall>x\<in>set (map weekday_name ds). CHR '','' \<notin> set x"
    using weekday_name_shape(3) [of "CHR '',''"] by (auto simp: is_upper_def less_eq_char_def)
  then show "read_days k value (split_on (CHR '','') (joined '','' (map weekday_name ds))) s = Inr (set_rule (r_by_day_update (\<lambda>xs. xs @ ds)) s)"
    using assms by (simp add: split_on_joined read_days_names)
  show "joined '','' (map weekday_name ds) \<noteq> []"
    using joined_neq_Nil [of "weekday_name (hd ds)" "map weekday_name ds"] assms by (simp add: weekday_name_shape)
qed

lemma slot_option:
  fixes upd :: "('b option \<Rightarrow> 'b option) \<Rightarrow> rule \<Rightarrow> rule"
  assumes "\<And>x. v = Some x \<Longrightarrow> g x \<noteq> [] \<and> (\<forall>f q seen. read_value k name (g x) (reader f q seen) = Inr (reader f (upd (\<lambda>_. Some x) q) seen))"
    and "CHR ''='' \<notin> set name" and "\<And>q. upd (\<lambda>y. y) q = q"
  shows "slot_reads k (name, map_option g v, upd (\<lambda>y. case v of None \<Rightarrow> y | v' \<Rightarrow> v'))"
  using assms by (cases v) simp_all

lemma slots_read:
  assumes "civil_law k" and "text_law k" and "canonical k r"
  shows "\<forall>c\<in>set (slots k r). slot_reads k c"
proof -
  have c: "check_shape k r = Inr ()" and n: "numbers_ok k r" using assms(3) by (simp_all add: canonical_def)
  note p = check_shape_parts [OF c]
  note b = by_parts_bounds [OF p(1)]
  have count: "- 10000 < n \<and> n < 10000 \<and> 0 \<le> n" if "r_count r = Some n" for n using p(3) [OF that] n that by (simp add: numbers_ok_def)
  have until: "read_until k (until_text k u) = Inr u \<and> until_text k u \<noteq> []" if "r_until r = Some u" for u
    using until_text_read [OF assms(1,2)] p(4) [OF that] n that by (simp add: numbers_ok_def)
  note slot = slot_option [where k = k]
  have "slot_reads k (''COUNT'', map_option show_int (r_count r), r_count_update (\<lambda>v. case r_count r of None \<Rightarrow> v | v' \<Rightarrow> v'))"
    by (rule slot) (use count in \<open>force simp: read_value_def number_u16_def number_show_int set_rule_def\<close>, simp_all)
  moreover have "slot_reads k (''UNTIL'', map_option (until_text k) (r_until r), r_until_update (\<lambda>v. case r_until r of None \<Rightarrow> v | v' \<Rightarrow> v'))"
    by (rule slot) (use until in \<open>force simp: read_value_def set_rule_def\<close>, simp_all)
  moreover have "slot_reads k (''INTERVAL'', if r_interval r \<noteq> 1 then Some (show_int (r_interval r)) else None,
        r_interval_update (\<lambda>v. if r_interval r \<noteq> 1 then r_interval r else v))"
    using p(2) n by (simp add: read_value_def number_u16_def number_show_int set_rule_def numbers_ok_def)
  moreover have "slot_reads k (''BYSETPOS'', map_option show_int (r_by_set_pos r), r_by_set_pos_update (\<lambda>v. case r_by_set_pos r of None \<Rightarrow> v | v' \<Rightarrow> v'))"
    by (rule slot) (use b(1) in \<open>force simp: read_value_def number_i8_def number_show_int set_rule_def\<close>, simp_all)
  moreover have "slot_reads k (''BYDAY'', if r_by_day r \<noteq> [] then Some (joined '','' (map weekday_name (r_by_day r))) else None,
        r_by_day_update (\<lambda>v. v @ r_by_day r))"
    using days_text_read(1) [where k = k and ds = "r_by_day r"] days_text_read(2) [of "r_by_day r"] by (simp add: read_value_def set_rule_def)
  moreover have "slot_reads k (''BYMONTHDAY'', map_option show_int (r_by_month_day r),
        r_by_month_day_update (\<lambda>v. case r_by_month_day r of None \<Rightarrow> v | v' \<Rightarrow> v'))"
    by (rule slot) (use b(2) in \<open>force simp: read_value_def number_i8_def number_show_int set_rule_def\<close>, simp_all)
  moreover have "slot_reads k (''BYMONTH'', map_option show_int (r_by_month r), r_by_month_update (\<lambda>v. case r_by_month r of None \<Rightarrow> v | v' \<Rightarrow> v'))"
    by (rule slot) (use b(3) in \<open>force simp: read_value_def number_i8_def number_show_int set_rule_def\<close>, simp_all)
  moreover have "slot_reads k (''BYYEARDAY'', map_option show_int (r_by_year_day r),
        r_by_year_day_update (\<lambda>v. case r_by_year_day r of None \<Rightarrow> v | v' \<Rightarrow> v'))"
    by (rule slot) (use b(4) in \<open>force simp: read_value_def number_i16_def number_show_int set_rule_def\<close>, simp_all)
  moreover have "slot_reads k (''WKST'', map_option weekday_name (r_wkst r), r_wkst_update (\<lambda>v. case r_wkst r of None \<Rightarrow> v | v' \<Rightarrow> v'))"
    by (rule slot) (simp_all add: read_value_def set_rule_def weekday_name_shape)
  ultimately show ?thesis by (simp add: slots_def del: slot_reads.simps)
qed

text \<open>What is written has only characters of the syntax, and fits.\<close>

definition value_char :: "char \<Rightarrow> bool" where
  "value_char c \<longleftrightarrow> is_digit c \<or> is_upper c \<or> c = CHR ''-'' \<or> c = CHR '',''"

lemma value_char_simps: "\<not> value_char (CHR '';'')" "value_char c \<Longrightarrow> rule_char c" "rule_char (CHR '';'')" "rule_char (CHR ''='')"
  by (auto simp: value_char_def rule_char_def is_alphanumeric_def is_digit_def is_upper_def less_eq_char_def)

fun slot_length :: "slot \<Rightarrow> nat" where
  "slot_length (name, None, u) = 0"
| "slot_length (name, Some value, u) = length name + 2 + length value"

fun slot_chars :: "slot \<Rightarrow> bool" where
  "slot_chars (name, None, u) = True"
| "slot_chars (name, Some value, u) \<longleftrightarrow> list_all value_char name \<and> list_all value_char value"

lemma slots_length: "sum_list (map (\<lambda>p. Suc (length (part_text p))) (concat (map slot_parts cs))) = sum_list (map slot_length cs)"
proof (induction cs)
  case (Cons c cs)
  then show ?case by (cases c rule: slot_length.cases) simp_all
qed simp

lemma slots_chars:
  assumes "\<forall>c\<in>set cs. slot_chars c" and "part \<in> set (map part_text (concat (map slot_parts cs)))" and "x \<in> set part"
  shows "value_char x \<or> x = CHR ''=''"
proof -
  from assms(2) obtain c p where c: "c \<in> set cs" "p \<in> set (slot_parts c)" "part = part_text p" by auto
  with assms(1,3) show ?thesis by (cases c rule: slot_length.cases) (auto simp: list_all_iff)
qed

lemma show_int_value: "list_all value_char (show_int i)"
  using show_int_chars by (auto simp: list_all_iff value_char_def)

lemma upper_value: "(\<And>c. c \<in> set s \<Longrightarrow> is_upper c) \<Longrightarrow> list_all value_char s"
  by (simp add: list_all_iff value_char_def)

lemma days_value: "list_all value_char (joined '','' (map weekday_name ds))"
  using set_joined [of "'',''" "map weekday_name ds"] weekday_name_shape(3)
  by (fastforce simp: list_all_iff value_char_def)

lemma weekday_value: "list_all value_char (weekday_name d)"
  by (rule upper_value) (rule weekday_name_shape(3))

lemma slot_chars_option: "(\<And>x. v = Some x \<Longrightarrow> list_all value_char (g x)) \<Longrightarrow> list_all value_char name \<Longrightarrow> slot_chars (name, map_option g v, u)"
  by (cases v) simp_all

lemma slot_chars_if: "list_all value_char x \<Longrightarrow> list_all value_char name \<Longrightarrow> slot_chars (name, if b then Some x else None, u)"
  by simp

lemma slot_length_option: "(\<And>x. v = Some x \<Longrightarrow> length (g x) \<le> n) \<Longrightarrow> slot_length (name, map_option g v, u) \<le> length name + 2 + n"
  by (cases v) simp_all

lemma weekdays_at_most: "distinct ds \<Longrightarrow> length ds \<le> 7" for ds :: "weekday list"
proof -
  assume "distinct ds"
  moreover have "set ds \<subseteq> {Monday, Tuesday, Wednesday, Thursday, Friday, Saturday, Sunday}" using weekday.exhaust by blast
  then have "card (set ds) \<le> card {Monday, Tuesday, Wednesday, Thursday, Friday, Saturday, Sunday}" by (rule card_mono [rotated]) simp
  ultimately show ?thesis by (simp add: distinct_card)
qed

lemma slots_shape:
  assumes "civil_law k" and "text_law k" and "canonical k r"
  shows "\<forall>c\<in>set (slots k r). slot_chars c" and "sum_list (map slot_length (slots k r)) \<le> 200"
proof -
  have c: "check_shape k r = Inr ()" and n: "numbers_ok k r" using assms(3) by (simp_all add: canonical_def)
  note p = check_shape_parts [OF c]
  note b = by_parts_bounds [OF p(1)]
  have until: "list_all value_char (until_text k u) \<and> length (until_text k u) \<le> 16" if "r_until r = Some u" for u
  proof -
    have "until_ok k u" using n that by (simp add: numbers_ok_def)
    from until_text_read(2,4) [OF assms(1,2) this] p(4) [OF that] show ?thesis by (auto simp: list_all_iff value_char_def)
  qed
  show "\<forall>c\<in>set (slots k r). slot_chars c"
    using slot_chars_option [of "r_until r" "until_text k" "''UNTIL''"] until
    by (simp add: slots_def slot_chars_option slot_chars_if show_int_value weekday_value days_value value_char_def is_upper_def less_eq_char_def
        del: slot_chars.simps(2) if_split)
  have days: "length (joined '','' (map weekday_name (r_by_day r))) \<le> 21"
    using length_joined [of "CHR '',''" "map weekday_name (r_by_day r)"] weekdays_at_most [of "r_by_day r"] assms(3)
    by (simp add: canonical_def weekday_name_shape comp_def sum_list_triv)
  have num: "slot_length (name, map_option show_int v, u) \<le> length name + 7"
    if "\<And>n. v = Some n \<Longrightarrow> - 10000 < n \<and> n < 10000" for name v u
    using slot_length_option [of v show_int 5 name u] that length_show_int by simp
  have "slot_length (''COUNT'', map_option show_int (r_count r), u) \<le> 12" for u
    using num [of "r_count r" "''COUNT''" u] p(3) n by (force simp: numbers_ok_def)
  moreover have "slot_length (''UNTIL'', map_option (until_text k) (r_until r), u) \<le> 23" for u
    using slot_length_option [of "r_until r" "until_text k" 16 "''UNTIL''" u] until by simp
  moreover have "slot_length (''INTERVAL'', if r_interval r \<noteq> 1 then Some (show_int (r_interval r)) else None, u) \<le> 15" for u
    using length_show_int [of "r_interval r"] p(2) n by (simp add: numbers_ok_def)
  moreover have "slot_length (''BYSETPOS'', map_option show_int (r_by_set_pos r), u) \<le> 15" for u
    using num [of "r_by_set_pos r" "''BYSETPOS''" u] b(1) by force
  moreover have "slot_length (''BYDAY'', if r_by_day r \<noteq> [] then Some (joined '','' (map weekday_name (r_by_day r))) else None, u) \<le> 28" for u
    using days by simp
  moreover have "slot_length (''BYMONTHDAY'', map_option show_int (r_by_month_day r), u) \<le> 17" for u
    using num [of "r_by_month_day r" "''BYMONTHDAY''" u] b(2) by force
  moreover have "slot_length (''BYMONTH'', map_option show_int (r_by_month r), u) \<le> 14" for u
    using num [of "r_by_month r" "''BYMONTH''" u] b(3) by force
  moreover have "slot_length (''BYYEARDAY'', map_option show_int (r_by_year_day r), u) \<le> 16" for u
    using num [of "r_by_year_day r" "''BYYEARDAY''" u] b(4) by force
  moreover have "slot_length (''WKST'', map_option weekday_name (r_wkst r), u) \<le> 8" for u
    using slot_length_option [of "r_wkst r" weekday_name 2 "''WKST''" u] by (simp add: weekday_name_shape)
  ultimately have "\<forall>c\<in>set (zip (slots k r) [12, 23, 15, 15, 28, 17, 14, 16, 8]). slot_length (fst c) \<le> snd c"
    by (simp add: slots_def del: slot_length.simps)
  then show "sum_list (map slot_length (slots k r)) \<le> 200" by (simp add: slots_def del: slot_length.simps)
qed

theorem written_rule_is_read:
  assumes "civil_law k" and "text_law k" and "canonical k r"
  shows "read_rule k (write_rule k r) = Inr r"
proof -
  let ?first = "part_text (''FREQ'', frequency_name (r_frequency r))"
  let ?parts = "?first # map part_text (concat (map slot_parts (slots k r)))"
  note shape = slots_shape [OF assms]
  have w: "write_rule k r = joined '';'' ?parts" by (simp add: write_rule_def rule_parts_slots)
  have first: "list_all value_char (frequency_name (r_frequency r))" by (rule upper_value) (rule frequency_name_shape(3))
  have freq: "list_all value_char ''FREQ''" by (rule upper_value) (auto simp: is_upper_def less_eq_char_def)
  have chars: "value_char x \<or> x = CHR ''=''" if "part \<in> set ?parts" "x \<in> set part" for part x
  proof (cases "part = ?first")
    case True
    with that(2) first freq show ?thesis by (auto simp: list_all_iff)
  next
    case False
    with that(1) have "part \<in> set (map part_text (concat (map slot_parts (slots k r))))" by simp
    from slots_chars [OF shape(1) this that(2)] show ?thesis .
  qed
  have whole: "list_all rule_char (write_rule k r)"
    unfolding w list_all_iff
  proof
    fix x assume "x \<in> set (joined '';'' ?parts)"
    with set_joined [of "'';''" ?parts] have "x = CHR '';'' \<or> (\<exists>part\<in>set ?parts. x \<in> set part)" by auto
    with chars value_char_simps show "rule_char x" by metis
  qed
  have "length (write_rule k r) \<le> sum_list (map (\<lambda>x. Suc (length x)) ?parts)" unfolding w by (rule length_joined)
  also have "\<dots> = Suc (length ?first) + sum_list (map slot_length (slots k r))"
    by (simp add: comp_def flip: slots_length)
  also have "\<dots> \<le> 256" using shape(2) frequency_name_shape(1) [of "r_frequency r"] by simp
  finally have len: "length (write_rule k r) \<le> max_rule_len" by (simp add: max_rule_len_def)
  have ne: "write_rule k r \<noteq> []" unfolding w by (rule joined_neq_Nil [of ?first]) simp_all
  have "CHR '';'' \<notin> set part" if "part \<in> set ?parts" for part
  proof
    assume "CHR '';'' \<in> set part"
    from chars [OF that this] value_char_simps(1) show False by simp
  qed
  then have split: "split_on (CHR '';'') (write_rule k r) = ?parts" unfolding w by (intro split_on_joined) simp_all
  let ?q = "fold (\<lambda>c. snd (snd c)) (slots k r) empty_rule"
  have "set [''FREQ''] \<inter> set (map fst (slots k r)) = {}" using slots_names(2) by simp
  from read_slots [OF slots_read [OF assms] slots_names(1) this] obtain seen where
    "read_parts k (map part_text (concat (map slot_parts (slots k r)))) (reader (Some (r_frequency r)) empty_rule [''FREQ'']) =
      Inr (reader (Some (r_frequency r)) ?q seen)" by blast
  moreover have "split_once (CHR ''='') ?first = Some (''FREQ'', frequency_name (r_frequency r))"
    using split_once_append [of "CHR ''=''" "''FREQ''" "frequency_name (r_frequency r)"] by simp
  ultimately have parts: "read_parts k ?parts empty_reader = Inr (reader (Some (r_frequency r)) ?q seen)"
    by (simp add: empty_reader_def read_value_def frequency_name_shape)
  have "read_rule k (write_rule k r) = bindr (read_parts k (split_on (CHR '';'') (write_rule k r)) empty_reader) (finish_rule k)"
    using ne len whole by (simp add: read_rule_def)
  then show ?thesis
    unfolding split parts bindr_simps using finish_rule_canonical_again [OF assms(3) slots_result] by simp
qed

text \<open>Sent to a client and back, a rule is the same rule.\<close>

lemma collectr_names: "collectr (weekday_of k) (map weekday_name ds) = Inr ds"
  by (induction ds) simp_all

lemma until_v1_back:
  assumes "civil_law k" and "text_law k" and "until_ok k u" and "first_date k \<le> until_date k u" and "until_date k u \<le> last_date k"
  shows "until_v1 k (until_to_v1 k u) = Inr u"
  using assms(2-5) first_last_date [OF assms(1)]
  by (cases u) (simp_all add: until_v1_def until_to_v1_def until_ok_def until_date_def text_law_def)

theorem sent_rule_is_read:
  assumes "civil_law k" and "text_law k" and "canonical k r"
  shows "to_rule k (rule_v1_of k r) = Inr r"
proof -
  have c: "check_shape k r = Inr ()" and n: "numbers_ok k r" using assms(3) by (simp_all add: canonical_def)
  have u: "transpose (until_v1 k) (map_option (until_to_v1 k) (r_until r)) = Inr (r_until r)"
    using until_v1_back [OF assms(1,2)] check_shape_parts(4) [OF c] n
    by (cases "r_until r") (simp_all add: transpose_def numbers_ok_def)
  have w: "transpose (weekday_of k) (map_option weekday_name (r_wkst r)) = Inr (r_wkst r)"
    by (cases "r_wkst r") (simp_all add: transpose_def)
  let ?r = "\<lparr>r_frequency = r_frequency r, r_interval = r_interval r, r_count = r_count r, r_until = r_until r, r_by_day = r_by_day r,
      r_by_month_day = r_by_month_day r, r_by_month = r_by_month r, r_by_set_pos = r_by_set_pos r,
      r_by_year_day = r_by_year_day r, r_wkst = r_wkst r\<rparr>"
  have e: "?r = r" by (cases r) simp
  have "to_rule k (rule_v1_of k r) = read_rule k (write_rule k ?r)" by (simp add: to_rule_def rule_v1_of_def u w collectr_names)
  then show ?thesis unfolding e written_rule_is_read [OF assms] .
qed

end
