(* ===== verification/Calendar_Walk.thy ===== *)
theory Calendar_Walk
  imports Calendar_Periods
begin

text \<open>
  The walk over a rule's periods ends, and yields the days the rule names: in order, from the start on, up to the
  count, the end and the last date.  A walk that skips ahead yields the rest of them.
\<close>

section \<open>What a walk yields\<close>

text \<open>The days of a rule from period \<open>p\<close> on, with those still pending before it.\<close>

definition remaining :: "'a calendar_scheme \<Rightarrow> rule \<Rightarrow> event_time \<Rightarrow> int \<Rightarrow> int list \<Rightarrow> int set" where
  "remaining k r start p pending =
     (let base = date_of (local_of k start) in
      {d. base \<le> d \<and> d \<le> 24836 \<and> \<not> past_until k r start d (at_time d (time_of (local_of k start))) \<and> due r base d \<and>
        (d \<in> set pending \<or> unit_of r base + p * r_interval r \<le> unit_of r d)})"

fun emit :: "bool \<Rightarrow> nat \<Rightarrow> int \<Rightarrow> int list \<Rightarrow> (nat \<times> int) list" where
  "emit counted n time [] = []"
| "emit counted n time (d # ds) = ((if counted then Suc n else 0), at_time d time) # emit counted (Suc n) time ds"

definition limit :: "rule \<Rightarrow> nat \<Rightarrow> int list \<Rightarrow> int list" where
  "limit r n ds = (case r_count r of Some c \<Rightarrow> take (nat c - n) ds | None \<Rightarrow> ds)"

lemma map_snd_emit: "map snd (emit counted n time ds) = map (\<lambda>d. at_time d time) ds"
  by (induction ds arbitrary: n) simp_all

lemma emit_uncounted: "emit False n time ds = map (\<lambda>d. (0, at_time d time)) ds"
  by (induction ds arbitrary: n) simp_all

lemma map_fst_emit: "map fst (emit True n time ds) = [Suc n..<Suc n + length ds]"
proof (induction ds arbitrary: n)
  case (Cons d ds)
  then show ?case using upt_conv_Cons [of "Suc n" "Suc n + length (d # ds)"] by simp
qed simp

lemma finite_remaining [simp]: "finite (remaining k r start p pending)"
  by (rule finite_subset [of _ "{date_of (local_of k start)..24836}"]) (auto simp: remaining_def Let_def)

text \<open>An end of the series is passed once and for all.\<close>

definition until_upward :: "'a calendar_scheme \<Rightarrow> rule \<Rightarrow> event_time \<Rightarrow> bool" where
  "until_upward k r start \<longleftrightarrow> (\<forall>d d'. date_of (local_of k start) \<le> d \<and> d < d' \<and> d' \<le> 24836 \<and>
     past_until k r start d (at_time d (time_of (local_of k start))) \<longrightarrow>
     past_until k r start d' (at_time d' (time_of (local_of k start))))"

lemma sorted_list_min:
  assumes "finite A" and "m \<in> A" and "\<And>x. x \<in> A \<Longrightarrow> m \<le> x"
  shows "sorted_list_of_set A = m # sorted_list_of_set (A - {m :: int})"
proof -
  have "Min A = m" using assms by (intro Min_eqI)
  with sorted_list_of_set_nonempty [of A] assms show ?thesis by auto
qed

text \<open>The order of the days a walk has before it: those pending, then those of later periods.\<close>

definition pending_ok :: "rule \<Rightarrow> int \<Rightarrow> int \<Rightarrow> int list \<Rightarrow> bool" where
  "pending_ok r base p pending \<longleftrightarrow> sorted_wrt (<) pending \<and>
     (\<forall>d\<in>set pending. due r base d \<and> unit_of r d < unit_of r base + p * r_interval r)"

lemma pending_least:
  assumes "pending_ok r (date_of (local_of k start)) p (d # rest)" and "e \<in> remaining k r start p (d # rest)"
  shows "d \<le> e"
proof -
  from assms(2) have "e \<in> set (d # rest) \<or> unit_of r (date_of (local_of k start)) + p * r_interval r \<le> unit_of r e"
    by (simp add: remaining_def Let_def)
  then show ?thesis
  proof
    assume "e \<in> set (d # rest)"
    moreover have "sorted_wrt (<) (d # rest)" using assms(1) unfolding pending_ok_def by blast
    ultimately show ?thesis by auto
  next
    assume "unit_of r (date_of (local_of k start)) + p * r_interval r \<le> unit_of r e"
    moreover have "unit_of r d < unit_of r (date_of (local_of k start)) + p * r_interval r" using assms(1) by (simp add: pending_ok_def)
    ultimately have "unit_of r d < unit_of r e" by linarith
    then have "d < e" by (rule unit_less)
    then show ?thesis by simp
  qed
qed

lemma pending_ok_tl: "pending_ok r base p (d # rest) \<Longrightarrow> pending_ok r base p rest"
  by (simp add: pending_ok_def)

lemma remaining_tl:
  assumes "pending_ok r (date_of (local_of k start)) p (d # rest)"
  shows "remaining k r start p rest = remaining k r start p (d # rest) - {d}"
proof -
  have "d \<notin> set rest" "unit_of r d < unit_of r (date_of (local_of k start)) + p * r_interval r"
    using assms by (auto simp: pending_ok_def)
  then show ?thesis by (auto simp: remaining_def Let_def)
qed

section \<open>The walk, one period at a time\<close>

definition walk_yields :: "'a calendar_scheme \<Rightarrow> rule \<Rightarrow> event_time \<Rightarrow> bool \<Rightarrow> int \<Rightarrow> int list \<Rightarrow> nat \<Rightarrow> bool" where
  "walk_yields k r start counted p pending n \<longleftrightarrow>
     walk k r start counted p pending n =
       Some (emit counted n (time_of (local_of k start)) (limit r n (sorted_list_of_set (remaining k r start p pending))))"

lemma limit_Cons: "limit r n (d # ds) =
    (if case r_count r of Some c \<Rightarrow> int (Suc n) > c | None \<Rightarrow> False then [] else d # limit r (Suc n) ds)"
proof (cases "r_count r")
  case (Some c)
  have "nat c - n = (if int (Suc n) > c then 0 else Suc (nat c - Suc n))" by auto
  with Some show ?thesis by (simp add: limit_def)
qed (simp add: limit_def)

lemma limit_uncounted: "r_count r = None \<Longrightarrow> limit r n ds = ds"
  by (simp add: limit_def)

lemma emit_number: "emit False n time ds = emit False m time ds"
  by (simp add: emit_uncounted)

lemma walk_pending:
  assumes "civil_law k" and "until_upward k r start" and "counted \<or> r_count r = None"
    and "\<And>n. walk_yields k r start counted p [] n" and "pending_ok r (date_of (local_of k start)) p pending"
  shows "walk_yields k r start counted p pending n"
  using assms(5)
proof (induction pending arbitrary: n)
  case Nil
  show ?case by (rule assms(4))
next
  case (Cons d rest n)
  let ?base = "date_of (local_of k start)" and ?t = "time_of (local_of k start)"
  let ?past = "\<lambda>d. past_until k r start d (at_time d ?t)"
  let ?S = "remaining k r start p (d # rest)"
  have l: "last_date k = 24836" using first_last_date [OF assms(1)] by simp
  note IH = Cons.IH [OF pending_ok_tl [OF Cons.prems], unfolded walk_yields_def]
  have tl: "remaining k r start p rest = ?S - {d}" by (rule remaining_tl [OF Cons.prems])
  have least: "e \<in> ?S \<Longrightarrow> d \<le> e" for e by (rule pending_least [OF Cons.prems])
  have dd: "due r ?base d" using Cons.prems by (simp add: pending_ok_def)
  show ?case
  proof (cases "d < ?base")
    case True
    then have "d \<notin> ?S" by (simp add: remaining_def Let_def)
    with True IH show ?thesis by (subst walk_yields_def, subst walk.simps) (simp add: tl)
  next
    case base: False
    show ?thesis
    proof (cases "?past d \<or> d > 24836")
      case True
      have "?S = {}"
      proof (rule ccontr)
        assume "?S \<noteq> {}"
        then obtain e where e: "e \<in> ?S" by blast
        then have el: "e \<le> 24836" "\<not> ?past e" by (simp_all add: remaining_def Let_def)
        with least [OF e] True have "?past d" "d \<noteq> e" by auto
        with least [OF e] have "d < e" by simp
        with assms(2) [unfolded until_upward_def, rule_format, of d e] \<open>?past d\<close> el base show False by simp
      qed
      with True base show ?thesis by (subst walk_yields_def, subst walk.simps) (auto simp: l limit_def split: option.splits)
    next
      case False
      then have "d \<in> ?S" using base dd by (simp add: remaining_def Let_def)
      then have s: "sorted_list_of_set ?S = d # sorted_list_of_set (?S - {d})"
        by (intro sorted_list_min least) simp_all
      show ?thesis
      proof (cases counted)
        case True
        with False base IH [of "Suc n"] show ?thesis
          by (subst walk_yields_def, subst walk.simps) (simp add: l s limit_Cons tl Let_def split: option.splits)
      next
        case nc: False
        with assms(3) have "r_count r = None" by simp
        with nc False base IH [of n] emit_number [of n ?t _ "Suc n"] show ?thesis
          by (subst walk_yields_def, subst walk.simps) (simp add: l s limit_uncounted tl Let_def)
      qed
    qed
  qed
qed

lemma due_period:
  assumes "rule_ok r" and "due r base d" and "unit_of r base + p * r_interval r \<le> unit_of r d"
    and "\<not> unit_of r base + (p + 1) * r_interval r \<le> unit_of r d"
  shows "unit_of r d = unit_of r base + p * r_interval r"
proof -
  have i: "1 \<le> r_interval r" using assms(1) by (simp add: rule_ok_def)
  obtain q where q: "unit_of r d - unit_of r base = r_interval r * q"
    using assms(2) unfolding due_def by (metis mod_0_imp_dvd dvd_def)
  have "p * r_interval r \<le> r_interval r * q" "r_interval r * q < (p + 1) * r_interval r" using assms(3,4) q by linarith+
  then have "r_interval r * p \<le> r_interval r * q" "r_interval r * q < r_interval r * (p + 1)" by (simp_all add: mult.commute)
  then have "p \<le> q" "q < p + 1" using i by simp_all
  then have "p = q" by simp
  with q show ?thesis by (simp add: mult.commute)
qed

text \<open>What bounds a walk: the next period of one that has dates is at most one interval past the last date.\<close>

definition period_bound :: "rule \<Rightarrow> int \<Rightarrow> bool" where
  "period_bound r p \<longleftrightarrow> 0 \<le> p \<and> p * r_interval r * span_factor r \<le> 7304484"

lemma period_bound_next:
  assumes "rule_ok r" and "0 \<le> p" and "p * r_interval r \<le> 24836"
  shows "period_bound r (p + 1)" and "p \<le> 24836"
proof -
  have i: "1 \<le> r_interval r" "r_interval r \<le> 4999" using assms(1) by (simp_all add: rule_ok_def)
  have e: "(p + 1) * r_interval r = p * r_interval r + r_interval r" by (simp add: algebra_simps)
  have n: "(p + 1) * r_interval r \<le> 29835" unfolding e using assms(3) i by simp
  have "(p + 1) * r_interval r * span_factor r \<le> 29835 * 7"
    using n assms(2) i by (intro mult_mono) (simp_all add: span_factor_def)
  with assms(2) show "period_bound r (p + 1)" by (simp add: period_bound_def)
  have "p * 1 \<le> p * r_interval r" using assms(2) i by (intro mult_left_mono) simp_all
  with assms(3) show "p \<le> 24836" by simp
qed

theorem walk_period:
  assumes "civil_law k" and "start_date (date_of (local_of k start))" and "rule_ok r" and "until_upward k r start"
    and "counted \<or> r_count r = None" and "period_bound r p"
  shows "walk_yields k r start counted p [] n"
  using assms(6)
proof (induction "nat (24838 - p)" arbitrary: p n rule: less_induct)
  case (less p n)
  let ?base = "date_of (local_of k start)"
  have p: "0 \<le> p" and sp: "p * r_interval r * span_factor r \<le> 7304484" using less.prems by (simp_all add: period_bound_def)
  note spec = period_dates_spec [OF assms(1-3) p]
  from spec(3) [OF sp] obtain v where v: "period_dates k r ?base p = Some v" by blast
  show ?case
  proof (cases v)
    case None
    have "remaining k r start p [] = {}"
      using spec(2) v None by (fastforce simp: remaining_def Let_def)
    with v None show ?thesis by (subst walk_yields_def, subst walk.simps) (simp add: limit_def split: option.split)
  next
    case (Some ds)
    with v spec(1) have ds: "sorted_wrt (<) ds" "set ds = {d. day_due r ?base d \<and> unit_of r d = unit_of r ?base + p * r_interval r}"
      and pb: "p * r_interval r \<le> 24836" by auto
    have b: "period_bound r (p + 1)" "p \<le> 24836" using period_bound_next [OF assms(3) p pb] by auto
    have IH: "walk_yields k r start counted (p + 1) [] m" for m
      by (rule less.hyps) (use b in auto)
    have i: "1 \<le> r_interval r" using assms(3) by (simp add: rule_ok_def)
    have sub: "due r ?base d \<and> unit_of r d < unit_of r ?base + (p + 1) * r_interval r" if "d \<in> set ds" for d
      using that i by (simp add: ds(2) due_def algebra_simps)
    then have ok: "pending_ok r ?base (p + 1) ds" using ds(1) by (simp add: pending_ok_def)
    have "remaining k r start p [] = remaining k r start (p + 1) ds"
    proof -
      have "unit_of r ?base + p * r_interval r \<le> unit_of r d \<longleftrightarrow>
          d \<in> set ds \<or> unit_of r ?base + (p + 1) * r_interval r \<le> unit_of r d" if "due r ?base d" for d
        using due_period [OF assms(3) that, of p] that i by (auto simp: ds(2) due_def algebra_simps)
      then show ?thesis by (auto simp: remaining_def Let_def)
    qed
    with walk_pending [OF assms(1,4,5) IH ok, of n] v Some show ?thesis
      by (subst walk_yields_def, subst walk.simps) (simp add: walk_yields_def)
  qed
qed

end
