(* ===== verification/Calendar_Series_Facts.thy ===== *)
theory Calendar_Series_Facts
  imports Calendar_Walk
begin

text \<open>
  Series that \<open>series_new\<close> accepts: their candidates are the days their rule names, and what is asked of them is
  answered from all of their occurrences, however far the walk skips.
\<close>

section \<open>Clocks\<close>

text \<open>What the library documents of clocks from 1970 to 2037: UTC shows the instant, every known zone has an
  instant for every wall-clock time, and a wall-clock time a day or more later is no earlier instant.\<close>

definition served :: "int \<Rightarrow> bool" where "served local \<longleftrightarrow> 0 \<le> date_of local \<and> date_of local \<le> 24836"

definition clock_law :: "'a calendar_scheme \<Rightarrow> bool" where
  "clock_law k \<longleftrightarrow>
     (\<forall>l. served l \<longrightarrow> jf_utc k l = Some l \<and> jf_utc_local k l = l) \<and>
     (\<forall>z l l'. jf_zone_known k z \<and> served l \<and> served l' \<and> l + day_ns \<le> l' \<longrightarrow>
       (\<exists>i i'. jf_zoned k z l = Some i \<and> jf_zoned k z l' = Some i' \<and> i \<le> i'))"

lemma served_at_time [simp]: "0 \<le> t \<Longrightarrow> t < day_ns \<Longrightarrow> served (at_time d t) \<longleftrightarrow> 0 \<le> d \<and> d \<le> 24836"
  by (simp add: served_def)

lemma at_time_day_le: "d < d' \<Longrightarrow> at_time d t + day_ns \<le> at_time d' t"
proof -
  assume "d < d'"
  then have "(d + 1) * day_ns \<le> d' * day_ns" by (intro mult_right_mono) (simp_all add: less_imp_le)
  then show ?thesis by (simp add: at_time_def algebra_simps)
qed

text \<open>The instants of the same time on two days are ordered as the days are.\<close>

lemma instant_mono:
  assumes "clock_law k" and "0 \<le> d" and "d < d'" and "d' \<le> 24836" and "0 \<le> t" and "t < day_ns"
  shows "instant_of k start (at_time d' t) = None \<or>
    (\<exists>i i'. instant_of k start (at_time d t) = Some i \<and> instant_of k start (at_time d' t) = Some i' \<and> i \<le> i')"
proof -
  have s: "served (at_time d t)" "served (at_time d' t)" using assms by simp_all
  have le: "at_time d t \<le> at_time d' t" using at_time_day_le [OF assms(3), of t] by (simp add: day_ns_def)
  show ?thesis
  proof (cases start)
    case (EZoned l z)
    show ?thesis
    proof (cases "time_zone k z")
      case (Inr u)
      then have "jf_zone_known k z" by (simp add: time_zone_def)
      with assms(1) s at_time_day_le [OF assms(3)] show ?thesis
        using EZoned Inr unfolding clock_law_def instant_of_def by fastforce
    qed (simp add: EZoned instant_of_def)
  qed (use assms(1) s le in \<open>simp_all add: clock_law_def instant_of_def\<close>)
qed

lemma until_upwardI:
  assumes "clock_law k" and "start_date (date_of (local_of k start))"
  shows "until_upward k r start"
proof (unfold until_upward_def, intro allI impI, elim conjE)
  fix d d'
  let ?t = "time_of (local_of k start)"
  assume d: "date_of (local_of k start) \<le> d" "d < d'" "d' \<le> 24836" and p: "past_until k r start d (at_time d ?t)"
  have i: "instant_of k start (at_time d' ?t) = None \<or>
      (\<exists>i i'. instant_of k start (at_time d ?t) = Some i \<and> instant_of k start (at_time d' ?t) = Some i' \<and> i \<le> i')"
    using assms(2) d by (intro instant_mono [OF assms(1)]) (simp_all add: start_date_def)
  show "past_until k r start d' (at_time d' ?t)"
  proof (cases "r_until r")
    case None
    with p show ?thesis by (simp add: past_until_def)
  next
    case (Some u)
    with i p d show ?thesis by (cases u) (auto simp: past_until_def split: option.splits)
  qed
qed

section \<open>Checked series\<close>

definition start_day :: "'a calendar_scheme \<Rightarrow> series \<Rightarrow> int" where "start_day k s = date_of (local_of k (se_start s))"
definition start_time :: "'a calendar_scheme \<Rightarrow> series \<Rightarrow> int" where "start_time k s = time_of (local_of k (se_start s))"

text \<open>The days a rule names: from the start to the last date and the end of the rule.\<close>

definition named_days :: "'a calendar_scheme \<Rightarrow> series \<Rightarrow> rule \<Rightarrow> int set" where
  "named_days k s r = {d. start_day k s \<le> d \<and> d \<le> 24836 \<and>
     \<not> past_until k r (se_start s) d (at_time d (start_time k s)) \<and> due r (start_day k s) d}"

definition series_ok :: "'a calendar_scheme \<Rightarrow> series \<Rightarrow> bool" where
  "series_ok k s \<longleftrightarrow> (\<forall>r. se_rule s = Some r \<longrightarrow> rule_ok r \<and> start_date (start_day k s))"

lemma remaining_start: "rule_ok r \<Longrightarrow> remaining k r (se_start s) 0 [] = named_days k s r"
  using unit_mono [of "start_day k s" _ r] by (auto simp: remaining_def Let_def named_days_def start_day_def start_time_def)

lemma named_days_finite [simp]: "finite (named_days k s r)"
  by (rule finite_subset [of _ "{start_day k s..24836}"]) (auto simp: named_days_def)

lemma period_bound_0 [simp]: "period_bound r 0"
  by (simp add: period_bound_def)

theorem candidates_named:
  assumes "civil_law k" and "clock_law k" and "series_ok k s" and "se_rule s = Some r"
  shows "candidates_from k s None = Some (emit True 0 (start_time k s) (limit r 0 (sorted_list_of_set (named_days k s r))))"
proof -
  have ok: "rule_ok r" "start_date (date_of (local_of k (se_start s)))" using assms(3,4) by (simp_all add: series_ok_def start_day_def)
  from walk_period [OF assms(1) ok(2,1) until_upwardI [OF assms(2) ok(2)] _ period_bound_0, of True 0]
  show ?thesis using assms(4) ok(1) by (simp add: candidates_from_def first_period_def walk_yields_def remaining_start start_time_def)
qed

lemma first_period_bound:
  assumes "civil_law k" and "rule_ok r" and "start_date (start_day k s)" and "lib_date d"
  shows "period_bound r (first_period k s r (Some d))"
    and "start_day k s < d \<Longrightarrow> first_period k s r (Some d) \<noteq> 0 \<Longrightarrow>
      unit_of r (start_day k s) + (first_period k s r (Some d) + 1) * r_interval r \<le> unit_of r d"
proof -
  let ?b = "start_day k s" and ?p = "first_period k s r (Some d)"
  have i: "1 \<le> r_interval r" using assms(2) by (simp add: rule_ok_def)
  have un: "unit_of r ?b + (?p + 1) * r_interval r \<le> unit_of r d" if "?b < d" "?p \<noteq> 0"
  proof -
    have q: "period_of k r ?b d = max ((unit_of r d - unit_of r ?b) div r_interval r) 0"
      using i by (simp add: period_of_def periods_between_spec [OF assms(1,3,4) that(1)] max_absorb1)
    from that have "?p = period_of k r ?b d - 1" "1 \<le> ?p" by (auto simp: first_period_def Let_def start_day_def split: if_splits)
    then have "?p + 1 = (unit_of r d - unit_of r ?b) div r_interval r" by (simp add: q)
    moreover have "0 \<le> (unit_of r d - unit_of r ?b) mod r_interval r" using i by simp
    then have "(unit_of r d - unit_of r ?b) div r_interval r * r_interval r \<le> unit_of r d - unit_of r ?b"
      using div_mult_mod_eq [of "unit_of r d - unit_of r ?b" "r_interval r"] by linarith
    ultimately have "(?p + 1) * r_interval r \<le> unit_of r d - unit_of r ?b" by simp
    then show ?thesis by simp
  qed
  then show "?b < d \<Longrightarrow> ?p \<noteq> 0 \<Longrightarrow> unit_of r ?b + (?p + 1) * r_interval r \<le> unit_of r d" .
  show "period_bound r ?p"
  proof (cases "?b < d \<and> ?p \<noteq> 0")
    case True
    then have u: "unit_of r ?b + (?p + 1) * r_interval r \<le> unit_of r d" using un by blast
    have p: "0 \<le> ?p" by (simp add: first_period_def Let_def)
    have "?p * r_interval r \<le> (?p + 1) * r_interval r" using i by (intro mult_right_mono) simp_all
    with u have le: "?p * r_interval r \<le> unit_of r d - unit_of r ?b" by linarith
    have "(unit_of r d - unit_of r ?b) * span_factor r \<le> 3000000"
    proof -
      have b: "0 \<le> ?b" "?b \<le> 24836" "d \<le> 2932896" using assms(3,4) by (simp_all add: start_date_def lib_date_def)
      have y: "year_at d \<le> 9999" "1970 \<le> year_at ?b"
      proof -
        have "civil_from_days 2932896 = (9999, 12, 31)"
          using civil_of_day_number [of 399 305 12 24]
          by (simp add: day_number_def era_start_def month_start_def month_span_def month_days_def march_year_days_def leap_year_def)
        then have "year_at 2932896 = 9999" by (simp add: year_at_def)
        with civil_year_mono [OF b(3)] show "year_at d \<le> 9999" by simp
        show "1970 \<le> year_at ?b" using civil_year_mono [OF b(1)] civil_of [of 1970 1 1 0] civil_1970 by simp
      qed
      have m: "1 \<le> month_at ?b" "month_at d \<le> 12" using civil_at_ok by simp_all
      have "(d + 3 - weekday_number (rule_wkst r)) div 7 * 7 - (?b + 3 - weekday_number (rule_wkst r)) div 7 * 7 \<le> 3000000"
        using b weekday_number_bounds [of "rule_wkst r"] by linarith
      with b y m show ?thesis by (cases "r_frequency r") (simp_all add: unit_of_def span_factor_def algebra_simps)
    qed
    with mult_right_mono [OF le, of "span_factor r"] p show ?thesis by (simp add: period_bound_def span_factor_def split: if_splits)
  next
    case False
    then have "?p = 0" by (auto simp: first_period_def Let_def start_day_def)
    then show ?thesis by simp
  qed
qed

text \<open>A walk that skips has the rest of the days, all from the one asked for on among them.\<close>

theorem candidates_skipped:
  assumes "civil_law k" and "clock_law k" and "series_ok k s" and "se_rule s = Some r" and "lib_date d" and "r_count r = None"
  obtains p c where "candidates_from k s (Some d) =
      Some (emit c 0 (start_time k s) (sorted_list_of_set {x \<in> named_days k s r. unit_of r (start_day k s) + p * r_interval r \<le> unit_of r x}))"
    and "\<forall>x\<in>named_days k s r. d \<le> x \<longrightarrow> unit_of r (start_day k s) + p * r_interval r \<le> unit_of r x"
proof -
  have ok: "rule_ok r" "start_date (date_of (local_of k (se_start s)))" "start_date (start_day k s)"
    using assms(3,4) by (simp_all add: series_ok_def start_day_def)
  let ?p = "first_period k s r (Some d)"
  have i: "1 \<le> r_interval r" using ok(1) by (simp add: rule_ok_def)
  note fb = first_period_bound [OF assms(1) ok(1,3) assms(5)]
  from walk_period [OF assms(1) ok(2,1) until_upwardI [OF assms(2) ok(2)] _ fb(1), of "?p = 0" 0] assms(4,6)
  have c: "candidates_from k s (Some d) =
      Some (emit (?p = 0) 0 (start_time k s) (sorted_list_of_set (remaining k r (se_start s) ?p [])))"
    by (simp add: candidates_from_def walk_yields_def start_time_def limit_def Let_def)
  have e: "remaining k r (se_start s) ?p [] = {x \<in> named_days k s r. unit_of r (start_day k s) + ?p * r_interval r \<le> unit_of r x}"
    by (auto simp: remaining_def Let_def named_days_def start_day_def start_time_def)
  have "unit_of r (start_day k s) + ?p * r_interval r \<le> unit_of r x" if "x \<in> named_days k s r" "d \<le> x" for x
  proof (cases "start_day k s < d \<and> ?p \<noteq> 0")
    case True
    then have "unit_of r (start_day k s) + (?p + 1) * r_interval r \<le> unit_of r d" using fb(2) by blast
    moreover have "?p * r_interval r \<le> (?p + 1) * r_interval r" using i by (intro mult_right_mono) simp_all
    ultimately show ?thesis using unit_mono [OF that(2), of r] by linarith
  next
    case False
    then have "?p = 0" by (auto simp: first_period_def Let_def start_day_def)
    with that(1) unit_mono [of "start_day k s" x r] show ?thesis by (simp add: named_days_def)
  qed
  then show thesis using that [OF c [unfolded e]] by blast
qed

section \<open>What building a series checks\<close>

definition lengths_fit :: "series \<Rightarrow> bool" where
  "lengths_fit s \<longleftrightarrow> (is_date (se_start s) \<longleftrightarrow> (\<exists>n. se_length s = LDays n))"

lemma series_length_fits: "series_length k start e = Inr len \<Longrightarrow> is_date start \<longleftrightarrow> (\<exists>n. len = LDays n)"
  by (auto simp: series_length_def split: event_time.splits option.splits)

lemma series_new_rule:
  assumes "series_new k start e rule exdates = Some (Inr s)"
  shows "se_start s = start" "se_rule s = rule" "lengths_fit s" "sorted (se_excluded s)"
    "excluded_of k start exdates = Inr (se_excluded s)"
proof -
  from assms obtain len excluded where s: "s = \<lparr>se_start = start, se_rule = rule, se_excluded = excluded, se_length = len\<rparr>"
    and l: "series_length k start e = Inr len" and x: "excluded_of k start exdates = Inr excluded"
    by (auto simp: series_new_def split: sum.splits option.splits)
  show "se_start s = start" "se_rule s = rule" "lengths_fit s" "excluded_of k start exdates = Inr (se_excluded s)"
    using series_length_fits [OF l] x by (simp_all add: s lengths_fit_def)
  show "sorted (se_excluded s)" using x by (auto simp: s excluded_of_def)
qed

lemma series_new_checks:
  assumes "series_new k start e (Some r) exdates = Some (Inr s)"
  shows "check_shape k r = Inr ()" "first_date k \<le> start_day k s" "start_day k s \<le> last_date k"
    "\<exists>xs. candidates_from k s None = Some xs \<and> xs \<noteq> [] \<and> snd (hd xs) = local_of k start \<and>
      kept k s xs \<noteq> [] \<and> is_ok (hd (kept k s xs))"
proof -
  note st = series_new_rule(1) [OF assms]
  from assms have c: "check_repeats k s r = Some (Inr ())"
    by (auto simp: series_new_def split: sum.splits option.splits)
  then show "check_shape k r = Inr ()" "first_date k \<le> start_day k s" "start_day k s \<le> last_date k"
    by (auto simp: check_repeats_def Let_def st start_day_def split: sum.splits)
  from c obtain xs where xs: "candidates_from k s None = Some xs"
    "map_option snd (case xs of [] \<Rightarrow> None | x # _ \<Rightarrow> Some x) = Some (local_of k start)"
    "(case kept k s xs of [] \<Rightarrow> Inl (rule_invalid ''every occurrence is excluded'') | Inl e # _ \<Rightarrow> Inl e | Inr _ # _ \<Rightarrow> Inr ()) = Inr ()"
    by (auto simp: check_repeats_def Let_def st split: sum.splits bind_splits if_splits)
  then show "\<exists>xs. candidates_from k s None = Some xs \<and> xs \<noteq> [] \<and> snd (hd xs) = local_of k start \<and>
      kept k s xs \<noteq> [] \<and> is_ok (hd (kept k s xs))"
    by (intro exI [of _ xs]) (auto simp: is_ok_iff split: list.splits sum.splits)
qed

lemma series_new_ok:
  assumes "civil_law k" and "series_new k start e rule exdates = Some (Inr s)" and "\<forall>r. rule = Some r \<longrightarrow> rule_typed r"
  shows "series_ok k s"
proof -
  have "rule_ok r \<and> start_date (start_day k s)" if r: "se_rule s = Some r" for r
  proof -
    have rule: "rule = Some r" using series_new_rule(2) [OF assms(2)] r by simp
    from series_new_checks [OF assms(2) [unfolded rule]] check_shape_ok [of r k] assms(3) rule
    show ?thesis by (auto simp: start_date_def first_last_date [OF assms(1)])
  qed
  then show ?thesis by (simp add: series_ok_def)
qed

section \<open>Occurrences\<close>

text \<open>An occurrence but for its number, which a walk that skips does not count.\<close>

definition unnumbered :: "crypto_error + occurrence \<Rightarrow> crypto_error + occurrence" where
  "unnumbered r = (case r of Inl e \<Rightarrow> Inl e | Inr oc \<Rightarrow> Inr (oc\<lparr>oc_number := 0\<rparr>))"

lemma unnumbered_simps [simp]: "unnumbered (Inl e) = Inl e" "unnumbered (Inr oc) = Inr (oc\<lparr>oc_number := 0\<rparr>)"
  by (simp_all add: unnumbered_def)

lemma unnumbered_bind:
  "unnumbered (bindr r (\<lambda>(start, start_utc, end_utc).
     Inr \<lparr>oc_start = start, oc_start_utc = start_utc, oc_end_utc = max end_utc start_utc, oc_number = n\<rparr>)) =
   bindr r (\<lambda>(start, start_utc, end_utc).
     Inr \<lparr>oc_start = start, oc_start_utc = start_utc, oc_end_utc = max end_utc start_utc, oc_number = 0\<rparr>)"
  by (cases r) (simp_all split: prod.split)

lemma unnumbered_occurrence [simp]: "unnumbered (make_occurrence k s n l) = make_occurrence k s 0 l"
  unfolding make_occurrence_def Let_def by (rule unnumbered_bind)

definition kept_days :: "series \<Rightarrow> int \<Rightarrow> int list \<Rightarrow> int list" where
  "kept_days s t ds = filter (\<lambda>d. at_time d t \<notin> set (se_excluded s)) ds"

lemma unnumbered_kept:
  "map unnumbered (kept k s (emit c n t ds)) = map (\<lambda>d. make_occurrence k s 0 (at_time d t)) (kept_days s t ds)"
  by (induction ds arbitrary: n) (simp_all add: kept_def kept_days_def)

lemma start_time_bounds [simp]: "0 \<le> start_time k s" "start_time k s < day_ns"
  by (simp_all add: start_time_def)

text \<open>The wall-clock time and the zone of an occurrence are those it was made for.\<close>

lemma occurrence_start:
  assumes "clock_law k" and "make_occurrence k s n (at_time d (start_time k s)) = Inr oc" and "0 \<le> d" and "d \<le> 24836"
  shows "local_of k (oc_start oc) = at_time d (start_time k s)" "tzid (oc_start oc) = tzid (se_start s)" "oc_number oc = n"
    "oc_start_utc oc \<le> oc_end_utc oc"
proof -
  let ?l = "at_time d (start_time k s)"
  have u: "jf_utc k ?l = Some ?l" "jf_utc_local k ?l = ?l" using assms(1,3,4) by (simp_all add: clock_law_def)
  have z: "start_time k s = 0" if "se_start s = EDate x" for x using that by (simp add: start_time_def local_of_def)
  show "local_of k (oc_start oc) = ?l" "tzid (oc_start oc) = tzid (se_start s)" "oc_number oc = n" "oc_start_utc oc \<le> oc_end_utc oc"
    using assms(2) u z by (auto simp: make_occurrence_def Let_def local_of_def split: event_time.splits length_v.splits)
qed

lemma named_days_bounds: "start_date (start_day k s) \<Longrightarrow> d \<in> named_days k s r \<Longrightarrow> start_day k s \<le> d \<and> 0 \<le> d \<and> d \<le> 24836"
  by (auto simp: named_days_def start_date_def)

text \<open>Every list of occurrences of a repeating series is the kept days of an ascending list of days it names.\<close>

definition lists_days :: "'a calendar_scheme \<Rightarrow> series \<Rightarrow> int list \<Rightarrow> (crypto_error + occurrence) list \<Rightarrow> bool" where
  "lists_days k s ds rs \<longleftrightarrow> sorted_wrt (<) ds \<and> (\<forall>d\<in>set ds. start_day k s \<le> d \<and> 0 \<le> d \<and> d \<le> 24836) \<and>
     map unnumbered rs = map (\<lambda>d. make_occurrence k s 0 (at_time d (start_time k s))) ds"

lemma sorted_wrt_filter_less: "sorted_wrt (<) xs \<Longrightarrow> sorted_wrt (<) (filter P xs)"
  by (rule sorted_wrt_filter)

lemma lists_days_kept:
  assumes "sorted_wrt (<) ds" and "\<forall>d\<in>set ds. start_day k s \<le> d \<and> 0 \<le> d \<and> d \<le> 24836"
  shows "lists_days k s (kept_days s (start_time k s) ds) (kept k s (emit c n (start_time k s) ds))"
  using assms by (simp add: lists_days_def unnumbered_kept kept_days_def sorted_wrt_filter_less)

lemma set_limit: "set (limit r n ds) \<subseteq> set ds"
  by (auto simp: limit_def split: option.splits dest: in_set_takeD)

lemma sorted_limit: "sorted_wrt (<) ds \<Longrightarrow> sorted_wrt (<) (limit r n ds)"
  by (auto simp: limit_def sorted_wrt_take split: option.splits)

lemma sorted_upward_split:
  "sorted_wrt (<) (xs :: int list) \<Longrightarrow> (\<And>x y. x \<in> set xs \<Longrightarrow> y \<in> set xs \<Longrightarrow> x < y \<Longrightarrow> P x \<Longrightarrow> P y) \<Longrightarrow>
   xs = filter (\<lambda>x. \<not> P x) xs @ filter P xs"
proof (induction xs)
  case (Cons x xs)
  show ?case
  proof (cases "P x")
    case True
    with Cons.prems have "\<forall>y\<in>set xs. P y" by fastforce
    with True show ?thesis by (simp add: filter_id_conv filter_empty_conv)
  next
    case False
    have "xs = filter (\<lambda>x. \<not> P x) xs @ filter P xs" using Cons by fastforce
    with False show ?thesis by simp
  qed
qed simp

lemma sorted_list_filter: "finite A \<Longrightarrow> sorted_list_of_set {x \<in> A. P x} = filter P (sorted_list_of_set (A :: int set))"
  by (intro sorted_distinct_set_unique) (auto simp: sorted_wrt_filter)

section \<open>Walks that skip\<close>

text \<open>All occurrences of a repeating series, as days; and those of a walk that skips: the last of them.\<close>

theorem occurrences_days:
  assumes "civil_law k" and "clock_law k" and "series_ok k s" and "se_rule s = Some r"
  obtains rs where "occurrences k s = Some rs"
    "lists_days k s (kept_days s (start_time k s) (limit r 0 (sorted_list_of_set (named_days k s r)))) rs"
proof -
  have sd: "start_date (start_day k s)" using assms(3,4) by (simp add: series_ok_def)
  let ?ds = "limit r 0 (sorted_list_of_set (named_days k s r))"
  have "sorted_wrt (<) ?ds" by (intro sorted_limit) simp
  moreover have "\<forall>d\<in>set ?ds. start_day k s \<le> d \<and> 0 \<le> d \<and> d \<le> 24836"
    using named_days_bounds [OF sd] set_limit [of r 0 "sorted_list_of_set (named_days k s r)"] by fastforce
  ultimately show thesis
    using that [OF _ lists_days_kept [where ds = ?ds and c = True and n = 0]] candidates_named [OF assms] by (simp add: occurrences_def)
qed

theorem skipped_suffix:
  assumes "civil_law k" and "clock_law k" and "series_ok k s" and "se_rule s = Some r" and "lib_date d"
  obtains rs rs' ds ds' where "occurrences k s = Some rs" "occurrences_from_date k s d = Some rs'"
    "lists_days k s (ds @ ds') rs" "lists_days k s ds' rs'" "\<forall>x\<in>set ds. x < d"
proof (cases "r_count r")
  case (Some c)
  then have "candidates_from k s (Some d) = candidates_from k s None"
    using assms(4) by (simp add: candidates_from_def first_period_def skips_def Let_def)
  then have "occurrences_from_date k s d = occurrences k s" by (simp add: occurrences_from_date_def occurrences_def)
  with occurrences_days [OF assms(1-4)] that [of _ _ "[]"] show thesis by (metis append_Nil empty_iff list.set(1))
next
  case None
  let ?S = "named_days k s r" and ?t = "start_time k s"
  have sd: "start_date (start_day k s)" using assms(3,4) by (simp add: series_ok_def)
  from candidates_skipped [OF assms None] obtain p c where
    c: "candidates_from k s (Some d) =
      Some (emit c 0 ?t (sorted_list_of_set {x \<in> ?S. unit_of r (start_day k s) + p * r_interval r \<le> unit_of r x}))"
    and le: "\<forall>x\<in>?S. d \<le> x \<longrightarrow> unit_of r (start_day k s) + p * r_interval r \<le> unit_of r x" .
  define P where "P x \<longleftrightarrow> unit_of r (start_day k s) + p * r_interval r \<le> unit_of r x" for x
  define xs where "xs = sorted_list_of_set ?S"
  have xs: "sorted_wrt (<) xs" "set xs = ?S" by (simp_all add: xs_def)
  have "sorted_list_of_set {x \<in> ?S. P x} = filter P xs" by (simp add: sorted_list_filter xs_def)
  with c have c': "candidates_from k s (Some d) = Some (emit c 0 ?t (filter P xs))" by (simp add: P_def)
  have split: "xs = filter (\<lambda>x. \<not> P x) xs @ filter P xs"
  proof (rule sorted_upward_split [OF xs(1)])
    fix x y assume "x < y" "P x"
    then show "P y" using unit_mono [of x y r] by (simp add: P_def)
  qed
  have b: "\<forall>x\<in>set xs. start_day k s \<le> x \<and> 0 \<le> x \<and> x \<le> 24836" using named_days_bounds [OF sd] xs(2) by blast
  let ?front = "kept_days s ?t (filter (\<lambda>x. \<not> P x) xs)" and ?rest = "kept_days s ?t (filter P xs)"
  obtain rs where rs: "occurrences k s = Some rs" "lists_days k s (kept_days s ?t xs) rs"
    using occurrences_days [OF assms(1-4)] None by (auto simp: limit_def xs_def)
  have "kept_days s ?t xs = ?front @ ?rest" by (subst split) (simp add: kept_days_def)
  moreover have "lists_days k s ?rest (kept k s (emit c 0 ?t (filter P xs)))"
    by (rule lists_days_kept) (use xs b in \<open>auto simp: sorted_wrt_filter_less\<close>)
  moreover have "\<forall>x\<in>set ?front. x < d" using le xs(2) by (auto simp: kept_days_def P_def)
  ultimately show thesis using that [of rs _ ?front ?rest] rs c' by (simp add: occurrences_from_date_def)
qed

section \<open>Lists of occurrences\<close>

lemma lists_days_length: "lists_days k s ds rs \<Longrightarrow> length rs = length ds"
  unfolding lists_days_def by (metis length_map)

lemma lists_days_Inr:
  assumes "clock_law k" and "lists_days k s ds (map Inr ocs)"
  shows "map (\<lambda>oc. local_of k (oc_start oc)) ocs = map (\<lambda>d. at_time d (start_time k s)) ds"
    and "\<forall>oc\<in>set ocs. tzid (oc_start oc) = tzid (se_start s)"
proof -
  have l: "length ocs = length ds" using lists_days_length [OF assms(2)] by simp
  have e: "make_occurrence k s 0 (at_time (ds ! i) (start_time k s)) = Inr ((ocs ! i)\<lparr>oc_number := 0\<rparr>)" if "i < length ds" for i
    using assms(2) that l unfolding lists_days_def by (metis (no_types, lifting) length_map nth_map unnumbered_simps(2))
  have b: "0 \<le> ds ! i \<and> ds ! i \<le> 24836" if "i < length ds" for i
    using assms(2) that by (auto simp: lists_days_def)
  have i: "local_of k (oc_start (ocs ! i)) = at_time (ds ! i) (start_time k s) \<and> tzid (oc_start (ocs ! i)) = tzid (se_start s)"
    if "i < length ds" for i
    using occurrence_start(1,2) [OF assms(1) e [OF that]] b [OF that] by simp
  show "map (\<lambda>oc. local_of k (oc_start oc)) ocs = map (\<lambda>d. at_time d (start_time k s)) ds"
    by (rule nth_equalityI) (use i l in auto)
  show "\<forall>oc\<in>set ocs. tzid (oc_start oc) = tzid (se_start s)"
    using i l by (auto simp: in_set_conv_nth)
qed

lemma lists_days_nth:
  assumes "clock_law k" and "lists_days k s ds rs" and "i < length ds" and "rs ! i = Inr oc"
  shows "local_of k (oc_start oc) = at_time (ds ! i) (start_time k s)"
proof -
  have "length rs = length ds" by (rule lists_days_length [OF assms(2)])
  then have "unnumbered (rs ! i) = make_occurrence k s 0 (at_time (ds ! i) (start_time k s))"
    using assms(2,3) unfolding lists_days_def by (metis nth_map)
  then have "make_occurrence k s 0 (at_time (ds ! i) (start_time k s)) = Inr (oc\<lparr>oc_number := 0\<rparr>)" by (simp add: assms(4))
  moreover have "0 \<le> ds ! i" "ds ! i \<le> 24836" using assms(2,3) by (auto simp: lists_days_def)
  ultimately show ?thesis using occurrence_start(1) [OF assms(1)] by fastforce
qed

lemma lists_days_sorted:
  assumes "clock_law k" and "lists_days k s ds (map Inr ocs)"
  shows "sorted_wrt (<) (map (\<lambda>oc. local_of k (oc_start oc)) ocs)"
  using assms(2) unfolding lists_days_Inr(1) [OF assms] by (simp add: lists_days_def sorted_wrt_map)

lemma unnumbered_Inr: "unnumbered r = Inr oc \<Longrightarrow> \<exists>oc'. r = Inr oc' \<and> oc = oc'\<lparr>oc_number := 0\<rparr>"
  by (cases r) auto

text \<open>When all occurrences are in range, the last ones a skipping walk finds are in range too, with the same times.\<close>

lemma suffix_Inr:
  assumes "lists_days k s (ds @ ds') (map Inr ocs)" and "lists_days k s ds' rs'"
  obtains ocs' where "rs' = map Inr ocs'"
    "map (\<lambda>oc. oc\<lparr>oc_number := 0\<rparr>) ocs' = map (\<lambda>oc. oc\<lparr>oc_number := 0\<rparr>) (drop (length ds) ocs)"
proof -
  have e: "map unnumbered rs' = map (\<lambda>oc. Inr (oc\<lparr>oc_number := 0\<rparr>)) (drop (length ds) ocs)"
  proof -
    have "map unnumbered rs' = drop (length ds) (map (\<lambda>d. make_occurrence k s 0 (at_time d (start_time k s))) (ds @ ds'))"
      using assms(2) by (simp add: lists_days_def)
    also have "\<dots> = drop (length ds) (map unnumbered (map Inr ocs))" using assms(1) by (simp add: lists_days_def)
    also have "\<dots> = map (\<lambda>oc. Inr (oc\<lparr>oc_number := 0\<rparr>)) (drop (length ds) ocs)" by (simp add: drop_map)
    finally show ?thesis .
  qed
  have "\<forall>r\<in>set rs'. \<exists>oc. r = Inr oc"
  proof
    fix r assume "r \<in> set rs'"
    then have "unnumbered r \<in> set (map (\<lambda>oc. Inr (oc\<lparr>oc_number := 0\<rparr>)) (drop (length ds) ocs))" unfolding e [symmetric] by simp
    then show "\<exists>oc. r = Inr oc" using unnumbered_Inr by fastforce
  qed
  then obtain ocs' where o: "rs' = map Inr ocs'" by (metis ex_map_conv)
  with e have "map (\<lambda>oc. Inr (oc\<lparr>oc_number := 0\<rparr>)) ocs' = (map (\<lambda>oc. Inr (oc\<lparr>oc_number := 0\<rparr>)) (drop (length ds) ocs) :: (crypto_error + occurrence) list)"
    by (simp add: comp_def)
  then have "map (\<lambda>oc. oc\<lparr>oc_number := 0\<rparr>) ocs' = map (\<lambda>oc. oc\<lparr>oc_number := 0\<rparr>) (drop (length ds) ocs)"
    by (auto simp: list_eq_iff_nth_eq)
  with o that show thesis by blast
qed

end
