(* ===== verification/Calendar_Query_Facts.thy ===== *)
theory Calendar_Query_Facts
  imports Calendar_Series_Facts
begin

text \<open>
  What clients and servers ask of a series: its last end, whether starts are occurrences, the occurrences of a
  window; each answered from all occurrences, and always answered.
\<close>

section \<open>A series without a rule\<close>

lemma occurrences_single: "se_rule s = None \<Longrightarrow> occurrences k s =
    Some (if local_of k (se_start s) \<in> set (se_excluded s) then [] else [make_occurrence k s 1 (local_of k (se_start s))])"
  by (simp add: occurrences_def candidates_from_def kept_def)

lemma occurrences_total:
  assumes "civil_law k" and "clock_law k" and "series_ok k s"
  obtains rs where "occurrences k s = Some rs"
  using occurrences_single [of s k] occurrences_days [OF assms] by (cases "se_rule s") auto

lemma occurrences_from_total:
  assumes "civil_law k" and "clock_law k" and "series_ok k s" and "lib_date d"
  obtains rs where "occurrences_from_date k s d = Some rs"
proof (cases "se_rule s")
  case None
  then show thesis using that by (simp add: occurrences_from_date_def candidates_from_def)
next
  case (Some r)
  with skipped_suffix [OF assms(1-3) Some assms(4)] that show thesis by blast
qed

section \<open>The last end\<close>

lemma last_end_Inr: "last_end found (map Inr ocs) = Inr (if ocs = [] then found else Some (oc_end_utc (last ocs)))"
  by (induction ocs arbitrary: found) auto

text \<open>Where the search for the last end starts: the date library reaches every date it needs.\<close>

lemma search_start:
  assumes "civil_law k" and "0 \<le> until_day" and "until_day \<le> 24836" and "0 \<le> reach" and "reach \<le> 100000"
  shows "jf_add_days k until_day (- reach) = Some (until_day - reach)" and "lib_date (until_day - reach)"
  using assms by (simp_all add: lib(8) lib_date_def)

lemma days_span_small [simp]: "0 \<le> n \<Longrightarrow> n \<le> 100000 \<Longrightarrow> days_span n = Some n"
  by (simp add: days_span_def)

lemma range_end_loop_spec:
  assumes "civil_law k" and "clock_law k" and "series_ok k s" and "se_rule s = Some r"
    and "0 \<le> until_day" and "until_day \<le> 24836" and "64 \<le> reach" and "reach \<le> 100000"
  shows "\<exists>v. range_end_loop k s until_day reach = Some v \<and>
    (\<forall>ocs. occurrences k s = Some (map Inr ocs) \<longrightarrow> v = Inr (if ocs = [] then None else Some (oc_end_utc (last ocs))))"
  using assms(7,8)
proof (induction "nat (100000 - reach)" arbitrary: reach rule: less_induct)
  case (less reach)
  have sd: "0 \<le> start_day k s" using assms(3,4) by (simp add: series_ok_def start_date_def)
  have bk: "0 \<le> reach" using less.prems(1) by simp
  note st = search_start [OF assms(1,5,6) bk less.prems(2)]
  let ?from = "until_day - reach"
  from skipped_suffix [OF assms(1-4) st(2)] obtain rs rs' ds ds' where
    rs: "occurrences k s = Some rs" "occurrences_from_date k s ?from = Some rs'" "lists_days k s (ds @ ds') rs"
      "lists_days k s ds' rs'" "\<forall>x\<in>set ds. x < ?from" by blast
  have step: "range_end_loop k s until_day reach =
     (case last_end None rs' of Inl e \<Rightarrow> Some (Inl e)
      | Inr found \<Rightarrow> if found \<noteq> None \<or> ?from \<le> start_day k s then Some (Inr found)
          else range_end_loop k s until_day (min (reach * 4) (2 ^ 63 - 1)))"
    by (subst range_end_loop.simps) (simp add: st(1) rs(2) bk less.prems(2) Let_def start_day_def split: sum.split)
  have found: "\<exists>ocs'. rs' = map Inr ocs' \<and> (ocs' = [] \<longrightarrow> ?from \<le> start_day k s \<longrightarrow> ocs = []) \<and>
      (ocs' \<noteq> [] \<longrightarrow> ocs \<noteq> [] \<and> oc_end_utc (last ocs') = oc_end_utc (last ocs))"
    if o: "occurrences k s = Some (map Inr ocs)" for ocs
  proof -
    have l: "lists_days k s (ds @ ds') (map Inr ocs)" using rs(1,3) o by simp
    from suffix_Inr [OF l rs(4)] obtain ocs' where o': "rs' = map Inr ocs'"
      "map (\<lambda>oc. oc\<lparr>oc_number := 0\<rparr>) ocs' = map (\<lambda>oc. oc\<lparr>oc_number := 0\<rparr>) (drop (length ds) ocs)" .
    have len: "length ocs = length ds + length ds'" "length ocs' = length ds'"
      using lists_days_length [OF l] lists_days_length [OF rs(4)] o'(1) by simp_all
    have "ocs = []" if "ocs' = []" "?from \<le> start_day k s"
    proof -
      have "ds = []" using rs(5) l that(2) unfolding lists_days_def by (cases ds) fastforce+
      with that(1) len show ?thesis by simp
    qed
    moreover have "ocs \<noteq> [] \<and> oc_end_utc (last ocs') = oc_end_utc (last ocs)" if ne: "ocs' \<noteq> []"
    proof -
      have d: "drop (length ds) ocs \<noteq> []" using ne len by auto
      have "(last ocs')\<lparr>oc_number := 0\<rparr> = (last (drop (length ds) ocs))\<lparr>oc_number := 0\<rparr>"
        using o'(2) ne d by (metis (no_types, lifting) last_map)
      then have "oc_end_utc (last ocs') = oc_end_utc (last (drop (length ds) ocs))"
        by (metis (no_types, lifting) occurrence.ext_inject occurrence.surjective occurrence.update_convs(4))
      with d show ?thesis by auto
    qed
    ultimately show ?thesis using o'(1) by blast
  qed
  show ?case
  proof (cases "last_end None rs'")
    case (Inl e)
    have "\<nexists>ocs. occurrences k s = Some (map Inr ocs)"
    proof
      assume "\<exists>ocs. occurrences k s = Some (map Inr ocs)"
      then obtain ocs where "occurrences k s = Some (map Inr ocs)" by blast
      from found [OF this] Inl show False by (auto simp: last_end_Inr)
    qed
    with Inl step show ?thesis by auto
  next
    case (Inr v)
    show ?thesis
    proof (cases "v \<noteq> None \<or> ?from \<le> start_day k s")
      case True
      have "v = (if ocs = [] then None else Some (oc_end_utc (last ocs)))" if "occurrences k s = Some (map Inr ocs)" for ocs
        using found [OF that] Inr True by (auto simp: last_end_Inr split: if_splits)
      with True Inr step show ?thesis by auto
    next
      case False
      then have "reach < 24836" using assms(6) sd by linarith
      then have b: "64 \<le> reach * 4" "reach * 4 \<le> 100000" "nat (100000 - reach * 4) < nat (100000 - reach)" using less.prems(1) by simp_all
      from less.hyps [OF b(3,1,2)] False Inr step show ?thesis using b(2) by (simp add: min_absorb1)
    qed
  qed
qed

lemma range_end_spec:
  assumes "civil_law k" and "clock_law k" and "series_ok k s" and "\<forall>r. se_rule s = Some r \<longrightarrow> check_shape k r = Inr ()"
  shows "\<exists>v. range_end k s = Some v \<and>
    (\<forall>ocs. occurrences k s = Some (map Inr ocs) \<longrightarrow>
      v = Inr (if (\<exists>r. se_rule s = Some r \<and> r_count r = None \<and> r_until r = None) \<or> ocs = [] then None
               else Some (oc_end_utc (last ocs))))"
proof -
  obtain rs where rs: "occurrences k s = Some rs" by (rule occurrences_total [OF assms(1-3)])
  show ?thesis
  proof (cases "se_rule s")
    case None
    then show ?thesis using rs by (simp add: range_end_def) (auto simp: last_end_Inr)
  next
    case (Some r)
    show ?thesis
    proof (cases "r_count r = None \<and> r_until r \<noteq> None")
      case True
      then obtain u where u: "r_until r = Some u" by blast
      have "check_shape k r = Inr ()" using assms(4) Some by blast
      then have "0 \<le> until_date k u" "until_date k u \<le> 24836"
        using u by (auto simp: check_shape_def first_last_date [OF assms(1)])
      from range_end_loop_spec [OF assms(1-3) Some this, of 64] True u Some show ?thesis by (auto simp: range_end_def)
    next
      case False
      then show ?thesis using rs Some by (auto simp: range_end_def last_end_Inr split: option.split)
    qed
  qed
qed

section \<open>Starts that are occurrences\<close>

definition starts_at :: "'a calendar_scheme \<Rightarrow> occurrence list \<Rightarrow> int \<times> string option \<Rightarrow> bool" where
  "starts_at k ocs w \<longleftrightarrow> (\<exists>oc\<in>set ocs. local_of k (oc_start oc) = fst w \<and> tzid (oc_start oc) = snd w)"

lemma found_loop_spec:
  "sorted_wrt (<) (map (\<lambda>oc. local_of k (oc_start oc)) ocs) \<Longrightarrow> found_loop k w (map Inr ocs) = Inr (starts_at k ocs w)"
proof (induction ocs)
  case (Cons oc ocs)
  then show ?case by (auto simp: starts_at_def Let_def)
qed (simp add: starts_at_def)

lemma at_loop_spec:
  assumes "sorted_wrt (<) (map (\<lambda>oc. local_of k (oc_start oc)) ocs)"
  shows "\<exists>v. at_loop k start (map Inr ocs) = Inr v \<and> (v \<noteq> None \<longleftrightarrow> starts_at k ocs (local_of k start, tzid start)) \<and>
    (\<forall>oc. v = Some oc \<longrightarrow> oc \<in> set ocs \<and> local_of k (oc_start oc) = local_of k start \<and> tzid (oc_start oc) = tzid start)"
  using assms
proof (induction ocs)
  case (Cons oc ocs)
  have "sorted_wrt (<) (map (\<lambda>oc. local_of k (oc_start oc)) ocs)" using Cons.prems by simp
  from Cons.IH [OF this] Cons.prems show ?case by (auto simp: starts_at_def Let_def)
qed (simp add: starts_at_def)

lemma pass_loop_spec:
  assumes "sorted_wrt (<) (map (\<lambda>oc. local_of k (oc_start oc)) ocs)" and "\<forall>oc\<in>set ocs. tzid (oc_start oc) = z"
    and "sorted_wrt (<) wanted"
  shows "pass_loop k wanted (map Inr ocs) = Inr (\<forall>w\<in>set wanted. starts_at k ocs w)"
  using assms
proof (induction ocs arbitrary: wanted)
  case Nil
  then show ?case by (cases wanted) (auto simp: starts_at_def)
next
  case (Cons oc ocs)
  let ?at = "local_of k (oc_start oc)"
  note IH = Cons.IH [of wanted] Cons.IH
  have so: "sorted_wrt (<) (map (\<lambda>oc. local_of k (oc_start oc)) ocs)" "\<forall>oc\<in>set ocs. tzid (oc_start oc) = z"
    "tzid (oc_start oc) = z" "\<forall>o'\<in>set ocs. ?at < local_of k (oc_start o')"
    using Cons.prems by simp_all
  show ?case
  proof (cases wanted)
    case Nil
    then show ?thesis by simp
  next
    case (Cons w ws)
    obtain l y where w: "w = (l, y)" by (cases w)
    have ws: "sorted_wrt (<) ws" "\<forall>v\<in>set ws. w < v" using Cons.prems(3) \<open>wanted = w # ws\<close> by simp_all
    have later: "l < fst v \<or> (l = fst v \<and> y < snd v)" if "v \<in> set ws" for v
      using ws(2) that w by (cases v) (auto simp: less_prod_def less_eq_prod_def)
    have drop_oc: "starts_at k (oc # ocs) v \<longleftrightarrow> starts_at k ocs v" if "?at < fst v" for v
      using that by (auto simp: starts_at_def)
    show ?thesis
    proof (cases "l < ?at \<or> (l = ?at \<and> y \<noteq> z)")
      case True
      have "\<not> starts_at k (oc # ocs) w"
      proof
        assume "starts_at k (oc # ocs) w"
        then obtain o' where o: "o' \<in> set (oc # ocs)" "local_of k (oc_start o') = l" "tzid (oc_start o') = y"
          by (auto simp: starts_at_def w)
        then have "tzid (oc_start o') = z" "?at \<le> local_of k (oc_start o')" using so(2-4) by auto
        with o True show False by auto
      qed
      moreover have "pass_loop k wanted (map Inr (oc # ocs)) = Inr False"
        using True so(3) by (auto simp: \<open>wanted = w # ws\<close> w Let_def)
      ultimately show ?thesis by (simp add: \<open>wanted = w # ws\<close>)
    next
      case False
      show ?thesis
      proof (cases "l = ?at")
        case True
        with False have y: "y = z" by simp
        have sw: "starts_at k (oc # ocs) w" using True y so(3) w by (simp add: starts_at_def)
        have one: "starts_at k (oc # ocs) v \<longleftrightarrow> starts_at k ocs v" if "v \<in> set ws" for v
          using later [OF that] so(2-4) True y by (auto simp: starts_at_def)
        have "pass_loop k wanted (map Inr (oc # ocs)) = pass_loop k ws (map Inr ocs)"
          using True y so(3) w \<open>wanted = w # ws\<close> by (simp add: Let_def)
        also have "\<dots> = Inr (\<forall>v\<in>set ws. starts_at k ocs v)" by (rule Cons.IH [OF so(1,2) ws(1)])
        finally show ?thesis using sw one \<open>wanted = w # ws\<close> by simp
      next
        case False
        with \<open>\<not> (l < ?at \<or> (l = ?at \<and> y \<noteq> z))\<close> have gt: "?at < l" by simp
        have "\<forall>v\<in>set wanted. ?at < fst v" using gt later w \<open>wanted = w # ws\<close> by fastforce
        then have "(\<forall>v\<in>set wanted. starts_at k (oc # ocs) v) = (\<forall>v\<in>set wanted. starts_at k ocs v)" using drop_oc by blast
        moreover have "pass_loop k wanted (map Inr (oc # ocs)) = pass_loop k wanted (map Inr ocs)"
          using gt w \<open>wanted = w # ws\<close> by (simp add: Let_def)
        ultimately show ?thesis using IH(1) [OF so(1,2) Cons.prems(3)] by simp
      qed
    qed
  qed
qed

text \<open>The occurrences of a series that are all in range start in order, and in the series' zone.\<close>

lemma occurrences_ascend:
  assumes "civil_law k" and "clock_law k" and "series_ok k s" and "occurrences k s = Some (map Inr ocs)"
  shows "sorted_wrt (<) (map (\<lambda>oc. local_of k (oc_start oc)) ocs)" and "\<exists>z. \<forall>oc\<in>set ocs. tzid (oc_start oc) = z"
proof -
  have "sorted_wrt (<) (map (\<lambda>oc. local_of k (oc_start oc)) ocs) \<and> (\<exists>z. \<forall>oc\<in>set ocs. tzid (oc_start oc) = z)"
  proof (cases "se_rule s")
    case None
    with assms(4) have "length ocs \<le> 1" by (auto simp: occurrences_single map_eq_Cons_conv split: if_splits)
    then show ?thesis by (cases ocs) simp_all
  next
    case (Some r)
    from occurrences_days [OF assms(1-3) Some] assms(4) obtain ds where "lists_days k s ds (map Inr ocs)"
      by (metis option.inject)
    from lists_days_sorted [OF assms(2) this] lists_days_Inr(2) [OF assms(2) this] show ?thesis by blast
  qed
  then show "sorted_wrt (<) (map (\<lambda>oc. local_of k (oc_start oc)) ocs)" "\<exists>z. \<forall>oc\<in>set ocs. tzid (oc_start oc) = z" by blast+
qed

lemma each_found_spec:
  assumes "civil_law k" and "clock_law k" and "series_ok k s" and "se_rule s = Some r" and "occurrences k s = Some (map Inr ocs)"
    and "\<forall>w\<in>set ws. lib_date (date_of (fst w))"
  shows "each_found k s ws = Some (Inr (\<forall>w\<in>set ws. starts_at k ocs w))"
  using assms(6)
proof (induction ws)
  case (Cons w ws)
  have d: "lib_date (date_of (fst w))" using Cons.prems by simp
  from skipped_suffix [OF assms(1-4) d] obtain rs rs' ds ds' where
    rs: "occurrences k s = Some rs" "occurrences_from_date k s (date_of (fst w)) = Some rs'" "lists_days k s (ds @ ds') rs"
      "lists_days k s ds' rs'" "\<forall>x\<in>set ds. x < date_of (fst w)" by blast
  have l: "lists_days k s (ds @ ds') (map Inr ocs)" using rs(1,3) assms(5) by simp
  from suffix_Inr [OF l rs(4)] obtain ocs' where o': "rs' = map Inr ocs'"
    "map (\<lambda>oc. oc\<lparr>oc_number := 0\<rparr>) ocs' = map (\<lambda>oc. oc\<lparr>oc_number := 0\<rparr>) (drop (length ds) ocs)" .
  have l': "lists_days k s ds' (map Inr ocs')" using rs(4) o'(1) by simp
  have starts: "local_of k (oc_start oc) = at_time x (start_time k s) \<and> x < date_of (fst w)"
    if "i < length ds" "oc = ocs ! i" "x = ds ! i" for i oc x
  proof -
    have "i < length (ds @ ds')" using that(1) by simp
    moreover have "length ocs = length (ds @ ds')" using lists_days_length [OF l] by simp
    ultimately have "local_of k (oc_start (ocs ! i)) = at_time ((ds @ ds') ! i) (start_time k s)"
      using lists_days_Inr(1) [OF assms(2) l] by (metis nth_map)
    with that rs(5) show ?thesis by (simp add: nth_append)
  qed
  have "starts_at k ocs w \<longleftrightarrow> starts_at k (drop (length ds) ocs) w"
  proof
    assume "starts_at k ocs w"
    then obtain oc where oc: "oc \<in> set ocs" "local_of k (oc_start oc) = fst w" "tzid (oc_start oc) = snd w" by (auto simp: starts_at_def)
    then obtain i where i: "i < length ocs" "oc = ocs ! i" by (auto simp: in_set_conv_nth)
    have "\<not> i < length ds"
    proof
      assume "i < length ds"
      from starts [OF this i(2) refl] oc(2) have "date_of (fst w) < date_of (fst w)" by (metis date_of_at_time start_time_bounds)
      then show False by simp
    qed
    then have "oc = drop (length ds) ocs ! (i - length ds)" "i - length ds < length (drop (length ds) ocs)" using i by auto
    then have "oc \<in> set (drop (length ds) ocs)" by (metis nth_mem)
    with oc(2,3) show "starts_at k (drop (length ds) ocs) w" by (auto simp: starts_at_def)
  qed (auto simp: starts_at_def dest: in_set_dropD)
  also have "\<dots> \<longleftrightarrow> starts_at k (map (\<lambda>oc. oc\<lparr>oc_number := 0\<rparr>) (drop (length ds) ocs)) w" by (auto simp: starts_at_def)
  also have "\<dots> \<longleftrightarrow> starts_at k ocs' w" unfolding o'(2) [symmetric] by (auto simp: starts_at_def)
  finally have e: "starts_at k ocs w \<longleftrightarrow> starts_at k ocs' w" .
  have "found_loop k w rs' = Inr (starts_at k ocs w)"
    unfolding o'(1) e by (rule found_loop_spec [OF lists_days_sorted [OF assms(2) l']])
  with Cons show ?case by (simp add: rs(2))
qed simp

lemma wanted_starts_set: "set (wanted_starts k starts) = (\<lambda>start. (local_of k start, tzid start)) ` set starts"
  by (simp add: wanted_starts_def)

lemma sorted_remdups_adj_strict: "sorted xs \<Longrightarrow> sorted_wrt (<) (remdups_adj (xs :: 'a :: linorder list))"
proof (induction xs rule: remdups_adj.induct)
  case (3 x y xs)
  then show ?case by (cases "x = y") (auto dest: order_antisym intro: order_le_neq_trans)
qed simp_all

lemma wanted_starts_sorted: "sorted_wrt (<) (wanted_starts k starts)"
  unfolding wanted_starts_def by (rule sorted_remdups_adj_strict) simp

theorem occurs_at_all_spec:
  assumes "civil_law k" and "clock_law k" and "series_ok k s" and "occurrences k s = Some (map Inr ocs)"
    and "\<forall>start\<in>set starts. lib_date (date_of (local_of k start))"
  shows "occurs_at_all k s starts = Some (Inr (\<forall>start\<in>set starts. starts_at k ocs (local_of k start, tzid start)))"
proof (cases "skips s")
  case True
  then obtain r where r: "se_rule s = Some r" by (auto simp: skips_def split: option.splits)
  have "\<forall>w\<in>set (wanted_starts k starts). lib_date (date_of (fst w))" using assms(5) by (auto simp: wanted_starts_set)
  from each_found_spec [OF assms(1-3) r assms(4) this] True show ?thesis
    by (simp add: occurs_at_all_def Let_def wanted_starts_set)
next
  case False
  from occurrences_ascend [OF assms(1-4)] obtain z where
    "sorted_wrt (<) (map (\<lambda>oc. local_of k (oc_start oc)) ocs)" "\<forall>oc\<in>set ocs. tzid (oc_start oc) = z" by blast
  from pass_loop_spec [OF this wanted_starts_sorted] False assms(4) show ?thesis
    by (simp add: occurs_at_all_def Let_def wanted_starts_set)
qed

section \<open>Windows\<close>

definition meets :: "int \<Rightarrow> int \<Rightarrow> occurrence \<Rightarrow> bool" where
  "meets from_utc to_utc oc \<longleftrightarrow> oc_start_utc oc < to_utc \<and>
     (oc_end_utc oc > from_utc \<or> (oc_start_utc oc = oc_end_utc oc \<and> oc_start_utc oc \<ge> from_utc))"

lemma between_loop_spec:
  assumes "sorted_wrt (\<le>) (map oc_start_utc ocs)" and "length found \<le> n"
  shows "between_loop from_utc to_utc n found (map Inr ocs) =
    Inr (found @ take (n - length found) (filter (meets from_utc to_utc) ocs))"
  using assms
proof (induction ocs arbitrary: found)
  case (Cons oc ocs)
  show ?case
  proof (cases "oc_start_utc oc \<ge> to_utc")
    case True
    then have "\<forall>o'\<in>set (oc # ocs). \<not> meets from_utc to_utc o'" using Cons.prems(1) by (fastforce simp: meets_def)
    then have "filter (meets from_utc to_utc) (oc # ocs) = []" by (simp add: filter_empty_conv)
    then show ?thesis using True by simp
  next
    case False
    have so: "sorted_wrt (\<le>) (map oc_start_utc ocs)" using Cons.prems(1) by simp
    show ?thesis
    proof (cases "meets from_utc to_utc oc")
      case m: True
      show ?thesis
      proof (cases "length found = n")
        case True
        with m False show ?thesis by (auto simp: meets_def)
      next
        case nf: False
        then have "n - length found = Suc (n - Suc (length found))" using Cons.prems(2) by simp
        with m nf False Cons.IH [OF so, of "found @ [oc]"] Cons.prems(2) show ?thesis by (auto simp: meets_def)
      qed
    next
      case nm: False
      then have "\<not> (oc_end_utc oc > from_utc \<or> (oc_start_utc oc = oc_end_utc oc \<and> oc_start_utc oc \<ge> from_utc))"
        using False by (simp add: meets_def)
      with nm False Cons.IH [OF so Cons.prems(2)] show ?thesis by (simp del: de_Morgan_disj)
    qed
  qed
qed simp

lemma occurrence_start_utc:
  assumes "clock_law k" and "make_occurrence k s n (at_time d (start_time k s)) = Inr oc" and "0 \<le> d" and "d \<le> 24836"
  shows "instant_of k (se_start s) (at_time d (start_time k s)) = Some (oc_start_utc oc)"
proof -
  have z: "start_time k s = 0" if "se_start s = EDate x" for x using that by (simp add: start_time_def local_of_def)
  show ?thesis using assms(2) z
    by (auto simp: make_occurrence_def Let_def instant_of_def instant_def split: event_time.splits length_v.splits)
qed

lemma lists_days_start_utc:
  assumes "clock_law k" and "lists_days k s ds (map Inr ocs)"
  shows "sorted_wrt (\<le>) (map oc_start_utc ocs)"
proof -
  let ?t = "start_time k s"
  have l: "length ocs = length ds" using lists_days_length [OF assms(2)] by simp
  have b: "0 \<le> ds ! i \<and> ds ! i \<le> 24836" if "i < length ds" for i using assms(2) that by (auto simp: lists_days_def)
  have i: "instant_of k (se_start s) (at_time (ds ! i) ?t) = Some (oc_start_utc (ocs ! i))" if "i < length ds" for i
  proof -
    have "make_occurrence k s 0 (at_time (ds ! i) ?t) = Inr ((ocs ! i)\<lparr>oc_number := 0\<rparr>)"
      using assms(2) that l unfolding lists_days_def by (metis (no_types, lifting) length_map nth_map unnumbered_simps(2))
    from occurrence_start_utc [OF assms(1) this] b [OF that] show ?thesis by simp
  qed
  have "oc_start_utc (ocs ! a) \<le> oc_start_utc (ocs ! c)" if "a < c" "c < length ds" for a c
  proof -
    have "ds ! a < ds ! c" using assms(2) that by (auto simp: lists_days_def sorted_wrt_iff_nth_less)
    from instant_mono [OF assms(1) _ this _ start_time_bounds, of "se_start s" k s] b [of a] b [of c] i [of a] i [of c] that
    show ?thesis by auto
  qed
  then show ?thesis using l by (simp add: sorted_wrt_iff_nth_less)
qed

theorem occurrences_between_spec:
  assumes "civil_law k" and "clock_law k" and "series_ok k s" and "occurrences k s = Some (map Inr ocs)"
  shows "occurrences_between k s from_utc to_utc n = Some (Inr (take n (filter (meets from_utc to_utc) ocs)))"
proof -
  have "sorted_wrt (\<le>) (map oc_start_utc ocs)"
  proof (cases "se_rule s")
    case None
    with assms(4) have "length ocs \<le> 1" by (auto simp: occurrences_single map_eq_Cons_conv split: if_splits)
    then show ?thesis by (cases ocs) simp_all
  next
    case (Some r)
    from occurrences_days [OF assms(1-3) Some] assms(4) obtain ds where "lists_days k s ds (map Inr ocs)"
      by (metis option.inject)
    from lists_days_start_utc [OF assms(2) this] show ?thesis .
  qed
  from between_loop_spec [OF this, of "[]"] assms(4) show ?thesis by (simp add: occurrences_between_def)
qed

end
