(* ===== verification/Calendar_Demo.thy ===== *)
theory Calendar_Demo
  imports Calendar_Rule_Facts Calendar_Query_Facts
begin

text \<open>
  A date library that does what \<open>civil_law\<close>, \<open>clock_law\<close> and \<open>text_law\<close> say, with two zones: UTC, and one three
  hours ahead of it; and a series in that zone, the lessons of Mondays and Wednesdays from the first of January 2024.
\<close>

section \<open>A date library\<close>

definition demo_new :: "int \<Rightarrow> int \<Rightarrow> int \<Rightarrow> int option" where
  "demo_new y m d = (if civil_ok (y, m, d) \<and> lib_date (civil_to_days y m d) then Some (civil_to_days y m d) else None)"

definition demo_weekday :: "int \<Rightarrow> weekday" where
  "demo_weekday d = [Monday, Tuesday, Wednesday, Thursday, Friday, Saturday, Sunday] ! nat (weekday_at d)"

definition demo_nth_weekday :: "int \<Rightarrow> int \<Rightarrow> weekday \<Rightarrow> int option" where
  "demo_nth_weekday d n w =
     (if n = - 1 then let l = d + days_in_month_at d - 1 in Some (l - (weekday_at l - weekday_number w) mod 7)
      else Some (d + (weekday_number w - weekday_at d) mod 7 + 7 * (n - 1)))"

definition demo_offset :: "string \<Rightarrow> int" where
  "demo_offset z = (if z = ''Europe/Istanbul'' then 3 * 3600 * 1000000000 else 0)"

definition demo_add :: "int \<Rightarrow> int \<Rightarrow> int option" where
  "demo_add l n = (if lib_date (date_of (l + n)) then Some (l + n) else None)"

definition demo_date8 :: "int \<Rightarrow> string" where
  "demo_date8 d = pad_int 4 (year_at d) @ pad_int 2 (month_at d) @ pad_int 2 (day_at d)"

definition demo_number :: "string \<Rightarrow> int" where "demo_number t = int (decimal_value t)"

definition demo_read8 :: "string \<Rightarrow> int option" where
  "demo_read8 t =
     (if length t = 8 \<and> list_all is_digit t
      then demo_new (demo_number (take 4 t)) (demo_number (take 2 (drop 4 t))) (demo_number (drop 6 t)) else None)"

definition demo_clock6 :: "int \<Rightarrow> string" where
  "demo_clock6 s = pad_int 2 (s div 3600) @ pad_int 2 (s mod 3600 div 60) @ pad_int 2 (s mod 60)"

definition demo_local :: "int \<Rightarrow> string" where
  "demo_local l = demo_date8 (date_of l) @ ''T'' @ demo_clock6 (time_of l div 1000000000)"

definition demo_read_local :: "string \<Rightarrow> int option" where
  "demo_read_local t =
     (let s = demo_number (take 2 (drop 9 t)) * 3600 + demo_number (take 2 (drop 11 t)) * 60 + demo_number (drop 13 t)
      in if length t = 15 \<and> t ! 8 = CHR ''T'' \<and> s < 86400
         then map_option (\<lambda>d. at_time d (s * 1000000000)) (demo_read8 (take 8 t)) else None)"

definition demo_cal :: calendar_ext where
  "demo_cal = \<lparr>jf_new = demo_new, jf_year = year_at, jf_month = month_at, jf_day = day_at,
     jf_days_in_month = days_in_month_at, jf_days_in_year = (\<lambda>d. year_days (year_at d)), jf_weekday = demo_weekday,
     jf_nth_weekday_of_month = demo_nth_weekday, jf_with_day_of_year = (\<lambda>d n. Some (civil_to_days (year_at d) 1 1 + n - 1)),
     jf_add_days = (\<lambda>d n. if lib_date (d + n) then Some (d + n) else None),
     jf_since = (\<lambda>a b. (weekday_number a - weekday_number b) mod 7), jf_offset = weekday_number,
     jf_zone_known = (\<lambda>z. z = ''UTC'' \<or> z = ''Europe/Istanbul''),
     jf_zoned = (\<lambda>z l. Some (l - demo_offset z)), jf_zone_local = (\<lambda>z i. i + demo_offset z),
     jf_utc = (\<lambda>l. Some l), jf_utc_local = (\<lambda>i. i), jf_add_local = demo_add, jf_add_instant = demo_add,
     jf_from_second = (\<lambda>s. Some (s * 1000000000)), jf_instant_min = at_time (- 4371587) 0,
     jf_date_text = demo_date8, jf_read_date = demo_read8, jf_local_text = demo_local, jf_read_local = demo_read_local,
     jf_instant_text = (\<lambda>i. demo_local i @ ''Z''), jf_parse_date = demo_read8, jf_show_date = demo_date8,
     jf_parse_local = demo_read_local, jf_show_local = demo_local,
     jf_parse_instant = (\<lambda>t. demo_read_local (butlast t)), jf_show_instant = (\<lambda>i. demo_local i @ ''Z''), rs_debug = (\<lambda>s. s)\<rparr>"

lemma demo_weekday_number: "weekday_number (demo_weekday d) = weekday_at d"
proof -
  have "0 \<le> weekday_at d" "weekday_at d < 7" by (simp_all add: weekday_at_def)
  then have "weekday_at d \<in> {0, 1, 2, 3, 4, 5, 6}" by auto
  then show ?thesis by (auto simp: demo_weekday_def)
qed

lemma demo_civil: "civil_law demo_cal"
proof -
  have "civil_to_days (year_at d) 1 1 = d" if "month_at d = 1" "day_at d = 1" for d using civil_to_at [of d] that by simp
  then show ?thesis
    unfolding civil_law_def by (auto simp: demo_cal_def demo_new_def demo_weekday_number demo_nth_weekday_def Let_def)
qed

lemma demo_clock: "clock_law demo_cal"
proof -
  have "l \<le> l'" if "l + day_ns \<le> l'" for l l' using that by (simp add: day_ns_def)
  then show ?thesis by (auto simp: clock_law_def demo_cal_def)
qed

lemma decimal_value_zeros [simp]: "decimal_value (replicate n (CHR ''0'') @ s) = decimal_value s"
  by (induction n) (simp_all add: decimal_value_def)

lemma demo_number_pad [simp]: "0 \<le> i \<Longrightarrow> demo_number (pad_int n i) = i"
  by (simp add: demo_number_def pad_int_def pad_left_def)

lemma demo_read8_text:
  assumes "0 \<le> d" and "d \<le> 24836"
  shows "length (demo_date8 d) = 8" and "list_all is_digit (demo_date8 d)" and "demo_read8 (demo_date8 d) = Some d"
proof -
  have y: "1970 \<le> year_at d" "year_at d \<le> 2037" using civil_year_mono [of 0 d] civil_year_mono [of d 24836] assms
      civil_of [of 1970 1 1 0] civil_of [of 2037 12 31 24836] by (simp_all add: civil_1970 civil_2037 civil_ok_def month_days_def)
  have m: "0 \<le> month_at d" "month_at d < 100" "0 \<le> day_at d" "day_at d < 100"
    using civil_at_ok [of d] month_days_pos(3) [of "year_at d" "month_at d"] by (simp_all add: days_in_month_at_def)
  note py = pad_int_digits [of "year_at d" 4] and pm = pad_int_digits [of "month_at d" 2] and pd = pad_int_digits [of "day_at d" 2]
  show l: "length (demo_date8 d) = 8" and a: "list_all is_digit (demo_date8 d)" using py pm pd y m by (simp_all add: demo_date8_def)
  have t: "take 4 (demo_date8 d) = pad_int 4 (year_at d)" "take 2 (drop 4 (demo_date8 d)) = pad_int 2 (month_at d)"
    "drop 6 (demo_date8 d) = pad_int 2 (day_at d)" using py(1) pm(1) pd(1) y m by (simp_all add: demo_date8_def)
  have "civil_ok (year_at d, month_at d, day_at d)" using civil_from_days_ok [of d] by (simp add: civil_at)
  then show "demo_read8 (demo_date8 d) = Some d"
    using y m assms by (simp add: demo_read8_def l a t demo_new_def lib_date_def)
qed

lemma demo_read_local_text:
  assumes "0 \<le> date_of i" and "date_of i \<le> 24836" and "whole_second i"
  shows "length (demo_local i) = 15" and "list_all (\<lambda>c. is_digit c \<or> c = CHR ''T'') (demo_local i)"
    and "demo_read_local (demo_local i) = Some i"
proof -
  define s where "s = time_of i div 1000000000"
  have s: "0 \<le> s" "s < 86400" using time_of_bounds [of i] by (simp_all add: s_def day_ns_def div_less_iff_less_mult pos_imp_zdiv_nonneg_iff)
  note h = clock_text_parts(2-7) [OF s]
  have two: "0 < (2 :: nat)" by simp
  note p = pad_int_digits [OF h(2,1) two] pad_int_digits [OF h(4,3) two] pad_int_digits [OF h(6,5) two]
  note d = demo_read8_text [OF assms(1,2)]
  have c: "length (demo_clock6 s) = 6" "list_all is_digit (demo_clock6 s)" by (simp_all add: demo_clock6_def p)
  have e: "demo_local i = demo_date8 (date_of i) @ ''T'' @ demo_clock6 s" by (simp add: demo_local_def s_def)
  show "length (demo_local i) = 15" by (simp add: e c(1) d(1))
  show "list_all (\<lambda>c. is_digit c \<or> c = CHR ''T'') (demo_local i)" using c(2) d(2) by (auto simp: e list_all_iff)
  have t: "take 8 (demo_local i) = demo_date8 (date_of i)" "demo_local i ! 8 = CHR ''T''" "drop 9 (demo_local i) = demo_clock6 s"
    by (simp_all add: e d(1) nth_append)
  have "drop 11 (demo_local i) = drop 2 (drop 9 (demo_local i))" "drop 13 (demo_local i) = drop 4 (drop 9 (demo_local i))" by simp_all
  then have u: "take 2 (drop 9 (demo_local i)) = pad_int 2 (s div 3600)" "take 2 (drop 11 (demo_local i)) = pad_int 2 (s mod 3600 div 60)"
    "drop 13 (demo_local i) = pad_int 2 (s mod 60)" unfolding t by (simp_all add: demo_clock6_def p)
  have v: "s div 3600 * 3600 + s mod 3600 div 60 * 60 + s mod 60 = s"
  proof -
    have "s mod 60 = s mod 3600 mod 60" by (simp add: mod_mod_cancel)
    then show ?thesis using div_mult_mod_eq [of s 3600] div_mult_mod_eq [of "s mod 3600" 60] by linarith
  qed
  have "time_of i mod 1000000000 = 0"
    using assms(3) by (simp add: whole_second_def time_of_def day_ns_def mod_mod_cancel)
  then have "s * 1000000000 = time_of i" using div_mult_mod_eq [of "time_of i" 1000000000] by (simp add: s_def)
  then show "demo_read_local (demo_local i) = Some i"
    unfolding demo_read_local_def u t(1,2) d(3) Let_def
    by (simp only: demo_number_pad h v s(2) \<open>length (demo_local i) = 15\<close>) simp
qed

lemma demo_read_local_whole: "demo_read_local t = Some l \<Longrightarrow> whole_second l"
  by (auto simp: demo_read_local_def Let_def whole_second_def at_time_def day_ns_def split: if_splits)

lemma demo_text: "text_law demo_cal"
  using demo_read8_text demo_read_local_text demo_read_local_whole
  by (simp add: text_law_def demo_cal_def)

section \<open>A series\<close>

text \<open>Lessons of an hour at nine, on Mondays and Wednesdays, five of them; that of the third of January is called off.\<close>

definition lesson_rule :: rule where
  "lesson_rule = empty_rule\<lparr>r_frequency := Weekly, r_by_day := [Monday, Wednesday], r_count := Some 5\<rparr>"

definition hour :: int where "hour = 3600 * 1000000000"
definition nine :: int where "nine = 9 * hour"
definition istanbul :: string where "istanbul = ''Europe/Istanbul''"

definition lesson_at :: "int \<Rightarrow> event_time" where "lesson_at d = EZoned (at_time d nine) istanbul"

definition lessons :: series where
  "lessons = \<lparr>se_start = lesson_at 19723, se_rule = Some lesson_rule, se_excluded = [at_time 19725 nine],
     se_length = LTime (hour)\<rparr>"

definition lesson :: "nat \<Rightarrow> int \<Rightarrow> occurrence" where
  "lesson n d = \<lparr>oc_start = lesson_at d, oc_start_utc = at_time d (6 * hour),
     oc_end_utc = at_time d (7 * hour), oc_number = n\<rparr>"

lemma istanbul_known [simp]: "time_zone demo_cal istanbul = Inr ()"
  by (simp add: time_zone_def istanbul_def demo_cal_def is_graphic_def less_eq_char_def)

lemma demo_fields [simp]:
  "jf_zoned demo_cal z l = Some (l - demo_offset z)" "jf_add_local demo_cal = demo_add" "jf_utc demo_cal l = Some l"
  "jf_add_days demo_cal d n = (if lib_date (d + n) then Some (d + n) else None)" "jf_offset demo_cal = weekday_number"
  "jf_weekday demo_cal = demo_weekday" "jf_since demo_cal a b = (weekday_number a - weekday_number b) mod 7"
  "jf_zone_local demo_cal z i = i + demo_offset z" "jf_utc_local demo_cal i = i"
  by (simp_all add: demo_cal_def)

lemma demo_dates [simp]: "first_date demo_cal = 0" "last_date demo_cal = 24836"
  by (rule first_last_date [OF demo_civil])+

lemma istanbul_offset [simp]: "demo_offset istanbul = 3 * hour"
  by (simp add: demo_offset_def istanbul_def hour_def)

lemma nine_bounds [simp]: "0 \<le> nine" "nine < day_ns"
  by (simp_all add: nine_def hour_def day_ns_def)

lemma lesson_rule_fields [simp]:
  "r_frequency lesson_rule = Weekly" "r_interval lesson_rule = 1" "r_by_day lesson_rule = [Monday, Wednesday]"
  "r_count lesson_rule = Some 5" "r_until lesson_rule = None" "r_by_month_day lesson_rule = None" "r_by_month lesson_rule = None"
  "r_by_set_pos lesson_rule = None" "r_by_year_day lesson_rule = None" "r_wkst lesson_rule = None"
  by (simp_all add: lesson_rule_def empty_rule_def)

lemma lesson_local [simp]: "local_of demo_cal (lesson_at d) = at_time d nine"
  by (simp add: local_of_def lesson_at_def)

lemma lesson_dates: "0 \<le> p \<Longrightarrow> p \<le> 10 \<Longrightarrow>
    period_dates demo_cal lesson_rule 19723 p = Some (Some [19723 + p * 7, 19725 + p * 7])"
  by (simp add: period_dates_def mul_i64_def weekly_dates_def rule_wkst_def days_span_def lib_date_def weekly_days_def
      demo_weekday_def weekday_at_def List.map_filter_def)

lemma lesson_walk: "walk demo_cal lesson_rule (lesson_at 19723) True 0 [] 0 =
    Some [(1, at_time 19723 nine), (2, at_time 19725 nine), (3, at_time 19730 nine), (4, at_time 19732 nine), (5, at_time 19737 nine)]"
  by (simp add: walk.simps lesson_dates past_until_def)

lemma lesson_candidates: "candidates_from demo_cal lessons None =
    Some [(1, at_time 19723 nine), (2, at_time 19725 nine), (3, at_time 19730 nine), (4, at_time 19732 nine), (5, at_time 19737 nine)]"
  by (simp add: candidates_from_def lessons_def first_period_def lesson_walk)

lemma lesson_occurrence: "0 \<le> d \<Longrightarrow> d \<le> 24836 \<Longrightarrow> make_occurrence demo_cal lessons n (at_time d nine) = Inr (lesson n d)"
proof -
  assume d: "0 \<le> d" "d \<le> 24836"
  have e: "date_of (at_time d nine + hour) = d"
    using date_of_at_time [of "nine + hour" d] by (simp add: at_time_def nine_def hour_def day_ns_def add.commute)
  have a: "demo_add (at_time d nine) (hour) = Some (at_time d nine + hour)"
    using d by (simp add: demo_add_def e lib_date_def)
  show ?thesis
    by (simp add: make_occurrence_def lessons_def lesson_at_def a lesson_def)
      (simp add: at_time_def nine_def max_def hour_def)
qed

lemma lesson_occurrences: "occurrences demo_cal lessons =
    Some (map Inr [lesson 1 19723, lesson 3 19730, lesson 4 19732, lesson 5 19737])"
  by (simp add: occurrences_def lesson_candidates kept_def lesson_occurrence) (simp add: lessons_def)

lemma lessons_new: "series_new demo_cal (lesson_at 19723) (Some (EZoned (at_time 19723 (10 * hour)) istanbul))
    (Some lesson_rule) [lesson_at 19725] = Some (Inr lessons)"
proof -
  have l: "series_length demo_cal (lesson_at 19723) (Some (EZoned (at_time 19723 (10 * hour)) istanbul)) =
      Inr (LTime (hour))"
    by (simp add: series_length_def lesson_at_def instant_def at_time_def nine_def hour_def)
  have x: "excluded_of demo_cal (lesson_at 19723) [lesson_at 19725] = Inr [at_time 19725 nine]"
    by (simp add: excluded_of_def) (simp add: lesson_at_def)
  have i: "instant demo_cal (lesson_at 19723) = Inr (at_time 19723 nine - 3 * hour)"
    by (simp add: instant_def lesson_at_def)
  have shape: "check_shape demo_cal lesson_rule = Inr ()"
    by (simp add: check_shape_def check_by_parts_def max_interval_weekly_def max_count_def)
  have u: "until_fits demo_cal (lesson_at 19723) lesson_rule = Inr ()" "until_after demo_cal (lesson_at 19723) lesson_rule = Inr ()"
    by (simp_all add: until_fits_def until_after_def)
  have fields: "se_start lessons = lesson_at 19723" "se_excluded lessons = [at_time 19725 nine]" by (simp_all add: lessons_def)
  have "check_repeats demo_cal lessons lesson_rule = Some (Inr ())"
    unfolding check_repeats_def lesson_candidates Let_def fields
    by (simp add: shape u kept_def lesson_occurrence fields)
  then show ?thesis by (simp add: series_new_def l x i max_exdates_def flip: lessons_def)
qed

lemma lessons_ok: "series_ok demo_cal lessons"
  by (rule series_new_ok [OF demo_civil lessons_new]) (simp add: rule_typed_def)

text \<open>A call every day until the fourth of January, which is looked up without walking from its start.\<close>

definition call_rule :: rule where
  "call_rule = empty_rule\<lparr>r_until := Some (UntilUtc (at_time 19726 (6 * hour)))\<rparr>"

definition calls :: series where
  "calls = \<lparr>se_start = lesson_at 19723, se_rule = Some call_rule, se_excluded = [], se_length = LTime 0\<rparr>"

lemma call_rule_fields [simp]:
  "r_frequency call_rule = Daily" "r_interval call_rule = 1" "r_by_day call_rule = []" "r_count call_rule = None"
  "r_until call_rule = Some (UntilUtc (at_time 19726 (6 * hour)))" "r_by_month_day call_rule = None" "r_by_month call_rule = None"
  "r_by_set_pos call_rule = None" "r_by_year_day call_rule = None" "r_wkst call_rule = None"
  by (simp_all add: call_rule_def empty_rule_def)

lemma call_dates: "0 \<le> p \<Longrightarrow> p \<le> 10 \<Longrightarrow> period_dates demo_cal call_rule 19723 p = Some (Some [19723 + p])"
  by (simp add: period_dates_def mul_i64_def daily_dates_def days_span_def lib_date_def)

lemma call_past: "past_until demo_cal call_rule (lesson_at 19723) d (at_time e nine) \<longleftrightarrow> 19726 < e"
  by (simp add: past_until_def lesson_at_def instant_of_def at_time_def nine_def hour_def day_ns_def)

lemma calls_walk: "walk demo_cal call_rule (lesson_at 19723) True 0 [] 0 =
    Some [(1, at_time 19723 nine), (2, at_time 19724 nine), (3, at_time 19725 nine), (4, at_time 19726 nine)]"
  by (simp add: walk.simps call_dates call_past)

lemma calls_candidates: "candidates_from demo_cal calls None =
    Some [(1, at_time 19723 nine), (2, at_time 19724 nine), (3, at_time 19725 nine), (4, at_time 19726 nine)]"
  by (simp add: candidates_from_def calls_def first_period_def calls_walk)

lemma calls_occurrence: "0 \<le> d \<Longrightarrow> d \<le> 24836 \<Longrightarrow> make_occurrence demo_cal calls n (at_time d nine) =
    Inr ((lesson n d)\<lparr>oc_end_utc := at_time d (6 * hour)\<rparr>)"
  by (simp add: make_occurrence_def calls_def lesson_at_def lesson_def demo_add_def lib_date_def)
    (simp add: at_time_def nine_def max_def hour_def)

lemma calls_new: "series_new demo_cal (lesson_at 19723) None (Some call_rule) [] = Some (Inr calls)"
proof -
  have l: "series_length demo_cal (lesson_at 19723) None = Inr (LTime 0)" by (simp add: series_length_def lesson_at_def)
  have x: "excluded_of demo_cal (lesson_at 19723) [] = Inr []" by (simp add: excluded_of_def)
  have i: "instant demo_cal (lesson_at 19723) = Inr (at_time 19723 nine - 3 * hour)"
    by (simp add: instant_def lesson_at_def)
  have shape: "check_shape demo_cal call_rule = Inr ()"
    by (simp add: check_shape_def check_by_parts_def max_interval_daily_def until_date_def hour_def at_time_def date_of_def day_ns_def)
  have u: "until_fits demo_cal (lesson_at 19723) call_rule = Inr ()" "until_after demo_cal (lesson_at 19723) call_rule = Inr ()"
    by (simp add: until_fits_def lesson_at_def) (simp add: until_after_def i at_time_def hour_def nine_def day_ns_def)
  have fields: "se_start calls = lesson_at 19723" "se_excluded calls = []" by (simp_all add: calls_def)
  have "check_repeats demo_cal calls call_rule = Some (Inr ())"
    unfolding check_repeats_def calls_candidates Let_def fields
    by (simp add: shape u kept_def calls_occurrence fields)
  then show ?thesis by (simp add: series_new_def l x i flip: calls_def)
qed

section \<open>A rule's text\<close>

text \<open>Not in its canonical form: the parts are in another order, and an ordinal day stands for a position.\<close>

definition loose_text :: string where "loose_text = ''BYDAY=-1FR;FREQ=MONTHLY;UNTIL=20251231''"

definition loose_rule :: rule where
  "loose_rule = empty_rule\<lparr>r_frequency := Monthly, r_by_day := [Friday], r_by_set_pos := Some (- 1), r_until := Some (UntilDate 20453)\<rparr>"

lemma loose_until: "demo_read8 ''20251231'' = Some 20453"
  by code_simp

lemma loose_read: "read_rule demo_cal loose_text = Inr loose_rule"
  by code_simp

end
