(* ===== verification/Calendar_Properties.thy ===== *)
theory Calendar_Properties
  imports Calendar_Demo
begin

text \<open>
  What recurrence promises to the clients that show a calendar and to the server that answers with it: a series
  that passed its checks always answers, a rule names exactly the days its words name, walks that skip ahead
  change nothing, and every rule that was read has one text.
\<close>

lemma instants_lookups_total:
  assumes "civil_law k" and "clock_law k" and "series_ok k s" and "\<forall>w\<in>set ws. lib_date (date_of (fst w))"
  shows "each_found k s ws \<noteq> None"
  using assms(4)
proof (induction ws)
  case (Cons w ws)
  have "lib_date (date_of (fst w))" using Cons.prems by simp
  from occurrences_from_total [OF assms(1-3) this] obtain rs where "occurrences_from_date k s (date_of (fst w)) = Some rs" .
  with Cons show ?case by (auto split: sum.split)
qed simp

lemma checks_total:
  assumes "civil_law k" and "clock_law k" and "rule_typed r" and "se_rule s = Some r"
  shows "check_repeats k s r \<noteq> None"
proof (cases "bindr (check_shape k r) (\<lambda>_.
           bindr (require (\<not> (date_of (local_of k (se_start s)) < first_date k \<or> date_of (local_of k (se_start s)) > last_date k))
             (rule_invalid ''a repeating event starts from 1970 to 2037'')) (\<lambda>_.
           bindr (until_fits k (se_start s) r) (\<lambda>_. until_after k (se_start s) r)))")
  case (Inl e)
  then show ?thesis by (simp add: check_repeats_def)
next
  case (Inr u)
  then have "check_shape k r = Inr ()" "start_date (start_day k s)"
    by (auto simp: start_date_def first_last_date [OF assms(1)] start_day_def)
  with assms(3,4) have "series_ok k s" by (simp add: series_ok_def check_shape_ok)
  from candidates_named [OF assms(1,2) this assms(4)] Inr show ?thesis by (simp add: check_repeats_def)
qed

text \<open>C34: Building a series always returns, whatever its rule; and once a series has passed its checks every question
  about it is answered, with a result or an error: its occurrences, those of a window, its last end, whether a start is one of its own. No loop
  over its periods runs forever and no date computed on the way leaves the date library's range.\<close>

theorem checked_series_always_answer:
  assumes "civil_law k" and "clock_law k" and "\<forall>r. rule = Some r \<longrightarrow> rule_typed r"
  shows "series_new k start e rule exdates \<noteq> None \<and>
    (\<forall>s. series_new k start e rule exdates = Some (Inr s) \<longrightarrow>
      occurrences k s \<noteq> None \<and> occurrences_between k s from_utc to_utc n \<noteq> None \<and> range_end k s \<noteq> None \<and>
      occurrence_at k s other \<noteq> None \<and>
      ((\<forall>t\<in>set starts. lib_date (date_of (local_of k t))) \<longrightarrow> occurs_at_all k s starts \<noteq> None))"
proof (intro conjI allI impI)
  show "series_new k start e rule exdates \<noteq> None"
  proof (cases rule)
    case (Some r)
    with assms(3) checks_total [OF assms(1,2), of r] show ?thesis by (auto simp: series_new_def split: sum.split)
  qed (auto simp: series_new_def split: sum.split)
  fix s assume s: "series_new k start e rule exdates = Some (Inr s)"
  from series_new_ok [OF assms(1) s assms(3)] have ok: "series_ok k s" .
  from occurrences_total [OF assms(1,2) ok] obtain rs where rs: "occurrences k s = Some rs" .
  then show "occurrences k s \<noteq> None" "occurrences_between k s from_utc to_utc n \<noteq> None" "occurrence_at k s other \<noteq> None"
    by (simp_all add: occurrences_between_def occurrence_at_def)
  have "\<forall>r. se_rule s = Some r \<longrightarrow> check_shape k r = Inr ()"
    using series_new_rule(2) [OF s] series_new_checks(1) [of k start e _ exdates s] s by auto
  from range_end_spec [OF assms(1,2) ok this] show "range_end k s \<noteq> None" by auto
  assume "\<forall>t\<in>set starts. lib_date (date_of (local_of k t))"
  then have "\<forall>w\<in>set (wanted_starts k starts). lib_date (date_of (fst w))" by (auto simp: wanted_starts_set)
  from instants_lookups_total [OF assms(1,2) ok this] show "occurs_at_all k s starts \<noteq> None"
    by (simp add: occurs_at_all_def Let_def rs)
qed

theorem checked_series_always_answer_witness:
  "series_new demo_cal (lesson_at 19723) None (Some call_rule) [] = Some (Inr calls) \<and> range_end demo_cal calls \<noteq> None \<and>
    occurs_at_all demo_cal calls [lesson_at 19724] \<noteq> None"
  using checked_series_always_answer [OF demo_civil demo_clock, of "Some call_rule" "lesson_at 19723" None "[]" 0 0 0 "lesson_at 0" "[lesson_at 19724]"]
    calls_new by (simp add: rule_typed_def lib_date_def)

text \<open>C35: A checked series' candidates are exactly the days its rule names, in order, from its start to the end of 2037
  or the rule's end, at the start's time and numbered from one: those whose day, week, month or year is a multiple of
  the interval after the start's, and which the BY parts name in it. The first is the start, and COUNT keeps that many.\<close>

theorem candidates_are_the_days_named:
  assumes "civil_law k" and "clock_law k" and "rule_typed r" and "series_new k start e (Some r) exdates = Some (Inr s)"
  shows "candidates_from k s None =
      Some (emit True 0 (start_time k s) (limit r 0 (sorted_list_of_set
        {d. start_day k s \<le> d \<and> d \<le> 24836 \<and> \<not> past_until k r start d (at_time d (start_time k s)) \<and> due r (start_day k s) d}))) \<and>
    (\<exists>xs. candidates_from k s None = Some ((1, local_of k start) # xs))"
proof
  have "\<forall>r'. Some r = Some r' \<longrightarrow> rule_typed r'" using assms(3) by simp
  from series_new_ok [OF assms(1,4) this] have ok: "series_ok k s" .
  note new = series_new_rule [OF assms(4)]
  show c: "candidates_from k s None =
      Some (emit True 0 (start_time k s) (limit r 0 (sorted_list_of_set
        {d. start_day k s \<le> d \<and> d \<le> 24836 \<and> \<not> past_until k r start d (at_time d (start_time k s)) \<and> due r (start_day k s) d})))"
    using candidates_named [OF assms(1,2) ok new(2)] by (simp add: named_days_def new(1))
  from series_new_checks(4) [OF assms(4)] obtain x xs where x: "candidates_from k s None = Some (x # xs)" "snd x = local_of k start"
    by (metis list.collapse)
  with c have "fst x = 1" by (cases "limit r 0 (sorted_list_of_set {d. start_day k s \<le> d \<and> d \<le> 24836 \<and>
      \<not> past_until k r start d (at_time d (start_time k s)) \<and> due r (start_day k s) d})") auto
  with x show "\<exists>xs. candidates_from k s None = Some ((1, local_of k start) # xs)" by (cases x) auto
qed

theorem candidates_are_the_days_named_witness:
  "\<exists>xs. candidates_from demo_cal lessons None = Some ((1, at_time 19723 nine) # xs)"
  using candidates_are_the_days_named [THEN conjunct2, OF demo_civil demo_clock _ lessons_new] by (simp add: rule_typed_def)

text \<open>C36: Looking a date up without walking there from the start changes nothing: the occurrences listed from a date are
  the last of all the series' occurrences, but for their numbers, and those left out start before that date.\<close>

theorem skipping_changes_nothing:
  assumes "civil_law k" and "clock_law k" and "rule_typed r" and "series_new k start e (Some r) exdates = Some (Inr s)"
    and "lib_date date"
  shows "\<exists>rs rs' n. occurrences k s = Some rs \<and> occurrences_from_date k s date = Some rs' \<and>
    map unnumbered rs' = drop n (map unnumbered rs) \<and>
    (\<forall>oc. Inr oc \<in> set (take n rs) \<longrightarrow> date_of (local_of k (oc_start oc)) < date)"
proof -
  have "\<forall>r'. Some r = Some r' \<longrightarrow> rule_typed r'" using assms(3) by simp
  from series_new_ok [OF assms(1,4) this] have ok: "series_ok k s" .
  from skipped_suffix [OF assms(1,2) ok series_new_rule(2) [OF assms(4)] assms(5)] obtain rs rs' ds ds' where
    rs: "occurrences k s = Some rs" "occurrences_from_date k s date = Some rs'" and l: "lists_days k s (ds @ ds') rs"
      "lists_days k s ds' rs'" "\<forall>x\<in>set ds. x < date" .
  have "map unnumbered rs' = drop (length ds) (map unnumbered rs)" using l(1,2) by (simp add: lists_days_def)
  moreover have "date_of (local_of k (oc_start oc)) < date" if "Inr oc \<in> set (take (length ds) rs)" for oc
  proof -
    from that obtain i where i: "i < length ds" "rs ! i = Inr oc" by (auto simp: in_set_conv_nth)
    then have "local_of k (oc_start oc) = at_time (ds ! i) (start_time k s)"
      using lists_days_nth [OF assms(2) l(1), of i oc] by (simp add: nth_append)
    with i(1) l(3) show ?thesis by simp
  qed
  ultimately show ?thesis using rs by blast
qed

theorem skipping_changes_nothing_witness:
  "\<exists>rs rs' n. occurrences demo_cal calls = Some rs \<and> occurrences_from_date demo_cal calls 19725 = Some rs' \<and>
    map unnumbered rs' = drop n (map unnumbered rs)"
  using skipping_changes_nothing [OF demo_civil demo_clock _ calls_new, of 19725] by (auto simp: rule_typed_def lib_date_def)

text \<open>The last end of a checked series whose occurrences are all in range, which its copy on the server is filtered by,
  is the end of its last occurrence: also when it is searched backwards from UNTIL in growing steps. A series with neither COUNT nor UNTIL
  has none.\<close>

theorem range_end_is_the_last:
  assumes "civil_law k" and "clock_law k" and "rule_typed r" and "series_new k start e (Some r) exdates = Some (Inr s)"
    and "occurrences k s = Some (map Inr ocs)"
  shows "range_end k s = Some (Inr (if (r_count r = None \<and> r_until r = None) \<or> ocs = [] then None
    else Some (oc_end_utc (last ocs))))"
proof -
  have "\<forall>r'. Some r = Some r' \<longrightarrow> rule_typed r'" using assms(3) by simp
  from series_new_ok [OF assms(1,4) this] have ok: "series_ok k s" .
  have r: "se_rule s = Some r" by (rule series_new_rule(2) [OF assms(4)])
  then have "\<forall>r. se_rule s = Some r \<longrightarrow> check_shape k r = Inr ()" using series_new_checks(1) [OF assms(4)] by simp
  from range_end_spec [OF assms(1,2) ok this] assms(5) r show ?thesis by auto
qed

theorem range_end_is_the_last_witness:
  "range_end demo_cal lessons = Some (Inr (Some (at_time 19737 (7 * hour))))"
  using range_end_is_the_last [OF demo_civil demo_clock _ lessons_new lesson_occurrences]
  by (simp add: rule_typed_def lesson_def)

text \<open>C37: Asked whether every one of some starts is an occurrence's, a checked series whose occurrences are in range
  answers yes exactly when each is the wall-clock time, in the same zone, that one of its occurrences starts at: whether
  the starts are looked up one by one where they are, or all in one pass over the sorted starts.\<close>

theorem occurs_at_all_is_exact:
  assumes "civil_law k" and "clock_law k" and "\<forall>r. rule = Some r \<longrightarrow> rule_typed r"
    and "series_new k start e rule exdates = Some (Inr s)" and "occurrences k s = Some (map Inr ocs)"
    and "\<forall>t\<in>set starts. lib_date (date_of (local_of k t))"
  shows "occurs_at_all k s starts = Some (Inr (\<forall>t\<in>set starts. \<exists>oc\<in>set ocs.
    local_of k (oc_start oc) = local_of k t \<and> tzid (oc_start oc) = tzid t))"
  using occurs_at_all_spec [OF assms(1,2) series_new_ok [OF assms(1,4,3)] assms(5,6)] by (simp add: starts_at_def)

theorem occurs_at_all_is_exact_witness:
  "occurs_at_all demo_cal lessons [lesson_at 19732, lesson_at 19730] = Some (Inr True) \<and>
   occurs_at_all demo_cal lessons [lesson_at 19732, lesson_at 19725] = Some (Inr False)"
  using occurs_at_all_is_exact [OF demo_civil demo_clock _ lessons_new lesson_occurrences, of "[lesson_at 19732, lesson_at 19730]"]
    occurs_at_all_is_exact [OF demo_civil demo_clock _ lessons_new lesson_occurrences, of "[lesson_at 19732, lesson_at 19725]"]
  by (simp add: rule_typed_def lib_date_def lesson_def)

text \<open>C38: A window of a checked series whose occurrences are all in range (none ends past the last date, which makes the
  query an error) is its first occurrences that meet the window: those that start before its end and end after its
  start, or that last no time and start in it; at most as many as were asked for, in order, none missed.\<close>

theorem window_is_exact:
  assumes "civil_law k" and "clock_law k" and "\<forall>r. rule = Some r \<longrightarrow> rule_typed r"
    and "series_new k start e rule exdates = Some (Inr s)" and "occurrences k s = Some (map Inr ocs)"
  shows "occurrences_between k s from_utc to_utc n = Some (Inr (take n (filter (\<lambda>oc. oc_start_utc oc < to_utc \<and>
    (oc_end_utc oc > from_utc \<or> (oc_start_utc oc = oc_end_utc oc \<and> oc_start_utc oc \<ge> from_utc))) ocs)))"
  using occurrences_between_spec [OF assms(1,2) series_new_ok [OF assms(1,4,3)] assms(5)] by (simp add: meets_def [abs_def])

theorem window_is_exact_witness:
  "occurrences_between demo_cal lessons (at_time 19730 0) (at_time 19733 0) 1 = Some (Inr [lesson 3 19730])"
  using window_is_exact [OF demo_civil demo_clock _ lessons_new lesson_occurrences, of "at_time 19730 0" "at_time 19733 0" 1]
  by (simp add: rule_typed_def lesson_def at_time_def hour_def day_ns_def)

text \<open>C39: A rule that was read, from a text in any order and with ordinal days, has one canonical text: what is written of
  it is read back as the same rule and accepted as canonical; sent to a client as fields and back it is the same rule;
  and a text that is accepted as canonical is the one that is written of it.\<close>

theorem rule_text_roundtrip:
  assumes "civil_law k" and "text_law k" and "read_rule k loose = Inr r"
  shows "read_rule k (write_rule k r) = Inr r \<and> parse_rule k (write_rule k r) = Inr r \<and> to_rule k (rule_v1_of k r) = Inr r \<and>
    (\<forall>t. parse_rule k t = Inr r \<longleftrightarrow> t = write_rule k r)"
proof -
  have c: "canonical k r" by (rule read_rule_canonical [OF assms])
  have w: "read_rule k (write_rule k r) = Inr r" by (rule written_rule_is_read [OF assms(1,2) c])
  then show ?thesis using sent_rule_is_read [OF assms(1,2) c] by (auto simp: parse_rule_def)
qed

theorem rule_text_roundtrip_witness:
  "write_rule demo_cal loose_rule = ''FREQ=MONTHLY;UNTIL=20251231;BYSETPOS=-1;BYDAY=FR'' \<and>
    parse_rule demo_cal (write_rule demo_cal loose_rule) = Inr loose_rule"
proof
  show "write_rule demo_cal loose_rule = ''FREQ=MONTHLY;UNTIL=20251231;BYSETPOS=-1;BYDAY=FR''" by code_simp
  show "parse_rule demo_cal (write_rule demo_cal loose_rule) = Inr loose_rule"
    using rule_text_roundtrip [OF demo_civil demo_text loose_read] by blast
qed

end
