(* ===== verification/Spec2Isabelle.thy ===== *)
theory Spec2Isabelle
  imports Value_Properties Group_Properties Client_Properties Protocol_Properties Home_Properties
    Account_Head_Properties Identity_Pins_Properties Block_Properties
    Manifest_Properties Calendar_Properties
begin

text \<open>
  \<^bold>\<open>Kutup\<close>: the logic its end-to-end encrypted clients and its servers must agree on.

  Kutup is a drive and a federated chat whose servers keep only ciphertext and routing data.  The server is
  not trusted: what makes the program correct is what a client checks before it believes a server, and what
  a server checks before it stores a change.  Those checks are pure Rust crates shared by every app
  (\<open>src/crates\<close>), and they are what is modelled here.

  \<^bold>\<open>Parts, and where they are.\<close>

  \<^item> \<^bold>\<open>Groups.\<close>  A chat group is a signed chain of changes kept by its home server.  Member, role, slot,
    join request and ban tables are plain; names and profiles are sealed.
    \<open>Group_State\<close> (\<open>kutup-chat-proto/src/group/mod.rs\<close>: the state, the changes, shape checks, hashes) and
    \<open>Group_Check\<close> (\<open>group/check.rs\<close>: one definition per action, \<open>check_genesis\<close>, \<open>check_change\<close>);
    \<open>Group_Safety\<close>, \<open>Group_Log\<close>, \<open>Group_Spec\<close>, \<open>Group_Entry_Rules\<close> are lemmas: invariants of an accepted
    change, chains of changes, the state as maps and sets that a change folds its actions over, who enters by
    what right.  \<open>Group_Entry\<close> (\<open>group/entry.rs\<close>), \<open>Group_Link\<close> (\<open>group/link.rs\<close>): contents of sealed
    fields, invite links.  \<open>Group_Keys\<close> (\<open>kutup-crypto/src/chat_group.rs\<close>): what the master key derives.
  \<^item> \<^bold>\<open>The home of a group.\<close>  \<open>Federation_Identity\<close> (\<open>kutup-federation-proto/src/identity.rs\<close>, \<open>lib.rs\<close>):
    the document chain that is a server's identity.  \<open>Group_Notary\<close> (\<open>group_route.rs\<close>, and the cache of
    \<open>kutup-chat-core/src/group_client.rs\<close>): the pinned home, its key configuration, its signature on each
    change.
  \<^item> \<^bold>\<open>A device's record of a group.\<close>  \<open>Group_Record\<close>, \<open>Group_View\<close> (\<open>kutup-chat-core/src/group.rs\<close>): what a
    device accepts, authors, joins and reads; \<open>Group_Record_Facts\<close>, \<open>Group_Author\<close>, \<open>Group_View_Facts\<close> are
    its lemmas; \<open>Group_Store\<close> (\<open>db/sqlite.rs\<close>): which record may replace a stored one.
  \<^item> \<^bold>\<open>The account's own state on an untrusted server.\<close>  \<open>Account_Head\<close> (\<open>kutup-crypto/src/account_head.rs\<close>):
    a signed-by-key chain of heads that commit to every private value, and what a device remembers of it;
    \<open>Account_Rename\<close>, \<open>Identity_Pins\<close> (\<open>account_rename.rs\<close>, \<open>identity_pins.rs\<close>): whom the account has met,
    under which key and which names; \<open>Account_Head_Facts\<close> and \<open>Identity_Pins_Facts\<close> are their lemmas.
  \<^item> \<^bold>\<open>Large objects.\<close>  \<open>Blocks\<close> (\<open>kutup-crypto/src/blocks.rs\<close>): a file as sealed blocks, a sealed manifest of
    their hashes and a trailer; \<open>Block_Families\<close>: its use for Drive files (\<open>drive_blocks.rs\<close>), Chat attachments
    (\<open>chat_media_blocks.rs\<close>) and padded backup media (\<open>chat_backup_media.rs\<close>,
    \<open>chat_backup_media_blocks.rs\<close>), with the commitment metadata makes to content (\<open>file_metadata.rs\<close>);
    \<open>Block_Facts\<close> and \<open>Block_Family_Facts\<close> are their lemmas.
  \<^item> \<^bold>\<open>The account's devices.\<close>  \<open>Account_Manifest\<close> and \<open>Manifest_Requests\<close>
    (\<open>kutup-chat-proto/src/account_identity.rs\<close>): the signed, chained list of an account's devices with the identity
    they share, and the requests that carry one (history pages, prekey bundles, linking, distribution of a new
    identity, registration).  \<open>Manifest_Trust\<close> (\<open>kutup-chat-core/src/manifest.rs\<close>, \<open>account_identity.rs\<close>,
    \<open>kutup-crypto/src/identity.rs\<close>): signing with the derived account keys, the pin of a peer, its acceptance of a
    later manifest, recovery of a gap, the checks of the own manifest.  \<open>Manifest_Bytes\<close>, \<open>Manifest_Facts\<close>,
    \<open>Manifest_Own\<close> are lemmas: what the signed bytes determine, pins and histories, what an account signs.
  \<^item> \<^bold>\<open>The calendar.\<close>  \<open>Calendar_Times\<close> (the times of \<open>kutup-crypto/src/calendar_event.rs\<close> over the date library),
    \<open>Calendar_Rule\<close>, \<open>Calendar_Series\<close> (\<open>calendar_recurrence.rs\<close>: rules read, checked and written; series, the
    walk over a rule's periods and every question asked of it).  \<open>Calendar_Periods\<close>, \<open>Calendar_Walk\<close>,
    \<open>Calendar_Series_Facts\<close>, \<open>Calendar_Query_Facts\<close>, \<open>Calendar_Rule_Facts\<close> are lemmas: which days a period has,
    that the walk ends and yields exactly the days named, what skipping changes, what each query answers, that
    a written rule is read back.  \<open>Clock\<close> (\<open>kutup-chat-core/src/clock.rs\<close>) holds the one calendar conversion
    the program computes itself, proved Gregorian; the calendar's laws are stated on it.
  \<^item> \<^bold>\<open>Shared values.\<close>  \<open>Names\<close> (account references, addresses, server names, UUIDs), \<open>Padding\<close> (length
    hiding), \<open>Primitives\<close> (the AEAD and Ed25519 wrappers with their length checks).

  \<open>Prelude\<close> holds results as sums (\<open>bindr\<close> is Rust's \<open>?\<close>), bytes, big-endian words and list searches;
  \<open>Tables\<close> the sorted vectors every table of the program is kept in.  \<open>*_Demo\<close> theories hold the concrete
  groups, heads and lists the witnesses run on; \<open>*_Properties\<close> the properties, each with its witness.

  \<^bold>\<open>Correspondence.\<close>  A struct is a record with a prefix per type (\<open>m_\<close> for a member, \<open>ch_\<close> for a change),
  an enum a datatype, \<open>u64\<close> and \<open>u32\<close> are words, \<open>i64\<close> milliseconds are \<open>int\<close>, bytes are lists of 8-bit words,
  strings are their UTF-8 bytes.  A method that takes \<open>&mut self\<close> returns the changed record; an \<open>Err\<close> is
  \<open>Inl\<close> with the program's own error and text; a panic (\<open>expect\<close>) is \<open>None\<close>.  Loops are structural recursion
  over the list they walk, or have a measure (\<open>chunks\<close>: the bytes left; \<open>bucket_loop\<close>: how far the bucket is
  below the source), and no fuel is used.  Two loops end only because dates do (\<open>walk\<close> over a rule's periods,
  \<open>range_end_loop\<close>): they are partial functions whose \<open>None\<close> is a loop that never ends or a panic of the date
  library, and they are proved to return for every checked series.  Random bytes (nonces, keys, ids) and clock
  readings are arguments.

  \<^bold>\<open>Interfaces.\<close>  \<open>keyed_table\<close> (a sorted vector looked up by key) is interpreted on the ban list and on the
  pins and mailboxes of the identity list; \<open>padding_scheme\<close> on the padding policies and on message padding;
  \<open>ratchet\<close> (state that fails or moves forward) on the stored groups, the gateway cache and the remembered
  head.

  \<^bold>\<open>Parameters.\<close>  Code outside the repository is a field of \<open>ext\<close> and its extensions (\<open>group_ext\<close>,
  \<open>route_ext\<close>, \<open>client_ext\<close>, \<open>head_ext\<close>, \<open>local_ext\<close>, \<open>pins_ext\<close>, \<open>signal_ext\<close> for libsignal's identity keys): base64 and hex, SHA-256, HMAC, HKDF,
  Ed25519, XChaCha20-Poly1305, and serde's JSON of each type that is hashed or sealed.  The laws a theorem
  needs are its hypotheses and say what that code documents: decoding inverts encoding (\<open>std_law\<close>,
  \<open>url_law\<close>, \<open>hex_law\<close>, and \<open>lower_hex_law\<close>: lower-case digits decode to bytes that encode to them), an opened ciphertext is the sealed plaintext (\<open>aead_law\<close>), a signature made by a
  seed verifies under its public key (\<open>ed25519_law\<close>, \<open>identity_law\<close> for libsignal's), JSON reads back.  The
  date and time zone library (\<open>jiff\<close>) is \<open>calendar_ext\<close>: \<open>civil_law\<close> says its dates are Gregorian from -9999 to
  9999, \<open>clock_law\<close> that UTC is the identity and that a time a day later on the same clock is no earlier instant,
  \<open>text_law\<close> that its formats read what they write; \<open>Calendar_Demo\<close> is a library that meets them.  No law excludes collisions or
  forgeries: where a theorem rests on SHA-256 being collision free, its conclusion names the two explicit
  values that would collide.

  \<^bold>\<open>What the lemmas show.\<close>  Of groups: an accepted change leaves a well-formed state, is exactly its actions
  over the abstract view, never lets a non-administrator change roles or policy, never takes the last
  administrator, keeps within capacity, admits only by slot, link or approval; a client that replays agrees
  with the server that accepted; the head commits to the history; a change is not replayed; what a device
  authors others accept; stored groups never go back.  Of homes: an identity history is determined by its
  last document; the cache never goes back; a notary signature verifies.  Of the account head: what is
  trusted descends from what was remembered, honest histories are always trusted, the index check is exact,
  re-anchoring is never silent.  Of blocks: what fits is sealed and read back, whole or block by block, and a
  commitment fixes the content.  Of pins: a pinned key changes only when the person accepts it and is
  remembered, an impostor is refused, renames never roll back.  Of manifests: the signature covers every field, a
  pin only follows the chain, a recovered history is complete and the only one, an honest account is always followed,
  a new identity goes to exactly the listed devices.  Of the calendar: building a series and every
  question about it returns; the occurrences are the days the rule names; skipping ahead changes nothing; a window,
  a last end and a look-up are exact; a rule has one text, read back as that rule.

  \<^bold>\<open>Bounds.\<close>  Those of the code: tables by \<open>limits\<close> and the \<open>max_\<close> constants; \<open>usize\<close> sums that the code
  checks are checked against \<open>2 ^ 64\<close> (\<open>usize_add\<close>, \<open>usize_mul\<close>); sequence arithmetic is on words and shown
  not to wrap where the code relies on it (heads stop at \<open>2 ^ 53\<close>, chains at 1000 renames).  Block objects
  hold at most \<open>2 ^ 20\<close> blocks of 4 MiB; lengths there are naturals, below \<open>2 ^ 64\<close> by that bound.

  \<^bold>\<open>Not modelled.\<close>  The text of serde errors and the JSON grammar; the cipher suite itself; the credentials
  of a group's members (\<open>zkgroup\<close>, \<open>libsignal\<close>), which are outside the repository; async transports, HTTP
  handlers, SQL, storage, workers, bindings and the command line client, which are input and output around
  these checks.  Of the crates that hold more such logic, still to be modelled: the text of calendar
  events, the password vault's merge, the chat timeline and polls, safety numbers, the search index,
  federation policy and discovery, rate limits, collaboration frames.
\<close>

end
